(* ===== verification/Prelude.thy ===== *)
theory Prelude
  imports Main "HOL-Library.Word" "HOL-Library.AList" "HOL-Library.Char_ord"
    "HOL-Library.List_Lexorder" "HOL-Library.Multiset" "HOL-Library.Signed_Division"
begin

text \<open>
  What every component of the model shares: the machine integers and instants of the Go
  services, the Go map as an association list with its invariant, sums over a map, sorting of a
  map by key, and a small locale for step relations with an inductive invariant.

  Go's \<open>int64\<close> and \<open>uint64\<close> are 64-bit words: \<open>+\<close>, \<open>-\<close> and \<open>*\<close> wrap exactly as Go's do, and
  the signed comparisons of \<open>int64\<close> are \<open><s\<close> and \<open>\<le>s\<close>. An instant (\<open>time.Time\<close>) is its number
  of nanoseconds as an integer, a duration (\<open>time.Duration\<close>) is an \<open>int64\<close> of nanoseconds.
  A mutex-guarded method is one atomic function of the state; where the source releases the
  mutex in the middle of a method, the component's theory splits the method into steps.
\<close>

section \<open>Machine integers and instants\<close>

type_synonym int64 = "64 word"
type_synonym uint64 = "64 word"
type_synonym instant = int
type_synonym duration = int64

definition max_int64 :: int64 where
  "max_int64 = 0x7FFFFFFFFFFFFFFF"

definition min_int64 :: int64 where
  "min_int64 = 0x8000000000000000"

definition time_add :: "instant \<Rightarrow> duration \<Rightarrow> instant" where
  "time_add t d = t + sint d"

definition time_before :: "instant \<Rightarrow> instant \<Rightarrow> bool" where
  "time_before t u = (t < u)"

definition time_after :: "instant \<Rightarrow> instant \<Rightarrow> bool" where
  "time_after t u = (u < t)"

text \<open>The zero \<open>time.Time\<close> is the first of January of the year 1, counted from the Unix epoch.\<close>

definition zero_time :: instant where
  "zero_time = - 62135596800 * 10 ^ 9"

text \<open>\<open>Time.Sub\<close> saturates at the bounds of a duration.\<close>

definition time_sub :: "instant \<Rightarrow> instant \<Rightarrow> duration" where
  "time_sub t u = (if 2 ^ 63 \<le> t - u then max_int64
     else if t - u < - (2 ^ 63) then min_int64 else word_of_int (t - u))"

definition day_nanos :: int where
  "day_nanos = 86400 * 10 ^ 9"

text \<open>The start of the UTC calendar day of an instant.\<close>

definition utc_day_start :: "instant \<Rightarrow> instant" where
  "utc_day_start t = t div day_nanos * day_nanos"

lemmas time_defs = time_add_def time_before_def time_after_def

lemma sint_max_int64: "sint max_int64 = 2 ^ 63 - 1"
  by (simp add: max_int64_def)

lemma sint_min_int64: "sint min_int64 = - (2 ^ 63)"
  by (simp add: min_int64_def)

lemma sint_bounds64: "- (2 ^ 63) \<le> sint (x :: int64) \<and> sint x < 2 ^ 63"
  using sint_greater_eq [of x] sint_less [of x] by simp

lemma sint_le_max64: "sint (x :: int64) \<le> 2 ^ 63 - 1"
  using sint_bounds64 [of x] by simp

lemma sint_ge_min64: "- (2 ^ 63) \<le> sint (x :: int64)"
  using sint_bounds64 [of x] by simp

lemma sint_of_int64:
  "- (2 ^ 63) \<le> i \<Longrightarrow> i < 2 ^ 63 \<Longrightarrow> sint (word_of_int i :: int64) = i"
  by (simp add: signed_of_int signed_take_bit_int_eq_self)

text \<open>Division of \<open>int64\<close> truncates toward zero; the callers never divide by zero.\<close>

definition int64_div :: "int64 \<Rightarrow> int64 \<Rightarrow> int64" where
  "int64_div x y = word_of_int (sint x sdiv sint y)"

definition int64_mod :: "int64 \<Rightarrow> int64 \<Rightarrow> int64" where
  "int64_mod x y = word_of_int (sint x smod sint y)"

lemma sint_of_nat64: "n < 2 ^ 63 \<Longrightarrow> sint (of_nat n :: int64) = int n"
  using sint_of_int64 [of "int n"] by (simp add: of_int_of_nat_eq)

lemma unat_of_nat64: "n < 2 ^ 64 \<Longrightarrow> unat (of_nat n :: uint64) = n"
  by (simp add: unat_of_nat take_bit_nat_eq_self)

lemma utc_day_start_mono: "t \<le> u \<Longrightarrow> utc_day_start t \<le> utc_day_start u"
  by (simp add: utc_day_start_def day_nanos_def zdiv_mono1)

lemma sint_add64:
  fixes x y :: int64
  assumes "- (2 ^ 63) \<le> sint x + sint y" and "sint x + sint y < 2 ^ 63"
  shows "sint (x + y) = sint x + sint y"
proof -
  have "x + y = word_of_int (sint x + sint y)"
    by (simp add: of_int_add)
  then show ?thesis
    using sint_of_int64 [OF assms] by simp
qed

lemma sint_sub64:
  fixes x y :: int64
  assumes "- (2 ^ 63) \<le> sint x - sint y" and "sint x - sint y < 2 ^ 63"
  shows "sint (x - y) = sint x - sint y"
proof -
  have "x - y = word_of_int (sint x - sint y)"
    by (simp add: of_int_diff)
  then show ?thesis
    using sint_of_int64 [OF assms] by simp
qed

lemma sint_mult64:
  fixes x y :: int64
  assumes "- (2 ^ 63) \<le> sint x * sint y" and "sint x * sint y < 2 ^ 63"
  shows "sint (x * y) = sint x * sint y"
proof -
  have "x * y = word_of_int (sint x * sint y)"
    by (simp add: of_int_mult)
  then show ?thesis
    using sint_of_int64 [OF assms] by simp
qed

lemma sint_eq_uint64: "uint (x :: int64) < 2 ^ 63 \<Longrightarrow> sint x = uint x"
  using sint_of_int64 [of "uint x", OF order_trans [OF _ uint_ge_0]] by simp

lemma sint_uminus64:
  fixes x :: int64
  assumes "x \<noteq> min_int64"
  shows "sint (- x) = - sint x"
proof -
  have "sint x \<noteq> - (2 ^ 63)"
    using assms sint_min_int64 by (metis signed_word_eqI)
  then have "- (2 ^ 63) \<le> - sint x" and "- sint x < 2 ^ 63"
    using sint_bounds64 [of x] by simp_all
  moreover have "- x = word_of_int (- sint x)"
    by simp
  ultimately show ?thesis
    using sint_of_int64 [of "- sint x"] by simp
qed

section \<open>Go maps as association lists\<close>

text \<open>
  A Go map is an association list with distinct keys. \<open>lookup\<close> is the two-valued read
  \<open>v, ok := m[k]\<close>, \<open>put\<close> the assignment \<open>m[k] = v\<close>, \<open>remove\<close> is \<open>delete(m, k)\<close>.
  Iteration (\<open>for k, v := range m\<close>) visits the entries in the order of the list; Go's own order
  is unspecified, so where an iteration's result matters the theories show that it depends on
  the lookups only.
\<close>

type_synonym 'v table = "(string \<times> 'v) list"

abbreviation lookup :: "('k \<times> 'v) list \<Rightarrow> 'k \<Rightarrow> 'v option" where
  "lookup t k \<equiv> map_of t k"

abbreviation put :: "'k \<Rightarrow> 'v \<Rightarrow> ('k \<times> 'v) list \<Rightarrow> ('k \<times> 'v) list" where
  "put k v t \<equiv> AList.update k v t"

abbreviation remove :: "'k \<Rightarrow> ('k \<times> 'v) list \<Rightarrow> ('k \<times> 'v) list" where
  "remove k t \<equiv> AList.delete k t"

definition table_ok :: "('k \<times> 'v) list \<Rightarrow> bool" where
  "table_ok t = distinct (map fst t)"

text \<open>Reading an absent key of a Go map gives the zero value of the value type.\<close>

definition lookup_or :: "'v \<Rightarrow> ('k \<times> 'v) list \<Rightarrow> 'k \<Rightarrow> 'v" where
  "lookup_or d t k = (case lookup t k of None \<Rightarrow> d | Some v \<Rightarrow> v)"

lemma lookup_put [simp]: "lookup (put k v t) k' = (if k' = k then Some v else lookup t k')"
  by (simp add: AList.update_conv')

lemma lookup_remove [simp]: "lookup (remove k t) k' = (if k' = k then None else lookup t k')"
  by (simp add: AList.delete_conv')

lemma lookup_or_put [simp]: "lookup_or d (put k v t) k' = (if k' = k then v else lookup_or d t k')"
  by (simp add: lookup_or_def)

lemma table_ok_Nil [simp]: "table_ok []"
  by (simp add: table_ok_def)

lemma table_ok_put [simp]: "table_ok t \<Longrightarrow> table_ok (put k v t)"
  by (simp add: table_ok_def AList.distinct_update)

lemma table_ok_remove [simp]: "table_ok t \<Longrightarrow> table_ok (remove k t)"
  by (simp add: table_ok_def AList.distinct_delete)

lemma lookup_in_set: "table_ok t \<Longrightarrow> (k, v) \<in> set t \<longleftrightarrow> lookup t k = Some v"
  by (auto simp: table_ok_def)

lemma lookup_eq_imp_mset:
  assumes "table_ok t" and "table_ok u" and "\<And>k. lookup t k = lookup u k"
  shows "mset t = mset u"
proof -
  have "set t = set u"
    using assms map_of_inject_set [of t u] by (auto simp: table_ok_def)
  moreover have "distinct t" "distinct u"
    using assms by (auto simp: table_ok_def distinct_map)
  ultimately show ?thesis
    by (simp add: set_eq_iff_mset_eq_distinct)
qed

text \<open>
  A map of maps (\<open>map[string]map[string]int64\<close>): reading through an absent inner map is reading
  an absent key, writing through one creates it first.
\<close>

definition nested_lookup :: "('a \<times> ('b \<times> 'v) list) list \<Rightarrow> 'a \<Rightarrow> 'b \<Rightarrow> 'v option" where
  "nested_lookup t a k = lookup (lookup_or [] t a) k"

definition nested_get :: "'v \<Rightarrow> ('a \<times> ('b \<times> 'v) list) list \<Rightarrow> 'a \<Rightarrow> 'b \<Rightarrow> 'v" where
  "nested_get d t a k = lookup_or d (lookup_or [] t a) k"

definition nested_put ::
    "'a \<Rightarrow> 'b \<Rightarrow> 'v \<Rightarrow> ('a \<times> ('b \<times> 'v) list) list \<Rightarrow> ('a \<times> ('b \<times> 'v) list) list" where
  "nested_put a k v t = put a (put k v (lookup_or [] t a)) t"

lemma nested_lookup_Nil [simp]: "nested_lookup [] a k = None"
  by (simp add: nested_lookup_def lookup_or_def)

lemma nested_get_Nil [simp]: "nested_get d [] a k = d"
  by (simp add: nested_get_def lookup_or_def)

lemma nested_lookup_put [simp]:
  "nested_lookup (nested_put a k v t) b j = (if b = a \<and> j = k then Some v else nested_lookup t b j)"
  by (simp add: nested_lookup_def nested_put_def)

lemma nested_get_put [simp]:
  "nested_get d (nested_put a k v t) b j = (if b = a \<and> j = k then v else nested_get d t b j)"
  by (simp add: nested_get_def nested_put_def)

section \<open>Sums over a map\<close>

definition table_sum :: "('k \<Rightarrow> 'v \<Rightarrow> 'a) \<Rightarrow> ('k \<times> 'v) list \<Rightarrow> 'a::comm_monoid_add" where
  "table_sum f t = sum_list (map (\<lambda>(k, v). f k v) t)"

lemma table_sum_Nil [simp]: "table_sum f [] = 0"
  by (simp add: table_sum_def)

lemma table_sum_Cons [simp]: "table_sum f ((k, v) # t) = f k v + table_sum f t"
  by (simp add: table_sum_def)

lemma table_sum_put:
  fixes f :: "'k \<Rightarrow> 'v \<Rightarrow> 'a::ab_group_add"
  assumes "table_ok t"
  shows "table_sum f (put k v t) =
    table_sum f t + f k v - (case lookup t k of None \<Rightarrow> 0 | Some w \<Rightarrow> f k w)"
  using assms
proof (induction t)
  case Nil
  then show ?case by simp
next
  case (Cons kv t)
  obtain k' v' where kv: "kv = (k', v')" by fastforce
  show ?case
    using Cons by (auto simp: kv table_ok_def map_of_eq_None_iff algebra_simps)
qed

lemma table_sum_cong_lookup:
  assumes "table_ok t" and "table_ok u" and "\<And>k. lookup t k = lookup u k"
  shows "table_sum f t = table_sum f u"
proof -
  have "mset t = mset u" by (rule lookup_eq_imp_mset) (use assms in auto)
  then show ?thesis
    unfolding table_sum_def by (metis mset_map sum_mset_sum_list)
qed

section \<open>Sorting a map by key\<close>

text \<open>
  \<open>sort.Slice\<close> is not stable, but on distinct keys every sort gives the same list: the sorted
  list of a map depends on its lookups only.
\<close>

lemma sort_by_key_cong:
  fixes t u :: "('k::linorder \<times> 'v) list"
  assumes "table_ok t" and "table_ok u" and "\<And>k. lookup t k = lookup u k"
  shows "sort_key fst t = sort_key fst u"
proof -
  have m: "mset t = mset (sort_key fst u)"
    using lookup_eq_imp_mset [OF assms] by simp
  have "inj_on fst (set t)"
    using assms(1) by (simp add: table_ok_def distinct_map)
  then show ?thesis
    by (rule sort_key_inj_key_eq [OF m]) simp
qed

lemma lookup_sort_by_key:
  fixes t :: "('k::linorder \<times> 'v) list"
  assumes "table_ok t"
  shows "lookup (sort_key fst t) k = lookup t k"
proof -
  have "set (sort_key fst t) = set t" by simp
  moreover have "distinct (map fst (sort_key fst t))"
    using assms by (metis mset_map mset_sort mset_eq_imp_distinct_iff table_ok_def)
  ultimately show ?thesis
    using assms by (metis map_of_inject_set table_ok_def)
qed

lemma table_ok_sort_by_key [simp]:
  fixes t :: "('k::linorder \<times> 'v) list"
  shows "table_ok (sort_key fst t) = table_ok t"
  unfolding table_ok_def by (metis mset_map mset_sort mset_eq_imp_distinct_iff)

section \<open>Registries: maps keyed by a field of their values\<close>

text \<open>
  Most services keep a map from an identifier to a record that carries the same identifier.
  \<open>indexed_by f t\<close> says so; the values of such a map are the entries found under their own key.
\<close>

definition indexed_by :: "('v \<Rightarrow> 'k) \<Rightarrow> ('k \<times> 'v) list \<Rightarrow> bool" where
  "indexed_by f t \<longleftrightarrow> table_ok t \<and> (\<forall>k v. lookup t k = Some v \<longrightarrow> f v = k)"

lemma indexed_by_Nil [simp]: "indexed_by f []"
  by (simp add: indexed_by_def)

lemma indexed_by_put [simp]: "indexed_by f t \<Longrightarrow> f v = k \<Longrightarrow> indexed_by f (put k v t)"
  by (auto simp: indexed_by_def)

lemma indexed_by_remove [simp]: "indexed_by f t \<Longrightarrow> indexed_by f (remove k t)"
  by (auto simp: indexed_by_def)

lemma indexed_by_ok: "indexed_by f t \<Longrightarrow> table_ok t"
  by (simp add: indexed_by_def)

lemma indexed_by_key: "indexed_by f t \<Longrightarrow> lookup t k = Some v \<Longrightarrow> f v = k"
  by (simp add: indexed_by_def)

lemma indexed_by_entry: "indexed_by f t \<Longrightarrow> (k, v) \<in> set t \<Longrightarrow> f v = k"
  using lookup_in_set [of t k v] by (simp add: indexed_by_def)

lemma indexed_by_mem:
  assumes "indexed_by f t"
  shows "v \<in> snd ` set t \<longleftrightarrow> lookup t (f v) = Some v"
proof
  assume "v \<in> snd ` set t"
  then obtain k where kv: "(k, v) \<in> set t" by auto
  then have "f v = k" by (rule indexed_by_entry [OF assms])
  with kv show "lookup t (f v) = Some v"
    using lookup_in_set [OF indexed_by_ok [OF assms]] by simp
next
  assume "lookup t (f v) = Some v"
  then have "(f v, v) \<in> set t" by (rule map_of_SomeD)
  then show "v \<in> snd ` set t" by force
qed

lemma indexed_by_keys: "indexed_by f t \<Longrightarrow> map (\<lambda>kv. f (snd kv)) t = map fst t"
  using indexed_by_entry [of f t] by (auto simp: case_prod_unfold)

lemma distinct_indexed_values:
  assumes "indexed_by f t"
  shows "distinct (map f (sort_key g (filter P (map snd t))))"
proof -
  have keys: "map f (map snd t) = map fst t"
    using indexed_by_keys [OF assms] by (simp add: comp_def)
  have "distinct (map f (map snd t))"
    unfolding keys using assms by (simp add: indexed_by_def table_ok_def)
  then have "distinct (map f (filter P (map snd t)))"
    by (rule distinct_map_filter)
  then show ?thesis
    by (metis mset_map mset_sort mset_eq_imp_distinct_iff)
qed

lemma mem_indexed_values:
  assumes "indexed_by f t"
  shows "v \<in> set (sort_key g (filter P (map snd t))) \<longleftrightarrow> lookup t (f v) = Some v \<and> P v"
  using indexed_by_mem [OF assms, of v] by auto

section \<open>Text\<close>

text \<open>Case mapping and trimming of ASCII text (\<open>strings.ToLower\<close>, \<open>strings.ToUpper\<close>, \<open>strings.TrimSpace\<close>).\<close>

definition ascii_lower :: "string \<Rightarrow> string" where
  "ascii_lower = map (\<lambda>c. if CHR ''A'' \<le> c \<and> c \<le> CHR ''Z'' then char_of (of_char c + 32 :: nat) else c)"

definition is_space :: "char \<Rightarrow> bool" where
  "is_space c = (of_char c \<in> {9, 10, 11, 12, 13, 32 :: nat})"

definition trim_space :: "string \<Rightarrow> string" where
  "trim_space s = rev (dropWhile is_space (rev (dropWhile is_space s)))"

definition ascii_upper :: "string \<Rightarrow> string" where
  "ascii_upper = map (\<lambda>c. if CHR ''a'' \<le> c \<and> c \<le> CHR ''z'' then char_of (of_char c - 32 :: nat) else c)"

lemma length_filter_mono:
  "(\<And>x. x \<in> set xs \<Longrightarrow> P x \<Longrightarrow> Q x) \<Longrightarrow> length (filter P xs) \<le> length (filter Q xs)"
  by (induction xs) (auto simp: le_SucI)

section \<open>Step relations with an inductive invariant\<close>

text \<open>
  The contract of a component whose methods interleave: an initial state, a step relation and
  an invariant that both respect. Every reachable state then satisfies the invariant.
\<close>

inductive reachable_by :: "('s \<Rightarrow> bool) \<Rightarrow> ('s \<Rightarrow> 's \<Rightarrow> bool) \<Rightarrow> 's \<Rightarrow> bool"
  for init :: "'s \<Rightarrow> bool" and step :: "'s \<Rightarrow> 's \<Rightarrow> bool" where
  reachable_init: "init s \<Longrightarrow> reachable_by init step s"
| reachable_step: "reachable_by init step s \<Longrightarrow> step s t \<Longrightarrow> reachable_by init step t"

locale invariant_system =
  fixes init :: "'s \<Rightarrow> bool" and step :: "'s \<Rightarrow> 's \<Rightarrow> bool" and inv :: "'s \<Rightarrow> bool"
  assumes inv_init: "init s \<Longrightarrow> inv s"
    and inv_step: "inv s \<Longrightarrow> step s t \<Longrightarrow> inv t"
begin

lemma inv_reachable: "reachable_by init step s \<Longrightarrow> inv s"
  by (induction rule: reachable_by.induct) (auto intro: inv_init inv_step)

end

end
