(* ===== verification/JournalEntry.thy ===== *)
theory JournalEntry
  imports Prelude
begin

text \<open>
  The data of the ledger's accounting core (\<open>LedgerAccountLine\<close>, \<open>JournalEntry\<close> and the errors of
  services/ledger/internal/doubleentry/doubleEntryLedgerCore.go), the effect of an entry on
  one account, and the contract of the \<open>LedgerBook\<close> interface as a locale. The clients of the
  ledger (fund segregation, withdrawals, wallets) rest on the facts proved here from that
  contract; the in-memory book discharges it in DoubleEntry.
\<close>

section \<open>Lines and entries\<close>

record ledger_account_line =
  line_account :: string
  line_amount :: int64

record journal_entry =
  entry_description :: string
  debit_lines :: "ledger_account_line list"
  credit_lines :: "ledger_account_line list"

datatype ledger_error =
    JournalEntryDoesNotBalance int64 int64 string
  | UnknownLedgerAccount string

text \<open>The accumulator loops of the source, in the order of the lines.\<close>

fun sum_lines_from :: "int64 \<Rightarrow> ledger_account_line list \<Rightarrow> int64" where
  "sum_lines_from n [] = n"
| "sum_lines_from n (l # ls) = sum_lines_from (n + line_amount l) ls"

definition sum_of_debit_lines :: "journal_entry \<Rightarrow> int64" where
  "sum_of_debit_lines e = sum_lines_from 0 (debit_lines e)"

definition sum_of_credit_lines :: "journal_entry \<Rightarrow> int64" where
  "sum_of_credit_lines e = sum_lines_from 0 (credit_lines e)"

lemma sum_lines_from_eq: "sum_lines_from n ls = n + sum_list (map line_amount ls)"
  by (induction ls arbitrary: n) (auto simp: algebra_simps)

lemma sum_of_debit_lines_eq: "sum_of_debit_lines e = sum_list (map line_amount (debit_lines e))"
  by (simp add: sum_of_debit_lines_def sum_lines_from_eq)

lemma sum_of_credit_lines_eq: "sum_of_credit_lines e = sum_list (map line_amount (credit_lines e))"
  by (simp add: sum_of_credit_lines_def sum_lines_from_eq)

lemmas entry_sums = sum_of_debit_lines_eq sum_of_credit_lines_eq

text \<open>Sums of lines whose absolute amounts fit in 63 bits do not wrap.\<close>

lemma sint_sum_lines:
  "(\<Sum>l\<leftarrow>ls. \<bar>sint (line_amount l)\<bar>) < 2 ^ 63 \<Longrightarrow>
    sint (sum_list (map line_amount ls)) = (\<Sum>l\<leftarrow>ls. sint (line_amount l))"
proof (induction ls)
  case Nil
  then show ?case by simp
next
  case (Cons l ls)
  have "\<bar>\<Sum>k\<leftarrow>ls. sint (line_amount k)\<bar> \<le> (\<Sum>k\<leftarrow>ls. \<bar>sint (line_amount k)\<bar>)"
    by (rule order_trans [OF sum_list_abs]) (simp add: comp_def)
  moreover have "0 \<le> \<bar>sint (line_amount l)\<bar>" by simp
  ultimately show ?case
    using Cons by (simp add: sint_add64)
qed

section \<open>The effect of an entry on one account\<close>

text \<open>
  The specification of posting: the amount an entry adds to one account (a debit increases, a
  credit decreases). It is not code; the book's operations are proved against it.
\<close>

definition lines_effect :: "string \<Rightarrow> ledger_account_line list \<Rightarrow> int64" where
  "lines_effect a ls = sum_list (map line_amount (filter (\<lambda>l. line_account l = a) ls))"

definition net_effect :: "journal_entry \<Rightarrow> string \<Rightarrow> int64" where
  "net_effect e a = lines_effect a (debit_lines e) - lines_effect a (credit_lines e)"

definition entry_balanced :: "journal_entry \<Rightarrow> bool" where
  "entry_balanced e = (sum_of_debit_lines e = sum_of_credit_lines e)"

definition entry_accounts :: "journal_entry \<Rightarrow> string set" where
  "entry_accounts e = line_account ` (set (debit_lines e) \<union> set (credit_lines e))"

lemma lines_effect_Nil [simp]: "lines_effect a [] = 0"
  by (simp add: lines_effect_def)

lemma lines_effect_Cons [simp]:
  "lines_effect a (l # ls) = (if line_account l = a then line_amount l else 0) + lines_effect a ls"
  by (simp add: lines_effect_def)

lemma lines_effect_untouched: "a \<notin> line_account ` set ls \<Longrightarrow> lines_effect a ls = 0"
  by (induction ls) auto

lemma net_effect_untouched: "a \<notin> entry_accounts e \<Longrightarrow> net_effect e a = 0"
  by (simp add: net_effect_def entry_accounts_def lines_effect_untouched image_Un)

lemma sum_line_effects:
  assumes "distinct as" and "line_account ` set ls \<subseteq> set as"
  shows "(\<Sum>a\<leftarrow>as. lines_effect a ls) = sum_list (map line_amount ls)"
  using assms(2)
proof (induction ls)
  case Nil
  then show ?case by (simp add: sum_list_0)
next
  case (Cons l ls)
  have "(\<Sum>a\<leftarrow>as. if line_account l = a then line_amount l else 0) = line_amount l"
    using Cons.prems assms(1) by (simp add: sum_list_distinct_conv_sum_set)
  with Cons show ?case by (simp add: sum_list_addf)
qed

text \<open>A balanced entry moves money between accounts and creates none, modulo \<open>2 ^ 64\<close>.\<close>

lemma sum_net_effect:
  assumes "distinct as" and "entry_accounts e \<subseteq> set as"
  shows "(\<Sum>a\<leftarrow>as. net_effect e a) = sum_of_debit_lines e - sum_of_credit_lines e"
  using assms
  by (simp add: net_effect_def entry_sums sum_list_subtractf sum_line_effects entry_accounts_def
    image_Un)

section \<open>The contract of the ledger book\<close>

text \<open>
  What \<open>LedgerBook\<close> promises its consumers: an entry is posted exactly when it balances and every
  account it names exists; posting adds the entry's effect to each account; registering an
  absent account opens it at zero and never touches an existing one.
\<close>

definition balance_or_zero :: "ledger_error + int64 \<Rightarrow> int64" where
  "balance_or_zero r = (case r of Inl _ \<Rightarrow> 0 | Inr v \<Rightarrow> v)"

definition total_balance :: "(string \<Rightarrow> ledger_error + int64) \<Rightarrow> string list \<Rightarrow> int64" where
  "total_balance bal as = (\<Sum>a\<leftarrow>as. balance_or_zero (bal a))"

locale ledger_interface =
  fixes post :: "journal_entry \<Rightarrow> 'book \<Rightarrow> ledger_error + 'book"
    and register :: "string \<Rightarrow> 'book \<Rightarrow> 'book \<times> bool"
    and balance :: "'book \<Rightarrow> string \<Rightarrow> ledger_error + int64"
  assumes post_ok_iff:
      "isl (post e b) \<longleftrightarrow> \<not> (entry_balanced e \<and> (\<forall>a \<in> entry_accounts e. \<not> isl (balance b a)))"
    and post_known: "post e b = Inr b' \<Longrightarrow> balance b a = Inr v \<Longrightarrow>
      balance b' a = Inr (v + net_effect e a)"
    and post_unknown: "post e b = Inr b' \<Longrightarrow> isl (balance b a) \<Longrightarrow> balance b' a = balance b a"
    and register_known: "\<not> isl (balance b a) \<Longrightarrow> register a b = (b, False)"
    and register_new: "isl (balance b a) \<Longrightarrow> register a b = (b', opened) \<Longrightarrow>
      opened \<and> balance b' a = Inr 0 \<and> (\<forall>c. c \<noteq> a \<longrightarrow> balance b' c = balance b c)"
begin

lemma post_succeeds:
  assumes "entry_balanced e" and "\<And>a. a \<in> entry_accounts e \<Longrightarrow> \<not> isl (balance b a)"
  obtains b' where "post e b = Inr b'"
  using assms post_ok_iff [of e b] by (cases "post e b") auto

lemma post_balanced: "post e b = Inr b' \<Longrightarrow> entry_balanced e"
  using post_ok_iff [of e b] by auto

lemma post_accounts_known: "post e b = Inr b' \<Longrightarrow> a \<in> entry_accounts e \<Longrightarrow> \<not> isl (balance b a)"
  using post_ok_iff [of e b] by auto

lemma post_isl: "post e b = Inr b' \<Longrightarrow> isl (balance b' a) = isl (balance b a)"
  using post_known [of e b b' a] post_unknown [of e b b' a] by (cases "balance b a") auto

lemma balance_or_zero_post:
  assumes "post e b = Inr b'"
  shows "balance_or_zero (balance b' a) = balance_or_zero (balance b a) + net_effect e a"
proof (cases "balance b a")
  case (Inl err)
  then have "a \<notin> entry_accounts e"
    using post_accounts_known [OF assms, of a] by auto
  with Inl post_unknown [OF assms, of a] show ?thesis
    by (simp add: net_effect_untouched)
next
  case (Inr v)
  with post_known [OF assms] show ?thesis
    by (simp add: balance_or_zero_def)
qed

lemma total_balance_post:
  assumes "post e b = Inr b'"
  shows "total_balance (balance b') as = total_balance (balance b) as + (\<Sum>a\<leftarrow>as. net_effect e a)"
  by (simp add: total_balance_def balance_or_zero_post [OF assms] sum_list_addf)

lemma register_balance:
  assumes "register a b = (b', opened)"
  shows "balance b' c = (if c = a \<and> isl (balance b a) then Inr 0 else balance b c)"
proof (cases "isl (balance b a)")
  case True
  from register_new [OF this assms] True show ?thesis by simp
next
  case False
  from register_known [OF this] assms have "b' = b" by simp
  with False show ?thesis by simp
qed

lemma register_balance_or_zero:
  assumes "register a b = (b', opened)"
  shows "balance_or_zero (balance b' c) = balance_or_zero (balance b c)"
  unfolding register_balance [OF assms] by (cases "balance b a") (auto simp: balance_or_zero_def)

lemma total_balance_register:
  assumes "register a b = (b', opened)"
  shows "total_balance (balance b') as = total_balance (balance b) as"
  by (simp add: total_balance_def register_balance_or_zero [OF assms])

lemma register_opens: "register a b = (b', opened) \<Longrightarrow> \<not> isl (balance b' a)"
  by (simp add: register_balance)

lemma register_keeps_open:
  assumes "register a b = (b', opened)" and "\<not> isl (balance b c)"
  shows "balance b' c = balance b c"
  using assms(2) by (auto simp: register_balance [OF assms(1)])

end

end
