(* ===== verification/DoubleEntry.thy ===== *)
theory DoubleEntry
  imports JournalEntry
begin

text \<open>
  The in-memory ledger book, services/ledger/internal/doubleentry/doubleEntryLedgerCore.go:
  its state (balances by account, posted entries in post order), \<open>PostJournalEntry\<close>,
  \<open>RegisterAccountIfAbsent\<close> and \<open>CurrentBalanceInMinorUnits\<close>, each one atomic step under the
  book's mutex. An error leaves the book as it was, which the result type says: an error
  carries no book.
\<close>

section \<open>State and operations\<close>

record ledger_book =
  account_balances :: "int64 table"
  posted_entries :: "journal_entry list"

fun open_accounts_at_zero :: "string list \<Rightarrow> int64 table \<Rightarrow> int64 table" where
  "open_accounts_at_zero [] t = t"
| "open_accounts_at_zero (a # as) t = open_accounts_at_zero as (put a 0 t)"

definition new_ledger_book_with_accounts :: "string list \<Rightarrow> ledger_book" where
  "new_ledger_book_with_accounts initial =
    \<lparr>account_balances = open_accounts_at_zero initial [], posted_entries = []\<rparr>"

fun first_unknown_account :: "ledger_account_line list \<Rightarrow> int64 table \<Rightarrow> string option" where
  "first_unknown_account [] t = None"
| "first_unknown_account (l # ls) t =
    (if lookup t (line_account l) = None then Some (line_account l) else first_unknown_account ls t)"

fun apply_debit_lines :: "ledger_account_line list \<Rightarrow> int64 table \<Rightarrow> int64 table" where
  "apply_debit_lines [] t = t"
| "apply_debit_lines (l # ls) t =
    apply_debit_lines ls (put (line_account l) (lookup_or 0 t (line_account l) + line_amount l) t)"

fun apply_credit_lines :: "ledger_account_line list \<Rightarrow> int64 table \<Rightarrow> int64 table" where
  "apply_credit_lines [] t = t"
| "apply_credit_lines (l # ls) t =
    apply_credit_lines ls (put (line_account l) (lookup_or 0 t (line_account l) - line_amount l) t)"

definition post_journal_entry :: "journal_entry \<Rightarrow> ledger_book \<Rightarrow> ledger_error + ledger_book" where
  "post_journal_entry e b =
    (if sum_of_debit_lines e \<noteq> sum_of_credit_lines e
     then Inl (JournalEntryDoesNotBalance (sum_of_debit_lines e) (sum_of_credit_lines e)
       (entry_description e))
     else case first_unknown_account (debit_lines e) (account_balances b) of
       Some a \<Rightarrow> Inl (UnknownLedgerAccount a)
     | None \<Rightarrow>
         (case first_unknown_account (credit_lines e) (account_balances b) of
            Some a \<Rightarrow> Inl (UnknownLedgerAccount a)
          | None \<Rightarrow> Inr (b\<lparr>
              account_balances := apply_credit_lines (credit_lines e)
                (apply_debit_lines (debit_lines e) (account_balances b)),
              posted_entries := posted_entries b @ [e]\<rparr>)))"

definition register_account_if_absent :: "string \<Rightarrow> ledger_book \<Rightarrow> ledger_book \<times> bool" where
  "register_account_if_absent a b =
    (if lookup (account_balances b) a \<noteq> None then (b, False)
     else (b\<lparr>account_balances := put a 0 (account_balances b)\<rparr>, True))"

definition current_balance :: "ledger_book \<Rightarrow> string \<Rightarrow> ledger_error + int64" where
  "current_balance b a = (case lookup (account_balances b) a of
     None \<Rightarrow> Inl (UnknownLedgerAccount a)
   | Some v \<Rightarrow> Inr v)"

section \<open>The loops over the lines\<close>

lemma first_unknown_None:
  "first_unknown_account ls t = None \<longleftrightarrow> (\<forall>l \<in> set ls. lookup t (line_account l) \<noteq> None)"
  by (induction ls) auto

lemma lookup_apply_debit_lines:
  "lookup (apply_debit_lines ls t) a =
    (if a \<in> line_account ` set ls then Some (lookup_or 0 t a + lines_effect a ls) else lookup t a)"
  by (induction ls arbitrary: t) (auto simp: lines_effect_untouched algebra_simps)

lemma lookup_apply_credit_lines:
  "lookup (apply_credit_lines ls t) a =
    (if a \<in> line_account ` set ls then Some (lookup_or 0 t a - lines_effect a ls) else lookup t a)"
  by (induction ls arbitrary: t) (auto simp: lines_effect_untouched algebra_simps)

lemma table_ok_apply_debit_lines [simp]: "table_ok t \<Longrightarrow> table_ok (apply_debit_lines ls t)"
  by (induction ls arbitrary: t) auto

lemma table_ok_apply_credit_lines [simp]: "table_ok t \<Longrightarrow> table_ok (apply_credit_lines ls t)"
  by (induction ls arbitrary: t) auto

lemma table_sum_apply_debit_lines:
  "table_ok t \<Longrightarrow> table_sum (\<lambda>_ v. v) (apply_debit_lines ls t) =
    table_sum (\<lambda>_ v. v) t + sum_list (map line_amount ls)"
  by (induction ls arbitrary: t)
    (auto simp: table_sum_put lookup_or_def split: option.splits)

lemma table_sum_apply_credit_lines:
  "table_ok t \<Longrightarrow> table_sum (\<lambda>_ v. v) (apply_credit_lines ls t) =
    table_sum (\<lambda>_ v. v) t - sum_list (map line_amount ls)"
  by (induction ls arbitrary: t)
    (auto simp: table_sum_put lookup_or_def split: option.splits)

lemma lookup_open_accounts:
  "lookup (open_accounts_at_zero as t) a = (if a \<in> set as then Some 0 else lookup t a)"
  by (induction as arbitrary: t) auto

lemma table_ok_open_accounts [simp]: "table_ok t \<Longrightarrow> table_ok (open_accounts_at_zero as t)"
  by (induction as arbitrary: t) auto

section \<open>What posting does\<close>

lemma current_balance_isl: "isl (current_balance b a) \<longleftrightarrow> lookup (account_balances b) a = None"
  by (simp add: current_balance_def split: option.splits)

lemma current_balance_Inr: "current_balance b a = Inr v \<longleftrightarrow> lookup (account_balances b) a = Some v"
  by (simp add: current_balance_def split: option.splits)

lemma post_journal_entry_Inr:
  "post_journal_entry e b = Inr b' \<longleftrightarrow>
    entry_balanced e \<and> (\<forall>a \<in> entry_accounts e. lookup (account_balances b) a \<noteq> None) \<and>
    b' = b\<lparr>account_balances := apply_credit_lines (credit_lines e)
             (apply_debit_lines (debit_lines e) (account_balances b)),
           posted_entries := posted_entries b @ [e]\<rparr>"
proof -
  have "first_unknown_account (debit_lines e) (account_balances b) = None \<and>
      first_unknown_account (credit_lines e) (account_balances b) = None \<longleftrightarrow>
    (\<forall>a \<in> entry_accounts e. lookup (account_balances b) a \<noteq> None)"
    by (auto simp: first_unknown_None entry_accounts_def)
  then show ?thesis
    by (auto simp: post_journal_entry_def entry_balanced_def split: option.splits)
qed

lemma post_journal_entry_balances:
  assumes "post_journal_entry e b = Inr b'"
  shows "lookup (account_balances b') a =
    (case lookup (account_balances b) a of None \<Rightarrow> None | Some v \<Rightarrow> Some (v + net_effect e a))"
proof -
  have known: "lookup (account_balances b) a \<noteq> None" if "a \<in> entry_accounts e" for a
    using assms that by (simp add: post_journal_entry_Inr)
  show ?thesis
  proof (cases "lookup (account_balances b) a")
    case None
    then have "a \<notin> entry_accounts e" using known by blast
    with None assms show ?thesis
      by (auto simp: post_journal_entry_Inr lookup_apply_debit_lines lookup_apply_credit_lines
        entry_accounts_def)
  next
    case (Some v)
    with assms show ?thesis
      by (auto simp: post_journal_entry_Inr lookup_apply_debit_lines lookup_apply_credit_lines
        net_effect_def lookup_or_def lines_effect_untouched)
  qed
qed

lemma post_journal_entry_posted:
  "post_journal_entry e b = Inr b' \<Longrightarrow> posted_entries b' = posted_entries b @ [e]"
  by (simp add: post_journal_entry_Inr)

section \<open>The in-memory book keeps the contract\<close>

interpretation book: ledger_interface post_journal_entry register_account_if_absent current_balance
proof (unfold_locales, goal_cases)
  case (1 e b)
  have "isl r \<longleftrightarrow> \<not> (\<exists>x. r = Inr x)" for r :: "ledger_error + ledger_book"
    by (cases r) auto
  then show ?case
    by (auto simp: post_journal_entry_Inr current_balance_isl)
next
  case (2 e b b' a v)
  then show ?case
    by (simp add: current_balance_Inr post_journal_entry_balances)
next
  case (3 e b b' a)
  then have "lookup (account_balances b') a = None"
    by (simp add: current_balance_isl post_journal_entry_balances)
  with 3 show ?case
    by (auto simp: current_balance_def split: option.splits)
next
  case (4 b a)
  then show ?case
    by (simp add: register_account_if_absent_def current_balance_isl)
next
  case (5 b a b' opened)
  then show ?case
    unfolding current_balance_isl
    by (auto simp: register_account_if_absent_def current_balance_def)
qed

section \<open>The books a ledger can hold\<close>

text \<open>
  A book is well formed when its map has distinct keys; it is explained by its journal when every
  balance is the sum of the effects of the posted entries, each of which balances and names
  existing accounts only.
\<close>

definition journal_effect :: "journal_entry list \<Rightarrow> string \<Rightarrow> int64" where
  "journal_effect es a = (\<Sum>e\<leftarrow>es. net_effect e a)"

definition explained_by_journal :: "ledger_book \<Rightarrow> bool" where
  "explained_by_journal b \<longleftrightarrow>
    (\<forall>a v. lookup (account_balances b) a = Some v \<longrightarrow> v = journal_effect (posted_entries b) a) \<and>
    (\<forall>e \<in> set (posted_entries b). entry_balanced e \<and>
       (\<forall>a \<in> entry_accounts e. lookup (account_balances b) a \<noteq> None))"

definition trial_balance :: "ledger_book \<Rightarrow> int64" where
  "trial_balance b = table_sum (\<lambda>_ v. v) (account_balances b)"

definition book_inv :: "ledger_book \<Rightarrow> bool" where
  "book_inv b \<longleftrightarrow> table_ok (account_balances b) \<and> trial_balance b = 0 \<and> explained_by_journal b"

lemma table_sum_open_accounts:
  "table_ok t \<Longrightarrow> (\<And>a v. lookup t a = Some v \<Longrightarrow> v = 0) \<Longrightarrow>
    table_sum (\<lambda>_ v. v) (open_accounts_at_zero as t) = (table_sum (\<lambda>_ v. v) t :: int64)"
proof (induction as arbitrary: t)
  case Nil
  then show ?case by simp
next
  case (Cons a as)
  have "table_sum (\<lambda>_ v. v) (put a 0 t) = table_sum (\<lambda>_ v. v) t"
    using Cons.prems by (auto simp: table_sum_put split: option.splits)
  moreover have "\<And>c v. lookup (put a 0 t) c = Some v \<Longrightarrow> v = 0"
    using Cons.prems(2) by (auto split: if_splits)
  ultimately show ?case
    using Cons.IH [of "put a 0 t"] Cons.prems(1) by simp
qed

lemma book_inv_new: "book_inv (new_ledger_book_with_accounts as)"
  using table_sum_open_accounts [of "[]" as]
  by (auto simp: book_inv_def new_ledger_book_with_accounts_def trial_balance_def
    explained_by_journal_def journal_effect_def lookup_open_accounts split: if_splits)

lemma journal_effect_snoc: "journal_effect (es @ [e]) a = journal_effect es a + net_effect e a"
  by (simp add: journal_effect_def)

lemma trial_balance_post:
  assumes "table_ok (account_balances b)" and "post_journal_entry e b = Inr b'"
  shows "trial_balance b' = trial_balance b"
  using assms
  by (simp add: trial_balance_def post_journal_entry_Inr table_sum_apply_debit_lines
    table_sum_apply_credit_lines entry_balanced_def entry_sums)

lemma explained_post:
  assumes "explained_by_journal b" and "post_journal_entry e b = Inr b'"
  shows "explained_by_journal b'"
proof -
  note bal = post_journal_entry_balances [OF assms(2)]
    and posted = post_journal_entry_posted [OF assms(2)]
  have "entry_balanced e" and "\<forall>a \<in> entry_accounts e. lookup (account_balances b) a \<noteq> None"
    using assms(2) by (simp_all add: post_journal_entry_Inr)
  then show ?thesis
    using assms(1)
    by (auto simp: explained_by_journal_def bal posted journal_effect_snoc split: option.splits)
qed

lemma book_inv_post: "book_inv b \<Longrightarrow> post_journal_entry e b = Inr b' \<Longrightarrow> book_inv b'"
  using trial_balance_post explained_post
  by (auto simp: book_inv_def post_journal_entry_Inr)

lemma journal_effect_untouched:
  "(\<And>e. e \<in> set es \<Longrightarrow> a \<notin> entry_accounts e) \<Longrightarrow> journal_effect es a = 0"
  by (induction es) (auto simp: journal_effect_def net_effect_untouched)

lemma book_inv_register:
  assumes "book_inv b" and "register_account_if_absent a b = (b', opened)"
  shows "book_inv b'"
proof (cases "lookup (account_balances b) a")
  case (Some v)
  with assms show ?thesis by (simp add: register_account_if_absent_def)
next
  case None
  then have b': "b' = b\<lparr>account_balances := put a 0 (account_balances b)\<rparr>"
    using assms(2) by (simp add: register_account_if_absent_def)
  have "a \<notin> entry_accounts e" if "e \<in> set (posted_entries b)" for e
    using assms(1) that None unfolding book_inv_def explained_by_journal_def by blast
  then have "journal_effect (posted_entries b) a = 0"
    by (rule journal_effect_untouched)
  with assms(1) None show ?thesis
    by (auto simp: b' book_inv_def trial_balance_def explained_by_journal_def table_sum_put)
qed

end
