(* ===== verification/Snapshot.thy ===== *)
theory Snapshot
  imports DoubleEntry
begin

text \<open>
  Capturing and restoring the in-memory book,
  services/ledger/internal/doubleentry/snapshotRestore.go: the snapshot types with their own
  fields, \<open>CaptureSnapshot\<close> (accounts sorted by identifier, entries in post order) and
  \<open>RestoreFromSnapshot\<close> (a hard replace). The states a ledger can reach through posting,
  registering and restoring its own snapshots are the relation \<open>ledger_reachable\<close>.
\<close>

section \<open>Snapshot types and conversions\<close>

record ledger_account_balance_snapshot =
  snap_account :: string
  snap_balance :: int64

record ledger_account_line_snapshot =
  snap_line_account :: string
  snap_line_amount :: int64

record journal_entry_snapshot =
  snap_description :: string
  snap_debit_lines :: "ledger_account_line_snapshot list"
  snap_credit_lines :: "ledger_account_line_snapshot list"

record ledger_book_snapshot =
  snapshot_format_version :: int
  snapshot_account_balances :: "ledger_account_balance_snapshot list"
  snapshot_posted_entries :: "journal_entry_snapshot list"

definition current_snapshot_format_version :: int where
  "current_snapshot_format_version = 1"

definition convert_lines_to_snapshot_lines ::
    "ledger_account_line list \<Rightarrow> ledger_account_line_snapshot list" where
  "convert_lines_to_snapshot_lines ls =
    map (\<lambda>l. \<lparr>snap_line_account = line_account l, snap_line_amount = line_amount l\<rparr>) ls"

definition convert_snapshot_lines_to_lines ::
    "ledger_account_line_snapshot list \<Rightarrow> ledger_account_line list" where
  "convert_snapshot_lines_to_lines ls =
    map (\<lambda>l. \<lparr>line_account = snap_line_account l, line_amount = snap_line_amount l\<rparr>) ls"

definition capture_snapshot :: "ledger_book \<Rightarrow> ledger_book_snapshot" where
  "capture_snapshot b = \<lparr>
    snapshot_format_version = current_snapshot_format_version,
    snapshot_account_balances =
      sort_key snap_account
        (map (\<lambda>(a, v). \<lparr>snap_account = a, snap_balance = v\<rparr>) (account_balances b)),
    snapshot_posted_entries = map (\<lambda>e. \<lparr>
      snap_description = entry_description e,
      snap_debit_lines = convert_lines_to_snapshot_lines (debit_lines e),
      snap_credit_lines = convert_lines_to_snapshot_lines (credit_lines e)\<rparr>) (posted_entries b)\<rparr>"

fun restore_balances :: "ledger_account_balance_snapshot list \<Rightarrow> int64 table \<Rightarrow> int64 table" where
  "restore_balances [] t = t"
| "restore_balances (s # ss) t = restore_balances ss (put (snap_account s) (snap_balance s) t)"

definition restore_from_snapshot :: "ledger_book_snapshot \<Rightarrow> ledger_book \<Rightarrow> ledger_book" where
  "restore_from_snapshot s b = b\<lparr>
    account_balances := restore_balances (snapshot_account_balances s) [],
    posted_entries := map (\<lambda>e. \<lparr>
      entry_description = snap_description e,
      debit_lines = convert_snapshot_lines_to_lines (snap_debit_lines e),
      credit_lines = convert_snapshot_lines_to_lines (snap_credit_lines e)\<rparr>)
      (snapshot_posted_entries s)\<rparr>"

section \<open>Round trip\<close>

lemma convert_lines_round_trip [simp]:
  "convert_snapshot_lines_to_lines (convert_lines_to_snapshot_lines ls) = ls"
  by (induction ls)
    (auto simp: convert_snapshot_lines_to_lines_def convert_lines_to_snapshot_lines_def)

lemma entry_rebuilt [simp]:
  "\<lparr>entry_description = entry_description e, debit_lines = debit_lines e,
    credit_lines = credit_lines e\<rparr> = (e :: journal_entry)"
  by (cases e) simp

lemma put_fresh: "lookup t k = None \<Longrightarrow> put k v t = t @ [(k, v)]"
  by (induction t) (auto split: if_splits)

lemma restore_balances_append:
  "distinct (map snap_account ss) \<Longrightarrow> (\<And>s. s \<in> set ss \<Longrightarrow> lookup t (snap_account s) = None) \<Longrightarrow>
    restore_balances ss t = t @ map (\<lambda>s. (snap_account s, snap_balance s)) ss"
proof (induction ss arbitrary: t)
  case Nil
  then show ?case by simp
next
  case (Cons s ss)
  have "lookup (t @ [(snap_account s, snap_balance s)]) (snap_account r) = None"
    if "r \<in> set ss" for r
    using Cons.prems that by (auto simp: map_add_def image_iff)
  then have "restore_balances ss (t @ [(snap_account s, snap_balance s)]) =
      (t @ [(snap_account s, snap_balance s)]) @ map (\<lambda>s. (snap_account s, snap_balance s)) ss"
    using Cons.IH Cons.prems(1) by simp
  then show ?case
    using Cons.prems(2) by (simp add: put_fresh)
qed

lemma snapshot_balances_sorted:
  "snapshot_account_balances (capture_snapshot b) =
    map (\<lambda>(a, v). \<lparr>snap_account = a, snap_balance = v\<rparr>) (sort_key fst (account_balances b))"
proof -
  let ?f = "\<lambda>(a, v). \<lparr>snap_account = a, snap_balance = v\<rparr>"
  have "insort_key snap_account (?f x) (map ?f xs) = map ?f (insort_key fst x xs)" for x xs
    by (induction xs) (auto split: prod.splits)
  then have "sort_key snap_account (map ?f t) = map ?f (sort_key fst t)" for t
    by (induction t) (auto simp: sort_key_def)
  then show ?thesis
    by (simp add: capture_snapshot_def)
qed

lemma restore_capture:
  assumes "table_ok (account_balances b)"
  shows "restore_from_snapshot (capture_snapshot b) c =
    c\<lparr>account_balances := sort_key fst (account_balances b), posted_entries := posted_entries b\<rparr>"
proof -
  have "distinct (map fst (sort_key fst (account_balances b)))"
    using assms by (metis table_ok_def table_ok_sort_by_key)
  then have "restore_balances (snapshot_account_balances (capture_snapshot b)) [] =
      sort_key fst (account_balances b)"
    by (subst restore_balances_append)
      (auto simp: snapshot_balances_sorted comp_def case_prod_unfold)
  then show ?thesis
    by (simp add: restore_from_snapshot_def) (simp add: capture_snapshot_def comp_def)
qed

section \<open>The states a ledger reaches\<close>

inductive ledger_reachable :: "ledger_book \<Rightarrow> bool" where
  reach_new: "ledger_reachable (new_ledger_book_with_accounts as)"
| reach_post: "ledger_reachable b \<Longrightarrow> post_journal_entry e b = Inr b' \<Longrightarrow> ledger_reachable b'"
| reach_register: "ledger_reachable b \<Longrightarrow> register_account_if_absent a b = (b', opened) \<Longrightarrow>
    ledger_reachable b'"
| reach_restore: "ledger_reachable b \<Longrightarrow> ledger_reachable c \<Longrightarrow>
    ledger_reachable (restore_from_snapshot (capture_snapshot c) b)"

lemma book_inv_restore:
  assumes "book_inv c"
  shows "book_inv (restore_from_snapshot (capture_snapshot c) b)"
proof -
  have ok: "table_ok (account_balances c)"
    using assms by (simp add: book_inv_def)
  then have "table_sum (\<lambda>_ v. v) (sort_key fst (account_balances c)) =
      table_sum (\<lambda>_ v. v) (account_balances c)"
    by (intro table_sum_cong_lookup) (simp_all add: lookup_sort_by_key)
  with assms ok show ?thesis
    by (simp add: restore_capture book_inv_def trial_balance_def explained_by_journal_def
      lookup_sort_by_key)
qed

lemma ledger_reachable_inv: "ledger_reachable b \<Longrightarrow> book_inv b"
  by (induction rule: ledger_reachable.induct)
    (auto intro: book_inv_new book_inv_post book_inv_register book_inv_restore)

section \<open>Properties\<close>

text \<open>
  C3. Posting is atomic and exact. An entry is refused precisely when its debit and credit sums
  differ or it names an unknown account, and a refusal carries no new book; an accepted entry
  adds exactly its net effect to every account, opens no account, and appends itself to the
  journal.
\<close>

theorem post_journal_entry_exact:
  "case post_journal_entry e b of
     Inl err \<Rightarrow> \<not> (sum_of_debit_lines e = sum_of_credit_lines e \<and>
                   entry_accounts e \<subseteq> dom (lookup (account_balances b)))
   | Inr b' \<Rightarrow> sum_of_debit_lines e = sum_of_credit_lines e \<and>
       entry_accounts e \<subseteq> dom (lookup (account_balances b)) \<and>
       lookup (account_balances b') =
         (\<lambda>a. map_option (\<lambda>v. v + net_effect e a) (lookup (account_balances b) a)) \<and>
       posted_entries b' = posted_entries b @ [e]"
proof (cases "post_journal_entry e b")
  case (Inl err)
  then have "\<not> (\<exists>b'. post_journal_entry e b = Inr b')" by simp
  then have "\<not> (entry_balanced e \<and> (\<forall>a \<in> entry_accounts e. lookup (account_balances b) a \<noteq> None))"
    by (simp add: post_journal_entry_Inr)
  then show ?thesis
    unfolding Inl entry_balanced_def by (simp add: subset_iff domIff) blast
next
  case (Inr b')
  have "lookup (account_balances b') =
      (\<lambda>a. map_option (\<lambda>v. v + net_effect e a) (lookup (account_balances b) a))"
    using post_journal_entry_balances [OF Inr] by (auto simp: fun_eq_iff split: option.splits)
  moreover have "entry_accounts e \<subseteq> dom (lookup (account_balances b))"
    using Inr by (simp add: post_journal_entry_Inr subset_iff domIff)
  ultimately show ?thesis
    using book.post_balanced [OF Inr] post_journal_entry_posted [OF Inr]
    by (simp add: Inr entry_balanced_def)
qed

text \<open>
  C4. The books always balance and are explained by their journal. In every state the ledger can
  reach by posting, registering accounts and restoring its own snapshots, the balances of all
  accounts add up to zero and each balance is the sum of the effects of the posted entries, so
  replaying the journal reproduces the book.
\<close>

theorem ledger_reachable_balanced:
  assumes "ledger_reachable b"
  shows "trial_balance b = 0 \<and> explained_by_journal b"
  using ledger_reachable_inv [OF assms] by (simp add: book_inv_def)

definition demo_entry :: journal_entry where
  "demo_entry = \<lparr>entry_description = ''deposit'',
     debit_lines = [\<lparr>line_account = ''acct-001'', line_amount = 500\<rparr>],
     credit_lines = [\<lparr>line_account = ''firm'', line_amount = 500\<rparr>]\<rparr>"

definition demo_book :: ledger_book where
  "demo_book = \<lparr>account_balances = [(''acct-001'', 500), (''firm'', - 500)],
     posted_entries = [demo_entry]\<rparr>"

lemma demo_post:
  "post_journal_entry demo_entry (new_ledger_book_with_accounts [''acct-001'', ''firm'']) =
    Inr demo_book"
  by (simp add: post_journal_entry_def demo_entry_def demo_book_def
    new_ledger_book_with_accounts_def sum_of_debit_lines_def sum_of_credit_lines_def lookup_or_def)

lemma demo_book_reachable: "ledger_reachable demo_book"
  by (rule reach_post [OF reach_new demo_post])

lemma ledger_reachable_balanced_witness:
  "ledger_reachable demo_book \<and> trial_balance demo_book = 0 \<and> explained_by_journal demo_book"
  using ledger_reachable_balanced [OF demo_book_reachable] demo_book_reachable by simp

text \<open>
  C22. A snapshot restores the book it was taken from: whatever the running ledger held before,
  after restoring it has exactly the accounts, the balances and the journal of the captured
  book, and capturing again gives the same snapshot.
\<close>

theorem restore_capture_round_trip:
  assumes "table_ok (account_balances b)"
  shows "lookup (account_balances (restore_from_snapshot (capture_snapshot b) running)) =
      lookup (account_balances b)
    \<and> posted_entries (restore_from_snapshot (capture_snapshot b) running) = posted_entries b
    \<and> capture_snapshot (restore_from_snapshot (capture_snapshot b) running) = capture_snapshot b"
proof -
  have "sort_key fst (sort_key fst (account_balances b)) = sort_key fst (account_balances b)"
    by (simp add: sort_key_id_if_sorted)
  then have "snapshot_account_balances (capture_snapshot
        (restore_from_snapshot (capture_snapshot b) running)) =
      snapshot_account_balances (capture_snapshot b)"
    using assms by (simp add: snapshot_balances_sorted restore_capture)
  then show ?thesis
    using assms by (simp add: restore_capture lookup_sort_by_key fun_eq_iff)
      (simp add: capture_snapshot_def)
qed

lemma restore_capture_round_trip_witness:
  "table_ok (account_balances demo_book) \<and>
   posted_entries (restore_from_snapshot (capture_snapshot demo_book)
     (new_ledger_book_with_accounts [''x''])) = [demo_entry]"
proof -
  have ok: "table_ok (account_balances demo_book)"
    by (simp add: table_ok_def demo_book_def)
  show ?thesis
    using restore_capture_round_trip [OF ok] ok by (simp add: demo_book_def)
qed

text \<open>
  As long as the amounts of an accepted entry add up to less than \<open>2 ^ 63\<close> in absolute value,
  the entry balances as whole numbers too: the debits and the credits are the same amount of
  money, and not only the same 64-bit word.
\<close>

theorem accepted_entry_balances_as_integers:
  assumes "post_journal_entry e b = Inr b'"
    and "(\<Sum>l\<leftarrow>debit_lines e @ credit_lines e. \<bar>sint (line_amount l)\<bar>) < 2 ^ 63"
  shows "(\<Sum>l\<leftarrow>debit_lines e. sint (line_amount l)) = (\<Sum>l\<leftarrow>credit_lines e. sint (line_amount l))"
proof -
  have nonneg: "0 \<le> (\<Sum>l\<leftarrow>ls. \<bar>sint (line_amount l)\<bar>)" for ls
    by (rule sum_list_nonneg) auto
  have "(\<Sum>l\<leftarrow>debit_lines e. \<bar>sint (line_amount l)\<bar>) < 2 ^ 63"
    and "(\<Sum>l\<leftarrow>credit_lines e. \<bar>sint (line_amount l)\<bar>) < 2 ^ 63"
    using assms(2) nonneg [of "debit_lines e"] nonneg [of "credit_lines e"] by simp_all
  then have "sint (sum_of_debit_lines e) = (\<Sum>l\<leftarrow>debit_lines e. sint (line_amount l))"
    and "sint (sum_of_credit_lines e) = (\<Sum>l\<leftarrow>credit_lines e. sint (line_amount l))"
    by (simp_all add: entry_sums sint_sum_lines)
  then show ?thesis
    using assms(1) by (simp add: post_journal_entry_Inr entry_balanced_def)
qed

lemma accepted_entry_balances_as_integers_witness:
  "(\<Sum>l\<leftarrow>debit_lines demo_entry. sint (line_amount l)) = 500 \<and>
   (\<Sum>l\<leftarrow>debit_lines demo_entry. sint (line_amount l)) =
     (\<Sum>l\<leftarrow>credit_lines demo_entry. sint (line_amount l))"
  using accepted_entry_balances_as_integers [OF demo_post] by (simp add: demo_entry_def)

definition wrapping_entry :: journal_entry where
  "wrapping_entry = \<lparr>entry_description = ''wraps'',
     debit_lines = [\<lparr>line_account = ''a'', line_amount = max_int64\<rparr>,
       \<lparr>line_account = ''b'', line_amount = max_int64\<rparr>,
       \<lparr>line_account = ''c'', line_amount = 2\<rparr>],
     credit_lines = []\<rparr>"

text \<open>
  Beyond that bound the balance check is a check modulo \<open>2 ^ 64\<close>: an entry that debits three
  accounts with strictly positive amounts and credits nothing is accepted, because its debit sum
  wraps to zero, and every one of the three balances grows.
\<close>

theorem wrapping_entry_accepted:
  "(\<Sum>l\<leftarrow>debit_lines wrapping_entry. sint (line_amount l)) = 2 ^ 64
   \<and> credit_lines wrapping_entry = []
   \<and> post_journal_entry wrapping_entry (new_ledger_book_with_accounts [''a'', ''b'', ''c'']) =
     Inr \<lparr>account_balances = [(''a'', max_int64), (''b'', max_int64), (''c'', 2)],
          posted_entries = [wrapping_entry]\<rparr>"
  by (simp add: wrapping_entry_def post_journal_entry_def sum_of_debit_lines_def
    sum_of_credit_lines_def new_ledger_book_with_accounts_def lookup_or_def sint_max_int64)
    (simp add: max_int64_def)

end
