(* ===== verification/FundSegregation.thy ===== *)
theory FundSegregation
  imports Snapshot
begin

text \<open>
  Client-fund segregation, services/ledger/internal/fundsegregation/clientFundSegregation.go: the
  guard over the ledger book, its two posting operations, the report and the dry-run
  validation. The custody pool must hold exactly what the client accounts hold together; the
  difference is \<open>discrepancy\<close>, and every path through the guard keeps it.
\<close>

section \<open>State and operations\<close>

datatype account_kind = AccountKindClient | AccountKindFirm

datatype segregation_error =
    SegregationLedgerError ledger_error
  | WouldBreakSegregation int64 int64 string
  | UnclassifiedAccount string
  | InvalidMovementAmount int64
  | MovementAmountTooLarge int64 int64

definition max_movement_amount :: int64 where
  "max_movement_amount = 0x3FFFFFFFFFFFFFFF"

record segregation_guard =
  custody_pool_account :: string
  external_cash_suspense_account :: string
  account_kinds :: "account_kind table"

fun classify_accounts :: "account_kind \<Rightarrow> string list \<Rightarrow> account_kind table \<Rightarrow> account_kind table" where
  "classify_accounts k [] t = t"
| "classify_accounts k (a # as) t = classify_accounts k as (put a k t)"

definition new_segregation_guard ::
    "string \<Rightarrow> string \<Rightarrow> string list \<Rightarrow> string list \<Rightarrow> segregation_guard" where
  "new_segregation_guard pool suspense clients firms =
    \<lparr>custody_pool_account = pool, external_cash_suspense_account = suspense,
     account_kinds = classify_accounts AccountKindFirm firms
       (classify_accounts AccountKindClient clients [])\<rparr>"

definition account_kind_of :: "segregation_guard \<Rightarrow> string \<Rightarrow> account_kind option" where
  "account_kind_of g a = lookup (account_kinds g) a"

definition is_client :: "segregation_guard \<Rightarrow> string \<Rightarrow> bool" where
  "is_client g a = (account_kind_of g a = Some AccountKindClient)"

definition client_movement_entry ::
    "segregation_guard \<Rightarrow> string \<Rightarrow> int64 \<Rightarrow> string \<Rightarrow> journal_entry" where
  "client_movement_entry g client amount description =
    (let absolute = (if amount <s 0 then - amount else amount);
         twice = absolute * 2;
         both = [\<lparr>line_account = client, line_amount = absolute\<rparr>,
                 \<lparr>line_account = custody_pool_account g, line_amount = absolute\<rparr>];
         outside = [\<lparr>line_account = external_cash_suspense_account g, line_amount = twice\<rparr>]
     in if amount <s 0
        then \<lparr>entry_description = description, debit_lines = outside, credit_lines = both\<rparr>
        else \<lparr>entry_description = description, debit_lines = both, credit_lines = outside\<rparr>)"

definition lift_ledger_error :: "ledger_error + 'a \<Rightarrow> segregation_error + 'a" where
  "lift_ledger_error r = (case r of Inl err \<Rightarrow> Inl (SegregationLedgerError err) | Inr x \<Rightarrow> Inr x)"

definition post_client_money_movement ::
    "segregation_guard \<Rightarrow> string \<Rightarrow> int64 \<Rightarrow> string \<Rightarrow> ledger_book \<Rightarrow>
      segregation_error + ledger_book" where
  "post_client_money_movement g client amount description b =
    (if amount = 0 then Inl (InvalidMovementAmount 0)
     else if \<not> is_client g client then Inl (UnclassifiedAccount client)
     else if max_movement_amount <s (if amount <s 0 then - amount else amount)
       then Inl (MovementAmountTooLarge (if amount <s 0 then - amount else amount)
         max_movement_amount)
     else lift_ledger_error
       (post_journal_entry (client_movement_entry g client amount description) b))"

record segregation_report =
  report_custody_pool_account :: string
  report_custody_pool_balance :: int64
  report_aggregate_client_balance :: int64
  report_discrepancy :: int64
  report_is_segregation_intact :: bool
  report_client_account_count :: nat

fun sum_client_balances ::
    "account_kind table \<Rightarrow> ledger_book \<Rightarrow> int64 \<Rightarrow> nat \<Rightarrow> ledger_error + int64 \<times> nat" where
  "sum_client_balances [] b aggregate n = Inr (aggregate, n)"
| "sum_client_balances ((a, k) # kinds) b aggregate n =
    (if k \<noteq> AccountKindClient then sum_client_balances kinds b aggregate n
     else case current_balance b a of
       Inl err \<Rightarrow> Inl err
     | Inr v \<Rightarrow> sum_client_balances kinds b (aggregate + v) (Suc n))"

definition check_segregation_invariant ::
    "segregation_guard \<Rightarrow> ledger_book \<Rightarrow> ledger_error + segregation_report" where
  "check_segregation_invariant g b =
    (case current_balance b (custody_pool_account g) of
       Inl err \<Rightarrow> Inl err
     | Inr custody \<Rightarrow>
         (case sum_client_balances (account_kinds g) b 0 0 of
            Inl err \<Rightarrow> Inl err
          | Inr (aggregate, n) \<Rightarrow> Inr \<lparr>
              report_custody_pool_account = custody_pool_account g,
              report_custody_pool_balance = custody,
              report_aggregate_client_balance = aggregate,
              report_discrepancy = custody - aggregate,
              report_is_segregation_intact = (custody - aggregate = 0),
              report_client_account_count = n\<rparr>))"

text \<open>The closure \<open>applyLine\<close> of the source, over the pair (net client delta, net custody delta).\<close>

definition validate_line ::
    "segregation_guard \<Rightarrow> int64 \<Rightarrow> ledger_account_line \<Rightarrow> int64 \<times> int64 \<Rightarrow> int64 \<times> int64" where
  "validate_line g sign l d =
    (if line_account l = custody_pool_account g then (fst d, snd d + sign * line_amount l)
     else if is_client g (line_account l) then (fst d + sign * line_amount l, snd d)
     else d)"

definition entry_deltas :: "segregation_guard \<Rightarrow> journal_entry \<Rightarrow> int64 \<times> int64" where
  "entry_deltas g e =
    fold (validate_line g (- 1)) (credit_lines e) (fold (validate_line g 1) (debit_lines e) (0, 0))"

definition validate_entry_preserves_segregation ::
    "segregation_guard \<Rightarrow> journal_entry \<Rightarrow> segregation_error + unit" where
  "validate_entry_preserves_segregation g e =
    (if fst (entry_deltas g e) \<noteq> snd (entry_deltas g e)
     then Inl (WouldBreakSegregation (fst (entry_deltas g e)) (snd (entry_deltas g e))
       (entry_description e))
     else Inr ())"

definition inter_client_entry :: "string \<Rightarrow> string \<Rightarrow> int64 \<Rightarrow> string \<Rightarrow> journal_entry" where
  "inter_client_entry from_client to_client amount description =
    \<lparr>entry_description = description,
     debit_lines = [\<lparr>line_account = to_client, line_amount = amount\<rparr>],
     credit_lines = [\<lparr>line_account = from_client, line_amount = amount\<rparr>]\<rparr>"

definition post_inter_client_transfer ::
    "segregation_guard \<Rightarrow> string \<Rightarrow> string \<Rightarrow> int64 \<Rightarrow> string \<Rightarrow> ledger_book \<Rightarrow>
      segregation_error + ledger_book" where
  "post_inter_client_transfer g from_client to_client amount description b =
    (if amount \<le>s 0 then Inl (InvalidMovementAmount amount)
     else if \<not> is_client g from_client then Inl (UnclassifiedAccount from_client)
     else if \<not> is_client g to_client then Inl (UnclassifiedAccount to_client)
     else lift_ledger_error
       (post_journal_entry (inter_client_entry from_client to_client amount description) b))"

section \<open>The segregation contract\<close>

text \<open>
  A guard is well formed when its classification is a map, the custody pool is not itself a
  client and the suspense account is neither the pool nor a client: what \<open>main.go\<close> configures.
\<close>

definition client_accounts :: "segregation_guard \<Rightarrow> string list" where
  "client_accounts g = map fst (filter (\<lambda>(a, k). k = AccountKindClient) (account_kinds g))"

definition guard_ok :: "segregation_guard \<Rightarrow> bool" where
  "guard_ok g \<longleftrightarrow> table_ok (account_kinds g) \<and> \<not> is_client g (custody_pool_account g) \<and>
    \<not> is_client g (external_cash_suspense_account g) \<and>
    external_cash_suspense_account g \<noteq> custody_pool_account g"

definition discrepancy_of ::
    "segregation_guard \<Rightarrow> (string \<Rightarrow> ledger_error + int64) \<Rightarrow> int64" where
  "discrepancy_of g bal =
    balance_or_zero (bal (custody_pool_account g)) - total_balance bal (client_accounts g)"

abbreviation discrepancy :: "segregation_guard \<Rightarrow> ledger_book \<Rightarrow> int64" where
  "discrepancy g b \<equiv> discrepancy_of g (current_balance b)"

definition entry_drift :: "segregation_guard \<Rightarrow> journal_entry \<Rightarrow> int64" where
  "entry_drift g e = net_effect e (custody_pool_account g) - (\<Sum>a\<leftarrow>client_accounts g. net_effect e a)"

text \<open>On any ledger that keeps the contract, posting moves the discrepancy by the entry's drift.\<close>

context ledger_interface begin

lemma discrepancy_post:
  "post e b = Inr b' \<Longrightarrow> discrepancy_of g (balance b') = discrepancy_of g (balance b) + entry_drift g e"
  by (simp add: discrepancy_of_def balance_or_zero_post total_balance_post entry_drift_def)

lemma discrepancy_register:
  "register a b = (b', opened) \<Longrightarrow> discrepancy_of g (balance b') = discrepancy_of g (balance b)"
  by (simp add: discrepancy_of_def register_balance_or_zero total_balance_register)

end

lemma set_client_accounts:
  "table_ok (account_kinds g) \<Longrightarrow> a \<in> set (client_accounts g) \<longleftrightarrow> is_client g a"
  by (force simp: client_accounts_def is_client_def account_kind_of_def lookup_in_set [symmetric])

lemma distinct_client_accounts:
  "table_ok (account_kinds g) \<Longrightarrow> distinct (client_accounts g)"
  by (auto simp: client_accounts_def table_ok_def intro: distinct_map_filter)

lemma sum_over_clients:
  assumes "table_ok (account_kinds g)"
  shows "(\<Sum>a\<leftarrow>client_accounts g. if a = c then v else 0) = (if is_client g c then v else (0 :: int64))"
  using assms
  by (simp add: sum_list_distinct_conv_sum_set distinct_client_accounts set_client_accounts)

lemma table_ok_classify [simp]: "table_ok t \<Longrightarrow> table_ok (classify_accounts k as t)"
  by (induction k as t rule: classify_accounts.induct) auto

lemma lookup_classify:
  "lookup (classify_accounts k as t) a = (if a \<in> set as then Some k else lookup t a)"
  by (induction k as t rule: classify_accounts.induct) auto

lemma is_client_new_guard:
  "is_client (new_segregation_guard pool suspense clients firms) a \<longleftrightarrow>
    a \<in> set clients \<and> a \<notin> set firms"
  by (simp add: is_client_def account_kind_of_def new_segregation_guard_def lookup_classify)

section \<open>The drift of the guard's own entries\<close>

lemma sum_clients_lines:
  assumes "table_ok (account_kinds g)"
  shows "(\<Sum>a\<leftarrow>client_accounts g. lines_effect a ls) =
    (\<Sum>l\<leftarrow>ls. if is_client g (line_account l) then line_amount l else 0)"
proof (induction ls)
  case Nil
  then show ?case by simp
next
  case (Cons l ls)
  have "(\<Sum>a\<leftarrow>client_accounts g. if line_account l = a then line_amount l else 0) =
      (\<Sum>a\<leftarrow>client_accounts g. if a = line_account l then line_amount l else 0)"
    by (rule arg_cong [of _ _ sum_list]) auto
  then show ?case
    using Cons by (simp add: sum_list_addf sum_over_clients [OF assms])
qed

lemma entry_drift_lines:
  assumes "table_ok (account_kinds g)"
  shows "entry_drift g e =
    lines_effect (custody_pool_account g) (debit_lines e)
    - lines_effect (custody_pool_account g) (credit_lines e)
    - ((\<Sum>l\<leftarrow>debit_lines e. if is_client g (line_account l) then line_amount l else 0)
       - (\<Sum>l\<leftarrow>credit_lines e. if is_client g (line_account l) then line_amount l else 0))"
  by (simp add: entry_drift_def net_effect_def sum_list_subtractf sum_clients_lines [OF assms])

lemma client_movement_drift:
  assumes "guard_ok g" and "is_client g client"
  shows "entry_drift g (client_movement_entry g client amount description) = 0"
  using assms
  by (auto simp: guard_ok_def entry_drift_lines client_movement_entry_def Let_def)

lemma inter_client_drift:
  assumes "guard_ok g" and "is_client g from_client" and "is_client g to_client"
  shows "entry_drift g (inter_client_entry from_client to_client amount description) = 0"
  using assms by (auto simp: guard_ok_def entry_drift_lines inter_client_entry_def)

lemma client_movement_balanced: "entry_balanced (client_movement_entry g client amount description)"
  by (simp add: entry_balanced_def entry_sums client_movement_entry_def Let_def)

lemma inter_client_balanced: "entry_balanced (inter_client_entry c d amount description)"
  by (simp add: entry_balanced_def entry_sums inter_client_entry_def)

lemma net_effect_inter_client:
  "net_effect (inter_client_entry c d amount description) a =
    (if a = d then amount else 0) - (if a = c then amount else 0)"
  by (auto simp: net_effect_def inter_client_entry_def)

lemma fold_validate_lines:
  "fold (validate_line g s) ls (c, p) =
    (c + s * (\<Sum>l\<leftarrow>ls. if line_account l \<noteq> custody_pool_account g \<and> is_client g (line_account l)
                 then line_amount l else 0),
     p + s * lines_effect (custody_pool_account g) ls)"
  by (induction ls arbitrary: c p) (auto simp: validate_line_def algebra_simps)

lemma entry_deltas_drift:
  assumes "guard_ok g"
  shows "snd (entry_deltas g e) - fst (entry_deltas g e) = entry_drift g e"
proof -
  have ok: "table_ok (account_kinds g)"
    using assms by (simp add: guard_ok_def)
  have client: "(line_account l \<noteq> custody_pool_account g \<and> is_client g (line_account l)) =
      is_client g (line_account l)" for l
    using assms by (auto simp: guard_ok_def)
  show ?thesis
    unfolding entry_deltas_def fold_validate_lines entry_drift_lines [OF ok] client fst_conv snd_conv
    by simp
qed

lemma lift_ledger_error_Inr [simp]: "lift_ledger_error r = Inr x \<longleftrightarrow> r = Inr x"
  by (simp add: lift_ledger_error_def split: sum.splits)

lemma post_client_money_movement_Inr:
  "post_client_money_movement g client amount description b = Inr b' \<longleftrightarrow>
    amount \<noteq> 0 \<and> is_client g client \<and>
    \<not> max_movement_amount <s (if amount <s 0 then - amount else amount) \<and>
    post_journal_entry (client_movement_entry g client amount description) b = Inr b'"
  by (simp add: post_client_money_movement_def)

lemma post_inter_client_transfer_Inr:
  "post_inter_client_transfer g c d amount description b = Inr b' \<longleftrightarrow>
    0 <s amount \<and> is_client g c \<and> is_client g d \<and>
    post_journal_entry (inter_client_entry c d amount description) b = Inr b'"
  by (auto simp: post_inter_client_transfer_def word_sless_alt word_sle_eq)

lemma sum_client_balances_eq:
  "sum_client_balances kinds b n c = Inr (m, d) \<Longrightarrow>
    m = n + total_balance (current_balance b)
      (map fst (filter (\<lambda>(a, k). k = AccountKindClient) kinds)) \<and>
    d = c + length (filter (\<lambda>(a, k). k = AccountKindClient) kinds)"
  by (induction kinds b n c rule: sum_client_balances.induct)
    (auto simp: total_balance_def balance_or_zero_def split: sum.splits if_splits)

lemma sum_client_balances_ok:
  "isl (sum_client_balances kinds b n c) \<longleftrightarrow>
    (\<exists>(a, k) \<in> set kinds. k = AccountKindClient \<and> isl (current_balance b a))"
  by (induction kinds b n c rule: sum_client_balances.induct) (auto split: sum.splits)

lemma client_movement_balances:
  assumes "guard_ok g" and "post_client_money_movement g client amount description b = Inr b'"
  shows "lookup (account_balances b') = (\<lambda>a. map_option (\<lambda>v. v +
      (if a = client then amount
       else if a = custody_pool_account g then amount
       else if a = external_cash_suspense_account g then - (2 * amount)
       else 0)) (lookup (account_balances b) a))"
proof -
  let ?e = "client_movement_entry g client amount description"
  have posted: "post_journal_entry ?e b = Inr b'" and client: "is_client g client"
    using assms(2) by (simp_all add: post_client_money_movement_Inr)
  have names: "client \<noteq> custody_pool_account g" "client \<noteq> external_cash_suspense_account g"
    "external_cash_suspense_account g \<noteq> custody_pool_account g"
    using assms(1) client by (auto simp: guard_ok_def)
  have "net_effect ?e a = (if a = client then amount else if a = custody_pool_account g then amount
      else if a = external_cash_suspense_account g then - (2 * amount) else 0)" for a
    using names by (auto simp: net_effect_def client_movement_entry_def Let_def)
  then show ?thesis
    using post_journal_entry_balances [OF posted] by (auto simp: fun_eq_iff split: option.splits)
qed

section \<open>Properties\<close>

text \<open>
  A client money movement moves exactly the requested money: the client account and the
  custody pool both change by the amount, the suspense account by minus twice the amount, and
  no other account changes, whatever the sign of the amount.
\<close>

theorem post_client_money_movement_effect:
  assumes "guard_ok g" and "post_client_money_movement g client amount description b = Inr b'"
  shows "lookup (account_balances b') = (\<lambda>a. map_option (\<lambda>v. v +
      (if a = client then amount
       else if a = custody_pool_account g then amount
       else if a = external_cash_suspense_account g then - (2 * amount)
       else 0)) (lookup (account_balances b) a))"
  using client_movement_balances [OF assms] .

definition demo_guard :: segregation_guard where
  "demo_guard = new_segregation_guard ''pool'' ''suspense'' [''acct-001'', ''acct-002''] [''firm'']"

definition demo_ledger :: ledger_book where
  "demo_ledger = new_ledger_book_with_accounts
     [''acct-001'', ''acct-002'', ''firm'', ''pool'', ''suspense'']"

definition demo_funded :: ledger_book where
  "demo_funded = \<lparr>account_balances = [(''acct-001'', 700), (''acct-002'', 0), (''firm'', 0),
       (''pool'', 700), (''suspense'', - 1400)],
     posted_entries = [client_movement_entry demo_guard ''acct-001'' 700 ''deposit'']\<rparr>"

lemma demo_guard_ok: "guard_ok demo_guard"
  by (simp add: guard_ok_def demo_guard_def is_client_new_guard)
    (simp add: new_segregation_guard_def table_ok_def)

lemma demo_movement:
  "post_client_money_movement demo_guard ''acct-001'' 700 ''deposit'' demo_ledger = Inr demo_funded"
  by (simp add: post_client_money_movement_def demo_guard_def is_client_def account_kind_of_def
      demo_ledger_def demo_funded_def new_ledger_book_with_accounts_def post_journal_entry_def
      client_movement_entry_def new_segregation_guard_def sum_of_debit_lines_def
      sum_of_credit_lines_def lookup_or_def max_movement_amount_def lift_ledger_error_def)

lemma post_client_money_movement_effect_witness:
  "lookup (account_balances demo_funded) ''suspense'' = Some (- 1400)"
  using post_client_money_movement_effect [OF demo_guard_ok demo_movement]
  by (simp add: demo_guard_def new_segregation_guard_def demo_ledger_def
    new_ledger_book_with_accounts_def)

text \<open>
  C23. The dry run is exact. For an entry that the ledger accepts, the validation passes if and only
  if posting the entry leaves the difference between the custody pool and the clients' total as
  it was.
\<close>

theorem validate_entry_exact:
  assumes "guard_ok g" and "post_journal_entry e b = Inr b'"
  shows "validate_entry_preserves_segregation g e = Inr () \<longleftrightarrow> discrepancy g b' = discrepancy g b"
proof -
  have "discrepancy g b' = discrepancy g b + (snd (entry_deltas g e) - fst (entry_deltas g e))"
    using book.discrepancy_post [OF assms(2)] entry_deltas_drift [OF assms(1)] by simp
  then show ?thesis
    by (auto simp: validate_entry_preserves_segregation_def)
qed

lemma validate_entry_exact_witness:
  "validate_entry_preserves_segregation demo_guard (inter_client_entry ''acct-001'' ''firm'' 5 ''x'')
     \<noteq> Inr () \<and>
   (\<exists>b'. post_journal_entry (inter_client_entry ''acct-001'' ''firm'' 5 ''x'') demo_ledger = Inr b' \<and>
     discrepancy demo_guard b' \<noteq> discrepancy demo_guard demo_ledger)"
proof -
  let ?e = "inter_client_entry ''acct-001'' ''firm'' 5 ''x''"
  obtain b' where b': "post_journal_entry ?e demo_ledger = Inr b'"
    by (simp add: inter_client_entry_def demo_ledger_def new_ledger_book_with_accounts_def
      post_journal_entry_def sum_of_debit_lines_def sum_of_credit_lines_def)
  have "validate_entry_preserves_segregation demo_guard ?e \<noteq> Inr ()"
    by (simp add: validate_entry_preserves_segregation_def entry_deltas_def validate_line_def
      inter_client_entry_def demo_guard_def is_client_new_guard)
  with validate_entry_exact [OF demo_guard_ok b'] b' show ?thesis by blast
qed

text \<open>
  The segregation report tells the truth: when every account it reads exists it returns the
  custody balance, the clients' total, their difference and the number of client accounts, and
  it says \<open>intact\<close> exactly when the difference is zero.
\<close>

theorem check_segregation_invariant_exact:
  "check_segregation_invariant g b =
     (case current_balance b (custody_pool_account g) of
        Inl err \<Rightarrow> Inl err
      | Inr custody \<Rightarrow>
          (case sum_client_balances (account_kinds g) b 0 0 of
             Inl err \<Rightarrow> Inl err
           | Inr r \<Rightarrow> Inr \<lparr>
               report_custody_pool_account = custody_pool_account g,
               report_custody_pool_balance = custody,
               report_aggregate_client_balance =
                 total_balance (current_balance b) (client_accounts g),
               report_discrepancy = discrepancy g b,
               report_is_segregation_intact = (discrepancy g b = 0),
               report_client_account_count = length (client_accounts g)\<rparr>))
   \<and> (isl (check_segregation_invariant g b) \<longleftrightarrow>
       lookup (account_balances b) (custody_pool_account g) = None
       \<or> (\<exists>a. a \<in> set (client_accounts g) \<and> lookup (account_balances b) a = None))"
proof (cases "current_balance b (custody_pool_account g)")
  case (Inl err)
  then show ?thesis
    using current_balance_isl [of b "custody_pool_account g"]
    by (simp add: check_segregation_invariant_def)
next
  case (Inr custody)
  have failed: "isl (sum_client_balances (account_kinds g) b 0 0) \<longleftrightarrow>
      (\<exists>a. a \<in> set (client_accounts g) \<and> lookup (account_balances b) a = None)"
    unfolding sum_client_balances_ok current_balance_isl client_accounts_def by force
  have known: "lookup (account_balances b) (custody_pool_account g) \<noteq> None"
    using Inr by (simp add: current_balance_Inr)
  show ?thesis
  proof (cases "sum_client_balances (account_kinds g) b 0 0")
    case (Inl err)
    then show ?thesis
      using Inr failed by (simp add: check_segregation_invariant_def)
  next
    case (Inr r)
    obtain m d where r: "r = (m, d)" by fastforce
    have "m = total_balance (current_balance b) (client_accounts g)" "d = length (client_accounts g)"
      using sum_client_balances_eq [of "account_kinds g" b 0 0 m d] Inr r
      by (simp_all add: client_accounts_def)
    then show ?thesis
      using Inr r failed known \<open>current_balance b (custody_pool_account g) = Inr custody\<close>
      by (simp add: check_segregation_invariant_def discrepancy_of_def balance_or_zero_def)
  qed
qed

text \<open>
  The states the segregated ledger reaches from its initial accounts through the guard: money
  movements, transfers between clients, entries that pass the dry run, new accounts.
\<close>

inductive segregated_reachable :: "segregation_guard \<Rightarrow> ledger_book \<Rightarrow> bool"
  for g :: segregation_guard where
  seg_new: "segregated_reachable g (new_ledger_book_with_accounts as)"
| seg_movement: "segregated_reachable g b \<Longrightarrow>
    post_client_money_movement g client amount description b = Inr b' \<Longrightarrow> segregated_reachable g b'"
| seg_transfer: "segregated_reachable g b \<Longrightarrow>
    post_inter_client_transfer g c d amount description b = Inr b' \<Longrightarrow> segregated_reachable g b'"
| seg_validated: "segregated_reachable g b \<Longrightarrow> validate_entry_preserves_segregation g e = Inr () \<Longrightarrow>
    post_journal_entry e b = Inr b' \<Longrightarrow> segregated_reachable g b'"
| seg_register: "segregated_reachable g b \<Longrightarrow>
    register_account_if_absent a b = (b', opened) \<Longrightarrow> segregated_reachable g b'"

lemma discrepancy_new: "discrepancy g (new_ledger_book_with_accounts as) = 0"
proof -
  have "balance_or_zero (current_balance (new_ledger_book_with_accounts as) a) = 0" for a
    by (simp add: balance_or_zero_def current_balance_def new_ledger_book_with_accounts_def
      lookup_open_accounts)
  then show ?thesis
    by (simp add: discrepancy_of_def total_balance_def sum_list_0)
qed

lemma discrepancy_movement:
  assumes "guard_ok g" and "post_client_money_movement g client amount description b = Inr b'"
  shows "discrepancy g b' = discrepancy g b"
  using assms book.discrepancy_post [of "client_movement_entry g client amount description" b b' g]
  by (simp add: post_client_money_movement_Inr client_movement_drift)

lemma discrepancy_transfer:
  assumes "guard_ok g" and "post_inter_client_transfer g c d amount description b = Inr b'"
  shows "discrepancy g b' = discrepancy g b"
  using assms book.discrepancy_post [of "inter_client_entry c d amount description" b b' g]
  by (simp add: post_inter_client_transfer_Inr inter_client_drift)

text \<open>
  C5. Segregation holds by construction: in every state reached through the guard the custody
  pool holds exactly what the clients hold together, so a report on that state, when it can be
  produced, says the segregation is intact.
\<close>

theorem segregation_holds:
  assumes "segregated_reachable g b" and "guard_ok g"
  shows "discrepancy g b = 0 \<and>
    (case check_segregation_invariant g b of
       Inl _ \<Rightarrow> True | Inr r \<Rightarrow> report_is_segregation_intact r)"
proof -
  have "discrepancy g b = 0"
    using assms
  proof (induction rule: segregated_reachable.induct)
    case (seg_new as)
    show ?case by (rule discrepancy_new)
  next
    case (seg_validated b e b')
    then show ?case
      using entry_deltas_drift [of g e] book.discrepancy_post [of e b b' g]
      by (auto simp: validate_entry_preserves_segregation_def split: if_splits)
  qed (use discrepancy_movement discrepancy_transfer book.discrepancy_register in auto)
  then show ?thesis
    by (subst check_segregation_invariant_exact [THEN conjunct1]) (simp split: sum.splits)
qed

lemma segregation_holds_witness:
  "segregated_reachable demo_guard demo_funded \<and> discrepancy demo_guard demo_funded = 0"
proof -
  have "segregated_reachable demo_guard demo_funded"
    by (rule seg_movement [OF seg_new]) (use demo_movement in \<open>simp add: demo_ledger_def\<close>)
  with segregation_holds [OF _ demo_guard_ok] show ?thesis by blast
qed

text \<open>
  The size guard has one hole. The absolute value of the least \<open>int64\<close> is not representable,
  so a movement of \<open>- 2 ^ 63\<close> passes the check that rejects every other amount beyond the
  bound, and it posts: the client and the pool lose \<open>2 ^ 63\<close> each while the suspense account,
  the counterparty, does not move.
\<close>

theorem min_int_movement_accepted:
  "sint max_movement_amount < \<bar>sint min_int64\<bar> \<and>
   (case post_client_money_movement demo_guard ''acct-001'' min_int64 ''payout'' demo_ledger of
      Inl _ \<Rightarrow> False
    | Inr b' \<Rightarrow> current_balance b' ''acct-001'' = Inr min_int64 \<and>
        current_balance b' ''pool'' = Inr min_int64 \<and> current_balance b' ''suspense'' = Inr 0)"
  by (simp add: post_client_money_movement_def demo_guard_def is_client_def account_kind_of_def
      demo_ledger_def new_ledger_book_with_accounts_def post_journal_entry_def current_balance_def
      client_movement_entry_def new_segregation_guard_def sum_of_debit_lines_def
      sum_of_credit_lines_def lookup_or_def max_movement_amount_def min_int64_def
      lift_ledger_error_def)

text \<open>
  A transfer between clients stays between clients: it succeeds only for a strictly positive
  amount and two client accounts, it takes exactly the amount from the one and gives it to the
  other, and it changes no account outside the client list.
\<close>

theorem inter_client_transfer_effect:
  "case post_inter_client_transfer g c d amount description b of
     Inl _ \<Rightarrow> \<not> (0 <s amount \<and> is_client g c \<and> is_client g d \<and>
       {c, d} \<subseteq> dom (lookup (account_balances b)))
   | Inr b' \<Rightarrow> 0 <s amount \<and> is_client g c \<and> is_client g d \<and>
       lookup (account_balances b') = (\<lambda>a. map_option
         (\<lambda>v. v + (if a = d then amount else 0) - (if a = c then amount else 0))
         (lookup (account_balances b) a))"
proof (cases "post_inter_client_transfer g c d amount description b")
  case (Inl err)
  have "\<not> (0 <s amount \<and> is_client g c \<and> is_client g d \<and>
      (\<exists>b'. post_journal_entry (inter_client_entry c d amount description) b = Inr b'))"
    using Inl post_inter_client_transfer_Inr [of g c d amount description b] by auto
  moreover have "entry_accounts (inter_client_entry c d amount description) = {c, d}"
    by (auto simp: entry_accounts_def inter_client_entry_def)
  ultimately show ?thesis
    by (auto simp: Inl post_journal_entry_Inr inter_client_balanced domIff)
next
  case (Inr b')
  then have posted: "post_journal_entry (inter_client_entry c d amount description) b = Inr b'"
    and ok: "0 <s amount" "is_client g c" "is_client g d"
    by (simp_all add: post_inter_client_transfer_Inr)
  show ?thesis
    unfolding Inr using ok
    by (auto simp: fun_eq_iff post_journal_entry_balances [OF posted] net_effect_inter_client
      split: option.splits)
qed

end
