(* ===== verification/WithdrawalWorkflow.thy ===== *)
theory WithdrawalWorkflow
  imports FundSegregation
begin

text \<open>
  Withdrawals with settlement holds,
  services/ledger/internal/withdrawalworkflow/withdrawalWorkflow.go: requesting reserves part of
  an account's balance, cancelling releases it, and the sweep posts the payout of every due
  request. The workflow shares the ledger book, so an operation takes and returns both. The
  random identifier is an argument (\<open>None\<close> where reading randomness fails).

  The sweep releases the workflow's mutex between collecting the due requests and marking each
  one; the last part of the theory splits it into its critical sections.
\<close>

section \<open>State and operations\<close>

datatype withdrawal_status = PendingHold | Completed | Cancelled

record withdrawal_request =
  withdrawal_id :: string
  withdrawal_account :: string
  withdrawal_amount :: int64
  requested_at :: instant
  eligible_for_payout_at :: instant
  withdrawal_status :: withdrawal_status

record withdrawal_workflow =
  firm_clearing_account :: string
  settlement_hold_duration :: duration
  withdrawal_requests :: "withdrawal_request table"

datatype withdrawal_error =
    InvalidWithdrawalAmount
  | WithdrawalIdGenerationFailed
  | WithdrawalLedgerError ledger_error
  | InsufficientAvailableBalance
  | WithdrawalRequestNotFound
  | WithdrawalNotCancellable

definition new_withdrawal_workflow :: "string \<Rightarrow> duration \<Rightarrow> withdrawal_workflow" where
  "new_withdrawal_workflow firm hold =
    \<lparr>firm_clearing_account = firm, settlement_hold_duration = hold, withdrawal_requests = []\<rparr>"

definition held_amount :: "withdrawal_workflow \<Rightarrow> string \<Rightarrow> int64" where
  "held_amount w a = table_sum
    (\<lambda>_ r. if withdrawal_account r = a \<and> withdrawal_status r = PendingHold
           then withdrawal_amount r else 0) (withdrawal_requests w)"

definition available_balance ::
    "withdrawal_workflow \<Rightarrow> ledger_book \<Rightarrow> string \<Rightarrow> ledger_error + int64" where
  "available_balance w b a = (case current_balance b a of
     Inl err \<Rightarrow> Inl err
   | Inr v \<Rightarrow> Inr (v - held_amount w a))"

definition request_withdrawal ::
    "string \<Rightarrow> int64 \<Rightarrow> instant \<Rightarrow> string option \<Rightarrow> withdrawal_workflow \<Rightarrow> ledger_book \<Rightarrow>
      withdrawal_error + withdrawal_request \<times> withdrawal_workflow" where
  "request_withdrawal a amount now new_id w b =
    (if amount \<le>s 0 then Inl InvalidWithdrawalAmount
     else case new_id of None \<Rightarrow> Inl WithdrawalIdGenerationFailed
     | Some rid \<Rightarrow>
         (case current_balance b a of Inl err \<Rightarrow> Inl (WithdrawalLedgerError err)
          | Inr v \<Rightarrow>
              if v - held_amount w a <s amount then Inl InsufficientAvailableBalance
              else let r = \<lparr>withdrawal_id = rid, withdrawal_account = a, withdrawal_amount = amount,
                            requested_at = now,
                            eligible_for_payout_at = time_add now (settlement_hold_duration w),
                            withdrawal_status = PendingHold\<rparr>
                   in Inr (r, w\<lparr>withdrawal_requests := put rid r (withdrawal_requests w)\<rparr>)))"

definition set_withdrawal_status ::
    "string \<Rightarrow> withdrawal_status \<Rightarrow> withdrawal_workflow \<Rightarrow> withdrawal_workflow" where
  "set_withdrawal_status rid st w = (case lookup (withdrawal_requests w) rid of
     None \<Rightarrow> w
   | Some r \<Rightarrow> w\<lparr>withdrawal_requests :=
       put rid (r\<lparr>withdrawal_status := st\<rparr>) (withdrawal_requests w)\<rparr>)"

definition cancel_withdrawal ::
    "string \<Rightarrow> withdrawal_workflow \<Rightarrow> withdrawal_error + withdrawal_request \<times> withdrawal_workflow" where
  "cancel_withdrawal rid w = (case lookup (withdrawal_requests w) rid of
     None \<Rightarrow> Inl WithdrawalRequestNotFound
   | Some r \<Rightarrow>
       if withdrawal_status r \<noteq> PendingHold then Inl WithdrawalNotCancellable
       else Inr (r\<lparr>withdrawal_status := Cancelled\<rparr>, set_withdrawal_status rid Cancelled w))"

definition due_requests :: "instant \<Rightarrow> withdrawal_workflow \<Rightarrow> withdrawal_request list" where
  "due_requests now w = sort_key withdrawal_id
    (filter (\<lambda>r. withdrawal_status r = PendingHold \<and> \<not> time_before now (eligible_for_payout_at r))
      (map snd (withdrawal_requests w)))"

definition payout_description :: "string \<Rightarrow> string" where
  "payout_description rid = ''withdrawal payout, withdrawalId='' @ rid"

definition payout_entry :: "string \<Rightarrow> withdrawal_request \<Rightarrow> journal_entry" where
  "payout_entry firm r = \<lparr>
     entry_description = payout_description (withdrawal_id r),
     debit_lines = [\<lparr>line_account = firm, line_amount = withdrawal_amount r\<rparr>],
     credit_lines = [\<lparr>line_account = withdrawal_account r, line_amount = withdrawal_amount r\<rparr>]\<rparr>"

fun pay_due_requests ::
    "withdrawal_request list \<Rightarrow> withdrawal_workflow \<Rightarrow> ledger_book \<Rightarrow>
      withdrawal_request list \<Rightarrow> string list \<Rightarrow>
      withdrawal_workflow \<times> ledger_book \<times> withdrawal_request list \<times> string list" where
  "pay_due_requests [] w b completed failed = (w, b, completed, failed)"
| "pay_due_requests (r # rs) w b completed failed =
    (case post_journal_entry (payout_entry (firm_clearing_account w) r) b of
       Inl _ \<Rightarrow> pay_due_requests rs w b completed (failed @ [withdrawal_id r])
     | Inr b' \<Rightarrow> pay_due_requests rs (set_withdrawal_status (withdrawal_id r) Completed w) b'
         (completed @ [r\<lparr>withdrawal_status := Completed\<rparr>]) failed)"

definition process_due_withdrawals ::
    "instant \<Rightarrow> withdrawal_workflow \<Rightarrow> ledger_book \<Rightarrow>
      withdrawal_workflow \<times> ledger_book \<times> withdrawal_request list \<times> string list" where
  "process_due_withdrawals now w b = pay_due_requests (due_requests now w) w b [] []"

definition requests_for_account :: "string \<Rightarrow> withdrawal_workflow \<Rightarrow> withdrawal_request list" where
  "requests_for_account a w = sort_key requested_at
    (filter (\<lambda>r. withdrawal_account r = a) (map snd (withdrawal_requests w)))"

definition lookup_request :: "string \<Rightarrow> withdrawal_workflow \<Rightarrow> withdrawal_request option" where
  "lookup_request rid w = lookup (withdrawal_requests w) rid"

section \<open>Well-formed workflows\<close>

definition workflow_ok :: "withdrawal_workflow \<Rightarrow> bool" where
  "workflow_ok w = indexed_by withdrawal_id (withdrawal_requests w)"

lemma workflow_ok_new: "workflow_ok (new_withdrawal_workflow firm hold)"
  by (simp add: workflow_ok_def new_withdrawal_workflow_def)

lemma set_withdrawal_status_simps [simp]:
  "firm_clearing_account (set_withdrawal_status rid st w) = firm_clearing_account w"
  "lookup (withdrawal_requests (set_withdrawal_status rid st w)) k =
    (if k = rid then map_option (\<lambda>r. r\<lparr>withdrawal_status := st\<rparr>) (lookup (withdrawal_requests w) rid)
     else lookup (withdrawal_requests w) k)"
  by (simp_all add: set_withdrawal_status_def split: option.splits)

lemma workflow_ok_set_status: "workflow_ok w \<Longrightarrow> workflow_ok (set_withdrawal_status rid st w)"
  by (auto simp: workflow_ok_def set_withdrawal_status_def split: option.splits
    intro!: indexed_by_put intro: indexed_by_key)

lemma request_withdrawal_Inr:
  "request_withdrawal a amount now new_id w b = Inr (r, w') \<longleftrightarrow>
    0 <s amount \<and> (\<exists>rid v. new_id = Some rid \<and> current_balance b a = Inr v \<and>
      amount \<le>s v - held_amount w a \<and>
      r = \<lparr>withdrawal_id = rid, withdrawal_account = a, withdrawal_amount = amount,
           requested_at = now, eligible_for_payout_at = time_add now (settlement_hold_duration w),
           withdrawal_status = PendingHold\<rparr> \<and>
      w' = w\<lparr>withdrawal_requests := put rid r (withdrawal_requests w)\<rparr>)"
  unfolding request_withdrawal_def Let_def word_sless_alt word_sle_eq
  by (cases new_id; cases "current_balance b a") auto

lemma workflow_ok_request:
  "workflow_ok w \<Longrightarrow> request_withdrawal a amount now new_id w b = Inr (r, w') \<Longrightarrow> workflow_ok w'"
  by (auto simp: workflow_ok_def request_withdrawal_Inr)

lemma held_amount_set_status:
  assumes "workflow_ok w" and "lookup (withdrawal_requests w) rid = Some r"
    and "withdrawal_status r = PendingHold" and "st \<noteq> PendingHold"
  shows "held_amount (set_withdrawal_status rid st w) a =
    held_amount w a - (if withdrawal_account r = a then withdrawal_amount r else 0)"
  using assms indexed_by_ok [of withdrawal_id "withdrawal_requests w"]
  by (simp add: held_amount_def set_withdrawal_status_def workflow_ok_def table_sum_put)

text \<open>The due requests are pending requests of the workflow, each once, in the order of their ids.\<close>

definition pending_in :: "withdrawal_workflow \<Rightarrow> withdrawal_request list \<Rightarrow> bool" where
  "pending_in w rs \<longleftrightarrow> distinct (map withdrawal_id rs) \<and>
    (\<forall>r \<in> set rs. lookup (withdrawal_requests w) (withdrawal_id r) = Some r \<and>
      withdrawal_status r = PendingHold)"

lemma due_requests_mem:
  assumes "workflow_ok w"
  shows "r \<in> set (due_requests now w) \<longleftrightarrow>
    lookup (withdrawal_requests w) (withdrawal_id r) = Some r \<and> withdrawal_status r = PendingHold \<and>
    eligible_for_payout_at r \<le> now"
  unfolding due_requests_def mem_indexed_values [OF assms [unfolded workflow_ok_def]]
  by (auto simp: time_before_def)

lemma pending_in_due:
  assumes "workflow_ok w"
  shows "pending_in w (due_requests now w)"
  using due_requests_mem [OF assms] distinct_indexed_values [OF assms [unfolded workflow_ok_def]]
  unfolding pending_in_def due_requests_def by blast

lemma pending_in_tail: "pending_in w (r # rs) \<Longrightarrow> pending_in w rs"
  unfolding pending_in_def by simp

lemma pending_in_after:
  assumes "pending_in w (r # rs)"
  shows "pending_in (set_withdrawal_status (withdrawal_id r) st w) rs"
proof -
  have "withdrawal_id s \<noteq> withdrawal_id r" if "s \<in> set rs" for s
    using assms that unfolding pending_in_def by (metis distinct.simps(2) image_eqI list.set_map list.simps(9))
  with assms show ?thesis
    unfolding pending_in_def by simp
qed

lemma payout_balanced: "entry_balanced (payout_entry firm r)"
  by (simp add: entry_balanced_def entry_sums payout_entry_def)

lemma payout_effect:
  "net_effect (payout_entry firm r) a =
    (if a = firm then withdrawal_amount r else 0)
    - (if a = withdrawal_account r then withdrawal_amount r else 0)"
  by (auto simp: net_effect_def payout_entry_def)

lemma payout_accounts: "entry_accounts (payout_entry firm r) = {firm, withdrawal_account r}"
  by (auto simp: entry_accounts_def payout_entry_def)

section \<open>The sweep\<close>

lemma available_balance_payout:
  assumes "workflow_ok w" and "lookup (withdrawal_requests w) (withdrawal_id r) = Some r"
    and "withdrawal_status r = PendingHold" and "a \<noteq> firm_clearing_account w"
    and "post_journal_entry (payout_entry (firm_clearing_account w) r) b = Inr b'"
  shows "available_balance (set_withdrawal_status (withdrawal_id r) Completed w) b' a =
    available_balance w b a"
proof (cases "current_balance b a")
  case (Inl err)
  have "current_balance b' a = Inl err"
    using book.post_unknown [OF assms(5), of a] Inl by simp
  with Inl show ?thesis by (simp add: available_balance_def)
next
  case (Inr v)
  have "current_balance b' a = Inr (v + net_effect (payout_entry (firm_clearing_account w) r) a)"
    by (rule book.post_known [OF assms(5) Inr])
  with Inr assms(1-4) show ?thesis
    by (simp add: available_balance_def payout_effect held_amount_set_status)
qed

lemma pay_due_requests_available:
  "pending_in w rs \<Longrightarrow> workflow_ok w \<Longrightarrow> a \<noteq> firm_clearing_account w \<Longrightarrow>
    pay_due_requests rs w b completed failed = (w', b', completed', failed') \<Longrightarrow>
    available_balance w' b' a = available_balance w b a"
proof (induction rs w b completed failed rule: pay_due_requests.induct)
  case (1 w b completed failed)
  then show ?case by simp
next
  case (2 r rs w b completed failed)
  have r: "lookup (withdrawal_requests w) (withdrawal_id r) = Some r"
    "withdrawal_status r = PendingHold"
    using "2.prems"(1) by (auto simp: pending_in_def)
  show ?case
  proof (cases "post_journal_entry (payout_entry (firm_clearing_account w) r) b")
    case (Inl err)
    then show ?thesis
      using "2.IH"(1) [OF Inl] "2.prems" pending_in_tail by simp
  next
    case (Inr b1)
    then show ?thesis
      using "2.IH"(2) [OF Inr] "2.prems" pending_in_after workflow_ok_set_status
        available_balance_payout [OF "2.prems"(2) r "2.prems"(3) Inr] by simp
  qed
qed

text \<open>
  A payout always balances, so it posts exactly when the ledger has both accounts, and posting
  opens and closes no account: which requests a sweep completes is decided at its start.
\<close>

definition payable :: "string \<Rightarrow> ledger_book \<Rightarrow> withdrawal_request \<Rightarrow> bool" where
  "payable firm b r \<longleftrightarrow> lookup (account_balances b) firm \<noteq> None \<and>
    lookup (account_balances b) (withdrawal_account r) \<noteq> None"

lemma post_payout_isl: "isl (post_journal_entry (payout_entry firm r) b) \<longleftrightarrow> \<not> payable firm b r"
  by (auto simp: book.post_ok_iff payout_balanced payout_accounts current_balance_isl payable_def)

lemma payable_after_post:
  assumes "post_journal_entry e b = Inr b'"
  shows "payable firm b' = payable firm b"
  using book.post_isl [OF assms] by (auto simp: payable_def current_balance_isl fun_eq_iff)

lemma pay_due_requests_outcome:
  assumes "pay_due_requests rs w b completed failed = (w', b', completed', failed')"
  shows "completed' = completed @
      map (\<lambda>r. r\<lparr>withdrawal_status := Completed\<rparr>) (filter (payable (firm_clearing_account w) b) rs)"
    and "failed' = failed @ map withdrawal_id (filter (\<lambda>r. \<not> payable (firm_clearing_account w) b r) rs)"
    and "lookup (withdrawal_requests w') k =
      (if k \<in> withdrawal_id ` set (filter (payable (firm_clearing_account w) b) rs)
       then map_option (\<lambda>r. r\<lparr>withdrawal_status := Completed\<rparr>) (lookup (withdrawal_requests w) k)
       else lookup (withdrawal_requests w) k)"
proof -
  have "completed' = completed @
      map (\<lambda>r. r\<lparr>withdrawal_status := Completed\<rparr>) (filter (payable (firm_clearing_account w) b) rs) \<and>
    failed' = failed @ map withdrawal_id (filter (\<lambda>r. \<not> payable (firm_clearing_account w) b r) rs) \<and>
    (\<forall>k. lookup (withdrawal_requests w') k =
      (if k \<in> withdrawal_id ` set (filter (payable (firm_clearing_account w) b) rs)
       then map_option (\<lambda>r. r\<lparr>withdrawal_status := Completed\<rparr>) (lookup (withdrawal_requests w) k)
       else lookup (withdrawal_requests w) k))"
    using assms
  proof (induction rs w b completed failed rule: pay_due_requests.induct)
    case (1 w b completed failed)
    then show ?case by simp
  next
    case (2 r rs w b completed failed)
    show ?case
    proof (cases "post_journal_entry (payout_entry (firm_clearing_account w) r) b")
      case (Inl err)
      then have "\<not> payable (firm_clearing_account w) b r"
        using post_payout_isl [of "firm_clearing_account w" r b] by simp
      with "2.IH"(1) [OF Inl] "2.prems" Inl show ?thesis by simp
    next
      case (Inr b1)
      then have "payable (firm_clearing_account w) b r"
        using post_payout_isl [of "firm_clearing_account w" r b] by simp
      with "2.IH"(2) [OF Inr] "2.prems" Inr show ?thesis
        by (auto simp: payable_after_post [OF Inr] option.map_comp comp_def)
    qed
  qed
  then show "completed' = completed @
      map (\<lambda>r. r\<lparr>withdrawal_status := Completed\<rparr>) (filter (payable (firm_clearing_account w) b) rs)"
    and "failed' = failed @ map withdrawal_id (filter (\<lambda>r. \<not> payable (firm_clearing_account w) b r) rs)"
    and "lookup (withdrawal_requests w') k =
      (if k \<in> withdrawal_id ` set (filter (payable (firm_clearing_account w) b) rs)
       then map_option (\<lambda>r. r\<lparr>withdrawal_status := Completed\<rparr>) (lookup (withdrawal_requests w) k)
       else lookup (withdrawal_requests w) k)"
    by blast+
qed

section \<open>Serialised runs\<close>

text \<open>
  How often a request has been paid out is the number of posted entries that carry its payout
  description. In a run whose operations do not overlap the other users of the ledger post
  entries with other descriptions.
\<close>

definition payout_count :: "ledger_book \<Rightarrow> string \<Rightarrow> nat" where
  "payout_count b rid =
    length (filter (\<lambda>e. entry_description e = payout_description rid) (posted_entries b))"

definition payouts_match :: "withdrawal_workflow \<Rightarrow> ledger_book \<Rightarrow> bool" where
  "payouts_match w b \<longleftrightarrow> (\<forall>rid. payout_count b rid = (case lookup (withdrawal_requests w) rid of
     None \<Rightarrow> 0 | Some r \<Rightarrow> if withdrawal_status r = Completed then 1 else 0))"

inductive withdrawal_run :: "withdrawal_workflow \<Rightarrow> ledger_book \<Rightarrow> bool" where
  run_start: "withdrawal_run (new_withdrawal_workflow firm hold) (new_ledger_book_with_accounts as)"
| run_request: "withdrawal_run w b \<Longrightarrow> lookup (withdrawal_requests w) rid = None \<Longrightarrow>
    request_withdrawal a amount now (Some rid) w b = Inr (r, w') \<Longrightarrow> withdrawal_run w' b"
| run_cancel: "withdrawal_run w b \<Longrightarrow> cancel_withdrawal rid w = Inr (r, w') \<Longrightarrow> withdrawal_run w' b"
| run_sweep: "withdrawal_run w b \<Longrightarrow>
    process_due_withdrawals now w b = (w', b', completed, failed) \<Longrightarrow> withdrawal_run w' b'"
| run_post: "withdrawal_run w b \<Longrightarrow> (\<And>rid. entry_description e \<noteq> payout_description rid) \<Longrightarrow>
    post_journal_entry e b = Inr b' \<Longrightarrow> withdrawal_run w b'"

lemma payout_description_inject [simp]: "payout_description k = payout_description j \<longleftrightarrow> k = j"
  by (simp add: payout_description_def)

lemma payout_count_post:
  "post_journal_entry e b = Inr b' \<Longrightarrow> payout_count b' rid =
    payout_count b rid + (if entry_description e = payout_description rid then 1 else 0)"
  by (simp add: payout_count_def post_journal_entry_posted)

lemma payouts_match_sweep:
  "payouts_match w b \<Longrightarrow> pending_in w rs \<Longrightarrow> workflow_ok w \<Longrightarrow>
    pay_due_requests rs w b completed failed = (w', b', completed', failed') \<Longrightarrow>
    payouts_match w' b' \<and> workflow_ok w'"
proof (induction rs w b completed failed rule: pay_due_requests.induct)
  case (1 w b completed failed)
  then show ?case by simp
next
  case (2 r rs w b completed failed)
  show ?case
  proof (cases "post_journal_entry (payout_entry (firm_clearing_account w) r) b")
    case (Inl err)
    then show ?thesis
      using "2.IH"(1) [OF Inl] "2.prems" pending_in_tail by simp
  next
    case (Inr b1)
    have "payouts_match (set_withdrawal_status (withdrawal_id r) Completed w) b1"
      using "2.prems"(1,2)
      by (auto simp: payouts_match_def payout_count_post [OF Inr] payout_entry_def pending_in_def)
    then show ?thesis
      using "2.IH"(2) [OF Inr] "2.prems" Inr pending_in_after workflow_ok_set_status by simp
  qed
qed

lemma cancel_withdrawal_Inr:
  "cancel_withdrawal rid w = Inr (r', w') \<longleftrightarrow>
    (\<exists>r. lookup (withdrawal_requests w) rid = Some r \<and> withdrawal_status r = PendingHold \<and>
      r' = r\<lparr>withdrawal_status := Cancelled\<rparr> \<and> w' = set_withdrawal_status rid Cancelled w)"
  by (auto simp: cancel_withdrawal_def split: option.splits)

lemma withdrawal_run_inv: "withdrawal_run w b \<Longrightarrow> payouts_match w b \<and> workflow_ok w"
proof (induction rule: withdrawal_run.induct)
  case (run_start firm hold as)
  show ?case
    by (simp add: workflow_ok_def payouts_match_def payout_count_def new_withdrawal_workflow_def
      new_ledger_book_with_accounts_def)
next
  case (run_request w b rid a amount now r w')
  then show ?case
    by (auto simp: payouts_match_def request_withdrawal_Inr workflow_ok_def)
next
  case (run_cancel w b rid r w')
  then show ?case
    by (auto simp: payouts_match_def cancel_withdrawal_Inr workflow_ok_set_status)
next
  case (run_sweep w b now w' b' completed failed)
  then have "pay_due_requests (due_requests now w) w b [] [] = (w', b', completed, failed)"
    by (simp add: process_due_withdrawals_def)
  from payouts_match_sweep [OF _ pending_in_due _ this] run_sweep.IH show ?case by blast
next
  case (run_post w b e b')
  then show ?case
    by (simp add: payouts_match_def payout_count_post)
qed

section \<open>Properties of serialised operations\<close>

text \<open>
  A granted withdrawal request reserves exactly its amount: the account's available balance
  was at least the strictly positive amount, and afterwards it is lower by exactly the amount,
  without wrapping and without going below zero; the ledger is untouched.
\<close>

theorem request_withdrawal_reserves:
  assumes "workflow_ok w" and "lookup (withdrawal_requests w) rid = None"
    and "request_withdrawal a amount now (Some rid) w b = Inr (r, w')"
  shows "\<exists>v. available_balance w b a = Inr v \<and> available_balance w' b a = Inr (v - amount)
    \<and> 0 < sint amount \<and> sint (v - amount) = sint v - sint amount \<and> 0 \<le> sint (v - amount)
    \<and> lookup_request rid w' = Some r \<and> withdrawal_status r = PendingHold"
proof -
  obtain v where v: "0 <s amount" "current_balance b a = Inr v" "amount \<le>s v - held_amount w a"
    and r: "withdrawal_account r = a" "withdrawal_amount r = amount" "withdrawal_status r = PendingHold"
    and w': "w' = w\<lparr>withdrawal_requests := put rid r (withdrawal_requests w)\<rparr>"
    using assms(3) by (auto simp: request_withdrawal_Inr)
  have "held_amount w' a = held_amount w a + amount"
    using assms(1,2) r by (simp add: held_amount_def w' table_sum_put workflow_ok_def indexed_by_ok)
  then have "available_balance w' b a = Inr ((v - held_amount w a) - amount)"
    using v(2) by (simp add: available_balance_def)
  moreover have "sint ((v - held_amount w a) - amount) = sint (v - held_amount w a) - sint amount"
    using v(1,3) sint_bounds64 [of "v - held_amount w a"]
    by (intro sint_sub64) (simp_all add: word_sless_alt word_sle_eq)
  ultimately show ?thesis
    using v r by (simp add: available_balance_def word_sless_alt word_sle_eq lookup_request_def w')
qed

definition demo_workflow :: withdrawal_workflow where
  "demo_workflow = new_withdrawal_workflow ''firm'' 5"

definition demo_request :: withdrawal_request where
  "demo_request = \<lparr>withdrawal_id = ''withdrawal-1'', withdrawal_account = ''acct-001'',
     withdrawal_amount = 700, requested_at = 10, eligible_for_payout_at = 15,
     withdrawal_status = PendingHold\<rparr>"

definition demo_pending :: withdrawal_workflow where
  "demo_pending = demo_workflow\<lparr>withdrawal_requests := [(''withdrawal-1'', demo_request)]\<rparr>"

lemma demo_request_granted:
  "request_withdrawal ''acct-001'' 700 10 (Some ''withdrawal-1'') demo_workflow demo_funded =
    Inr (demo_request, demo_pending)"
  by (simp add: request_withdrawal_def demo_workflow_def new_withdrawal_workflow_def demo_funded_def
    current_balance_def held_amount_def demo_request_def demo_pending_def time_add_def Let_def
    word_sle_eq word_sless_alt)

lemma request_withdrawal_reserves_witness:
  "available_balance demo_pending demo_funded ''acct-001'' = Inr 0"
proof -
  have "workflow_ok demo_workflow" and "lookup (withdrawal_requests demo_workflow) ''withdrawal-1'' = None"
    by (simp_all add: demo_workflow_def workflow_ok_new) (simp add: new_withdrawal_workflow_def)
  from request_withdrawal_reserves [OF this demo_request_granted]
  show ?thesis
    by (auto simp: available_balance_def demo_workflow_def new_withdrawal_workflow_def
      demo_funded_def current_balance_def held_amount_def)
qed

text \<open>
  A sweep pays from the reserved money only: it leaves the available balance of every account
  other than the firm's clearing account exactly as it was.
\<close>

theorem process_due_keeps_available:
  assumes "workflow_ok w" and "a \<noteq> firm_clearing_account w"
    and "process_due_withdrawals now w b = (w', b', completed, failed)"
  shows "available_balance w' b' a = available_balance w b a"
  using pay_due_requests_available [OF pending_in_due [OF assms(1)] assms(1,2)] assms(3)
  by (simp add: process_due_withdrawals_def)

lemma workflow_ok_demo_pending: "workflow_ok demo_pending"
  by (simp add: demo_pending_def workflow_ok_def indexed_by_def table_ok_def demo_request_def)

lemma process_due_keeps_available_witness:
  "\<exists>w' b' completed failed. process_due_withdrawals 15 demo_pending demo_funded =
     (w', b', completed, failed) \<and> available_balance w' b' ''acct-001'' = Inr 0"
proof -
  obtain w' b' completed failed where
    p: "process_due_withdrawals 15 demo_pending demo_funded = (w', b', completed, failed)"
    by (metis prod_cases4)
  have "''acct-001'' \<noteq> firm_clearing_account demo_pending"
    by (simp add: demo_pending_def demo_workflow_def new_withdrawal_workflow_def)
  from process_due_keeps_available [OF workflow_ok_demo_pending this p]
  show ?thesis
    using p request_withdrawal_reserves_witness by auto
qed

text \<open>
  A sweep settles every due request and no other: a due request whose accounts the ledger has
  is completed, a due request with a missing account is reported as failed and stays pending,
  and a request that is not due keeps its record.
\<close>

theorem process_due_outcome:
  assumes "workflow_ok w" and "process_due_withdrawals now w b = (w', b', completed, failed)"
  shows "failed = map withdrawal_id
      (filter (\<lambda>r. \<not> payable (firm_clearing_account w) b r) (due_requests now w))
    \<and> completed = map (\<lambda>r. r\<lparr>withdrawal_status := Completed\<rparr>)
      (filter (payable (firm_clearing_account w) b) (due_requests now w))
    \<and> lookup_request rid w' = (case lookup_request rid w of None \<Rightarrow> None
      | Some r \<Rightarrow> Some (if withdrawal_status r = PendingHold \<and> eligible_for_payout_at r \<le> now \<and>
            payable (firm_clearing_account w) b r
          then r\<lparr>withdrawal_status := Completed\<rparr> else r))"
proof -
  note out = pay_due_requests_outcome [OF assms(2) [unfolded process_due_withdrawals_def]]
  have key: "rid \<in> withdrawal_id ` set (filter (payable (firm_clearing_account w) b) (due_requests now w))
      \<longleftrightarrow> (\<exists>r. lookup (withdrawal_requests w) rid = Some r \<and> withdrawal_status r = PendingHold \<and>
        eligible_for_payout_at r \<le> now \<and> payable (firm_clearing_account w) b r)"
    using assms(1) indexed_by_key [of withdrawal_id "withdrawal_requests w" rid]
    by (force simp: due_requests_mem [OF assms(1)] workflow_ok_def image_iff)
  have "lookup_request rid w' = (case lookup_request rid w of None \<Rightarrow> None
      | Some r \<Rightarrow> Some (if withdrawal_status r = PendingHold \<and> eligible_for_payout_at r \<le> now \<and>
            payable (firm_clearing_account w) b r
          then r\<lparr>withdrawal_status := Completed\<rparr> else r))"
    unfolding lookup_request_def out(3) key by (auto split: option.splits)
  with out(1,2) show ?thesis by simp
qed

lemma process_due_outcome_witness:
  "\<exists>w' b' completed failed. process_due_withdrawals 15 demo_pending demo_funded =
     (w', b', completed, failed) \<and> failed = [] \<and>
     lookup_request ''withdrawal-1'' w' = Some (demo_request\<lparr>withdrawal_status := Completed\<rparr>)"
proof -
  obtain w' b' completed failed where
    p: "process_due_withdrawals 15 demo_pending demo_funded = (w', b', completed, failed)"
    by (metis prod_cases4)
  from process_due_outcome [OF workflow_ok_demo_pending p, of "''withdrawal-1''"]
  show ?thesis
    using p by (auto simp: lookup_request_def demo_pending_def demo_request_def due_requests_def
      payable_def demo_funded_def demo_workflow_def new_withdrawal_workflow_def time_before_def)
qed

text \<open>
  C6. Paid at most once, when operations do not overlap: in every state a run reaches, the ledger
  holds exactly one payout entry for each completed withdrawal and none for a pending or
  cancelled one, nor for an identifier that was never issued.
\<close>

theorem payout_exactly_once:
  assumes "withdrawal_run w b"
  shows "payout_count b rid = (case lookup_request rid w of
    None \<Rightarrow> 0 | Some r \<Rightarrow> if withdrawal_status r = Completed then 1 else 0)"
  using withdrawal_run_inv [OF assms] by (simp add: payouts_match_def lookup_request_def)

definition demo_started :: ledger_book where
  "demo_started = new_ledger_book_with_accounts [''acct-001'', ''firm'']"

definition demo_deposited :: ledger_book where
  "demo_deposited = \<lparr>account_balances = [(''acct-001'', 500), (''firm'', - 500)],
     posted_entries = [demo_entry]\<rparr>"

definition demo_held :: withdrawal_workflow where
  "demo_held = demo_workflow\<lparr>withdrawal_requests := [(''w1'',
     \<lparr>withdrawal_id = ''w1'', withdrawal_account = ''acct-001'', withdrawal_amount = 500,
      requested_at = 10, eligible_for_payout_at = 15, withdrawal_status = PendingHold\<rparr>)]\<rparr>"

lemma demo_held_run: "withdrawal_run demo_held demo_deposited"
proof (rule run_request [of demo_workflow demo_deposited "''w1''" "''acct-001''" 500 10])
  have other: "entry_description demo_entry \<noteq> payout_description rid" for rid
    by (simp add: demo_entry_def payout_description_def)
  have start: "withdrawal_run demo_workflow demo_started"
    unfolding demo_workflow_def demo_started_def by (rule run_start)
  have "post_journal_entry demo_entry demo_started = Inr demo_deposited"
    using demo_post by (simp add: demo_started_def demo_deposited_def demo_book_def)
  from run_post [OF start other this] show "withdrawal_run demo_workflow demo_deposited" .
qed (simp_all add: request_withdrawal_def demo_workflow_def new_withdrawal_workflow_def demo_held_def
    demo_deposited_def current_balance_def held_amount_def time_add_def Let_def word_sle_eq
    word_sless_alt)

lemma payout_exactly_once_witness:
  "\<exists>w b. withdrawal_run w b \<and> payout_count b ''w1'' = 1"
proof -
  obtain w' b' completed failed where
    p: "process_due_withdrawals 15 demo_held demo_deposited = (w', b', completed, failed)"
    by (metis prod_cases4)
  have run: "withdrawal_run w' b'"
    by (rule run_sweep [OF demo_held_run p])
  have "map_option withdrawal_status (lookup_request ''w1'' w') = Some Completed"
    using p by (auto simp: process_due_withdrawals_def due_requests_def demo_held_def
      demo_workflow_def new_withdrawal_workflow_def time_before_def demo_deposited_def
      post_journal_entry_def payout_entry_def sum_of_debit_lines_def sum_of_credit_lines_def
      lookup_request_def)
  with payout_exactly_once [OF run, of "''w1''"] run show ?thesis
    by (auto split: option.splits)
qed

section \<open>Interleaved sweeps\<close>

text \<open>
  \<open>ProcessDueWithdrawals\<close> collects the due requests under the mutex, releases it, and then for
  each request posts the payout (under the ledger's mutex) and marks it completed (under the
  workflow's mutex again). A sweep in flight is the list it still has to pay and the
  request it has paid but not yet marked. Other calls run between any two of these steps.
\<close>

record sweep_in_flight =
  still_to_pay :: "withdrawal_request list"
  paid_not_marked :: "string option"

record withdrawal_system =
  system_workflow :: withdrawal_workflow
  system_book :: ledger_book
  sweeps :: "sweep_in_flight list"

inductive withdrawal_step :: "withdrawal_system \<Rightarrow> withdrawal_system \<Rightarrow> bool" where
  sweep_collects: "withdrawal_step s (s\<lparr>sweeps := sweeps s @
    [\<lparr>still_to_pay = due_requests now (system_workflow s), paid_not_marked = None\<rparr>]\<rparr>)"
| sweep_posts: "i < length (sweeps s) \<Longrightarrow>
    sweeps s ! i = \<lparr>still_to_pay = r # rs, paid_not_marked = None\<rparr> \<Longrightarrow>
    post_journal_entry (payout_entry (firm_clearing_account (system_workflow s)) r) (system_book s)
      = Inr b' \<Longrightarrow>
    withdrawal_step s (s\<lparr>system_book := b', sweeps := (sweeps s)[i :=
      \<lparr>still_to_pay = rs, paid_not_marked = Some (withdrawal_id r)\<rparr>]\<rparr>)"
| sweep_fails: "i < length (sweeps s) \<Longrightarrow>
    sweeps s ! i = \<lparr>still_to_pay = r # rs, paid_not_marked = None\<rparr> \<Longrightarrow>
    post_journal_entry (payout_entry (firm_clearing_account (system_workflow s)) r) (system_book s)
      = Inl err \<Longrightarrow>
    withdrawal_step s (s\<lparr>sweeps := (sweeps s)[i :=
      \<lparr>still_to_pay = rs, paid_not_marked = None\<rparr>]\<rparr>)"
| sweep_marks: "i < length (sweeps s) \<Longrightarrow>
    sweeps s ! i = \<lparr>still_to_pay = rs, paid_not_marked = Some rid\<rparr> \<Longrightarrow>
    withdrawal_step s (s\<lparr>system_workflow := set_withdrawal_status rid Completed (system_workflow s),
      sweeps := (sweeps s)[i := \<lparr>still_to_pay = rs, paid_not_marked = None\<rparr>]\<rparr>)"
| caller_cancels: "cancel_withdrawal rid (system_workflow s) = Inr (r, w') \<Longrightarrow>
    withdrawal_step s (s\<lparr>system_workflow := w'\<rparr>)"
| caller_requests: "request_withdrawal a amount now (Some rid) (system_workflow s) (system_book s)
      = Inr (r, w') \<Longrightarrow>
    withdrawal_step s (s\<lparr>system_workflow := w'\<rparr>)"

abbreviation reaches :: "withdrawal_system \<Rightarrow> withdrawal_system \<Rightarrow> bool" where
  "reaches s t \<equiv> reachable_by (\<lambda>u. u = s) withdrawal_step t"

definition race_start :: withdrawal_system where
  "race_start = \<lparr>system_workflow = demo_held, system_book = demo_deposited, sweeps = []\<rparr>"

definition held_request :: withdrawal_request where
  "held_request = \<lparr>withdrawal_id = ''w1'', withdrawal_account = ''acct-001'',
     withdrawal_amount = 500, requested_at = 10, eligible_for_payout_at = 15,
     withdrawal_status = PendingHold\<rparr>"

definition book_paid :: "int64 \<Rightarrow> journal_entry list \<Rightarrow> ledger_book" where
  "book_paid v es = \<lparr>account_balances = [(''acct-001'', v), (''firm'', - v)],
     posted_entries = demo_entry # es\<rparr>"

definition marked :: "withdrawal_status \<Rightarrow> withdrawal_workflow" where
  "marked st = demo_workflow\<lparr>withdrawal_requests :=
     [(''w1'', held_request\<lparr>withdrawal_status := st\<rparr>)]\<rparr>"

lemma due_demo_held: "due_requests 15 demo_held = [held_request]"
  by (simp add: due_requests_def demo_held_def held_request_def time_before_def)

lemma held_request_id: "withdrawal_id held_request = ''w1''"
  by (simp add: held_request_def)

lemma firm_marked: "firm_clearing_account demo_held = ''firm''" "firm_clearing_account (marked st) = ''firm''"
  by (simp_all add: demo_held_def marked_def demo_workflow_def new_withdrawal_workflow_def)

lemma set_status_marked:
  "set_withdrawal_status ''w1'' st demo_held = marked st"
  "set_withdrawal_status ''w1'' st (marked st') = marked st"
  by (simp_all add: set_withdrawal_status_def demo_held_def marked_def held_request_def)

lemma post_book_paid:
  "post_journal_entry (payout_entry ''firm'' held_request) demo_deposited =
    Inr (book_paid 0 [payout_entry ''firm'' held_request])"
  "post_journal_entry (payout_entry ''firm'' held_request) (book_paid v es) =
    Inr (book_paid (v - 500) (es @ [payout_entry ''firm'' held_request]))"
  by (simp_all add: post_journal_entry_def payout_entry_def held_request_def book_paid_def
    demo_deposited_def sum_of_debit_lines_def sum_of_credit_lines_def lookup_or_def)

text \<open>
  Two overlapping sweeps pay the same withdrawal twice. Both collect the request while it is
  pending, neither looks at its status again, and both post: from a balance of 500 with one
  withdrawal of 500 held, a state is reached in which the payout stands twice in the journal, the
  request is completed, and the account is overdrawn to \<open>- 500\<close>.
\<close>

theorem overlapping_sweeps_pay_twice:
  "\<exists>s. reaches race_start s \<and> payout_count (system_book s) ''w1'' = 2
     \<and> current_balance (system_book s) ''acct-001'' = Inr (- 500)
     \<and> map_option withdrawal_status (lookup_request ''w1'' (system_workflow s)) = Some Completed"
proof -
  let ?p = "payout_entry ''firm'' held_request"
  let ?c = "\<lparr>still_to_pay = [held_request], paid_not_marked = None\<rparr>"
  let ?m = "\<lparr>still_to_pay = [], paid_not_marked = Some ''w1''\<rparr>"
  let ?d = "\<lparr>still_to_pay = [], paid_not_marked = None\<rparr>"
  let ?s = "\<lambda>w b ss. \<lparr>system_workflow = w, system_book = b, sweeps = ss\<rparr>"
  have "reaches race_start (?s demo_held demo_deposited [])"
    by (rule reachable_init) (simp add: race_start_def)
  then have "reaches race_start (?s demo_held demo_deposited [?c])"
    by (rule reachable_step) (use sweep_collects [of "?s demo_held demo_deposited []" 15] in
        \<open>simp add: due_demo_held\<close>)
  then have "reaches race_start (?s demo_held demo_deposited [?c, ?c])"
    by (rule reachable_step) (use sweep_collects [of "?s demo_held demo_deposited [?c]" 15] in
        \<open>simp add: due_demo_held\<close>)
  then have "reaches race_start (?s demo_held (book_paid 0 [?p]) [?m, ?c])"
    by (rule reachable_step)
      (use sweep_posts [of 0 "?s demo_held demo_deposited [?c, ?c]" held_request "[]"] in
        \<open>simp add: firm_marked post_book_paid held_request_id\<close>)
  then have "reaches race_start (?s demo_held (book_paid (- 500) [?p, ?p]) [?m, ?m])"
    by (rule reachable_step)
      (use sweep_posts [of 1 "?s demo_held (book_paid 0 [?p]) [?m, ?c]" held_request "[]"] in
        \<open>simp add: firm_marked post_book_paid held_request_id\<close>)
  then have "reaches race_start (?s (marked Completed) (book_paid (- 500) [?p, ?p]) [?d, ?m])"
    by (rule reachable_step)
      (use sweep_marks [of 0 "?s demo_held (book_paid (- 500) [?p, ?p]) [?m, ?m]"] in
        \<open>simp add: set_status_marked\<close>)
  then show ?thesis
    by (intro exI conjI, assumption)
      (simp_all add: payout_count_def book_paid_def demo_entry_def payout_entry_def held_request_def
        payout_description_def current_balance_def lookup_request_def marked_def)
qed

text \<open>
  A cancelled withdrawal can still be paid. A sweep that has collected a request pays it even
  when the cancellation is granted in between: the hold is released, the caller is told the
  withdrawal is cancelled, the money leaves all the same and the request ends completed.
\<close>

theorem cancelled_withdrawal_can_be_paid:
  "\<exists>s t u. reaches race_start s
     \<and> cancel_withdrawal ''w1'' (system_workflow s) =
         Inr (held_request\<lparr>withdrawal_status := Cancelled\<rparr>, system_workflow t)
     \<and> system_book t = system_book s \<and> payout_count (system_book t) ''w1'' = 0
     \<and> withdrawal_step s t \<and> reaches t u
     \<and> payout_count (system_book u) ''w1'' = 1
     \<and> map_option withdrawal_status (lookup_request ''w1'' (system_workflow u)) = Some Completed"
proof -
  let ?p = "payout_entry ''firm'' held_request"
  let ?c = "\<lparr>still_to_pay = [held_request], paid_not_marked = None\<rparr>"
  let ?m = "\<lparr>still_to_pay = [], paid_not_marked = Some ''w1''\<rparr>"
  let ?d = "\<lparr>still_to_pay = [], paid_not_marked = None\<rparr>"
  let ?s = "\<lambda>w b ss. \<lparr>system_workflow = w, system_book = b, sweeps = ss\<rparr>"
  let ?cancelled = "?s (marked Cancelled) demo_deposited [?c]"
  have "reaches race_start (?s demo_held demo_deposited [])"
    by (rule reachable_init) (simp add: race_start_def)
  then have collected: "reaches race_start (?s demo_held demo_deposited [?c])"
    by (rule reachable_step) (use sweep_collects [of "?s demo_held demo_deposited []" 15] in
        \<open>simp add: due_demo_held\<close>)
  have granted: "cancel_withdrawal ''w1'' demo_held =
      Inr (held_request\<lparr>withdrawal_status := Cancelled\<rparr>, marked Cancelled)"
    using set_status_marked by (simp add: cancel_withdrawal_def) (simp add: demo_held_def held_request_def)
  then have step: "withdrawal_step (?s demo_held demo_deposited [?c]) ?cancelled"
    using caller_cancels [of "''w1''" "?s demo_held demo_deposited [?c]"] by simp
  have "reaches ?cancelled ?cancelled"
    by (rule reachable_init) simp
  then have "reaches ?cancelled (?s (marked Cancelled) (book_paid 0 [?p]) [?m])"
    by (rule reachable_step)
      (use sweep_posts [of 0 ?cancelled held_request "[]"] in
        \<open>simp add: firm_marked post_book_paid held_request_id\<close>)
  then have paid: "reaches ?cancelled (?s (marked Completed) (book_paid 0 [?p]) [?d])"
    by (rule reachable_step)
      (use sweep_marks [of 0 "?s (marked Cancelled) (book_paid 0 [?p]) [?m]"] in
        \<open>simp add: set_status_marked\<close>)
  show ?thesis
    by (rule exI [of _ "?s demo_held demo_deposited [?c]"], rule exI [of _ ?cancelled],
        rule exI [of _ "?s (marked Completed) (book_paid 0 [?p]) [?d]"])
      (simp add: collected granted step paid, simp add: payout_count_def demo_deposited_def
        demo_entry_def book_paid_def payout_entry_def held_request_def payout_description_def
        lookup_request_def marked_def)
qed

end
