(* ===== verification/DepositRail.thy ===== *)
theory DepositRail
  imports FundSegregation
begin

text \<open>
  The simulated deposit rail, services/ledger/internal/depositrail/simulatedDepositRail.go: a
  deposit is initiated as pending and moves money only when it is confirmed, through the
  segregation guard. \<open>ConfirmDeposit\<close> claims the deposit under the rail's mutex, posts outside it,
  and finishes or rolls the claim back under it again; \<open>confirm_deposit\<close> is the call run on its
  own, \<open>rail_step\<close> its critical sections interleaved with other calls.
\<close>

section \<open>State and operations\<close>

datatype deposit_status = DepositPending | DepositConfirmed

record simulated_deposit =
  deposit_id :: string
  deposit_account :: string
  deposit_method :: string
  deposit_amount :: int64
  initiated_at :: instant
  confirmed_at :: "instant option"
  deposit_status :: deposit_status

datatype deposit_error =
    MissingDepositAccountIdentifier
  | InvalidDepositMethod
  | InvalidDepositAmount
  | DepositIdGenerationFailed
  | DepositNotFound
  | DepositAlreadyConfirmed
  | DepositPostingError segregation_error

type_synonym deposit_rail = "simulated_deposit table"

definition deposit_methods :: "string list" where
  "deposit_methods = [''UPI'', ''NEFT'', ''IMPS'', ''NETBANKING'']"

definition deposit_method_valid :: "string \<Rightarrow> bool" where
  "deposit_method_valid m = (m \<in> set deposit_methods)"

definition initiate_deposit ::
    "string \<Rightarrow> string \<Rightarrow> int64 \<Rightarrow> instant \<Rightarrow> string option \<Rightarrow> deposit_rail \<Rightarrow>
      deposit_error + simulated_deposit \<times> deposit_rail" where
  "initiate_deposit a m amount now new_id rail =
    (if a = '''' then Inl MissingDepositAccountIdentifier
     else if \<not> deposit_method_valid m then Inl InvalidDepositMethod
     else if amount \<le>s 0 then Inl InvalidDepositAmount
     else case new_id of None \<Rightarrow> Inl DepositIdGenerationFailed
     | Some did \<Rightarrow>
         let d = \<lparr>deposit_id = did, deposit_account = a, deposit_method = m, deposit_amount = amount,
                  initiated_at = now, confirmed_at = None, deposit_status = DepositPending\<rparr>
         in Inr (d, put did d rail))"

definition update_deposit ::
    "string \<Rightarrow> (simulated_deposit \<Rightarrow> simulated_deposit) \<Rightarrow> deposit_rail \<Rightarrow> deposit_rail" where
  "update_deposit did f rail =
    (case lookup rail did of None \<Rightarrow> rail | Some d \<Rightarrow> put did (f d) rail)"

definition claim_deposit ::
    "string \<Rightarrow> deposit_rail \<Rightarrow> deposit_error + simulated_deposit \<times> deposit_rail" where
  "claim_deposit did rail = (case lookup rail did of
     None \<Rightarrow> Inl DepositNotFound
   | Some d \<Rightarrow>
       if deposit_status d = DepositConfirmed then Inl DepositAlreadyConfirmed
       else Inr (d\<lparr>deposit_status := DepositConfirmed\<rparr>,
         update_deposit did (\<lambda>d. d\<lparr>deposit_status := DepositConfirmed\<rparr>) rail))"

definition roll_back_claim :: "string \<Rightarrow> deposit_rail \<Rightarrow> deposit_rail" where
  "roll_back_claim did = update_deposit did (\<lambda>d. d\<lparr>deposit_status := DepositPending\<rparr>)"

definition finish_claim :: "string \<Rightarrow> instant \<Rightarrow> deposit_rail \<Rightarrow> deposit_rail" where
  "finish_claim did now = update_deposit did (\<lambda>d. d\<lparr>confirmed_at := Some now\<rparr>)"

definition deposit_description :: "string \<Rightarrow> string \<Rightarrow> string" where
  "deposit_description m did = ''simulated '' @ m @ '' deposit confirmed, depositId='' @ did"

definition post_deposit ::
    "segregation_guard \<Rightarrow> simulated_deposit \<Rightarrow> ledger_book \<Rightarrow> segregation_error + ledger_book" where
  "post_deposit g d b = post_client_money_movement g (deposit_account d) (deposit_amount d)
     (deposit_description (deposit_method d) (deposit_id d)) b"

definition confirm_deposit ::
    "segregation_guard \<Rightarrow> string \<Rightarrow> instant \<Rightarrow> deposit_rail \<Rightarrow> ledger_book \<Rightarrow>
      (deposit_error + simulated_deposit) \<times> deposit_rail \<times> ledger_book" where
  "confirm_deposit g did now rail b =
    (case claim_deposit did rail of
       Inl err \<Rightarrow> (Inl err, rail, b)
     | Inr (d, rail') \<Rightarrow>
         (case post_deposit g d b of
            Inl err \<Rightarrow> (Inl (DepositPostingError err), roll_back_claim did rail', b)
          | Inr b' \<Rightarrow> (Inr (d\<lparr>confirmed_at := Some now\<rparr>), finish_claim did now rail', b')))"

definition deposits_for_account :: "string \<Rightarrow> deposit_rail \<Rightarrow> simulated_deposit list" where
  "deposits_for_account a rail =
    sort_key initiated_at (filter (\<lambda>d. deposit_account d = a) (map snd rail))"

definition lookup_deposit :: "string \<Rightarrow> deposit_rail \<Rightarrow> simulated_deposit option" where
  "lookup_deposit did rail = lookup rail did"

lemma lookup_update_deposit [simp]:
  "lookup (update_deposit did f rail) k =
    (if k = did then map_option f (lookup rail did) else lookup rail k)"
  by (simp add: update_deposit_def split: option.splits)

section \<open>Well-formed rails\<close>

definition rail_ok :: "deposit_rail \<Rightarrow> bool" where
  "rail_ok rail \<longleftrightarrow> indexed_by deposit_id rail \<and>
    (\<forall>k d. lookup rail k = Some d \<longrightarrow> deposit_method_valid (deposit_method d) \<and> 0 <s deposit_amount d)"

lemma rail_ok_key: "rail_ok rail \<Longrightarrow> lookup rail k = Some d \<Longrightarrow> deposit_id d = k"
  by (auto simp: rail_ok_def intro: indexed_by_key)

lemma rail_ok_update:
  assumes "rail_ok rail" and "\<And>d. deposit_id (f d) = deposit_id d"
    and "\<And>d. deposit_method (f d) = deposit_method d" and "\<And>d. deposit_amount (f d) = deposit_amount d"
  shows "rail_ok (update_deposit did f rail)"
proof (cases "lookup rail did")
  case None
  with assms(1) show ?thesis by (simp add: update_deposit_def)
next
  case (Some d)
  have "deposit_id (f d) = did"
    using rail_ok_key [OF assms(1) Some] assms(2) by simp
  with Some assms show ?thesis
    by (auto simp: rail_ok_def update_deposit_def)
qed

lemma initiate_deposit_Inr:
  "initiate_deposit a m amount now new_id rail = Inr (d, rail') \<longleftrightarrow>
    a \<noteq> '''' \<and> deposit_method_valid m \<and> 0 <s amount \<and> (\<exists>did. new_id = Some did \<and>
      d = \<lparr>deposit_id = did, deposit_account = a, deposit_method = m, deposit_amount = amount,
           initiated_at = now, confirmed_at = None, deposit_status = DepositPending\<rparr> \<and>
      rail' = put did d rail)"
  unfolding initiate_deposit_def Let_def word_sless_alt word_sle_eq by (cases new_id) auto

lemma claim_deposit_Inr:
  "claim_deposit did rail = Inr (d', rail') \<longleftrightarrow>
    (\<exists>d. lookup rail did = Some d \<and> deposit_status d = DepositPending \<and>
      d' = d\<lparr>deposit_status := DepositConfirmed\<rparr> \<and>
      rail' = update_deposit did (\<lambda>d. d\<lparr>deposit_status := DepositConfirmed\<rparr>) rail)"
  using deposit_status.exhaust by (auto simp: claim_deposit_def split: option.splits)

lemma rail_ok_initiate:
  "rail_ok rail \<Longrightarrow> initiate_deposit a m amount now new_id rail = Inr (d, rail') \<Longrightarrow> rail_ok rail'"
  by (auto simp: rail_ok_def initiate_deposit_Inr split: if_splits)

lemma rail_ok_claim: "rail_ok rail \<Longrightarrow> claim_deposit did rail = Inr (d, rail') \<Longrightarrow> rail_ok rail'"
  by (auto simp: claim_deposit_Inr intro!: rail_ok_update)

lemma rail_ok_roll_back: "rail_ok rail \<Longrightarrow> rail_ok (roll_back_claim did rail)"
  by (auto simp: roll_back_claim_def intro!: rail_ok_update)

lemma rail_ok_finish: "rail_ok rail \<Longrightarrow> rail_ok (finish_claim did now rail)"
  by (auto simp: finish_claim_def intro!: rail_ok_update)

section \<open>Interleaved confirmations\<close>

text \<open>
  A confirmation in flight has claimed its deposit; then its posting has succeeded or failed. The
  bag of confirmations in flight holds one stage per running call.
\<close>

datatype confirm_stage = Claimed simulated_deposit | Posted | PostFailed

record rail_system =
  rail :: deposit_rail
  rail_book :: ledger_book
  in_flight :: "(string \<times> confirm_stage) multiset"

definition is_deposit_entry :: "string \<Rightarrow> journal_entry \<Rightarrow> bool" where
  "is_deposit_entry did e \<longleftrightarrow>
    entry_description e \<in> set (map (\<lambda>m. deposit_description m did) deposit_methods)"

definition deposit_postings :: "ledger_book \<Rightarrow> string \<Rightarrow> nat" where
  "deposit_postings b did = length (filter (is_deposit_entry did) (posted_entries b))"

inductive rail_step :: "segregation_guard \<Rightarrow> rail_system \<Rightarrow> rail_system \<Rightarrow> bool"
  for g :: segregation_guard where
  step_initiate: "lookup (rail s) did = None \<Longrightarrow>
    initiate_deposit a m amount now (Some did) (rail s) = Inr (d, rail') \<Longrightarrow>
    rail_step g s (s\<lparr>rail := rail'\<rparr>)"
| step_claim: "claim_deposit did (rail s) = Inr (d, rail') \<Longrightarrow>
    rail_step g s (s\<lparr>rail := rail', in_flight := add_mset (did, Claimed d) (in_flight s)\<rparr>)"
| step_post: "in_flight s = add_mset (did, Claimed d) F \<Longrightarrow>
    post_deposit g d (rail_book s) = Inr b' \<Longrightarrow>
    rail_step g s (s\<lparr>rail_book := b', in_flight := add_mset (did, Posted) F\<rparr>)"
| step_post_fails: "in_flight s = add_mset (did, Claimed d) F \<Longrightarrow>
    post_deposit g d (rail_book s) = Inl err \<Longrightarrow>
    rail_step g s (s\<lparr>in_flight := add_mset (did, PostFailed) F\<rparr>)"
| step_finish: "in_flight s = add_mset (did, Posted) F \<Longrightarrow>
    rail_step g s (s\<lparr>rail := finish_claim did now (rail s), in_flight := F\<rparr>)"
| step_roll_back: "in_flight s = add_mset (did, PostFailed) F \<Longrightarrow>
    rail_step g s (s\<lparr>rail := roll_back_claim did (rail s), in_flight := F\<rparr>)"
| step_other_post: "(\<And>did. \<not> is_deposit_entry did e) \<Longrightarrow>
    post_journal_entry e (rail_book s) = Inr b' \<Longrightarrow> rail_step g s (s\<lparr>rail_book := b'\<rparr>)"

definition rail_init :: "rail_system \<Rightarrow> bool" where
  "rail_init s \<longleftrightarrow> rail s = [] \<and> in_flight s = {#} \<and> posted_entries (rail_book s) = []"

text \<open>
  The invariant: a deposit is confirmed exactly when it has been posted once or one call holds a
  claim on it that is not posted yet; claims carry the deposit's own data.
\<close>

definition open_in :: "(string \<times> confirm_stage) multiset \<Rightarrow> string \<Rightarrow> nat" where
  "open_in F did = size (filter_mset (\<lambda>p. fst p = did \<and> snd p \<noteq> Posted) F)"

abbreviation open_claims :: "rail_system \<Rightarrow> string \<Rightarrow> nat" where
  "open_claims s did \<equiv> open_in (in_flight s) did"

lemma open_in_empty [simp]: "open_in {#} did = 0"
  by (simp add: open_in_def)

lemma open_in_add [simp]:
  "open_in (add_mset p F) did = (if fst p = did \<and> snd p \<noteq> Posted then 1 else 0) + open_in F did"
  by (simp add: open_in_def)

definition confirmed_count :: "deposit_rail \<Rightarrow> string \<Rightarrow> nat" where
  "confirmed_count r did = (case lookup r did of None \<Rightarrow> 0
     | Some d \<Rightarrow> if deposit_status d = DepositConfirmed then 1 else 0)"

definition rail_inv :: "rail_system \<Rightarrow> bool" where
  "rail_inv s \<longleftrightarrow> rail_ok (rail s) \<and>
    (\<forall>did. deposit_postings (rail_book s) did + open_claims s did = confirmed_count (rail s) did) \<and>
    (\<forall>did d. (did, Claimed d) \<in># in_flight s \<longrightarrow>
       deposit_id d = did \<and> deposit_method_valid (deposit_method d))"

lemma deposit_description_inject:
  assumes "m \<in> set deposit_methods" and "n \<in> set deposit_methods"
    and "deposit_description m i = deposit_description n j"
  shows "i = j"
  using assms by (auto simp: deposit_methods_def deposit_description_def)

lemma deposit_postings_post:
  "post_journal_entry e b = Inr b' \<Longrightarrow>
    deposit_postings b' did = deposit_postings b did + (if is_deposit_entry did e then 1 else 0)"
  by (simp add: deposit_postings_def post_journal_entry_posted)

lemma deposit_postings_deposit:
  assumes "post_deposit g d b = Inr b'" and "deposit_method_valid (deposit_method d)"
  shows "deposit_postings b' did = deposit_postings b did + (if deposit_id d = did then 1 else 0)"
proof -
  let ?desc = "deposit_description (deposit_method d) (deposit_id d)"
  let ?e = "client_movement_entry g (deposit_account d) (deposit_amount d) ?desc"
  have "post_journal_entry ?e b = Inr b'"
    using assms(1) by (simp add: post_deposit_def post_client_money_movement_Inr)
  moreover have "entry_description ?e = ?desc"
    by (simp add: client_movement_entry_def Let_def)
  then have "is_deposit_entry did ?e \<longleftrightarrow> deposit_id d = did"
    using assms(2) deposit_description_inject
    by (auto simp: is_deposit_entry_def deposit_method_valid_def)
  ultimately show ?thesis
    by (simp add: deposit_postings_post)
qed

lemma confirmed_count_update:
  "confirmed_count (update_deposit did f r) k =
    (if k = did then (case lookup r did of None \<Rightarrow> 0
       | Some d \<Rightarrow> if deposit_status (f d) = DepositConfirmed then 1 else 0)
     else confirmed_count r k)"
  by (simp add: confirmed_count_def split: option.splits)

lemma rail_inv_init: "rail_init s \<Longrightarrow> rail_inv s"
  by (auto simp: rail_init_def rail_inv_def rail_ok_def deposit_postings_def
    confirmed_count_def)

lemma rail_inv_initiate:
  assumes "rail_inv s" and "lookup (rail s) did = None"
    and "initiate_deposit a m amount now (Some did) (rail s) = Inr (d, rail')"
  shows "rail_inv (s\<lparr>rail := rail'\<rparr>)"
proof -
  have "confirmed_count rail' k = confirmed_count (rail s) k" for k
    using assms(2,3) by (auto simp: initiate_deposit_Inr confirmed_count_def)
  with assms rail_ok_initiate [OF _ assms(3)] show ?thesis
    by (simp add: rail_inv_def)
qed

lemma rail_inv_claim:
  assumes "rail_inv s" and "claim_deposit did (rail s) = Inr (d, rail')"
  shows "rail_inv (s\<lparr>rail := rail', in_flight := add_mset (did, Claimed d) (in_flight s)\<rparr>)"
proof -
  obtain c where c: "lookup (rail s) did = Some c" "deposit_status c = DepositPending"
    "d = c\<lparr>deposit_status := DepositConfirmed\<rparr>"
    "rail' = update_deposit did (\<lambda>d. d\<lparr>deposit_status := DepositConfirmed\<rparr>) (rail s)"
    using assms(2) by (auto simp: claim_deposit_Inr)
  have ok: "rail_ok (rail s)"
    using assms(1) by (simp add: rail_inv_def)
  have d: "deposit_id d = did" "deposit_method_valid (deposit_method d)"
    using rail_ok_key [OF ok c(1)] c(1,3) ok by (auto simp: rail_ok_def)
  have count: "confirmed_count rail' k = (if k = did then 1 else 0) + confirmed_count (rail s) k" for k
    using c(1,2) unfolding c(4) confirmed_count_update by (simp add: confirmed_count_def)
  show ?thesis
    using assms(1) d rail_ok_claim [OF ok assms(2)]
    by (auto simp: rail_inv_def count)
qed

lemma rail_inv_post:
  assumes "rail_inv s" and "in_flight s = add_mset (did, Claimed d) F"
    and "post_deposit g d (rail_book s) = Inr b'"
  shows "rail_inv (s\<lparr>rail_book := b', in_flight := add_mset (did, Posted) F\<rparr>)"
proof -
  have d: "deposit_id d = did" "deposit_method_valid (deposit_method d)"
    using assms(1,2) by (auto simp: rail_inv_def)
  have "deposit_postings b' k + open_in (add_mset (did, Posted) F) k =
      deposit_postings (rail_book s) k + open_claims s k" for k
    using deposit_postings_deposit [OF assms(3) d(2), of k] d(1) assms(2) by simp
  with assms(1,2) show ?thesis
    by (simp add: rail_inv_def)
qed

lemma rail_inv_post_fails:
  "rail_inv s \<Longrightarrow> in_flight s = add_mset (did, Claimed d) F \<Longrightarrow>
    rail_inv (s\<lparr>in_flight := add_mset (did, PostFailed) F\<rparr>)"
  by (auto simp: rail_inv_def)

lemma rail_inv_finish:
  assumes "rail_inv s" and "in_flight s = add_mset (did, Posted) F"
  shows "rail_inv (s\<lparr>rail := finish_claim did now (rail s), in_flight := F\<rparr>)"
proof -
  have "confirmed_count (finish_claim did now (rail s)) k = confirmed_count (rail s) k" for k
    by (simp add: finish_claim_def confirmed_count_def split: option.splits)
  with assms rail_ok_finish [of "rail s" did now] show ?thesis
    by (auto simp: rail_inv_def)
qed

lemma rail_inv_roll_back:
  assumes "rail_inv s" and "in_flight s = add_mset (did, PostFailed) F"
  shows "rail_inv (s\<lparr>rail := roll_back_claim did (rail s), in_flight := F\<rparr>)"
proof -
  have open1: "open_claims s k =
      (if k = did then 1 else 0) + open_claims (s\<lparr>rail := r, in_flight := F\<rparr>) k" for k r
    using assms(2) by simp
  have counts: "deposit_postings (rail_book s) k + open_claims s k = confirmed_count (rail s) k" for k
    using assms(1) by (simp add: rail_inv_def)
  have "confirmed_count (rail s) did \<le> 1"
    by (simp add: confirmed_count_def split: option.splits)
  then have zero: "deposit_postings (rail_book s) did = 0"
    "open_claims (s\<lparr>rail := r, in_flight := F\<rparr>) did = 0" for r
    using counts [of did] open1 [of did] by auto
  have "confirmed_count (roll_back_claim did (rail s)) k =
      (if k = did then 0 else confirmed_count (rail s) k)" for k
    by (simp add: roll_back_claim_def confirmed_count_update split: option.splits)
  then have "deposit_postings (rail_book s) k +
      open_claims (s\<lparr>rail := roll_back_claim did (rail s), in_flight := F\<rparr>) k =
      confirmed_count (roll_back_claim did (rail s)) k" for k
    using counts [of k] open1 [of k] zero by auto
  with assms rail_ok_roll_back [of "rail s" did] show ?thesis
    by (auto simp: rail_inv_def)
qed

lemma rail_inv_step: "rail_inv s \<Longrightarrow> rail_step g s t \<Longrightarrow> rail_inv t"
proof (erule rail_step.cases, goal_cases)
  case (7 u e b')
  then show ?case
    by (simp add: rail_inv_def deposit_postings_post)
qed (simp_all add: rail_inv_initiate rail_inv_claim rail_inv_post rail_inv_post_fails rail_inv_finish
    rail_inv_roll_back)

interpretation rail: invariant_system rail_init "rail_step g" rail_inv
  by unfold_locales (auto intro: rail_inv_init rail_inv_step)

section \<open>Properties\<close>

lemma deposit_posted_or_claimed:
  assumes "reachable_by rail_init (rail_step g) s"
  shows "deposit_postings (rail_book s) did + open_claims s did = confirmed_count (rail s) did"
  using rail.inv_reachable [OF assms] by (simp add: rail_inv_def)

lemma confirmed_count_le: "confirmed_count r did \<le> 1"
  by (simp add: confirmed_count_def split: option.splits)

text \<open>
  C24. Money is never posted twice for the same deposit. In every state that any interleaving of
  initiations, confirmations and other postings reaches, the journal holds at most one posting for
  each deposit; it holds none for a deposit that is pending or unknown; and once no confirmation
  of the deposit is in flight it holds one exactly when the deposit is confirmed.
\<close>

theorem deposit_posted_at_most_once:
  assumes "reachable_by rail_init (rail_step g) s"
  shows "deposit_postings (rail_book s) did \<le> 1
    \<and> (map_option deposit_status (lookup_deposit did (rail s)) \<noteq> Some DepositConfirmed \<longrightarrow>
        deposit_postings (rail_book s) did = 0)
    \<and> ((\<forall>stage. (did, stage) \<notin># in_flight s) \<longrightarrow>
        (deposit_postings (rail_book s) did = 1 \<longleftrightarrow>
         map_option deposit_status (lookup_deposit did (rail s)) = Some DepositConfirmed))"
proof -
  note inv = deposit_posted_or_claimed [OF assms, of did]
  have settled: "open_claims s did = 0" if "\<forall>stage. (did, stage) \<notin># in_flight s"
    using that by (auto simp: open_in_def filter_mset_eq_conv)
  have "confirmed_count (rail s) did =
      (if map_option deposit_status (lookup_deposit did (rail s)) = Some DepositConfirmed then 1 else 0)"
    by (simp add: confirmed_count_def lookup_deposit_def split: option.splits)
  with inv settled confirmed_count_le [of "rail s" did] show ?thesis
    by (auto split: if_splits)
qed

text \<open>
  A confirmation that runs on its own is all or nothing. It fails for an unknown or already
  confirmed deposit and when the guard rejects the movement, and then neither the deposits nor
  the book change; when it succeeds the client and the custody pool have each gained exactly the
  deposit's amount, no other deposit has changed, and confirming again is rejected.
\<close>

theorem confirm_deposit_atomic:
  assumes "guard_ok g" and "confirm_deposit g did now ds b = (result, ds', b')"
  shows "case result of
      Inl err \<Rightarrow> b' = b \<and> (\<forall>k. lookup_deposit k ds' = lookup_deposit k ds)
    | Inr d \<Rightarrow> lookup_deposit did ds' = Some d
        \<and> map_option (\<lambda>c. c\<lparr>deposit_status := DepositConfirmed, confirmed_at := Some now\<rparr>)
            (lookup_deposit did ds) = Some d
        \<and> map_option deposit_status (lookup_deposit did ds) = Some DepositPending
        \<and> (\<forall>k. k \<noteq> did \<longrightarrow> lookup_deposit k ds' = lookup_deposit k ds)
        \<and> lookup (account_balances b') = (\<lambda>a. map_option (\<lambda>v. v +
            (if a = deposit_account d then deposit_amount d
             else if a = custody_pool_account g then deposit_amount d
             else if a = external_cash_suspense_account g then - (2 * deposit_amount d)
             else 0)) (lookup (account_balances b) a))
        \<and> confirm_deposit g did later ds' b' = (Inl DepositAlreadyConfirmed, ds', b')"
proof (cases "claim_deposit did ds")
  case (Inl err)
  then show ?thesis
    using assms(2) by (auto simp: confirm_deposit_def)
next
  case (Inr claim)
  obtain d0 ds1 where claim: "claim = (d0, ds1)" by fastforce
  obtain c where c: "lookup ds did = Some c" "deposit_status c = DepositPending"
    "d0 = c\<lparr>deposit_status := DepositConfirmed\<rparr>"
    "ds1 = update_deposit did (\<lambda>d. d\<lparr>deposit_status := DepositConfirmed\<rparr>) ds"
    using Inr unfolding claim claim_deposit_Inr by blast
  have same: "c\<lparr>deposit_status := DepositPending\<rparr> = c"
    using c(2) by simp
  show ?thesis
  proof (cases "post_deposit g d0 b")
    case (Inl err)
    then have "result = Inl (DepositPostingError err)" "ds' = roll_back_claim did ds1" "b' = b"
      using assms(2) \<open>claim_deposit did ds = Inr claim\<close> by (auto simp: confirm_deposit_def claim)
    then show ?thesis
      using c same by (simp add: lookup_deposit_def roll_back_claim_def)
  next
    case (Inr b1)
    then have r: "result = Inr (d0\<lparr>confirmed_at := Some now\<rparr>)" "ds' = finish_claim did now ds1"
      "b' = b1"
      using assms(2) \<open>claim_deposit did ds = Inr claim\<close> by (auto simp: confirm_deposit_def claim)
    have found: "lookup ds' did = Some (d0\<lparr>confirmed_at := Some now\<rparr>)"
      "\<And>k. k \<noteq> did \<Longrightarrow> lookup ds' k = lookup ds k"
      using c by (simp_all add: r finish_claim_def)
    then have again: "confirm_deposit g did later ds' b' = (Inl DepositAlreadyConfirmed, ds', b')"
      using c(3) by (simp add: confirm_deposit_def claim_deposit_def)
    have "lookup (account_balances b') = (\<lambda>a. map_option (\<lambda>v. v +
        (if a = deposit_account d0 then deposit_amount d0
         else if a = custody_pool_account g then deposit_amount d0
         else if a = external_cash_suspense_account g then - (2 * deposit_amount d0)
         else 0)) (lookup (account_balances b) a))"
      using client_movement_balances [OF assms(1)] Inr unfolding r(3) post_deposit_def by blast
    with found again c show ?thesis
      by (simp add: r(1) lookup_deposit_def cong: if_cong)
  qed
qed

definition demo_rail :: deposit_rail where
  "demo_rail = [(''d1'', \<lparr>deposit_id = ''d1'', deposit_account = ''acct-001'', deposit_method = ''UPI'',
     deposit_amount = 700, initiated_at = 5, confirmed_at = None, deposit_status = DepositPending\<rparr>)]"

definition demo_deposit_book :: ledger_book where
  "demo_deposit_book = demo_funded\<lparr>posted_entries :=
     [client_movement_entry demo_guard ''acct-001'' 700 (deposit_description ''UPI'' ''d1'')]\<rparr>"

definition demo_claimed :: simulated_deposit where
  "demo_claimed = \<lparr>deposit_id = ''d1'', deposit_account = ''acct-001'', deposit_method = ''UPI'',
     deposit_amount = 700, initiated_at = 5, confirmed_at = None, deposit_status = DepositConfirmed\<rparr>"

lemma demo_claim: "claim_deposit ''d1'' demo_rail = Inr (demo_claimed, [(''d1'', demo_claimed)])"
  by (simp add: claim_deposit_def demo_rail_def demo_claimed_def update_deposit_def)

lemma demo_post_deposit: "post_deposit demo_guard demo_claimed demo_ledger = Inr demo_deposit_book"
  by (simp add: post_deposit_def demo_claimed_def post_client_money_movement_def demo_guard_def
      is_client_def account_kind_of_def demo_ledger_def demo_funded_def demo_deposit_book_def
      new_ledger_book_with_accounts_def post_journal_entry_def client_movement_entry_def
      new_segregation_guard_def sum_of_debit_lines_def sum_of_credit_lines_def lookup_or_def
      max_movement_amount_def lift_ledger_error_def)

lemma demo_confirm:
  "confirm_deposit demo_guard ''d1'' 9 demo_rail demo_ledger =
    (Inr (demo_claimed\<lparr>confirmed_at := Some 9\<rparr>),
     [(''d1'', demo_claimed\<lparr>confirmed_at := Some 9\<rparr>)], demo_deposit_book)"
  by (simp add: confirm_deposit_def demo_claim demo_post_deposit finish_claim_def update_deposit_def)

lemma confirm_deposit_atomic_witness:
  "current_balance demo_deposit_book ''acct-001'' = Inr 700
   \<and> confirm_deposit demo_guard ''d1'' 11 [(''d1'', demo_claimed\<lparr>confirmed_at := Some 9\<rparr>)] demo_deposit_book
       = (Inl DepositAlreadyConfirmed, [(''d1'', demo_claimed\<lparr>confirmed_at := Some 9\<rparr>)],
          demo_deposit_book)"
  using confirm_deposit_atomic [OF demo_guard_ok demo_confirm, of 11]
  by (simp add: current_balance_def demo_claimed_def demo_ledger_def new_ledger_book_with_accounts_def)

lemma demo_rail_run:
  "reachable_by rail_init (rail_step demo_guard)
     \<lparr>rail = [(''d1'', demo_claimed)], rail_book = demo_deposit_book, in_flight = {#(''d1'', Posted)#}\<rparr>"
proof -
  let ?s = "\<lambda>r b F. \<lparr>rail = r, rail_book = b, in_flight = F\<rparr>"
  let ?reach = "reachable_by rail_init (rail_step demo_guard)"
  have "?reach (?s [] demo_ledger {#})"
    by (rule reachable_init) (simp add: rail_init_def demo_ledger_def new_ledger_book_with_accounts_def)
  then have "?reach (?s demo_rail demo_ledger {#})"
    by (rule reachable_step)
      (use step_initiate [of "?s [] demo_ledger {#}" "''d1''" "''acct-001''" "''UPI''" 700 5] in
        \<open>simp add: initiate_deposit_def demo_rail_def deposit_method_valid_def deposit_methods_def
          Let_def word_sle_eq\<close>)
  then have "?reach (?s [(''d1'', demo_claimed)] demo_ledger {#(''d1'', Claimed demo_claimed)#})"
    by (rule reachable_step)
      (use step_claim [of "''d1''" "?s demo_rail demo_ledger {#}"] in \<open>simp add: demo_claim\<close>)
  then show ?thesis
    by (rule reachable_step)
      (use step_post [of "?s [(''d1'', demo_claimed)] demo_ledger {#(''d1'', Claimed demo_claimed)#}"
          "''d1''" demo_claimed "{#}"] in \<open>simp add: demo_post_deposit\<close>)
qed

lemma deposit_posted_at_most_once_witness:
  "deposit_postings demo_deposit_book ''d1'' \<le> 1 \<and> deposit_postings demo_deposit_book ''d2'' = 0"
  using deposit_posted_at_most_once [OF demo_rail_run, of "''d1''"]
    deposit_posted_at_most_once [OF demo_rail_run, of "''d2''"]
  by (simp add: lookup_deposit_def)

end
