(* ===== verification/GoCalendar.thy ===== *)
theory GoCalendar
  imports Prelude
begin

text \<open>
  The part of Go's calendar that the services use: \<open>time.Time.AddDate\<close> in a zone of fixed offset
  (the proleptic Gregorian calendar, with \<open>time.Date\<close>'s normalisation of months and days out of
  range). Days are counted from 1 January of year 1. The lemmas show that the conversion
  between days and dates is exact, and how far \<open>AddDate\<close> moves an instant.
\<close>

section \<open>Years\<close>

definition leap_year :: "int \<Rightarrow> bool" where
  "leap_year y = (y mod 4 = 0 \<and> (y mod 100 \<noteq> 0 \<or> y mod 400 = 0))"

definition days_before_year :: "int \<Rightarrow> int" where
  "days_before_year y = 365 * (y - 1) + (y - 1) div 4 - (y - 1) div 100 + (y - 1) div 400"

definition year_of_day :: "int \<Rightarrow> int" where
  "year_of_day n = (let y = 400 * n div 146097 + 1 in if days_before_year (y + 1) \<le> n then y + 1 else y)"

lemma days_in_year: "days_before_year (y + 1) - days_before_year y = (if leap_year y then 366 else 365)"
proof -
  have step: "y div k - (y - 1) div k = (if y mod k = 0 then 1 else 0)" if "0 < k" for k :: int
  proof (cases "y mod k = 0")
    case True
    then obtain q where "y = k * q" by (metis mult_div_mod_eq add.right_neutral)
    moreover have "(k * q - 1) div k = q - 1"
      using that by (intro int_div_pos_eq [of _ _ _ "k - 1"]) (simp_all add: algebra_simps)
    ultimately show ?thesis using that True by simp
  next
    case False
    have "y - 1 = k * (y div k) + (y mod k - 1)"
      using mult_div_mod_eq [of k y] by simp
    moreover have "0 \<le> y mod k - 1" "y mod k - 1 < k"
      using False that pos_mod_bound [of k y] pos_mod_sign [of k y] by linarith+
    ultimately have "(y - 1) div k = y div k"
      by (rule int_div_pos_eq)
    with False show ?thesis by simp
  qed
  have mods: "y mod 400 = 0 \<Longrightarrow> y mod 100 = 0" "y mod 100 = 0 \<Longrightarrow> y mod 4 = 0"
    by presburger+
  have "days_before_year (y + 1) - days_before_year y =
      365 + (y div 4 - (y - 1) div 4) - (y div 100 - (y - 1) div 100) + (y div 400 - (y - 1) div 400)"
  proof -
    have lin: "365 * y + a - b + c - (365 * (y - 1) + d - e + f) = 365 + (a - d) - (b - e) + (c - f)"
      for a b c d e f :: int
      by simp
    show ?thesis
      unfolding days_before_year_def add_diff_cancel_right' by (rule lin)
  qed
  also have "\<dots> = (if leap_year y then 366 else 365)"
    unfolding leap_year_def step [of 4, simplified] step [of 100, simplified] step [of 400, simplified]
    using mods by (cases "y mod 4 = 0"; cases "y mod 100 = 0"; cases "y mod 400 = 0") simp_all
  finally show ?thesis .
qed

text \<open>
  Four hundred years are 146097 days, and the days before a year differ from that average by less
  than two: the estimate of the year is right or one too small.
\<close>

lemma days_before_year_bounds:
  fixes k :: int
  shows "400 * days_before_year (k + 1) \<le> 146097 * k + 297"
    and "146097 * k - 600 \<le> 400 * days_before_year (k + 1)"
proof -
  have lin: "400 * (365 * k + a - b + c) = 146097 * k - 100 * r + 4 * u - v"
    if "4 * a + r = k" "100 * b + u = k" "400 * c + v = k" for a b c r u v :: int
    using that by presburger
  have sum: "400 * days_before_year (k + 1) = 146097 * k - 100 * (k mod 4) + 4 * (k mod 100) - k mod 400"
    unfolding days_before_year_def add_diff_cancel_right' by (rule lin) (rule mult_div_mod_eq)+
  have centuries: "k mod 400 = 100 * (k div 100 mod 4) + k mod 100"
    using zmod_zmult2_eq [of 4 k 100] by simp
  have bound: "x \<le> 146097 * k + 297 \<and> 146097 * k - 600 \<le> x"
    if "x = 146097 * k - 100 * r + 4 * u - v" "v = 100 * q + u"
      "0 \<le> r \<and> r < 4" "0 \<le> u \<and> u < 100" "0 \<le> q \<and> q < 4" for x r u v q :: int
    using that by linarith
  have "400 * days_before_year (k + 1) \<le> 146097 * k + 297 \<and>
      146097 * k - 600 \<le> 400 * days_before_year (k + 1)"
    by (rule bound [OF sum centuries]) simp_all
  then show "400 * days_before_year (k + 1) \<le> 146097 * k + 297"
    and "146097 * k - 600 \<le> 400 * days_before_year (k + 1)"
    by blast+
qed

lemma year_of_day_bounds:
  "days_before_year (year_of_day n) \<le> n \<and> n < days_before_year (year_of_day n + 1)"
proof -
  let ?k = "400 * n div 146097"
  have est: "146097 * ?k \<le> 400 * n" "400 * n < 146097 * (?k + 1)"
    using mult_div_mod_eq [of 146097 "400 * n"] pos_mod_bound [of 146097 "400 * n"]
      pos_mod_sign [of 146097 "400 * n"] unfolding distrib_left by linarith+
  have "days_before_year (?k + 1) \<le> n"
    using est(1) days_before_year_bounds(1) [of ?k] by linarith
  moreover have "n < days_before_year (?k + 3)"
    using est(2) days_before_year_bounds(2) [of "?k + 2"] by (simp add: algebra_simps)
  ultimately show ?thesis
    by (auto simp: year_of_day_def Let_def add.assoc)
qed

lemma days_before_year_mono: "y \<le> z \<Longrightarrow> days_before_year y \<le> days_before_year z"
proof (induction z rule: int_ge_induct)
  case (step z)
  then show ?case using days_in_year [of z] by (simp split: if_splits)
qed simp

lemma year_of_day_eq:
  assumes "days_before_year y \<le> n" and "n < days_before_year (y + 1)"
  shows "year_of_day n = y"
proof (rule antisym)
  show "year_of_day n \<le> y"
  proof (rule ccontr)
    assume "\<not> year_of_day n \<le> y"
    then have "days_before_year (y + 1) \<le> days_before_year (year_of_day n)"
      by (intro days_before_year_mono) simp
    with assms(2) year_of_day_bounds [of n] show False by simp
  qed
  show "y \<le> year_of_day n"
  proof (rule ccontr)
    assume "\<not> y \<le> year_of_day n"
    then have "days_before_year (year_of_day n + 1) \<le> days_before_year y"
      by (intro days_before_year_mono) simp
    with assms(1) year_of_day_bounds [of n] show False by simp
  qed
qed

section \<open>Months and dates\<close>

definition days_before_month :: "int \<Rightarrow> int \<Rightarrow> int" where
  "days_before_month y m =
    [0, 31, 59, 90, 120, 151, 181, 212, 243, 273, 304, 334, 365] ! nat (m - 1)
    + (if 2 < m \<and> leap_year y then 1 else 0)"

definition days_in_month :: "int \<Rightarrow> int \<Rightarrow> int" where
  "days_in_month y m = days_before_month y (m + 1) - days_before_month y m"

text \<open>\<open>time.Date\<close>: the month is normalised into 1 to 12 with a carry into the year, the day counts on.\<close>

definition day_of_date :: "int \<Rightarrow> int \<Rightarrow> int \<Rightarrow> int" where
  "day_of_date y m d = (let y' = y + (m - 1) div 12; m' = (m - 1) mod 12 + 1
    in days_before_year y' + days_before_month y' m' + d - 1)"

definition month_of :: "int \<Rightarrow> int \<Rightarrow> int" where
  "month_of y n =
    (if n < days_before_month y 2 then 1 else if n < days_before_month y 3 then 2
     else if n < days_before_month y 4 then 3 else if n < days_before_month y 5 then 4
     else if n < days_before_month y 6 then 5 else if n < days_before_month y 7 then 6
     else if n < days_before_month y 8 then 7 else if n < days_before_month y 9 then 8
     else if n < days_before_month y 10 then 9 else if n < days_before_month y 11 then 10
     else if n < days_before_month y 12 then 11 else 12)"

definition date_of_day :: "int \<Rightarrow> int \<times> int \<times> int" where
  "date_of_day n = (let y = year_of_day n; i = n - days_before_year y; m = month_of y i
    in (y, m, i - days_before_month y m + 1))"

lemma days_before_month_simps:
  "days_before_month y 1 = 0" "days_before_month y 2 = 31"
  "days_before_month y 3 = 59 + (if leap_year y then 1 else 0)"
  "days_before_month y 4 = 90 + (if leap_year y then 1 else 0)"
  "days_before_month y 5 = 120 + (if leap_year y then 1 else 0)"
  "days_before_month y 6 = 151 + (if leap_year y then 1 else 0)"
  "days_before_month y 7 = 181 + (if leap_year y then 1 else 0)"
  "days_before_month y 8 = 212 + (if leap_year y then 1 else 0)"
  "days_before_month y 9 = 243 + (if leap_year y then 1 else 0)"
  "days_before_month y 10 = 273 + (if leap_year y then 1 else 0)"
  "days_before_month y 11 = 304 + (if leap_year y then 1 else 0)"
  "days_before_month y 12 = 334 + (if leap_year y then 1 else 0)"
  "days_before_month y 13 = 365 + (if leap_year y then 1 else 0)"
  by (simp_all add: days_before_month_def eval_nat_numeral)

lemma month_cases:
  fixes m :: int
  assumes "1 \<le> m" and "m \<le> 12"
  shows "m = 1 \<or> m = 2 \<or> m = 3 \<or> m = 4 \<or> m = 5 \<or> m = 6 \<or> m = 7 \<or> m = 8 \<or> m = 9 \<or> m = 10 \<or>
    m = 11 \<or> m = 12"
  using assms by presburger

lemma month_of_bounds:
  assumes "0 \<le> n" and "n < (if leap_year y then 366 else 365)"
  shows "1 \<le> month_of y n \<and> month_of y n \<le> 12 \<and> days_before_month y (month_of y n) \<le> n \<and>
    n < days_before_month y (month_of y n + 1)"
  using assms unfolding month_of_def days_before_month_simps
  by (simp add: days_before_month_simps) (simp split: if_splits)

lemma days_in_month_bounds:
  assumes "1 \<le> m" and "m \<le> 12"
  shows "28 \<le> days_in_month y m \<and> days_in_month y m \<le> 31"
  using month_cases [OF assms] by (elim disjE) (simp_all add: days_in_month_def days_before_month_simps)

lemma date_of_day_valid:
  assumes "date_of_day n = (y, m, d)"
  shows "1 \<le> m \<and> m \<le> 12 \<and> 1 \<le> d \<and> d \<le> days_in_month y m \<and> day_of_date y m d = n"
proof -
  let ?y = "year_of_day n" let ?i = "n - days_before_year ?y" let ?m = "month_of ?y ?i"
  have y: "y = ?y" and m: "m = ?m" and d: "d = ?i - days_before_month ?y ?m + 1"
    using assms unfolding date_of_day_def Let_def by blast+
  have i: "1 \<le> ?m \<and> ?m \<le> 12 \<and> days_before_month ?y ?m \<le> ?i \<and> ?i < days_before_month ?y (?m + 1)"
    using year_of_day_bounds [of n] days_in_year [of ?y] by (intro month_of_bounds) (auto split: if_splits)
  then have "(?m - 1) div 12 = 0" "(?m - 1) mod 12 = ?m - 1"
    by (simp_all add: div_pos_pos_trivial mod_pos_pos_trivial)
  with i show ?thesis
    unfolding y m d by (simp add: day_of_date_def days_in_month_def)
qed

text \<open>Moving on one month moves on by the length of the month one leaves.\<close>

lemma day_of_next_month:
  assumes "1 \<le> m" and "m \<le> 12"
  shows "day_of_date y (m + 1) d = day_of_date y m d + days_in_month y m"
proof (cases "m = 12")
  case True
  then show ?thesis
    using days_in_year [of y] True
    by (simp add: day_of_date_def days_in_month_def days_before_month_simps split: if_splits)
next
  case False
  then have "m div 12 = 0" "m mod 12 = m" "(m - 1) div 12 = 0" "(m - 1) mod 12 = m - 1"
    using assms by (simp_all add: div_pos_pos_trivial mod_pos_pos_trivial)
  then show ?thesis
    by (simp add: day_of_date_def days_in_month_def)
qed

section \<open>AddDate\<close>

definition unix_epoch_day :: int where
  "unix_epoch_day = 719162"

definition civil_day :: "int \<Rightarrow> instant \<Rightarrow> int" where
  "civil_day offset t = (t + offset) div day_nanos + unix_epoch_day"

definition add_date :: "int \<Rightarrow> int \<Rightarrow> int \<Rightarrow> int \<Rightarrow> instant \<Rightarrow> instant" where
  "add_date offset years months days t =
    (let clock = (t + offset) mod day_nanos;
         (y, m, d) = date_of_day (civil_day offset t)
     in (day_of_date (y + years) (m + months) (d + days) - unix_epoch_day) * day_nanos + clock - offset)"

lemma day_of_date_add: "day_of_date y m (d + k) = day_of_date y m d + k"
  by (simp add: day_of_date_def Let_def)

lemma clock_split: "(t + offset) div day_nanos * day_nanos + (t + offset) mod day_nanos - offset = t"
  by (simp add: div_mult_mod_eq)

lemma add_date_of_day:
  assumes "date_of_day (civil_day offset t) = (y, m, d)"
    and "day_of_date (y + years) (m + months) (d + days) = civil_day offset t + k"
  shows "add_date offset years months days t = t + k * day_nanos"
proof -
  have "add_date offset years months days t =
      (civil_day offset t + k - unix_epoch_day) * day_nanos + (t + offset) mod day_nanos - offset"
    by (simp add: add_date_def assms)
  also have "\<dots> = k * day_nanos +
      ((t + offset) div day_nanos * day_nanos + (t + offset) mod day_nanos - offset)"
    unfolding civil_day_def by algebra
  finally show ?thesis
    unfolding clock_split by simp
qed

lemma add_date_days: "add_date offset 0 0 k t = t + k * day_nanos"
proof -
  obtain y m d where ymd: "date_of_day (civil_day offset t) = (y, m, d)" by (metis prod_cases3)
  have "day_of_date y m (d + k) = civil_day offset t + k"
    using date_of_day_valid [OF ymd] by (simp add: day_of_date_add)
  with ymd show ?thesis
    by (simp add: add_date_of_day)
qed

definition length_of_month :: "int \<Rightarrow> instant \<Rightarrow> int" where
  "length_of_month offset t = (case date_of_day (civil_day offset t) of (y, m, d) \<Rightarrow> days_in_month y m)"

lemma add_date_month: "add_date offset 0 1 0 t = t + length_of_month offset t * day_nanos"
proof -
  obtain y m d where ymd: "date_of_day (civil_day offset t) = (y, m, d)" by (metis prod_cases3)
  have "day_of_date y (m + 1) d = civil_day offset t + days_in_month y m"
    using date_of_day_valid [OF ymd] by (simp add: day_of_next_month)
  with ymd show ?thesis
    by (simp add: add_date_of_day length_of_month_def)
qed

lemma length_of_month_bounds: "28 \<le> length_of_month offset t \<and> length_of_month offset t \<le> 31"
proof -
  obtain y m d where ymd: "date_of_day (civil_day offset t) = (y, m, d)" by (metis prod_cases3)
  show ?thesis
    using date_of_day_valid [OF ymd] days_in_month_bounds by (simp add: length_of_month_def ymd)
qed

lemma day_nanos_pos [simp]: "0 < day_nanos"
  by (simp add: day_nanos_def)

end
