(* ===== verification/PaymentMandate.thy ===== *)
theory PaymentMandate
  imports FundSegregation GoCalendar
begin

text \<open>
  Auto-payment mandates, services/ledger/internal/paymentmandate/paymentMandate.go: a standing
  instruction is registered, paused, resumed and cancelled, and a sweep debits every active
  mandate that is due through the segregation guard. \<open>SweepDueMandates\<close> collects the due mandates
  under the mutex and releases it; each debit is posted outside it and recorded under it again
  (\<open>sweep_one\<close>). \<open>sweep_due_mandates\<close> is the sweep run on its own.

  A debit date is a \<open>time.Time\<close> in a zone of fixed offset (what \<open>time.Parse\<close> of an RFC 3339 date
  gives), in nanoseconds east of UTC.
\<close>

section \<open>State and operations\<close>

datatype mandate_status = MandateActive | MandatePaused | MandateCancelled | MandateSuspended

record payment_mandate =
  mandate_id :: string
  mandate_account :: string
  mandate_amount :: int64
  mandate_frequency :: string
  next_debit_date :: instant
  debit_zone_offset :: int
  registered_at :: instant
  mandate_status :: mandate_status
  successful_sweep_count :: int64
  consecutive_failure_count :: int64
  last_failure_reason :: "segregation_error option"

datatype mandate_error =
    MissingMandateAccountIdentifier
  | InvalidMandateAmount
  | InvalidMandateFrequency
  | MandateIdGenerationFailed
  | MandateNotFound
  | MandateNotActive
  | MandateNotPausable
  | MandateAlreadyCancelled
  | MandateNotResumable

record swept_mandate =
  swept_mandate_id :: string
  swept_was_posted :: bool
  swept_error :: "segregation_error option"
  swept_failure_count :: int64
  swept_was_suspended :: bool

type_synonym mandate_registry = "payment_mandate table"

definition mandate_frequency_valid :: "string \<Rightarrow> bool" where
  "mandate_frequency_valid f = (f = ''DAILY'' \<or> f = ''WEEKLY'' \<or> f = ''MONTHLY'')"

definition advance_debit_date :: "string \<Rightarrow> int \<Rightarrow> instant \<Rightarrow> instant" where
  "advance_debit_date f offset t =
    (if f = ''DAILY'' then add_date offset 0 0 1 t
     else if f = ''WEEKLY'' then add_date offset 0 0 7 t
     else if f = ''MONTHLY'' then add_date offset 0 1 0 t
     else t)"

definition max_consecutive_failures :: int64 where
  "max_consecutive_failures = 3"

definition register_mandate ::
    "string \<Rightarrow> int64 \<Rightarrow> string \<Rightarrow> instant \<Rightarrow> int \<Rightarrow> instant \<Rightarrow> string option \<Rightarrow> mandate_registry \<Rightarrow>
      mandate_error + payment_mandate \<times> mandate_registry" where
  "register_mandate a amount f next_date offset now new_id ms =
    (if a = '''' then Inl MissingMandateAccountIdentifier
     else if amount \<le>s 0 then Inl InvalidMandateAmount
     else if \<not> mandate_frequency_valid f then Inl InvalidMandateFrequency
     else case new_id of None \<Rightarrow> Inl MandateIdGenerationFailed
     | Some mid \<Rightarrow>
         let m = \<lparr>mandate_id = mid, mandate_account = a, mandate_amount = amount,
                  mandate_frequency = f, next_debit_date = next_date, debit_zone_offset = offset,
                  registered_at = now, mandate_status = MandateActive, successful_sweep_count = 0,
                  consecutive_failure_count = 0, last_failure_reason = None\<rparr>
         in Inr (m, put mid m ms))"

definition set_mandate_status :: "string \<Rightarrow> payment_mandate \<Rightarrow> mandate_status \<Rightarrow> mandate_registry \<Rightarrow>
    payment_mandate \<times> mandate_registry" where
  "set_mandate_status mid m st ms = (m\<lparr>mandate_status := st\<rparr>, put mid (m\<lparr>mandate_status := st\<rparr>) ms)"

definition pause_mandate :: "string \<Rightarrow> mandate_registry \<Rightarrow> mandate_error + payment_mandate \<times> mandate_registry" where
  "pause_mandate mid ms = (case lookup ms mid of
     None \<Rightarrow> Inl MandateNotFound
   | Some m \<Rightarrow>
       if mandate_status m = MandateCancelled then Inl MandateNotPausable
       else if mandate_status m \<noteq> MandateActive then Inl MandateNotActive
       else Inr (set_mandate_status mid m MandatePaused ms))"

definition resume_mandate :: "string \<Rightarrow> mandate_registry \<Rightarrow> mandate_error + payment_mandate \<times> mandate_registry" where
  "resume_mandate mid ms = (case lookup ms mid of
     None \<Rightarrow> Inl MandateNotFound
   | Some m \<Rightarrow>
       if mandate_status m \<noteq> MandatePaused then Inl MandateNotResumable
       else Inr (set_mandate_status mid m MandateActive ms))"

definition cancel_mandate :: "string \<Rightarrow> mandate_registry \<Rightarrow> mandate_error + payment_mandate \<times> mandate_registry" where
  "cancel_mandate mid ms = (case lookup ms mid of
     None \<Rightarrow> Inl MandateNotFound
   | Some m \<Rightarrow>
       if mandate_status m = MandateCancelled then Inl MandateAlreadyCancelled
       else Inr (set_mandate_status mid m MandateCancelled ms))"

definition due_mandates :: "instant \<Rightarrow> mandate_registry \<Rightarrow> payment_mandate list" where
  "due_mandates now ms = sort_key mandate_id
    (filter (\<lambda>m. mandate_status m = MandateActive \<and> \<not> time_before now (next_debit_date m))
      (map snd ms))"

definition mandate_description :: "string \<Rightarrow> string" where
  "mandate_description mid = ''simulated SIP mandate debit, mandateId='' @ mid"

definition post_mandate_debit ::
    "segregation_guard \<Rightarrow> payment_mandate \<Rightarrow> ledger_book \<Rightarrow> segregation_error + ledger_book" where
  "post_mandate_debit g m b = post_client_money_movement g (mandate_account m) (- mandate_amount m)
     (mandate_description (mandate_id m)) b"

definition record_success :: "payment_mandate \<Rightarrow> payment_mandate" where
  "record_success m = m\<lparr>
     successful_sweep_count := successful_sweep_count m + 1,
     consecutive_failure_count := 0,
     last_failure_reason := None,
     next_debit_date :=
       advance_debit_date (mandate_frequency m) (debit_zone_offset m) (next_debit_date m)\<rparr>"

definition record_failure :: "segregation_error \<Rightarrow> payment_mandate \<Rightarrow> payment_mandate" where
  "record_failure err m = (let count = consecutive_failure_count m + 1 in m\<lparr>
     consecutive_failure_count := count,
     last_failure_reason := Some err,
     mandate_status := (if max_consecutive_failures \<le>s count then MandateSuspended
       else mandate_status m)\<rparr>)"

definition update_mandate ::
    "string \<Rightarrow> (payment_mandate \<Rightarrow> payment_mandate) \<Rightarrow> mandate_registry \<Rightarrow> mandate_registry" where
  "update_mandate mid f ms = (case lookup ms mid of None \<Rightarrow> ms | Some m \<Rightarrow> put mid (f m) ms)"

definition failure_count_of :: "string \<Rightarrow> mandate_registry \<Rightarrow> int64" where
  "failure_count_of mid ms = (case lookup ms mid of None \<Rightarrow> 0 | Some m \<Rightarrow> consecutive_failure_count m)"

definition sweep_one ::
    "segregation_guard \<Rightarrow> payment_mandate \<Rightarrow> mandate_registry \<Rightarrow> ledger_book \<Rightarrow>
      mandate_registry \<times> ledger_book \<times> swept_mandate" where
  "sweep_one g m ms b = (case post_mandate_debit g m b of
     Inr b' \<Rightarrow> (update_mandate (mandate_id m) record_success ms, b',
       \<lparr>swept_mandate_id = mandate_id m, swept_was_posted = True, swept_error = None,
        swept_failure_count = 0, swept_was_suspended = False\<rparr>)
   | Inl err \<Rightarrow>
       let ms' = update_mandate (mandate_id m) (record_failure err) ms;
           count = failure_count_of (mandate_id m) ms'
       in (ms', b,
         \<lparr>swept_mandate_id = mandate_id m, swept_was_posted = False, swept_error = Some err,
          swept_failure_count = count, swept_was_suspended = (max_consecutive_failures \<le>s count)\<rparr>))"

fun sweep_mandates ::
    "segregation_guard \<Rightarrow> payment_mandate list \<Rightarrow> mandate_registry \<Rightarrow> ledger_book \<Rightarrow>
      mandate_registry \<times> ledger_book \<times> swept_mandate list" where
  "sweep_mandates g [] ms b = (ms, b, [])"
| "sweep_mandates g (m # due) ms b =
    (case sweep_one g m ms b of (ms1, b1, r) \<Rightarrow>
     case sweep_mandates g due ms1 b1 of (ms2, b2, rs) \<Rightarrow> (ms2, b2, r # rs))"

definition sweep_due_mandates ::
    "segregation_guard \<Rightarrow> instant \<Rightarrow> mandate_registry \<Rightarrow> ledger_book \<Rightarrow>
      mandate_registry \<times> ledger_book \<times> swept_mandate list" where
  "sweep_due_mandates g now ms b = sweep_mandates g (due_mandates now ms) ms b"

definition mandates_for_account :: "string \<Rightarrow> mandate_registry \<Rightarrow> payment_mandate list" where
  "mandates_for_account a ms =
    sort_key registered_at (filter (\<lambda>m. mandate_account m = a) (map snd ms))"

definition lookup_mandate :: "string \<Rightarrow> mandate_registry \<Rightarrow> payment_mandate option" where
  "lookup_mandate mid ms = lookup ms mid"

lemma lookup_update_mandate [simp]:
  "lookup (update_mandate mid f ms) k =
    (if k = mid then map_option f (lookup ms mid) else lookup ms k)"
  by (simp add: update_mandate_def split: option.splits)

section \<open>Well-formed registries\<close>

text \<open>
  Every mandate has a positive amount and a valid frequency, and its failure count says where it
  stands: below three unless it was suspended, exactly three when it is.
\<close>

definition mandate_ok :: "payment_mandate \<Rightarrow> bool" where
  "mandate_ok m \<longleftrightarrow> 0 <s mandate_amount m \<and> mandate_frequency_valid (mandate_frequency m) \<and>
    consecutive_failure_count m \<in> {0, 1, 2, 3} \<and>
    (mandate_status m \<in> {MandateActive, MandatePaused} \<longrightarrow> consecutive_failure_count m \<noteq> 3) \<and>
    (mandate_status m = MandateSuspended \<longrightarrow> consecutive_failure_count m = 3)"

definition registry_ok :: "mandate_registry \<Rightarrow> bool" where
  "registry_ok ms \<longleftrightarrow> indexed_by mandate_id ms \<and> (\<forall>k m. lookup ms k = Some m \<longrightarrow> mandate_ok m)"

lemma registry_ok_key: "registry_ok ms \<Longrightarrow> lookup ms k = Some m \<Longrightarrow> mandate_id m = k"
  by (auto simp: registry_ok_def intro: indexed_by_key)

lemma registry_ok_mandate: "registry_ok ms \<Longrightarrow> lookup ms k = Some m \<Longrightarrow> mandate_ok m"
  by (simp add: registry_ok_def)

lemma registry_ok_put:
  "registry_ok ms \<Longrightarrow> mandate_id m = k \<Longrightarrow> mandate_ok m \<Longrightarrow> registry_ok (put k m ms)"
  by (simp add: registry_ok_def)

lemma mandate_id_record [simp]:
  "mandate_id (record_success m) = mandate_id m" "mandate_id (record_failure err m) = mandate_id m"
  by (simp_all add: record_success_def record_failure_def Let_def)

lemma mandate_ok_success: "mandate_ok m \<Longrightarrow> mandate_status m = MandateActive \<Longrightarrow> mandate_ok (record_success m)"
  by (simp add: mandate_ok_def record_success_def)

lemma mandate_ok_failure:
  "mandate_ok m \<Longrightarrow> mandate_status m = MandateActive \<Longrightarrow> mandate_ok (record_failure err m)"
  by (auto simp: mandate_ok_def record_failure_def Let_def max_consecutive_failures_def word_sle_eq)

lemma registry_ok_update:
  assumes "registry_ok ms" and "\<And>m. mandate_id (f m) = mandate_id m"
    and "\<And>m. lookup ms mid = Some m \<Longrightarrow> mandate_ok (f m)"
  shows "registry_ok (update_mandate mid f ms)"
  using assms registry_ok_key [OF assms(1)]
  by (auto simp: update_mandate_def intro!: registry_ok_put split: option.splits)

lemma registry_ok_empty: "registry_ok []"
  by (simp add: registry_ok_def)

lemma registry_ok_register:
  assumes "registry_ok ms" and "register_mandate a amount f nd off now new_id ms = Inr (m, ms')"
  shows "registry_ok ms'"
  using assms
  by (auto simp: register_mandate_def Let_def mandate_ok_def word_sless_alt word_sle_eq
    intro!: registry_ok_put split: if_splits option.splits)

lemma registry_ok_set_status:
  assumes "registry_ok ms" and "lookup ms mid = Some m" and "set_mandate_status mid m st ms = (m', ms')"
    and "consecutive_failure_count m \<noteq> 3 \<or> st = MandateCancelled" and "st \<noteq> MandateSuspended"
  shows "registry_ok ms'"
  using assms registry_ok_key [OF assms(1,2)] registry_ok_mandate [OF assms(1,2)]
  by (auto simp: set_mandate_status_def mandate_ok_def intro!: registry_ok_put)

section \<open>The sweep\<close>

text \<open>
  Whether a debit posts depends on the guard and on which accounts the ledger has, and posting
  opens and closes none: what a sweep does to each mandate is decided at its start.
\<close>

definition debitable :: "segregation_guard \<Rightarrow> ledger_book \<Rightarrow> payment_mandate \<Rightarrow> bool" where
  "debitable g b m \<longleftrightarrow> is_client g (mandate_account m) \<and> mandate_amount m \<le>s max_movement_amount \<and>
    {mandate_account m, custody_pool_account g, external_cash_suspense_account g} \<subseteq>
      dom (lookup (account_balances b))"

lemma debit_absolute:
  fixes a :: int64
  assumes "0 <s a"
  shows "- a <s 0" and "- a \<noteq> 0"
proof -
  have "a \<noteq> min_int64"
    using assms by (auto simp: word_sless_alt sint_min_int64)
  then have "sint (- a) = - sint a"
    by (rule sint_uminus64)
  with assms show "- a <s 0"
    by (simp add: word_sless_alt)
  show "- a \<noteq> 0"
    using assms by (auto simp: word_sless_alt)
qed

lemma movement_accounts:
  "entry_accounts (client_movement_entry g client amount description) =
    {client, custody_pool_account g, external_cash_suspense_account g}"
  by (auto simp: entry_accounts_def client_movement_entry_def Let_def)

lemma post_mandate_debit_isl:
  assumes "0 <s mandate_amount m"
  shows "isl (post_mandate_debit g m b) \<longleftrightarrow> \<not> debitable g b m"
proof -
  have "\<not> isl (post_mandate_debit g m b) \<longleftrightarrow> (\<exists>b'. post_mandate_debit g m b = Inr b')"
    by (cases "post_mandate_debit g m b") auto
  also have "\<dots> \<longleftrightarrow> debitable g b m"
    using debit_absolute [OF assms]
    by (auto simp: post_mandate_debit_def post_client_money_movement_Inr post_journal_entry_Inr
      client_movement_balanced movement_accounts debitable_def word_sless_alt word_sle_eq domIff)
  finally show ?thesis by blast
qed

lemma debitable_after_debit:
  assumes "post_mandate_debit g m b = Inr b'"
  shows "debitable g b' = debitable g b"
proof -
  have posted: "post_journal_entry (client_movement_entry g (mandate_account m) (- mandate_amount m)
      (mandate_description (mandate_id m))) b = Inr b'"
    using assms by (simp add: post_mandate_debit_def post_client_money_movement_Inr)
  have "lookup (account_balances b') a = None \<longleftrightarrow> lookup (account_balances b) a = None" for a
    using book.post_isl [OF posted, of a] by (simp add: current_balance_isl)
  then have "dom (lookup (account_balances b')) = dom (lookup (account_balances b))"
    unfolding dom_def by simp
  then show ?thesis
    by (simp add: debitable_def fun_eq_iff)
qed

text \<open>What one sweep leaves of a due mandate: the record of its success or of its failure.\<close>

definition swept_to :: "segregation_guard \<Rightarrow> ledger_book \<Rightarrow> payment_mandate \<Rightarrow> payment_mandate \<Rightarrow> bool" where
  "swept_to g b m m' \<longleftrightarrow>
    (if debitable g b m then m' = record_success m else \<exists>err. m' = record_failure err m)"

lemma sweep_one_outcome:
  assumes "sweep_one g m ms b = (ms', b', r)" and "0 <s mandate_amount m"
  shows "swept_mandate_id r = mandate_id m" and "swept_was_posted r = debitable g b m"
    and "debitable g b' = debitable g b"
    and "if debitable g b m then ms' = update_mandate (mandate_id m) record_success ms
         else \<exists>err. ms' = update_mandate (mandate_id m) (record_failure err) ms"
proof -
  note iff = post_mandate_debit_isl [OF assms(2), of g b]
  show "swept_mandate_id r = mandate_id m" and "swept_was_posted r = debitable g b m"
    and "debitable g b' = debitable g b"
    and "if debitable g b m then ms' = update_mandate (mandate_id m) record_success ms
         else \<exists>err. ms' = update_mandate (mandate_id m) (record_failure err) ms"
    using assms(1) iff debitable_after_debit
    by (auto simp: sweep_one_def Let_def split: sum.splits)
qed

lemma registry_ok_sweep_one:
  assumes "registry_ok ms" and "lookup ms (mandate_id m) = Some m" and "mandate_status m = MandateActive"
    and "sweep_one g m ms b = (ms', b', r)"
  shows "registry_ok ms'"
proof -
  have ok: "mandate_ok m" by (rule registry_ok_mandate [OF assms(1,2)])
  then have "0 <s mandate_amount m" by (simp add: mandate_ok_def)
  from sweep_one_outcome(4) [OF assms(4) this] show ?thesis
    using assms(1-3) ok
    by (auto intro!: registry_ok_update mandate_ok_success mandate_ok_failure split: if_splits)
qed

definition active_in :: "mandate_registry \<Rightarrow> payment_mandate list \<Rightarrow> bool" where
  "active_in ms due \<longleftrightarrow> distinct (map mandate_id due) \<and>
    (\<forall>m \<in> set due. lookup ms (mandate_id m) = Some m \<and> mandate_status m = MandateActive)"

lemma due_mandates_mem:
  assumes "registry_ok ms"
  shows "m \<in> set (due_mandates now ms) \<longleftrightarrow>
    lookup ms (mandate_id m) = Some m \<and> mandate_status m = MandateActive \<and> next_debit_date m \<le> now"
  unfolding due_mandates_def mem_indexed_values [OF assms [unfolded registry_ok_def, THEN conjunct1]]
  by (auto simp: time_before_def)

lemma active_in_due: "registry_ok ms \<Longrightarrow> active_in ms (due_mandates now ms)"
  using due_mandates_mem [of ms _ now] distinct_indexed_values [of mandate_id ms]
  unfolding active_in_def due_mandates_def by (simp add: registry_ok_def)

lemma active_in_after:
  assumes "active_in ms (m # due)" and "lookup ms' = (lookup ms)(mandate_id m := x)"
  shows "active_in ms' due"
proof -
  have "mandate_id n \<noteq> mandate_id m" if "n \<in> set due" for n
    using assms(1) that unfolding active_in_def
    by (metis distinct.simps(2) image_eqI list.set_map list.simps(9))
  with assms(1) show ?thesis
    unfolding active_in_def assms(2) by simp
qed

lemma sweep_mandates_outcome:
  "active_in ms due \<Longrightarrow> registry_ok ms \<Longrightarrow> sweep_mandates g due ms b = (ms', b', rs) \<Longrightarrow>
    registry_ok ms' \<and> map swept_mandate_id rs = map mandate_id due \<and>
    map swept_was_posted rs = map (debitable g b) due \<and>
    (\<forall>k. if k \<in> mandate_id ` set due
         then \<exists>m m'. lookup ms k = Some m \<and> lookup ms' k = Some m' \<and> swept_to g b m m'
         else lookup ms' k = lookup ms k)"
proof (induction due arbitrary: ms b ms' b' rs)
  case Nil
  then show ?case by simp
next
  case (Cons m due)
  obtain ms1 b1 r where one: "sweep_one g m ms b = (ms1, b1, r)" by (metis prod_cases3)
  obtain rs' where rest: "sweep_mandates g due ms1 b1 = (ms', b', rs')" "rs = r # rs'"
    using Cons.prems(3) one by (auto split: prod.splits)
  have m: "lookup ms (mandate_id m) = Some m" "mandate_status m = MandateActive"
    "mandate_id m \<notin> mandate_id ` set due"
    using Cons.prems(1) by (auto simp: active_in_def)
  have "0 <s mandate_amount m"
    using registry_ok_mandate [OF Cons.prems(2) m(1)] by (simp add: mandate_ok_def)
  note out = sweep_one_outcome [OF one this]
  obtain m1 where m1: "lookup ms1 = (lookup ms)(mandate_id m \<mapsto> m1)" "swept_to g b m m1"
  proof (cases "debitable g b m")
    case True
    with out(4) m(1) show thesis
      by (intro that [of "record_success m"]) (simp_all add: fun_eq_iff swept_to_def)
  next
    case False
    with out(4) obtain err where "ms1 = update_mandate (mandate_id m) (record_failure err) ms" by auto
    with False m(1) show thesis
      by (intro that [of "record_failure err m"]) (auto simp: fun_eq_iff swept_to_def)
  qed
  have ok: "registry_ok ms1"
    by (rule registry_ok_sweep_one [OF Cons.prems(2) m(1,2) one])
  have IH: "registry_ok ms' \<and> map swept_mandate_id rs' = map mandate_id due \<and>
      map swept_was_posted rs' = map (debitable g b1) due \<and>
      (\<forall>k. if k \<in> mandate_id ` set due
           then \<exists>m m'. lookup ms1 k = Some m \<and> lookup ms' k = Some m' \<and> swept_to g b1 m m'
           else lookup ms' k = lookup ms1 k)"
    by (rule Cons.IH [OF active_in_after [OF Cons.prems(1) m1(1)] ok rest(1)])
  have same: "swept_to g b1 = swept_to g b"
    by (simp add: swept_to_def out(3) fun_eq_iff)
  have lookups: "if k \<in> mandate_id ` set (m # due)
      then \<exists>m m'. lookup ms k = Some m \<and> lookup ms' k = Some m' \<and> swept_to g b m m'
      else lookup ms' k = lookup ms k" for k
  proof (cases "k = mandate_id m")
    case True
    with IH m m1 show ?thesis by auto
  next
    case False
    then have "lookup ms1 k = lookup ms k" "k \<in> mandate_id ` set (m # due) \<longleftrightarrow> k \<in> mandate_id ` set due"
      using m1(1) by auto
    with IH show ?thesis unfolding same by metis
  qed
  have "map swept_mandate_id rs = map mandate_id (m # due)"
    "map swept_was_posted rs = map (debitable g b) (m # due)"
    using IH out(1-3) rest(2) by simp_all
  with IH lookups show ?case by blast
qed

text \<open>The money a sweep moves: each posted debit takes its amount from the mandate's account.\<close>

definition swept_from :: "segregation_guard \<Rightarrow> ledger_book \<Rightarrow> string \<Rightarrow> payment_mandate list \<Rightarrow> int64" where
  "swept_from g b a due = (\<Sum>m\<leftarrow>due. if mandate_account m = a \<and> debitable g b m then mandate_amount m else 0)"

lemma sweep_one_balance:
  assumes "guard_ok g" and "0 <s mandate_amount m" and "is_client g a"
    and "sweep_one g m ms b = (ms', b', r)"
  shows "lookup (account_balances b') a =
      map_option (\<lambda>v. v - swept_from g b a [m]) (lookup (account_balances b) a)"
    and "discrepancy g b' = discrepancy g b"
proof -
  have names: "a \<noteq> custody_pool_account g" "a \<noteq> external_cash_suspense_account g"
    using assms(1,3) by (auto simp: guard_ok_def)
  note iff = post_mandate_debit_isl [OF assms(2), of g b]
  have "lookup (account_balances b') a =
      map_option (\<lambda>v. v - swept_from g b a [m]) (lookup (account_balances b) a) \<and>
    discrepancy g b' = discrepancy g b"
  proof (cases "post_mandate_debit g m b")
    case (Inl err)
    with iff assms(4) show ?thesis
      by (simp add: sweep_one_def Let_def swept_from_def option.map_ident)
  next
    case (Inr b1)
    with assms(4) have b1: "b' = b1" by (simp add: sweep_one_def)
    note post = Inr [unfolded post_mandate_debit_def]
    from iff Inr have "debitable g b m" by simp
    then show ?thesis
      unfolding b1 client_movement_balances [OF assms(1) post] discrepancy_movement [OF assms(1) post]
      using names by (cases "lookup (account_balances b) a") (auto simp: swept_from_def)
  qed
  then show "lookup (account_balances b') a =
      map_option (\<lambda>v. v - swept_from g b a [m]) (lookup (account_balances b) a)"
    and "discrepancy g b' = discrepancy g b" by blast+
qed

lemma sweep_mandates_balance:
  assumes "guard_ok g" and "is_client g a"
  shows "(\<forall>m \<in> set due. 0 <s mandate_amount m) \<Longrightarrow> sweep_mandates g due ms b = (ms', b', rs) \<Longrightarrow>
    lookup (account_balances b') a =
      map_option (\<lambda>v. v - swept_from g b a due) (lookup (account_balances b) a) \<and>
    discrepancy g b' = discrepancy g b"
proof (induction due arbitrary: ms b ms' b' rs)
  case Nil
  then show ?case by (simp add: swept_from_def option.map_ident)
next
  case (Cons m due)
  obtain ms1 b1 r where one: "sweep_one g m ms b = (ms1, b1, r)" by (metis prod_cases3)
  obtain rs' where rest: "sweep_mandates g due ms1 b1 = (ms', b', rs')"
    using Cons.prems(2) one by (auto split: prod.splits)
  have pos: "0 <s mandate_amount m" "\<forall>m \<in> set due. 0 <s mandate_amount m"
    using Cons.prems(1) by simp_all
  have "swept_from g b1 a due = swept_from g b a due"
    by (simp add: swept_from_def sweep_one_outcome(3) [OF one pos(1)])
  with Cons.IH [OF pos(2) rest] sweep_one_balance [OF assms(1) pos(1) assms(2) one] show ?case
    by (simp add: option.map_comp comp_def swept_from_def algebra_simps)
qed

section \<open>Properties\<close>

text \<open>
  A sweep handles every due mandate once, in the order of identifiers, and no other. A debit
  that posts clears the failures, counts the success and moves the debit date on; one that fails
  keeps the date, counts the failure and suspends the mandate when it is the third in a row;
  every mandate that is not active or not yet due keeps its record.
\<close>

theorem sweep_due_outcome:
  assumes "registry_ok ms" and "sweep_due_mandates g now ms b = (ms', b', rs)"
  shows "map swept_mandate_id rs = map mandate_id (due_mandates now ms)
    \<and> map swept_was_posted rs = map (debitable g b) (due_mandates now ms)
    \<and> (case lookup_mandate mid ms of
         None \<Rightarrow> lookup_mandate mid ms' = None
       | Some m \<Rightarrow>
           if mandate_status m \<noteq> MandateActive \<or> now < next_debit_date m
           then lookup_mandate mid ms' = Some m
           else if debitable g b m
           then lookup_mandate mid ms' = Some (m\<lparr>successful_sweep_count := successful_sweep_count m + 1,
             consecutive_failure_count := 0, last_failure_reason := None, next_debit_date :=
               advance_debit_date (mandate_frequency m) (debit_zone_offset m) (next_debit_date m)\<rparr>)
           else \<exists>err. lookup_mandate mid ms' = Some (m\<lparr>
             consecutive_failure_count := consecutive_failure_count m + 1, last_failure_reason := Some err,
             mandate_status := (if consecutive_failure_count m = 2 then MandateSuspended
               else MandateActive)\<rparr>))"
proof -
  note out = sweep_mandates_outcome [OF active_in_due [OF assms(1)] assms(1)
      assms(2) [unfolded sweep_due_mandates_def]]
  have key: "mid \<in> mandate_id ` set (due_mandates now ms) \<longleftrightarrow>
      (\<exists>m. lookup ms mid = Some m \<and> mandate_status m = MandateActive \<and> next_debit_date m \<le> now)"
    using registry_ok_key [OF assms(1)] by (force simp: due_mandates_mem [OF assms(1)] image_iff)
  have at_mid: "if \<exists>m. lookup ms mid = Some m \<and> mandate_status m = MandateActive \<and> next_debit_date m \<le> now
      then \<exists>m m'. lookup ms mid = Some m \<and> lookup ms' mid = Some m' \<and> swept_to g b m m'
      else lookup ms' mid = lookup ms mid"
    using out unfolding key [symmetric] by blast
  show ?thesis
  proof (cases "lookup ms mid")
    case None
    then show ?thesis using out at_mid by (simp add: lookup_mandate_def)
  next
    case (Some m)
    have "consecutive_failure_count m \<in> {0, 1, 2}" if "mandate_status m = MandateActive"
      using registry_ok_mandate [OF assms(1) Some] that by (auto simp: mandate_ok_def)
    then have "record_failure err m = m\<lparr>consecutive_failure_count := consecutive_failure_count m + 1,
        last_failure_reason := Some err, mandate_status := (if consecutive_failure_count m = 2
          then MandateSuspended else MandateActive)\<rparr>" if "mandate_status m = MandateActive" for err
      using that by (auto simp: record_failure_def Let_def max_consecutive_failures_def word_sle_eq)
    with Some out at_mid show ?thesis
      by (auto simp: lookup_mandate_def swept_to_def record_success_def)
  qed
qed

definition demo_mandate :: "string \<Rightarrow> string \<Rightarrow> int64 \<Rightarrow> payment_mandate" where
  "demo_mandate mid a failures = \<lparr>mandate_id = mid, mandate_account = a, mandate_amount = 100,
     mandate_frequency = ''DAILY'', next_debit_date = 10, debit_zone_offset = 0, registered_at = 0,
     mandate_status = MandateActive, successful_sweep_count = 0, consecutive_failure_count = failures,
     last_failure_reason = None\<rparr>"

definition demo_registry :: mandate_registry where
  "demo_registry = [(''m2'', demo_mandate ''m2'' ''ghost'' 2), (''m1'', demo_mandate ''m1'' ''acct-001'' 0)]"

lemma demo_registry_ok: "registry_ok demo_registry"
  by (auto simp: registry_ok_def demo_registry_def demo_mandate_def indexed_by_def table_ok_def
    mandate_ok_def mandate_frequency_valid_def word_sless_alt split: if_splits)

lemma demo_due: "due_mandates 15 demo_registry =
    [demo_mandate ''m1'' ''acct-001'' 0, demo_mandate ''m2'' ''ghost'' 2]"
  by (simp add: due_mandates_def demo_registry_def demo_mandate_def time_before_def)

lemma demo_debitable:
  "debitable demo_guard demo_funded (demo_mandate ''m1'' ''acct-001'' 0)"
  "\<not> debitable demo_guard demo_funded (demo_mandate ''m2'' ''ghost'' 2)"
  by (simp_all add: debitable_def demo_mandate_def demo_guard_def demo_funded_def is_client_new_guard
    max_movement_amount_def word_sle_eq) (simp add: new_segregation_guard_def domIff)

lemma sweep_due_outcome_witness:
  "\<exists>ms' b' rs. sweep_due_mandates demo_guard 15 demo_registry demo_funded = (ms', b', rs) \<and>
    map swept_was_posted rs = [True, False] \<and>
    map_option mandate_status (lookup_mandate ''m2'' ms') = Some MandateSuspended \<and>
    map_option next_debit_date (lookup_mandate ''m1'' ms') = Some (10 + day_nanos)"
proof -
  obtain ms' b' rs where s: "sweep_due_mandates demo_guard 15 demo_registry demo_funded = (ms', b', rs)"
    by (metis prod_cases3)
  note out = sweep_due_outcome [OF demo_registry_ok s]
  have m: "lookup_mandate ''m1'' demo_registry = Some (demo_mandate ''m1'' ''acct-001'' 0)"
    "lookup_mandate ''m2'' demo_registry = Some (demo_mandate ''m2'' ''ghost'' 2)"
    by (simp_all add: lookup_mandate_def demo_registry_def)
  have "map swept_was_posted rs = [True, False]"
    using out by (simp add: demo_due demo_debitable)
  moreover have "map_option next_debit_date (lookup_mandate ''m1'' ms') = Some (10 + day_nanos)"
    using out [of "''m1''"] m(1) demo_debitable(1)
    by (simp add: demo_mandate_def advance_debit_date_def add_date_days)
  moreover have "map_option mandate_status (lookup_mandate ''m2'' ms') = Some MandateSuspended"
    using out [of "''m2''"] m(2) demo_debitable(2) by (auto simp: demo_mandate_def)
  ultimately show ?thesis by (intro exI conjI) (rule s)
qed

text \<open>
  A sweep takes from each client exactly the amounts of its debits that posted, and the client
  money stays segregated: the custody pool still matches the clients' total as it did before.
\<close>

theorem sweep_debits_exactly:
  assumes "guard_ok g" and "registry_ok ms" and "is_client g a"
    and "sweep_due_mandates g now ms b = (ms', b', rs)"
  shows "lookup (account_balances b') a =
      map_option (\<lambda>v. v - (\<Sum>m\<leftarrow>due_mandates now ms.
          if mandate_account m = a \<and> debitable g b m then mandate_amount m else 0))
        (lookup (account_balances b) a)
    \<and> discrepancy g b' = discrepancy g b"
proof -
  have "0 <s mandate_amount m" if "m \<in> set (due_mandates now ms)" for m
    using that assms(2) due_mandates_mem [OF assms(2)] registry_ok_mandate [OF assms(2)]
    by (auto simp: mandate_ok_def)
  then show ?thesis
    using sweep_mandates_balance [OF assms(1,3) _ assms(4) [unfolded sweep_due_mandates_def]]
    by (simp add: swept_from_def)
qed

lemma sweep_debits_exactly_witness:
  "\<exists>ms' b' rs. sweep_due_mandates demo_guard 15 demo_registry demo_funded = (ms', b', rs) \<and>
    current_balance b' ''acct-001'' = Inr 600"
proof -
  obtain ms' b' rs where s: "sweep_due_mandates demo_guard 15 demo_registry demo_funded = (ms', b', rs)"
    by (metis prod_cases3)
  have client: "is_client demo_guard ''acct-001''"
    by (simp add: demo_guard_def is_client_new_guard)
  have "lookup (account_balances b') ''acct-001'' = Some 600"
    using sweep_debits_exactly [OF demo_guard_ok demo_registry_ok client s] demo_debitable
    by (simp add: demo_due) (simp add: demo_mandate_def demo_funded_def)
  with s show ?thesis by (simp add: current_balance_def)
qed

text \<open>
  A posted debit always moves the debit date forward: by one day, by seven days, or by the
  length of the calendar month the date is in, 28 to 31 days, at the same time of day. A debit
  on 31 January is therefore followed by one on 3 March (2 March in a leap year): the month of
  February is skipped and the later debits stay on that day of the month.
\<close>

theorem advance_debit_date_exact:
  "advance_debit_date ''DAILY'' offset t = t + day_nanos
   \<and> advance_debit_date ''WEEKLY'' offset t = t + 7 * day_nanos
   \<and> advance_debit_date ''MONTHLY'' offset t = t + length_of_month offset t * day_nanos
   \<and> 28 \<le> length_of_month offset t \<and> length_of_month offset t \<le> 31
   \<and> (let jan31 = (day_of_date 2025 1 31 - unix_epoch_day) * day_nanos
      in date_of_day (civil_day 0 (advance_debit_date ''MONTHLY'' 0 jan31)) = (2025, 3, 3))"
proof -
  have "date_of_day (civil_day 0 (advance_debit_date ''MONTHLY'' 0
      ((day_of_date 2025 1 31 - unix_epoch_day) * day_nanos))) = (2025, 3, 3)"
    by code_simp
  then show ?thesis
    unfolding Let_def using length_of_month_bounds [of offset t]
    by (simp add: advance_debit_date_def add_date_days add_date_month)
qed

text \<open>
  A cancelled mandate can still be debited. A sweep that has collected a mandate posts its
  debit even when the cancellation is granted in between: the caller is told that the mandate is
  cancelled, and the money leaves the account all the same.
\<close>

theorem cancelled_mandate_can_be_debited:
  "case cancel_mandate ''m1'' demo_registry of
     Inl _ \<Rightarrow> False
   | Inr (c, ms) \<Rightarrow> mandate_status c = MandateCancelled \<and>
       (case sweep_one demo_guard (hd (due_mandates 15 demo_registry)) ms demo_funded of
          (ms', b', r) \<Rightarrow> swept_was_posted r \<and> current_balance b' ''acct-001'' = Inr 600)"
proof -
  have c: "cancel_mandate ''m1'' demo_registry = Inr (demo_mandate ''m1'' ''acct-001'' 0\<lparr>mandate_status :=
        MandateCancelled\<rparr>, [(''m2'', demo_mandate ''m2'' ''ghost'' 2), (''m1'',
        demo_mandate ''m1'' ''acct-001'' 0\<lparr>mandate_status := MandateCancelled\<rparr>)])"
    by (simp add: cancel_mandate_def demo_registry_def demo_mandate_def set_mandate_status_def)
  show ?thesis
    unfolding c demo_due
    by (simp add: sweep_one_def post_mandate_debit_def demo_mandate_def post_client_money_movement_def
      demo_guard_def is_client_def account_kind_of_def demo_funded_def post_journal_entry_def
      current_balance_def client_movement_entry_def new_segregation_guard_def sum_of_debit_lines_def
      sum_of_credit_lines_def lookup_or_def max_movement_amount_def lift_ledger_error_def Let_def
      word_sless_alt)
qed

text \<open>
  Recording a failed debit overwrites a cancellation. When the mandate is cancelled between the
  collection and the third failed debit in a row, the sweep turns it from cancelled to suspended.
\<close>

theorem failed_sweep_overwrites_cancellation:
  "case cancel_mandate ''m2'' demo_registry of
     Inl _ \<Rightarrow> False
   | Inr (c, ms) \<Rightarrow> mandate_status c = MandateCancelled \<and>
       (case sweep_one demo_guard (last (due_mandates 15 demo_registry)) ms demo_funded of
          (ms', b', r) \<Rightarrow> map_option mandate_status (lookup_mandate ''m2'' ms') = Some MandateSuspended)"
proof -
  have c: "cancel_mandate ''m2'' demo_registry = Inr (demo_mandate ''m2'' ''ghost'' 2\<lparr>mandate_status :=
        MandateCancelled\<rparr>, [(''m2'', demo_mandate ''m2'' ''ghost'' 2\<lparr>mandate_status := MandateCancelled\<rparr>),
        (''m1'', demo_mandate ''m1'' ''acct-001'' 0)])"
    by (simp add: cancel_mandate_def demo_registry_def demo_mandate_def set_mandate_status_def)
  show ?thesis
    unfolding c demo_due
    by (simp add: sweep_one_def post_mandate_debit_def demo_mandate_def post_client_money_movement_def
      demo_guard_def is_client_def account_kind_of_def new_segregation_guard_def record_failure_def
      max_consecutive_failures_def Let_def word_sless_alt word_sle_eq lookup_mandate_def)
qed

end
