(* ===== verification/MultiCurrencyWallet.thy ===== *)
theory MultiCurrencyWallet
  imports FundSegregation
begin

text \<open>
  Currency wallets over the ledger,
  services/ledger/internal/multicurrencywallet/multiCurrencyWallet.go: a wallet is a ledger account
  (the native currency's is the account itself), deposits and withdrawals go through the
  segregation guard or are posted directly, a conversion posts one entry with a clearing leg.

  The rate table holds the scaled integer rates that the source computes once from its
  configuration; the rate text of a description (\<open>%.6f\<close> of a float) is the parameter \<open>rate_text\<close>,
  and a conversion reports the scaled rate where the source reports the quotient as a float.
\<close>

section \<open>State and operations\<close>

datatype wallet_error =
    MissingWalletAccountIdentifier
  | MissingCurrencyCode
  | InvalidWalletAmount
  | InsufficientCurrencyWalletBalance
  | UnknownCurrencyPair
  | CannotConvertSameCurrency
  | WalletLedgerError ledger_error
  | WalletSegregationError segregation_error

definition fx_rate_scale :: int64 where
  "fx_rate_scale = 100000000"

type_synonym fx_rate_table = "int64 table"

definition ordered_currency_pair_key :: "string \<Rightarrow> string \<Rightarrow> string" where
  "ordered_currency_pair_key c d = c @ ''/'' @ d"

definition scaled_rate :: "fx_rate_table \<Rightarrow> string \<Rightarrow> string \<Rightarrow> int64 option" where
  "scaled_rate rates c d = lookup rates (ordered_currency_pair_key c d)"

definition convert_minor_units_round_half_up :: "int64 \<Rightarrow> int64 \<Rightarrow> int64 \<Rightarrow> int64" where
  "convert_minor_units_round_half_up amount rate scale =
    word_of_int ((sint amount * sint rate + sint scale div 2) div sint scale)"

record currency_wallet_balance =
  wallet_currency :: string
  wallet_balance :: int64

record currency_conversion_result =
  converted_from_currency :: string
  converted_to_currency :: string
  amount_debited_from_source :: int64
  amount_credited_to_destination :: int64
  scaled_rate_applied :: int64

record wallet_registry =
  wallet_guard :: segregation_guard
  fx_rates :: fx_rate_table
  native_currency :: string
  wallet_custody_pool :: string
  wallet_cash_suspense :: string
  fx_conversion_clearing :: string
  opened_currencies :: "bool table table"

definition new_wallet_registry ::
    "segregation_guard \<Rightarrow> string \<Rightarrow> string \<Rightarrow> string \<Rightarrow> string \<Rightarrow> fx_rate_table \<Rightarrow> ledger_book \<Rightarrow>
      wallet_registry \<times> ledger_book" where
  "new_wallet_registry g pool suspense clearing native rates b =
    (\<lparr>wallet_guard = g, fx_rates = rates, native_currency = native, wallet_custody_pool = pool,
      wallet_cash_suspense = suspense, fx_conversion_clearing = clearing, opened_currencies = []\<rparr>,
     fst (register_account_if_absent clearing (fst (register_account_if_absent suspense b))))"

definition wallet_account :: "wallet_registry \<Rightarrow> string \<Rightarrow> string \<Rightarrow> string" where
  "wallet_account w a c = (if c = native_currency w then a else a @ '':'' @ c)"

definition current_wallet_balance :: "ledger_book \<Rightarrow> string \<Rightarrow> int64" where
  "current_wallet_balance b a = (case current_balance b a of Inl _ \<Rightarrow> 0 | Inr v \<Rightarrow> v)"

definition is_client_account :: "wallet_registry \<Rightarrow> string \<Rightarrow> bool" where
  "is_client_account w a = (account_kind_of (wallet_guard w) a = Some AccountKindClient)"

definition mark_wallet_opened :: "string \<Rightarrow> string \<Rightarrow> wallet_registry \<Rightarrow> wallet_registry" where
  "mark_wallet_opened a c w = w\<lparr>opened_currencies :=
     put a (put c True (lookup_or [] (opened_currencies w) a)) (opened_currencies w)\<rparr>"

definition validate_wallet_mutation_args :: "string \<Rightarrow> string \<Rightarrow> int64 \<Rightarrow> wallet_error option" where
  "validate_wallet_mutation_args a c amount =
    (if a = '''' then Some MissingWalletAccountIdentifier
     else if c = '''' then Some MissingCurrencyCode
     else if amount \<le>s 0 then Some InvalidWalletAmount
     else None)"

definition deposit_wallet_description :: "string \<Rightarrow> string \<Rightarrow> string" where
  "deposit_wallet_description a c =
    ''multi-currency wallet deposit, account='' @ a @ '' currency='' @ c"

definition withdrawal_wallet_description :: "string \<Rightarrow> string \<Rightarrow> string" where
  "withdrawal_wallet_description a c =
    ''multi-currency wallet withdrawal, account='' @ a @ '' currency='' @ c"

definition two_leg_entry :: "string \<Rightarrow> string \<Rightarrow> string \<Rightarrow> int64 \<Rightarrow> journal_entry" where
  "two_leg_entry description debited credited amount = \<lparr>
     entry_description = description,
     debit_lines = [\<lparr>line_account = debited, line_amount = amount\<rparr>],
     credit_lines = [\<lparr>line_account = credited, line_amount = amount\<rparr>]\<rparr>"

definition deposit_into_currency_wallet ::
    "string \<Rightarrow> string \<Rightarrow> int64 \<Rightarrow> wallet_registry \<Rightarrow> ledger_book \<Rightarrow>
      wallet_error option \<times> wallet_registry \<times> ledger_book" where
  "deposit_into_currency_wallet a c amount w b =
    (case validate_wallet_mutation_args a c amount of
       Some err \<Rightarrow> (Some err, w, b)
     | None \<Rightarrow>
         if c = native_currency w \<and> is_client_account w a
         then (case post_client_money_movement (wallet_guard w) a amount
                 (deposit_wallet_description a c) b of
                 Inl err \<Rightarrow> (Some (WalletSegregationError err), w, b)
               | Inr b' \<Rightarrow> (None, mark_wallet_opened a c w, b'))
         else
           let account = wallet_account w a c;
               b1 = fst (register_account_if_absent account b)
           in (case post_journal_entry (two_leg_entry (deposit_wallet_description a c)
                 account (wallet_cash_suspense w) amount) b1 of
                 Inl err \<Rightarrow> (Some (WalletLedgerError err), w, b1)
               | Inr b' \<Rightarrow> (None, mark_wallet_opened a c w, b')))"

definition withdraw_from_currency_wallet ::
    "string \<Rightarrow> string \<Rightarrow> int64 \<Rightarrow> wallet_registry \<Rightarrow> ledger_book \<Rightarrow> wallet_error + ledger_book" where
  "withdraw_from_currency_wallet a c amount w b =
    (case validate_wallet_mutation_args a c amount of
       Some err \<Rightarrow> Inl err
     | None \<Rightarrow>
         let account = wallet_account w a c in
         if current_wallet_balance b account <s amount then Inl InsufficientCurrencyWalletBalance
         else if c = native_currency w \<and> is_client_account w a
         then (case post_client_money_movement (wallet_guard w) a (- amount)
                 (withdrawal_wallet_description a c) b of
                 Inl err \<Rightarrow> Inl (WalletSegregationError err) | Inr b' \<Rightarrow> Inr b')
         else (case post_journal_entry (two_leg_entry (withdrawal_wallet_description a c)
                 (wallet_cash_suspense w) account amount) b of
                 Inl err \<Rightarrow> Inl (WalletLedgerError err) | Inr b' \<Rightarrow> Inr b'))"

definition conversion_description ::
    "(int64 \<Rightarrow> string) \<Rightarrow> string \<Rightarrow> string \<Rightarrow> string \<Rightarrow> int64 \<Rightarrow> string" where
  "conversion_description rate_text a c d rate =
    ''multi-currency wallet conversion, account='' @ a @ '' '' @ c @ ''->'' @ d @ '' rate='' @
    rate_text rate @ '' (STATIC/ILLUSTRATIVE)''"

text \<open>The lines of a conversion: the two wallets, the custody pool's mirror, and the clearing leg.\<close>

definition conversion_debits :: "wallet_registry \<Rightarrow> string \<Rightarrow> string \<Rightarrow> int64 \<Rightarrow> ledger_account_line list" where
  "conversion_debits w a d converted =
    \<lparr>line_account = wallet_account w a d, line_amount = converted\<rparr> #
    (if d = native_currency w \<and> is_client_account w a
     then [\<lparr>line_account = wallet_custody_pool w, line_amount = converted\<rparr>] else [])"

definition conversion_credits :: "wallet_registry \<Rightarrow> string \<Rightarrow> string \<Rightarrow> int64 \<Rightarrow> ledger_account_line list" where
  "conversion_credits w a c amount =
    \<lparr>line_account = wallet_account w a c, line_amount = amount\<rparr> #
    (if c = native_currency w \<and> is_client_account w a
     then [\<lparr>line_account = wallet_custody_pool w, line_amount = amount\<rparr>] else [])"

definition with_clearing_leg :: "string \<Rightarrow> string \<Rightarrow> ledger_account_line list \<Rightarrow>
    ledger_account_line list \<Rightarrow> journal_entry" where
  "with_clearing_leg description clearing debits credits =
    (let difference = sum_lines_from 0 debits - sum_lines_from 0 credits in
     if 0 <s difference
     then \<lparr>entry_description = description, debit_lines = debits,
           credit_lines = credits @ [\<lparr>line_account = clearing, line_amount = difference\<rparr>]\<rparr>
     else if difference <s 0
     then \<lparr>entry_description = description,
           debit_lines = debits @ [\<lparr>line_account = clearing, line_amount = - difference\<rparr>],
           credit_lines = credits\<rparr>
     else \<lparr>entry_description = description, debit_lines = debits, credit_lines = credits\<rparr>)"

definition conversion_entry :: "(int64 \<Rightarrow> string) \<Rightarrow> wallet_registry \<Rightarrow> string \<Rightarrow> string \<Rightarrow> string \<Rightarrow>
    int64 \<Rightarrow> int64 \<Rightarrow> int64 \<Rightarrow> journal_entry" where
  "conversion_entry rate_text w a c d rate amount converted =
    with_clearing_leg (conversion_description rate_text a c d rate) (fx_conversion_clearing w)
      (conversion_debits w a d converted) (conversion_credits w a c amount)"

definition convert_between_currency_wallets ::
    "(int64 \<Rightarrow> string) \<Rightarrow> string \<Rightarrow> string \<Rightarrow> string \<Rightarrow> int64 \<Rightarrow> wallet_registry \<Rightarrow> ledger_book \<Rightarrow>
      (wallet_error + currency_conversion_result) \<times> wallet_registry \<times> ledger_book" where
  "convert_between_currency_wallets rate_text a c d amount w b =
    (if a = '''' then (Inl MissingWalletAccountIdentifier, w, b)
     else if c = '''' \<or> d = '''' then (Inl MissingCurrencyCode, w, b)
     else if c = d then (Inl CannotConvertSameCurrency, w, b)
     else if amount \<le>s 0 then (Inl InvalidWalletAmount, w, b)
     else case scaled_rate (fx_rates w) c d of
       None \<Rightarrow> (Inl UnknownCurrencyPair, w, b)
     | Some rate \<Rightarrow>
         if current_wallet_balance b (wallet_account w a c) <s amount
         then (Inl InsufficientCurrencyWalletBalance, w, b)
         else let converted = convert_minor_units_round_half_up amount rate fx_rate_scale in
           if converted \<le>s 0 then (Inl InvalidWalletAmount, w, b)
           else let b1 = fst (register_account_if_absent (wallet_account w a d) b) in
             (case post_journal_entry (conversion_entry rate_text w a c d rate amount converted) b1 of
                Inl err \<Rightarrow> (Inl (WalletLedgerError err), w, b1)
              | Inr b' \<Rightarrow>
                  (Inr \<lparr>converted_from_currency = c, converted_to_currency = d,
                        amount_debited_from_source = amount,
                        amount_credited_to_destination = converted,
                        scaled_rate_applied = rate\<rparr>,
                   mark_wallet_opened a d w, b')))"

definition get_wallet_balances ::
    "string \<Rightarrow> wallet_registry \<Rightarrow> ledger_book \<Rightarrow> currency_wallet_balance list" where
  "get_wallet_balances a w b =
    map (\<lambda>c. \<lparr>wallet_currency = c, wallet_balance = current_wallet_balance b (wallet_account w a c)\<rparr>)
      (sort (map fst (lookup_or [] (opened_currencies w) a)))"

section \<open>Wallets and the ledger\<close>

lemma wallet_accounts_differ: "c \<noteq> d \<Longrightarrow> wallet_account w a c \<noteq> wallet_account w a d"
  by (auto simp: wallet_account_def)

lemma two_leg_balanced [simp]: "entry_balanced (two_leg_entry s x y amount)"
  by (simp add: entry_balanced_def entry_sums two_leg_entry_def)

lemma two_leg_effect:
  "net_effect (two_leg_entry s x y amount) k =
    (if k = x then amount else 0) - (if k = y then amount else 0)"
  by (auto simp: net_effect_def two_leg_entry_def)

lemma current_wallet_balance_post:
  assumes "post_journal_entry e b = Inr b'"
  shows "current_wallet_balance b' a =
    (if lookup (account_balances b) a = None then 0 else current_wallet_balance b a + net_effect e a)"
  by (simp add: current_wallet_balance_def current_balance_def post_journal_entry_balances [OF assms]
    split: option.splits)

lemma current_wallet_balance_register [simp]:
  "current_wallet_balance (fst (register_account_if_absent x b)) a = current_wallet_balance b a"
  by (simp add: current_wallet_balance_def current_balance_def register_account_if_absent_def)

lemma lookup_register:
  "lookup (account_balances (fst (register_account_if_absent x b))) a =
    (if a = x then Some (current_wallet_balance b x) else lookup (account_balances b) a)"
  by (simp add: register_account_if_absent_def current_wallet_balance_def current_balance_def
    split: option.splits)

lemma signed_trichotomy_zero:
  fixes x :: int64
  assumes "\<not> 0 <s x" and "\<not> x <s 0"
  shows "x = 0"
proof (rule signed_word_eqI)
  show "sint x = sint (0 :: int64)"
    using assms by (simp add: word_sless_alt)
qed

lemma clearing_leg_balances: "entry_balanced (with_clearing_leg s x ds cs)"
proof -
  have "sum_list (map line_amount ds) - sum_list (map line_amount cs) = 0"
    if "\<not> 0 <s sum_list (map line_amount ds) - sum_list (map line_amount cs)"
      and "\<not> sum_list (map line_amount ds) - sum_list (map line_amount cs) <s 0"
    using that by (rule signed_trichotomy_zero)
  then show ?thesis
    by (auto simp: with_clearing_leg_def entry_balanced_def entry_sums sum_lines_from_eq Let_def)
qed

lemma clearing_leg_accounts:
  "line_account ` set ds \<union> line_account ` set cs \<subseteq> entry_accounts (with_clearing_leg s x ds cs)"
  "entry_accounts (with_clearing_leg s x ds cs) \<subseteq> line_account ` set ds \<union> line_account ` set cs \<union> {x}"
  by (auto simp: with_clearing_leg_def entry_accounts_def Let_def)

lemma lines_effect_append [simp]: "lines_effect k (xs @ ys) = lines_effect k xs + lines_effect k ys"
  by (simp add: lines_effect_def)

lemma clearing_leg_effect:
  "k \<noteq> x \<Longrightarrow> net_effect (with_clearing_leg s x ds cs) k = lines_effect k ds - lines_effect k cs"
  by (simp add: with_clearing_leg_def net_effect_def Let_def)

lemma clearing_leg_drift:
  assumes "table_ok (account_kinds g)" and "\<not> is_client g x" and "x \<noteq> custody_pool_account g"
  shows "entry_drift g (with_clearing_leg s x ds cs) =
    lines_effect (custody_pool_account g) ds - lines_effect (custody_pool_account g) cs
    - ((\<Sum>l\<leftarrow>ds. if is_client g (line_account l) then line_amount l else 0)
       - (\<Sum>l\<leftarrow>cs. if is_client g (line_account l) then line_amount l else 0))"
  using assms(2,3) by (simp add: entry_drift_lines [OF assms(1)] with_clearing_leg_def Let_def)

lemma conversion_balanced: "entry_balanced (conversion_entry rate_text w a c d rate amount converted)"
  by (simp add: conversion_entry_def clearing_leg_balances)

text \<open>
  What the constructor is given in \<open>main.go\<close>: the guard's own custody pool, and plumbing accounts
  that are neither the pool nor a client. A wallet stays apart from the client money when no
  foreign-currency wallet account carries the name of a client or of the pool, and the account
  itself is not the pool.
\<close>

definition wallets_ok :: "wallet_registry \<Rightarrow> bool" where
  "wallets_ok w \<longleftrightarrow> guard_ok (wallet_guard w) \<and>
    wallet_custody_pool w = custody_pool_account (wallet_guard w) \<and>
    wallet_custody_pool w \<notin> {wallet_cash_suspense w, fx_conversion_clearing w} \<and>
    \<not> is_client (wallet_guard w) (wallet_cash_suspense w) \<and>
    \<not> is_client (wallet_guard w) (fx_conversion_clearing w)"

definition wallet_apart :: "wallet_registry \<Rightarrow> string \<Rightarrow> string \<Rightarrow> bool" where
  "wallet_apart w a c \<longleftrightarrow> wallet_account w a c \<noteq> wallet_custody_pool w \<and>
    (c \<noteq> native_currency w \<longrightarrow> \<not> is_client (wallet_guard w) (wallet_account w a c))"

lemma is_client_account_eq: "is_client_account w a = is_client (wallet_guard w) a"
  by (simp add: is_client_account_def is_client_def)

lemma conversion_drift:
  assumes "wallets_ok w" and "wallet_apart w a c" and "wallet_apart w a d"
  shows "entry_drift (wallet_guard w) (conversion_entry rate_text w a c d rate amount converted) = 0"
proof -
  let ?g = "wallet_guard w"
  have ok: "table_ok (account_kinds ?g)" "\<not> is_client ?g (fx_conversion_clearing w)"
    "fx_conversion_clearing w \<noteq> custody_pool_account ?g" "\<not> is_client ?g (custody_pool_account ?g)"
    "wallet_custody_pool w = custody_pool_account ?g"
    using assms(1) by (auto simp: wallets_ok_def guard_ok_def)
  have "lines_effect (custody_pool_account ?g) (conversion_debits w a d converted) =
      (\<Sum>l\<leftarrow>conversion_debits w a d converted. if is_client ?g (line_account l) then line_amount l else 0)"
    "lines_effect (custody_pool_account ?g) (conversion_credits w a c amount) =
      (\<Sum>l\<leftarrow>conversion_credits w a c amount. if is_client ?g (line_account l) then line_amount l else 0)"
    using assms(2,3) ok
    by (auto simp: conversion_debits_def conversion_credits_def wallet_apart_def is_client_account_eq
      wallet_account_def)
  then show ?thesis
    unfolding conversion_entry_def clearing_leg_drift [OF ok(1-3)] by simp
qed

lemma two_leg_drift:
  assumes "table_ok (account_kinds g)" and "x \<notin> {custody_pool_account g}" and "y \<notin> {custody_pool_account g}"
    and "\<not> is_client g x" and "\<not> is_client g y"
  shows "entry_drift g (two_leg_entry s x y amount) = 0"
  using assms(2-) by (simp add: entry_drift_lines [OF assms(1)] two_leg_entry_def)

lemma withdrawal_guards:
  assumes "withdraw_from_currency_wallet a c amount w b = Inr b'"
  shows "0 <s amount" and "amount \<le>s current_wallet_balance b (wallet_account w a c)"
  using assms
  by (auto simp: withdraw_from_currency_wallet_def validate_wallet_mutation_args_def Let_def
    word_sless_alt word_sle_eq split: if_splits)

lemma withdrawal_effect:
  assumes "wallets_ok w" and "withdraw_from_currency_wallet a c amount w b = Inr b'"
    and "k \<notin> {wallet_custody_pool w, wallet_cash_suspense w, external_cash_suspense_account (wallet_guard w)}"
  shows "current_wallet_balance b' k =
    current_wallet_balance b k - (if k = wallet_account w a c then amount else 0)"
proof -
  let ?account = "wallet_account w a c"
  have known: "lookup (account_balances b) ?account \<noteq> None"
    using withdrawal_guards [OF assms(2)]
    by (auto simp: current_wallet_balance_def current_balance_def word_sless_alt word_sle_eq
      split: option.splits)
  show ?thesis
  proof (cases "c = native_currency w \<and> is_client_account w a")
    case True
    then have "post_client_money_movement (wallet_guard w) a (- amount)
        (withdrawal_wallet_description a c) b = Inr b'"
      using assms(2) by (auto simp: withdraw_from_currency_wallet_def Let_def
        split: if_splits option.splits sum.splits)
    from client_movement_balances [OF _ this] assms(1,3) True known show ?thesis
      by (auto simp: wallets_ok_def current_wallet_balance_def current_balance_def wallet_account_def
        split: option.splits)
  next
    case False
    then have "post_journal_entry (two_leg_entry (withdrawal_wallet_description a c)
        (wallet_cash_suspense w) ?account amount) b = Inr b'"
      using assms(2) by (auto simp: withdraw_from_currency_wallet_def Let_def
        split: if_splits option.splits sum.splits)
    from current_wallet_balance_post [OF this, of k] assms(3) known show ?thesis
      by (auto simp: two_leg_effect current_wallet_balance_def current_balance_def split: option.splits)
  qed
qed

lemma sint_sub_covered:
  fixes x y :: int64
  assumes "0 <s y" and "y \<le>s x"
  shows "sint (x - y) = sint x - sint y" and "0 \<le>s x - y"
proof -
  show "sint (x - y) = sint x - sint y"
    using assms sint_bounds64 [of x] by (intro sint_sub64) (simp_all add: word_sless_alt word_sle_eq)
  with assms show "0 \<le>s x - y"
    by (simp add: word_sle_eq)
qed

lemma conversion_Inr:
  assumes "convert_between_currency_wallets rate_text a c d amount w b = (Inr result, w', b')"
  obtains rate converted where
    "scaled_rate (fx_rates w) c d = Some rate"
    "converted = convert_minor_units_round_half_up amount rate fx_rate_scale"
    "c \<noteq> d" "0 <s amount" "amount \<le>s current_wallet_balance b (wallet_account w a c)" "0 <s converted"
    "amount_credited_to_destination result = converted" "w' = mark_wallet_opened a d w"
    "post_journal_entry (conversion_entry rate_text w a c d rate amount converted)
      (fst (register_account_if_absent (wallet_account w a d) b)) = Inr b'"
  using assms
  by (auto simp: convert_between_currency_wallets_def Let_def word_sless_alt word_sle_eq
    split: if_splits option.splits sum.splits)

lemma round_half_up:
  "convert_minor_units_round_half_up amount rate fx_rate_scale =
    word_of_int ((2 * sint amount * sint rate + 10 ^ 8) div (2 * 10 ^ 8))"
proof -
  have "(2 * x + 10 ^ 8) div (2 * 10 ^ 8) = (x + 50000000) div (100000000 :: int)" for x
  proof -
    have "(2 * (x + 50000000)) div (2 * 100000000) = (x + 50000000) div (100000000 :: int)"
      by (rule div_mult_mult1) simp
    then show ?thesis by (simp add: algebra_simps)
  qed
  from this [of "sint amount * sint rate"] show ?thesis
    by (simp add: convert_minor_units_round_half_up_def fx_rate_scale_def mult.assoc)
qed

lemma conversion_wallet_effect:
  assumes "wallets_ok w" and "wallet_apart w a c" and "wallet_apart w a d" and "c \<noteq> d"
    and "fx_conversion_clearing w \<notin> {wallet_account w a c, wallet_account w a d}"
  shows "net_effect (conversion_entry rate_text w a c d rate amount converted) (wallet_account w a c) = - amount"
    and "net_effect (conversion_entry rate_text w a c d rate amount converted) (wallet_account w a d) = converted"
  using assms wallet_accounts_differ [OF assms(4), of w a]
  by (auto simp: conversion_entry_def clearing_leg_effect conversion_debits_def conversion_credits_def
    wallet_apart_def)

section \<open>Properties\<close>

text \<open>
  A withdrawal never overdraws its wallet: it succeeds only when that wallet's own balance
  covers it, it then takes exactly the amount, and what is left is not negative. A wallet in
  another currency of the same account does not change.
\<close>

theorem wallet_withdrawal_effect:
  assumes "wallets_ok w" and "withdraw_from_currency_wallet a c amount w b = Inr b'"
    and "wallet_account w a c \<notin> {wallet_custody_pool w, wallet_cash_suspense w,
      external_cash_suspense_account (wallet_guard w)}"
  shows "0 <s amount
    \<and> amount \<le>s current_wallet_balance b (wallet_account w a c)
    \<and> current_wallet_balance b' (wallet_account w a c) =
        current_wallet_balance b (wallet_account w a c) - amount
    \<and> 0 \<le>s current_wallet_balance b' (wallet_account w a c)
    \<and> (\<forall>d. d \<noteq> c \<longrightarrow> wallet_account w a d \<notin> {wallet_custody_pool w, wallet_cash_suspense w,
          external_cash_suspense_account (wallet_guard w)} \<longrightarrow>
        current_wallet_balance b' (wallet_account w a d) =
        current_wallet_balance b (wallet_account w a d))"
  using withdrawal_guards [OF assms(2)] withdrawal_effect [OF assms(1,2)] assms(3)
    sint_sub_covered(2) [OF withdrawal_guards [OF assms(2)]] wallet_accounts_differ [of _ c w a]
  by auto

definition demo_wallets :: wallet_registry where
  "demo_wallets = fst (new_wallet_registry demo_guard ''pool'' ''wallet-suspense'' ''fx-clearing'' ''INR''
     [(''USD/INR'', 8300000000), (''INR/USD'', 1204819)] demo_funded)"

definition demo_wallet_book :: ledger_book where
  "demo_wallet_book = snd (new_wallet_registry demo_guard ''pool'' ''wallet-suspense'' ''fx-clearing'' ''INR''
     [(''USD/INR'', 8300000000), (''INR/USD'', 1204819)] demo_funded)"

lemmas demo_wallet_defs = demo_wallets_def demo_wallet_book_def new_wallet_registry_def demo_funded_def
  register_account_if_absent_def

lemma demo_clients: "is_client demo_guard a \<longleftrightarrow> a = ''acct-001'' \<or> a = ''acct-002''"
  by (auto simp: demo_guard_def is_client_new_guard)

lemma demo_wallets_ok: "wallets_ok demo_wallets"
  using demo_guard_ok
  by (simp add: wallets_ok_def demo_wallets_def new_wallet_registry_def demo_clients)
    (simp add: demo_guard_def new_segregation_guard_def)

lemma demo_wallet_guard: "wallet_guard demo_wallets = demo_guard" "wallet_custody_pool demo_wallets = ''pool''"
  "wallet_cash_suspense demo_wallets = ''wallet-suspense''" "native_currency demo_wallets = ''INR''"
  "fx_conversion_clearing demo_wallets = ''fx-clearing''" "external_cash_suspense_account demo_guard = ''suspense''"
  "fx_rates demo_wallets = [(''USD/INR'', 8300000000), (''INR/USD'', 1204819)]"
  by (simp_all add: demo_wallets_def new_wallet_registry_def demo_guard_def new_segregation_guard_def)

lemma wallet_withdrawal_effect_witness:
  "\<exists>b'. withdraw_from_currency_wallet ''acct-001'' ''INR'' 300 demo_wallets demo_wallet_book = Inr b'
     \<and> current_wallet_balance b' ''acct-001'' = 400"
proof -
  have "\<exists>b'. withdraw_from_currency_wallet ''acct-001'' ''INR'' 300 demo_wallets demo_wallet_book = Inr b'"
    by (simp add: withdraw_from_currency_wallet_def validate_wallet_mutation_args_def wallet_account_def
      demo_wallet_guard is_client_account_eq demo_clients post_client_money_movement_Inr
      current_wallet_balance_def current_balance_def demo_wallet_defs post_client_money_movement_def
      lift_ledger_error_def post_journal_entry_def client_movement_entry_def demo_guard_def
      new_segregation_guard_def sum_of_debit_lines_def sum_of_credit_lines_def max_movement_amount_def
      is_client_def account_kind_of_def Let_def word_sle_eq word_sless_alt)
  then obtain b' where w: "withdraw_from_currency_wallet ''acct-001'' ''INR'' 300 demo_wallets demo_wallet_book
      = Inr b'" by blast
  have "current_wallet_balance b' ''acct-001'' = 400"
    using wallet_withdrawal_effect [OF demo_wallets_ok w]
    by (simp add: demo_wallet_guard wallet_account_def)
      (simp add: current_wallet_balance_def current_balance_def demo_wallet_defs)
  with w show ?thesis by blast
qed

text \<open>
  A conversion takes exactly the amount from the source wallet and adds exactly the amount
  converted at the configured rate, rounded half up, to the destination wallet; the entry it
  posts always balances, the source wallet is not overdrawn, and the client money stays
  segregated.
\<close>

theorem wallet_conversion_effect:
  assumes "wallets_ok w"
    and "convert_between_currency_wallets rate_text a c d amount w b = (Inr result, w', b')"
    and "wallet_apart w a c" and "wallet_apart w a d"
    and "fx_conversion_clearing w \<notin> {wallet_account w a c, wallet_account w a d}"
  shows "current_wallet_balance b' (wallet_account w a c) =
      current_wallet_balance b (wallet_account w a c) - amount
    \<and> 0 \<le>s current_wallet_balance b' (wallet_account w a c)
    \<and> current_wallet_balance b' (wallet_account w a d) =
        current_wallet_balance b (wallet_account w a d) + amount_credited_to_destination result
    \<and> (\<exists>rate. scaled_rate (fx_rates w) c d = Some rate \<and> amount_credited_to_destination result =
          word_of_int ((2 * sint amount * sint rate + 10 ^ 8) div (2 * 10 ^ 8)))
    \<and> discrepancy (wallet_guard w) b' = discrepancy (wallet_guard w) b"
proof (rule conversion_Inr [OF assms(2)])
  fix rate converted
  let ?e = "conversion_entry rate_text w a c d rate amount converted"
  let ?b1 = "fst (register_account_if_absent (wallet_account w a d) b)"
  assume r: "scaled_rate (fx_rates w) c d = Some rate"
    "converted = convert_minor_units_round_half_up amount rate fx_rate_scale"
    "c \<noteq> d" "0 <s amount" "amount \<le>s current_wallet_balance b (wallet_account w a c)"
    "amount_credited_to_destination result = converted"
    and posted: "post_journal_entry ?e ?b1 = Inr b'"
  note effect = conversion_wallet_effect [OF assms(1,3,4) r(3) assms(5)]
  have known: "lookup (account_balances ?b1) (wallet_account w a c) \<noteq> None"
    "lookup (account_balances ?b1) (wallet_account w a d) \<noteq> None"
    using r(4,5)
    by (auto simp: lookup_register current_wallet_balance_def current_balance_def word_sless_alt
      word_sle_eq split: option.splits)
  have "discrepancy (wallet_guard w) b' = discrepancy (wallet_guard w) ?b1"
    using book.discrepancy_post [OF posted] conversion_drift [OF assms(1,3,4)] by simp
  also have "\<dots> = discrepancy (wallet_guard w) b"
    by (rule book.discrepancy_register) (rule prod.collapse [symmetric])
  finally have segregated: "discrepancy (wallet_guard w) b' = discrepancy (wallet_guard w) b" .
  have after: "current_wallet_balance b' k = current_wallet_balance b k + net_effect ?e k"
    if "lookup (account_balances ?b1) k \<noteq> None" for k
    using current_wallet_balance_post [OF posted, of k] that by simp
  show ?thesis
    unfolding after [OF known(1)] after [OF known(2)] effect
    using segregated r(1,2,6) sint_sub_covered(2) [OF r(4,5)] by (simp add: round_half_up)
qed

lemma wallet_conversion_effect_witness:
  "\<exists>r w' b'. convert_between_currency_wallets (\<lambda>_. ''rate'') ''acct-001'' ''INR'' ''USD'' 700
       demo_wallets demo_wallet_book = (Inr r, w', b') \<and>
     current_wallet_balance b' ''acct-001:USD'' = 8 \<and> discrepancy demo_guard b' = discrepancy demo_guard demo_wallet_book"
proof -
  let ?call = "convert_between_currency_wallets (\<lambda>_. ''rate'') ''acct-001'' ''INR'' ''USD'' 700
    demo_wallets demo_wallet_book"
  have "isl (fst ?call) = False"
    by (simp add: convert_between_currency_wallets_def scaled_rate_def ordered_currency_pair_key_def
      demo_wallet_guard wallet_account_def convert_minor_units_round_half_up_def fx_rate_scale_def
      current_wallet_balance_def current_balance_def demo_wallet_defs post_journal_entry_def
      conversion_entry_def with_clearing_leg_def conversion_debits_def conversion_credits_def
      is_client_account_eq demo_clients sum_of_debit_lines_def sum_of_credit_lines_def Let_def
      word_sle_eq word_sless_alt)
  then obtain r w' b' where c: "?call = (Inr r, w', b')"
    by (metis prod.collapse sum.collapse(2))
  have usd: "current_wallet_balance demo_wallet_book ''acct-001:USD'' = 0"
    by (simp add: current_wallet_balance_def current_balance_def demo_wallet_defs)
  have "current_wallet_balance b' ''acct-001:USD'' = 8 \<and>
      discrepancy demo_guard b' = discrepancy demo_guard demo_wallet_book"
    using wallet_conversion_effect [OF demo_wallets_ok c] usd
    by (auto simp: wallet_apart_def demo_wallet_guard wallet_account_def demo_clients scaled_rate_def
      ordered_currency_pair_key_def)
  with c show ?thesis by blast
qed

text \<open>
  A wallet deposit can break the segregation. The account identifier comes from the caller and
  only a client account takes the guarded path, so a native-currency deposit that names the
  custody pool itself is posted directly to the pool, and a segregation report on the result
  finds the pool out of balance.
\<close>

theorem wallet_deposit_into_pool_breaks_segregation:
  "case deposit_into_currency_wallet ''pool'' ''INR'' 50 demo_wallets demo_wallet_book of
     (err, w', b') \<Rightarrow> err = None \<and> discrepancy demo_guard demo_wallet_book = 0 \<and> discrepancy demo_guard b' = 50"
  by (simp add: deposit_into_currency_wallet_def validate_wallet_mutation_args_def demo_wallet_guard
      is_client_account_def account_kind_of_def wallet_account_def demo_wallet_defs two_leg_entry_def
      post_journal_entry_def sum_of_debit_lines_def sum_of_credit_lines_def discrepancy_of_def
      client_accounts_def demo_guard_def new_segregation_guard_def balance_or_zero_def
      total_balance_def current_balance_def lookup_or_def Let_def word_sle_eq)

end
