(* ===== verification/AmlMonitoring.thy ===== *)
theory AmlMonitoring
  imports Prelude
begin

text \<open>
  Anti-money-laundering monitoring, services/ledger/internal/amlmonitoring/amlMonitor.go: every
  recorded movement is judged by three rules (size, velocity, structuring) over the account's
  history, and names are screened against a watch list. An alert's description is kept as the
  numbers and texts the source formats into it. Names are compared as ASCII text
  (\<open>strings.ToLower\<close> of \<open>strings.TrimSpace\<close>).
\<close>

section \<open>State and operations\<close>

datatype alert_type = LargeTransaction | Velocity | Structuring | PepMatch

datatype alert_description =
    LargeTransactionText int64 int64
  | VelocityText nat duration int64
  | StructuringText nat int64 duration int64
  | PepMatchText string

record transaction_record =
  transaction_account :: string
  transaction_amount :: int64
  occurred_at :: instant

record alert =
  alert_account :: string
  alert_type :: alert_type
  alert_description :: alert_description
  raised_at :: instant

record monitor_config =
  large_transaction_threshold :: int64
  structuring_report_threshold :: int64
  structuring_window :: duration
  velocity_max_transactions :: int64
  velocity_window :: duration

record monitor =
  monitor_config :: monitor_config
  transactions_by_account :: "transaction_record list table"
  alerts_by_account :: "alert list table"
  politically_exposed_persons :: "string table"

fun watch_list :: "string list \<Rightarrow> string table \<Rightarrow> string table" where
  "watch_list [] t = t"
| "watch_list (n # ns) t = watch_list ns (put (ascii_lower (trim_space n)) n t)"

definition new_monitor :: "monitor_config \<Rightarrow> string list \<Rightarrow> monitor" where
  "new_monitor c names = \<lparr>monitor_config = c, transactions_by_account = [], alerts_by_account = [],
     politically_exposed_persons = watch_list names []\<rparr>"

definition in_window :: "duration \<Rightarrow> instant \<Rightarrow> transaction_record \<Rightarrow> bool" where
  "in_window window at r =
    (\<not> time_before (occurred_at r) (time_add at (- window)) \<and> \<not> time_after (occurred_at r) at)"

definition evaluate_velocity :: "monitor \<Rightarrow> string \<Rightarrow> instant \<Rightarrow> alert option" where
  "evaluate_velocity m a at =
    (let c = monitor_config m;
         n = length (filter (in_window (velocity_window c) at) (lookup_or [] (transactions_by_account m) a))
     in if int n \<le> sint (velocity_max_transactions c) then None
        else Some \<lparr>alert_account = a, alert_type = Velocity,
          alert_description = VelocityText n (velocity_window c) (velocity_max_transactions c),
          raised_at = at\<rparr>)"

fun structuring_loop ::
    "duration \<Rightarrow> instant \<Rightarrow> int64 \<Rightarrow> transaction_record list \<Rightarrow> int64 \<Rightarrow> nat \<Rightarrow> int64 \<times> nat" where
  "structuring_loop window at threshold [] acc n = (acc, n)"
| "structuring_loop window at threshold (r # rs) acc n =
    (if \<not> in_window window at r then structuring_loop window at threshold rs acc n
     else if threshold \<le>s transaction_amount r then structuring_loop window at threshold rs acc n
     else structuring_loop window at threshold rs (acc + transaction_amount r) (n + 1))"

definition evaluate_structuring :: "monitor \<Rightarrow> string \<Rightarrow> instant \<Rightarrow> alert option" where
  "evaluate_structuring m a at =
    (let c = monitor_config m; threshold = structuring_report_threshold c
     in case structuring_loop (structuring_window c) at threshold
              (lookup_or [] (transactions_by_account m) a) 0 0 of
          (acc, n) \<Rightarrow>
            if acc <s threshold \<or> n < 2 then None
            else Some \<lparr>alert_account = a, alert_type = Structuring,
              alert_description = StructuringText n acc (structuring_window c) threshold,
              raised_at = at\<rparr>)"

definition large_alert :: "monitor \<Rightarrow> string \<Rightarrow> int64 \<Rightarrow> instant \<Rightarrow> alert option" where
  "large_alert m a amount at =
    (let threshold = large_transaction_threshold (monitor_config m)
     in if threshold \<le>s amount
        then Some \<lparr>alert_account = a, alert_type = LargeTransaction,
          alert_description = LargeTransactionText amount threshold, raised_at = at\<rparr>
        else None)"

definition append_alerts :: "string \<Rightarrow> alert list \<Rightarrow> monitor \<Rightarrow> monitor" where
  "append_alerts a new m = (if new = [] then m else m\<lparr>alerts_by_account :=
     put a (lookup_or [] (alerts_by_account m) a @ new) (alerts_by_account m)\<rparr>)"

definition remember_transaction :: "string \<Rightarrow> int64 \<Rightarrow> instant \<Rightarrow> monitor \<Rightarrow> monitor" where
  "remember_transaction a amount at m = m\<lparr>transactions_by_account := put a
     (lookup_or [] (transactions_by_account m) a @
        [\<lparr>transaction_account = a, transaction_amount = amount, occurred_at = at\<rparr>])
     (transactions_by_account m)\<rparr>"

definition record_transaction :: "string \<Rightarrow> int64 \<Rightarrow> instant \<Rightarrow> monitor \<Rightarrow> alert list \<times> monitor" where
  "record_transaction a amount at m =
    (let amount = (if amount <s 0 then - amount else amount);
         m1 = remember_transaction a amount at m;
         new = List.map_filter id
           [large_alert m1 a amount at, evaluate_velocity m1 a at, evaluate_structuring m1 a at]
     in (new, append_alerts a new m1))"

definition screen_name :: "string \<Rightarrow> string \<Rightarrow> instant \<Rightarrow> monitor \<Rightarrow> alert option \<times> monitor" where
  "screen_name a full_name at m =
    (case lookup (politically_exposed_persons m) (ascii_lower (trim_space full_name)) of
       None \<Rightarrow> (None, m)
     | Some listed \<Rightarrow>
         let al = \<lparr>alert_account = a, alert_type = PepMatch, alert_description = PepMatchText listed,
                   raised_at = at\<rparr>
         in (Some al, append_alerts a [al] m))"

definition alerts_for_account :: "string \<Rightarrow> monitor \<Rightarrow> alert list" where
  "alerts_for_account a m = sort_key raised_at (lookup_or [] (alerts_by_account m) a)"

definition all_alerts :: "monitor \<Rightarrow> alert list" where
  "all_alerts m = sort_key raised_at (sort_key alert_account (concat (map snd (alerts_by_account m))))"

section \<open>The rules over integers\<close>

text \<open>The history an account is judged by: what was recorded before and the new movement.\<close>

definition account_history :: "string \<Rightarrow> monitor \<Rightarrow> transaction_record list" where
  "account_history a m = lookup_or [] (transactions_by_account m) a"

definition sub_threshold :: "monitor_config \<Rightarrow> instant \<Rightarrow> transaction_record list \<Rightarrow> transaction_record list" where
  "sub_threshold c at rs = filter (\<lambda>r. in_window (structuring_window c) at r \<and>
     transaction_amount r <s structuring_report_threshold c) rs"

lemma structuring_loop_eq:
  "structuring_loop window at threshold rs acc n =
    (acc + sum_list (map transaction_amount (filter (\<lambda>r. in_window window at r \<and>
        transaction_amount r <s threshold) rs)),
     n + length (filter (\<lambda>r. in_window window at r \<and> transaction_amount r <s threshold) rs))"
  by (induction window at threshold rs acc n rule: structuring_loop.induct)
    (auto simp: word_sless_alt word_sle_eq algebra_simps)

lemma sint_sum_list:
  "(\<forall>x \<in> set xs. 0 \<le>s x) \<Longrightarrow> (\<Sum>x\<leftarrow>xs. sint x) < 2 ^ 63 \<Longrightarrow>
    sint (sum_list xs :: int64) = (\<Sum>x\<leftarrow>xs. sint x)"
proof (induction xs)
  case Nil
  then show ?case by simp
next
  case (Cons x xs)
  have "0 \<le> sint x" "\<forall>x \<in> set xs. 0 \<le> sint x"
    using Cons.prems(1) by (auto simp: word_sle_eq)
  moreover from this(2) have "0 \<le> (\<Sum>x\<leftarrow>xs. sint x)"
    by (intro sum_list_nonneg) auto
  ultimately show ?case
    using Cons by (simp add: sint_add64)
qed

definition monitor_ok :: "monitor \<Rightarrow> bool" where
  "monitor_ok m \<longleftrightarrow> table_ok (transactions_by_account m) \<and> table_ok (alerts_by_account m) \<and>
    (\<forall>a. \<forall>r \<in> set (account_history a m). 0 \<le>s transaction_amount r)"

lemma append_alerts_simps [simp]:
  "transactions_by_account (append_alerts a new m) = transactions_by_account m"
  "monitor_config (append_alerts a new m) = monitor_config m"
  "lookup_or [] (alerts_by_account (append_alerts a new m)) k =
    lookup_or [] (alerts_by_account m) k @ (if k = a then new else [])"
  "table_ok (alerts_by_account m) \<Longrightarrow> table_ok (alerts_by_account (append_alerts a new m))"
  by (simp_all add: append_alerts_def)

lemma nonneg_abs:
  fixes x :: int64
  assumes "x \<noteq> min_int64"
  shows "0 \<le>s (if x <s 0 then - x else x)" and "sint (if x <s 0 then - x else x) = \<bar>sint x\<bar>"
  using sint_uminus64 [OF assms] by (auto simp: word_sless_alt word_sle_eq)

lemma monitor_ok_new: "monitor_ok (new_monitor c names)"
  by (simp add: monitor_ok_def new_monitor_def account_history_def lookup_or_def)

lemma remember_simps [simp]:
  "account_history k (remember_transaction a amount at m) = account_history k m @ (if k = a then
     [\<lparr>transaction_account = a, transaction_amount = amount, occurred_at = at\<rparr>] else [])"
  "monitor_config (remember_transaction a amount at m) = monitor_config m"
  "alerts_by_account (remember_transaction a amount at m) = alerts_by_account m"
  "table_ok (transactions_by_account m) \<Longrightarrow>
    table_ok (transactions_by_account (remember_transaction a amount at m))"
  by (simp_all add: remember_transaction_def account_history_def)

lemma account_history_append [simp]: "account_history k (append_alerts a new m) = account_history k m"
  by (simp add: account_history_def)

lemma record_transaction_eq:
  assumes "record_transaction a amount at m = (new, m')"
  defines "m1 \<equiv> remember_transaction a (if amount <s 0 then - amount else amount) at m"
  shows "new = List.map_filter id [large_alert m1 a (if amount <s 0 then - amount else amount) at,
      evaluate_velocity m1 a at, evaluate_structuring m1 a at]"
    and "m' = append_alerts a new m1"
  using assms(1) unfolding record_transaction_def Let_def m1_def prod.inject by blast+

lemma monitor_ok_record:
  assumes "monitor_ok m" and "amount \<noteq> min_int64" and "record_transaction a amount at m = (new, m')"
  shows "monitor_ok m'"
  using assms(1) nonneg_abs(1) [OF assms(2)] unfolding record_transaction_eq(2) [OF assms(3)]
  by (auto simp: monitor_ok_def)

section \<open>Properties\<close>

text \<open>
  Recording a movement raises exactly the alerts its rules call for and loses none. For an
  amount whose absolute value is representable: a size alert exactly when it reaches the
  threshold; a velocity alert exactly when more movements than allowed fall into the window; a
  structuring alert exactly when at least two movements below the reporting threshold fall into
  the window and their sum, as integers, reaches it. The new alerts are appended to the account's
  and no other account's alerts change.
\<close>

theorem record_transaction_exact:
  assumes "monitor_ok m" and "amount \<noteq> min_int64"
    and "record_transaction a amount at m = (new, m')"
    and "(\<Sum>r\<leftarrow>account_history a m'. sint (transaction_amount r)) < 2 ^ 63"
  shows "account_history a m' = account_history a m @
      [\<lparr>transaction_account = a, transaction_amount = (if amount <s 0 then - amount else amount),
        occurred_at = at\<rparr>]
    \<and> (LargeTransaction \<in> alert_type ` set new \<longleftrightarrow>
        sint (large_transaction_threshold (monitor_config m)) \<le> \<bar>sint amount\<bar>)
    \<and> (Velocity \<in> alert_type ` set new \<longleftrightarrow>
        sint (velocity_max_transactions (monitor_config m)) <
        int (length (filter (in_window (velocity_window (monitor_config m)) at) (account_history a m'))))
    \<and> (Structuring \<in> alert_type ` set new \<longleftrightarrow>
        2 \<le> length (sub_threshold (monitor_config m) at (account_history a m')) \<and>
        sint (structuring_report_threshold (monitor_config m)) \<le>
          (\<Sum>r\<leftarrow>sub_threshold (monitor_config m) at (account_history a m'). sint (transaction_amount r)))
    \<and> (\<forall>k. lookup_or [] (alerts_by_account m') k =
          lookup_or [] (alerts_by_account m) k @ (if k = a then new else []))"
proof -
  let ?amount = "if amount <s 0 then - amount else amount"
  let ?r = "\<lparr>transaction_account = a, transaction_amount = ?amount, occurred_at = at\<rparr>"
  let ?c = "monitor_config m"
  define m1 where "m1 = remember_transaction a ?amount at m"
  define h where "h = account_history a m1"
  note new = record_transaction_eq(1) [OF assms(3), folded m1_def]
    and m' = record_transaction_eq(2) [OF assms(3), folded m1_def]
  have config: "monitor_config m1 = ?c" and history: "account_history a m1 = account_history a m @ [?r]"
    by (simp_all add: m1_def)
  have same: "account_history a m' = h"
    by (simp add: m' h_def)
  have "\<forall>r \<in> set h. 0 \<le>s transaction_amount r"
    using assms(1) nonneg_abs(1) [OF assms(2)] by (auto simp: h_def history monitor_ok_def)
  then have nonneg: "\<forall>r \<in> set h. 0 \<le> sint (transaction_amount r)"
    by (simp add: word_sle_eq)
  have small: "(\<Sum>r\<leftarrow>sub_threshold ?c at h. sint (transaction_amount r)) < 2 ^ 63"
  proof -
    have "(\<Sum>r\<leftarrow>filter P h. sint (transaction_amount r)) \<le> (\<Sum>r\<leftarrow>h. sint (transaction_amount r))" for P
      using nonneg by (induction h) auto
    with assms(4) same show ?thesis
      unfolding sub_threshold_def by (meson le_less_trans)
  qed
  have loop: "structuring_loop (structuring_window ?c) at (structuring_report_threshold ?c) h 0 0 =
      (sum_list (map transaction_amount (sub_threshold ?c at h)), length (sub_threshold ?c at h))"
    by (simp add: structuring_loop_eq sub_threshold_def)
  have exact: "sint (sum_list (map transaction_amount (sub_threshold ?c at h))) =
      (\<Sum>r\<leftarrow>sub_threshold ?c at h. sint (transaction_amount r))"
  proof -
    have "\<forall>x \<in> set (map transaction_amount (sub_threshold ?c at h)). 0 \<le>s x"
      using nonneg by (auto simp: sub_threshold_def word_sle_eq)
    from sint_sum_list [OF this] small show ?thesis by (simp add: comp_def)
  qed
  have types: "LargeTransaction \<in> alert_type ` set new \<longleftrightarrow> large_alert m1 a ?amount at \<noteq> None"
    "Velocity \<in> alert_type ` set new \<longleftrightarrow> evaluate_velocity m1 a at \<noteq> None"
    "Structuring \<in> alert_type ` set new \<longleftrightarrow> evaluate_structuring m1 a at \<noteq> None"
    by (auto simp: new large_alert_def evaluate_velocity_def evaluate_structuring_def Let_def
      map_filter_simps split: if_splits prod.splits option.splits)
  have "large_alert m1 a ?amount at \<noteq> None \<longleftrightarrow> sint (large_transaction_threshold ?c) \<le> \<bar>sint amount\<bar>"
    unfolding nonneg_abs(2) [OF assms(2), symmetric] by (simp add: large_alert_def Let_def config word_sle_eq)
  moreover have "evaluate_velocity m1 a at \<noteq> None \<longleftrightarrow> sint (velocity_max_transactions ?c) <
      int (length (filter (in_window (velocity_window ?c) at) h))"
    by (simp add: evaluate_velocity_def Let_def config h_def account_history_def not_le)
  moreover have "evaluate_structuring m1 a at \<noteq> None \<longleftrightarrow> 2 \<le> length (sub_threshold ?c at h) \<and>
      sint (structuring_report_threshold ?c) \<le>
        (\<Sum>r\<leftarrow>sub_threshold ?c at h. sint (transaction_amount r))"
    using loop exact
    by (auto simp: evaluate_structuring_def config h_def account_history_def word_sless_alt Let_def)
  ultimately show ?thesis
    unfolding types same by (simp add: h_def history m') (simp add: m1_def)
qed

text \<open>
  The least \<open>int64\<close> escapes the size rule: its absolute value is not representable, the recorded
  amount stays negative, and no size alert is raised for it, whatever positive threshold is set.
\<close>

theorem min_int_escapes_large_rule:
  "case record_transaction a min_int64 at (new_monitor c names) of
     (new, m') \<Rightarrow> map transaction_amount (account_history a m') = [min_int64]
       \<and> (0 <s large_transaction_threshold c \<longrightarrow> LargeTransaction \<notin> alert_type ` set new)"
  by (auto simp: record_transaction_def remember_transaction_def new_monitor_def Let_def large_alert_def min_int64_def
      account_history_def lookup_or_def append_alerts_def map_filter_simps evaluate_velocity_def
      evaluate_structuring_def word_sless_alt word_sle_eq split: option.splits if_splits)

definition demo_monitor :: monitor where
  "demo_monitor = \<lparr>monitor_config = \<lparr>large_transaction_threshold = 1000, structuring_report_threshold = 500,
       structuring_window = 100, velocity_max_transactions = 5, velocity_window = 100\<rparr>,
     transactions_by_account = [(''a'', [\<lparr>transaction_account = ''a'', transaction_amount = 300,
       occurred_at = 10\<rparr>])],
     alerts_by_account = [], politically_exposed_persons = []\<rparr>"

lemma record_transaction_exact_witness:
  "Structuring \<in> alert_type ` set (fst (record_transaction ''a'' (- 300) 20 demo_monitor))
   \<and> Velocity \<notin> alert_type ` set (fst (record_transaction ''a'' (- 300) 20 demo_monitor))"
proof -
  obtain new m' where r: "record_transaction ''a'' (- 300) 20 demo_monitor = (new, m')" by fastforce
  have ok: "monitor_ok demo_monitor"
    by (auto simp: monitor_ok_def demo_monitor_def account_history_def lookup_or_def table_ok_def word_sle_eq)
  have h: "account_history ''a'' m' = [\<lparr>transaction_account = ''a'', transaction_amount = 300, occurred_at = 10\<rparr>,
      \<lparr>transaction_account = ''a'', transaction_amount = 300, occurred_at = 20\<rparr>]"
    using r by (auto simp: record_transaction_def remember_transaction_def demo_monitor_def Let_def account_history_def
      lookup_or_def append_alerts_def word_sless_alt)
  have "(- 300 :: int64) \<noteq> min_int64" by (simp add: min_int64_def)
  moreover have "(\<Sum>r\<leftarrow>account_history ''a'' m'. sint (transaction_amount r)) < 2 ^ 63"
    by (simp add: h)
  ultimately show ?thesis
    using record_transaction_exact [OF ok _ r] r
    by (simp add: h) (simp add: sub_threshold_def demo_monitor_def in_window_def time_defs word_sless_alt)
qed

lemma min_int_escapes_large_rule_witness:
  "LargeTransaction \<notin> alert_type ` set (fst
     (record_transaction ''a'' min_int64 20 (new_monitor (monitor_config demo_monitor) [])))"
  using min_int_escapes_large_rule [where a = "''a''" and at = 20 and c = "monitor_config demo_monitor" and names = "[]"]
  by (cases "record_transaction ''a'' min_int64 20 (new_monitor (monitor_config demo_monitor) [])")
    (simp add: demo_monitor_def word_sless_alt)

end
