(* ===== verification/RiskEngine.thy ===== *)
theory RiskEngine
  imports Prelude
begin

text \<open>
  The pre-trade risk check of the order gateway,
  services/oms-gateway/internal/riskengine/preTradeRiskEngine.go: a cache of available margin per
  account, checked and reserved in one step under a lock. A rejection keeps its machine-readable
  kind and the number its text shows.
\<close>

section \<open>State and operations\<close>

type_synonym risk_engine = "int64 table"

datatype risk_check_outcome = OrderApproved | AccountNotFound | InsufficientMargin int64

fun copy_seed_balances :: "int64 table \<Rightarrow> risk_engine \<Rightarrow> risk_engine" where
  "copy_seed_balances [] t = t"
| "copy_seed_balances ((a, v) # rest) t = copy_seed_balances rest (put a v t)"

definition new_risk_engine :: "int64 table \<Rightarrow> risk_engine" where
  "new_risk_engine seed = copy_seed_balances seed []"

definition evaluate_order :: "string \<Rightarrow> int64 \<Rightarrow> risk_engine \<Rightarrow> risk_check_outcome \<times> risk_engine" where
  "evaluate_order a notional e = (case lookup e a of
     None \<Rightarrow> (AccountNotFound, e)
   | Some available \<Rightarrow>
       if available <s notional then (InsufficientMargin (notional - available), e)
       else (OrderApproved, put a (available - notional) e))"

definition adjust_available_margin :: "string \<Rightarrow> int64 \<Rightarrow> risk_engine \<Rightarrow> risk_engine" where
  "adjust_available_margin a delta e = put a (lookup_or 0 e a + delta) e"

definition release_reserved_margin :: "string \<Rightarrow> int64 \<Rightarrow> risk_engine \<Rightarrow> risk_engine" where
  "release_reserved_margin a reserved e = put a (lookup_or 0 e a + reserved) e"

definition available_margin :: "string \<Rightarrow> risk_engine \<Rightarrow> int64 option" where
  "available_margin a e = lookup e a"

definition refresh_account_balance :: "string \<Rightarrow> int64 \<Rightarrow> risk_engine \<Rightarrow> risk_engine" where
  "refresh_account_balance a v e = put a v e"

definition apply_trade_settlement :: "string \<Rightarrow> string \<Rightarrow> int64 \<Rightarrow> risk_engine \<Rightarrow> risk_engine" where
  "apply_trade_settlement buyer seller notional e =
    (let e1 = put buyer (lookup_or 0 e buyer - notional) e
     in put seller (lookup_or 0 e1 seller + notional) e1)"

section \<open>Concurrent orders\<close>

text \<open>
  Orders of many clients interleave: each runs the check, and a running order that was approved
  holds its reservation until it is released. The bag of reservations is what the approved
  orders still hold.
\<close>

record risk_system =
  margins :: risk_engine
  reservations :: "(string \<times> int64) multiset"

inductive risk_step :: "risk_system \<Rightarrow> risk_system \<Rightarrow> bool" where
  order_approved: "evaluate_order a notional (margins s) = (OrderApproved, e) \<Longrightarrow> 0 \<le>s notional \<Longrightarrow>
    risk_step s (s\<lparr>margins := e, reservations := add_mset (a, notional) (reservations s)\<rparr>)"
| order_rejected: "evaluate_order a notional (margins s) = (outcome, e) \<Longrightarrow> outcome \<noteq> OrderApproved \<Longrightarrow>
    risk_step s (s\<lparr>margins := e\<rparr>)"
| order_released: "reservations s = add_mset (a, notional) R \<Longrightarrow>
    risk_step s (s\<lparr>margins := release_reserved_margin a notional (margins s), reservations := R\<rparr>)"

inductive_cases risk_stepE: "risk_step s t"

definition risk_init :: "int64 table \<Rightarrow> risk_system \<Rightarrow> bool" where
  "risk_init seed s \<longleftrightarrow> margins s = new_risk_engine seed \<and> reservations s = {#} \<and> table_ok seed \<and>
    (\<forall>v \<in> ran (lookup seed). 0 \<le>s v)"

definition reserved_in :: "(string \<times> int64) multiset \<Rightarrow> string \<Rightarrow> int" where
  "reserved_in R a = (\<Sum>p\<in>#R. if fst p = a then sint (snd p) else 0)"

definition risk_inv :: "int64 table \<Rightarrow> risk_system \<Rightarrow> bool" where
  "risk_inv seed s \<longleftrightarrow> (\<forall>p \<in># reservations s. 0 \<le> sint (snd p)) \<and>
    (\<forall>a. lookup seed a = None \<longrightarrow>
       lookup (margins s) a = None \<and> (\<forall>p \<in># reservations s. fst p \<noteq> a)) \<and>
    (\<forall>a v. lookup seed a = Some v \<longrightarrow> (\<exists>m. lookup (margins s) a = Some m \<and> 0 \<le> sint m \<and>
       sint m + reserved_in (reservations s) a = sint v))"

lemma risk_inv_known:
  assumes "risk_inv seed s" and "lookup seed a = Some v"
  obtains m where "lookup (margins s) a = Some m" "0 \<le> sint m"
    "sint m + reserved_in (reservations s) a = sint v"
  using assms unfolding risk_inv_def by blast

lemma risk_inv_unknown:
  "risk_inv seed s \<Longrightarrow> lookup seed a = None \<Longrightarrow>
    lookup (margins s) a = None \<and> (\<forall>p \<in># reservations s. fst p \<noteq> a)"
  unfolding risk_inv_def by blast

lemma risk_inv_nonneg: "risk_inv seed s \<Longrightarrow> p \<in># reservations s \<Longrightarrow> 0 \<le> sint (snd p)"
  unfolding risk_inv_def by blast

lemma lookup_copy_seed:
  "table_ok seed \<Longrightarrow> lookup (copy_seed_balances seed t) a =
    (case lookup seed a of None \<Rightarrow> lookup t a | Some v \<Rightarrow> Some v)"
proof (induction seed t rule: copy_seed_balances.induct)
  case (2 k v rest t)
  then have "table_ok rest" "lookup rest k = None"
    by (auto simp: table_ok_def map_of_eq_None_iff)
  with 2 show ?case by (simp split: option.splits)
qed simp

lemma reserved_in_simps [simp]:
  "reserved_in {#} a = 0"
  "reserved_in (add_mset p R) a = (if fst p = a then sint (snd p) else 0) + reserved_in R a"
  by (simp_all add: reserved_in_def)

lemma reserved_in_nonneg: "\<forall>p \<in># R. 0 \<le> sint (snd p) \<Longrightarrow> 0 \<le> reserved_in R a"
  by (induction R) auto

lemma evaluate_order_approved:
  "evaluate_order a notional e = (OrderApproved, e') \<longleftrightarrow>
    (\<exists>m. lookup e a = Some m \<and> sint notional \<le> sint m \<and> e' = put a (m - notional) e)"
  by (auto simp: evaluate_order_def word_sless_alt split: option.splits)

lemma evaluate_order_rejected:
  "evaluate_order a notional e = (outcome, e') \<Longrightarrow> outcome \<noteq> OrderApproved \<Longrightarrow> e' = e"
  by (auto simp: evaluate_order_def split: option.splits if_splits)

lemma risk_inv_init: "risk_init seed s \<Longrightarrow> risk_inv seed s"
  by (auto simp: risk_init_def risk_inv_def new_risk_engine_def lookup_copy_seed ran_def word_sle_eq)

lemma risk_inv_approved:
  assumes "risk_inv seed s" and "evaluate_order a notional (margins s) = (OrderApproved, e)"
    and "0 \<le>s notional"
  shows "risk_inv seed (s\<lparr>margins := e, reservations := add_mset (a, notional) (reservations s)\<rparr>)"
proof -
  obtain m where m: "lookup (margins s) a = Some m" "sint notional \<le> sint m"
    and e: "e = put a (m - notional) (margins s)"
    using assms(2) by (auto simp: evaluate_order_approved)
  have "sint (m - notional) = sint m - sint notional"
    using m(2) assms(3) sint_bounds64 [of m] by (intro sint_sub64) (simp_all add: word_sle_eq)
  moreover obtain v where v: "lookup seed a = Some v"
    using risk_inv_unknown [OF assms(1), of a] m(1) by (cases "lookup seed a") auto
  moreover have "sint m + reserved_in (reservations s) a = sint v"
    by (rule risk_inv_known [OF assms(1) v]) (simp add: m(1))
  ultimately show ?thesis
    using assms(1,3) m unfolding risk_inv_def by (auto simp: e word_sle_eq)
qed

lemma risk_inv_released:
  assumes "risk_inv seed s" and "reservations s = add_mset (a, notional) R"
  shows "risk_inv seed (s\<lparr>margins := release_reserved_margin a notional (margins s), reservations := R\<rparr>)"
proof -
  have mem: "(a, notional) \<in># reservations s"
    by (simp add: assms(2))
  then obtain v where v: "lookup seed a = Some v"
    using risk_inv_unknown [OF assms(1), of a] by (cases "lookup seed a") auto
  obtain m where m: "lookup (margins s) a = Some m" "0 \<le> sint m"
    "sint m + (sint notional + reserved_in R a) = sint v"
    by (rule risk_inv_known [OF assms(1) v]) (use assms(2) in simp)
  have nonneg: "0 \<le> sint notional" "\<forall>p \<in># R. 0 \<le> sint (snd p)"
    using risk_inv_nonneg [OF assms(1)] assms(2) by fastforce+
  then have "sint (m + notional) = sint m + sint notional"
    using m(2,3) reserved_in_nonneg [of R a] sint_bounds64 [of v] by (intro sint_add64) simp_all
  then have margins: "lookup (release_reserved_margin a notional (margins s)) =
      (lookup (margins s))(a \<mapsto> m + notional)" "sint (m + notional) + reserved_in R a = sint v"
    using m by (auto simp: release_reserved_margin_def lookup_or_def)
  have others: "\<exists>m'. lookup (margins s) k = Some m' \<and> 0 \<le> sint m' \<and> sint m' + reserved_in R k = sint x"
    if "lookup seed k = Some x" "k \<noteq> a" for k x
    using risk_inv_known [OF assms(1) that(1)] that(2) assms(2) by fastforce
  have unknown: "lookup (margins s) k = None \<and> (\<forall>p \<in># R. fst p \<noteq> k) \<and> k \<noteq> a" if "lookup seed k = None" for k
    using risk_inv_unknown [OF assms(1) that] assms(2) v that by auto
  show ?thesis
    unfolding risk_inv_def using nonneg margins m(2) others unknown v
      \<open>sint (m + notional) = sint m + sint notional\<close> by auto
qed

lemma risk_inv_step: "risk_inv seed s \<Longrightarrow> risk_step s t \<Longrightarrow> risk_inv seed t"
  by (erule risk_stepE)
    (auto simp: risk_inv_approved risk_inv_released dest: evaluate_order_rejected)

interpretation risk: invariant_system "risk_init seed" risk_step "risk_inv seed"
  by unfold_locales (auto intro: risk_inv_init risk_inv_step)

section \<open>Properties\<close>

text \<open>
  C13. Concurrent orders never commit more than the account has. However checks and releases of
  orders with a non-negative notional interleave, what the approved orders of an account hold
  together never exceeds its balance at the start, and what is left is exactly the difference.
\<close>

theorem reservations_never_overcommit:
  assumes "reachable_by (risk_init seed) risk_step s" and "lookup seed a = Some v"
  shows "reserved_in (reservations s) a \<le> sint v
    \<and> (\<exists>m. available_margin a (margins s) = Some m \<and> sint m = sint v - reserved_in (reservations s) a)"
  by (rule risk_inv_known [OF risk.inv_reachable [OF assms(1)] assms(2)])
    (simp add: available_margin_def)

lemma demo_orders:
  "reachable_by (risk_init [(''a'', 100)]) risk_step
    \<lparr>margins = [(''a'', 30)], reservations = {#(''a'', 70)#}\<rparr>"
proof -
  have "reachable_by (risk_init [(''a'', 100)]) risk_step \<lparr>margins = [(''a'', 100)], reservations = {#}\<rparr>"
    by (rule reachable_init) (simp add: risk_init_def new_risk_engine_def table_ok_def ran_def word_sle_eq)
  then show ?thesis
    by (rule reachable_step)
      (use order_approved [of "''a''" 70 "\<lparr>margins = [(''a'', 100)], reservations = {#}\<rparr>"] in
        \<open>simp add: evaluate_order_def word_sle_eq word_sless_alt\<close>)
qed

lemma reservations_never_overcommit_witness:
  "reserved_in {#(''a'', 70)#} ''a'' \<le> 100 \<and> available_margin ''a'' [(''a'', 30)] = Some 30"
  using reservations_never_overcommit [OF demo_orders, of "''a''" 100] by (simp add: available_margin_def)

text \<open>
  Releasing a reservation of an unknown account is not a no-op: it opens the account with the
  released amount as its margin, and an order of that size that was rejected is approved.
\<close>

theorem release_opens_unknown_account:
  assumes "lookup e a = None" and "0 <s amount"
  shows "fst (evaluate_order a amount e) = AccountNotFound
    \<and> available_margin a (release_reserved_margin a amount e) = Some amount
    \<and> fst (evaluate_order a amount (release_reserved_margin a amount e)) = OrderApproved"
  using assms
  by (simp add: evaluate_order_def release_reserved_margin_def available_margin_def lookup_or_def
    word_sless_alt)

lemma release_opens_unknown_account_witness:
  "fst (evaluate_order ''ghost'' 5 (release_reserved_margin ''ghost'' 5 [])) = OrderApproved"
  using release_opens_unknown_account [of "[]" "''ghost''" 5] by (simp add: word_sless_alt)

end
