(* ===== verification/ExposureLimits.thy ===== *)
theory ExposureLimits
  imports Prelude
begin

text \<open>
  Exposure limits of the order gateway,
  services/oms-gateway/internal/exposurelimits/exposureLimitsRegistry.go: configured caps per account
  and per account and segment, and the running totals that an accepted order adds to. An absent
  cap never rejects.
\<close>

section \<open>State and operations\<close>

definition has_suffix :: "string \<Rightarrow> string \<Rightarrow> bool" where
  "has_suffix s suf = (length suf \<le> length s \<and> drop (length s - length suf) s = suf)"

definition classify_segment :: "string \<Rightarrow> string" where
  "classify_segment symbol = (let upper = ascii_upper symbol in
     if has_suffix upper ''-FUT'' \<or> has_suffix upper ''-OPT'' then ''FUTURES_AND_OPTIONS''
     else if has_suffix upper ''-CUR'' then ''CURRENCY''
     else if has_suffix upper ''-EQ'' then ''EQUITY''
     else ''OTHER'')"

datatype exposure_error =
    AccountExposureLimitExceeded string int64 int64
  | SegmentExposureLimitExceeded string string int64 int64

record limits_registry =
  account_limits :: "int64 table"
  segment_limits :: "int64 table table"
  account_exposures :: "int64 table"
  segment_exposures :: "int64 table table"

definition new_limits_registry :: limits_registry where
  "new_limits_registry = \<lparr>account_limits = [], segment_limits = [], account_exposures = [],
     segment_exposures = []\<rparr>"

definition set_account_limit :: "string \<Rightarrow> int64 \<Rightarrow> limits_registry \<Rightarrow> limits_registry" where
  "set_account_limit a l r = r\<lparr>account_limits := put a l (account_limits r)\<rparr>"

definition set_segment_limit :: "string \<Rightarrow> string \<Rightarrow> int64 \<Rightarrow> limits_registry \<Rightarrow> limits_registry" where
  "set_segment_limit a seg l r = r\<lparr>segment_limits := nested_put a seg l (segment_limits r)\<rparr>"

definition account_limit :: "string \<Rightarrow> limits_registry \<Rightarrow> int64 option" where
  "account_limit a r = lookup (account_limits r) a"

definition segment_limit :: "string \<Rightarrow> string \<Rightarrow> limits_registry \<Rightarrow> int64 option" where
  "segment_limit a seg r = nested_lookup (segment_limits r) a seg"

definition current_account_exposure :: "string \<Rightarrow> limits_registry \<Rightarrow> int64" where
  "current_account_exposure a r = lookup_or 0 (account_exposures r) a"

definition current_segment_exposure :: "string \<Rightarrow> string \<Rightarrow> limits_registry \<Rightarrow> int64" where
  "current_segment_exposure a seg r = nested_get 0 (segment_exposures r) a seg"

definition over_limit :: "int64 \<Rightarrow> int64 option \<Rightarrow> bool" where
  "over_limit projected l = (case l of None \<Rightarrow> False | Some limit \<Rightarrow> limit <s projected)"

definition check_and_reserve_exposure ::
    "string \<Rightarrow> string \<Rightarrow> int64 \<Rightarrow> limits_registry \<Rightarrow> exposure_error option \<times> limits_registry" where
  "check_and_reserve_exposure a seg notional r =
    (if notional \<le>s 0 then (None, r)
     else
       let account_total = lookup_or 0 (account_exposures r) a + notional;
           segment_total = nested_get 0 (segment_exposures r) a seg + notional
       in if over_limit account_total (lookup (account_limits r) a)
          then (Some (AccountExposureLimitExceeded a account_total
                 (the (lookup (account_limits r) a))), r)
          else if over_limit segment_total (nested_lookup (segment_limits r) a seg)
          then (Some (SegmentExposureLimitExceeded a seg segment_total
                 (the (nested_lookup (segment_limits r) a seg))), r)
          else (None, r\<lparr>account_exposures := put a account_total (account_exposures r),
                 segment_exposures := nested_put a seg segment_total (segment_exposures r)\<rparr>))"

definition floored :: "int64 \<Rightarrow> int64" where
  "floored v = (if v <s 0 then 0 else v)"

definition release_exposure :: "string \<Rightarrow> string \<Rightarrow> int64 \<Rightarrow> limits_registry \<Rightarrow> limits_registry" where
  "release_exposure a seg notional r =
    (let r1 = r\<lparr>account_exposures :=
           put a (floored (lookup_or 0 (account_exposures r) a - notional)) (account_exposures r)\<rparr>
     in if lookup (segment_exposures r) a = None then r1
        else r1\<lparr>segment_exposures := nested_put a seg
          (floored (nested_get 0 (segment_exposures r) a seg - notional)) (segment_exposures r)\<rparr>)"

section \<open>Taking a reservation back\<close>

lemma exposure_after_release:
  "current_account_exposure k (release_exposure a seg notional r) =
    (if k = a then floored (current_account_exposure a r - notional) else current_account_exposure k r)"
  "current_segment_exposure k j (release_exposure a seg notional r) =
    (if k = a \<and> j = seg \<and> lookup (segment_exposures r) a \<noteq> None
     then floored (current_segment_exposure a seg r - notional) else current_segment_exposure k j r)"
  by (auto simp: current_account_exposure_def current_segment_exposure_def release_exposure_def Let_def)

lemma exposure_after_accept:
  assumes "check_and_reserve_exposure a seg notional r = (None, r1)" and "0 <s notional"
  shows "current_account_exposure k r1 = current_account_exposure k r + (if k = a then notional else 0)"
    and "current_segment_exposure k j r1 = current_segment_exposure k j r + (if k = a \<and> j = seg then notional else 0)"
proof -
  have "r1 = r\<lparr>account_exposures := put a (current_account_exposure a r + notional) (account_exposures r),
      segment_exposures := nested_put a seg (current_segment_exposure a seg r + notional) (segment_exposures r)\<rparr>"
    using assms by (auto simp: check_and_reserve_exposure_def current_account_exposure_def
      current_segment_exposure_def Let_def word_sle_eq word_sless_alt split: if_splits)
  then show "current_account_exposure k r1 = current_account_exposure k r + (if k = a then notional else 0)"
    and "current_segment_exposure k j r1 = current_segment_exposure k j r + (if k = a \<and> j = seg then notional else 0)"
    by (simp_all add: current_account_exposure_def current_segment_exposure_def)
qed

lemma floored_nonneg: "0 \<le>s x \<Longrightarrow> floored x = x"
  by (simp add: floored_def word_sless_alt word_sle_eq)

lemma unseen_segment: "lookup (segment_exposures r) a = None \<Longrightarrow> current_segment_exposure a seg r = 0"
  by (simp add: current_segment_exposure_def nested_get_def lookup_or_def)

text \<open>Releasing what a non-negative order has just reserved restores every total.\<close>

lemma release_after_reserve:
  assumes "check_and_reserve_exposure a seg notional r = (None, r1)" and "0 \<le>s notional"
    and "0 \<le>s current_account_exposure a r" and "0 \<le>s current_segment_exposure a seg r"
  shows "current_account_exposure k (release_exposure a seg notional r1) = current_account_exposure k r"
    and "current_segment_exposure k j (release_exposure a seg notional r1) = current_segment_exposure k j r"
proof -
  have r1: "current_account_exposure b r1 = current_account_exposure b r + (if b = a then notional else 0)"
    "current_segment_exposure b i r1 = current_segment_exposure b i r + (if b = a \<and> i = seg then notional else 0)" for b i
  proof -
    have "notional = 0 \<and> r1 = r" if "\<not> 0 <s notional"
      using assms(1,2) that
      by (auto simp: check_and_reserve_exposure_def word_sle_eq word_sless_alt intro: signed_word_eqI)
    then show "current_account_exposure b r1 = current_account_exposure b r + (if b = a then notional else 0)"
      "current_segment_exposure b i r1 = current_segment_exposure b i r + (if b = a \<and> i = seg then notional else 0)"
      using exposure_after_accept [OF assms(1)] by fastforce+
  qed
  show "current_account_exposure k (release_exposure a seg notional r1) = current_account_exposure k r"
    using assms(3) by (simp add: exposure_after_release r1 floored_nonneg)
  have "notional = 0" if "lookup (segment_exposures r1) a = None"
    using assms(1,2) that
    by (auto simp: check_and_reserve_exposure_def nested_put_def Let_def word_sle_eq
      split: if_splits intro: signed_word_eqI)
  then show "current_segment_exposure k j (release_exposure a seg notional r1) = current_segment_exposure k j r"
    using assms(4) by (auto simp: exposure_after_release r1 floored_nonneg)
qed

section \<open>Properties\<close>

definition within :: "int \<Rightarrow> int64 option \<Rightarrow> bool" where
  "within n l = (case l of None \<Rightarrow> True | Some limit \<Rightarrow> n \<le> sint limit)"

lemma over_limit_within: "sint x = n \<Longrightarrow> over_limit x l \<longleftrightarrow> \<not> within n l"
  by (auto simp: over_limit_def within_def word_sless_alt split: option.splits)

text \<open>
  The check is exact and atomic. As long as the totals fit in 63 bits an order is accepted
  exactly when neither the account's total nor its segment's would pass a configured cap, counted
  as integers; an accepted order adds its notional to both totals and to nothing else, and a
  rejected one changes nothing.
\<close>

theorem check_and_reserve_exact:
  assumes "0 <s notional" and "sint (current_account_exposure a r) + sint notional < 2 ^ 63"
    and "sint (current_segment_exposure a seg r) + sint notional < 2 ^ 63"
    and "check_and_reserve_exposure a seg notional r = (err, r')"
  shows "(err = None \<longleftrightarrow>
        within (sint (current_account_exposure a r) + sint notional) (account_limit a r) \<and>
        within (sint (current_segment_exposure a seg r) + sint notional) (segment_limit a seg r))
    \<and> (if err = None
       then sint (current_account_exposure a r') = sint (current_account_exposure a r) + sint notional
         \<and> sint (current_segment_exposure a seg r') = sint (current_segment_exposure a seg r) + sint notional
         \<and> (\<forall>k. k \<noteq> a \<longrightarrow> current_account_exposure k r' = current_account_exposure k r)
         \<and> (\<forall>k j. (k, j) \<noteq> (a, seg) \<longrightarrow> current_segment_exposure k j r' = current_segment_exposure k j r)
         \<and> account_limits r' = account_limits r \<and> segment_limits r' = segment_limits r
       else r' = r)"
proof -
  have pos: "\<not> notional \<le>s 0" "0 < sint notional"
    using assms(1) by (simp_all add: word_sless_alt word_sle_eq)
  have account: "sint (lookup_or 0 (account_exposures r) a + notional) =
      sint (current_account_exposure a r) + sint notional"
    using assms(2) pos(2) sint_bounds64 [of "current_account_exposure a r"]
    unfolding current_account_exposure_def by (intro sint_add64) simp_all
  have segment: "sint (nested_get 0 (segment_exposures r) a seg + notional) =
      sint (current_segment_exposure a seg r) + sint notional"
    using assms(3) pos(2) sint_bounds64 [of "current_segment_exposure a seg r"]
    unfolding current_segment_exposure_def by (intro sint_add64) simp_all
  note over = over_limit_within [OF account, of "account_limit a r"]
    over_limit_within [OF segment, of "segment_limit a seg r"]
  show ?thesis
    using assms(4) pos(1) over account segment
    by (auto simp: check_and_reserve_exposure_def Let_def account_limit_def segment_limit_def
      current_account_exposure_def current_segment_exposure_def split: if_splits)
qed

definition demo_limits :: limits_registry where
  "demo_limits = set_segment_limit ''a'' ''EQUITY'' 60 (set_account_limit ''a'' 100 new_limits_registry)"

lemma check_and_reserve_exact_witness:
  "fst (check_and_reserve_exposure ''a'' ''EQUITY'' 50 demo_limits) = None
   \<and> fst (check_and_reserve_exposure ''a'' ''EQUITY'' 70 demo_limits) \<noteq> None"
proof -
  have small: "current_account_exposure ''a'' demo_limits = 0"
    "current_segment_exposure ''a'' ''EQUITY'' demo_limits = 0"
    "account_limit ''a'' demo_limits = Some 100" "segment_limit ''a'' ''EQUITY'' demo_limits = Some 60"
    by (simp_all add: demo_limits_def new_limits_registry_def set_account_limit_def set_segment_limit_def
      current_account_exposure_def current_segment_exposure_def account_limit_def segment_limit_def
      lookup_or_def)
  have "(0 :: int64) <s 50" "(0 :: int64) <s 70" by (simp_all add: word_sless_alt)
  from check_and_reserve_exact [OF this(1), of "''a''" demo_limits "''EQUITY''"]
    check_and_reserve_exact [OF this(2), of "''a''" demo_limits "''EQUITY''"]
  show ?thesis
    by (simp add: small within_def) (metis prod.collapse)
qed

text \<open>
  The check wraps around. When a total has grown to the largest \<open>int64\<close> before a cap is
  configured, adding any positive notional wraps to a negative number, which passes every
  non-negative cap: the order is accepted far beyond the limit and the running total turns negative.
\<close>

theorem wrapped_exposure_passes_limit:
  "case check_and_reserve_exposure ''a'' ''EQUITY'' max_int64 new_limits_registry of
     (err1, r1) \<Rightarrow> err1 = None \<and>
       (case check_and_reserve_exposure ''a'' ''EQUITY'' 1 (set_account_limit ''a'' 100 r1) of
          (err2, r2) \<Rightarrow> err2 = None \<and> current_account_exposure ''a'' r2 = min_int64)"
  by (simp add: check_and_reserve_exposure_def new_limits_registry_def set_account_limit_def
      max_int64_def min_int64_def over_limit_def current_account_exposure_def lookup_or_def
      nested_get_def nested_lookup_def nested_put_def Let_def word_sle_eq word_sless_alt)

text \<open>
  Configuring a cap of zero does not clear it: it rejects every further order of the account,
  where an account without a configured cap is not constrained at all.
\<close>

theorem zero_limit_rejects_every_order:
  assumes "0 <s notional" and "0 \<le>s current_account_exposure a r"
    and "sint (current_account_exposure a r) + sint notional < 2 ^ 63"
  shows "account_limit a (set_account_limit a 0 r) = Some 0
    \<and> fst (check_and_reserve_exposure a seg notional (set_account_limit a 0 r)) \<noteq> None"
proof -
  have "sint (lookup_or 0 (account_exposures r) a + notional) =
      sint (current_account_exposure a r) + sint notional"
    using assms sint_bounds64 [of "current_account_exposure a r"]
    unfolding current_account_exposure_def by (intro sint_add64) (simp_all add: word_sless_alt)
  then show ?thesis
    using assms(1,2)
    by (simp add: check_and_reserve_exposure_def set_account_limit_def account_limit_def over_limit_def
      current_account_exposure_def Let_def word_sless_alt word_sle_eq)
qed

lemma zero_limit_rejects_every_order_witness:
  "fst (check_and_reserve_exposure ''a'' ''EQUITY'' 5 (set_account_limit ''a'' 0 demo_limits)) \<noteq> None"
  using zero_limit_rejects_every_order [of 5 "''a''" demo_limits "''EQUITY''"]
  by (simp add: demo_limits_def new_limits_registry_def set_account_limit_def set_segment_limit_def
    current_account_exposure_def lookup_or_def word_sless_alt word_sle_eq)

end
