(* ===== verification/PositionBook.thy ===== *)
theory PositionBook
  imports Prelude
begin

text \<open>
  Net positions of the order gateway, services/oms-gateway/internal/positions/positionBook.go, in
  the in-memory mode: a signed quantity per account and instrument, moved by fills. The
  specification is the log of fills.
\<close>

section \<open>State and operations\<close>

type_synonym position_book = "int64 table table"

definition new_position_book :: position_book where
  "new_position_book = []"

definition adjust_position :: "string \<Rightarrow> string \<Rightarrow> int64 \<Rightarrow> position_book \<Rightarrow> position_book" where
  "adjust_position a ins delta b = nested_put a ins (nested_get 0 b a ins + delta) b"

definition apply_fill :: "string \<Rightarrow> string \<Rightarrow> string \<Rightarrow> uint64 \<Rightarrow> position_book \<Rightarrow> position_book" where
  "apply_fill buyer seller ins quantity b =
    adjust_position seller ins (- quantity) (adjust_position buyer ins quantity b)"

definition set_position_directly :: "string \<Rightarrow> string \<Rightarrow> int64 \<Rightarrow> position_book \<Rightarrow> position_book" where
  "set_position_directly a ins quantity b = nested_put a ins quantity b"

definition positions_for_account :: "string \<Rightarrow> position_book \<Rightarrow> int64 table" where
  "positions_for_account a b = filter (\<lambda>(ins, q). q \<noteq> 0) (lookup_or [] b a)"

section \<open>The log of fills\<close>

record fill =
  fill_buyer :: string
  fill_seller :: string
  fill_instrument :: string
  fill_quantity :: uint64

definition apply_fills :: "fill list \<Rightarrow> position_book \<Rightarrow> position_book" where
  "apply_fills fs b = foldl (\<lambda>b f. apply_fill (fill_buyer f) (fill_seller f) (fill_instrument f)
     (fill_quantity f) b) b fs"

definition net_of_log :: "fill list \<Rightarrow> string \<Rightarrow> string \<Rightarrow> int64" where
  "net_of_log fs a ins =
    (\<Sum>f\<leftarrow>fs. if fill_instrument f = ins \<and> fill_buyer f = a then fill_quantity f else 0)
    - (\<Sum>f\<leftarrow>fs. if fill_instrument f = ins \<and> fill_seller f = a then fill_quantity f else 0)"

definition instrument_total :: "position_book \<Rightarrow> string \<Rightarrow> int64" where
  "instrument_total b ins = table_sum (\<lambda>a t. lookup_or 0 t ins) b"

definition book_ok :: "position_book \<Rightarrow> bool" where
  "book_ok b \<longleftrightarrow> table_ok b \<and> (\<forall>a t. lookup b a = Some t \<longrightarrow> table_ok t)"

lemma position_adjust:
  "nested_get 0 (adjust_position a ins delta b) k s =
    nested_get 0 b k s + (if k = a \<and> s = ins then delta else 0)"
  by (simp add: adjust_position_def)

lemma position_fill:
  "nested_get 0 (apply_fill buyer seller ins q b) k s = nested_get 0 b k s
    + (if s = ins \<and> k = buyer then q else 0) - (if s = ins \<and> k = seller then q else 0)"
  by (auto simp: apply_fill_def position_adjust)

lemma book_ok_adjust: "book_ok b \<Longrightarrow> book_ok (adjust_position a ins delta b)"
  by (auto simp: book_ok_def adjust_position_def nested_put_def lookup_or_def split: option.splits)

lemma book_ok_table: "book_ok b \<Longrightarrow> table_ok b"
  by (simp add: book_ok_def)

lemma lookup_filter_nonzero:
  "table_ok t \<Longrightarrow> lookup (filter (\<lambda>(k, q). q \<noteq> 0) t) ins =
    (if lookup_or (0 :: int64) t ins = 0 then None else lookup t ins)"
proof (induction t)
  case (Cons kq t)
  obtain k q where kq: "kq = (k, q)" by fastforce
  have "lookup t k = None" "table_ok t"
    using Cons.prems by (auto simp: kq table_ok_def map_of_eq_None_iff)
  with Cons.IH show ?case
    by (auto simp: kq lookup_or_def)
qed (simp add: lookup_or_def)

lemma instrument_total_adjust:
  assumes "table_ok b"
  shows "instrument_total (adjust_position a ins delta b) s =
    instrument_total b s + (if s = ins then delta else 0)"
  unfolding instrument_total_def adjust_position_def nested_put_def table_sum_put [OF assms]
  by (auto simp: nested_get_def lookup_or_def split: option.splits)

lemma fills_log:
  "book_ok b \<Longrightarrow> book_ok (apply_fills fs b) \<and>
    nested_get 0 (apply_fills fs b) a ins = nested_get 0 b a ins + net_of_log fs a ins \<and>
    instrument_total (apply_fills fs b) ins = instrument_total b ins"
proof (induction fs arbitrary: b)
  case Nil
  then show ?case by (simp add: apply_fills_def net_of_log_def)
next
  case (Cons f fs)
  let ?b = "apply_fill (fill_buyer f) (fill_seller f) (fill_instrument f) (fill_quantity f) b"
  have ok: "book_ok ?b" "table_ok b"
    "table_ok (adjust_position (fill_buyer f) (fill_instrument f) (fill_quantity f) b)"
    unfolding apply_fill_def
    using Cons.prems book_ok_adjust [THEN book_ok_adjust] book_ok_adjust book_ok_table by blast+
  then have "instrument_total ?b ins = instrument_total b ins"
    by (simp add: apply_fill_def instrument_total_adjust)
  moreover have "apply_fills (f # fs) b = apply_fills fs ?b"
    by (simp add: apply_fills_def)
  ultimately show ?case
    using Cons.IH [OF ok(1)] by (auto simp: position_fill net_of_log_def)
qed

section \<open>Properties\<close>

text \<open>
  The book is the net of its trades: after any sequence of fills from an empty book every
  position is what the account bought less what it sold, the positions of an instrument sum to
  zero over all accounts (a trade creates no holdings), and the reported positions are exactly
  the non-zero ones.
\<close>

theorem position_book_nets_fills:
  fixes fs :: "fill list"
  defines "b \<equiv> apply_fills fs new_position_book"
  shows "nested_get 0 b a ins = net_of_log fs a ins
    \<and> instrument_total b ins = 0
    \<and> lookup (positions_for_account a b) ins =
        (if net_of_log fs a ins = 0 then None else Some (net_of_log fs a ins))"
proof -
  have log: "book_ok b" "nested_get 0 b a ins = net_of_log fs a ins" "instrument_total b ins = 0"
    using fills_log [of new_position_book fs a ins]
    by (simp_all add: b_def new_position_book_def book_ok_def instrument_total_def)
  have inner: "table_ok (lookup_or [] b a)"
    using log(1) by (simp add: book_ok_def lookup_or_def split: option.splits)
  from lookup_filter_nonzero [OF inner, of ins] log(2,3) show ?thesis
    by (auto simp: positions_for_account_def nested_get_def lookup_or_def split: option.splits)
qed

end
