(* ===== verification/OrderTypes.thy ===== *)
theory OrderTypes
  imports Complex_Main Prelude
begin

text \<open>
  The order domain types of the gateway, services/oms-gateway/internal/orders/orderTypes.go: the
  submission, its acknowledgement, and the validation of the execution type. A JSON pointer
  field is an option. The one float field, the baseline of an overtrading nudge, is the
  rational number a finite float is.
\<close>

record order_submission_request =
  request_account :: string
  request_instrument :: string
  request_is_buy :: bool
  request_is_market_order :: bool
  request_is_stop_loss :: bool
  request_stop_trigger_price :: "int64 option"
  request_limit_price :: int64
  request_quantity :: uint64
  request_idempotency_key :: string
  request_is_after_market_order :: bool
  request_execution_type :: string
  request_iceberg_visible_quantity :: "uint64 option"
  request_is_paper_trading :: bool
  request_paper_reference_price :: "int64 option"
  request_strategy_identifier :: string
  request_confirmed_large_order :: bool
  request_milli_share_quantity :: "uint64 option"

record fractional_trade_execution_summary =
  fractional_buying_account :: string
  fractional_selling_account :: string
  fractional_executed_price :: int64
  fractional_executed_milli_shares :: uint64

record trade_execution_summary =
  trade_buying_account :: string
  trade_selling_account :: string
  trade_executed_price :: int64
  trade_executed_quantity :: uint64

record overtrading_nudge =
  nudge_pattern_detected :: string
  nudge_message :: string
  nudge_recent_order_count :: int64
  nudge_baseline_order_count :: rat
  nudge_cooldown_expires_at :: instant

record order_acknowledgement =
  ack_was_accepted :: bool
  ack_global_sequence_number :: uint64
  ack_human_readable_reason :: string
  ack_machine_readable_reason :: string
  ack_trade_executions :: "trade_execution_summary list"
  ack_matching_engine_error :: string
  ack_matching_engine_sequence_number :: uint64
  ack_is_queued_as_amo :: bool
  ack_is_paper_trading :: bool
  ack_paper_simulation_error :: string
  ack_overtrading_nudge :: "overtrading_nudge option"
  ack_fractional_executions :: "fractional_trade_execution_summary list"
  ack_settlement_failures :: "string list"

definition empty_acknowledgement :: order_acknowledgement where
  "empty_acknowledgement = \<lparr>ack_was_accepted = False, ack_global_sequence_number = 0,
     ack_human_readable_reason = '''', ack_machine_readable_reason = '''', ack_trade_executions = [],
     ack_matching_engine_error = '''', ack_matching_engine_sequence_number = 0,
     ack_is_queued_as_amo = False, ack_is_paper_trading = False, ack_paper_simulation_error = '''',
     ack_overtrading_nudge = None, ack_fractional_executions = [], ack_settlement_failures = []\<rparr>"

datatype execution_type_error =
    UnknownOrderExecutionType
  | IcebergRequiresVisibleQuantity
  | IcebergVisibleQuantityMustBePositive
  | IcebergVisibleQuantityExceedsTotal

definition plain_execution_types :: "string list" where
  "plain_execution_types = [''MARKET'', ''LIMIT'', ''SL'', ''SL-M'', ''FOK'', ''IOC'']"

definition validate_order_execution_type :: "order_submission_request \<Rightarrow> execution_type_error option" where
  "validate_order_execution_type r =
    (if request_execution_type r = '''' then None
     else if request_execution_type r \<in> set plain_execution_types then None
     else if request_execution_type r = ''ICEBERG'' then
       (case request_iceberg_visible_quantity r of
          None \<Rightarrow> Some IcebergRequiresVisibleQuantity
        | Some v \<Rightarrow>
            if v = 0 then Some IcebergVisibleQuantityMustBePositive
            else if request_quantity r < v then Some IcebergVisibleQuantityExceedsTotal
            else None)
     else Some UnknownOrderExecutionType)"

lemma validate_order_execution_type_ok:
  "validate_order_execution_type r = None \<longleftrightarrow>
    request_execution_type r \<in> set ('''' # plain_execution_types) \<or>
    (request_execution_type r = ''ICEBERG'' \<and>
      (\<exists>v. request_iceberg_visible_quantity r = Some v \<and> 0 < v \<and> v \<le> request_quantity r))"
  by (auto simp: validate_order_execution_type_def plain_execution_types_def word_gt_0 not_less
    split: option.splits)

end
