(* ===== verification/Idempotency.thy ===== *)
theory Idempotency
  imports OrderTypes
begin

text \<open>
  Idempotency keys of order submission, services/oms-gateway/internal/idempotency/
  (idempotencyStore.go and reconciliation.go) in the in-memory mode. The first request to claim a
  key becomes its owner; every other request with the key waits on the entry's channel until the
  owner completes it or the wait times out. The channel is the entry's response: open while it is
  absent, closed once it is there. Closing it twice panics, which the model keeps as an outcome.
\<close>

section \<open>State and operations\<close>

type_synonym idempotency_store = "order_acknowledgement option table"

definition new_idempotency_store :: idempotency_store where
  "new_idempotency_store = []"

datatype claim_outcome = ThisCallOwns | WaitsForOwner

definition claim_key :: "string \<Rightarrow> idempotency_store \<Rightarrow> claim_outcome \<times> idempotency_store" where
  "claim_key key s =
    (if key = '''' then (ThisCallOwns, s)
     else case lookup s key of
       None \<Rightarrow> (ThisCallOwns, put key None s)
     | Some _ \<Rightarrow> (WaitsForOwner, s))"

definition timed_out_response :: order_acknowledgement where
  "timed_out_response = empty_acknowledgement\<lparr>
     ack_machine_readable_reason := ''IDEMPOTENCY_KEY_TIMED_OUT_WAITING_FOR_CONCURRENT_REQUEST'',
     ack_human_readable_reason := ''Another request with this idempotency key is still being processed '' @
       ''and did not complete in time. Do not blindly retry - check order status before resubmitting.''\<rparr>"

text \<open>
  The answers the \<open>select\<close> of a waiting request can give: the response once the channel is closed,
  the synthetic rejection once the wait has run out, either when both are ready, none before.
\<close>

definition await_answers :: "string \<Rightarrow> bool \<Rightarrow> idempotency_store \<Rightarrow> order_acknowledgement list" where
  "await_answers key timer_expired s =
    (case lookup s key of
       Some (Some response) \<Rightarrow> if timer_expired then [response, timed_out_response] else [response]
     | _ \<Rightarrow> if timer_expired then [timed_out_response] else [])"

datatype completion_outcome = CompletionDone | CompletionPanics

definition complete_claimed_key ::
    "string \<Rightarrow> order_acknowledgement \<Rightarrow> idempotency_store \<Rightarrow> completion_outcome \<times> idempotency_store" where
  "complete_claimed_key key response s =
    (if key = '''' then (CompletionDone, s)
     else case lookup s key of
       None \<Rightarrow> (CompletionDone, s)
     | Some entry \<Rightarrow>
         (if entry = None then CompletionDone else CompletionPanics, put key (Some response) s))"

datatype reconciliation = ReconcileUnknown | ReconcileInProgress | ReconcileCompleted order_acknowledgement

definition reconcile :: "string \<Rightarrow> idempotency_store \<Rightarrow> reconciliation" where
  "reconcile key s =
    (if key = '''' then ReconcileUnknown
     else case lookup s key of
       None \<Rightarrow> ReconcileUnknown
     | Some None \<Rightarrow> ReconcileInProgress
     | Some (Some response) \<Rightarrow> ReconcileCompleted response)"

section \<open>Concurrent submissions\<close>

text \<open>
  Requests with the same or different keys interleave. An owner that has not completed is at
  work; it completes once, as the handler does. What the requests were told is the log of answers:
  an owner's answer is its own response, a waiter's what \<open>select\<close> gave it.
\<close>

record submission_system =
  store :: idempotency_store
  owners_at_work :: "string multiset"
  waiting :: "string multiset"
  executions :: "(string \<times> order_acknowledgement) list"
  answers :: "(string \<times> order_acknowledgement) list"

inductive submission_step :: "submission_system \<Rightarrow> submission_system \<Rightarrow> bool" where
  request_owns: "key \<noteq> '''' \<Longrightarrow> claim_key key (store s) = (ThisCallOwns, st) \<Longrightarrow>
    submission_step s (s\<lparr>store := st, owners_at_work := add_mset key (owners_at_work s)\<rparr>)"
| request_waits: "claim_key key (store s) = (WaitsForOwner, st) \<Longrightarrow>
    submission_step s (s\<lparr>store := st, waiting := add_mset key (waiting s)\<rparr>)"
| owner_completes: "owners_at_work s = add_mset key W \<Longrightarrow>
    complete_claimed_key key response (store s) = (outcome, st) \<Longrightarrow>
    submission_step s (s\<lparr>store := st, owners_at_work := W,
      executions := executions s @ [(key, response)], answers := answers s @ [(key, response)]\<rparr>)"
| waiter_answered: "waiting s = add_mset key W \<Longrightarrow> r \<in> set (await_answers key timer_expired (store s)) \<Longrightarrow>
    submission_step s (s\<lparr>waiting := W, answers := answers s @ [(key, r)]\<rparr>)"

inductive_cases submission_stepE: "submission_step s t"

definition submission_init :: "submission_system \<Rightarrow> bool" where
  "submission_init s \<longleftrightarrow> store s = new_idempotency_store \<and> owners_at_work s = {#} \<and> waiting s = {#} \<and>
    executions s = [] \<and> answers s = []"

definition executions_of :: "submission_system \<Rightarrow> string \<Rightarrow> order_acknowledgement list" where
  "executions_of s key = map snd (filter (\<lambda>p. fst p = key) (executions s))"

text \<open>An unclaimed, an open and a closed entry: who works on it and what was executed for it.\<close>

definition entry_ok :: "order_acknowledgement option option \<Rightarrow> order_acknowledgement list \<Rightarrow> nat \<Rightarrow> bool" where
  "entry_ok e executed working = (case e of
     None \<Rightarrow> executed = [] \<and> working = 0
   | Some None \<Rightarrow> executed = [] \<and> working = 1
   | Some (Some r) \<Rightarrow> executed = [r] \<and> working = 0)"

definition submission_inv :: "submission_system \<Rightarrow> bool" where
  "submission_inv s \<longleftrightarrow>
    (\<forall>key. entry_ok (lookup (store s) key) (executions_of s key) (count (owners_at_work s) key)) \<and>
    (\<forall>(key, a) \<in> set (answers s). a = timed_out_response \<or> executions_of s key = [a]) \<and>
    '''' \<notin># owners_at_work s"

lemma executions_of_append [simp]:
  "executions_of (s\<lparr>store := st, owners_at_work := W, executions := executions s @ [(k, r)], answers := A\<rparr>) key =
    executions_of s key @ (if k = key then [r] else [])"
  by (simp add: executions_of_def)

lemma executions_of_same [simp]:
  "executions_of (s\<lparr>store := st, owners_at_work := W\<rparr>) key = executions_of s key"
  "executions_of (s\<lparr>store := st, waiting := V\<rparr>) key = executions_of s key"
  "executions_of (s\<lparr>waiting := V\<rparr>) key = executions_of s key"
  "executions_of (s\<lparr>waiting := V, answers := A\<rparr>) key = executions_of s key"
  by (simp_all add: executions_of_def)

lemma submission_inv_entry:
  assumes "submission_inv s"
  shows "lookup (store s) key = None \<Longrightarrow> executions_of s key = [] \<and> count (owners_at_work s) key = 0"
    and "lookup (store s) key = Some None \<Longrightarrow> executions_of s key = [] \<and> count (owners_at_work s) key = 1"
    and "lookup (store s) key = Some (Some r) \<Longrightarrow>
      executions_of s key = [r] \<and> count (owners_at_work s) key = 0"
proof -
  have "entry_ok (lookup (store s) key) (executions_of s key) (count (owners_at_work s) key)"
    using assms by (simp add: submission_inv_def)
  then show "lookup (store s) key = None \<Longrightarrow> executions_of s key = [] \<and> count (owners_at_work s) key = 0"
    and "lookup (store s) key = Some None \<Longrightarrow> executions_of s key = [] \<and> count (owners_at_work s) key = 1"
    and "lookup (store s) key = Some (Some r) \<Longrightarrow>
      executions_of s key = [r] \<and> count (owners_at_work s) key = 0"
    by (simp_all add: entry_ok_def)
qed

lemma submission_inv_init: "submission_init s \<Longrightarrow> submission_inv s"
  by (simp add: submission_init_def submission_inv_def new_idempotency_store_def executions_of_def
    entry_ok_def)

lemma claim_key_cases:
  "claim_key key st = (ThisCallOwns, st') \<Longrightarrow> key \<noteq> '''' \<Longrightarrow> lookup st key = None \<and> st' = put key None st"
  "claim_key key st = (WaitsForOwner, st') \<Longrightarrow> st' = st \<and> lookup st key \<noteq> None"
  by (auto simp: claim_key_def split: option.splits if_splits)

lemma submission_inv_owns:
  assumes "submission_inv s" and "key \<noteq> ''''" and "claim_key key (store s) = (ThisCallOwns, st)"
  shows "submission_inv (s\<lparr>store := st, owners_at_work := add_mset key (owners_at_work s)\<rparr>)"
proof -
  have st: "lookup (store s) key = None" "st = put key None (store s)"
    using claim_key_cases(1) [OF assms(3,2)] by simp_all
  with submission_inv_entry(1) [OF assms(1) st(1)] assms show ?thesis
    by (auto simp: submission_inv_def entry_ok_def)
qed

lemma submission_inv_completes:
  assumes "submission_inv s" and "owners_at_work s = add_mset key W"
    and "complete_claimed_key key response (store s) = (outcome, st)"
  shows "submission_inv (s\<lparr>store := st, owners_at_work := W,
      executions := executions s @ [(key, response)], answers := answers s @ [(key, response)]\<rparr>)"
    and "outcome = CompletionDone"
proof -
  have key: "key \<noteq> ''''"
    using assms(1,2) by (auto simp: submission_inv_def)
  have entry: "lookup (store s) key = Some None"
  proof (cases "lookup (store s) key")
    case None
    then show ?thesis using submission_inv_entry(1) [OF assms(1) None] assms(2) by simp
  next
    case (Some e)
    then show ?thesis
      using submission_inv_entry(3) [OF assms(1), of key] assms(2) by (cases e) auto
  qed
  note known = submission_inv_entry(2) [OF assms(1) entry]
  have st: "outcome = CompletionDone" "st = put key (Some response) (store s)"
    using assms(3) key entry by (auto simp: complete_claimed_key_def)
  have W: "count W key = 0" "k \<noteq> key \<Longrightarrow> count W k = count (owners_at_work s) k" for k
    using known assms(2) by auto
  have entries: "entry_ok (lookup st k) (executions_of s k @ (if key = k then [response] else [])) (count W k)" for k
  proof (cases "k = key")
    case True
    then show ?thesis using known W(1) by (simp add: st entry_ok_def)
  next
    case False
    then show ?thesis using assms(1) W(2) [of k] by (simp add: st submission_inv_def)
  qed
  have "a = timed_out_response \<or> executions_of s k @ (if key = k then [response] else []) = [a]"
    if "(k, a) \<in> set (answers s)" for k a
  proof (cases "k = key")
    case True
    with assms(1) that known show ?thesis by (fastforce simp: submission_inv_def)
  next
    case False
    with assms(1) that show ?thesis by (fastforce simp: submission_inv_def)
  qed
  then show "submission_inv (s\<lparr>store := st, owners_at_work := W,
      executions := executions s @ [(key, response)], answers := answers s @ [(key, response)]\<rparr>)"
    using assms(1,2) entries known by (auto simp: submission_inv_def)
  show "outcome = CompletionDone" by (rule st(1))
qed

lemma submission_inv_answered:
  assumes "submission_inv s" and "r \<in> set (await_answers key timer_expired (store s))"
  shows "submission_inv (s\<lparr>waiting := W, answers := answers s @ [(key, r)]\<rparr>)"
proof -
  have "r = timed_out_response \<or> executions_of s key = [r]"
    using assms(2) submission_inv_entry(3) [OF assms(1), of key]
    by (auto simp: await_answers_def split: option.splits if_splits)
  with assms(1) show ?thesis by (auto simp: submission_inv_def)
qed

lemma submission_inv_waiting: "submission_inv (s\<lparr>waiting := V\<rparr>) = submission_inv s"
  by (simp add: submission_inv_def)

lemma submission_inv_step:
  assumes "submission_inv s" and "submission_step s t"
  shows "submission_inv t"
  using assms(2)
proof (cases rule: submission_step.cases)
  case (request_waits key st)
  then have "t = s\<lparr>waiting := add_mset key (waiting s)\<rparr>"
    using claim_key_cases(2) [of key "store s" st] by simp
  with assms(1) show ?thesis by (simp add: submission_inv_waiting)
qed (use assms(1) in \<open>simp_all add: submission_inv_owns submission_inv_completes(1) submission_inv_answered\<close>)

interpretation submissions: invariant_system submission_init submission_step submission_inv
  by unfold_locales (auto intro: submission_inv_init submission_inv_step)

section \<open>Properties\<close>

text \<open>
  C9. A retried order is executed at most once, however the requests interleave: for every key at
  most one request did the work, every answer given for the key is that one execution's response
  or the synthetic timeout rejection, and completing a claim never closes its channel twice.
\<close>

theorem submission_executed_once:
  assumes "reachable_by submission_init submission_step s"
  shows "length (executions_of s key) \<le> 1
    \<and> ((key, a) \<in> set (answers s) \<longrightarrow> a = timed_out_response \<or> executions_of s key = [a])
    \<and> (key \<in># owners_at_work s \<longrightarrow>
        executions_of s key = [] \<and> fst (complete_claimed_key key a (store s)) = CompletionDone)"
proof -
  have inv: "submission_inv s" by (rule submissions.inv_reachable [OF assms])
  have "length (executions_of s key) \<le> 1 \<and> (0 < count (owners_at_work s) key \<longrightarrow> executions_of s key = [])"
    using submission_inv_entry [OF inv, of key] by (cases "lookup (store s) key"; cases "the (lookup (store s) key)") auto
  moreover have "fst (complete_claimed_key key a (store s)) = CompletionDone" if mem: "key \<in># owners_at_work s"
  proof -
    obtain W where W: "owners_at_work s = add_mset key W"
      using multi_member_split [OF mem] by blast
    obtain outcome st where o: "complete_claimed_key key a (store s) = (outcome, st)" by fastforce
    show ?thesis using submission_inv_completes(2) [OF inv W o] o by simp
  qed
  moreover have "(key, a) \<in> set (answers s) \<Longrightarrow> a = timed_out_response \<or> executions_of s key = [a]"
    using inv unfolding submission_inv_def by blast
  ultimately show ?thesis by (simp add: count_greater_zero_iff)
qed

definition demo_response :: order_acknowledgement where
  "demo_response = empty_acknowledgement\<lparr>ack_was_accepted := True\<rparr>"

definition demo_submissions :: submission_system where
  "demo_submissions = \<lparr>store = [(''k'', Some demo_response)], owners_at_work = {#}, waiting = {#''k''#},
     executions = [(''k'', demo_response)], answers = [(''k'', demo_response)]\<rparr>"

lemma demo_submissions_reachable:
  "reachable_by submission_init submission_step demo_submissions"
proof -
  let ?s = "\<lambda>st W V E. \<lparr>store = st, owners_at_work = W, waiting = V, executions = E, answers = E\<rparr>"
  let ?reach = "reachable_by submission_init submission_step"
  have "?reach (?s [] {#} {#} [])"
    by (rule reachable_init) (simp add: submission_init_def new_idempotency_store_def)
  then have "?reach (?s [(''k'', None)] {#''k''#} {#} [])"
    by (rule reachable_step)
      (use request_owns [of "''k''" "?s [] {#} {#} []"] in \<open>simp add: claim_key_def\<close>)
  then have "?reach (?s [(''k'', None)] {#''k''#} {#''k''#} [])"
    by (rule reachable_step)
      (use request_waits [of "''k''" "?s [(''k'', None)] {#''k''#} {#} []"] in \<open>simp add: claim_key_def\<close>)
  then show ?thesis
    unfolding demo_submissions_def
    by (rule reachable_step)
      (use owner_completes [of "?s [(''k'', None)] {#''k''#} {#''k''#} []" "''k''" "{#}" demo_response] in
        \<open>simp add: complete_claimed_key_def\<close>)
qed

lemma submission_executed_once_witness:
  "executions_of demo_submissions ''k'' = [demo_response]"
  using submission_executed_once [OF demo_submissions_reachable, of "''k''" demo_response]
  by (simp add: demo_submissions_def demo_response_def timed_out_response_def empty_acknowledgement_def)

end
