(* ===== verification/GatewayServices.thy ===== *)
theory GatewayServices
  imports OrderTypes
begin

text \<open>
  The small services that the order pipeline of the gateway shares, each under
  services/oms-gateway/internal/: the sequence allocator (sequencing), the market session and its
  phase rules (marketsession), the queue of after-market orders (amoqueue) and the audit trail
  (audittrail, in-memory mode).
\<close>

section \<open>Sequence numbers\<close>

type_synonym sequence_allocator = uint64

definition new_sequence_allocator :: sequence_allocator where
  "new_sequence_allocator = 0"

definition allocate_next_sequence_number :: "sequence_allocator \<Rightarrow> uint64 \<times> sequence_allocator" where
  "allocate_next_sequence_number n = (n + 1, n + 1)"

fun allocate_many :: "nat \<Rightarrow> sequence_allocator \<Rightarrow> uint64 list" where
  "allocate_many 0 n = []"
| "allocate_many (Suc k) n = (case allocate_next_sequence_number n of (x, n') \<Rightarrow> x # allocate_many k n')"

lemma allocate_many_eq: "allocate_many k n = map (\<lambda>i. n + of_nat (Suc i)) [0..<k]"
proof (induction k arbitrary: n)
  case (Suc k)
  have "[0..<Suc k] = 0 # map Suc [0..<k]"
    by (simp add: upt_conv_Cons map_Suc_upt del: upt_Suc)
  with Suc show ?case
    by (simp add: allocate_next_sequence_number_def comp_def add.assoc del: upt_Suc)
qed simp

lemma allocate_many_distinct:
  assumes "k < 2 ^ 64"
  shows "distinct (allocate_many k n)"
proof -
  have "inj_on (\<lambda>i. n + of_nat (Suc i) :: uint64) {0..<k}"
  proof (rule inj_onI)
    fix i j
    assume ij: "i \<in> {0..<k}" "j \<in> {0..<k}" "n + of_nat (Suc i) = (n + of_nat (Suc j) :: uint64)"
    then have "(of_nat (Suc i) :: uint64) = of_nat (Suc j)" by simp
    moreover have "Suc i < 2 ^ 64" "Suc j < 2 ^ 64"
      using ij assms by simp_all
    ultimately show "i = j"
      by (simp add: word_of_nat_eq_iff take_bit_nat_eq_self del: of_nat_Suc)
  qed
  then show ?thesis
    unfolding allocate_many_eq distinct_map by simp
qed

section \<open>The market session\<close>

datatype session_error = OnlyLimitOrdersInPreMarket | OnlyLimitOrdersInPostMarket | UnknownSessionPhase

record market_session =
  session_is_open :: bool
  session_phase :: string

definition new_market_session :: market_session where
  "new_market_session = \<lparr>session_is_open = False, session_phase = ''''\<rparr>"

definition is_market_open :: "market_session \<Rightarrow> bool" where
  "is_market_open m = session_is_open m"

definition set_market_open :: "bool \<Rightarrow> market_session \<Rightarrow> market_session" where
  "set_market_open b m = m\<lparr>session_is_open := b\<rparr>"

definition session_phases :: "string list" where
  "session_phases = [''CLOSED'', ''PRE_MARKET'', ''REGULAR'', ''POST_MARKET'']"

definition set_session_phase :: "string \<Rightarrow> market_session \<Rightarrow> session_error + market_session" where
  "set_session_phase p m =
    (if p \<in> set session_phases then Inr (m\<lparr>session_phase := p\<rparr>) else Inl UnknownSessionPhase)"

definition current_session_phase :: "market_session \<Rightarrow> string" where
  "current_session_phase m = (if session_phase m = '''' then ''CLOSED'' else session_phase m)"

record order_shape =
  shape_is_market :: bool
  shape_is_stop_loss :: bool
  shape_execution_type :: string

definition is_plain_limit_order :: "order_shape \<Rightarrow> bool" where
  "is_plain_limit_order s =
    (if shape_is_market s \<or> shape_is_stop_loss s then False
     else shape_execution_type s = '''' \<or> shape_execution_type s = ''LIMIT'')"

definition validate_order_against_session_phase ::
    "string \<Rightarrow> order_shape \<Rightarrow> bool \<Rightarrow> session_error option" where
  "validate_order_against_session_phase p s is_after_market =
    (if p = ''REGULAR'' \<or> p = ''CLOSED'' then None
     else if p = ''PRE_MARKET'' then
       (if is_plain_limit_order s then None else Some OnlyLimitOrdersInPreMarket)
     else if p = ''POST_MARKET'' then
       (if is_plain_limit_order s then None else Some OnlyLimitOrdersInPostMarket)
     else Some UnknownSessionPhase)"

text \<open>A session only ever holds one of the four phases or none, so the rules never meet an unknown one.\<close>

definition session_ok :: "market_session \<Rightarrow> bool" where
  "session_ok m \<longleftrightarrow> session_phase m \<in> set ('''' # session_phases)"

lemma session_ok_new: "session_ok new_market_session"
  by (simp add: session_ok_def new_market_session_def)

lemma session_ok_set_phase: "session_ok m \<Longrightarrow> set_session_phase p m = Inr m' \<Longrightarrow> session_ok m'"
  by (auto simp: session_ok_def set_session_phase_def split: if_splits)

lemma session_ok_set_open: "session_ok m \<Longrightarrow> session_ok (set_market_open b m)"
  by (simp add: session_ok_def set_market_open_def)

lemma validate_session_phase_ok:
  "session_ok m \<Longrightarrow> validate_order_against_session_phase (current_session_phase m) s amo = None \<longleftrightarrow>
    session_phase m \<notin> {''PRE_MARKET'', ''POST_MARKET''} \<or> is_plain_limit_order s"
  by (auto simp: session_ok_def session_phases_def validate_order_against_session_phase_def
    current_session_phase_def)

section \<open>After-market orders\<close>

type_synonym after_market_queue = "order_submission_request list"

definition new_after_market_queue :: after_market_queue where
  "new_after_market_queue = []"

definition enqueue :: "order_submission_request \<Rightarrow> after_market_queue \<Rightarrow> after_market_queue" where
  "enqueue r q = q @ [r]"

definition queued_count :: "after_market_queue \<Rightarrow> nat" where
  "queued_count q = length q"

definition drain_all :: "after_market_queue \<Rightarrow> order_submission_request list \<times> after_market_queue" where
  "drain_all q = (q, [])"

lemma drain_in_order: "drain_all (foldl (\<lambda>q r. enqueue r q) new_after_market_queue rs) = (rs, [])"
proof -
  have "foldl (\<lambda>q r. enqueue r q) q rs = q @ rs" for q
    by (induction rs arbitrary: q) (simp_all add: enqueue_def)
  then show ?thesis by (simp add: drain_all_def new_after_market_queue_def)
qed

section \<open>The audit trail\<close>

datatype audit_event =
    EventOrderSubmitted | EventOrderRejected | EventOrderMatchingEngineFailure | EventOrderFilled
  | EventOrderCancelled | EventOrderCancelFailed | EventCoverProtectiveLegPlaced
  | EventCoverProtectiveLegFailed | EventAfterMarketOrderQueued | EventMarketSessionOpened
  | EventMarketSessionClosed | EventPaperOrderFilled | EventPaperOrderSimulationFailed
  | EventStrategyLimitRejected | EventOrderRoutedToMatchingEngine
  | EventSettlementFailedPositionNotApplied

record audit_entry =
  audit_recorded_at :: instant
  audit_event :: audit_event
  audit_account :: string
  audit_instrument :: string
  audit_matching_engine_sequence :: uint64
  audit_detail :: string
  audit_actor :: string
  audit_is_buy :: "bool option"
  audit_quantity :: uint64
  audit_limit_price :: int64
  audit_is_market :: bool
  audit_buying_account :: string
  audit_selling_account :: string
  audit_executed_price :: int64
  audit_executed_quantity :: uint64

type_synonym audit_trail = "audit_entry list"

definition append_audit_entry :: "instant \<Rightarrow> audit_entry \<Rightarrow> audit_trail \<Rightarrow> audit_trail" where
  "append_audit_entry now e t = t @ [e\<lparr>audit_recorded_at := now\<rparr>]"

definition all_audit_entries :: "audit_trail \<Rightarrow> audit_entry list" where
  "all_audit_entries t = t"

definition audit_entries_for_account :: "string \<Rightarrow> audit_trail \<Rightarrow> audit_entry list" where
  "audit_entries_for_account a t = filter (\<lambda>e. audit_account e = a) t"

lemma audit_append_only:
  "audit_entries_for_account a (append_audit_entry now e t) =
    audit_entries_for_account a t @ (if audit_account e = a then [e\<lparr>audit_recorded_at := now\<rparr>] else [])"
  by (simp add: audit_entries_for_account_def append_audit_entry_def)

end
