(* ===== verification/SessionStore.thy ===== *)
theory SessionStore
  imports Prelude
begin

text \<open>
  Refresh tokens with rotation and reuse detection,
  services/auth/internal/sessionstore/sessionStore.go. \<open>RotateRefreshToken\<close> consumes the presented
  token under the mutex, releases it, and issues the replacement under the mutex again;
  \<open>rotate_refresh_token\<close> is the call run on its own, \<open>session_step\<close> its critical sections
  interleaved with other calls. Random tokens and family identifiers are arguments, absent when
  the random source fails.
\<close>

section \<open>State and operations\<close>

datatype refresh_token_state = TokenActive | TokenConsumed | TokenRevoked

record refresh_token_record =
  token_account :: string
  token_family :: string
  token_state :: refresh_token_state
  token_expires_at :: instant

record session_store =
  records_by_token :: "refresh_token_record table"
  refresh_token_lifetime :: duration

datatype refresh_error = RefreshTokenNotFound | RefreshTokenExpired | TokenGenerationFailed

definition new_session_store :: "duration \<Rightarrow> session_store" where
  "new_session_store l = \<lparr>records_by_token = [], refresh_token_lifetime = l\<rparr>"

definition issue_token_in_family ::
    "string \<Rightarrow> string \<Rightarrow> instant \<Rightarrow> string option \<Rightarrow> session_store \<Rightarrow> refresh_error + string \<times> session_store" where
  "issue_token_in_family a f issued_at new_token s = (case new_token of
     None \<Rightarrow> Inl TokenGenerationFailed
   | Some tok \<Rightarrow> Inr (tok, s\<lparr>records_by_token := put tok
       \<lparr>token_account = a, token_family = f, token_state = TokenActive,
        token_expires_at = time_add issued_at (refresh_token_lifetime s)\<rparr> (records_by_token s)\<rparr>))"

definition issue_new_session_family ::
    "string \<Rightarrow> instant \<Rightarrow> string option \<Rightarrow> string option \<Rightarrow> session_store \<Rightarrow>
      refresh_error + string \<times> session_store" where
  "issue_new_session_family a issued_at new_family new_token s = (case new_family of
     None \<Rightarrow> Inl TokenGenerationFailed
   | Some f \<Rightarrow> issue_token_in_family a f issued_at new_token s)"

definition revoke_record :: "string \<Rightarrow> refresh_token_record \<Rightarrow> refresh_token_record" where
  "revoke_record f r = (if token_family r = f then r\<lparr>token_state := TokenRevoked\<rparr> else r)"

definition revoke_family :: "string \<Rightarrow> session_store \<Rightarrow> session_store" where
  "revoke_family f s =
    s\<lparr>records_by_token := map (\<lambda>(k, r). (k, revoke_record f r)) (records_by_token s)\<rparr>"

datatype rotation_begin =
    RotationFails refresh_error
  | ReuseDetected string session_store
  | TokenTaken string string session_store

definition begin_rotation :: "string \<Rightarrow> instant \<Rightarrow> session_store \<Rightarrow> rotation_begin" where
  "begin_rotation presented now s = (case lookup (records_by_token s) presented of
     None \<Rightarrow> RotationFails RefreshTokenNotFound
   | Some r \<Rightarrow>
       if token_state r = TokenRevoked then RotationFails RefreshTokenNotFound
       else if token_state r = TokenConsumed
       then ReuseDetected (token_account r) (revoke_family (token_family r) s)
       else if time_after now (token_expires_at r) then RotationFails RefreshTokenExpired
       else TokenTaken (token_account r) (token_family r) (s\<lparr>records_by_token :=
         put presented (r\<lparr>token_state := TokenConsumed\<rparr>) (records_by_token s)\<rparr>))"

record rotation_result =
  result_account :: string
  new_refresh_token :: string
  was_reuse_detected :: bool

definition rotate_refresh_token ::
    "string \<Rightarrow> instant \<Rightarrow> string option \<Rightarrow> session_store \<Rightarrow>
      (refresh_error + rotation_result) \<times> session_store" where
  "rotate_refresh_token presented now new_token s = (case begin_rotation presented now s of
     RotationFails err \<Rightarrow> (Inl err, s)
   | ReuseDetected a s' \<Rightarrow>
       (Inr \<lparr>result_account = a, new_refresh_token = '''', was_reuse_detected = True\<rparr>, s')
   | TokenTaken a f s' \<Rightarrow>
       (case issue_token_in_family a f now new_token s' of
          Inl err \<Rightarrow> (Inl err, s')
        | Inr (tok, s'') \<Rightarrow>
            (Inr \<lparr>result_account = a, new_refresh_token = tok, was_reuse_detected = False\<rparr>, s'')))"

definition revoke_refresh_token :: "string \<Rightarrow> session_store \<Rightarrow> refresh_error + session_store" where
  "revoke_refresh_token tok s = (case lookup (records_by_token s) tok of
     None \<Rightarrow> Inl RefreshTokenNotFound
   | Some r \<Rightarrow> Inr (revoke_family (token_family r) s))"

section \<open>Interleaved calls\<close>

text \<open>
  A rotation in flight has consumed its token and not issued the replacement yet: its account,
  family and time.
\<close>

record session_system =
  sessions :: session_store
  rotating :: "(string \<times> string \<times> instant) multiset"

definition family_unused :: "string \<Rightarrow> session_system \<Rightarrow> bool" where
  "family_unused f s \<longleftrightarrow> (\<forall>p \<in> set (records_by_token (sessions s)). token_family (snd p) \<noteq> f) \<and>
    (\<forall>p \<in># rotating s. fst (snd p) \<noteq> f)"

inductive session_step :: "session_system \<Rightarrow> session_system \<Rightarrow> bool" where
  login: "family_unused f s \<Longrightarrow> lookup (records_by_token (sessions s)) tok = None \<Longrightarrow>
    issue_new_session_family a now (Some f) (Some tok) (sessions s) = Inr (tok, st) \<Longrightarrow>
    session_step s (s\<lparr>sessions := st\<rparr>)"
| rotation_takes: "begin_rotation presented now (sessions s) = TokenTaken a f st \<Longrightarrow>
    session_step s (s\<lparr>sessions := st, rotating := add_mset (a, f, now) (rotating s)\<rparr>)"
| rotation_reuse: "begin_rotation presented now (sessions s) = ReuseDetected a st \<Longrightarrow>
    session_step s (s\<lparr>sessions := st\<rparr>)"
| rotation_issues: "rotating s = add_mset (a, f, now) R \<Longrightarrow>
    lookup (records_by_token (sessions s)) tok = None \<Longrightarrow>
    issue_token_in_family a f now (Some tok) (sessions s) = Inr (tok, st) \<Longrightarrow>
    session_step s (s\<lparr>sessions := st, rotating := R\<rparr>)"
| rotation_cannot_issue: "rotating s = add_mset (a, f, now) R \<Longrightarrow>
    session_step s (s\<lparr>rotating := R\<rparr>)"
| logout: "revoke_refresh_token tok (sessions s) = Inr st \<Longrightarrow> session_step s (s\<lparr>sessions := st\<rparr>)"

definition session_init :: "session_system \<Rightarrow> bool" where
  "session_init s \<longleftrightarrow> records_by_token (sessions s) = [] \<and> rotating s = {#}"

text \<open>The live tokens of a family: its active tokens and the replacements still to be issued.\<close>

definition active_in_family :: "session_store \<Rightarrow> string \<Rightarrow> int" where
  "active_in_family s f = table_sum (\<lambda>k r.
     if token_family r = f \<and> token_state r = TokenActive then 1 else 0) (records_by_token s)"

definition rotating_in_family :: "(string \<times> string \<times> instant) multiset \<Rightarrow> string \<Rightarrow> int" where
  "rotating_in_family R f = int (size (filter_mset (\<lambda>p. fst (snd p) = f) R))"

definition session_inv :: "session_system \<Rightarrow> bool" where
  "session_inv s \<longleftrightarrow> table_ok (records_by_token (sessions s)) \<and>
    (\<forall>f. active_in_family (sessions s) f + rotating_in_family (rotating s) f \<le> 1)"

lemma rotating_in_family_simps [simp]:
  "rotating_in_family {#} f = 0"
  "rotating_in_family (add_mset p R) f = (if fst (snd p) = f then 1 else 0) + rotating_in_family R f"
  by (simp_all add: rotating_in_family_def)

lemma active_in_family_put:
  assumes "table_ok (records_by_token s)"
  shows "active_in_family (s\<lparr>records_by_token := put tok r (records_by_token s)\<rparr>) f =
    active_in_family s f + (if token_family r = f \<and> token_state r = TokenActive then 1 else 0)
    - (case lookup (records_by_token s) tok of None \<Rightarrow> 0
       | Some r' \<Rightarrow> if token_family r' = f \<and> token_state r' = TokenActive then 1 else 0)"
  by (simp add: active_in_family_def table_sum_put [OF assms])

lemma active_after_revoke:
  "active_in_family (revoke_family g s) f = (if f = g then 0 else active_in_family s f)"
proof -
  have "table_sum (\<lambda>k r. if token_family r = f \<and> token_state r = TokenActive then 1 else (0 :: int))
      (map (\<lambda>(k, r). (k, revoke_record g r)) t) =
    (if f = g then 0 else table_sum (\<lambda>k r. if token_family r = f \<and> token_state r = TokenActive
      then 1 else 0) t)" for t
    by (induction t) (auto simp: revoke_record_def)
  from this [of "records_by_token s"] show ?thesis
    by (cases "f = g") (simp_all add: active_in_family_def revoke_family_def)
qed

lemma active_nonneg: "0 \<le> active_in_family s f"
  unfolding active_in_family_def table_sum_def by (intro sum_list_nonneg) (auto split: if_splits)

lemma table_ok_revoke: "table_ok (records_by_token (revoke_family f s)) = table_ok (records_by_token s)"
  by (simp add: revoke_family_def table_ok_def comp_def case_prod_unfold)

lemma active_unused:
  assumes "family_unused f s"
  shows "active_in_family (sessions s) f = 0" and "rotating_in_family (rotating s) f = 0"
proof -
  have "(\<forall>p \<in> set t. token_family (snd p) \<noteq> f) \<Longrightarrow> table_sum (\<lambda>k r.
      if token_family r = f \<and> token_state r = TokenActive then 1 else 0) t = (0 :: int)"
    for t :: "refresh_token_record table"
    by (induction t) auto
  with assms show "active_in_family (sessions s) f = 0"
    by (simp add: active_in_family_def family_unused_def)
  have "(\<forall>p \<in># R. fst (snd p) \<noteq> f) \<Longrightarrow> rotating_in_family R f = 0" for R
    by (induction R) auto
  with assms show "rotating_in_family (rotating s) f = 0"
    by (simp add: family_unused_def)
qed

lemma begin_rotation_taken:
  "begin_rotation presented now s = TokenTaken a f st \<longleftrightarrow>
    (\<exists>r. lookup (records_by_token s) presented = Some r \<and> token_state r = TokenActive \<and>
      now \<le> token_expires_at r \<and> a = token_account r \<and> f = token_family r \<and>
      st = s\<lparr>records_by_token :=
        put presented (r\<lparr>token_state := TokenConsumed\<rparr>) (records_by_token s)\<rparr>)"
  using refresh_token_state.exhaust
  by (auto simp: begin_rotation_def time_after_def split: option.splits)

lemma begin_rotation_reuse:
  "begin_rotation presented now s = ReuseDetected a st \<longleftrightarrow>
    (\<exists>r. lookup (records_by_token s) presented = Some r \<and> token_state r = TokenConsumed \<and>
      a = token_account r \<and> st = revoke_family (token_family r) s)"
  by (auto simp: begin_rotation_def split: option.splits)

lemma issue_Inr:
  "issue_token_in_family a f now (Some tok) s = Inr (tok, st) \<longleftrightarrow>
    st = s\<lparr>records_by_token := put tok \<lparr>token_account = a, token_family = f, token_state = TokenActive,
      token_expires_at = time_add now (refresh_token_lifetime s)\<rparr> (records_by_token s)\<rparr>"
  by (auto simp: issue_token_in_family_def)

lemma session_inv_init: "session_init s \<Longrightarrow> session_inv s"
  by (simp add: session_init_def session_inv_def active_in_family_def)

lemma session_inv_login:
  assumes "session_inv s" and "family_unused f s" and "lookup (records_by_token (sessions s)) tok = None"
    and "issue_new_session_family a now (Some f) (Some tok) (sessions s) = Inr (tok, st)"
  shows "session_inv (s\<lparr>sessions := st\<rparr>)"
  using assms active_unused [OF assms(2)]
  by (auto simp: session_inv_def issue_new_session_family_def issue_Inr active_in_family_put)

lemma session_inv_takes:
  assumes "session_inv s" and "begin_rotation presented now (sessions s) = TokenTaken a f st"
  shows "session_inv (s\<lparr>sessions := st, rotating := add_mset (a, f, now) (rotating s)\<rparr>)"
proof -
  have "active_in_family st g + rotating_in_family (add_mset (a, f, now) (rotating s)) g =
      active_in_family (sessions s) g + rotating_in_family (rotating s) g" for g
    using assms by (auto simp: session_inv_def begin_rotation_taken active_in_family_put)
  moreover have "table_ok (records_by_token st)"
    using assms by (auto simp: session_inv_def begin_rotation_taken)
  ultimately show ?thesis
    using assms(1) unfolding session_inv_def by (simp del: rotating_in_family_simps)
qed

lemma session_inv_revoke:
  assumes "session_inv s"
  shows "session_inv (s\<lparr>sessions := revoke_family f (sessions s)\<rparr>)"
proof -
  have "active_in_family (revoke_family f (sessions s)) g \<le> active_in_family (sessions s) g" for g
    using active_nonneg [of "sessions s" g] by (auto simp: active_after_revoke)
  with assms show ?thesis
    by (force simp: session_inv_def table_ok_revoke intro: order_trans [OF add_right_mono])
qed

lemma session_inv_issues:
  assumes "session_inv s" and "rotating s = add_mset (a, f, now) R"
    and "lookup (records_by_token (sessions s)) tok = None"
    and "issue_token_in_family a f now (Some tok) (sessions s) = Inr (tok, st)"
  shows "session_inv (s\<lparr>sessions := st, rotating := R\<rparr>)"
proof -
  have "active_in_family st g + rotating_in_family R g =
      active_in_family (sessions s) g + rotating_in_family (rotating s) g" for g
    using assms by (simp add: session_inv_def issue_Inr active_in_family_put)
  moreover have "table_ok (records_by_token st)"
    using assms by (simp add: session_inv_def issue_Inr)
  ultimately show ?thesis using assms(1) by (simp add: session_inv_def)
qed

lemma session_inv_cannot_issue:
  assumes "session_inv s" and "rotating s = add_mset p R"
  shows "session_inv (s\<lparr>rotating := R\<rparr>)"
proof -
  have "rotating_in_family R g \<le> rotating_in_family (rotating s) g" for g
    by (simp add: assms(2))
  with assms(1) show ?thesis
    by (force simp: session_inv_def intro: order_trans [OF add_left_mono])
qed

lemma session_inv_step: "session_inv s \<Longrightarrow> session_step s t \<Longrightarrow> session_inv t"
  by (erule session_step.cases)
    (auto simp: session_inv_login session_inv_takes session_inv_revoke session_inv_issues
      session_inv_cannot_issue begin_rotation_reuse revoke_refresh_token_def split: option.splits)

interpretation session: invariant_system session_init session_step session_inv
  by unfold_locales (auto intro: session_inv_init session_inv_step)

section \<open>Properties\<close>

text \<open>
  C10. A login session never has two usable refresh tokens: in every state that logins, rotations and
  logouts reach, however their critical sections interleave, a family has at most one active
  token, and none while the replacement of its last one is being issued.
\<close>

theorem one_active_token_per_family:
  assumes "reachable_by session_init session_step s"
  shows "active_in_family (sessions s) f \<le> 1
    \<and> (rotating_in_family (rotating s) f \<noteq> 0 \<longrightarrow> active_in_family (sessions s) f = 0)"
proof -
  have "active_in_family (sessions s) f + rotating_in_family (rotating s) f \<le> 1"
    using session.inv_reachable [OF assms] by (simp add: session_inv_def)
  moreover have "0 \<le> rotating_in_family (rotating s) f"
    by (simp add: rotating_in_family_def)
  ultimately show ?thesis using active_nonneg [of "sessions s" f] by linarith
qed

definition demo_session :: "refresh_token_record table \<Rightarrow> session_store" where
  "demo_session t = \<lparr>records_by_token = t, refresh_token_lifetime = 100\<rparr>"

definition demo_token :: "refresh_token_state \<Rightarrow> refresh_token_record" where
  "demo_token st = \<lparr>token_account = ''a'', token_family = ''fam'', token_state = st, token_expires_at = 100\<rparr>"

lemma demo_rotation_reachable:
  "reachable_by session_init session_step
     \<lparr>sessions = demo_session [(''t1'', demo_token TokenConsumed)], rotating = {#(''a'', ''fam'', 5)#}\<rparr>"
proof -
  let ?reach = "reachable_by session_init session_step"
  let ?start = "\<lparr>sessions = demo_session [], rotating = {#}\<rparr>"
  let ?in = "\<lparr>sessions = demo_session [(''t1'', demo_token TokenActive)], rotating = {#}\<rparr>"
  have "?reach ?start"
    by (rule reachable_init) (simp add: session_init_def demo_session_def)
  then have "?reach ?in"
    by (rule reachable_step)
      (use login [of "''fam''" ?start "''t1''" "''a''" 0] in \<open>simp add: family_unused_def
        issue_new_session_family_def issue_token_in_family_def demo_session_def demo_token_def time_add_def\<close>)
  then show ?thesis
    by (rule reachable_step)
      (use rotation_takes [of "''t1''" 5 ?in] in \<open>simp add: begin_rotation_def demo_session_def
        demo_token_def time_after_def\<close>)
qed

lemma one_active_token_per_family_witness:
  "active_in_family (demo_session [(''t1'', demo_token TokenConsumed)]) ''fam'' = 0"
  using one_active_token_per_family [OF demo_rotation_reachable, of "''fam''"] by simp

text \<open>
  Reuse detection can miss a rotation in flight. After a token has been taken and before its
  replacement is issued, presenting it again is detected as reuse and the whole family is
  revoked; the rotation then issues an active token in that family, which can be rotated on.
\<close>

theorem token_issued_in_revoked_family:
  "\<exists>s t u. reachable_by session_init session_step s
     \<and> begin_rotation ''t1'' 6 (sessions s) = ReuseDetected ''a'' (sessions t)
     \<and> session_step s t \<and> session_step t u
     \<and> map (token_state \<circ> snd) (records_by_token (sessions t)) = [TokenRevoked]
     \<and> active_in_family (sessions u) ''fam'' = 1
     \<and> (\<exists>r st. rotate_refresh_token ''t2'' 7 (Some ''t3'') (sessions u) = (Inr r, st) \<and>
          new_refresh_token r = ''t3'' \<and> \<not> was_reuse_detected r)"
proof -
  let ?s = "\<lparr>sessions = demo_session [(''t1'', demo_token TokenConsumed)], rotating = {#(''a'', ''fam'', 5)#}\<rparr>"
  let ?t = "\<lparr>sessions = demo_session [(''t1'', demo_token TokenRevoked)], rotating = {#(''a'', ''fam'', 5)#}\<rparr>"
  let ?u = "\<lparr>sessions = demo_session [(''t1'', demo_token TokenRevoked),
      (''t2'', (demo_token TokenActive)\<lparr>token_expires_at := 105\<rparr>)], rotating = {#}\<rparr>"
  have reuse: "begin_rotation ''t1'' 6 (sessions ?s) = ReuseDetected ''a'' (sessions ?t)"
    by (simp add: begin_rotation_def revoke_family_def revoke_record_def demo_session_def demo_token_def)
  have st: "session_step ?s ?t"
    using rotation_reuse [OF reuse] by simp
  have tu: "session_step ?t ?u"
    using rotation_issues [of ?t "''a''" "''fam''" 5 "{#}" "''t2''"]
    by (simp add: issue_token_in_family_def demo_session_def demo_token_def time_add_def)
  have rotates: "\<exists>r st. rotate_refresh_token ''t2'' 7 (Some ''t3'') (sessions ?u) = (Inr r, st) \<and>
      new_refresh_token r = ''t3'' \<and> \<not> was_reuse_detected r"
    by (simp add: rotate_refresh_token_def begin_rotation_def issue_token_in_family_def demo_session_def
      demo_token_def time_after_def)
  have revoked: "map (token_state \<circ> snd) (records_by_token (sessions ?t)) = [TokenRevoked]"
    by (simp add: demo_session_def demo_token_def)
  have active: "active_in_family (sessions ?u) ''fam'' = 1"
    by (simp add: active_in_family_def demo_session_def demo_token_def)
  show ?thesis
    by (intro exI [of _ ?s] exI [of _ ?t] exI [of _ ?u] conjI)
      (fact demo_rotation_reachable reuse st tu revoked active rotates)+
qed

end
