(* ===== verification/KillSwitch.thy ===== *)
theory KillSwitch
  imports Prelude
begin

text \<open>
  The kill switch of the order gateway,
  services/oms-gateway/internal/connectivitykillswitch/killSwitch.go: a manual flag set and cleared by
  an administrator, and an automatic flag driven by a counter of consecutive connectivity failures.
  The time that \<open>EngageManually\<close> reads from the clock is an argument.
\<close>

section \<open>State and operations\<close>

record kill_switch =
  is_manually_engaged :: bool
  manual_engagement_reason :: string
  manual_engaged_at :: "instant option"
  is_auto_engaged :: bool
  connectivity_failure_count :: int64
  failure_threshold :: int64

definition new_kill_switch :: "int64 \<Rightarrow> kill_switch" where
  "new_kill_switch threshold = \<lparr>is_manually_engaged = False, manual_engagement_reason = '''',
     manual_engaged_at = None, is_auto_engaged = False, connectivity_failure_count = 0,
     failure_threshold = threshold\<rparr>"

definition engage_manually :: "string \<Rightarrow> instant \<Rightarrow> kill_switch \<Rightarrow> kill_switch" where
  "engage_manually reason now k = k\<lparr>is_manually_engaged := True, manual_engagement_reason := reason,
     manual_engaged_at := Some now\<rparr>"

definition disengage_manually :: "kill_switch \<Rightarrow> kill_switch" where
  "disengage_manually k = k\<lparr>is_manually_engaged := False, manual_engagement_reason := '''',
     manual_engaged_at := None\<rparr>"

definition record_connectivity_check :: "bool \<Rightarrow> kill_switch \<Rightarrow> bool \<times> kill_switch" where
  "record_connectivity_check succeeded k =
    (if succeeded then (False, k\<lparr>connectivity_failure_count := 0, is_auto_engaged := False\<rparr>)
     else let k1 = k\<lparr>connectivity_failure_count := connectivity_failure_count k + 1\<rparr>
       in if 0 <s failure_threshold k1 \<and> failure_threshold k1 \<le>s connectivity_failure_count k1
          then (\<not> is_auto_engaged k1, k1\<lparr>is_auto_engaged := True\<rparr>)
          else (False, k1))"

definition is_trading_halted :: "kill_switch \<Rightarrow> bool" where
  "is_trading_halted k = (is_manually_engaged k \<or> is_auto_engaged k)"

record kill_switch_status =
  status_is_trading_halted :: bool
  status_is_manually_engaged :: bool
  status_manual_reason :: string
  status_manual_engaged_at :: "instant option"
  status_is_auto_engaged :: bool
  status_failure_count :: int64
  status_failure_threshold :: int64

definition current_status :: "kill_switch \<Rightarrow> kill_switch_status" where
  "current_status k = \<lparr>status_is_trading_halted = (is_manually_engaged k \<or> is_auto_engaged k),
     status_is_manually_engaged = is_manually_engaged k,
     status_manual_reason = manual_engagement_reason k,
     status_manual_engaged_at = manual_engaged_at k,
     status_is_auto_engaged = is_auto_engaged k,
     status_failure_count = connectivity_failure_count k,
     status_failure_threshold = failure_threshold k\<rparr>"

section \<open>Histories\<close>

text \<open>What can happen to the switch, oldest event first.\<close>

datatype switch_event = ManualEngage string instant | ManualDisengage | ConnectivityCheck bool

fun switch_after :: "switch_event list \<Rightarrow> kill_switch \<Rightarrow> kill_switch" where
  "switch_after [] k = k"
| "switch_after (ManualEngage reason now # es) k = switch_after es (engage_manually reason now k)"
| "switch_after (ManualDisengage # es) k = switch_after es (disengage_manually k)"
| "switch_after (ConnectivityCheck ok # es) k = switch_after es (snd (record_connectivity_check ok k))"

text \<open>
  The specification reads the history alone: the length of the run of failed checks at its end
  (manual events in between do not interrupt it), and the last manual event.
\<close>

fun failure_run :: "nat \<Rightarrow> switch_event list \<Rightarrow> nat" where
  "failure_run n [] = n"
| "failure_run n (ConnectivityCheck ok # es) = failure_run (if ok then 0 else Suc n) es"
| "failure_run n (_ # es) = failure_run n es"

fun manual_after :: "bool \<Rightarrow> switch_event list \<Rightarrow> bool" where
  "manual_after b [] = b"
| "manual_after b (ManualEngage reason now # es) = manual_after True es"
| "manual_after b (ManualDisengage # es) = manual_after False es"
| "manual_after b (ConnectivityCheck ok # es) = manual_after b es"

definition switch_ok :: "nat \<Rightarrow> kill_switch \<Rightarrow> bool" where
  "switch_ok n k \<longleftrightarrow> connectivity_failure_count k = of_nat n \<and>
    (is_auto_engaged k \<longleftrightarrow> 0 < sint (failure_threshold k) \<and> sint (failure_threshold k) \<le> int n)"

lemma switch_ok_check:
  assumes "switch_ok n k" and "n + 1 < 2 ^ 63"
  shows "switch_ok (if ok then 0 else Suc n) (snd (record_connectivity_check ok k))"
    and "failure_threshold (snd (record_connectivity_check ok k)) = failure_threshold k"
    and "is_manually_engaged (snd (record_connectivity_check ok k)) = is_manually_engaged k"
  using assms sint_of_nat64 [of "Suc n"]
  by (auto simp: switch_ok_def record_connectivity_check_def Let_def word_sless_alt word_sle_eq add.commute)

lemma switch_after_run:
  assumes "switch_ok n k" and "n + length es < 2 ^ 63"
  shows "switch_ok (failure_run n es) (switch_after es k)
    \<and> failure_threshold (switch_after es k) = failure_threshold k
    \<and> is_manually_engaged (switch_after es k) = manual_after (is_manually_engaged k) es"
  using assms
proof (induction es k arbitrary: n rule: switch_after.induct)
  case (4 ok es k)
  then show ?case
    using switch_ok_check [OF 4(2), of ok] by (cases ok) simp_all
qed (auto simp: switch_ok_def engage_manually_def disengage_manually_def)

section \<open>Properties\<close>

text \<open>
  Trading is halted for exactly the reasons the history gives: after any sequence of fewer than
  \<open>2 ^ 63\<close> events on a new switch, trading is halted if and only if the last manual event engaged
  the switch, or the threshold is positive and at least that many checks in a row have failed
  since the last success. Disengaging manually therefore never reopens trading into failing
  connectivity.
\<close>

theorem trading_halted_exactly:
  assumes "length es < 2 ^ 63"
  shows "is_trading_halted (switch_after es (new_kill_switch threshold)) \<longleftrightarrow>
    manual_after False es \<or> (0 <s threshold \<and> sint threshold \<le> int (failure_run 0 es))"
proof -
  have "switch_ok 0 (new_kill_switch threshold)"
    by (auto simp: switch_ok_def new_kill_switch_def)
  from switch_after_run [OF this, of es] assms show ?thesis
    by (auto simp: is_trading_halted_def switch_ok_def new_kill_switch_def word_sless_alt)
qed

lemma trading_halted_exactly_witness:
  "is_trading_halted (switch_after [ConnectivityCheck False, ConnectivityCheck False, ManualEngage ''x'' 5,
      ManualDisengage, ConnectivityCheck False] (new_kill_switch 3))"
  using trading_halted_exactly [of "[ConnectivityCheck False, ConnectivityCheck False, ManualEngage ''x'' 5,
      ManualDisengage, ConnectivityCheck False]" 3] by (simp add: word_sless_alt)

text \<open>A success always ends an automatic halt, whatever came before.\<close>

lemma success_reopens:
  "\<not> is_auto_engaged (snd (record_connectivity_check True k))"
  by (simp add: record_connectivity_check_def)

end
