(* ===== verification/GoFloat.thy ===== *)
theory GoFloat
  imports Complex_Main Prelude
begin

text \<open>
  The \<open>float64\<close> arithmetic of the services. A finite float is the rational number it denotes;
  every operation rounds its exact result to the nearest float, ties to even, as IEEE 754 and Go
  prescribe: 53 significant bits, exponents down to that of the subnormal numbers. Results beyond
  the largest finite float, infinities and NaN are outside the model; no modelled operation
  divides by zero or leaves the finite range on the inputs its callers pass.
\<close>

type_synonym float64 = rat

fun bit_length :: "nat \<Rightarrow> nat" where
  "bit_length n = (if n = 0 then 0 else Suc (bit_length (n div 2)))"

declare bit_length.simps [simp del]

definition binary_exponent :: "rat \<Rightarrow> int" where
  "binary_exponent x = (case quotient_of x of
     (n, d) \<Rightarrow> let e = int (bit_length (nat n)) - int (bit_length (nat d))
       in if 2 powi e \<le> x then e else e - 1)"

definition round_half_even :: "rat \<Rightarrow> int" where
  "round_half_even x = (let f = \<lfloor>x\<rfloor>; r = x - of_int f in
     if r < 1 / 2 then f else if 1 / 2 < r then f + 1 else if even f then f else f + 1)"

definition round_float :: "rat \<Rightarrow> float64" where
  "round_float x = (if x = 0 then 0 else
     let e = max (binary_exponent \<bar>x\<bar> - 52) (- 1074)
     in of_int (round_half_even (x / 2 powi e)) * 2 powi e)"

definition float_add :: "float64 \<Rightarrow> float64 \<Rightarrow> float64" where
  "float_add x y = round_float (x + y)"

definition float_sub :: "float64 \<Rightarrow> float64 \<Rightarrow> float64" where
  "float_sub x y = round_float (x - y)"

definition float_mul :: "float64 \<Rightarrow> float64 \<Rightarrow> float64" where
  "float_mul x y = round_float (x * y)"

definition float_div :: "float64 \<Rightarrow> float64 \<Rightarrow> float64" where
  "float_div x y = round_float (x / y)"

definition float_of_int64 :: "int64 \<Rightarrow> float64" where
  "float_of_int64 n = round_float (of_int (sint n))"

definition float_of_uint64 :: "uint64 \<Rightarrow> float64" where
  "float_of_uint64 n = round_float (of_int (uint n))"

text \<open>The conversion \<open>int64(f)\<close> drops the fraction; it is defined for values in the range of \<open>int64\<close>.\<close>

definition int64_of_float :: "float64 \<Rightarrow> int64" where
  "int64_of_float x = word_of_int (if x < 0 then \<lceil>x\<rceil> else \<lfloor>x\<rfloor>)"

text \<open>The conversion \<open>uint64(f)\<close>, for values in the range of \<open>uint64\<close>.\<close>

definition uint64_of_float :: "float64 \<Rightarrow> uint64" where
  "uint64_of_float x = word_of_int (if x < 0 then \<lceil>x\<rceil> else \<lfloor>x\<rfloor>)"

text \<open>\<open>Duration.Seconds\<close> adds the float of the whole seconds and the nanoseconds over a billion.\<close>

definition duration_seconds :: "duration \<Rightarrow> float64" where
  "duration_seconds d =
    (let s = (if sint d < 0 then - (- sint d div 1000000000) else sint d div 1000000000);
         n = sint d - s * 1000000000
     in float_add (round_float (of_int s)) (float_div (round_float (of_int n)) 1000000000))"

text \<open>\<open>Duration.Hours\<close> adds the float of the whole hours and the float of the rest over an hour.\<close>

definition duration_hours :: "duration \<Rightarrow> float64" where
  "duration_hours d = float_add (round_float (of_int (sint d sdiv 3600000000000)))
     (float_div (round_float (of_int (sint d smod 3600000000000))) 3600000000000)"

section \<open>Rounding\<close>

lemma bit_length_simps [simp]: "bit_length 0 = 0" "bit_length (Suc 0) = 1"
  by (simp_all add: bit_length.simps [of "Suc 0"] bit_length.simps [of 0])

lemma bit_length_bounds: "0 < n \<Longrightarrow> 2 ^ (bit_length n - 1) \<le> n \<and> n < 2 ^ bit_length n \<and> 0 < bit_length n"
proof (induction n rule: bit_length.induct)
  case (1 n)
  show ?case
  proof (cases "n div 2 = 0")
    case True
    then have "n = 1" using 1 by presburger
    then show ?thesis by simp
  next
    case False
    define k where "k = bit_length (n div 2)"
    have k: "2 ^ (k - 1) \<le> n div 2" "n div 2 < 2 ^ k" "0 < k"
      using 1 False by (simp_all add: k_def)
    have bl: "bit_length n = Suc k"
      using 1(2) by (subst bit_length.simps) (simp add: k_def)
    have "2 ^ k = 2 * (2 :: nat) ^ (k - 1)"
      using k(3) by (cases k) simp_all
    then show ?thesis
      using k unfolding bl by auto
  qed
qed

lemma powi_le_of_int: "2 ^ k \<le> nat i \<Longrightarrow> (2 :: rat) powi int k \<le> of_int i"
proof -
  assume *: "2 ^ k \<le> nat i"
  have "0 < nat i" using * by (meson less_le_trans zero_less_numeral zero_less_power)
  then have "int (nat i) = i" by simp
  then have "int (2 ^ k) \<le> i" using * by (metis of_nat_mono)
  then have "(of_int (2 ^ k) :: rat) \<le> of_int i" by (subst of_int_le_iff) simp
  then show ?thesis by (simp add: power_int_def)
qed

lemma of_int_less_powi: "0 < i \<Longrightarrow> nat i < 2 ^ k \<Longrightarrow> of_int i < (2 :: rat) powi int k"
proof -
  assume "0 < i" and "nat i < 2 ^ k"
  then have "i < int (2 ^ k)" by (metis nat_less_iff less_imp_le)
  then have "of_int i < (of_int (2 ^ k) :: rat)" by (subst of_int_less_iff) simp
  then show ?thesis by (simp add: power_int_def)
qed

lemma binary_exponent_bounds:
  assumes "0 < x"
  shows "2 powi binary_exponent x \<le> x \<and> x < 2 powi (binary_exponent x + 1)"
proof -
  obtain n d where q: "quotient_of x = (n, d)" by fastforce
  have d: "0 < d" and x: "x = of_int n / of_int d"
    using quotient_of_denom_pos [OF q] quotient_of_div [OF q] by auto
  then have n: "0 < n" using assms by (simp add: zero_less_divide_iff)
  define N D where "N = bit_length (nat n)" and "D = bit_length (nat d)"
  have nb: "2 ^ (N - 1) \<le> nat n" "nat n < 2 ^ N" "0 < N"
    and db: "2 ^ (D - 1) \<le> nat d" "nat d < 2 ^ D" "0 < D"
    using bit_length_bounds [of "nat n"] bit_length_bounds [of "nat d"] n d by (auto simp: N_def D_def)
  have N: "2 powi (int N - 1) \<le> (of_int n :: rat)" "(of_int n :: rat) < 2 powi int N"
    using powi_le_of_int [OF nb(1)] of_int_less_powi [OF n nb(2)] nb(3) by (simp_all add: of_nat_diff)
  have D: "2 powi (int D - 1) \<le> (of_int d :: rat)" "(of_int d :: rat) < 2 powi int D"
    using powi_le_of_int [OF db(1)] of_int_less_powi [OF d db(2)] db(3) by (simp_all add: of_nat_diff)
  have dpos: "(0 :: rat) < of_int d" using d by simp
  have up: "x < 2 powi (int N - int D + 1)"
  proof -
    have "(of_int n :: rat) < 2 powi (int N - int D + 1) * 2 powi (int D - 1)"
      using N(2) by (simp add: power_int_add [symmetric])
    also have "\<dots> \<le> 2 powi (int N - int D + 1) * of_int d"
      using D(1) by (intro mult_left_mono) simp_all
    finally show ?thesis using dpos by (simp add: x field_simps)
  qed
  have low: "2 powi (int N - int D - 1) \<le> x"
  proof -
    have "2 powi (int N - int D - 1) * of_int d \<le> 2 powi (int N - int D - 1) * (2 powi int D :: rat)"
      using D(2) by (intro mult_left_mono) simp_all
    also have "\<dots> = 2 powi (int N - 1)"
      by (subst power_int_add [symmetric]) simp_all
    also note N(1)
    finally show ?thesis using dpos by (simp add: x field_simps)
  qed
  show ?thesis
    using up low by (auto simp: binary_exponent_def q Let_def N_def D_def not_le)
qed

lemma round_half_even_of_int [simp]: "round_half_even (of_int m) = m"
  by (simp add: round_half_even_def Let_def)

lemma round_float_0 [simp]: "round_float 0 = 0"
  by (simp add: round_float_def)

text \<open>A number with at most 53 significant bits above the subnormal exponent is a float and is kept.\<close>

lemma round_float_exact:
  assumes "x = of_int m * 2 powi e" and "\<bar>m\<bar> < 2 ^ 53" and "- 1074 \<le> e"
  shows "round_float x = x"
proof (cases "x = 0")
  case False
  define E where "E = max (binary_exponent \<bar>x\<bar> - 52) (- 1074)"
  have "0 < \<bar>x\<bar>" using False by simp
  note b = binary_exponent_bounds [OF this]
  have m: "(of_int \<bar>m\<bar> :: rat) < 2 powi 53"
    using assms(2) by (simp flip: of_int_abs)
  have "\<not> (2 :: rat) powi (53 + e) \<le> 2 powi binary_exponent \<bar>x\<bar>"
  proof
    assume "(2 :: rat) powi (53 + e) \<le> 2 powi binary_exponent \<bar>x\<bar>"
    then have "2 powi 53 * 2 powi e \<le> \<bar>x\<bar>"
      using b by (simp add: power_int_add del: power_int_numeral)
    moreover have "\<bar>x\<bar> < 2 powi 53 * 2 powi e"
      using m by (simp add: assms(1) abs_mult del: power_int_numeral)
    ultimately show False by simp
  qed
  then have "binary_exponent \<bar>x\<bar> < 53 + e"
    using power_int_increasing [of "53 + e" "binary_exponent \<bar>x\<bar>" "2 :: rat"] by (meson not_le one_le_numeral)
  then have E: "E \<le> e" using assms(3) by (simp add: E_def)
  have "x / 2 powi E = of_int m * 2 powi (e - E)"
    by (simp add: assms(1) power_int_diff)
  also have "\<dots> = of_int (m * 2 ^ nat (e - E))"
    using E by (simp add: power_int_def)
  finally have q: "x / 2 powi E = of_int (m * 2 ^ nat (e - E))" .
  have "round_float x = of_int (round_half_even (x / 2 powi E)) * 2 powi E"
    using False by (simp add: round_float_def E_def Let_def)
  also have "\<dots> = x / 2 powi E * 2 powi E"
    unfolding q by (simp only: round_half_even_of_int)
  finally show ?thesis by simp
qed simp

lemma round_float_int: "\<bar>n\<bar> < 2 ^ 53 \<Longrightarrow> round_float (of_int n) = of_int n"
  by (rule round_float_exact [of _ n 0]) simp_all

lemma round_half_even_nonneg: "0 \<le> x \<Longrightarrow> 0 \<le> round_half_even x"
  by (simp add: round_half_even_def Let_def)

lemma round_float_nonneg: "0 \<le> x \<Longrightarrow> 0 \<le> round_float x"
  by (simp add: round_float_def Let_def round_half_even_nonneg)

text \<open>A known binade makes rounding a computation on numerals.\<close>

lemma binary_exponent_unique:
  assumes "2 powi e \<le> x" and "x < 2 powi (e + 1)"
  shows "binary_exponent x = e"
proof -
  have pos: "0 < x" using assms(1) by (rule less_le_trans [rotated]) simp
  note b = binary_exponent_bounds [OF pos]
  have "e \<le> binary_exponent x"
  proof (rule ccontr)
    assume "\<not> e \<le> binary_exponent x"
    then have "(2 :: rat) powi (binary_exponent x + 1) \<le> 2 powi e" by (intro power_int_increasing) auto
    with b assms show False by linarith
  qed
  moreover have "binary_exponent x \<le> e"
  proof (rule ccontr)
    assume "\<not> binary_exponent x \<le> e"
    then have "(2 :: rat) powi (e + 1) \<le> 2 powi binary_exponent x" by (intro power_int_increasing) auto
    with b assms show False by linarith
  qed
  ultimately show ?thesis by simp
qed

lemma round_float_binade:
  assumes "2 powi e \<le> \<bar>x\<bar>" and "\<bar>x\<bar> < 2 powi (e + 1)" and "- 1022 \<le> e"
  shows "round_float x = of_int (round_half_even (x / 2 powi (e - 52))) * 2 powi (e - 52)"
proof -
  have "0 < (2 :: rat) powi e" by simp
  with assms(1) have "0 < \<bar>x\<bar>" by linarith
  then have "x \<noteq> 0" by simp
  then show ?thesis
    using assms(3) by (simp add: round_float_def Let_def binary_exponent_unique [OF assms(1,2)])
qed

lemma round_half_even_error: "\<bar>of_int (round_half_even x) - x\<bar> \<le> 1 / 2"
  using floor_correct [of x] by (auto simp: round_half_even_def Let_def)

text \<open>Above the subnormal numbers the relative error of a rounding is at most half a unit in the last place.\<close>

lemma round_float_error:
  assumes "2 powi (- 1022) \<le> x"
  shows "\<bar>round_float x - x\<bar> \<le> x * 2 powi (- 53)"
proof -
  have pos: "0 < x" using assms by (rule less_le_trans [rotated]) simp
  define E where "E = binary_exponent x"
  have b: "2 powi E \<le> x" "x < 2 powi (E + 1)"
    using binary_exponent_bounds [OF pos] by (simp_all add: E_def)
  have "\<not> E < - 1022"
  proof
    assume "E < - 1022"
    then have "(2 :: rat) powi (E + 1) \<le> 2 powi (- 1022)" by (intro power_int_increasing) auto
    with b(2) assms show False by linarith
  qed
  then have r: "round_float x = of_int (round_half_even (x / 2 powi (E - 52))) * 2 powi (E - 52)"
    using round_float_binade [of E x] b pos by simp
  have "round_float x - x = (of_int (round_half_even (x / 2 powi (E - 52))) - x / 2 powi (E - 52)) * 2 powi (E - 52)"
    by (simp add: r algebra_simps)
  also have "\<bar>\<dots>\<bar> \<le> 1 / 2 * 2 powi (E - 52)"
    unfolding abs_mult using round_half_even_error [of "x / 2 powi (E - 52)"] by (intro mult_mono) simp_all
  also have "1 / 2 * 2 powi (E - 52) = 2 powi E * (2 :: rat) powi (- 53)"
    by (simp add: power_int_add power_int_diff)
  also have "\<dots> \<le> x * 2 powi (- 53)"
    using b(1) by (intro mult_right_mono) simp_all
  finally show ?thesis .
qed

lemma floor_numeral_quotient [simp]:
  "\<lfloor>numeral a / numeral b :: rat\<rfloor> = numeral a div numeral b"
  using floor_divide_of_int_eq [of "numeral a" "numeral b", where 'a = rat] by simp

lemmas float_computation = power_int_def power_divide round_half_even_def Let_def

lemma round_float_one_fifth: "round_float (1 / 5) = 7205759403792794 / 36028797018963968"
  by (subst round_float_binade [of "- 3"]) (simp_all add: float_computation)

end
