(* ===== verification/AlgoLimits.thy ===== *)
theory AlgoLimits
  imports GoFloat
begin

text \<open>
  Strategy resource limits of the order gateway,
  services/oms-gateway/internal/algolimits/strategyLimiter.go: per strategy a token bucket for the order
  rate and a running notional total per UTC calendar day, checked and reserved in one step, and
  the release of a reservation. The rate and the tokens are \<open>float64\<close> (GoFloat); the instant is
  an argument, as in the source.
\<close>

section \<open>State and operations\<close>

record strategy_limit_config =
  max_orders_per_second :: float64
  max_notional_per_day :: int64

record strategy_state =
  state_config :: strategy_limit_config
  tokens_available :: float64
  last_refill_time :: instant
  current_day_start :: instant
  notional_used_today :: int64

record algo_registry =
  default_config :: strategy_limit_config
  config_by_strategy :: "strategy_limit_config table"
  state_by_strategy :: "strategy_state table"

text \<open>The rate error carries the configured rate, the notional error the usage, the notional and the cap.\<close>

datatype strategy_limit_error =
    OrderRateLimitExceeded float64
  | DailyNotionalLimitExceeded int64 int64 int64

definition new_algo_registry :: "strategy_limit_config \<Rightarrow> algo_registry" where
  "new_algo_registry config = \<lparr>default_config = config, config_by_strategy = [], state_by_strategy = []\<rparr>"

definition set_strategy_limits :: "string \<Rightarrow> strategy_limit_config \<Rightarrow> algo_registry \<Rightarrow> algo_registry" where
  "set_strategy_limits sid config g =
    (let g1 = g\<lparr>config_by_strategy := put sid config (config_by_strategy g)\<rparr>
     in case lookup (state_by_strategy g) sid of
          None \<Rightarrow> g1
        | Some st \<Rightarrow> g1\<lparr>state_by_strategy := put sid (st\<lparr>state_config := config\<rparr>) (state_by_strategy g)\<rparr>)"

definition bucket_capacity :: "float64 \<Rightarrow> float64" where
  "bucket_capacity rate = (if rate < 1 then 1 else rate)"

definition state_for_strategy :: "string \<Rightarrow> instant \<Rightarrow> algo_registry \<Rightarrow> strategy_state" where
  "state_for_strategy sid now g = (case lookup (state_by_strategy g) sid of
     Some st \<Rightarrow> st
   | None \<Rightarrow>
       let config = (case lookup (config_by_strategy g) sid of None \<Rightarrow> default_config g | Some c \<Rightarrow> c)
       in \<lparr>state_config = config, tokens_available = bucket_capacity (max_orders_per_second config),
           last_refill_time = now, current_day_start = utc_day_start now, notional_used_today = 0\<rparr>)"

definition refill_tokens :: "instant \<Rightarrow> strategy_state \<Rightarrow> strategy_state" where
  "refill_tokens now st =
    (let rate = max_orders_per_second (state_config st); capacity = bucket_capacity rate;
         elapsed = duration_seconds (time_sub now (last_refill_time st))
     in if 0 < elapsed
        then let tokens = float_add (tokens_available st) (float_mul elapsed rate)
          in st\<lparr>tokens_available := (if capacity < tokens then capacity else tokens),
                last_refill_time := now\<rparr>
        else st)"

definition check_and_consume_rate_limit ::
    "instant \<Rightarrow> strategy_state \<Rightarrow> strategy_limit_error option \<times> strategy_state" where
  "check_and_consume_rate_limit now st =
    (if max_orders_per_second (state_config st) \<le> 0 then (None, st)
     else let st1 = refill_tokens now st
       in if tokens_available st1 < 1
          then (Some (OrderRateLimitExceeded (max_orders_per_second (state_config st))), st1)
          else (None, st1\<lparr>tokens_available := float_sub (tokens_available st1) 1\<rparr>))"

definition roll_day :: "instant \<Rightarrow> strategy_state \<Rightarrow> strategy_state" where
  "roll_day now st =
    (if utc_day_start now \<noteq> current_day_start st
     then st\<lparr>current_day_start := utc_day_start now, notional_used_today := 0\<rparr> else st)"

definition check_and_reserve_notional ::
    "int64 \<Rightarrow> instant \<Rightarrow> strategy_state \<Rightarrow> strategy_limit_error option \<times> strategy_state" where
  "check_and_reserve_notional notional now st =
    (let st1 = roll_day now st; cap = max_notional_per_day (state_config st1);
         total = notional_used_today st1 + notional
     in if cap \<le>s 0 then (None, st1\<lparr>notional_used_today := total\<rparr>)
        else if cap <s total
        then (Some (DailyNotionalLimitExceeded (notional_used_today st1) notional cap), st1)
        else (None, st1\<lparr>notional_used_today := total\<rparr>))"

text \<open>
  \<open>CheckAndReserve\<close> works on the strategy's record in place, so what the rate check consumed stays
  consumed when the notional check then fails.
\<close>

definition check_and_reserve ::
    "string \<Rightarrow> int64 \<Rightarrow> instant \<Rightarrow> algo_registry \<Rightarrow> strategy_limit_error option \<times> algo_registry" where
  "check_and_reserve sid notional now g =
    (let st = state_for_strategy sid now g;
         save = (\<lambda>st'. g\<lparr>state_by_strategy := put sid st' (state_by_strategy g)\<rparr>)
     in case check_and_consume_rate_limit now st of
          (Some err, st1) \<Rightarrow> (Some err, save st1)
        | (None, st1) \<Rightarrow>
            (case check_and_reserve_notional notional now st1 of (err, st2) \<Rightarrow> (err, save st2)))"

definition release_state :: "int64 \<Rightarrow> instant \<Rightarrow> strategy_state \<Rightarrow> strategy_state" where
  "release_state notional now st =
    (let rate = max_orders_per_second (state_config st); capacity = bucket_capacity rate;
         tokens = float_add (tokens_available st) 1;
         st1 = (if 0 < rate
           then st\<lparr>tokens_available := (if capacity < tokens then capacity else tokens)\<rparr> else st);
         used = notional_used_today st1 - notional
     in if utc_day_start now \<noteq> current_day_start st1 then st1
        else st1\<lparr>notional_used_today := (if used <s 0 then 0 else used)\<rparr>)"

definition release_strategy :: "string \<Rightarrow> int64 \<Rightarrow> instant \<Rightarrow> algo_registry \<Rightarrow> algo_registry" where
  "release_strategy sid notional now g = (case lookup (state_by_strategy g) sid of
     None \<Rightarrow> g
   | Some st \<Rightarrow> g\<lparr>state_by_strategy := put sid (release_state notional now st) (state_by_strategy g)\<rparr>)"

definition notional_used_today_of :: "string \<Rightarrow> instant \<Rightarrow> algo_registry \<Rightarrow> int64" where
  "notional_used_today_of sid now g = (case lookup (state_by_strategy g) sid of
     None \<Rightarrow> 0
   | Some st \<Rightarrow> if utc_day_start now \<noteq> current_day_start st then 0 else notional_used_today st)"

section \<open>Runs of orders\<close>

text \<open>One strategy submits a sequence of orders, each a time and a notional; the log is what passed.\<close>

fun accepted_orders ::
    "string \<Rightarrow> (instant \<times> int64) list \<Rightarrow> algo_registry \<Rightarrow> (instant \<times> int64) list" where
  "accepted_orders sid [] g = []"
| "accepted_orders sid ((now, notional) # os) g =
    (case check_and_reserve sid notional now g of
       (None, g') \<Rightarrow> (now, notional) # accepted_orders sid os g'
     | (Some err, g') \<Rightarrow> accepted_orders sid os g')"

definition day_total :: "(instant \<times> int64) list \<Rightarrow> instant \<Rightarrow> int" where
  "day_total L d = (\<Sum>(t, n)\<leftarrow>L. if utc_day_start t = d then sint n else 0)"

lemma day_total_simps [simp]:
  "day_total [] d = 0"
  "day_total ((t, n) # L) d = (if utc_day_start t = d then sint n else 0) + day_total L d"
  "day_total (L @ L') d = day_total L d + day_total L' d"
  by (simp_all add: day_total_def)

text \<open>What the rate check leaves alone, and what the notional check does to the day's total.\<close>

lemma rate_limit_frame:
  assumes "check_and_consume_rate_limit now st = (err, st')"
  shows "state_config st' = state_config st" and "current_day_start st' = current_day_start st"
    and "notional_used_today st' = notional_used_today st"
  using assms by (auto simp: check_and_consume_rate_limit_def refill_tokens_def Let_def split: if_splits)

text \<open>Within one day, what a rejected check leaves and what a released order leaves is the usage before.\<close>

lemma notional_used_put:
  "notional_used_today_of k t (g\<lparr>state_by_strategy := put sid st (state_by_strategy g)\<rparr>) =
    (if k = sid then if utc_day_start t \<noteq> current_day_start st then 0 else notional_used_today st
     else notional_used_today_of k t g)"
  by (simp add: notional_used_today_of_def)

definition day_usage :: "instant \<Rightarrow> strategy_state \<Rightarrow> int64" where
  "day_usage t st = (if utc_day_start t \<noteq> current_day_start st then 0 else notional_used_today st)"

lemma day_usage_for_strategy:
  "utc_day_start t = utc_day_start now \<Longrightarrow>
    day_usage t (state_for_strategy sid now g) = notional_used_today_of sid t g"
  by (simp add: day_usage_def state_for_strategy_def notional_used_today_of_def Let_def split: option.splits)

lemma day_usage_notional_check:
  assumes "check_and_reserve_notional notional now st = (err, st')" and "utc_day_start t = utc_day_start now"
  shows "day_usage t st' = day_usage t st + (if err = None then notional else 0)"
  using assms by (auto simp: check_and_reserve_notional_def roll_day_def day_usage_def Let_def split: if_splits)

lemma check_and_reserve_usage:
  assumes "check_and_reserve sid notional now g = (err, g1)" and "utc_day_start t = utc_day_start now"
  shows "notional_used_today_of k t g1 =
    notional_used_today_of k t g + (if k = sid \<and> err = None then notional else 0)"
proof -
  obtain e1 st1 where r: "check_and_consume_rate_limit now (state_for_strategy sid now g) = (e1, st1)" by fastforce
  have st1: "day_usage t st1 = notional_used_today_of sid t g"
    using rate_limit_frame [OF r] day_usage_for_strategy [OF assms(2), of sid g]
    unfolding day_usage_def by presburger
  obtain e2 st2 where n: "check_and_reserve_notional notional now st1 = (e2, st2)" by fastforce
  from day_usage_notional_check [OF n assms(2)] st1 r n assms(1) show ?thesis
    by (auto simp: check_and_reserve_def notional_used_put day_usage_def Let_def split: option.splits if_splits)
qed

lemma release_strategy_usage:
  assumes "utc_day_start t = utc_day_start now" and "notional_used_today_of sid t g = used + notional"
    and "0 \<le>s used" and "lookup (state_by_strategy g) sid \<noteq> None"
    and "utc_day_start t = current_day_start (the (lookup (state_by_strategy g) sid))"
  shows "notional_used_today_of k t (release_strategy sid notional now g) =
    (if k = sid then used else notional_used_today_of k t g)"
  using assms
  by (auto simp: release_strategy_def release_state_def notional_used_put notional_used_today_of_def [of sid]
    Let_def word_sless_alt word_sle_eq)

lemma check_and_reserve_day:
  assumes "check_and_reserve sid notional now g = (None, g1)"
  shows "\<exists>st. lookup (state_by_strategy g1) sid = Some st \<and> current_day_start st = utc_day_start now"
  using assms
  by (auto simp: check_and_reserve_def check_and_reserve_notional_def roll_day_def Let_def
    split: if_splits option.splits prod.splits)

lemma release_after_check:
  assumes "check_and_reserve sid notional now g = (None, g1)" and "utc_day_start later = utc_day_start now"
    and "utc_day_start t = utc_day_start now" and "0 \<le>s notional_used_today_of sid t g"
  shows "notional_used_today_of k t (release_strategy sid notional later g1) = notional_used_today_of k t g"
proof -
  obtain st where st: "lookup (state_by_strategy g1) sid = Some st" "current_day_start st = utc_day_start now"
    using check_and_reserve_day [OF assms(1)] by blast
  have used: "notional_used_today_of j t g1 = notional_used_today_of j t g + (if j = sid then notional else 0)" for j
    using check_and_reserve_usage [OF assms(1,3), of j] by simp
  from release_strategy_usage [of t later sid g1 "notional_used_today_of sid t g" notional k] st used assms(2-4)
  show ?thesis by simp
qed

definition cap_inv :: "strategy_limit_config \<Rightarrow> string \<Rightarrow> (instant \<times> int64) list \<Rightarrow> instant \<Rightarrow> algo_registry \<Rightarrow> bool" where
  "cap_inv c sid L now g \<longleftrightarrow> default_config g = c \<and> config_by_strategy g = [] \<and>
    (\<forall>d. day_total L d \<le> sint (max_notional_per_day c)) \<and>
    (\<forall>st. lookup (state_by_strategy g) sid = Some st \<longrightarrow> state_config st = c \<and>
       0 \<le> sint (notional_used_today st) \<and>
       sint (notional_used_today st) = day_total L (current_day_start st) \<and>
       current_day_start st \<le> utc_day_start now \<and>
       (\<forall>d. current_day_start st < d \<longrightarrow> day_total L d = 0)) \<and>
    (lookup (state_by_strategy g) sid = None \<longrightarrow> L = [])"

lemma notional_check_step:
  assumes "0 \<le> sint (notional_used_today st)" and "0 \<le> sint notional"
    and "sint (max_notional_per_day (state_config st)) + sint notional < 2 ^ 63"
    and "0 < sint (max_notional_per_day (state_config st))"
    and "sint (notional_used_today st) \<le> sint (max_notional_per_day (state_config st))"
    and "check_and_reserve_notional notional now st = (err, st')"
  shows "state_config st' = state_config st" and "current_day_start st' = utc_day_start now"
    and "sint (notional_used_today st') = sint (notional_used_today (roll_day now st)) +
      (if err = None then sint notional else 0)"
    and "sint (notional_used_today st') \<le> sint (max_notional_per_day (state_config st))"
proof -
  define st1 where "st1 = roll_day now st"
  have st1: "state_config st1 = state_config st" "current_day_start st1 = utc_day_start now"
    "0 \<le> sint (notional_used_today st1)"
    "sint (notional_used_today st1) \<le> sint (max_notional_per_day (state_config st))"
    using assms by (auto simp: st1_def roll_day_def)
  have add: "sint (notional_used_today st1 + notional) = sint (notional_used_today st1) + sint notional"
    using assms(2,3) st1(3,4) by (intro sint_add64) simp_all
  note step = assms(6) [unfolded check_and_reserve_notional_def, folded st1_def]
  show "state_config st' = state_config st" "current_day_start st' = utc_day_start now"
    "sint (notional_used_today st') = sint (notional_used_today (roll_day now st)) +
      (if err = None then sint notional else 0)"
    "sint (notional_used_today st') \<le> sint (max_notional_per_day (state_config st))"
    using step st1 add assms(4)
    by (auto simp: Let_def word_sless_alt word_sle_eq simp flip: st1_def split: if_splits)
qed

lemma cap_inv_step:
  assumes "cap_inv c sid L now0 g" and "now0 \<le> now" and "0 \<le> sint notional"
    and "sint (max_notional_per_day c) + sint notional < 2 ^ 63" and "0 < sint (max_notional_per_day c)"
    and "check_and_reserve sid notional now g = (err, g')"
  shows "cap_inv c sid (if err = None then L @ [(now, notional)] else L) now g'"
proof -
  define st where "st = state_for_strategy sid now g"
  have cap: "\<forall>d. day_total L d \<le> sint (max_notional_per_day c)"
    and g: "default_config g = c" "config_by_strategy g = []"
    using assms(1) unfolding cap_inv_def by blast+
  have "state_config st = c \<and> 0 \<le> sint (notional_used_today st) \<and>
    sint (notional_used_today st) = day_total L (current_day_start st) \<and>
    current_day_start st \<le> utc_day_start now \<and> (\<forall>d. current_day_start st < d \<longrightarrow> day_total L d = 0)"
  proof (cases "lookup (state_by_strategy g) sid")
    case None
    then have "L = []" using assms(1) unfolding cap_inv_def by blast
    with None g show ?thesis by (simp add: st_def state_for_strategy_def)
  next
    case (Some st0)
    then have "st = st0" by (simp add: st_def state_for_strategy_def)
    moreover from assms(1) Some have "state_config st0 = c \<and> 0 \<le> sint (notional_used_today st0) \<and>
        sint (notional_used_today st0) = day_total L (current_day_start st0) \<and>
        current_day_start st0 \<le> utc_day_start now0 \<and>
        (\<forall>d. current_day_start st0 < d \<longrightarrow> day_total L d = 0)"
      unfolding cap_inv_def by blast
    ultimately show ?thesis
      using utc_day_start_mono [OF assms(2)] by (metis order_trans)
  qed
  then have st: "state_config st = c" "0 \<le> sint (notional_used_today st)"
    "sint (notional_used_today st) = day_total L (current_day_start st)"
    "current_day_start st \<le> utc_day_start now" "\<forall>d. current_day_start st < d \<longrightarrow> day_total L d = 0"
    by blast+
  obtain e1 st1 where r: "check_and_consume_rate_limit now st = (e1, st1)" by fastforce
  note f = rate_limit_frame [OF r]
  have le: "sint (notional_used_today st1) \<le> sint (max_notional_per_day (state_config st1))"
    using cap st f by simp
  note submit = assms(6) [unfolded check_and_reserve_def Let_def, folded st_def, unfolded r prod.case]
  have keep: "cap_inv c sid L' now (g\<lparr>state_by_strategy := put sid st' (state_by_strategy g)\<rparr>)"
    if "state_config st' = c" "0 \<le> sint (notional_used_today st')"
      "sint (notional_used_today st') = day_total L' (current_day_start st')"
      "current_day_start st' \<le> utc_day_start now" "\<forall>d. current_day_start st' < d \<longrightarrow> day_total L' d = 0"
      "\<forall>d. day_total L' d \<le> sint (max_notional_per_day c)" for L' st'
    using that g by (simp add: cap_inv_def)
  show ?thesis
  proof (cases e1)
    case (Some x)
    then have "err = Some x" "g' = g\<lparr>state_by_strategy := put sid st1 (state_by_strategy g)\<rparr>"
      using submit by simp_all
    then show ?thesis
      using keep [of st1 L] st cap f by simp
  next
    case None
    obtain st2 where n: "check_and_reserve_notional notional now st1 = (err, st2)"
      and g': "g' = g\<lparr>state_by_strategy := put sid st2 (state_by_strategy g)\<rparr>"
      using submit None by (auto split: prod.splits)
    have s2: "state_config st2 = c" "current_day_start st2 = utc_day_start now"
      "sint (notional_used_today st2) = sint (notional_used_today (roll_day now st1)) +
        (if err = None then sint notional else 0)"
      "sint (notional_used_today st2) \<le> sint (max_notional_per_day c)"
      using notional_check_step [OF _ assms(3) _ _ le n] st f assms(4,5) by simp_all
    have rolled: "sint (notional_used_today (roll_day now st1)) = day_total L (utc_day_start now)"
      using st f by (auto simp: roll_day_def)
    have nonneg: "0 \<le> day_total L (utc_day_start now)"
      using st f rolled by (auto simp: roll_day_def split: if_splits)
    have later: "day_total L d = 0" if "utc_day_start now < d" for d
      using st(4,5) that by auto
    show ?thesis
      unfolding g' by (rule keep) (use s2 rolled nonneg later cap assms(3) in \<open>auto split: if_splits\<close>)
  qed
qed

lemma cap_inv_run:
  assumes "cap_inv c sid L now0 g" and "sorted (now0 # map fst os)"
    and "\<forall>(t, n) \<in> set os. 0 \<le> sint n \<and> sint (max_notional_per_day c) + sint n < 2 ^ 63"
    and "0 < sint (max_notional_per_day c)"
  shows "day_total (L @ accepted_orders sid os g) d \<le> sint (max_notional_per_day c)"
  using assms(1-3)
proof (induction os arbitrary: L now0 g)
  case Nil
  then show ?case by (simp add: cap_inv_def)
next
  case (Cons o1 os)
  obtain now n where o1: "o1 = (now, n)" by fastforce
  obtain err g' where r: "check_and_reserve sid n now g = (err, g')" by fastforce
  have inv: "cap_inv c sid (if err = None then L @ [(now, n)] else L) now g'"
    using cap_inv_step [OF Cons.prems(1) _ _ _ assms(4) r] Cons.prems(2,3) by (auto simp: o1)
  from Cons.IH [OF inv] Cons.prems(2,3) r show ?case
    by (cases err) (simp_all add: o1)
qed

section \<open>Properties\<close>

text \<open>
  The daily cap holds: as long as amounts stay within 63 bits, whatever orders with non-negative
  notionals a strategy submits at non-decreasing times, on every UTC day the notionals of the
  orders that passed add up to at most the cap.
\<close>

theorem daily_notional_capped:
  assumes "sorted (map fst os)" and "0 < sint (max_notional_per_day c)"
    and "\<forall>(t, n) \<in> set os. 0 \<le> sint n \<and> sint (max_notional_per_day c) + sint n < 2 ^ 63"
  shows "day_total (accepted_orders sid os (new_algo_registry c)) d \<le> sint (max_notional_per_day c)"
proof (cases os)
  case (Cons o1 os')
  have "cap_inv c sid [] (fst o1) (new_algo_registry c)"
    using assms(2) by (simp add: cap_inv_def new_algo_registry_def)
  from cap_inv_run [OF this _ assms(3,2), of d] assms(1) show ?thesis
    by (simp add: Cons)
qed (use assms(2) in simp)

lemma daily_notional_capped_witness:
  "day_total (accepted_orders ''s'' [(0, 60), (1, 60)]
     (new_algo_registry \<lparr>max_orders_per_second = 0, max_notional_per_day = 100\<rparr>)) 0 \<le> 100"
  using daily_notional_capped [of "[(0, 60), (1, 60)]"
      "\<lparr>max_orders_per_second = 0, max_notional_per_day = 100\<rparr>" "''s''" 0] by simp

section \<open>Bursts\<close>

lemma no_time_elapsed [simp]: "duration_seconds (time_sub t t) = 0"
  by (simp add: time_sub_def duration_seconds_def float_add_def float_div_def)

lemma refill_same_instant: "last_refill_time st = now \<Longrightarrow> refill_tokens now st = st"
  by (simp add: refill_tokens_def Let_def)

lemma take_token:
  assumes "tokens_available st = of_int m" and "last_refill_time st = now" and "0 \<le> m" and "m < 2 ^ 53"
    and "0 < max_orders_per_second (state_config st)"
  shows "check_and_consume_rate_limit now st =
    (if m = 0 then (Some (OrderRateLimitExceeded (max_orders_per_second (state_config st))), st)
     else (None, st\<lparr>tokens_available := of_int (m - 1)\<rparr>))"
proof -
  have "float_sub (of_int m) 1 = of_int (m - 1)" if "0 < m"
    using round_float_int [of "m - 1"] that assms(4) by (simp add: float_sub_def)
  then show ?thesis
    using assms by (auto simp: check_and_consume_rate_limit_def refill_same_instant Let_def)
qed

lemma burst_from:
  assumes "state_for_strategy sid now g = st" and "tokens_available st = of_int m"
    and "last_refill_time st = now" and "0 \<le> m" and "m < 2 ^ 53"
    and "0 < max_orders_per_second (state_config st)" and "max_notional_per_day (state_config st) \<le>s 0"
  shows "int (length (accepted_orders sid (map (Pair now) ns) g)) = min (int (length ns)) m"
  using assms
proof (induction ns arbitrary: g m st)
  case (Cons n ns)
  note step = take_token [OF Cons.prems(2-6)]
  show ?case
  proof (cases "m = 0")
    case True
    let ?g = "g\<lparr>state_by_strategy := put sid st (state_by_strategy g)\<rparr>"
    have "check_and_reserve sid n now g = (Some (OrderRateLimitExceeded (max_orders_per_second (state_config st))), ?g)"
      using step True Cons.prems(1) by (simp add: check_and_reserve_def)
    moreover have "state_for_strategy sid now ?g = st" by (simp add: state_for_strategy_def)
    ultimately show ?thesis
      using Cons.IH [of ?g st 0] Cons.prems True by simp
  next
    case False
    let ?st = "(roll_day now (st\<lparr>tokens_available := of_int (m - 1)\<rparr>))"
    let ?st' = "?st\<lparr>notional_used_today := notional_used_today ?st + n\<rparr>"
    let ?g = "g\<lparr>state_by_strategy := put sid ?st' (state_by_strategy g)\<rparr>"
    have keep: "state_config ?st' = state_config st" "tokens_available ?st' = of_int (m - 1)"
      "last_refill_time ?st' = now"
      using Cons.prems(3) by (simp_all add: roll_day_def)
    have "check_and_reserve sid n now g = (None, ?g)"
      using step False Cons.prems(1,7) by (simp add: check_and_reserve_def check_and_reserve_notional_def roll_day_def Let_def)
    moreover have "state_for_strategy sid now ?g = ?st'" by (simp add: state_for_strategy_def)
    ultimately show ?thesis
      using Cons.IH [of ?g ?st' "m - 1"] Cons.prems keep False by simp
  qed
qed simp

text \<open>
  A burst is limited to the configured rate: of any number of orders that a strategy with an
  integral rate below \<open>2 ^ 53\<close> and no daily cap submits at one instant, exactly as many pass as the rate
  says, in floating-point arithmetic too.
\<close>

theorem burst_limited:
  assumes "1 \<le> rate" and "rate < 2 ^ 53" and "cap \<le>s 0"
  shows "int (length (accepted_orders sid (map (Pair now) notionals) (new_algo_registry
      \<lparr>max_orders_per_second = of_int rate, max_notional_per_day = cap\<rparr>))) = min (int (length notionals)) rate"
  by (rule burst_from [OF refl])
    (use assms in \<open>simp_all add: state_for_strategy_def new_algo_registry_def bucket_capacity_def\<close>)

lemma burst_limited_witness:
  "length (accepted_orders ''s'' (map (Pair 7) [1, 2, 3]) (new_algo_registry
      \<lparr>max_orders_per_second = 2, max_notional_per_day = 0\<rparr>)) = 2"
  using burst_limited [of 2 0 "''s''" 7 "[1, 2, 3]"] by simp

text \<open>
  Two gaps. A reservation released after the strategy's day has rolled over is taken from the new
  day's usage, which it was never part of: orders of 100 and 60 pass on one day under a cap of 100.
\<close>

theorem late_release_lifts_daily_cap:
  fixes midnight :: instant
  defines "g0 \<equiv> new_algo_registry \<lparr>max_orders_per_second = 0, max_notional_per_day = 100\<rparr>"
    and "midnight \<equiv> day_nanos"
  defines "r1 \<equiv> check_and_reserve ''s'' 60 (midnight - 1) g0"
  defines "r2 \<equiv> check_and_reserve ''s'' 100 midnight (snd r1)"
  defines "r3 \<equiv> check_and_reserve ''s'' 60 (midnight + 2) (release_strategy ''s'' 60 (midnight + 1) (snd r2))"
  shows "fst r1 = None \<and> fst r2 = None \<and> fst r3 = None"
  by (simp add: r3_def r2_def r1_def g0_def midnight_def check_and_reserve_def state_for_strategy_def
    new_algo_registry_def check_and_consume_rate_limit_def check_and_reserve_notional_def roll_day_def
    release_strategy_def release_state_def utc_day_start_def day_nanos_def Let_def bucket_capacity_def
    word_sless_alt word_sle_eq)

text \<open>An order refused for its notional has used up a token, and the next order is refused for its rate.\<close>

theorem notional_rejection_consumes_token:
  defines "g0 \<equiv> new_algo_registry \<lparr>max_orders_per_second = 1, max_notional_per_day = 100\<rparr>"
  defines "r1 \<equiv> check_and_reserve ''s'' 200 0 g0"
  shows "fst (check_and_reserve ''s'' 50 0 g0) = None
    \<and> fst r1 = Some (DailyNotionalLimitExceeded 0 200 100)
    \<and> fst (check_and_reserve ''s'' 50 0 (snd r1)) = Some (OrderRateLimitExceeded 1)"
  by (simp add: r1_def g0_def check_and_reserve_def state_for_strategy_def new_algo_registry_def
    check_and_consume_rate_limit_def refill_tokens_def check_and_reserve_notional_def roll_day_def
    utc_day_start_def day_nanos_def Let_def bucket_capacity_def float_sub_def
    word_sless_alt word_sle_eq)

end
