(* ===== verification/GoText.thy ===== *)
theory GoText
  imports GoFloat
begin

text \<open>
  The texts that \<open>fmt.Sprintf\<close> makes: decimal numbers (\<open>%d\<close>) are computed; the text of a float under
  a verb is a function of the verb and the value, which the definitions that need it take as the
  parameter \<open>ft\<close>.
\<close>

type_synonym float_text = "string \<Rightarrow> float64 \<Rightarrow> string"

fun decimal_of_nat :: "nat \<Rightarrow> string" where
  "decimal_of_nat n = (if n < 10 then [char_of (48 + n)]
     else decimal_of_nat (n div 10) @ [char_of (48 + n mod 10)])"

declare decimal_of_nat.simps [simp del]

definition decimal_of_int :: "int \<Rightarrow> string" where
  "decimal_of_int i = (if i < 0 then ''-'' @ decimal_of_nat (nat (- i)) else decimal_of_nat (nat i))"

definition int64_text :: "int64 \<Rightarrow> string" where
  "int64_text n = decimal_of_int (sint n)"

definition uint64_text :: "uint64 \<Rightarrow> string" where
  "uint64_text n = decimal_of_int (uint n)"

text \<open>
  The text of a string under \<open>%q\<close>: quoted, with the escapes of \<open>strconv.Quote\<close> for ASCII characters.
\<close>

definition hex_digit :: "nat \<Rightarrow> char" where
  "hex_digit n = (if n < 10 then char_of (48 + n) else char_of (87 + n))"

definition quoted_char :: "char \<Rightarrow> string" where
  "quoted_char c = (let n = of_char c :: nat in
     if n = 34 \<or> n = 92 then [char_of (92 :: nat), c]
     else if 32 \<le> n \<and> n < 127 then [c]
     else case lookup [(7, CHR ''a''), (8, CHR ''b''), (9, CHR ''t''), (10, CHR ''n''), (11, CHR ''v''),
         (12, CHR ''f''), (13, CHR ''r'')] n of
       Some d \<Rightarrow> [char_of (92 :: nat), d]
     | None \<Rightarrow> [char_of (92 :: nat), CHR ''x'', hex_digit (n div 16), hex_digit (n mod 16)])"

definition quoted_text :: "string \<Rightarrow> string" where
  "quoted_text s = [char_of (34 :: nat)] @ concat (map quoted_char s) @ [char_of (34 :: nat)]"

text \<open>Reading a decimal back gives the number, so distinct numbers have distinct texts.\<close>

definition digits_value :: "string \<Rightarrow> nat" where
  "digits_value s = foldl (\<lambda>v c. 10 * v + (of_char c - 48)) 0 s"

lemma digits_value_snoc: "digits_value (s @ [c]) = 10 * digits_value s + (of_char c - 48)"
  by (simp add: digits_value_def)

lemma decimal_of_nat_value: "digits_value (decimal_of_nat n) = n"
proof (induction n rule: decimal_of_nat.induct)
  case (1 n)
  have digit: "of_char (char_of (48 + d) :: char) - 48 = (d :: nat)" if "d < 10" for d
    using that by (simp add: of_char_of)
  show ?case
  proof (cases "n < 10")
    case True
    then show ?thesis
      by (subst decimal_of_nat.simps) (use digit [of n] in \<open>simp add: digits_value_def\<close>)
  next
    case False
    then show ?thesis
      using 1 digit [of "n mod 10"]
      by (subst decimal_of_nat.simps) (simp add: digits_value_snoc)
  qed
qed

lemma decimal_of_nat_inject: "decimal_of_nat m = decimal_of_nat n \<longleftrightarrow> m = n"
  by (metis decimal_of_nat_value)

lemma decimal_of_nat_chars: "c \<in> set (decimal_of_nat n) \<Longrightarrow> 48 \<le> (of_char c :: nat) \<and> (of_char c :: nat) \<le> 57"
proof (induction n rule: decimal_of_nat.induct)
  case (1 n)
  have digit: "of_char (char_of (48 + d) :: char) = 48 + (d :: nat)" if "d < 10" for d
    using that by (simp add: of_char_of)
  show ?case
    using 1 digit [of n] digit [of "n mod 10"]
    by (subst (asm) (2) decimal_of_nat.simps) (auto split: if_splits)
qed

lemma decimal_of_nat_not_Nil [simp]: "decimal_of_nat n \<noteq> []"
  by (subst decimal_of_nat.simps) simp

end
