(* ===== verification/LargeOrderFriction.thy ===== *)
theory LargeOrderFriction
  imports GoText
begin

text \<open>
  The confirmation step for unusually large orders,
  services/oms-gateway/internal/largeorderfriction/largeOrderFriction.go: a bounded history of order
  notionals per account, and a comparison of an order with a multiple of its average. The
  configuration's \<open>int\<close> fields are integers; the averages and multiples are \<open>float64\<close>.
\<close>

record friction_config =
  account_history_multiplier :: float64
  instrument_volume_multiplier :: float64
  minimum_history_samples :: int
  max_history_per_account :: int

definition default_friction_config :: friction_config where
  "default_friction_config = \<lparr>account_history_multiplier = 5, instrument_volume_multiplier = round_float (1 / 10),
     minimum_history_samples = 5, max_history_per_account = 200\<rparr>"

record friction_tracker =
  friction_config_of :: friction_config
  notional_history :: "int64 list table"

datatype friction_config_error =
    AccountHistoryMultiplierTooSmall | InstrumentVolumeMultiplierNotPositive | MinimumHistorySamplesNotPositive

definition new_friction_tracker :: "friction_config \<Rightarrow> friction_config_error + friction_tracker" where
  "new_friction_tracker c =
    (if account_history_multiplier c \<le> 1 then Inl AccountHistoryMultiplierTooSmall
     else if instrument_volume_multiplier c \<le> 0 then Inl InstrumentVolumeMultiplierNotPositive
     else if minimum_history_samples c \<le> 0 then Inl MinimumHistorySamplesNotPositive
     else Inr \<lparr>friction_config_of =
         (if max_history_per_account c \<le> 0 then c\<lparr>max_history_per_account := 200\<rparr> else c),
       notional_history = []\<rparr>)"

definition absolute_amount :: "int64 \<Rightarrow> int64" where
  "absolute_amount n = (if n <s 0 then - n else n)"

definition record_order_notional :: "string \<Rightarrow> int64 \<Rightarrow> friction_tracker \<Rightarrow> friction_tracker" where
  "record_order_notional a notional t =
    (let history = lookup_or [] (notional_history t) a @ [absolute_amount notional];
         bound = nat (max_history_per_account (friction_config_of t));
         kept = (if bound < length history then drop (length history - bound) history else history)
     in t\<lparr>notional_history := put a kept (notional_history t)\<rparr>)"

fun sum_notionals :: "int64 \<Rightarrow> int64 list \<Rightarrow> int64" where
  "sum_notionals acc [] = acc"
| "sum_notionals acc (n # ns) = sum_notionals (acc + n) ns"

definition average_notional :: "string \<Rightarrow> friction_tracker \<Rightarrow> float64 \<times> nat" where
  "average_notional a t = (let history = lookup_or [] (notional_history t) a in
     if history = [] then (0, 0)
     else (float_div (float_of_int64 (sum_notionals 0 history)) (round_float (of_nat (length history))),
           length history))"

record friction_result =
  requires_confirmation :: bool
  friction_reason :: string
  friction_order_notional :: int64
  account_average_notional :: float64
  account_sample_count :: nat
  large_relative_to_history :: bool
  large_relative_to_volume :: bool

definition friction_reason_text ::
    "float_text \<Rightarrow> friction_config \<Rightarrow> int64 \<Rightarrow> float64 \<Rightarrow> bool \<Rightarrow> bool \<Rightarrow> string" where
  "friction_reason_text ft c notional average by_history by_volume =
    (let multiple = ft ''%.1f'' (account_history_multiplier c);
         percent = ft ''%.0f'' (float_mul (instrument_volume_multiplier c) 100)
     in if by_history \<and> by_volume
        then ''this order's notional ('' @ int64_text notional @ '') is unusually large -- more than '' @ multiple @
          ''x your own recent average order size ('' @ ft ''%.0f'' average @ '') AND more than '' @ percent @
          ''% of this instrument's typical volume''
        else if by_history
        then ''this order's notional ('' @ int64_text notional @ '') is more than '' @ multiple @
          ''x your own recent average order size ('' @ ft ''%.0f'' average @ '')''
        else ''this order's notional ('' @ int64_text notional @ '') is more than '' @ percent @
          ''% of this instrument's typical average volume'')"

definition evaluate_order_size ::
    "float_text \<Rightarrow> string \<Rightarrow> int64 \<Rightarrow> int64 \<Rightarrow> friction_tracker \<Rightarrow> friction_result" where
  "evaluate_order_size ft a order_notional average_volume t =
    (let notional = absolute_amount order_notional; c = friction_config_of t in
     case average_notional a t of (average, samples) \<Rightarrow>
       let by_history = (minimum_history_samples c \<le> int samples \<and> 0 < average \<and>
             float_mul average (account_history_multiplier c) < float_of_int64 notional);
           by_volume = (0 <s average_volume \<and>
             float_mul (float_of_int64 average_volume) (instrument_volume_multiplier c) < float_of_int64 notional);
           confirm = (by_history \<or> by_volume)
       in \<lparr>requires_confirmation = confirm,
           friction_reason = (if confirm then friction_reason_text ft c notional average by_history by_volume else ''''),
           friction_order_notional = notional, account_average_notional = average,
           account_sample_count = samples, large_relative_to_history = by_history,
           large_relative_to_volume = by_volume\<rparr>)"

section \<open>Facts\<close>

text \<open>The history of an account never outgrows its bound, and too short a history never flags an order.\<close>

lemma history_bounded:
  assumes "0 < max_history_per_account (friction_config_of t)"
  shows "length (lookup_or [] (notional_history (record_order_notional a n t)) a)
    \<le> nat (max_history_per_account (friction_config_of t))"
  using assms by (simp add: record_order_notional_def Let_def)

lemma short_history_never_flags:
  assumes "int (length (lookup_or [] (notional_history t) a)) < minimum_history_samples (friction_config_of t)"
  shows "\<not> requires_confirmation (evaluate_order_size ft a n 0 t)"
proof -
  have "snd (average_notional a t) = length (lookup_or [] (notional_history t) a)"
    by (simp add: average_notional_def Let_def)
  then show ?thesis
    using assms by (simp add: evaluate_order_size_def Let_def case_prod_unfold)
qed

end
