(* ===== verification/RiskDisclosureGate.thy ===== *)
theory RiskDisclosureGate
  imports Prelude
begin

text \<open>
  The disclosure gate before an account's first derivatives order,
  services/oms-gateway/internal/riskdisclosuregate/riskDisclosureGate.go. Instants are arguments, as in
  the source.
\<close>

section \<open>State and operations\<close>

record acknowledgement_record =
  has_acknowledged :: bool
  acknowledged_at :: instant
  has_placed_first_fno_order :: bool

definition empty_acknowledgement_record :: acknowledgement_record where
  "empty_acknowledgement_record =
    \<lparr>has_acknowledged = False, acknowledged_at = zero_time, has_placed_first_fno_order = False\<rparr>"

record disclosure_gate =
  cooling_off_duration :: duration
  records_by_account :: "acknowledgement_record table"

datatype disclosure_error = NotYetAcknowledged | CoolingOffPeriodNotElapsed

definition new_disclosure_gate :: "duration \<Rightarrow> disclosure_gate option" where
  "new_disclosure_gate d = (if d \<le>s 0 then None else Some \<lparr>cooling_off_duration = d, records_by_account = []\<rparr>)"

definition acknowledge :: "string \<Rightarrow> instant \<Rightarrow> disclosure_gate \<Rightarrow> disclosure_gate" where
  "acknowledge a now g = g\<lparr>records_by_account := put a
     ((lookup_or empty_acknowledgement_record (records_by_account g) a)\<lparr>has_acknowledged := True,
        acknowledged_at := now\<rparr>) (records_by_account g)\<rparr>"

definition disclosure_status :: "string \<Rightarrow> disclosure_gate \<Rightarrow> acknowledgement_record" where
  "disclosure_status a g = lookup_or empty_acknowledgement_record (records_by_account g) a"

definition check_first_fno_order ::
    "string \<Rightarrow> bool \<Rightarrow> instant \<Rightarrow> disclosure_gate \<Rightarrow> disclosure_error option" where
  "check_first_fno_order a is_fno now g =
    (if \<not> is_fno then None
     else case lookup (records_by_account g) a of
       None \<Rightarrow> Some NotYetAcknowledged
     | Some r \<Rightarrow>
         if has_placed_first_fno_order r then None
         else if \<not> has_acknowledged r then Some NotYetAcknowledged
         else if time_sub now (acknowledged_at r) <s cooling_off_duration g
         then Some CoolingOffPeriodNotElapsed else None)"

definition record_first_fno_order :: "string \<Rightarrow> disclosure_gate \<Rightarrow> disclosure_gate" where
  "record_first_fno_order a g = g\<lparr>records_by_account := put a
     ((lookup_or empty_acknowledgement_record (records_by_account g) a)\<lparr>has_placed_first_fno_order := True\<rparr>)
     (records_by_account g)\<rparr>"

section \<open>Histories\<close>

text \<open>
  An account acknowledges the disclosure or submits a derivatives order at some instant; an order
  that passes the check may still be rejected by a later gate (\<open>accepted\<close> is then False), and is
  recorded when it is accepted. The log lists the derivatives orders that were accepted.
\<close>

datatype disclosure_event = Acknowledges string instant | SubmitsFno string instant bool

fun disclosure_run ::
    "disclosure_event list \<Rightarrow> disclosure_gate \<Rightarrow> disclosure_gate \<times> (string \<times> instant) list" where
  "disclosure_run [] g = (g, [])"
| "disclosure_run (Acknowledges a now # es) g = disclosure_run es (acknowledge a now g)"
| "disclosure_run (SubmitsFno a now accepted # es) g =
    (if check_first_fno_order a True now g = None \<and> accepted
     then case disclosure_run es (record_first_fno_order a g) of (g', placed) \<Rightarrow> (g', (a, now) # placed)
     else disclosure_run es g)"

definition acknowledgements_in :: "disclosure_event list \<Rightarrow> disclosure_gate \<Rightarrow> bool" where
  "acknowledgements_in past g \<longleftrightarrow> (\<forall>a r. lookup (records_by_account g) a = Some r \<longrightarrow>
     has_acknowledged r \<longrightarrow> Acknowledges a (acknowledged_at r) \<in> set past)"

lemma acknowledgements_in_step:
  assumes "acknowledgements_in past g"
  shows "acknowledgements_in (past @ [Acknowledges a now]) (acknowledge a now g)"
    and "acknowledgements_in (past @ [e]) g"
    and "acknowledgements_in (past @ [e]) (record_first_fno_order a g)"
  using assms
  by (auto simp: acknowledgements_in_def acknowledge_def record_first_fno_order_def lookup_or_def
    empty_acknowledgement_record_def split: option.splits)

definition placed_first :: "string \<Rightarrow> disclosure_gate \<Rightarrow> bool" where
  "placed_first a g = has_placed_first_fno_order (disclosure_status a g)"

lemma placed_first_simps [simp]:
  "placed_first a (acknowledge b now g) = placed_first a g"
  "placed_first a (record_first_fno_order b g) = (a = b \<or> placed_first a g)"
  "cooling_off_duration (acknowledge b now g) = cooling_off_duration g"
  "cooling_off_duration (record_first_fno_order b g) = cooling_off_duration g"
  by (simp_all add: placed_first_def disclosure_status_def acknowledge_def record_first_fno_order_def
    lookup_or_def split: option.splits)

lemma check_passes:
  assumes "check_first_fno_order a True now g = None" and "\<not> placed_first a g"
    and "acknowledgements_in past g"
  shows "\<exists>t0. Acknowledges a t0 \<in> set past \<and> cooling_off_duration g \<le>s time_sub now t0"
  using assms
  by (auto simp: check_first_fno_order_def placed_first_def disclosure_status_def lookup_or_def
    acknowledgements_in_def word_sless_alt word_sle_eq not_less split: option.splits if_splits)

lemma first_order_acknowledged:
  assumes "disclosure_run es g = (g', placed)" and "lookup placed a = Some t1"
    and "acknowledgements_in past g" and "\<not> placed_first a g"
  shows "\<exists>pre post t0. es = pre @ SubmitsFno a t1 True # post \<and> Acknowledges a t0 \<in> set (past @ pre) \<and>
    cooling_off_duration g \<le>s time_sub t1 t0"
  using assms
proof (induction es g arbitrary: placed past rule: disclosure_run.induct)
  case (2 b now es g)
  obtain pre post t0 where "es = pre @ SubmitsFno a t1 True # post"
    "Acknowledges a t0 \<in> set (past @ Acknowledges b now # pre)" "cooling_off_duration g \<le>s time_sub t1 t0"
    using 2(1) [OF _ 2(3) acknowledgements_in_step(1) [OF 2(4)]] 2(2,5) by auto
  then show ?case by (intro exI [of _ "Acknowledges b now # pre"] exI [of _ post] exI [of _ t0]) auto
next
  case (3 b now accepted es g)
  let ?e = "SubmitsFno b now accepted"
  show ?case
  proof (cases "check_first_fno_order b True now g = None \<and> accepted")
    case False
    then have "disclosure_run es g = (g', placed)" using 3(3) by auto
    from 3(2) [OF False this 3(4) acknowledgements_in_step(2) [OF 3(5), of ?e] 3(6)]
    obtain pre post t0 where "es = pre @ SubmitsFno a t1 True # post"
      "Acknowledges a t0 \<in> set (past @ ?e # pre)" "cooling_off_duration g \<le>s time_sub t1 t0"
      by auto
    then show ?thesis by (intro exI [of _ "?e # pre"] exI [of _ post] exI [of _ t0]) auto
  next
    case True
    obtain placed' where r: "disclosure_run es (record_first_fno_order b g) = (g', placed')"
      and placed: "placed = (b, now) # placed'"
      using 3(3) True by (auto split: prod.splits)
    show ?thesis
    proof (cases "a = b")
      case True
      then have "check_first_fno_order a True t1 g = None" "t1 = now" "accepted"
        using \<open>check_first_fno_order b True now g = None \<and> accepted\<close> 3(4) placed by auto
      with check_passes [OF _ 3(6,5)] True show ?thesis
        by (intro exI [of _ "[]"] exI [of _ es]) auto
    next
      case False
      then obtain pre post t0 where "es = pre @ SubmitsFno a t1 True # post"
        "Acknowledges a t0 \<in> set (past @ ?e # pre)" "cooling_off_duration g \<le>s time_sub t1 t0"
        using 3(1) [OF True r _ acknowledgements_in_step(3) [OF 3(5), of ?e]] 3(4,6) placed by auto
      then show ?thesis by (intro exI [of _ "?e # pre"] exI [of _ post] exI [of _ t0]) auto
    qed
  qed
qed simp

section \<open>Properties\<close>

text \<open>
  No account trades derivatives unwarned: in every history of a new gate, the first derivatives
  order of an account that was accepted comes after an acknowledgement by that account, at least
  the cooling-off duration earlier.
\<close>

theorem first_fno_order_after_cooling_off:
  assumes "new_disclosure_gate d = Some g" and "disclosure_run es g = (g', placed)"
    and "lookup placed a = Some t1"
  shows "\<exists>pre post t0. es = pre @ SubmitsFno a t1 True # post \<and> Acknowledges a t0 \<in> set pre \<and>
    d \<le>s time_sub t1 t0"
proof -
  have g: "cooling_off_duration g = d" "records_by_account g = []"
    using assms(1) by (auto simp: new_disclosure_gate_def split: if_splits)
  then have "acknowledgements_in [] g" "\<not> placed_first a g"
    by (simp_all add: acknowledgements_in_def placed_first_def disclosure_status_def lookup_or_def
      empty_acknowledgement_record_def)
  from first_order_acknowledged [OF assms(2,3) this] show ?thesis
    by (simp add: g)
qed

definition demo_gate :: disclosure_gate where
  "demo_gate = \<lparr>cooling_off_duration = 10, records_by_account = []\<rparr>"

definition demo_disclosure_events :: "disclosure_event list" where
  "demo_disclosure_events =
    [Acknowledges ''a'' 0, SubmitsFno ''a'' 5 True, SubmitsFno ''a'' 20 True]"

lemma demo_gate_run:
  "new_disclosure_gate 10 = Some demo_gate"
  "lookup (snd (disclosure_run demo_disclosure_events demo_gate)) ''a'' = Some 20"
  by (simp_all add: demo_gate_def demo_disclosure_events_def new_disclosure_gate_def acknowledge_def
    check_first_fno_order_def record_first_fno_order_def time_sub_def word_sless_alt word_sle_eq
    lookup_or_def empty_acknowledgement_record_def)

lemma first_fno_order_after_cooling_off_witness:
  "\<exists>pre post t0. demo_disclosure_events = pre @ SubmitsFno ''a'' 20 True # post \<and>
    Acknowledges ''a'' t0 \<in> set pre \<and> 10 \<le>s time_sub 20 t0"
  by (rule first_fno_order_after_cooling_off [OF demo_gate_run(1) prod.collapse [symmetric] demo_gate_run(2)])

end
