(* ===== verification/FractionalShares.thy ===== *)
theory FractionalShares
  imports OrderTypes PositionBook
begin

text \<open>
  Fractional shares in thousandths of a share, services/oms-gateway/internal/fractionalshares
  (fractionalShares.go, milliSharePositionBook.go), and the simulated fills of paper orders,
  services/oms-gateway/internal/papertrading (simulatedFillEngine.go, fractionalFillEngine.go).
\<close>

section \<open>Milli-share quantities\<close>

definition milli_share_units_per_whole_share :: int64 where
  "milli_share_units_per_whole_share = 1000"

definition max_reasonable_milli_share_quantity :: uint64 where
  "max_reasonable_milli_share_quantity = 1000000000000"

datatype milli_share_error =
    MilliShareQuantityMustBePositive
  | MilliShareQuantityExceedsMaximum
  | FractionalSharesOnlySupportedForPaperTrading

definition validate_milli_share_quantity :: "uint64 option \<Rightarrow> bool \<Rightarrow> milli_share_error option" where
  "validate_milli_share_quantity quantity is_paper = (case quantity of
     None \<Rightarrow> None
   | Some q \<Rightarrow>
       if q = 0 then Some MilliShareQuantityMustBePositive
       else if max_reasonable_milli_share_quantity < q then Some MilliShareQuantityExceedsMaximum
       else if \<not> is_paper then Some FractionalSharesOnlySupportedForPaperTrading
       else None)"

definition notional_in_minor_units :: "int64 \<Rightarrow> uint64 \<Rightarrow> int64" where
  "notional_in_minor_units price quantity =
    (if price = 0 \<or> quantity = 0 then 0
     else let numerator = price * quantity;
              quotient = int64_div numerator milli_share_units_per_whole_share;
              rest = int64_mod numerator milli_share_units_per_whole_share
       in if int64_div milli_share_units_per_whole_share 2 \<le>s rest then quotient + 1
          else if rest \<le>s int64_div (- milli_share_units_per_whole_share) 2 then quotient - 1
          else quotient)"

definition format_whole_and_milli_parts :: "int64 \<Rightarrow> int64 \<times> int64" where
  "format_whole_and_milli_parts quantity =
    (let rest = int64_mod quantity milli_share_units_per_whole_share
     in (int64_div quantity milli_share_units_per_whole_share, if rest <s 0 then - rest else rest))"

section \<open>The milli-share position book\<close>

type_synonym milli_share_book = "int64 table table"

definition new_milli_share_book :: milli_share_book where
  "new_milli_share_book = []"

definition adjust_milli_position :: "string \<Rightarrow> string \<Rightarrow> int64 \<Rightarrow> milli_share_book \<Rightarrow> milli_share_book" where
  "adjust_milli_position a ins delta b = nested_put a ins (nested_get 0 b a ins + delta) b"

definition apply_fractional_fill ::
    "string \<Rightarrow> string \<Rightarrow> string \<Rightarrow> uint64 \<Rightarrow> milli_share_book \<Rightarrow> milli_share_book" where
  "apply_fractional_fill buyer seller ins quantity b =
    adjust_milli_position seller ins (- quantity) (adjust_milli_position buyer ins quantity b)"

definition milli_positions_for_account :: "string \<Rightarrow> milli_share_book \<Rightarrow> int64 table" where
  "milli_positions_for_account a b = filter (\<lambda>(ins, q). q \<noteq> 0) (lookup_or [] b a)"

text \<open>The book works as the whole-share book does, in another unit: what is proved of one holds of both.\<close>

lemma milli_share_book_is_position_book:
  "adjust_milli_position = adjust_position" "apply_fractional_fill = apply_fill"
  "milli_positions_for_account = positions_for_account"
  by (intro ext, simp add: adjust_milli_position_def adjust_position_def
    apply_fractional_fill_def apply_fill_def milli_positions_for_account_def positions_for_account_def)+

section \<open>Simulated fills\<close>

datatype simulation_error = LimitPriceMustBePositive | MarketOrderRequiresReferencePrice | MissingMilliShareQuantity

definition simulated_price :: "order_submission_request \<Rightarrow> simulation_error + int64" where
  "simulated_price r =
    (if request_is_market_order r
     then case request_paper_reference_price r of
         None \<Rightarrow> Inl MarketOrderRequiresReferencePrice
       | Some p \<Rightarrow> if p \<le>s 0 then Inl MarketOrderRequiresReferencePrice else Inr p
     else if request_limit_price r \<le>s 0 then Inl LimitPriceMustBePositive
     else Inr (request_limit_price r))"

text \<open>A fill is its price and its quantity, in shares or in thousandths.\<close>

definition simulate_fill :: "order_submission_request \<Rightarrow> simulation_error + int64 \<times> uint64" where
  "simulate_fill r = (case simulated_price r of
     Inl err \<Rightarrow> Inl err | Inr p \<Rightarrow> Inr (p, request_quantity r))"

definition simulate_fractional_fill :: "order_submission_request \<Rightarrow> simulation_error + int64 \<times> uint64" where
  "simulate_fractional_fill r = (case request_milli_share_quantity r of
     None \<Rightarrow> Inl MissingMilliShareQuantity
   | Some q \<Rightarrow> (case simulated_price r of Inl err \<Rightarrow> Inl err | Inr p \<Rightarrow> Inr (p, q)))"

definition synthetic_counterparty :: string where
  "synthetic_counterparty = ''paper-market-maker''"

section \<open>Properties\<close>

text \<open>Rounding a quotient by 1000 to the nearest integer, halves away from zero.\<close>

definition nearest_thousandth :: "int \<Rightarrow> int" where
  "nearest_thousandth n = sgn n * ((\<bar>n\<bar> + 500) div 1000)"

lemma nearest_thousandth_minus [simp]: "nearest_thousandth (- n) = - nearest_thousandth n"
  by (simp add: nearest_thousandth_def sgn_if)

lemma nearest_thousandth_pos: "0 < n \<Longrightarrow> nearest_thousandth n = (n + 500) div 1000"
  by (simp add: nearest_thousandth_def)

lemma nearest_thousandth_close: "\<bar>1000 * nearest_thousandth n - n\<bar> \<le> 500"
proof -
  have pos: "\<bar>1000 * nearest_thousandth m - m\<bar> \<le> 500" if "0 < m" for m
    unfolding nearest_thousandth_pos [OF that]
    using div_mult_mod_eq [of "m + 500" 1000] pos_mod_bound [of 1000 "m + 500"] pos_mod_sign [of 1000 "m + 500"]
    by linarith
  show ?thesis
    using pos [of n] pos [of "- n"] by (cases n "0 :: int" rule: linorder_cases) (simp_all add: nearest_thousandth_def [of 0])
qed

lemma nearest_by_quotient:
  "(if 500 \<le> n smod 1000 then n sdiv 1000 + 1
    else if n smod 1000 \<le> - 500 then n sdiv 1000 - 1 else n sdiv 1000) = nearest_thousandth (n :: int)"
proof -
  have pos: "nearest_thousandth m = (if 500 \<le> m mod 1000 then m div 1000 + 1 else m div 1000)" if "0 < m" for m
  proof -
    have "(m + 500) div 1000 = ((m mod 1000 + 500) + m div 1000 * 1000) div 1000" by simp
    also have "\<dots> = m div 1000 + (m mod 1000 + 500) div 1000" by (rule div_mult_self1) simp
    also have "(m mod 1000 + 500) div 1000 = (if 500 \<le> m mod 1000 then 1 else 0)"
      using pos_mod_bound [of 1000 m] pos_mod_sign [of 1000 m]
      by (auto intro: int_div_pos_eq [of _ _ 1 "m mod 1000 - 500"])
    finally show ?thesis by (simp add: nearest_thousandth_pos [OF that])
  qed
  show ?thesis
  proof (cases n "0 :: int" rule: linorder_cases)
    case less
    then obtain m where m: "n = - m" "0 < m" by (metis minus_minus neg_0_less_iff_less)
    have "\<not> 500 \<le> - (m mod 1000)"
      using pos_mod_sign [of 1000 m] by linarith
    with pos [OF m(2)] m show ?thesis
      by (simp add: signed_divide_int_def signed_modulo_int_def)
  next
    case greater
    have "\<not> n mod 1000 \<le> - 500"
      using pos_mod_sign [of 1000 n] by linarith
    with pos [OF greater] greater show ?thesis
      by (simp add: signed_divide_int_def signed_modulo_int_def)
  qed (simp add: nearest_thousandth_def)
qed

text \<open>
  A fractional order is priced exactly: as long as the product of price and quantity fits in 63
  bits, the notional is that product divided by 1000, rounded to the nearest minor unit with halves
  away from zero, so it is never off by more than half a unit.
\<close>

theorem fractional_notional_exact:
  assumes "uint quantity < 2 ^ 63" and "\<bar>sint price * uint quantity\<bar> < 2 ^ 63 - 1000"
  shows "sint (notional_in_minor_units price quantity) = nearest_thousandth (sint price * uint quantity)
    \<and> \<bar>1000 * sint (notional_in_minor_units price quantity) - sint price * uint quantity\<bar> \<le> 500"
proof -
  define n where "n = sint price * uint quantity"
  have product: "sint (price * quantity) = n"
    using sint_mult64 [of price quantity] assms sint_eq_uint64 [OF assms(1)] by (simp add: n_def)
  have thousand: "sint milli_share_units_per_whole_share = 1000"
    by (simp add: milli_share_units_per_whole_share_def)
  have bounds: "\<bar>n sdiv 1000\<bar> \<le> 2 ^ 63 - 1001" "\<bar>n smod 1000\<bar> < 1000"
    using assms(2) by (auto simp: n_def [symmetric] signed_divide_int_def signed_modulo_int_def abs_mult sgn_if)
  have quotient: "sint (int64_div (price * quantity) milli_share_units_per_whole_share) = n sdiv 1000"
    and rest: "sint (int64_mod (price * quantity) milli_share_units_per_whole_share) = n smod 1000"
    using bounds by (simp_all add: int64_div_def int64_mod_def product thousand sint_of_int64)
  have halves: "sint (int64_div milli_share_units_per_whole_share 2) = 500"
    "sint (int64_div (- milli_share_units_per_whole_share) 2) = - 500"
    by (simp_all add: int64_div_def milli_share_units_per_whole_share_def signed_divide_int_def)
  have "sint (notional_in_minor_units price quantity) = nearest_thousandth n"
  proof (cases "price = 0 \<or> quantity = 0")
    case True
    then show ?thesis by (auto simp: notional_in_minor_units_def n_def nearest_thousandth_def)
  next
    case False
    then show ?thesis
      unfolding nearest_by_quotient [symmetric]
      using quotient rest halves bounds
        sint_add64 [of "int64_div (price * quantity) milli_share_units_per_whole_share" 1]
        sint_sub64 [of "int64_div (price * quantity) milli_share_units_per_whole_share" 1]
      by (simp add: notional_in_minor_units_def Let_def word_sle_eq)
  qed
  then show ?thesis
    using nearest_thousandth_close [of n] by (simp add: n_def)
qed

lemma fractional_notional_exact_witness:
  "sint (notional_in_minor_units 101 1500) = 152"
  using fractional_notional_exact [of 1500 101] by (simp add: nearest_thousandth_def)

text \<open>A validated quantity fits, and the simulated fill of a validated order has a positive price.\<close>

lemma validated_milli_shares:
  "validate_milli_share_quantity quantity is_paper = None \<longleftrightarrow>
    (case quantity of None \<Rightarrow> True | Some q \<Rightarrow> 0 < q \<and> q \<le> max_reasonable_milli_share_quantity \<and> is_paper)"
  by (auto simp: validate_milli_share_quantity_def word_gt_0 not_less split: option.splits)

lemma simulated_fill_positive:
  "simulate_fill r = Inr (p, q) \<Longrightarrow> 0 <s p \<and> q = request_quantity r"
  by (auto simp: simulate_fill_def simulated_price_def word_sle_eq word_sless_alt
    split: sum.splits option.splits if_splits)

end
