(* ===== verification/MarkToMarket.thy ===== *)
theory MarkToMarket
  imports PositionBook
begin

text \<open>
  Mark-to-market of the order gateway, services/oms-gateway/internal/marktomarket/markToMarketEngine.go:
  a weighted-average cost basis per account and instrument, fed by the fills that feed the position
  book, and the unrealized profit against the last pushed price. Where the source iterates over a
  Go map the snapshots come in the order of the list. The one division, by the total quantity of two
  same-signed quantities, has a zero divisor only when both are the least \<open>int64\<close>.
\<close>

section \<open>State and operations\<close>

record cost_basis =
  net_quantity :: int64
  average_entry_price :: int64

definition empty_cost_basis :: cost_basis where
  "empty_cost_basis = \<lparr>net_quantity = 0, average_entry_price = 0\<rparr>"

record mtm_engine =
  cost_bases :: "cost_basis table table"
  market_prices :: "int64 table"

definition new_mtm_engine :: mtm_engine where
  "new_mtm_engine = \<lparr>cost_bases = [], market_prices = []\<rparr>"

definition same_sign :: "int64 \<Rightarrow> int64 \<Rightarrow> bool" where
  "same_sign a b = ((0 <s a \<and> 0 <s b) \<or> (a <s 0 \<and> b <s 0))"

definition abs_int64 :: "int64 \<Rightarrow> int64" where
  "abs_int64 v = (if v <s 0 then - v else v)"

definition average_after_fill :: "cost_basis \<Rightarrow> int64 \<Rightarrow> int64 \<Rightarrow> int64" where
  "average_after_fill c delta price =
    (let new_quantity = net_quantity c + delta in
     if net_quantity c = 0 then price
     else if same_sign (net_quantity c) delta then
       (let old_abs = abs_int64 (net_quantity c); delta_abs = abs_int64 delta;
            weighted = average_entry_price c * old_abs + price * delta_abs
        in int64_div weighted (old_abs + delta_abs))
     else if new_quantity = 0 then 0
     else if same_sign new_quantity (net_quantity c) then average_entry_price c
     else price)"

definition apply_fill_side :: "string \<Rightarrow> string \<Rightarrow> int64 \<Rightarrow> int64 \<Rightarrow> mtm_engine \<Rightarrow> mtm_engine" where
  "apply_fill_side a ins delta price e =
    (let c = nested_get empty_cost_basis (cost_bases e) a ins
     in e\<lparr>cost_bases := nested_put a ins
          \<lparr>net_quantity = net_quantity c + delta, average_entry_price = average_after_fill c delta price\<rparr>
          (cost_bases e)\<rparr>)"

definition apply_mtm_fill :: "string \<Rightarrow> string \<Rightarrow> string \<Rightarrow> uint64 \<Rightarrow> int64 \<Rightarrow> mtm_engine \<Rightarrow> mtm_engine" where
  "apply_mtm_fill buyer seller ins quantity price e =
    apply_fill_side seller ins (- quantity) price (apply_fill_side buyer ins quantity price e)"

definition set_market_price :: "string \<Rightarrow> int64 \<Rightarrow> mtm_engine \<Rightarrow> mtm_engine option" where
  "set_market_price ins price e =
    (if price \<le>s 0 then None else Some (e\<lparr>market_prices := put ins price (market_prices e)\<rparr>))"

definition market_price :: "string \<Rightarrow> mtm_engine \<Rightarrow> int64 option" where
  "market_price ins e = lookup (market_prices e) ins"

record position_mtm =
  mtm_instrument :: string
  mtm_net_quantity :: int64
  mtm_average_entry_price :: int64
  mtm_market_price :: int64
  mtm_unrealized_pnl :: int64

fun snapshot_positions :: "int64 table \<Rightarrow> cost_basis table \<Rightarrow> position_mtm list" where
  "snapshot_positions prices [] = []"
| "snapshot_positions prices ((ins, c) # rest) =
    (if net_quantity c = 0 then snapshot_positions prices rest
     else case lookup prices ins of
       None \<Rightarrow> snapshot_positions prices rest
     | Some price \<Rightarrow>
         \<lparr>mtm_instrument = ins, mtm_net_quantity = net_quantity c,
          mtm_average_entry_price = average_entry_price c, mtm_market_price = price,
          mtm_unrealized_pnl = net_quantity c * (price - average_entry_price c)\<rparr>
         # snapshot_positions prices rest)"

definition positions_mtm_for_account :: "string \<Rightarrow> mtm_engine \<Rightarrow> position_mtm list" where
  "positions_mtm_for_account a e = snapshot_positions (market_prices e) (lookup_or [] (cost_bases e) a)"

fun sum_pnl :: "int64 \<Rightarrow> position_mtm list \<Rightarrow> int64" where
  "sum_pnl acc [] = acc"
| "sum_pnl acc (p # ps) = sum_pnl (acc + mtm_unrealized_pnl p) ps"

definition account_level_unrealized_pnl :: "string \<Rightarrow> mtm_engine \<Rightarrow> int64 \<times> position_mtm list" where
  "account_level_unrealized_pnl a e =
    (let snapshots = positions_mtm_for_account a e in (sum_pnl 0 snapshots, snapshots))"

section \<open>Runs of fills\<close>

text \<open>The gateway feeds every settled fill to the position book and, with its price, to this engine.\<close>

definition apply_mtm_fills :: "(fill \<times> int64) list \<Rightarrow> mtm_engine \<Rightarrow> mtm_engine" where
  "apply_mtm_fills fs e = foldl (\<lambda>e (f, price). apply_mtm_fill (fill_buyer f) (fill_seller f)
     (fill_instrument f) (fill_quantity f) price e) e fs"

definition basis_of :: "mtm_engine \<Rightarrow> string \<Rightarrow> string \<Rightarrow> cost_basis" where
  "basis_of e a ins = nested_get empty_cost_basis (cost_bases e) a ins"

lemma basis_apply_side:
  "basis_of (apply_fill_side a ins delta price e) b j =
    (if b = a \<and> j = ins
     then \<lparr>net_quantity = net_quantity (basis_of e a ins) + delta,
           average_entry_price = average_after_fill (basis_of e a ins) delta price\<rparr>
     else basis_of e b j)"
  by (simp add: basis_of_def apply_fill_side_def Let_def)

lemma net_quantity_fill:
  "net_quantity (basis_of (apply_mtm_fill buyer seller ins q price e) k s) = net_quantity (basis_of e k s)
    + (if s = ins \<and> k = buyer then q else 0) - (if s = ins \<and> k = seller then q else 0)"
  by (simp add: apply_mtm_fill_def basis_apply_side)

lemma net_quantity_run:
  assumes "\<forall>k s. net_quantity (basis_of e k s) = nested_get 0 b k s"
  shows "net_quantity (basis_of (apply_mtm_fills fs e) a ins) = nested_get 0 (apply_fills (map fst fs) b) a ins"
  using assms
proof (induction fs arbitrary: e b)
  case (Cons fp fs)
  obtain f price where fp: "fp = (f, price)" by fastforce
  have "apply_mtm_fills (fp # fs) e = apply_mtm_fills fs (apply_mtm_fill (fill_buyer f) (fill_seller f)
      (fill_instrument f) (fill_quantity f) price e)"
    "apply_fills (map fst (fp # fs)) b = apply_fills (map fst fs) (apply_fill (fill_buyer f) (fill_seller f)
      (fill_instrument f) (fill_quantity f) b)"
    by (simp_all add: apply_mtm_fills_def apply_fills_def fp)
  then show ?case
    using Cons by (simp add: net_quantity_fill position_fill)
qed (simp add: apply_mtm_fills_def apply_fills_def)

text \<open>
  Within the bounds the average stays between the prices paid: \<open>fits c t\<close> says that a basis holds at
  most \<open>t\<close> units and, unless it is flat, an average between the bounds.
\<close>

definition fits :: "int \<Rightarrow> int \<Rightarrow> int \<Rightarrow> cost_basis \<Rightarrow> bool" where
  "fits lo hi t c \<longleftrightarrow> \<bar>sint (net_quantity c)\<bar> \<le> t \<and>
    (net_quantity c \<noteq> 0 \<longrightarrow> lo \<le> sint (average_entry_price c) \<and> sint (average_entry_price c) \<le> hi)"

lemma weighted_average_between:
  fixes a p m n lo hi :: int
  assumes "0 < m" "0 < n" "0 \<le> lo" "lo \<le> a" "a \<le> hi" "lo \<le> p" "p \<le> hi"
  shows "lo \<le> (a * m + p * n) div (m + n) \<and> (a * m + p * n) div (m + n) \<le> hi"
proof -
  have "lo * m \<le> a * m" "lo * n \<le> p * n" "a * m \<le> hi * m" "p * n \<le> hi * n"
    using assms by (simp_all add: mult_right_mono)
  then have "lo * (m + n) \<le> a * m + p * n" "a * m + p * n \<le> hi * (m + n)"
    unfolding distrib_left by linarith+
  moreover have "0 < m + n" using assms by simp
  ultimately show ?thesis
    by (metis mult.commute nonzero_mult_div_cancel_right order_less_irrefl zdiv_mono1)
qed

lemma sint_abs_int64: "x \<noteq> min_int64 \<Longrightarrow> sint (abs_int64 x) = \<bar>sint x\<bar>"
  by (simp add: abs_int64_def sint_uminus64 word_sless_alt)

lemma same_sign_sint: "same_sign x y \<longleftrightarrow> 0 < sint x * sint y"
  by (simp add: same_sign_def word_sless_alt zero_less_mult_iff)

lemma fits_after_fill:
  assumes "fits lo hi t c" and "1 \<le> lo" and "lo \<le> sint price" and "sint price \<le> hi"
    and "\<bar>sint delta\<bar> \<le> d" and "0 \<le> t" and "(t + d) * hi < 2 ^ 63"
  shows "fits lo hi (t + d) \<lparr>net_quantity = net_quantity c + delta,
    average_entry_price = average_after_fill c delta price\<rparr>"
proof -
  define n where "n = sint (net_quantity c)"
  define a where "a = sint (average_entry_price c)"
  have n: "\<bar>n\<bar> \<le> t" and a: "n \<noteq> 0 \<longrightarrow> lo \<le> a \<and> a \<le> hi"
    using assms(1) by (auto simp: fits_def n_def a_def)
  have n0: "n = 0 \<longleftrightarrow> net_quantity c = 0"
    unfolding n_def by (metis signed_0 signed_word_eqI)
  have d: "0 \<le> d" using assms(5) by linarith
  have "t + d \<le> (t + d) * hi"
    using assms(2-4,6) d mult_left_mono [of 1 hi "t + d"] by simp
  then have td: "t + d < 2 ^ 63" using assms(7) by linarith
  have sum: "sint (net_quantity c + delta) = n + sint delta"
    unfolding n_def by (rule sint_add64) (use n assms(5) td n_def in auto)
  have nonmin: "net_quantity c \<noteq> min_int64" "delta \<noteq> min_int64"
    using n assms(5,6) td d sint_min_int64 by (auto simp: n_def)
  have "lo \<le> sint (average_after_fill c delta price) \<and> sint (average_after_fill c delta price) \<le> hi"
    if "net_quantity c + delta \<noteq> 0"
  proof (cases "net_quantity c \<noteq> 0 \<and> same_sign (net_quantity c) delta")
    case False
    then show ?thesis
      using that a n0 assms(3,4) by (auto simp: average_after_fill_def Let_def a_def)
  next
    case True
    then have pos: "0 < \<bar>n\<bar>" "0 < \<bar>sint delta\<bar>"
      by (auto simp: same_sign_sint n_def)
    have bound: "0 \<le> x * y \<and> x * y \<le> y * hi" if "lo \<le> x" "x \<le> hi" "0 \<le> y" for x y
      using that assms(2) by (simp add: mult.commute mult_right_mono)
    have ahi: "lo \<le> a" "a \<le> hi" using a pos by auto
    have "\<bar>n\<bar> * hi + \<bar>sint delta\<bar> * hi \<le> (t + d) * hi"
      unfolding distrib_right [symmetric] using n assms(2-5) by (intro mult_right_mono) auto
    then have total: "\<bar>n\<bar> * hi + \<bar>sint delta\<bar> * hi < 2 ^ 63" using assms(7) by linarith
    note b1 = bound [OF ahi, of "\<bar>n\<bar>"] and b2 = bound [OF assms(3,4), of "\<bar>sint delta\<bar>"]
    have oldw: "sint (average_entry_price c * abs_int64 (net_quantity c)) = a * \<bar>n\<bar>"
      using b1 b2 total by (subst sint_mult64) (simp_all add: sint_abs_int64 [OF nonmin(1)] a_def n_def)
    have newp: "sint (price * abs_int64 delta) = sint price * \<bar>sint delta\<bar>"
      using b1 b2 total by (subst sint_mult64) (simp_all add: sint_abs_int64 [OF nonmin(2)])
    have weighted: "sint (average_entry_price c * abs_int64 (net_quantity c) + price * abs_int64 delta)
        = a * \<bar>n\<bar> + sint price * \<bar>sint delta\<bar>"
      using b1 b2 total by (subst sint_add64) (simp_all add: oldw newp)
    have units: "sint (abs_int64 (net_quantity c) + abs_int64 delta) = \<bar>n\<bar> + \<bar>sint delta\<bar>"
      using n assms(5) td by (subst sint_add64) (simp_all add: sint_abs_int64 nonmin n_def)
    have "0 \<le> lo" using assms(2) by simp
    note w = weighted_average_between [OF pos this ahi assms(3,4)]
    have "sint (average_after_fill c delta price) = (a * \<bar>n\<bar> + sint price * \<bar>sint delta\<bar>) div (\<bar>n\<bar> + \<bar>sint delta\<bar>)"
    proof -
      have "(a * \<bar>n\<bar> + sint price * \<bar>sint delta\<bar>) sdiv (\<bar>n\<bar> + \<bar>sint delta\<bar>) =
          (a * \<bar>n\<bar> + sint price * \<bar>sint delta\<bar>) div (\<bar>n\<bar> + \<bar>sint delta\<bar>)"
        using b1 b2 pos by (auto simp: signed_divide_int_def sgn_if)
      moreover have "1 * hi \<le> (t + d) * hi"
        by (rule mult_right_mono) (use pos n assms(2-6) in linarith)+
      then have "hi < 2 ^ 63" using assms(7) by linarith
      ultimately show ?thesis
        using True w \<open>0 \<le> lo\<close> by (simp add: average_after_fill_def Let_def int64_div_def weighted units sint_of_int64)
    qed
    with w show ?thesis by simp
  qed
  then show ?thesis
    using n assms(5) by (auto simp: fits_def sum)
qed

lemma fits_side:
  assumes "\<forall>k s. fits lo hi t (basis_of e k s)" and "1 \<le> lo" and "lo \<le> sint price" and "sint price \<le> hi"
    and "\<bar>sint delta\<bar> \<le> d" and "0 \<le> t" and "(t + d) * hi < 2 ^ 63"
  shows "\<forall>k s. fits lo hi (t + d) (basis_of (apply_fill_side a ins delta price e) k s)"
proof (intro allI)
  fix k s
  have "0 \<le> d" using assms(5) by linarith
  then have "fits lo hi (t + d) (basis_of e k s)"
    using spec [OF spec [OF assms(1), of k], of s] by (auto simp: fits_def)
  then show "fits lo hi (t + d) (basis_of (apply_fill_side a ins delta price e) k s)"
    using fits_after_fill [OF _ assms(2-7), of "basis_of e a ins"] assms(1) by (simp add: basis_apply_side)
qed

lemma fits_fill:
  assumes "\<forall>k s. fits lo hi t (basis_of e k s)" and "1 \<le> lo" and "lo \<le> sint price" and "sint price \<le> hi"
    and "0 \<le> t" and "(t + 2 * uint q) * hi < 2 ^ 63"
  shows "\<forall>k s. fits lo hi (t + 2 * uint q) (basis_of (apply_mtm_fill buyer seller ins q price e) k s)"
proof -
  define d where "d = uint q"
  have d: "0 \<le> d" by (simp add: d_def)
  have up: "(t + x) * hi < 2 ^ 63" if "x \<le> 2 * d" for x
  proof -
    have "(t + x) * hi \<le> (t + 2 * d) * hi"
      by (rule mult_right_mono) (use that assms(2-4) in linarith)+
    then show ?thesis using assms(6) unfolding d_def by linarith
  qed
  have "t + 2 * d \<le> (t + 2 * d) * hi"
    using mult_left_mono [of 1 hi "t + 2 * d"] assms(2-5) d by simp
  then have "sint q = d"
    unfolding d_def by (intro sint_eq_uint64) (use assms(5,6) d in \<open>simp add: d_def\<close>)
  moreover from this have "q \<noteq> min_int64"
    using d sint_min_int64 by auto
  ultimately have q: "\<bar>sint q\<bar> \<le> d" "\<bar>sint (- q)\<bar> \<le> d"
    using d by (simp_all add: sint_uminus64)
  have buy: "\<forall>k s. fits lo hi (t + d) (basis_of (apply_fill_side buyer ins q price e) k s)"
    by (rule fits_side [OF assms(1-4) q(1) assms(5) up]) (use d in simp)
  have "(t + d + d) * hi < 2 ^ 63" using up [of "2 * d"] by (simp add: algebra_simps)
  from fits_side [OF buy assms(2-4) q(2) _ this, of seller ins] assms(5) d show ?thesis
    by (simp add: apply_mtm_fill_def d_def [symmetric] algebra_simps)
qed

lemma fits_run:
  assumes "\<forall>k s. fits lo hi t (basis_of e k s)" and "1 \<le> lo" and "0 \<le> t"
    and "\<forall>(f, price) \<in> set fs. lo \<le> sint price \<and> sint price \<le> hi"
    and "(t + 2 * (\<Sum>(f, price)\<leftarrow>fs. uint (fill_quantity f))) * hi < 2 ^ 63" and "1 \<le> hi"
  shows "\<forall>k s. fits lo hi (t + 2 * (\<Sum>(f, price)\<leftarrow>fs. uint (fill_quantity f)))
    (basis_of (apply_mtm_fills fs e) k s)"
  using assms
proof (induction fs arbitrary: t e)
  case (Cons fp fs)
  obtain f price where fp: "fp = (f, price)" by fastforce
  define rest where "rest = (\<Sum>(f, price)\<leftarrow>fs. uint (fill_quantity f))"
  have rest: "0 \<le> rest"
    unfolding rest_def by (rule sum_list_nonneg) auto
  let ?t = "t + 2 * uint (fill_quantity f)"
  let ?e = "apply_mtm_fill (fill_buyer f) (fill_seller f) (fill_instrument f) (fill_quantity f) price e"
  have "?t * hi \<le> (?t + 2 * rest) * hi"
    using rest Cons.prems(6) by (intro mult_right_mono) auto
  then have "?t * hi < 2 ^ 63"
    using Cons.prems(5) by (simp add: fp rest_def [symmetric] algebra_simps)
  then have "\<forall>k s. fits lo hi ?t (basis_of ?e k s)"
    using fits_fill [OF Cons.prems(1,2)] Cons.prems(3,4) by (simp add: fp)
  from Cons.IH [OF this Cons.prems(2)] Cons.prems show ?case
    by (simp add: fp apply_mtm_fills_def algebra_simps)
qed (simp add: apply_mtm_fills_def)

section \<open>Properties\<close>

text \<open>
  The two books agree and the cost basis is sound: fed the same fills, the net quantity of every
  cost basis is the position book's; and when all prices lie between two positive bounds and the
  amounts stay within 63 bits, the average entry price of every open position lies between them too.
\<close>

theorem cost_basis_follows_positions:
  fixes a ins :: string
  assumes "\<forall>(f, price) \<in> set fs. lo \<le> sint price \<and> sint price \<le> hi" and "1 \<le> lo" and "1 \<le> hi"
    and "2 * (\<Sum>(f, price)\<leftarrow>fs. uint (fill_quantity f)) * hi < 2 ^ 63"
  defines "c \<equiv> basis_of (apply_mtm_fills fs new_mtm_engine) a ins"
  shows "net_quantity c = nested_get 0 (apply_fills (map fst fs) new_position_book) a ins
    \<and> (net_quantity c \<noteq> 0 \<longrightarrow> lo \<le> sint (average_entry_price c) \<and> sint (average_entry_price c) \<le> hi)"
proof -
  have new: "basis_of new_mtm_engine k s = empty_cost_basis" for k s
    by (simp add: basis_of_def new_mtm_engine_def)
  have "net_quantity c = nested_get 0 (apply_fills (map fst fs) new_position_book) a ins"
    unfolding c_def by (rule net_quantity_run) (simp add: new empty_cost_basis_def new_position_book_def)
  moreover have "fits lo hi (0 + 2 * (\<Sum>(f, price)\<leftarrow>fs. uint (fill_quantity f))) c"
    unfolding c_def
    using fits_run [of lo hi 0 new_mtm_engine fs] assms(1-4) by (simp add: new fits_def empty_cost_basis_def)
  ultimately show ?thesis
    by (simp add: fits_def)
qed

definition demo_fills :: "(fill \<times> int64) list" where
  "demo_fills = [(\<lparr>fill_buyer = ''a'', fill_seller = ''b'', fill_instrument = ''X'', fill_quantity = 10\<rparr>, 100),
     (\<lparr>fill_buyer = ''a'', fill_seller = ''c'', fill_instrument = ''X'', fill_quantity = 30\<rparr>, 200)]"

lemma cost_basis_follows_positions_witness:
  "net_quantity (basis_of (apply_mtm_fills demo_fills new_mtm_engine) ''a'' ''X'') =
     nested_get 0 (apply_fills (map fst demo_fills) new_position_book) ''a'' ''X''"
  using cost_basis_follows_positions [of demo_fills 100 200 "''a''" "''X''"] by (simp add: demo_fills_def)

end
