(* ===== verification/MarginPledge.thy ===== *)
theory MarginPledge
  imports GoFloat PositionBook
begin

text \<open>
  Pledged holdings of the order gateway, services/oms-gateway/internal/marginpledge/marginPledgeBook.go:
  the pledge records per account and instrument, the utilized margin they back, and the quantities
  reserved by sell orders in flight. Haircuts and pledge values are \<open>float64\<close> (GoFloat).
\<close>

section \<open>State and operations\<close>

record pledge_record =
  pledge_instrument :: string
  pledge_quantity :: uint64
  pledge_reference_price :: int64
  pledge_haircut :: float64
  pledge_margin_value :: int64

record pledge_book =
  pledges :: "pledge_record table table"
  utilized_margins :: "int64 table"
  reserved_for_sell :: "uint64 table table"

datatype pledge_error =
    PledgeQuantityMustBePositive
  | ReferencePriceMustBePositive
  | InsufficientUnpledgedHoldingQuantity
  | NoPledgeFoundForSymbol
  | UnpledgeQuantityExceedsPledgedQuantity
  | PledgeStillBackingOpenMarginPosition

definition new_pledge_book :: pledge_book where
  "new_pledge_book = \<lparr>pledges = [], utilized_margins = [], reserved_for_sell = []\<rparr>"

definition default_haircut :: float64 where
  "default_haircut = round_float (20 / 100)"

definition haircut_by_symbol :: "float64 table" where
  "haircut_by_symbol = [(''DEMO-EQ'', round_float (15 / 100))]"

definition haircut_for_symbol :: "string \<Rightarrow> float64" where
  "haircut_for_symbol ins = (case lookup haircut_by_symbol ins of Some p \<Rightarrow> p | None \<Rightarrow> default_haircut)"

definition round_to_nearest_minor_unit :: "float64 \<Rightarrow> int64" where
  "round_to_nearest_minor_unit x =
    (if x < 0 then int64_of_float (float_sub x (1 / 2)) else int64_of_float (float_add x (1 / 2)))"

definition pledge_value :: "string \<Rightarrow> int64 \<Rightarrow> uint64 \<Rightarrow> int64" where
  "pledge_value ins price quantity = round_to_nearest_minor_unit
    (float_mul (float_mul (float_of_int64 price) (float_of_uint64 quantity)) (float_sub 1 (haircut_for_symbol ins)))"

definition pledge_of :: "string \<Rightarrow> string \<Rightarrow> pledge_book \<Rightarrow> pledge_record option" where
  "pledge_of a ins b = nested_lookup (pledges b) a ins"

definition pledged_quantity :: "string \<Rightarrow> string \<Rightarrow> pledge_book \<Rightarrow> uint64" where
  "pledged_quantity a ins b = (case pledge_of a ins b of None \<Rightarrow> 0 | Some r \<Rightarrow> pledge_quantity r)"

definition pledge_holding ::
    "string \<Rightarrow> string \<Rightarrow> uint64 \<Rightarrow> int64 \<Rightarrow> int64 \<Rightarrow> pledge_book \<Rightarrow>
      pledge_error + (pledge_record \<times> int64) \<times> pledge_book" where
  "pledge_holding a ins quantity price net_holding b =
    (if quantity = 0 then Inl PledgeQuantityMustBePositive
     else if price \<le>s 0 then Inl ReferencePriceMustBePositive
     else let available = net_holding - pledged_quantity a ins b in
       if available <s 0 \<or> available < quantity then Inl InsufficientUnpledgedHoldingQuantity
       else let value = pledge_value ins price quantity;
                old = (case pledge_of a ins b of Some r \<Rightarrow> r
                  | None \<Rightarrow> \<lparr>pledge_instrument = ins, pledge_quantity = 0, pledge_reference_price = price,
                      pledge_haircut = haircut_for_symbol ins, pledge_margin_value = 0\<rparr>);
                new = old\<lparr>pledge_quantity := pledge_quantity old + quantity, pledge_reference_price := price,
                  pledge_margin_value := pledge_margin_value old + value\<rparr>
         in Inr ((new, value), b\<lparr>pledges := nested_put a ins new (pledges b)\<rparr>))"

definition total_pledged_margin_value :: "string \<Rightarrow> pledge_book \<Rightarrow> int64" where
  "total_pledged_margin_value a b = table_sum (\<lambda>_ r. pledge_margin_value r) (lookup_or [] (pledges b) a)"

definition unpledge_holding ::
    "string \<Rightarrow> string \<Rightarrow> uint64 \<Rightarrow> pledge_book \<Rightarrow> pledge_error + int64 \<times> pledge_book" where
  "unpledge_holding a ins quantity b =
    (if quantity = 0 then Inl PledgeQuantityMustBePositive
     else case pledge_of a ins b of
       None \<Rightarrow> Inl NoPledgeFoundForSymbol
     | Some r \<Rightarrow>
         if pledge_quantity r < quantity then Inl UnpledgeQuantityExceedsPledgedQuantity
         else let released = int64_div (quantity * pledge_margin_value r) (pledge_quantity r);
                  remaining = total_pledged_margin_value a b - released
           in if remaining <s lookup_or 0 (utilized_margins b) a
              then Inl PledgeStillBackingOpenMarginPosition
              else let r' = r\<lparr>pledge_quantity := pledge_quantity r - quantity,
                         pledge_margin_value := pledge_margin_value r - released\<rparr>
                in Inr (released, b\<lparr>pledges := (if pledge_quantity r' = 0
                     then put a (remove ins (lookup_or [] (pledges b) a)) (pledges b)
                     else nested_put a ins r' (pledges b))\<rparr>))"

definition set_utilized_margin :: "string \<Rightarrow> int64 \<Rightarrow> pledge_book \<Rightarrow> pledge_book" where
  "set_utilized_margin a v b = b\<lparr>utilized_margins := put a v (utilized_margins b)\<rparr>"

definition reserved_for_pending_sell :: "string \<Rightarrow> string \<Rightarrow> pledge_book \<Rightarrow> uint64" where
  "reserved_for_pending_sell a ins b = nested_get 0 (reserved_for_sell b) a ins"

definition reserve_unpledged_for_sell ::
    "string \<Rightarrow> string \<Rightarrow> uint64 \<Rightarrow> int64 \<Rightarrow> pledge_book \<Rightarrow> pledge_error option \<times> pledge_book" where
  "reserve_unpledged_for_sell a ins quantity net_holding b =
    (if quantity = 0 then (None, b)
     else let reserved = reserved_for_pending_sell a ins b;
              available = net_holding - pledged_quantity a ins b - reserved
       in if available <s 0 \<or> available < quantity then (Some InsufficientUnpledgedHoldingQuantity, b)
          else (None, b\<lparr>reserved_for_sell := nested_put a ins (reserved + quantity) (reserved_for_sell b)\<rparr>))"

definition release_sell_reservation :: "string \<Rightarrow> string \<Rightarrow> uint64 \<Rightarrow> pledge_book \<Rightarrow> pledge_book" where
  "release_sell_reservation a ins quantity b =
    (if lookup (reserved_for_sell b) a = None then b
     else let current = reserved_for_pending_sell a ins b;
              released = (if current < quantity then current else quantity)
       in b\<lparr>reserved_for_sell := nested_put a ins (current - released) (reserved_for_sell b)\<rparr>)"

definition pledges_for_account :: "string \<Rightarrow> pledge_book \<Rightarrow> pledge_record table" where
  "pledges_for_account a b = lookup_or [] (pledges b) a"

section \<open>Collateral\<close>

definition pledge_book_ok :: "pledge_book \<Rightarrow> bool" where
  "pledge_book_ok b \<longleftrightarrow> table_ok (pledges b) \<and> (\<forall>a. table_ok (lookup_or [] (pledges b) a))"

lemma pledge_of_put:
  "pledge_of c s (b\<lparr>pledges := nested_put a ins r (pledges b)\<rparr>) =
    (if c = a \<and> s = ins then Some r else pledge_of c s b)"
  by (simp add: pledge_of_def)

lemma pledge_of_remove:
  "pledge_of c s (b\<lparr>pledges := put a (remove ins (lookup_or [] (pledges b) a)) (pledges b)\<rparr>) =
    (if c = a \<and> s = ins then None else pledge_of c s b)"
  by (simp add: pledge_of_def nested_lookup_def)

lemma table_sum_remove:
  fixes f :: "'k \<Rightarrow> 'v \<Rightarrow> 'a::ab_group_add"
  assumes "table_ok t"
  shows "table_sum f (remove k t) = table_sum f t - (case lookup t k of None \<Rightarrow> 0 | Some w \<Rightarrow> f k w)"
  using assms
proof (induction t)
  case (Cons kv t)
  obtain k' v' where kv: "kv = (k', v')" by fastforce
  have "table_ok t" "lookup t k' = None"
    using Cons.prems by (auto simp: kv table_ok_def map_of_eq_None_iff)
  moreover from this have "remove k' t = t"
    by (simp add: delete_id map_of_eq_None_iff)
  ultimately show ?case
    using Cons.IH by (auto simp: kv)
qed simp

lemma total_after_put:
  assumes "pledge_book_ok b"
  shows "total_pledged_margin_value c (b\<lparr>pledges := nested_put a ins r (pledges b)\<rparr>) =
    total_pledged_margin_value c b + (if c = a then pledge_margin_value r -
      (case pledge_of a ins b of None \<Rightarrow> 0 | Some w \<Rightarrow> pledge_margin_value w) else 0)"
  using assms table_sum_put [of "lookup_or [] (pledges b) a" "\<lambda>_ r. pledge_margin_value r" ins r]
  by (simp add: total_pledged_margin_value_def nested_put_def pledge_book_ok_def pledge_of_def nested_lookup_def)

lemma total_after_remove:
  assumes "pledge_book_ok b"
  shows "total_pledged_margin_value c (b\<lparr>pledges := put a (remove ins (lookup_or [] (pledges b) a)) (pledges b)\<rparr>) =
    total_pledged_margin_value c b - (if c = a then
      (case pledge_of a ins b of None \<Rightarrow> 0 | Some w \<Rightarrow> pledge_margin_value w) else 0)"
  using assms table_sum_remove [of "lookup_or [] (pledges b) a" "\<lambda>_ r. pledge_margin_value r" ins]
  by (simp add: total_pledged_margin_value_def pledge_book_ok_def pledge_of_def nested_lookup_def)

lemma pledge_book_ok_put: "pledge_book_ok b \<Longrightarrow> pledge_book_ok (b\<lparr>pledges := nested_put a ins r (pledges b)\<rparr>)"
  by (simp add: pledge_book_ok_def nested_put_def)

lemma nonneg_int64: "0 \<le> sint (x :: int64) \<Longrightarrow> sint x = uint x"
proof -
  assume "0 \<le> sint x"
  have "uint x = take_bit 64 (sint x)"
    by (simp add: uint_sint)
  also have "\<dots> = sint x"
    using \<open>0 \<le> sint x\<close> sint_le_max64 [of x] by (simp add: take_bit_int_eq_self)
  finally show ?thesis by simp
qed

lemma unsigned_available:
  fixes available quantity :: "64 word"
  assumes "\<not> available <s 0" and "\<not> available < quantity"
  shows "uint quantity \<le> sint available" and "uint quantity < 2 ^ 63"
proof -
  have "0 \<le> sint available" using assms(1) by (simp add: word_sless_alt)
  moreover have "sint available = uint available"
    using calculation by (metis nonneg_int64)
  moreover have "uint quantity \<le> uint available" using assms(2) by (simp add: not_less word_le_def)
  ultimately show "uint quantity \<le> sint available" "uint quantity < 2 ^ 63"
    using sint_bounds64 [of available] by auto
qed

lemma int64_div_mult_self:
  assumes "uint q < 2 ^ 63" and "q \<noteq> 0" and "\<bar>uint q * sint v\<bar> < 2 ^ 63"
  shows "int64_div (q * v) q = v"
proof -
  have "sint (q * v) = uint q * sint v"
    using sint_mult64 [of q v] assms(3) sint_eq_uint64 [OF assms(1)] by simp
  moreover have "(0 :: int) < uint q" using assms(2) uint_0_iff [of q] uint_ge_0 [of q] by linarith
  moreover have "(x * y) sdiv x = y" if "0 < x" for x y :: int
    using that by (simp add: signed_divide_int_def sgn_mult abs_mult mult_sgn_abs)
  ultimately show ?thesis
    by (simp add: int64_div_def sint_eq_uint64 [OF assms(1)])
qed

section \<open>Properties\<close>

text \<open>
  A pledge can be taken back: pledging a holding that was not pledged and unpledging the same
  quantity succeeds whenever the other collateral covers the utilized margin, takes away exactly the
  margin that pledging gave, and restores every pledge of the book.
\<close>

theorem pledge_unpledge_round_trip:
  assumes "pledge_book_ok b" and "pledge_of a ins b = None"
    and "pledge_holding a ins quantity price net_holding b = Inr ((r, v), b')"
    and "\<bar>uint quantity * sint v\<bar> < 2 ^ 63"
    and "\<not> total_pledged_margin_value a b <s lookup_or 0 (utilized_margins b) a"
  shows "\<exists>b''. unpledge_holding a ins quantity b' = Inr (v, b'')
    \<and> (\<forall>c s. pledge_of c s b'' = pledge_of c s b)
    \<and> total_pledged_margin_value a b'' = total_pledged_margin_value a b"
proof -
  have q: "quantity \<noteq> 0" and small: "uint quantity < 2 ^ 63"
    using assms(3) unsigned_available(2) by (auto simp: pledge_holding_def Let_def split: if_splits)
  have b': "b' = b\<lparr>pledges := nested_put a ins r (pledges b)\<rparr>"
    and r: "pledge_quantity r = quantity" "pledge_margin_value r = v"
    using assms(2,3) by (auto simp: pledge_holding_def Let_def split: if_splits)
  have released: "int64_div (quantity * v) quantity = v"
    by (rule int64_div_mult_self) (use q small assms(4) in simp_all)
  have of': "pledge_of a ins b' = Some r" by (simp add: b' pledge_of_put)
  have "total_pledged_margin_value a b' - v = total_pledged_margin_value a b"
    using total_after_put [OF assms(1), of a a ins r] assms(2) by (simp add: b' r)
  then have "unpledge_holding a ins quantity b' =
      Inr (v, b'\<lparr>pledges := put a (remove ins (lookup_or [] (pledges b') a)) (pledges b')\<rparr>)"
    using q of' released assms(5) by (simp add: unpledge_holding_def Let_def r) (simp add: b')
  moreover have "pledge_of c s (b'\<lparr>pledges := put a (remove ins (lookup_or [] (pledges b') a)) (pledges b')\<rparr>)
      = pledge_of c s b" for c s
    using assms(2) unfolding pledge_of_remove by (auto simp: b' pledge_of_put)
  moreover have "total_pledged_margin_value a
      (b'\<lparr>pledges := put a (remove ins (lookup_or [] (pledges b') a)) (pledges b')\<rparr>) = total_pledged_margin_value a b"
    using total_after_remove [of b' a a ins] pledge_book_ok_put [OF assms(1)] of'
      \<open>total_pledged_margin_value a b' - v = _\<close> by (simp add: b' r)
  ultimately show ?thesis by blast
qed

text \<open>A haircut of twenty percent is not a float, the value of a round lot is exact all the same.\<close>

lemma demo_pledge_value: "pledge_value ''X'' 100 10 = 800"
proof -
  have inputs: "float_of_int64 100 = 100" "float_of_uint64 10 = 10" "float_mul 100 10 = 1000"
    using round_float_int [of 100] round_float_int [of 10] round_float_int [of 1000]
    by (simp_all add: float_of_int64_def float_of_uint64_def float_mul_def)
  have kept: "float_sub 1 (round_float (1 / 5)) = 3602879701896397 / 4503599627370496"
    unfolding float_sub_def round_float_one_fifth
    by (subst round_float_binade [of "- 1"]) (simp_all add: float_computation)
  have product: "float_mul 1000 (3602879701896397 / 4503599627370496) = 800"
    unfolding float_mul_def
    by (subst round_float_binade [of 9]) (simp_all add: float_computation)
  have half: "float_add 800 (1 / 2) = 1601 / 2"
    unfolding float_add_def by (subst round_float_binade [of 9]) (simp_all add: float_computation)
  show ?thesis
    by (simp add: pledge_value_def haircut_for_symbol_def haircut_by_symbol_def default_haircut_def inputs kept
      product half round_to_nearest_minor_unit_def int64_of_float_def)
qed

lemma pledge_unpledge_round_trip_witness:
  "\<exists>r b' b''. pledge_holding ''a'' ''X'' 10 100 50 new_pledge_book = Inr ((r, 800), b') \<and>
    unpledge_holding ''a'' ''X'' 10 b' = Inr (800, b'')"
proof -
  obtain r b' where p: "pledge_holding ''a'' ''X'' 10 100 50 new_pledge_book = Inr ((r, 800), b')"
    by (simp add: pledge_holding_def new_pledge_book_def pledged_quantity_def pledge_of_def Let_def
      word_sle_eq word_sless_alt demo_pledge_value)
  have "pledge_book_ok new_pledge_book" "pledge_of ''a'' ''X'' new_pledge_book = None"
    "\<not> total_pledged_margin_value ''a'' new_pledge_book <s lookup_or 0 (utilized_margins new_pledge_book) ''a''"
    by (simp_all add: pledge_book_ok_def new_pledge_book_def lookup_or_def pledge_of_def
      total_pledged_margin_value_def)
  from pledge_unpledge_round_trip [OF this(1,2) p _ this(3)] p show ?thesis by auto
qed

section \<open>Concurrent sell orders\<close>

text \<open>
  Sell orders of many accounts interleave with fills and purchases. Each step is one locked operation
  of a book; \<open>open_sells\<close> is what the accepted sell orders still have reserved. A sell order reads the
  holding and reserves in one step here; in the gateway these are two steps (see below).
\<close>

record sell_system =
  holdings :: position_book
  sell_book :: pledge_book
  open_sells :: "(string \<times> string \<times> uint64) multiset"

definition holding_of :: "sell_system \<Rightarrow> string \<Rightarrow> string \<Rightarrow> int64" where
  "holding_of s a ins = nested_get 0 (holdings s) a ins"

inductive sell_step :: "sell_system \<Rightarrow> sell_system \<Rightarrow> bool" where
  sell_reserved: "reserve_unpledged_for_sell a ins q (holding_of s a ins) (sell_book s) = (None, b) \<Longrightarrow>
    sell_step s (s\<lparr>sell_book := b, open_sells := add_mset (a, ins, q) (open_sells s)\<rparr>)"
| sell_refused: "reserve_unpledged_for_sell a ins q (holding_of s a ins) (sell_book s) = (Some err, b) \<Longrightarrow>
    sell_step s (s\<lparr>sell_book := b\<rparr>)"
| sell_filled: "open_sells s = add_mset (a, ins, q) R \<Longrightarrow> k \<le> q \<Longrightarrow>
    sell_step s (s\<lparr>holdings := adjust_position a ins (- k) (holdings s),
      sell_book := release_sell_reservation a ins k (sell_book s), open_sells := add_mset (a, ins, q - k) R\<rparr>)"
| sell_released: "open_sells s = add_mset (a, ins, q) R \<Longrightarrow>
    sell_step s (s\<lparr>sell_book := release_sell_reservation a ins q (sell_book s), open_sells := R\<rparr>)"
| bought: "sint (holding_of s a ins) + uint k < 2 ^ 63 \<Longrightarrow>
    sell_step s (s\<lparr>holdings := adjust_position a ins k (holdings s)\<rparr>)"

inductive_cases sell_stepE: "sell_step s t"

definition open_total :: "(string \<times> string \<times> uint64) multiset \<Rightarrow> string \<Rightarrow> string \<Rightarrow> int" where
  "open_total R a ins = (\<Sum>(b, j, q)\<in>#R. if b = a \<and> j = ins then uint q else 0)"

definition sell_init :: "sell_system \<Rightarrow> bool" where
  "sell_init s \<longleftrightarrow> open_sells s = {#} \<and> reserved_for_sell (sell_book s) = [] \<and>
    (\<forall>a ins. uint (pledged_quantity a ins (sell_book s)) \<le> sint (holding_of s a ins))"

definition sell_inv :: "sell_system \<Rightarrow> bool" where
  "sell_inv s \<longleftrightarrow> (\<forall>a ins.
     uint (reserved_for_pending_sell a ins (sell_book s)) = open_total (open_sells s) a ins \<and>
     uint (pledged_quantity a ins (sell_book s)) + open_total (open_sells s) a ins \<le> sint (holding_of s a ins))"

lemma open_total_simps [simp]:
  "open_total {#} a ins = 0"
  "open_total (add_mset (b, j, q) R) a ins = (if b = a \<and> j = ins then uint q else 0) + open_total R a ins"
  by (simp_all add: open_total_def)

lemma open_total_nonneg: "0 \<le> open_total R a ins"
  by (induction R) auto

lemma sell_inv_bounds:
  assumes "sell_inv s"
  shows "uint (reserved_for_pending_sell a ins (sell_book s)) = open_total (open_sells s) a ins"
    and "uint (pledged_quantity a ins (sell_book s)) + open_total (open_sells s) a ins \<le> sint (holding_of s a ins)"
  using assms unfolding sell_inv_def by blast+

lemma pledged_unchanged [simp]:
  "pledged_quantity a ins (release_sell_reservation b j q p) = pledged_quantity a ins p"
  "pledged_quantity a ins (p\<lparr>reserved_for_sell := r\<rparr>) = pledged_quantity a ins p"
  by (simp_all add: pledged_quantity_def pledge_of_def release_sell_reservation_def Let_def)

lemma reserved_after_release:
  assumes "q \<le> reserved_for_pending_sell a ins p"
  shows "reserved_for_pending_sell c s (release_sell_reservation a ins q p) =
    (if c = a \<and> s = ins then reserved_for_pending_sell a ins p - q else reserved_for_pending_sell c s p)"
proof (cases "lookup (reserved_for_sell p) a")
  case None
  then have "reserved_for_pending_sell a ins p = 0"
    by (simp add: reserved_for_pending_sell_def nested_get_def lookup_or_def)
  with assms None show ?thesis
    by (auto simp: release_sell_reservation_def)
next
  case (Some t)
  then show ?thesis
    using assms by (auto simp: release_sell_reservation_def reserved_for_pending_sell_def Let_def not_less)
qed

lemma uint_add64: "uint q + uint r < 2 ^ 64 \<Longrightarrow> uint (q + r :: uint64) = uint q + uint r"
  using uint_add_lem [of q r] by simp

lemma uint_diff64: "q \<le> r \<Longrightarrow> uint (r - q :: uint64) = uint r - uint q"
  by (simp add: uint_minus_simple_alt word_le_def)

lemma reserve_exact:
  assumes "uint (pledged_quantity a ins p) + uint (reserved_for_pending_sell a ins p) \<le> sint h"
    and "reserve_unpledged_for_sell a ins q h p = (None, p')"
  shows "uint (pledged_quantity a ins p) + uint (reserved_for_pending_sell a ins p) + uint q \<le> sint h"
    and "uint (reserved_for_pending_sell a ins p') = uint (reserved_for_pending_sell a ins p) + uint q"
    and "(c, s) \<noteq> (a, ins) \<Longrightarrow> reserved_for_pending_sell c s p' = reserved_for_pending_sell c s p"
    and "pledged_quantity c s p' = pledged_quantity c s p"
proof -
  let ?p = "pledged_quantity a ins p" and ?r = "reserved_for_pending_sell a ins p"
  have nonneg: "0 \<le> uint ?p" "0 \<le> uint ?r" by simp_all
  then have le: "uint ?p < 2 ^ 63" "uint ?r < 2 ^ 63" "uint ?p \<le> sint h" "uint ?r \<le> sint h"
    using assms(1) sint_bounds64 [of h] by linarith+
  have sp: "sint ?p = uint ?p" and sr: "sint ?r = uint ?r"
    using le by (auto intro: sint_eq_uint64)
  have first: "sint (h - ?p) = sint h - sint ?p"
    by (rule sint_sub64) (use sp le nonneg sint_bounds64 [of h] in linarith)+
  have "sint (h - ?p - ?r) = sint (h - ?p) - sint ?r"
    by (rule sint_sub64) (use first sp sr le nonneg sint_bounds64 [of h] assms(1) in linarith)+
  then have available: "sint (h - ?p - ?r) = sint h - uint ?p - uint ?r"
    by (simp add: first sp sr)
  show "uint ?p + uint ?r + uint q \<le> sint h"
    using assms available unsigned_available(1) [of "h - ?p - ?r" q]
    by (auto simp: reserve_unpledged_for_sell_def Let_def split: if_splits)
  then have "uint ?r + uint q \<le> sint h" using nonneg by linarith
  then have "uint (?r + q) = uint ?r + uint q"
    by (intro uint_add64) (use sint_bounds64 [of h] in simp)
  then show "uint (reserved_for_pending_sell a ins p') = uint ?r + uint q"
    using assms(2) by (auto simp: reserve_unpledged_for_sell_def reserved_for_pending_sell_def Let_def split: if_splits)
  show "(c, s) \<noteq> (a, ins) \<Longrightarrow> reserved_for_pending_sell c s p' = reserved_for_pending_sell c s p"
    "pledged_quantity c s p' = pledged_quantity c s p"
    using assms(2) by (auto simp: reserve_unpledged_for_sell_def reserved_for_pending_sell_def Let_def split: if_splits)
qed

lemma reserve_refused: "reserve_unpledged_for_sell a ins q h p = (Some err, p') \<Longrightarrow> p' = p"
  by (auto simp: reserve_unpledged_for_sell_def Let_def split: if_splits)

lemma holding_of_update [simp]:
  "holding_of (s\<lparr>sell_book := p\<rparr>) = holding_of s"
  "holding_of (s\<lparr>open_sells := R\<rparr>) = holding_of s"
  "holding_of (s\<lparr>holdings := adjust_position a ins d (holdings s)\<rparr>) c j =
    holding_of s c j + (if c = a \<and> j = ins then d else 0)"
  by (simp_all add: holding_of_def fun_eq_iff position_adjust)

lemma sell_invI:
  assumes "\<And>c j. uint (reserved_for_pending_sell c j (sell_book s)) = open_total (open_sells s) c j \<and>
    uint (pledged_quantity c j (sell_book s)) + open_total (open_sells s) c j \<le> sint (holding_of s c j)"
  shows "sell_inv s"
  using assms unfolding sell_inv_def by blast

lemma sell_inv_filled:
  assumes "sell_inv s" and "open_sells s = add_mset (a, ins, q) R" and "k \<le> q"
  shows "sell_inv (s\<lparr>holdings := adjust_position a ins (- k) (holdings s),
    sell_book := release_sell_reservation a ins k (sell_book s), open_sells := add_mset (a, ins, q - k) R\<rparr>)"
proof -
  note i = sell_inv_bounds [OF assms(1), unfolded assms(2) open_total_simps]
  have rest: "0 \<le> open_total R a ins" by (rule open_total_nonneg)
  have kq: "uint k \<le> uint q" "uint (q - k) = uint q - uint k"
    using assms(3) by (simp_all add: word_le_def uint_diff64)
  have le: "k \<le> reserved_for_pending_sell a ins (sell_book s)"
    using i(1) [of a ins] kq rest by (simp add: word_le_def)
  have h: "uint k \<le> sint (holding_of s a ins)"
    using i(2) [of a ins] rest kq(1) uint_ge_0 [of "pledged_quantity a ins (sell_book s)"] unfolding if_True simp_thms
    by linarith
  have sk: "sint k = uint k"
    by (rule sint_eq_uint64) (use h sint_bounds64 [of "holding_of s a ins"] in linarith)
  have "sint (holding_of s a ins - k) = sint (holding_of s a ins) - sint k"
    by (rule sint_sub64) (use h sk sint_bounds64 [of "holding_of s a ins"] uint_ge_0 [of k] in linarith)+
  then have sold: "sint (holding_of s a ins - k) = sint (holding_of s a ins) - uint k"
    by (simp add: sk)
  show ?thesis
    apply (rule sell_invI)
    subgoal for c j
      using i [of c j] i [of a ins] sold kq uint_diff64 [OF le]
      by (cases "c = a \<and> j = ins") (auto simp: reserved_after_release [OF le])
    done
qed

lemma sell_inv_released:
  assumes "sell_inv s" and "open_sells s = add_mset (a, ins, q) R"
  shows "sell_inv (s\<lparr>sell_book := release_sell_reservation a ins q (sell_book s), open_sells := R\<rparr>)"
proof -
  note i = sell_inv_bounds [OF assms(1), unfolded assms(2) open_total_simps]
  have le: "q \<le> reserved_for_pending_sell a ins (sell_book s)"
    using i(1) [of a ins] open_total_nonneg [of R a ins] by (simp add: word_le_def)
  have less: "x + (uint q + y) \<le> z \<Longrightarrow> x + y \<le> z" for x y z
    using uint_ge_0 [of q] by linarith
  show ?thesis
    apply (rule sell_invI)
    subgoal for c j
      using i [of c j] uint_diff64 [OF le]
      by (cases "c = a \<and> j = ins") (auto simp: reserved_after_release [OF le] intro: less)
    done
qed

lemma sell_inv_reserved:
  assumes "sell_inv s" and "reserve_unpledged_for_sell a ins q (holding_of s a ins) (sell_book s) = (None, b)"
  shows "sell_inv (s\<lparr>sell_book := b, open_sells := add_mset (a, ins, q) (open_sells s)\<rparr>)"
proof -
  note i = sell_inv_bounds [OF assms(1)]
  have "uint (pledged_quantity a ins (sell_book s)) + uint (reserved_for_pending_sell a ins (sell_book s))
      \<le> sint (holding_of s a ins)"
    using i by simp
  note r = reserve_exact [OF this assms(2)]
  show ?thesis
    apply (rule sell_invI)
    subgoal for c j
      using r(1,2) r(3,4) [of c j] i [of c j] by (cases "c = a \<and> j = ins") (auto simp: add.commute)
    done
qed

lemma sell_inv_step:
  assumes "sell_inv s" and "sell_step s t"
  shows "sell_inv t"
  using assms(2)
proof cases
  case (bought a ins k)
  note i = sell_inv_bounds [OF assms(1)]
  have h: "0 \<le> sint (holding_of s a ins)"
    using i(2) [of a ins] open_total_nonneg [of "open_sells s" a ins]
      uint_ge_0 [of "pledged_quantity a ins (sell_book s)"] by linarith
  have "sint k = uint k"
    by (rule sint_eq_uint64) (use h bought(2) in linarith)
  then have "sint (holding_of s a ins + k) = sint (holding_of s a ins) + uint k"
    using sint_add64 [of "holding_of s a ins" k] h bought(2) uint_ge_0 [of k] by linarith
  moreover have grow: "x \<le> y \<Longrightarrow> x \<le> y + uint k" for x y
    using uint_ge_0 [of k] by linarith
  ultimately show ?thesis
    unfolding bought(1)
    apply (intro sell_invI)
    subgoal for c j
      using i [of c j] by (cases "c = a \<and> j = ins") (auto intro: grow)
    done
next
  case (sell_refused a ins q err b)
  then show ?thesis using assms(1) reserve_refused [OF sell_refused(2)] by simp
qed (use sell_inv_reserved [OF assms(1)] sell_inv_filled [OF assms(1)] sell_inv_released [OF assms(1)] in blast)+

lemma sell_inv_init: "sell_init s \<Longrightarrow> sell_inv s"
  by (simp add: sell_init_def sell_inv_def reserved_for_pending_sell_def)

interpretation sells: invariant_system sell_init sell_step sell_inv
  by unfold_locales (auto intro: sell_inv_init sell_inv_step)

text \<open>
  Accepted sell orders stay covered: however reservations, fills, releases and purchases
  interleave, what an account's accepted sell orders of an instrument still have open, together with
  what it has pledged, never exceeds its holding. Every check is exact: what is reserved is the sum
  of the open sell orders.
\<close>

theorem open_sells_stay_covered:
  assumes "reachable_by sell_init sell_step s"
  shows "uint (pledged_quantity a ins (sell_book s)) + open_total (open_sells s) a ins \<le> sint (holding_of s a ins)
    \<and> uint (reserved_for_pending_sell a ins (sell_book s)) = open_total (open_sells s) a ins"
  using sell_inv_bounds [OF sells.inv_reachable [OF assms]] by blast

definition demo_holdings :: position_book where
  "demo_holdings = [(''a'', [(''X'', 100)])]"

lemma demo_sell:
  "reachable_by sell_init sell_step \<lparr>holdings = demo_holdings,
    sell_book = new_pledge_book\<lparr>reserved_for_sell := [(''a'', [(''X'', 70)])]\<rparr>, open_sells = {#(''a'', ''X'', 70)#}\<rparr>"
proof -
  let ?s = "\<lparr>holdings = demo_holdings, sell_book = new_pledge_book, open_sells = {#}\<rparr>"
  have "reachable_by sell_init sell_step ?s"
    by (rule reachable_init) (simp add: sell_init_def new_pledge_book_def pledged_quantity_def pledge_of_def
      holding_of_def demo_holdings_def nested_get_def lookup_or_def)
  moreover have "sell_step ?s (?s\<lparr>sell_book := new_pledge_book\<lparr>reserved_for_sell := [(''a'', [(''X'', 70)])]\<rparr>,
      open_sells := add_mset (''a'', ''X'', 70) (open_sells ?s)\<rparr>)"
    by (rule sell_reserved) (simp add: reserve_unpledged_for_sell_def new_pledge_book_def pledged_quantity_def
      pledge_of_def reserved_for_pending_sell_def holding_of_def demo_holdings_def nested_get_def nested_put_def
      lookup_or_def Let_def word_sless_alt)
  ultimately show ?thesis using reachable_step by fastforce
qed

lemma open_sells_stay_covered_witness:
  "open_total {#(''a'', ''X'', 70)#} ''a'' ''X'' \<le> 100"
  using open_sells_stay_covered [OF demo_sell, of "''a''" "''X''"]
  by (simp add: new_pledge_book_def pledged_quantity_def pledge_of_def holding_of_def demo_holdings_def
    nested_get_def lookup_or_def)

text \<open>
  The gateway reads the holding before it asks for the reservation, outside the lock. When another
  sell order is filled and its reservation released in between, the reservation is granted against a
  holding that is gone: an account without a share has an accepted order to sell 100.
\<close>

theorem stale_holding_oversells:
  defines "read_holding \<equiv> nested_get 0 demo_holdings ''a'' ''X''"
  defines "first \<equiv> reserve_unpledged_for_sell ''a'' ''X'' 100 read_holding new_pledge_book"
  defines "sold \<equiv> adjust_position ''a'' ''X'' (- 100) demo_holdings"
  defines "second \<equiv> reserve_unpledged_for_sell ''a'' ''X'' 100 read_holding
     (release_sell_reservation ''a'' ''X'' 100 (snd first))"
  shows "fst first = None \<and> nested_get 0 sold ''a'' ''X'' = 0 \<and> fst second = None
    \<and> reserved_for_pending_sell ''a'' ''X'' (snd second) = 100"
  by (simp add: second_def sold_def first_def read_holding_def demo_holdings_def reserve_unpledged_for_sell_def
    release_sell_reservation_def new_pledge_book_def pledged_quantity_def pledge_of_def adjust_position_def
    reserved_for_pending_sell_def nested_get_def nested_put_def nested_lookup_def lookup_or_def Let_def word_sless_alt)

text \<open>
  Pledging does not look at the reservations of sell orders: shares that an accepted order is about to
  sell can be pledged, and count as collateral and as sold.
\<close>

theorem pledge_ignores_sell_reservations:
  defines "reserved \<equiv> snd (reserve_unpledged_for_sell ''a'' ''X'' 100 100 new_pledge_book)"
  shows "reserved_for_pending_sell ''a'' ''X'' reserved = 100
    \<and> (\<exists>r b. pledge_holding ''a'' ''X'' 100 100 100 reserved = Inr (r, b)
        \<and> pledged_quantity ''a'' ''X'' b = 100 \<and> reserved_for_pending_sell ''a'' ''X'' b = 100)"
  by (simp add: reserved_def reserve_unpledged_for_sell_def pledge_holding_def new_pledge_book_def
    pledged_quantity_def pledge_of_def reserved_for_pending_sell_def nested_get_def nested_put_def
    nested_lookup_def lookup_or_def Let_def word_sless_alt word_sle_eq)

text \<open>A partial unpledge takes away exactly what it reports and never undercuts the utilized margin.\<close>

lemma partial_unpledge_exact:
  assumes "pledge_book_ok b" and "unpledge_holding a ins quantity b = Inr (released, b')"
    and "quantity \<noteq> pledged_quantity a ins b"
  shows "pledged_quantity a ins b' = pledged_quantity a ins b - quantity
    \<and> total_pledged_margin_value a b' = total_pledged_margin_value a b - released
    \<and> \<not> total_pledged_margin_value a b' <s lookup_or 0 (utilized_margins b') a"
proof -
  obtain r where r: "pledge_of a ins b = Some r"
    using assms(2) by (auto simp: unpledge_holding_def split: if_splits option.splits)
  show ?thesis
    using assms(2,3) r total_after_put [OF assms(1), of a a ins]
    by (auto simp: unpledge_holding_def Let_def pledged_quantity_def pledge_of_put split: if_splits)
qed

text \<open>
  Unpledging multiplies the quantity with the margin value before it divides: when the product wraps,
  the whole pledge is taken back and no margin is released for it.
\<close>

theorem unpledge_product_wraps:
  defines "r \<equiv> \<lparr>pledge_instrument = ''X'', pledge_quantity = 2 ^ 32, pledge_reference_price = 1,
      pledge_haircut = 0, pledge_margin_value = 2 ^ 32\<rparr>"
  shows "\<exists>b. unpledge_holding ''a'' ''X'' (2 ^ 32) (new_pledge_book\<lparr>pledges := [(''a'', [(''X'', r)])]\<rparr>) = Inr (0, b)
    \<and> pledge_of ''a'' ''X'' b = None"
  by (simp add: r_def unpledge_holding_def new_pledge_book_def pledge_of_def nested_lookup_def lookup_or_def
    total_pledged_margin_value_def int64_div_def Let_def word_sless_alt)

end
