(* ===== verification/OrderGates.thy ===== *)
theory OrderGates
  imports GatewayServices KillSwitch AlgoLimits ExposureLimits LargeOrderFriction RiskDisclosureGate
    FractionalShares MarkToMarket MarginPledge RiskEngine
begin

text \<open>
  The gates that an order of the gateway passes before it is accepted: the first half of
  processOrderSubmission in services/oms-gateway/cmd/server/main.go (lines 985 to 1365). The state is
  the bundle of components that \<open>orderSubmissionDependencies\<close> holds, an optional component being one
  that may be nil. What comes from outside the gateway is the environment: the clock at each
  reading, the answers of the KYC and back-office services, of the matching engine and of the
  ledger, which are services behind a network and may answer anything.
\<close>

section \<open>The matching engine's wire types\<close>

record order_wire_request =
  wire_account :: string
  wire_instrument :: string
  wire_is_buy :: bool
  wire_is_market_order :: bool
  wire_is_stop_loss :: bool
  wire_stop_trigger_price :: "int64 option"
  wire_limit_price :: int64
  wire_quantity :: uint64

record trade_wire_event =
  event_buyer :: string
  event_seller :: string
  event_price :: int64
  event_quantity :: uint64

record order_wire_response =
  response_trades :: "trade_wire_event list"
  response_error :: "string option"
  response_sequence :: "uint64 option"

section \<open>State and environment\<close>

record gateway_state =
  gw_kill_switch :: kill_switch
  gw_session :: "market_session option"
  gw_algo :: algo_registry
  gw_exposure :: limits_registry
  gw_friction :: "friction_tracker option"
  gw_disclosure :: "disclosure_gate option"
  gw_positions :: position_book
  gw_pledges :: pledge_book
  gw_margins :: risk_engine
  gw_sequence :: sequence_allocator
  gw_audit :: audit_trail
  gw_paper_positions :: position_book
  gw_milli_positions :: milli_share_book
  gw_mtm :: mtm_engine

text \<open>
  \<open>None\<close> for the KYC and freeze answers is a fetch error. The settlement answer depends on the index of
  the fill: two fills with the same data may be answered differently.
\<close>

record gateway_environment =
  env_float_text :: float_text
  env_strategy_time :: instant
  env_release_time :: instant
  env_disclosure_time :: instant
  env_audit_clock :: "nat \<Rightarrow> instant"
  env_kyc_eligible :: "string \<Rightarrow> bool option"
  env_frozen :: "string \<Rightarrow> (bool \<times> string) option"
  env_matching_engine :: "order_wire_request \<Rightarrow> string + order_wire_response"
  env_settlement :: "nat \<Rightarrow> string \<Rightarrow> string \<Rightarrow> int64 \<Rightarrow> uint64 \<Rightarrow> string option"

text \<open>Which reservations the order at hand holds.\<close>

record reservation_flags =
  algo_reserved :: bool
  exposure_reserved :: bool
  sell_reserved :: bool

definition no_reservations :: reservation_flags where
  "no_reservations = \<lparr>algo_reserved = False, exposure_reserved = False, sell_reserved = False\<rparr>"

definition empty_audit_entry :: audit_entry where
  "empty_audit_entry = \<lparr>audit_recorded_at = zero_time, audit_event = EventOrderRejected, audit_account = '''',
     audit_instrument = '''', audit_matching_engine_sequence = 0, audit_detail = '''', audit_actor = '''',
     audit_is_buy = None, audit_quantity = 0, audit_limit_price = 0, audit_is_market = False,
     audit_buying_account = '''', audit_selling_account = '''', audit_executed_price = 0,
     audit_executed_quantity = 0\<rparr>"

definition audit :: "gateway_environment \<Rightarrow> audit_entry \<Rightarrow> gateway_state \<Rightarrow> gateway_state" where
  "audit env e s = s\<lparr>gw_audit := append_audit_entry (env_audit_clock env (length (gw_audit s))) e (gw_audit s)\<rparr>"

definition order_entry :: "audit_event \<Rightarrow> order_submission_request \<Rightarrow> string \<Rightarrow> string \<Rightarrow> audit_entry" where
  "order_entry event r actor detail = empty_audit_entry\<lparr>audit_event := event, audit_account := request_account r,
     audit_actor := actor, audit_instrument := request_instrument r, audit_detail := detail\<rparr>"

definition rejection_acknowledgement :: "string \<Rightarrow> string \<Rightarrow> order_acknowledgement" where
  "rejection_acknowledgement code reason = empty_acknowledgement\<lparr>ack_was_accepted := False,
     ack_human_readable_reason := reason, ack_machine_readable_reason := code\<rparr>"

definition order_notional :: "order_submission_request \<Rightarrow> int64" where
  "order_notional r = request_limit_price r * request_quantity r"

definition risk_notional :: "order_submission_request \<Rightarrow> int64" where
  "risk_notional r = (case request_milli_share_quantity r of
     None \<Rightarrow> order_notional r
   | Some q \<Rightarrow> notional_in_minor_units (request_limit_price r) q)"

section \<open>The texts of the errors\<close>

definition session_error_text :: "session_error \<Rightarrow> string" where
  "session_error_text e = (case e of
     OnlyLimitOrdersInPreMarket \<Rightarrow> ''only plain LIMIT orders are accepted during the pre-market session - no MARKET, SL/SL-M, or ICEBERG/FOK/IOC''
   | OnlyLimitOrdersInPostMarket \<Rightarrow> ''only plain LIMIT orders are accepted during the post-market session - no MARKET, SL/SL-M, or ICEBERG/FOK/IOC''
   | UnknownSessionPhase \<Rightarrow> ''unknown session phase'')"

definition strategy_limit_error_text :: "float_text \<Rightarrow> strategy_limit_error \<Rightarrow> string" where
  "strategy_limit_error_text ft e = (case e of
     OrderRateLimitExceeded rate \<Rightarrow> ''strategy order rate limit exceeded: max '' @ ft ''%.4g'' rate @ '' orders/sec''
   | DailyNotionalLimitExceeded used notional cap \<Rightarrow> ''strategy daily notional limit exceeded: today's usage '' @
       int64_text used @ '' + this order's '' @ int64_text notional @ '' would exceed the daily cap of '' @
       int64_text cap @ '' minor units'')"

definition exposure_error_text :: "exposure_error \<Rightarrow> string" where
  "exposure_error_text e = (case e of
     AccountExposureLimitExceeded a projected limit \<Rightarrow>
       ''order would exceed the account's configured total exposure limit: account '' @ a @
       '' exposure would become '' @ int64_text projected @ '', limit is '' @ int64_text limit
   | SegmentExposureLimitExceeded a seg projected limit \<Rightarrow>
       ''order would exceed the account's configured per-segment exposure limit: account '' @ a @ '' segment '' @ seg @
       '' exposure would become '' @ int64_text projected @ '', limit is '' @ int64_text limit)"

definition disclosure_error_text :: "disclosure_error \<Rightarrow> string" where
  "disclosure_error_text e = (case e of
     NotYetAcknowledged \<Rightarrow> ''F&O risk disclosure has not been acknowledged for this account yet - call POST /risk-disclosure/acknowledge first''
   | CoolingOffPeriodNotElapsed \<Rightarrow> ''F&O risk disclosure was acknowledged too recently - the cooling-off period has not yet elapsed'')"

definition risk_rejection_code :: "risk_check_outcome \<Rightarrow> string" where
  "risk_rejection_code outcome = (case outcome of
     OrderApproved \<Rightarrow> ''''
   | AccountNotFound \<Rightarrow> ''ACCOUNT_NOT_FOUND''
   | InsufficientMargin shortfall \<Rightarrow> ''INSUFFICIENT_MARGIN'')"

definition risk_rejection_text :: "risk_check_outcome \<Rightarrow> string" where
  "risk_rejection_text outcome = (case outcome of
     OrderApproved \<Rightarrow> ''''
   | AccountNotFound \<Rightarrow> ''We couldn't find an account with sufficient onboarding to trade. Please complete KYC first.''
   | InsufficientMargin shortfall \<Rightarrow> ''Insufficient margin: this order needs '' @ int64_text shortfall @
       '' more minor units than you have available.'')"

section \<open>The gates\<close>

text \<open>A gate rejects the order with an acknowledgement or lets it pass; either way it may change the state.\<close>

type_synonym gate_result = "order_acknowledgement option \<times> gateway_state \<times> reservation_flags"
type_synonym gate = "gateway_environment \<Rightarrow> order_submission_request \<Rightarrow> string \<Rightarrow>
  gateway_state \<times> reservation_flags \<Rightarrow> gate_result"

definition reject_order ::
    "gateway_environment \<Rightarrow> audit_event \<Rightarrow> order_submission_request \<Rightarrow> string \<Rightarrow> string \<Rightarrow> string \<Rightarrow> string \<Rightarrow>
      gateway_state \<times> reservation_flags \<Rightarrow> gate_result" where
  "reject_order env event r actor detail code reason = (\<lambda>(s, v).
     (Some (rejection_acknowledgement code reason), audit env (order_entry event r actor detail) s, v))"

definition kill_switch_gate :: gate where
  "kill_switch_gate env r actor = (\<lambda>(s, v).
     if is_trading_halted (gw_kill_switch s)
     then reject_order env EventOrderRejected r actor ''TRADING_HALTED'' ''TRADING_HALTED''
       ''Trading is currently halted (kill switch engaged) - new order submissions are being rejected. Existing orders can still be cancelled.''
       (s, v)
     else (None, s, v))"

definition session_gate :: gate where
  "session_gate env r actor = (\<lambda>(s, v). case gw_session s of
     None \<Rightarrow> (None, s, v)
   | Some m \<Rightarrow>
       (case validate_order_against_session_phase (current_session_phase m)
          \<lparr>shape_is_market = request_is_market_order r, shape_is_stop_loss = request_is_stop_loss r,
           shape_execution_type = request_execution_type r\<rparr> (request_is_after_market_order r) of
          None \<Rightarrow> (None, s, v)
        | Some err \<Rightarrow> reject_order env EventOrderRejected r actor
            (''SESSION_PHASE_RULE_VIOLATION: '' @ session_error_text err) ''SESSION_PHASE_RULE_VIOLATION''
            (session_error_text err) (s, v)))"

definition strategy_limit_code :: "strategy_limit_error \<Rightarrow> string" where
  "strategy_limit_code e = (case e of
     DailyNotionalLimitExceeded _ _ _ \<Rightarrow> ''STRATEGY_DAILY_NOTIONAL_LIMIT_EXCEEDED''
   | OrderRateLimitExceeded _ \<Rightarrow> ''STRATEGY_RATE_LIMIT_EXCEEDED'')"

definition strategy_gate :: gate where
  "strategy_gate env r actor = (\<lambda>(s, v).
     if request_strategy_identifier r = '''' then (None, s, v)
     else case check_and_reserve (request_strategy_identifier r) (order_notional r) (env_strategy_time env) (gw_algo s) of
       (Some err, g) \<Rightarrow>
         (let t = strategy_limit_error_text (env_float_text env) err in
          reject_order env EventStrategyLimitRejected r actor
            (''strategyId='' @ request_strategy_identifier r @ '': '' @ t) (strategy_limit_code err)
            (''This order was blocked by strategy '' @ quoted_text (request_strategy_identifier r) @
              '''s own resource limits: '' @ t)
            (s\<lparr>gw_algo := g\<rparr>, v))
     | (None, g) \<Rightarrow> (None, s\<lparr>gw_algo := g\<rparr>, v\<lparr>algo_reserved := True\<rparr>))"

definition exposure_code :: "exposure_error \<Rightarrow> string" where
  "exposure_code e = (case e of
     SegmentExposureLimitExceeded _ _ _ _ \<Rightarrow> ''SEGMENT_EXPOSURE_LIMIT_EXCEEDED''
   | AccountExposureLimitExceeded _ _ _ \<Rightarrow> ''ACCOUNT_EXPOSURE_LIMIT_EXCEEDED'')"

definition exposure_gate :: gate where
  "exposure_gate env r actor = (\<lambda>(s, v).
     case check_and_reserve_exposure (request_account r) (classify_segment (request_instrument r))
       (order_notional r) (gw_exposure s) of
       (Some err, x) \<Rightarrow> reject_order env EventOrderRejected r actor
         (exposure_code err @ '': '' @ exposure_error_text err) (exposure_code err)
         (''This order was blocked by a risk-team-configured exposure limit: '' @ exposure_error_text err)
         (s\<lparr>gw_exposure := x\<rparr>, v)
     | (None, x) \<Rightarrow> (None, s\<lparr>gw_exposure := x\<rparr>, v\<lparr>exposure_reserved := True\<rparr>))"

definition large_order_gate :: gate where
  "large_order_gate env r actor = (\<lambda>(s, v). case gw_friction s of
     None \<Rightarrow> (None, s, v)
   | Some t \<Rightarrow>
       (let friction = evaluate_order_size (env_float_text env) (request_account r) (order_notional r) 0 t
        in if requires_confirmation friction \<and> \<not> request_confirmed_large_order r
           then reject_order env EventOrderRejected r actor
             (''LARGE_ORDER_CONFIRMATION_REQUIRED: '' @ friction_reason friction) ''LARGE_ORDER_CONFIRMATION_REQUIRED''
             (friction_reason friction @ ''. If you're sure, resubmit this exact order with confirmedLargeOrder:true.'')
             (s, v)
           else (None, s\<lparr>gw_friction := Some (record_order_notional (request_account r) (order_notional r) t)\<rparr>, v)))"

definition kyc_gate :: gate where
  "kyc_gate env r actor = (\<lambda>(s, v). case env_kyc_eligible env (request_account r) of
     None \<Rightarrow> (None, s, v)
   | Some eligible \<Rightarrow>
       if eligible then (None, s, v)
       else reject_order env EventOrderRejected r actor ''KYC_NOT_VERIFIED'' ''KYC_NOT_VERIFIED''
         (''Please complete KYC verification before trading. '' @
           ''Submit your PAN and name via kyc-onboarding's /kyc/submit endpoint.'') (s, v))"

definition freeze_gate :: gate where
  "freeze_gate env r actor = (\<lambda>(s, v). case env_frozen env (request_account r) of
     None \<Rightarrow> (None, s, v)
   | Some (is_frozen, reason) \<Rightarrow>
       if is_frozen
       then reject_order env EventOrderRejected r actor (''ACCOUNT_FROZEN: '' @ reason) ''ACCOUNT_FROZEN''
         (''This account is frozen and cannot trade: '' @ reason) (s, v)
       else (None, s, v))"

definition pledged_holding_gate :: gate where
  "pledged_holding_gate env r actor = (\<lambda>(s, v).
     if request_is_buy r \<or> request_quantity r = 0 then (None, s, v)
     else let net = lookup_or 0 (positions_for_account (request_account r) (gw_positions s)) (request_instrument r)
       in case reserve_unpledged_for_sell (request_account r) (request_instrument r) (request_quantity r) net
            (gw_pledges s) of
          (Some err, p) \<Rightarrow> reject_order env EventOrderRejected r actor ''PLEDGED_QUANTITY_UNAVAILABLE''
            ''PLEDGED_QUANTITY_UNAVAILABLE''
            (''This sell order needs '' @ uint64_text (request_quantity r) @ '' shares, but '' @
              uint64_text (pledged_quantity (request_account r) (request_instrument r) p) @ '' of your '' @
              int64_text net @ '' '' @ request_instrument r @ '' shares are currently pledged as collateral '' @
              ''(or already reserved by another pending order) and unavailable to sell. '' @
              ''Unpledge them first via POST /margin-pledge/unpledge.'')
            (s\<lparr>gw_pledges := p\<rparr>, v)
        | (None, p) \<Rightarrow> (None, s\<lparr>gw_pledges := p\<rparr>, v\<lparr>sell_reserved := True\<rparr>))"

definition is_fno :: "order_submission_request \<Rightarrow> bool" where
  "is_fno r = (classify_segment (request_instrument r) = ''FUTURES_AND_OPTIONS'')"

definition disclosure_order_gate :: gate where
  "disclosure_order_gate env r actor = (\<lambda>(s, v). case gw_disclosure s of
     None \<Rightarrow> (None, s, v)
   | Some g \<Rightarrow>
       (case check_first_fno_order (request_account r) (is_fno r) (env_disclosure_time env) g of
          None \<Rightarrow> (None, s, v)
        | Some err \<Rightarrow> reject_order env EventOrderRejected r actor
            (''FNO_RISK_DISCLOSURE_REQUIRED: '' @ disclosure_error_text err) ''FNO_RISK_DISCLOSURE_REQUIRED''
            (''This account cannot place its first F&O order yet: '' @ disclosure_error_text err) (s, v)))"

definition risk_gate :: gate where
  "risk_gate env r actor = (\<lambda>(s, v).
     case evaluate_order (request_account r) (risk_notional r) (gw_margins s) of
       (outcome, e) \<Rightarrow>
         if outcome = OrderApproved then (None, s\<lparr>gw_margins := e\<rparr>, v)
         else reject_order env EventOrderRejected r actor (risk_rejection_code outcome) (risk_rejection_code outcome)
           (risk_rejection_text outcome) (s\<lparr>gw_margins := e\<rparr>, v))"

definition order_gates :: "gate list" where
  "order_gates = [kill_switch_gate, session_gate, strategy_gate, exposure_gate, large_order_gate, kyc_gate,
     freeze_gate, pledged_holding_gate, disclosure_order_gate, risk_gate]"

fun run_gates :: "gate list \<Rightarrow> gate" where
  "run_gates [] env r actor p = (None, p)"
| "run_gates (g # gs) env r actor p = (case g env r actor p of
     (Some ack, p') \<Rightarrow> (Some ack, p')
   | (None, p') \<Rightarrow> run_gates gs env r actor p')"

text \<open>The deferred release of a rejected order.\<close>

definition release_reservations :: "gateway_environment \<Rightarrow> order_submission_request \<Rightarrow>
    gateway_state \<times> reservation_flags \<Rightarrow> gateway_state" where
  "release_reservations env r = (\<lambda>(s, v).
     let s1 = (if algo_reserved v then s\<lparr>gw_algo := release_strategy (request_strategy_identifier r)
           (order_notional r) (env_release_time env) (gw_algo s)\<rparr> else s);
         s2 = (if exposure_reserved v then s1\<lparr>gw_exposure := release_exposure (request_account r)
           (classify_segment (request_instrument r)) (order_notional r) (gw_exposure s1)\<rparr> else s1)
     in if sell_reserved v then s2\<lparr>gw_pledges := release_sell_reservation (request_account r)
           (request_instrument r) (request_quantity r) (gw_pledges s2)\<rparr> else s2)"

text \<open>The gates of an order, with what a rejection undoes: the acknowledgement of the rejection, if any.\<close>

definition pass_gates :: gate where
  "pass_gates env r actor p = (case run_gates order_gates env r actor p of
     (None, p') \<Rightarrow> (None, p')
   | (Some ack, s, v) \<Rightarrow> (Some ack, release_reservations env r (s, v), v))"

section \<open>What the gates check\<close>

text \<open>
  The specification of a gate reads the state in which the order arrived: the machine-readable
  reason for which the gate would reject the order, if any.
\<close>

type_synonym verdict = "gateway_environment \<Rightarrow> order_submission_request \<Rightarrow> gateway_state \<Rightarrow> string option"

definition halted_verdict :: verdict where
  "halted_verdict env r s = (if is_trading_halted (gw_kill_switch s) then Some ''TRADING_HALTED'' else None)"

definition session_verdict :: verdict where
  "session_verdict env r s = (case gw_session s of
     None \<Rightarrow> None
   | Some m \<Rightarrow> map_option (\<lambda>_. ''SESSION_PHASE_RULE_VIOLATION'')
       (validate_order_against_session_phase (current_session_phase m)
          \<lparr>shape_is_market = request_is_market_order r, shape_is_stop_loss = request_is_stop_loss r,
           shape_execution_type = request_execution_type r\<rparr> (request_is_after_market_order r)))"

definition strategy_verdict :: verdict where
  "strategy_verdict env r s = (if request_strategy_identifier r = '''' then None
     else map_option strategy_limit_code (fst (check_and_reserve (request_strategy_identifier r) (order_notional r)
       (env_strategy_time env) (gw_algo s))))"

definition exposure_verdict :: verdict where
  "exposure_verdict env r s = map_option exposure_code (fst (check_and_reserve_exposure (request_account r)
     (classify_segment (request_instrument r)) (order_notional r) (gw_exposure s)))"

definition friction_verdict :: verdict where
  "friction_verdict env r s = (case gw_friction s of
     None \<Rightarrow> None
   | Some t \<Rightarrow> if requires_confirmation (evaluate_order_size (env_float_text env) (request_account r) (order_notional r) 0 t)
         \<and> \<not> request_confirmed_large_order r
       then Some ''LARGE_ORDER_CONFIRMATION_REQUIRED'' else None)"

definition kyc_verdict :: verdict where
  "kyc_verdict env r s = (if env_kyc_eligible env (request_account r) = Some False then Some ''KYC_NOT_VERIFIED'' else None)"

definition freeze_verdict :: verdict where
  "freeze_verdict env r s = (case env_frozen env (request_account r) of
     Some (True, reason) \<Rightarrow> Some ''ACCOUNT_FROZEN'' | _ \<Rightarrow> None)"

definition pledge_verdict :: verdict where
  "pledge_verdict env r s = (if request_is_buy r \<or> request_quantity r = 0 then None
     else map_option (\<lambda>_. ''PLEDGED_QUANTITY_UNAVAILABLE'') (fst (reserve_unpledged_for_sell (request_account r)
       (request_instrument r) (request_quantity r)
       (lookup_or 0 (positions_for_account (request_account r) (gw_positions s)) (request_instrument r)) (gw_pledges s))))"

definition disclosure_verdict :: verdict where
  "disclosure_verdict env r s = (case gw_disclosure s of
     None \<Rightarrow> None
   | Some g \<Rightarrow> map_option (\<lambda>_. ''FNO_RISK_DISCLOSURE_REQUIRED'')
       (check_first_fno_order (request_account r) (is_fno r) (env_disclosure_time env) g))"

definition risk_verdict :: verdict where
  "risk_verdict env r s = (let outcome = fst (evaluate_order (request_account r) (risk_notional r) (gw_margins s))
     in if outcome = OrderApproved then None else Some (risk_rejection_code outcome))"

definition gate_verdicts :: "gateway_environment \<Rightarrow> order_submission_request \<Rightarrow> gateway_state \<Rightarrow> string option list" where
  "gate_verdicts env r s = map (\<lambda>c. c env r s) [halted_verdict, session_verdict, strategy_verdict,
     exposure_verdict, friction_verdict, kyc_verdict, freeze_verdict, pledge_verdict, disclosure_verdict, risk_verdict]"

fun first_rejection :: "string option list \<Rightarrow> string option" where
  "first_rejection [] = None"
| "first_rejection (None # vs) = first_rejection vs"
| "first_rejection (Some code # vs) = Some code"

section \<open>Each gate alone\<close>

named_theorems verdict_defs
declare halted_verdict_def [verdict_defs] session_verdict_def [verdict_defs] strategy_verdict_def [verdict_defs]
  exposure_verdict_def [verdict_defs] friction_verdict_def [verdict_defs] kyc_verdict_def [verdict_defs]
  freeze_verdict_def [verdict_defs] pledge_verdict_def [verdict_defs] disclosure_verdict_def [verdict_defs]
  risk_verdict_def [verdict_defs]

lemmas gate_defs = kill_switch_gate_def session_gate_def strategy_gate_def exposure_gate_def large_order_gate_def
  kyc_gate_def freeze_gate_def pledged_holding_gate_def disclosure_order_gate_def risk_gate_def

text \<open>The state after a gate has let the order pass.\<close>

definition after_strategy :: "gateway_environment \<Rightarrow> order_submission_request \<Rightarrow> gateway_state \<Rightarrow> algo_registry" where
  "after_strategy env r s = (if request_strategy_identifier r = '''' then gw_algo s
     else snd (check_and_reserve (request_strategy_identifier r) (order_notional r) (env_strategy_time env) (gw_algo s)))"

definition after_exposure :: "order_submission_request \<Rightarrow> gateway_state \<Rightarrow> limits_registry" where
  "after_exposure r s = snd (check_and_reserve_exposure (request_account r) (classify_segment (request_instrument r))
     (order_notional r) (gw_exposure s))"

definition after_friction :: "order_submission_request \<Rightarrow> gateway_state \<Rightarrow> friction_tracker option" where
  "after_friction r s = map_option (record_order_notional (request_account r) (order_notional r)) (gw_friction s)"

definition after_pledge :: "order_submission_request \<Rightarrow> gateway_state \<Rightarrow> pledge_book" where
  "after_pledge r s = (if request_is_buy r \<or> request_quantity r = 0 then gw_pledges s
     else snd (reserve_unpledged_for_sell (request_account r) (request_instrument r) (request_quantity r)
       (lookup_or 0 (positions_for_account (request_account r) (gw_positions s)) (request_instrument r)) (gw_pledges s)))"

definition after_risk :: "order_submission_request \<Rightarrow> gateway_state \<Rightarrow> risk_engine" where
  "after_risk r s = snd (evaluate_order (request_account r) (risk_notional r) (gw_margins s))"

lemmas after_defs = after_strategy_def after_exposure_def after_friction_def after_pledge_def after_risk_def

lemma kill_switch_gate_pass:
  "kill_switch_gate env r actor (s, v) = (None, q) \<longleftrightarrow> halted_verdict env r s = None \<and> q = (s, v)"
  by (auto simp: kill_switch_gate_def halted_verdict_def reject_order_def)

lemma session_gate_pass:
  "session_gate env r actor (s, v) = (None, q) \<longleftrightarrow> session_verdict env r s = None \<and> q = (s, v)"
  by (auto simp: session_gate_def session_verdict_def reject_order_def split: option.splits)

lemma strategy_gate_pass:
  "strategy_gate env r actor (s, v) = (None, q) \<longleftrightarrow> strategy_verdict env r s = None \<and>
    q = (s\<lparr>gw_algo := after_strategy env r s\<rparr>, v\<lparr>algo_reserved := (request_strategy_identifier r \<noteq> '''' \<or> algo_reserved v)\<rparr>)"
  by (auto simp: strategy_gate_def strategy_verdict_def after_strategy_def reject_order_def Let_def
    split: option.splits prod.splits)

lemma exposure_gate_pass:
  "exposure_gate env r actor (s, v) = (None, q) \<longleftrightarrow> exposure_verdict env r s = None \<and>
    q = (s\<lparr>gw_exposure := after_exposure r s\<rparr>, v\<lparr>exposure_reserved := True\<rparr>)"
  by (auto simp: exposure_gate_def exposure_verdict_def after_exposure_def reject_order_def
    split: option.splits prod.splits)

lemma large_order_gate_pass:
  "large_order_gate env r actor (s, v) = (None, q) \<longleftrightarrow> friction_verdict env r s = None \<and>
    q = (s\<lparr>gw_friction := after_friction r s\<rparr>, v)"
  by (auto simp: large_order_gate_def friction_verdict_def after_friction_def reject_order_def Let_def
    split: option.splits)

lemma kyc_gate_pass:
  "kyc_gate env r actor (s, v) = (None, q) \<longleftrightarrow> kyc_verdict env r s = None \<and> q = (s, v)"
  by (auto simp: kyc_gate_def kyc_verdict_def reject_order_def split: option.splits)

lemma freeze_gate_pass:
  "freeze_gate env r actor (s, v) = (None, q) \<longleftrightarrow> freeze_verdict env r s = None \<and> q = (s, v)"
  by (auto simp: freeze_gate_def freeze_verdict_def reject_order_def split: option.splits bool.splits)

lemma pledged_holding_gate_pass:
  "pledged_holding_gate env r actor (s, v) = (None, q) \<longleftrightarrow> pledge_verdict env r s = None \<and>
    q = (s\<lparr>gw_pledges := after_pledge r s\<rparr>,
         v\<lparr>sell_reserved := (\<not> request_is_buy r \<and> request_quantity r \<noteq> 0 \<or> sell_reserved v)\<rparr>)"
  by (auto simp: pledged_holding_gate_def pledge_verdict_def after_pledge_def reject_order_def Let_def
    split: option.splits prod.splits)

lemma disclosure_order_gate_pass:
  "disclosure_order_gate env r actor (s, v) = (None, q) \<longleftrightarrow> disclosure_verdict env r s = None \<and> q = (s, v)"
  by (auto simp: disclosure_order_gate_def disclosure_verdict_def reject_order_def split: option.splits)

lemma risk_gate_pass:
  "risk_gate env r actor (s, v) = (None, q) \<longleftrightarrow> risk_verdict env r s = None \<and>
    q = (s\<lparr>gw_margins := after_risk r s\<rparr>, v)"
  by (auto simp: risk_gate_def risk_verdict_def after_risk_def reject_order_def Let_def split: prod.splits)

lemmas gate_pass = kill_switch_gate_pass session_gate_pass strategy_gate_pass exposure_gate_pass
  large_order_gate_pass kyc_gate_pass freeze_gate_pass pledged_holding_gate_pass disclosure_order_gate_pass
  risk_gate_pass

text \<open>A rejecting gate answers with its verdict and leaves one audit entry; the strategy gate also keeps its update.\<close>

definition rejects :: "gateway_environment \<Rightarrow> order_submission_request \<Rightarrow> string \<Rightarrow> audit_event \<Rightarrow> string option \<Rightarrow>
    gateway_state \<times> reservation_flags \<Rightarrow> gate_result \<Rightarrow> bool" where
  "rejects env r actor event verdict = (\<lambda>(s, v) result. \<exists>code reason detail. verdict = Some code \<and>
     result = (Some (rejection_acknowledgement code reason), audit env (order_entry event r actor detail) s, v))"

lemma exposure_rejected: "check_and_reserve_exposure a seg n x = (Some err, x') \<Longrightarrow> x' = x"
  by (auto simp: check_and_reserve_exposure_def Let_def split: if_splits)

lemma kill_switch_gate_reject:
  "kill_switch_gate env r actor (s, v) = (Some ack, q) \<Longrightarrow>
    rejects env r actor EventOrderRejected (halted_verdict env r s) (s, v) (Some ack, q)"
  by (auto simp: kill_switch_gate_def halted_verdict_def reject_order_def rejects_def split: if_splits)

lemma session_gate_reject:
  "session_gate env r actor (s, v) = (Some ack, q) \<Longrightarrow>
    rejects env r actor EventOrderRejected (session_verdict env r s) (s, v) (Some ack, q)"
  by (auto simp: session_gate_def session_verdict_def reject_order_def rejects_def split: option.splits)

lemma strategy_gate_reject:
  "strategy_gate env r actor (s, v) = (Some ack, q) \<Longrightarrow>
    rejects env r actor EventStrategyLimitRejected (strategy_verdict env r s) (s\<lparr>gw_algo := after_strategy env r s\<rparr>, v) (Some ack, q)"
  by (auto simp: strategy_gate_def strategy_verdict_def after_strategy_def reject_order_def rejects_def Let_def
    split: option.splits prod.splits if_splits)

lemma exposure_gate_reject:
  "exposure_gate env r actor (s, v) = (Some ack, q) \<Longrightarrow>
    rejects env r actor EventOrderRejected (exposure_verdict env r s) (s, v) (Some ack, q)"
  by ((auto simp: exposure_gate_def exposure_verdict_def reject_order_def rejects_def
    split: option.splits prod.splits dest!: exposure_rejected); blast)

lemma large_order_gate_reject:
  "large_order_gate env r actor (s, v) = (Some ack, q) \<Longrightarrow>
    rejects env r actor EventOrderRejected (friction_verdict env r s) (s, v) (Some ack, q)"
  by (auto simp: large_order_gate_def friction_verdict_def reject_order_def rejects_def Let_def
    split: option.splits if_splits)

lemma kyc_gate_reject:
  "kyc_gate env r actor (s, v) = (Some ack, q) \<Longrightarrow>
    rejects env r actor EventOrderRejected (kyc_verdict env r s) (s, v) (Some ack, q)"
  by (auto simp: kyc_gate_def kyc_verdict_def reject_order_def rejects_def split: option.splits if_splits)

lemma freeze_gate_reject:
  "freeze_gate env r actor (s, v) = (Some ack, q) \<Longrightarrow>
    rejects env r actor EventOrderRejected (freeze_verdict env r s) (s, v) (Some ack, q)"
  by ((auto simp: freeze_gate_def freeze_verdict_def reject_order_def rejects_def split: option.splits if_splits bool.splits); blast)

lemma pledged_holding_gate_reject:
  "pledged_holding_gate env r actor (s, v) = (Some ack, q) \<Longrightarrow>
    rejects env r actor EventOrderRejected (pledge_verdict env r s) (s, v) (Some ack, q)"
  by ((auto simp: pledged_holding_gate_def pledge_verdict_def reject_order_def rejects_def Let_def
    split: option.splits prod.splits if_splits dest!: reserve_refused); blast)

lemma disclosure_order_gate_reject:
  "disclosure_order_gate env r actor (s, v) = (Some ack, q) \<Longrightarrow>
    rejects env r actor EventOrderRejected (disclosure_verdict env r s) (s, v) (Some ack, q)"
  by (auto simp: disclosure_order_gate_def disclosure_verdict_def reject_order_def rejects_def split: option.splits)

lemma risk_gate_reject:
  "risk_gate env r actor (s, v) = (Some ack, q) \<Longrightarrow>
    rejects env r actor EventOrderRejected (risk_verdict env r s) (s, v) (Some ack, q)"
  by ((auto simp: risk_gate_def risk_verdict_def reject_order_def rejects_def Let_def
    split: prod.splits if_splits dest!: evaluate_order_rejected); blast)

lemmas gate_reject = kill_switch_gate_reject session_gate_reject strategy_gate_reject exposure_gate_reject
  large_order_gate_reject kyc_gate_reject freeze_gate_reject pledged_holding_gate_reject
  disclosure_order_gate_reject risk_gate_reject

lemma run_gates_pass:
  "run_gates (g # gs) env r actor p = (None, q) \<longleftrightarrow>
    (\<exists>p1. g env r actor p = (None, p1) \<and> run_gates gs env r actor p1 = (None, q))"
  by (auto split: prod.splits option.splits)

lemma run_gates_reject:
  "run_gates (g # gs) env r actor p = (Some ack, q) \<longleftrightarrow> g env r actor p = (Some ack, q) \<or>
    (\<exists>p1. g env r actor p = (None, p1) \<and> run_gates gs env r actor p1 = (Some ack, q))"
  by (auto split: prod.splits option.splits)

section \<open>The gates together\<close>

text \<open>No gate changes what a later gate looks at.\<close>

lemma verdict_frame [simp]:
  "exposure_verdict env r (s\<lparr>gw_algo := g\<rparr>) = exposure_verdict env r s"
  "after_exposure r (s\<lparr>gw_algo := g\<rparr>) = after_exposure r s"
  "friction_verdict env r (s\<lparr>gw_algo := g\<rparr>) = friction_verdict env r s"
  "friction_verdict env r (s\<lparr>gw_exposure := x\<rparr>) = friction_verdict env r s"
  "after_friction r (s\<lparr>gw_algo := g\<rparr>) = after_friction r s"
  "after_friction r (s\<lparr>gw_exposure := x\<rparr>) = after_friction r s"
  "kyc_verdict env r (s\<lparr>gw_algo := g\<rparr>) = kyc_verdict env r s"
  "kyc_verdict env r (s\<lparr>gw_exposure := x\<rparr>) = kyc_verdict env r s"
  "kyc_verdict env r (s\<lparr>gw_friction := f\<rparr>) = kyc_verdict env r s"
  "freeze_verdict env r (s\<lparr>gw_algo := g\<rparr>) = freeze_verdict env r s"
  "freeze_verdict env r (s\<lparr>gw_exposure := x\<rparr>) = freeze_verdict env r s"
  "freeze_verdict env r (s\<lparr>gw_friction := f\<rparr>) = freeze_verdict env r s"
  by (simp_all add: verdict_defs after_defs)

lemma late_verdict_frame [simp]:
  "pledge_verdict env r (s\<lparr>gw_algo := g\<rparr>) = pledge_verdict env r s"
  "pledge_verdict env r (s\<lparr>gw_exposure := x\<rparr>) = pledge_verdict env r s"
  "pledge_verdict env r (s\<lparr>gw_friction := f\<rparr>) = pledge_verdict env r s"
  "after_pledge r (s\<lparr>gw_algo := g\<rparr>) = after_pledge r s"
  "after_pledge r (s\<lparr>gw_exposure := x\<rparr>) = after_pledge r s"
  "after_pledge r (s\<lparr>gw_friction := f\<rparr>) = after_pledge r s"
  "disclosure_verdict env r (s\<lparr>gw_algo := g\<rparr>) = disclosure_verdict env r s"
  "disclosure_verdict env r (s\<lparr>gw_exposure := x\<rparr>) = disclosure_verdict env r s"
  "disclosure_verdict env r (s\<lparr>gw_friction := f\<rparr>) = disclosure_verdict env r s"
  "disclosure_verdict env r (s\<lparr>gw_pledges := p\<rparr>) = disclosure_verdict env r s"
  "risk_verdict env r (s\<lparr>gw_algo := g\<rparr>) = risk_verdict env r s"
  "risk_verdict env r (s\<lparr>gw_exposure := x\<rparr>) = risk_verdict env r s"
  "risk_verdict env r (s\<lparr>gw_friction := f\<rparr>) = risk_verdict env r s"
  "risk_verdict env r (s\<lparr>gw_pledges := p\<rparr>) = risk_verdict env r s"
  "after_risk r (s\<lparr>gw_algo := g\<rparr>) = after_risk r s"
  "after_risk r (s\<lparr>gw_exposure := x\<rparr>) = after_risk r s"
  "after_risk r (s\<lparr>gw_friction := f\<rparr>) = after_risk r s"
  "after_risk r (s\<lparr>gw_pledges := p\<rparr>) = after_risk r s"
  by (simp_all add: verdict_defs after_defs)

definition sells_holding :: "order_submission_request \<Rightarrow> bool" where
  "sells_holding r \<longleftrightarrow> \<not> request_is_buy r \<and> request_quantity r \<noteq> 0"

lemma gates_passed:
  "run_gates order_gates env r actor (s, no_reservations) = (None, q) \<longleftrightarrow>
    (\<forall>c \<in> set (gate_verdicts env r s). c = None) \<and>
    q = (s\<lparr>gw_algo := after_strategy env r s, gw_exposure := after_exposure r s, gw_friction := after_friction r s,
          gw_pledges := after_pledge r s, gw_margins := after_risk r s\<rparr>,
         \<lparr>algo_reserved = (request_strategy_identifier r \<noteq> ''''), exposure_reserved = True,
          sell_reserved = sells_holding r\<rparr>)"
  by (simp add: order_gates_def run_gates_pass gate_pass gate_verdicts_def no_reservations_def sells_holding_def
    del: run_gates.simps) (auto simp: run_gates.simps)

text \<open>How far a rejected order got: what the flags say is exactly what has been reserved.\<close>

definition reserved_so_far :: "gateway_environment \<Rightarrow> order_submission_request \<Rightarrow> gateway_state \<Rightarrow>
    gateway_state \<Rightarrow> reservation_flags \<Rightarrow> bool" where
  "reserved_so_far env r s s1 v \<longleftrightarrow> (\<exists>g f.
     s1 = s\<lparr>gw_algo := g,
       gw_exposure := (if exposure_reserved v then after_exposure r s else gw_exposure s), gw_friction := f,
       gw_pledges := (if sell_reserved v then after_pledge r s else gw_pledges s)\<rparr> \<and>
     (g = gw_algo s \<and> \<not> algo_reserved v \<or> g = after_strategy env r s \<and>
       (algo_reserved v \<longleftrightarrow> request_strategy_identifier r \<noteq> '''' \<and> strategy_verdict env r s = None))) \<and>
   (exposure_reserved v \<longrightarrow> exposure_verdict env r s = None) \<and>
   (sell_reserved v \<longrightarrow> sells_holding r \<and> pledge_verdict env r s = None)"

lemma after_pledge_kept: "\<not> sells_holding r \<Longrightarrow> after_pledge r s = gw_pledges s"
  by (auto simp: after_pledge_def sells_holding_def)

lemma reserved_at_start:
  "reserved_so_far env r s s \<lparr>algo_reserved = False, exposure_reserved = False, sell_reserved = False\<rparr>"
  unfolding reserved_so_far_def
  by (intro conjI exI [of _ "gw_algo s"] exI [of _ "gw_friction s"]) simp_all

lemma reserved_strategy_rejected:
  assumes "strategy_verdict env r s = Some code"
  shows "reserved_so_far env r s (s\<lparr>gw_algo := after_strategy env r s\<rparr>)
    \<lparr>algo_reserved = False, exposure_reserved = False, sell_reserved = False\<rparr>"
  unfolding reserved_so_far_def
  by (intro conjI exI [of _ "after_strategy env r s"] exI [of _ "gw_friction s"]) (simp_all add: assms)

lemma reserved_after_strategy:
  assumes "strategy_verdict env r s = None"
  shows "reserved_so_far env r s (s\<lparr>gw_algo := after_strategy env r s\<rparr>)
    \<lparr>algo_reserved = (request_strategy_identifier r \<noteq> []), exposure_reserved = False, sell_reserved = False\<rparr>"
  unfolding reserved_so_far_def
  by (intro conjI exI [of _ "after_strategy env r s"] exI [of _ "gw_friction s"]) (simp_all add: assms)

lemma reserved_after_exposure:
  assumes "strategy_verdict env r s = None" and "exposure_verdict env r s = None"
  shows "reserved_so_far env r s (s\<lparr>gw_algo := after_strategy env r s, gw_exposure := after_exposure r s\<rparr>)
    \<lparr>algo_reserved = (request_strategy_identifier r \<noteq> []), exposure_reserved = True, sell_reserved = False\<rparr>"
  unfolding reserved_so_far_def
  by (intro conjI exI [of _ "after_strategy env r s"] exI [of _ "gw_friction s"]) (simp_all add: assms)

lemma reserved_after_friction:
  assumes "strategy_verdict env r s = None" and "exposure_verdict env r s = None"
  shows "reserved_so_far env r s (s\<lparr>gw_algo := after_strategy env r s, gw_exposure := after_exposure r s,
      gw_friction := after_friction r s\<rparr>)
    \<lparr>algo_reserved = (request_strategy_identifier r \<noteq> []), exposure_reserved = True, sell_reserved = False\<rparr>"
  unfolding reserved_so_far_def
  by (intro conjI exI [of _ "after_strategy env r s"] exI [of _ "after_friction r s"]) (simp_all add: assms)

lemma reserved_after_pledge:
  assumes "strategy_verdict env r s = None" and "exposure_verdict env r s = None" and "pledge_verdict env r s = None"
  shows "reserved_so_far env r s (s\<lparr>gw_algo := after_strategy env r s, gw_exposure := after_exposure r s,
      gw_friction := after_friction r s, gw_pledges := after_pledge r s\<rparr>)
    \<lparr>algo_reserved = (request_strategy_identifier r \<noteq> []), exposure_reserved = True,
     sell_reserved = sells_holding r\<rparr>"
  unfolding reserved_so_far_def
  by (intro conjI exI [of _ "after_strategy env r s"] exI [of _ "after_friction r s"])
    (simp_all add: assms after_pledge_kept)

lemmas reserved_stages = reserved_at_start reserved_strategy_rejected reserved_after_strategy reserved_after_exposure
  reserved_after_friction reserved_after_pledge

lemma rejects_Some: "rejects env r actor event c p result \<Longrightarrow> c \<noteq> None"
  by (auto simp: rejects_def)

lemma rejected_at:
  assumes "rejects env r actor event c (s1, v) result"
    and "\<And>code. c = Some code \<Longrightarrow> verdict = Some code \<and> reserved_so_far env r s s1 v"
  shows "\<exists>s1 v. reserved_so_far env r s s1 v \<and> (\<exists>event. rejects env r actor event verdict (s1, v) result)"
  using assms rejects_Some by (metis option.exhaust)

lemma gates_rejected:
  assumes "run_gates order_gates env r actor (s, no_reservations) = (Some ack, q)"
  shows "\<exists>s1 v. reserved_so_far env r s s1 v \<and>
    (\<exists>event. rejects env r actor event (first_rejection (gate_verdicts env r s)) (s1, v) (Some ack, q))"
  using assms unfolding order_gates_def run_gates_reject
  apply (elim disjE exE conjE)
  apply (simp_all add: gate_pass no_reservations_def sells_holding_def [symmetric] del: run_gates.simps(2))
  apply (drule gate_reject, erule rejected_at, simp add: gate_verdicts_def reserved_stages)+
  done

text \<open>
  The state at the refusal, exactly: \<open>k\<close> gates have let the order pass, in the order of the code. The strategy gate (2) keeps
  its update when it refuses as well, and the history of the large-order gate (4) is kept once that gate is passed.
\<close>

definition gates_before_refusal :: "gateway_environment \<Rightarrow> order_submission_request \<Rightarrow> gateway_state \<Rightarrow> nat" where
  "gates_before_refusal env r s = length (takeWhile (\<lambda>c. c = None) (gate_verdicts env r s))"

definition state_at_refusal :: "gateway_environment \<Rightarrow> order_submission_request \<Rightarrow> gateway_state \<Rightarrow> nat \<Rightarrow> gateway_state" where
  "state_at_refusal env r s k = s\<lparr>
     gw_algo := (if 2 \<le> k then after_strategy env r s else gw_algo s),
     gw_exposure := (if 3 < k then after_exposure r s else gw_exposure s),
     gw_friction := (if 4 < k then after_friction r s else gw_friction s),
     gw_pledges := (if 7 < k then after_pledge r s else gw_pledges s)\<rparr>"

definition flags_at_refusal :: "order_submission_request \<Rightarrow> nat \<Rightarrow> reservation_flags" where
  "flags_at_refusal r k = \<lparr>algo_reserved = (2 < k \<and> request_strategy_identifier r \<noteq> []),
     exposure_reserved = (3 < k), sell_reserved = (7 < k \<and> sells_holding r)\<rparr>"

definition refusal_event :: "nat \<Rightarrow> audit_event" where
  "refusal_event k = (if k = 2 then EventStrategyLimitRejected else EventOrderRejected)"

lemma refused_at:
  assumes "rejects env r actor event c (s1, v) (Some ack, q)"
    and "\<And>code. c = Some code \<Longrightarrow> s1 = state_at_refusal env r s k \<and> v = flags_at_refusal r k \<and> event = refusal_event k"
  shows "(\<exists>reason code. ack = rejection_acknowledgement code reason) \<and>
    (\<exists>detail. q = (audit env (order_entry (refusal_event k) r actor detail) (state_at_refusal env r s k), flags_at_refusal r k))"
  using assms by (fastforce simp: rejects_def)

lemma gates_refused:
  assumes "run_gates order_gates env r actor (s, no_reservations) = (Some ack, q)"
  defines "k \<equiv> gates_before_refusal env r s"
  shows "(\<exists>reason code. ack = rejection_acknowledgement code reason) \<and>
    (\<exists>detail. q = (audit env (order_entry (refusal_event k) r actor detail) (state_at_refusal env r s k), flags_at_refusal r k))"
  using assms(1) unfolding order_gates_def run_gates_reject
  apply (elim disjE exE conjE)
  apply (simp_all add: gate_pass no_reservations_def sells_holding_def [symmetric] del: run_gates.simps(2))
  apply (drule gate_reject, erule refused_at, simp add: k_def gates_before_refusal_def gate_verdicts_def state_at_refusal_def
    flags_at_refusal_def refusal_event_def after_pledge_kept)+
  done

end
