(* ===== verification/OrderPipeline.thy ===== *)
theory OrderPipeline
  imports OrderGates
begin

text \<open>
  The order pipeline of the gateway: processOrderSubmission of
  services/oms-gateway/cmd/server/main.go after its gates (OrderGates), and
  settleTradeAgainstLedgerAndLocalCache. A submission is one function of the state; each operation of
  a component in it is atomic in the source, and the submissions of other clients, which may come in
  between, are covered by the step relations of the components (RiskEngine, MarginPledge).
\<close>

section \<open>Acceptance\<close>

definition submitted_entry :: "order_submission_request \<Rightarrow> string \<Rightarrow> uint64 \<Rightarrow> audit_entry" where
  "submitted_entry r actor seq = (order_entry EventOrderSubmitted r actor
       (''assignedGlobalSequenceNumber='' @ uint64_text seq))\<lparr>
     audit_is_buy := Some (request_is_buy r), audit_quantity := request_quantity r,
     audit_limit_price := request_limit_price r, audit_is_market := request_is_market_order r\<rparr>"

definition accept_order :: "gateway_environment \<Rightarrow> order_submission_request \<Rightarrow> string \<Rightarrow> gateway_state \<Rightarrow>
    order_acknowledgement \<times> gateway_state" where
  "accept_order env r actor s =
    (case allocate_next_sequence_number (gw_sequence s) of (seq, alloc) \<Rightarrow>
       let s1 = audit env (submitted_entry r actor seq) (s\<lparr>gw_sequence := alloc\<rparr>);
           ack = empty_acknowledgement\<lparr>ack_was_accepted := True, ack_global_sequence_number := seq,
             ack_is_paper_trading := request_is_paper_trading r\<rparr>
       in (ack, case gw_disclosure s1 of
            None \<Rightarrow> s1
          | Some g \<Rightarrow> if is_fno r then s1\<lparr>gw_disclosure := Some (record_first_fno_order (request_account r) g)\<rparr>
              else s1))"

text \<open>An order that will never settle gives back its margin and its sell reservation.\<close>

definition give_back :: "order_submission_request \<Rightarrow> bool \<Rightarrow> gateway_state \<Rightarrow> gateway_state" where
  "give_back r sell_held s =
    (let s1 = s\<lparr>gw_margins := release_reserved_margin (request_account r) (risk_notional r) (gw_margins s)\<rparr>
     in if sell_held then s1\<lparr>gw_pledges := release_sell_reservation (request_account r) (request_instrument r)
           (request_quantity r) (gw_pledges s1)\<rparr> else s1)"

section \<open>Paper orders\<close>

definition simulation_error_text :: "simulation_error \<Rightarrow> string" where
  "simulation_error_text e = (case e of
     LimitPriceMustBePositive \<Rightarrow> ''paper LIMIT order requires a positive limitPriceInMinorUnits''
   | MarketOrderRequiresReferencePrice \<Rightarrow> ''a paper MARKET order requires paperMarketReferencePriceInMinorUnits since oms-gateway has no live price feed''
   | MissingMilliShareQuantity \<Rightarrow> ''paper fractional fill requires a non-nil milliShareQuantity'')"

definition simulation_failed :: "gateway_environment \<Rightarrow> order_submission_request \<Rightarrow> string \<Rightarrow> simulation_error \<Rightarrow>
    order_acknowledgement \<Rightarrow> gateway_state \<Rightarrow> order_acknowledgement \<times> gateway_state" where
  "simulation_failed env r actor err ack s =
    (ack\<lparr>ack_paper_simulation_error := simulation_error_text err\<rparr>,
     audit env (order_entry EventPaperOrderSimulationFailed r actor (simulation_error_text err)) s)"

definition paper_sides :: "order_submission_request \<Rightarrow> string \<times> string" where
  "paper_sides r = (if request_is_buy r then (request_account r, synthetic_counterparty)
     else (synthetic_counterparty, request_account r))"

definition fill_paper_order :: "gateway_environment \<Rightarrow> order_submission_request \<Rightarrow> string \<Rightarrow> bool \<Rightarrow>
    order_acknowledgement \<Rightarrow> gateway_state \<Rightarrow> order_acknowledgement \<times> gateway_state" where
  "fill_paper_order env r actor sell_held ack s0 =
    (let s = give_back r sell_held s0 in case paper_sides r of (buyer, seller) \<Rightarrow>
     if request_milli_share_quantity r \<noteq> None
     then case simulate_fractional_fill r of
         Inl err \<Rightarrow> simulation_failed env r actor err ack s
       | Inr (price, q) \<Rightarrow>
           (ack\<lparr>ack_fractional_executions := ack_fractional_executions ack @
              [\<lparr>fractional_buying_account = buyer, fractional_selling_account = seller,
                fractional_executed_price = price, fractional_executed_milli_shares = q\<rparr>]\<rparr>,
            audit env (order_entry EventPaperOrderFilled r actor (''SIMULATED FRACTIONAL fill '' @ uint64_text q @
                '' milli-share-units @ '' @ int64_text price @
                '' (NOT a real matching-engine trade, NOT settled to ledger)''))
              (s\<lparr>gw_milli_positions := apply_fractional_fill buyer seller (request_instrument r) q
                (gw_milli_positions s)\<rparr>))
     else case simulate_fill r of
         Inl err \<Rightarrow> simulation_failed env r actor err ack s
       | Inr (price, q) \<Rightarrow>
           (ack\<lparr>ack_trade_executions := ack_trade_executions ack @
              [\<lparr>trade_buying_account = buyer, trade_selling_account = seller,
                trade_executed_price = price, trade_executed_quantity = q\<rparr>]\<rparr>,
            audit env (order_entry EventPaperOrderFilled r actor (''SIMULATED fill '' @ uint64_text q @
                '' @ '' @ int64_text price @ '' (NOT a real matching-engine trade, NOT settled to ledger)''))
              (s\<lparr>gw_paper_positions := apply_fill buyer seller (request_instrument r) q (gw_paper_positions s)\<rparr>)))"

section \<open>Live orders\<close>

definition wire_request :: "order_submission_request \<Rightarrow> order_wire_request" where
  "wire_request r = \<lparr>wire_account = request_account r, wire_instrument = request_instrument r,
     wire_is_buy = request_is_buy r, wire_is_market_order = request_is_market_order r,
     wire_is_stop_loss = request_is_stop_loss r, wire_stop_trigger_price = request_stop_trigger_price r,
     wire_limit_price = request_limit_price r, wire_quantity = request_quantity r\<rparr>"

definition executed_notional :: "trade_wire_event \<Rightarrow> int64" where
  "executed_notional ev = event_price ev * event_quantity ev"

text \<open>
  The settlement of one fill: posted to the ledger, and only then reflected in the margin of the
  side that is not the account of the order.
\<close>

definition settle_trade :: "gateway_environment \<Rightarrow> nat \<Rightarrow> trade_wire_event \<Rightarrow> uint64 \<Rightarrow> string \<Rightarrow> risk_engine \<Rightarrow>
    string option \<times> risk_engine" where
  "settle_trade env i ev seq reserved e =
    (let n = executed_notional ev in
     case env_settlement env i (event_buyer ev) (event_seller ev) n seq of
       Some err \<Rightarrow> (Some err, e)
     | None \<Rightarrow>
         let e1 = (if event_buyer ev \<noteq> reserved then adjust_available_margin (event_buyer ev) (- n) e else e)
         in (None, if event_seller ev \<noteq> reserved then adjust_available_margin (event_seller ev) n e1 else e1))"

definition fill_entry :: "audit_event \<Rightarrow> order_submission_request \<Rightarrow> string \<Rightarrow> uint64 \<Rightarrow> trade_wire_event \<Rightarrow> string \<Rightarrow>
    audit_entry" where
  "fill_entry event r actor engine_seq ev detail = (order_entry event r actor detail)\<lparr>
     audit_matching_engine_sequence := engine_seq, audit_buying_account := event_buyer ev,
     audit_selling_account := event_seller ev, audit_executed_price := event_price ev,
     audit_executed_quantity := event_quantity ev\<rparr>"

definition settlement_failure_text :: "uint64 \<Rightarrow> trade_wire_event \<Rightarrow> string \<Rightarrow> string" where
  "settlement_failure_text seq ev err = ''seq='' @ uint64_text seq @ '' buyer='' @ event_buyer ev @ '' seller='' @
     event_seller ev @ '' qty='' @ uint64_text (event_quantity ev) @ '' price='' @ int64_text (event_price ev) @
     '': '' @ err"

definition filled_text :: "trade_wire_event \<Rightarrow> string" where
  "filled_text ev = ''filled '' @ uint64_text (event_quantity ev) @ '' @ '' @ int64_text (event_price ev) @
     '' (buyer='' @ event_buyer ev @ '' seller='' @ event_seller ev @ '')''"

record fill_progress =
  fp_ack :: order_acknowledgement
  fp_state :: gateway_state
  fp_quantity :: uint64
  fp_notional :: int64

definition process_fill :: "gateway_environment \<Rightarrow> order_submission_request \<Rightarrow> string \<Rightarrow> nat \<Rightarrow> trade_wire_event \<Rightarrow>
    fill_progress \<Rightarrow> fill_progress" where
  "process_fill env r actor i ev f =
    (let ack = (fp_ack f)\<lparr>ack_trade_executions := ack_trade_executions (fp_ack f) @
           [\<lparr>trade_buying_account = event_buyer ev, trade_selling_account = event_seller ev,
             trade_executed_price = event_price ev, trade_executed_quantity = event_quantity ev\<rparr>]\<rparr>;
         s = fp_state f; seq = ack_global_sequence_number ack; engine_seq = ack_matching_engine_sequence_number ack
     in case settle_trade env i ev seq (request_account r) (gw_margins s) of
          (Some err, e) \<Rightarrow> f\<lparr>
            fp_ack := ack\<lparr>ack_settlement_failures := ack_settlement_failures ack @ [settlement_failure_text seq ev err]\<rparr>,
            fp_state := audit env (fill_entry EventSettlementFailedPositionNotApplied r actor engine_seq ev
              (''SETTLEMENT_FAILED_POSITION_NOT_APPLIED: '' @ err)) (s\<lparr>gw_margins := e\<rparr>)\<rparr>
        | (None, e) \<Rightarrow> f\<lparr>
            fp_ack := ack,
            fp_quantity := fp_quantity f + event_quantity ev,
            fp_notional := fp_notional f + executed_notional ev,
            fp_state := audit env (fill_entry EventOrderFilled r actor engine_seq ev (filled_text ev))
              (s\<lparr>gw_margins := e,
                gw_positions := apply_fill (event_buyer ev) (event_seller ev) (request_instrument r)
                  (event_quantity ev) (gw_positions s),
                gw_mtm := apply_mtm_fill (event_buyer ev) (event_seller ev) (request_instrument r)
                  (event_quantity ev) (event_price ev) (gw_mtm s)\<rparr>)\<rparr>)"

fun process_fills :: "gateway_environment \<Rightarrow> order_submission_request \<Rightarrow> string \<Rightarrow> nat \<Rightarrow> trade_wire_event list \<Rightarrow>
    fill_progress \<Rightarrow> fill_progress" where
  "process_fills env r actor i [] f = f"
| "process_fills env r actor i (ev # evs) f =
    process_fills env r actor (Suc i) evs (process_fill env r actor i ev f)"

text \<open>After the fills, the settled part of the order's own reservations becomes real.\<close>

definition reconcile_reservations :: "order_submission_request \<Rightarrow> bool \<Rightarrow> uint64 \<Rightarrow> int64 \<Rightarrow> gateway_state \<Rightarrow> gateway_state" where
  "reconcile_reservations r sell_held executed notional s =
    (if 0 < executed \<and> 0 < request_quantity r
     then let portion = int64_div (risk_notional r * executed) (request_quantity r);
              signed = (if request_is_buy r then - notional else notional);
              e = adjust_available_margin (request_account r) signed
                (release_reserved_margin (request_account r) portion (gw_margins s));
              s1 = s\<lparr>gw_margins := e\<rparr>
       in if sell_held then s1\<lparr>gw_pledges := release_sell_reservation (request_account r) (request_instrument r)
             executed (gw_pledges s1)\<rparr> else s1
     else s)"

definition routed_entry :: "order_submission_request \<Rightarrow> string \<Rightarrow> uint64 \<Rightarrow> audit_entry" where
  "routed_entry r actor engine_seq = (order_entry EventOrderRoutedToMatchingEngine r actor '''')\<lparr>
     audit_matching_engine_sequence := engine_seq, audit_is_buy := Some (request_is_buy r),
     audit_quantity := request_quantity r, audit_limit_price := request_limit_price r,
     audit_is_market := request_is_market_order r\<rparr>"

definition engine_failed :: "gateway_environment \<Rightarrow> order_submission_request \<Rightarrow> string \<Rightarrow> bool \<Rightarrow> string \<Rightarrow>
    order_acknowledgement \<Rightarrow> gateway_state \<Rightarrow> order_acknowledgement \<times> gateway_state" where
  "engine_failed env r actor sell_held err ack s =
    (ack\<lparr>ack_matching_engine_error := err\<rparr>,
     give_back r sell_held (audit env (order_entry EventOrderMatchingEngineFailure r actor err) s))"

definition route_order :: "gateway_environment \<Rightarrow> order_submission_request \<Rightarrow> string \<Rightarrow> bool \<Rightarrow>
    order_acknowledgement \<Rightarrow> gateway_state \<Rightarrow> order_acknowledgement \<times> gateway_state" where
  "route_order env r actor sell_held ack s0 =
    (let answer = env_matching_engine env (wire_request r);
         s = s0\<lparr>gw_kill_switch := snd (record_connectivity_check (\<not> isl answer) (gw_kill_switch s0))\<rparr>
     in case answer of
          Inl err \<Rightarrow> engine_failed env r actor sell_held err ack s
        | Inr response \<Rightarrow>
            (case response_error response of
               Some err \<Rightarrow> engine_failed env r actor sell_held err ack s
             | None \<Rightarrow>
                 let (ack1, s1) = (case response_sequence response of
                       None \<Rightarrow> (ack, s)
                     | Some engine_seq \<Rightarrow> (ack\<lparr>ack_matching_engine_sequence_number := engine_seq\<rparr>,
                         audit env (routed_entry r actor engine_seq) s));
                     f = process_fills env r actor 0 (response_trades response)
                       \<lparr>fp_ack = ack1, fp_state = s1, fp_quantity = 0, fp_notional = 0\<rparr>
                 in (fp_ack f, reconcile_reservations r sell_held (fp_quantity f) (fp_notional f) (fp_state f))))"

section \<open>The whole submission\<close>

definition process_order_submission :: "gateway_environment \<Rightarrow> order_submission_request \<Rightarrow> string \<Rightarrow> gateway_state \<Rightarrow>
    order_acknowledgement \<times> gateway_state" where
  "process_order_submission env r actor s =
    (case pass_gates env r actor (s, no_reservations) of
       (Some ack, s1, v) \<Rightarrow> (ack, s1)
     | (None, s1, v) \<Rightarrow>
         (case accept_order env r actor s1 of (ack, s2) \<Rightarrow>
            if request_is_paper_trading r then fill_paper_order env r actor (sell_reserved v) ack s2
            else route_order env r actor (sell_reserved v) ack s2))"

section \<open>Acceptance and rejection\<close>

lemma engine_failed_accepted [simp]:
  "ack_was_accepted (fst (engine_failed env r actor h err ack s)) = ack_was_accepted ack"
  "ack_global_sequence_number (fst (engine_failed env r actor h err ack s)) = ack_global_sequence_number ack"
  by (simp_all add: engine_failed_def)

lemma simulation_failed_accepted [simp]:
  "ack_was_accepted (fst (simulation_failed env r actor err ack s)) = ack_was_accepted ack"
  "ack_global_sequence_number (fst (simulation_failed env r actor err ack s)) = ack_global_sequence_number ack"
  by (simp_all add: simulation_failed_def)

lemma fill_paper_order_accepted [simp]:
  "ack_was_accepted (fst (fill_paper_order env r actor h ack s)) = ack_was_accepted ack"
  "ack_global_sequence_number (fst (fill_paper_order env r actor h ack s)) = ack_global_sequence_number ack"
  by (auto simp: fill_paper_order_def Let_def split: prod.splits sum.splits)

lemma process_fill_accepted [simp]:
  "ack_was_accepted (fp_ack (process_fill env r actor i ev f)) = ack_was_accepted (fp_ack f)"
  "ack_global_sequence_number (fp_ack (process_fill env r actor i ev f)) = ack_global_sequence_number (fp_ack f)"
  by (auto simp: process_fill_def Let_def split: prod.splits option.splits)

lemma process_fills_accepted [simp]:
  "ack_was_accepted (fp_ack (process_fills env r actor i evs f)) = ack_was_accepted (fp_ack f)"
  "ack_global_sequence_number (fp_ack (process_fills env r actor i evs f)) = ack_global_sequence_number (fp_ack f)"
  by (induction evs arbitrary: i f) simp_all

lemma route_order_accepted [simp]:
  "ack_was_accepted (fst (route_order env r actor h ack s)) = ack_was_accepted ack"
  "ack_global_sequence_number (fst (route_order env r actor h ack s)) = ack_global_sequence_number ack"
  by (auto simp: route_order_def Let_def split: sum.splits option.splits prod.splits)

lemma accept_order_ack:
  "ack_was_accepted (fst (accept_order env r actor s))"
  "ack_global_sequence_number (fst (accept_order env r actor s)) = gw_sequence s + 1"
  by (simp_all add: accept_order_def allocate_next_sequence_number_def Let_def)

text \<open>The two ways a submission ends.\<close>

definition gated_state :: "gateway_environment \<Rightarrow> order_submission_request \<Rightarrow> gateway_state \<Rightarrow> gateway_state" where
  "gated_state env r s = s\<lparr>gw_algo := after_strategy env r s, gw_exposure := after_exposure r s,
     gw_friction := after_friction r s, gw_pledges := after_pledge r s, gw_margins := after_risk r s\<rparr>"

lemma first_rejection_None: "first_rejection vs = None \<longleftrightarrow> (\<forall>c \<in> set vs. c = None)"
  by (induction vs rule: first_rejection.induct) auto

lemma submission_accepted:
  assumes "first_rejection (gate_verdicts env r s) = None"
    and "accept_order env r actor (gated_state env r s) = (ack, s1)"
  shows "process_order_submission env r actor s =
    (if request_is_paper_trading r then fill_paper_order env r actor (sells_holding r) ack s1
     else route_order env r actor (sells_holding r) ack s1)"
proof -
  have "run_gates order_gates env r actor (s, no_reservations) = (None, gated_state env r s,
      \<lparr>algo_reserved = (request_strategy_identifier r \<noteq> ''''), exposure_reserved = True,
       sell_reserved = sells_holding r\<rparr>)"
    using assms(1) by (simp only: gates_passed first_rejection_None gated_state_def simp_thms)
  then show ?thesis
    by (simp add: process_order_submission_def pass_gates_def assms(2))
qed

lemma submission_rejected:
  assumes "first_rejection (gate_verdicts env r s) = Some code"
  shows "\<exists>s1 v reason event detail. reserved_so_far env r s s1 v \<and>
    process_order_submission env r actor s = (rejection_acknowledgement code reason,
      release_reservations env r (audit env (order_entry event r actor detail) s1, v))"
proof -
  have "run_gates order_gates env r actor (s, no_reservations) \<noteq> (None, q)" for q
    using assms gates_passed [of env r actor s q] first_rejection_None [of "gate_verdicts env r s"] by auto
  then obtain ack q where run: "run_gates order_gates env r actor (s, no_reservations) = (Some ack, q)"
    by (metis option.exhaust surj_pair)
  from gates_rejected [OF this] obtain s1 v reason event detail where r: "reserved_so_far env r s s1 v"
    and "ack = rejection_acknowledgement code reason"
    and "q = (audit env (order_entry event r actor detail) s1, v)"
    using assms unfolding rejects_def by auto
  then have "process_order_submission env r actor s = (rejection_acknowledgement code reason,
      release_reservations env r (audit env (order_entry event r actor detail) s1, v))"
    by (simp add: process_order_submission_def pass_gates_def run)
  with r show ?thesis by blast
qed

lemma order_accepted_verdict:
  assumes "first_rejection (gate_verdicts env r s) = None"
  shows "ack_was_accepted (fst (process_order_submission env r actor s))"
proof -
  obtain ack s1 where a: "accept_order env r actor (gated_state env r s) = (ack, s1)" by fastforce
  with accept_order_ack(1) [of env r actor "gated_state env r s"] show ?thesis by (simp add: submission_accepted [OF assms a])
qed

lemma submission_refused:
  fixes env r s
  defines "k \<equiv> gates_before_refusal env r s"
  assumes "\<not> ack_was_accepted (fst (process_order_submission env r actor s))"
  shows "\<exists>detail. snd (process_order_submission env r actor s) = release_reservations env r
    (audit env (order_entry (refusal_event k) r actor detail) (state_at_refusal env r s k), flags_at_refusal r k)"
proof -
  obtain result q where run: "run_gates order_gates env r actor (s, no_reservations) = (result, q)" by (metis surj_pair)
  have "result \<noteq> None"
  proof
    assume "result = None"
    with run have "first_rejection (gate_verdicts env r s) = None" by (auto simp only: gates_passed first_rejection_None)
    with order_accepted_verdict assms(2) show False by blast
  qed
  then obtain ack where "result = Some ack" by blast
  with run gates_refused [of env r actor s ack q] show ?thesis
    by (auto simp: process_order_submission_def pass_gates_def k_def)
qed

text \<open>
  C1. An order is accepted exactly when no gate objects, each gate looking at the state in which the
  order arrived: no gate is influenced by what the gates before it have reserved. An accepted order
  gets the next sequence number; a rejected one names the first gate, in the order of the code, that
  objects.
\<close>

theorem order_accepted_exactly:
  "case first_rejection (gate_verdicts env r s) of
     None \<Rightarrow> ack_was_accepted (fst (process_order_submission env r actor s))
       \<and> ack_global_sequence_number (fst (process_order_submission env r actor s)) = gw_sequence s + 1
   | Some code \<Rightarrow> \<not> ack_was_accepted (fst (process_order_submission env r actor s))
       \<and> ack_machine_readable_reason (fst (process_order_submission env r actor s)) = code"
proof (cases "first_rejection (gate_verdicts env r s)")
  case None
  obtain ack s1 where a: "accept_order env r actor (gated_state env r s) = (ack, s1)" by fastforce
  with accept_order_ack [of env r actor "gated_state env r s"]
  have "ack_was_accepted ack" "ack_global_sequence_number ack = gw_sequence s + 1"
    by (simp_all add: gated_state_def)
  then show ?thesis
    by (simp add: None submission_accepted [OF None a])
next
  case (Some code)
  from submission_rejected [OF Some, of actor] Some show ?thesis
    by (auto simp: rejection_acknowledgement_def)
qed

section \<open>A rejection leaves nothing reserved\<close>

text \<open>What is asked of the state: a sell reservation that does not wrap, and no negative totals.\<close>

definition sell_fits :: "order_submission_request \<Rightarrow> gateway_state \<Rightarrow> bool" where
  "sell_fits r s \<longleftrightarrow> uint (reserved_for_pending_sell (request_account r) (request_instrument r) (gw_pledges s)) +
    uint (request_quantity r) < 2 ^ 64"

definition exposures_ok :: "order_submission_request \<Rightarrow> gateway_state \<Rightarrow> bool" where
  "exposures_ok r s \<longleftrightarrow> 0 \<le>s current_account_exposure (request_account r) (gw_exposure s) \<and>
    0 \<le>s current_segment_exposure (request_account r) (classify_segment (request_instrument r)) (gw_exposure s)"

definition usage_ok :: "gateway_environment \<Rightarrow> order_submission_request \<Rightarrow> gateway_state \<Rightarrow> bool" where
  "usage_ok env r s \<longleftrightarrow> 0 \<le>s notional_used_today_of (request_strategy_identifier r) (env_strategy_time env) (gw_algo s)"

lemma sell_reservation_undone:
  assumes "reserve_unpledged_for_sell a ins q net p = (None, p1)" and "q \<noteq> 0"
    and "uint (reserved_for_pending_sell a ins p) + uint q < 2 ^ 64"
  shows "reserved_for_pending_sell c j (release_sell_reservation a ins q p1) = reserved_for_pending_sell c j p"
    and "pledges (release_sell_reservation a ins q p1) = pledges p"
proof -
  have p1: "p1 = p\<lparr>reserved_for_sell := nested_put a ins (reserved_for_pending_sell a ins p + q) (reserved_for_sell p)\<rparr>"
    using assms(1,2) by (auto simp: reserve_unpledged_for_sell_def Let_def split: if_splits)
  have "q \<le> reserved_for_pending_sell a ins p1"
    using uint_add64 [of "reserved_for_pending_sell a ins p" q] assms(3)
    by (simp add: p1 reserved_for_pending_sell_def word_le_def add.commute)
  from reserved_after_release [OF this, of c j]
  show "reserved_for_pending_sell c j (release_sell_reservation a ins q p1) = reserved_for_pending_sell c j p"
    by (auto simp: p1 reserved_for_pending_sell_def)
  show "pledges (release_sell_reservation a ins q p1) = pledges p"
    by (simp add: p1 release_sell_reservation_def Let_def)
qed

lemma release_algo:
  assumes "reserved_so_far env r s s1 v" and "usage_ok env r s"
    and "utc_day_start (env_release_time env) = utc_day_start (env_strategy_time env)"
  shows "notional_used_today_of k (env_strategy_time env) (gw_algo (release_reservations env r (audit env e s1, v)))
    = notional_used_today_of k (env_strategy_time env) (gw_algo s)"
proof -
  have rel: "gw_algo (release_reservations env r (audit env e s1, v)) =
      (if algo_reserved v then release_strategy (request_strategy_identifier r) (order_notional r)
         (env_release_time env) (gw_algo s1) else gw_algo s1)"
    by (simp add: release_reservations_def audit_def Let_def)
  obtain err g where c: "check_and_reserve (request_strategy_identifier r) (order_notional r)
      (env_strategy_time env) (gw_algo s) = (err, g)" by fastforce
  have g: "gw_algo s1 = gw_algo s \<and> \<not> algo_reserved v \<or> gw_algo s1 = after_strategy env r s \<and>
      (algo_reserved v \<longleftrightarrow> request_strategy_identifier r \<noteq> '''' \<and> strategy_verdict env r s = None)"
    using assms(1) unfolding reserved_so_far_def by auto
  show ?thesis
  proof (cases "algo_reserved v")
    case True
    then have "err = None" "gw_algo s1 = g"
      using g c by (auto simp: strategy_verdict_def after_strategy_def)
    then show ?thesis
      using release_after_check [OF _ assms(3) refl, of "request_strategy_identifier r" "order_notional r" "gw_algo s" g k]
        c assms(2) True by (simp add: rel usage_ok_def)
  next
    case False
    then have "gw_algo s1 = gw_algo s \<or> gw_algo s1 = g \<and> err \<noteq> None"
      using g c by (auto simp: strategy_verdict_def after_strategy_def split: if_splits)
    then show ?thesis
      using check_and_reserve_usage [OF c refl, of k] False by (auto simp: rel)
  qed
qed

lemma release_totals:
  fixes e :: audit_entry
  assumes "reserved_so_far env r s s1 v" and "exposures_ok r s" and "0 \<le>s order_notional r"
  defines "s2 \<equiv> release_reservations env r (audit env e s1, v)"
  shows "current_account_exposure k (gw_exposure s2) = current_account_exposure k (gw_exposure s)"
    and "current_segment_exposure k j (gw_exposure s2) = current_segment_exposure k j (gw_exposure s)"
proof -
  have x1: "gw_exposure s1 = (if exposure_reserved v then after_exposure r s else gw_exposure s)"
    and ok: "exposure_reserved v \<longrightarrow> exposure_verdict env r s = None"
    using assms(1) unfolding reserved_so_far_def by auto
  have x2: "gw_exposure s2 = (if exposure_reserved v then release_exposure (request_account r)
      (classify_segment (request_instrument r)) (order_notional r) (gw_exposure s1) else gw_exposure s1)"
    by (simp add: s2_def release_reservations_def audit_def Let_def)
  have "exposure_reserved v \<Longrightarrow> check_and_reserve_exposure (request_account r)
      (classify_segment (request_instrument r)) (order_notional r) (gw_exposure s) = (None, after_exposure r s)"
    using ok by (auto simp: exposure_verdict_def after_exposure_def prod_eq_iff)
  from release_after_reserve [OF this assms(3)] assms(2) [unfolded exposures_ok_def]
  show "current_account_exposure k (gw_exposure s2) = current_account_exposure k (gw_exposure s)"
    "current_segment_exposure k j (gw_exposure s2) = current_segment_exposure k j (gw_exposure s)"
    by (simp_all add: x1 x2)
qed

definition routed_pledges :: "order_submission_request \<Rightarrow> bool \<Rightarrow> bool \<Rightarrow> uint64 \<Rightarrow> pledge_book \<Rightarrow> pledge_book" where
  "routed_pledges r sell_held refused executed p =
    (if sell_held \<and> (refused \<or> 0 < executed \<and> 0 < request_quantity r)
     then release_sell_reservation (request_account r) (request_instrument r)
       (if refused then request_quantity r else executed) p else p)"

lemma pledges_after_refusal:
  assumes "pledge_verdict env r s = None"
  shows "pledges (routed_pledges r h True q (after_pledge r s)) = pledges (gw_pledges s)"
  by (auto simp: routed_pledges_def after_pledge_def release_sell_reservation_def reserve_unpledged_for_sell_def Let_def)

lemma pledge_reservation_undone:
  assumes "sell_fits r s" and "pledge_verdict env r s = None"
  shows "reserved_for_pending_sell k i (routed_pledges r (sells_holding r) True q (after_pledge r s)) =
      reserved_for_pending_sell k i (gw_pledges s)"
    and "pledges (routed_pledges r (sells_holding r) True q (after_pledge r s)) = pledges (gw_pledges s)"
proof -
  have "sells_holding r \<Longrightarrow> reserve_unpledged_for_sell (request_account r) (request_instrument r) (request_quantity r)
      (lookup_or 0 (positions_for_account (request_account r) (gw_positions s)) (request_instrument r)) (gw_pledges s)
      = (None, after_pledge r s) \<and> request_quantity r \<noteq> 0"
    using assms(2) by (auto simp: pledge_verdict_def after_pledge_def sells_holding_def prod_eq_iff)
  with sell_reservation_undone assms(1) [unfolded sell_fits_def]
  show "reserved_for_pending_sell k i (routed_pledges r (sells_holding r) True q (after_pledge r s)) =
      reserved_for_pending_sell k i (gw_pledges s)"
    "pledges (routed_pledges r (sells_holding r) True q (after_pledge r s)) = pledges (gw_pledges s)"
    by (cases "sells_holding r"; simp add: routed_pledges_def after_pledge_kept; metis)+
qed

lemma release_sells:
  fixes e :: audit_entry
  assumes "reserved_so_far env r s s1 v" and "sell_fits r s"
  defines "s2 \<equiv> release_reservations env r (audit env e s1, v)"
  shows "reserved_for_pending_sell k i (gw_pledges s2) = reserved_for_pending_sell k i (gw_pledges s)"
    and "pledges (gw_pledges s2) = pledges (gw_pledges s)"
proof -
  have p1: "gw_pledges s1 = (if sell_reserved v then after_pledge r s else gw_pledges s)"
    and ok: "sell_reserved v \<longrightarrow> sells_holding r \<and> pledge_verdict env r s = None"
    using assms(1) unfolding reserved_so_far_def by auto
  have p2: "gw_pledges s2 = (if sell_reserved v then release_sell_reservation (request_account r)
      (request_instrument r) (request_quantity r) (gw_pledges s1) else gw_pledges s1)"
    by (simp add: s2_def release_reservations_def audit_def Let_def)
  from ok pledge_reservation_undone [OF assms(2)]
  show "reserved_for_pending_sell k i (gw_pledges s2) = reserved_for_pending_sell k i (gw_pledges s)"
    "pledges (gw_pledges s2) = pledges (gw_pledges s)"
    by (auto simp: p1 p2 routed_pledges_def)
qed

text \<open>A small gateway for the examples: one funded account, no limits, a matching engine that fills at once.\<close>

definition demo_gateway :: gateway_state where
  "demo_gateway = \<lparr>gw_kill_switch = new_kill_switch 3, gw_session = None,
     gw_algo = new_algo_registry \<lparr>max_orders_per_second = 0, max_notional_per_day = 0\<rparr>,
     gw_exposure = new_limits_registry, gw_friction = None, gw_disclosure = None,
     gw_positions = [(''b'', [(''X'', 50)])], gw_pledges = new_pledge_book,
     gw_margins = [(''a'', 1000), (''b'', 0)], gw_sequence = 0, gw_audit = [], gw_paper_positions = [],
     gw_milli_positions = [], gw_mtm = new_mtm_engine\<rparr>"

definition demo_environment :: "(order_wire_request \<Rightarrow> string + order_wire_response) \<Rightarrow> gateway_environment" where
  "demo_environment engine = \<lparr>env_float_text = (\<lambda>verb x. ''''), env_strategy_time = 0, env_release_time = 0,
     env_disclosure_time = 0, env_audit_clock = int, env_kyc_eligible = (\<lambda>a. Some True),
     env_frozen = (\<lambda>a. Some (False, '''')), env_matching_engine = engine,
     env_settlement = (\<lambda>i buyer seller n seq. None)\<rparr>"

definition demo_order :: "string \<Rightarrow> bool \<Rightarrow> int64 \<Rightarrow> uint64 \<Rightarrow> order_submission_request" where
  "demo_order a buys price quantity = \<lparr>request_account = a, request_instrument = ''X'', request_is_buy = buys,
     request_is_market_order = False, request_is_stop_loss = False, request_stop_trigger_price = None,
     request_limit_price = price, request_quantity = quantity, request_idempotency_key = '''',
     request_is_after_market_order = False, request_execution_type = '''', request_iceberg_visible_quantity = None,
     request_is_paper_trading = False, request_paper_reference_price = None, request_strategy_identifier = '''',
     request_confirmed_large_order = False, request_milli_share_quantity = None\<rparr>"

lemmas demo_defs = demo_gateway_def demo_environment_def demo_order_def new_kill_switch_def new_algo_registry_def
  new_limits_registry_def new_pledge_book_def new_mtm_engine_def

lemma released_state:
  "release_reservations env r (audit env e (state_at_refusal env r s k), flags_at_refusal r k) = s\<lparr>
      gw_audit := append_audit_entry (env_audit_clock env (length (gw_audit s))) e (gw_audit s),
      gw_friction := (if 4 < k then after_friction r s else gw_friction s),
      gw_algo := (if k < 2 then gw_algo s
        else if k = 2 \<or> request_strategy_identifier r = [] then after_strategy env r s
        else release_strategy (request_strategy_identifier r) (order_notional r) (env_release_time env) (after_strategy env r s)),
      gw_exposure := (if 3 < k then release_exposure (request_account r) (classify_segment (request_instrument r))
          (order_notional r) (after_exposure r s) else gw_exposure s),
      gw_pledges := (if 7 < k \<and> sells_holding r then release_sell_reservation (request_account r) (request_instrument r)
          (request_quantity r) (after_pledge r s) else gw_pledges s)\<rparr>"
  using after_pledge_kept [of r s]
  by (intro gateway_state.equality)
    (auto simp: release_reservations_def state_at_refusal_def flags_at_refusal_def audit_def Let_def)

text \<open>
  C2. What a rejected order changes, exactly. Whichever gate rejects it, the margins, positions, cost bases, paper books,
  sequence numbers, kill switch, session and disclosure records are untouched and one audit entry is appended, a
  strategy limit rejection where the strategy gate rejects, with the order's account, instrument and actor. The order
  stays in the history of the large-order gate once it has passed that gate; the strategy registry keeps what the strategy
  gate did to it, the refill and the token consumed included, when that gate itself rejects, and is released by
  \<open>ReleaseReservation\<close> when a later one does; the exposure and the sell reservation are the reserved ones, released.
  The release cancels the reservation under conditions on the numbers that the code does not check: every exposure total
  is what it was for a non-negative notional where the totals of the account and its segment are not negative, every sell
  reservation where the quantities reserved for the pair and the order's stay below 2^64 together, and the usage of
  every strategy today where the usage of the order's strategy is not negative and the release reads a clock of the same
  UTC day as the reservation.
\<close>

theorem rejected_order_changes_exactly:
  fixes env r actor s
  defines "ack \<equiv> fst (process_order_submission env r actor s)"
    and "s' \<equiv> snd (process_order_submission env r actor s)"
    and "k \<equiv> gates_before_refusal env r s"
  assumes "\<not> ack_was_accepted ack"
  shows "(\<exists>detail. s' = s\<lparr>
      gw_audit := append_audit_entry (env_audit_clock env (length (gw_audit s)))
        (order_entry (if k = 2 then EventStrategyLimitRejected else EventOrderRejected) r actor detail) (gw_audit s),
      gw_friction := (if 4 < k then after_friction r s else gw_friction s),
      gw_algo := (if k < 2 then gw_algo s
        else if k = 2 \<or> request_strategy_identifier r = [] then after_strategy env r s
        else release_strategy (request_strategy_identifier r) (order_notional r) (env_release_time env) (after_strategy env r s)),
      gw_exposure := (if 3 < k then release_exposure (request_account r) (classify_segment (request_instrument r))
          (order_notional r) (after_exposure r s) else gw_exposure s),
      gw_pledges := (if 7 < k \<and> sells_holding r then release_sell_reservation (request_account r) (request_instrument r)
          (request_quantity r) (after_pledge r s) else gw_pledges s)\<rparr>)
    \<and> (if exposures_ok r s \<and> 0 \<le>s order_notional r
       then (\<forall>a. current_account_exposure a (gw_exposure s') = current_account_exposure a (gw_exposure s))
         \<and> (\<forall>a j. current_segment_exposure a j (gw_exposure s') = current_segment_exposure a j (gw_exposure s)) else True)
    \<and> (if sell_fits r s
       then (\<forall>a i. reserved_for_pending_sell a i (gw_pledges s') = reserved_for_pending_sell a i (gw_pledges s))
         \<and> pledges (gw_pledges s') = pledges (gw_pledges s) else True)
    \<and> (if usage_ok env r s \<and> utc_day_start (env_release_time env) = utc_day_start (env_strategy_time env)
       then \<forall>sid. notional_used_today_of sid (env_strategy_time env) (gw_algo s')
         = notional_used_today_of sid (env_strategy_time env) (gw_algo s) else True)"
proof -
  obtain detail where exact: "s' = release_reservations env r
      (audit env (order_entry (refusal_event k) r actor detail) (state_at_refusal env r s k), flags_at_refusal r k)"
    using submission_refused [OF assms(4) [unfolded ack_def]] unfolding s'_def k_def by blast
  have "first_rejection (gate_verdicts env r s) \<noteq> None"
    using order_accepted_verdict assms(4) unfolding ack_def by blast
  then obtain code where "first_rejection (gate_verdicts env r s) = Some code" by blast
  from submission_rejected [OF this, of actor] obtain s1 v e where far: "reserved_so_far env r s s1 v"
    and s': "s' = release_reservations env r (audit env e s1, v)"
    unfolding s'_def by fastforce
  note totals = release_totals [OF far, where e = e, folded s'] release_sells [OF far, where e = e, folded s']
    release_algo [OF far, where e = e, folded s']
  show ?thesis
    unfolding exact released_state refusal_event_def [symmetric]
    using totals [unfolded exact released_state] by (intro conjI exI [of _ detail]) simp_all
qed

lemma demo_verdicts:
  "first_rejection (gate_verdicts (demo_environment engine) (demo_order ''ghost'' True 100 5) demo_gateway)
    = Some ''ACCOUNT_NOT_FOUND''"
  by (simp add: gate_verdicts_def verdict_defs demo_defs is_trading_halted_def check_and_reserve_exposure_def
    over_limit_def evaluate_order_def order_notional_def risk_notional_def risk_rejection_code_def Let_def lookup_or_def)

lemma demo_totals: "exposures_ok (demo_order a buys price quantity) demo_gateway"
  by (simp add: exposures_ok_def demo_defs current_account_exposure_def current_segment_exposure_def lookup_or_def)

lemma rejected_order_changes_exactly_witness:
  "case process_order_submission (demo_environment (\<lambda>q. Inl ''down'')) (demo_order ''ghost'' True 100 5) ''ops'' demo_gateway of (ack, s') \<Rightarrow>
    gw_margins s' = gw_margins demo_gateway \<and> current_account_exposure ''ghost'' (gw_exposure s') = 0 \<and>
    map (\<lambda>e. (audit_event e, audit_account e, audit_actor e)) (gw_audit s') = [(EventOrderRejected, ''ghost'', ''ops'')]"
proof -
  let ?env = "demo_environment (\<lambda>q. Inl ''down'')" and ?r = "demo_order ''ghost'' True 100 5"
  have rejected: "\<not> ack_was_accepted (fst (process_order_submission ?env ?r ''ops'' demo_gateway))"
    using submission_rejected [OF demo_verdicts [of "\<lambda>q. Inl ''down''"], of "''ops''"] by (auto simp: rejection_acknowledgement_def empty_acknowledgement_def)
  have k: "gates_before_refusal ?env ?r demo_gateway = 9"
    by (simp add: gates_before_refusal_def gate_verdicts_def verdict_defs demo_defs is_trading_halted_def check_and_reserve_exposure_def
      over_limit_def evaluate_order_def order_notional_def risk_notional_def risk_rejection_code_def Let_def lookup_or_def)
  have "0 \<le>s order_notional ?r" by (simp add: order_notional_def demo_order_def word_sle_eq)
  with rejected_order_changes_exactly [OF rejected] demo_totals [of "''ghost''" True 100 5]
  show ?thesis
    by (auto simp: case_prod_beta k append_audit_entry_def order_entry_def)
      (simp_all add: demo_gateway_def demo_order_def new_limits_registry_def current_account_exposure_def lookup_or_def)
qed

section \<open>What the fills of an order change\<close>

text \<open>
  The specification of the fill loop: the fills that the ledger settled, as fills of the books, and
  what each of them moves on the margin of an account other than the order's own.
\<close>

fun settled_fills :: "gateway_environment \<Rightarrow> uint64 \<Rightarrow> nat \<Rightarrow> trade_wire_event list \<Rightarrow> trade_wire_event list" where
  "settled_fills env seq i [] = []"
| "settled_fills env seq i (ev # evs) =
    (if env_settlement env i (event_buyer ev) (event_seller ev) (executed_notional ev) seq = None
     then ev # settled_fills env seq (Suc i) evs else settled_fills env seq (Suc i) evs)"

definition as_fill :: "string \<Rightarrow> trade_wire_event \<Rightarrow> fill \<times> int64" where
  "as_fill ins ev = (\<lparr>fill_buyer = event_buyer ev, fill_seller = event_seller ev, fill_instrument = ins,
     fill_quantity = event_quantity ev\<rparr>, event_price ev)"

definition margin_of :: "gateway_state \<Rightarrow> string \<Rightarrow> int64" where
  "margin_of s a = lookup_or 0 (gw_margins s) a"

definition counterparty_delta :: "string \<Rightarrow> trade_wire_event \<Rightarrow> string \<Rightarrow> int64" where
  "counterparty_delta own ev k = (if k = own then 0 else
     (if event_seller ev = k then executed_notional ev else 0) - (if event_buyer ev = k then executed_notional ev else 0))"

lemma audit_frame [simp]:
  "gw_kill_switch (audit env e s) = gw_kill_switch s" "gw_session (audit env e s) = gw_session s"
  "gw_algo (audit env e s) = gw_algo s" "gw_exposure (audit env e s) = gw_exposure s"
  "gw_friction (audit env e s) = gw_friction s" "gw_disclosure (audit env e s) = gw_disclosure s"
  "gw_positions (audit env e s) = gw_positions s" "gw_pledges (audit env e s) = gw_pledges s"
  "gw_margins (audit env e s) = gw_margins s" "gw_sequence (audit env e s) = gw_sequence s"
  "gw_paper_positions (audit env e s) = gw_paper_positions s"
  "gw_milli_positions (audit env e s) = gw_milli_positions s" "gw_mtm (audit env e s) = gw_mtm s"
  by (simp_all add: audit_def)

definition same_but_books :: "gateway_state \<Rightarrow> gateway_state \<Rightarrow> bool" where
  "same_but_books s s' \<longleftrightarrow> gw_kill_switch s' = gw_kill_switch s \<and> gw_algo s' = gw_algo s \<and>
    gw_exposure s' = gw_exposure s \<and> gw_pledges s' = gw_pledges s \<and> gw_disclosure s' = gw_disclosure s \<and>
    gw_sequence s' = gw_sequence s \<and> gw_paper_positions s' = gw_paper_positions s \<and>
    gw_milli_positions s' = gw_milli_positions s"

lemma settle_trade_cases:
  assumes "settle_trade env i ev seq own e = (result, e')"
  shows "result = env_settlement env i (event_buyer ev) (event_seller ev) (executed_notional ev) seq"
    and "lookup_or 0 e' k = lookup_or 0 e k + (if result = None then counterparty_delta own ev k else 0)"
  using assms
  by (auto simp: settle_trade_def Let_def counterparty_delta_def adjust_available_margin_def
    split: option.splits if_splits)

lemma process_fill_settled:
  assumes "settle_trade env i ev (ack_global_sequence_number (fp_ack f)) (request_account r)
      (gw_margins (fp_state f)) = (None, e)"
  shows "\<exists>ack entry. process_fill env r actor i ev f = f\<lparr>fp_ack := ack,
    fp_quantity := fp_quantity f + event_quantity ev, fp_notional := fp_notional f + executed_notional ev,
    fp_state := audit env entry ((fp_state f)\<lparr>gw_margins := e,
      gw_positions := apply_fill (event_buyer ev) (event_seller ev) (request_instrument r) (event_quantity ev)
        (gw_positions (fp_state f)),
      gw_mtm := apply_mtm_fill (event_buyer ev) (event_seller ev) (request_instrument r) (event_quantity ev)
        (event_price ev) (gw_mtm (fp_state f))\<rparr>)\<rparr>"
  using assms by (simp add: process_fill_def Let_def) blast

lemma process_fill_unsettled:
  assumes "settle_trade env i ev (ack_global_sequence_number (fp_ack f)) (request_account r)
      (gw_margins (fp_state f)) = (Some err, e)"
  shows "\<exists>ack entry. process_fill env r actor i ev f = f\<lparr>fp_ack := ack,
    fp_state := audit env entry ((fp_state f)\<lparr>gw_margins := e\<rparr>)\<rparr>"
  using assms by (simp add: process_fill_def Let_def) blast

definition fills_effect :: "order_submission_request \<Rightarrow> trade_wire_event list \<Rightarrow> fill_progress \<Rightarrow> fill_progress \<Rightarrow> bool" where
  "fills_effect r settled f f' \<longleftrightarrow>
     gw_positions (fp_state f') = apply_fills (map (fst \<circ> as_fill (request_instrument r)) settled) (gw_positions (fp_state f)) \<and>
     gw_mtm (fp_state f') = apply_mtm_fills (map (as_fill (request_instrument r)) settled) (gw_mtm (fp_state f)) \<and>
     fp_quantity f' = fp_quantity f + sum_list (map event_quantity settled) \<and>
     fp_notional f' = fp_notional f + sum_list (map executed_notional settled) \<and>
     (\<forall>k. margin_of (fp_state f') k = margin_of (fp_state f) k
       + (\<Sum>ev\<leftarrow>settled. counterparty_delta (request_account r) ev k)) \<and>
     same_but_books (fp_state f) (fp_state f')"

lemma process_fill_effect:
  "fills_effect r (settled_fills env (ack_global_sequence_number (fp_ack f)) i [ev]) f (process_fill env r actor i ev f)"
proof -
  obtain result e where t: "settle_trade env i ev (ack_global_sequence_number (fp_ack f)) (request_account r)
      (gw_margins (fp_state f)) = (result, e)" by fastforce
  note c = settle_trade_cases [OF t]
  show ?thesis
  proof (cases result)
    case None
    from process_fill_settled [OF t [unfolded None], of actor] c show ?thesis
      by (auto simp: None fills_effect_def apply_fills_def apply_mtm_fills_def as_fill_def margin_of_def
        same_but_books_def)
  next
    case (Some err)
    from process_fill_unsettled [OF t [unfolded Some], of actor] c show ?thesis
      by (auto simp: Some fills_effect_def apply_fills_def apply_mtm_fills_def margin_of_def same_but_books_def)
  qed
qed

lemma settled_fills_Cons:
  "settled_fills env seq i (ev # evs) = settled_fills env seq i [ev] @ settled_fills env seq (Suc i) evs"
  by simp

lemma apply_fills_append: "apply_fills (fs @ gs) b = apply_fills gs (apply_fills fs b)"
  by (simp add: apply_fills_def)

lemma apply_mtm_fills_append: "apply_mtm_fills (fs @ gs) e = apply_mtm_fills gs (apply_mtm_fills fs e)"
  by (simp add: apply_mtm_fills_def)

lemma fills_effect_trans:
  "fills_effect r xs f g \<Longrightarrow> fills_effect r ys g h \<Longrightarrow> fills_effect r (xs @ ys) f h"
  by (simp add: fills_effect_def same_but_books_def apply_fills_append apply_mtm_fills_append add.assoc)

lemma process_fills_effect:
  "fills_effect r (settled_fills env (ack_global_sequence_number (fp_ack f)) i evs) f (process_fills env r actor i evs f)"
proof (induction evs arbitrary: i f)
  case Nil
  then show ?case by (simp add: fills_effect_def apply_fills_def apply_mtm_fills_def same_but_books_def)
next
  case (Cons ev evs)
  from fills_effect_trans [OF process_fill_effect Cons.IH] show ?case
    by (simp add: settled_fills_Cons [of env _ i ev evs] del: settled_fills.simps)
qed

text \<open>What the matching engine says to an order: a refusal (unreachable, or an error in its answer), or fills.\<close>

definition engine_refuses :: "gateway_environment \<Rightarrow> order_submission_request \<Rightarrow> bool" where
  "engine_refuses env r \<longleftrightarrow> (case env_matching_engine env (wire_request r) of
     Inl err \<Rightarrow> True | Inr response \<Rightarrow> response_error response \<noteq> None)"

definition engine_fills :: "gateway_environment \<Rightarrow> order_submission_request \<Rightarrow> trade_wire_event list" where
  "engine_fills env r = (case env_matching_engine env (wire_request r) of
     Inl err \<Rightarrow> [] | Inr response \<Rightarrow> if response_error response = None then response_trades response else [])"

text \<open>What an accepted order changes on its own account's margin after the reservation.\<close>

definition own_margin_change :: "order_submission_request \<Rightarrow> bool \<Rightarrow> trade_wire_event list \<Rightarrow> int64" where
  "own_margin_change r refused settled =
    (let q = sum_list (map event_quantity settled); n = sum_list (map executed_notional settled) in
     if refused then risk_notional r
     else if 0 < q \<and> 0 < request_quantity r
     then int64_div (risk_notional r * q) (request_quantity r) + (if request_is_buy r then - n else n)
     else 0)"

lemma margin_of_release [simp]:
  "margin_of (s\<lparr>gw_margins := release_reserved_margin a n e\<rparr>) k = lookup_or 0 e k + (if k = a then n else 0)"
  "margin_of (s\<lparr>gw_margins := adjust_available_margin a n e\<rparr>) k = lookup_or 0 e k + (if k = a then n else 0)"
  "lookup_or 0 (release_reserved_margin a n e) k = lookup_or 0 e k + (if k = a then n else 0)"
  by (simp_all add: margin_of_def release_reserved_margin_def adjust_available_margin_def)

lemma margin_of_frame [simp]:
  "margin_of (audit env e s) k = margin_of s k" "margin_of (s\<lparr>gw_pledges := p\<rparr>) k = margin_of s k"
  "margin_of (s\<lparr>gw_kill_switch := x\<rparr>) k = margin_of s k" "margin_of (s\<lparr>gw_sequence := n\<rparr>) k = margin_of s k"
  "margin_of (s\<lparr>gw_disclosure := g\<rparr>) k = margin_of s k"
  "margin_of (s\<lparr>gw_paper_positions := b\<rparr>) k = margin_of s k"
  "margin_of (s\<lparr>gw_milli_positions := b\<rparr>) k = margin_of s k"
  by (simp_all add: margin_of_def)

lemma give_back_effect:
  "margin_of (give_back r h s) k = margin_of s k + (if k = request_account r then risk_notional r else 0)"
  "gw_pledges (give_back r h s) = routed_pledges r h True 0 (gw_pledges s)"
  "gw_positions (give_back r h s) = gw_positions s" "gw_mtm (give_back r h s) = gw_mtm s"
  "gw_exposure (give_back r h s) = gw_exposure s" "gw_algo (give_back r h s) = gw_algo s"
  "gw_paper_positions (give_back r h s) = gw_paper_positions s"
  "gw_milli_positions (give_back r h s) = gw_milli_positions s"
  "gw_kill_switch (give_back r h s) = gw_kill_switch s" "gw_sequence (give_back r h s) = gw_sequence s"
  by (simp_all add: give_back_def Let_def routed_pledges_def) (simp add: margin_of_def)

lemma reconcile_effect:
  fixes s r h q n
  defines "s' \<equiv> reconcile_reservations r h q n s"
  shows "margin_of s' k = margin_of s k + (if k = request_account r \<and> 0 < q \<and> 0 < request_quantity r
      then int64_div (risk_notional r * q) (request_quantity r) + (if request_is_buy r then - n else n) else 0)"
    and "gw_pledges s' = routed_pledges r h False q (gw_pledges s)"
    and "gw_positions s' = gw_positions s" and "gw_mtm s' = gw_mtm s"
    and "gw_exposure s' = gw_exposure s" and "gw_algo s' = gw_algo s"
    and "gw_paper_positions s' = gw_paper_positions s" and "gw_milli_positions s' = gw_milli_positions s"
    and "gw_sequence s' = gw_sequence s" and "gw_kill_switch s' = gw_kill_switch s"
  by (simp_all add: s'_def reconcile_reservations_def Let_def routed_pledges_def) (simp add: margin_of_def)

definition route_effect :: "gateway_environment \<Rightarrow> order_submission_request \<Rightarrow> bool \<Rightarrow> uint64 \<Rightarrow>
    gateway_state \<Rightarrow> gateway_state \<Rightarrow> bool" where
  "route_effect env r h seq s s' \<longleftrightarrow> (let settled = settled_fills env seq 0 (engine_fills env r) in
     gw_positions s' = apply_fills (map (fst \<circ> as_fill (request_instrument r)) settled) (gw_positions s) \<and>
     gw_mtm s' = apply_mtm_fills (map (as_fill (request_instrument r)) settled) (gw_mtm s) \<and>
     (\<forall>k. margin_of s' k = margin_of s k + (\<Sum>ev\<leftarrow>settled. counterparty_delta (request_account r) ev k)
       + (if k = request_account r then own_margin_change r (engine_refuses env r) settled else 0)) \<and>
     gw_pledges s' = routed_pledges r h (engine_refuses env r) (sum_list (map event_quantity settled)) (gw_pledges s) \<and>
     gw_exposure s' = gw_exposure s \<and> gw_algo s' = gw_algo s \<and>
     gw_paper_positions s' = gw_paper_positions s \<and> gw_milli_positions s' = gw_milli_positions s \<and>
     gw_sequence s' = gw_sequence s)"

definition engine_health :: "gateway_environment \<Rightarrow> order_submission_request \<Rightarrow> gateway_state \<Rightarrow> kill_switch" where
  "engine_health env r s = snd (record_connectivity_check (\<not> isl (env_matching_engine env (wire_request r))) (gw_kill_switch s))"

lemma route_order_refused:
  assumes "engine_refuses env r"
  shows "\<exists>err. snd (route_order env r actor h ack s) =
    give_back r h (audit env (order_entry EventOrderMatchingEngineFailure r actor err) (s\<lparr>gw_kill_switch := engine_health env r s\<rparr>))"
  using assms by (auto simp: engine_refuses_def engine_health_def route_order_def engine_failed_def Let_def split: sum.splits option.splits)

lemma route_order_filled:
  assumes "\<not> engine_refuses env r"
  shows "\<exists>f. same_but_books s ((fp_state f)\<lparr>gw_kill_switch := gw_kill_switch s\<rparr>) \<and>
    margin_of (fp_state f) = margin_of s \<and> gw_positions (fp_state f) = gw_positions s \<and> gw_mtm (fp_state f) = gw_mtm s \<and>
    fp_quantity f = 0 \<and> fp_notional f = 0 \<and> ack_global_sequence_number (fp_ack f) = ack_global_sequence_number ack \<and>
    snd (route_order env r actor h ack s) =
      (let g = process_fills env r actor 0 (engine_fills env r) f
       in reconcile_reservations r h (fp_quantity g) (fp_notional g) (fp_state g))"
proof -
  obtain response where a: "env_matching_engine env (wire_request r) = Inr response" "response_error response = None"
    using assms by (auto simp: engine_refuses_def split: sum.splits)
  define s1 where "s1 = s\<lparr>gw_kill_switch := snd (record_connectivity_check True (gw_kill_switch s))\<rparr>"
  define f where "f = (case response_sequence response of
      None \<Rightarrow> \<lparr>fp_ack = ack, fp_state = s1, fp_quantity = 0, fp_notional = 0\<rparr>
    | Some n \<Rightarrow> \<lparr>fp_ack = ack\<lparr>ack_matching_engine_sequence_number := n\<rparr>,
        fp_state = audit env (routed_entry r actor n) s1, fp_quantity = 0, fp_notional = 0\<rparr>)"
  have "snd (route_order env r actor h ack s) =
      (let g = process_fills env r actor 0 (engine_fills env r) f
       in reconcile_reservations r h (fp_quantity g) (fp_notional g) (fp_state g))"
    by (simp add: route_order_def a engine_fills_def f_def s1_def Let_def split: option.splits)
  then show ?thesis
    by (intro exI [of _ f]) (simp add: f_def s1_def same_but_books_def fun_eq_iff split: option.splits)
qed

lemma route_order_effect:
  "route_effect env r h (ack_global_sequence_number ack) s (snd (route_order env r actor h ack s))"
proof (cases "engine_refuses env r")
  case True
  then have "engine_fills env r = []"
    by (auto simp: engine_refuses_def engine_fills_def split: sum.splits)
  with route_order_refused [OF True, of actor h ack s] show ?thesis
    by (auto simp: route_effect_def give_back_effect True own_margin_change_def apply_fills_def apply_mtm_fills_def)
next
  case False
  from route_order_filled [OF False, of s ack actor h] obtain f where
    f: "same_but_books s ((fp_state f)\<lparr>gw_kill_switch := gw_kill_switch s\<rparr>)" "margin_of (fp_state f) = margin_of s"
      "gw_positions (fp_state f) = gw_positions s" "gw_mtm (fp_state f) = gw_mtm s" "fp_quantity f = 0"
      "fp_notional f = 0" "ack_global_sequence_number (fp_ack f) = ack_global_sequence_number ack"
    and s': "snd (route_order env r actor h ack s) =
      (let g = process_fills env r actor 0 (engine_fills env r) f
       in reconcile_reservations r h (fp_quantity g) (fp_notional g) (fp_state g))"
    by blast
  from process_fills_effect [of r env f 0 "engine_fills env r" actor] f show ?thesis
    by (simp add: route_effect_def fills_effect_def s' reconcile_effect own_margin_change_def False Let_def
      same_but_books_def)
qed

section \<open>The effect of a submission\<close>

lemma accept_order_frame:
  assumes "accept_order env r actor s = (ack, s1)"
  shows "margin_of s1 k = margin_of s k" "gw_positions s1 = gw_positions s" "gw_mtm s1 = gw_mtm s"
    "gw_pledges s1 = gw_pledges s" "gw_exposure s1 = gw_exposure s" "gw_algo s1 = gw_algo s"
    "gw_paper_positions s1 = gw_paper_positions s" "gw_milli_positions s1 = gw_milli_positions s"
    "gw_kill_switch s1 = gw_kill_switch s" "ack_global_sequence_number ack = gw_sequence s + 1"
  using assms by (auto simp: accept_order_def allocate_next_sequence_number_def Let_def split: option.splits)

lemma gated_margin:
  assumes "first_rejection (gate_verdicts env r s) = None"
  shows "margin_of (gated_state env r s) k = margin_of s k - (if k = request_account r then risk_notional r else 0)"
proof -
  have "risk_verdict env r s = None"
    using assms by (simp add: first_rejection_None gate_verdicts_def)
  then have "evaluate_order (request_account r) (risk_notional r) (gw_margins s) = (OrderApproved, after_risk r s)"
    by (simp add: risk_verdict_def after_risk_def Let_def prod_eq_iff split: if_splits)
  then show ?thesis
    by (auto simp: evaluate_order_approved margin_of_def gated_state_def lookup_or_def)
qed

lemma gated_frame [simp]:
  "gw_friction (gated_state env r s) = after_friction r s" "gw_algo (gated_state env r s) = after_strategy env r s"
  "gw_audit (gated_state env r s) = gw_audit s"
  "gw_positions (gated_state env r s) = gw_positions s" "gw_mtm (gated_state env r s) = gw_mtm s"
  "gw_paper_positions (gated_state env r s) = gw_paper_positions s"
  "gw_milli_positions (gated_state env r s) = gw_milli_positions s"
  "gw_pledges (gated_state env r s) = after_pledge r s" "gw_exposure (gated_state env r s) = after_exposure r s"
  "gw_kill_switch (gated_state env r s) = gw_kill_switch s" "gw_sequence (gated_state env r s) = gw_sequence s"
  by (simp_all add: gated_state_def)

definition goes_live :: "gateway_environment \<Rightarrow> order_submission_request \<Rightarrow> gateway_state \<Rightarrow> bool" where
  "goes_live env r s \<longleftrightarrow> first_rejection (gate_verdicts env r s) = None \<and> \<not> request_is_paper_trading r"

definition order_fills :: "gateway_environment \<Rightarrow> order_submission_request \<Rightarrow> gateway_state \<Rightarrow> trade_wire_event list" where
  "order_fills env r s = (if goes_live env r s
     then settled_fills env (gw_sequence s + 1) 0 (engine_fills env r) else [])"

lemma live_order:
  assumes "goes_live env r s"
  obtains s1 where "route_effect env r (sells_holding r) (gw_sequence s + 1) s1 (snd (process_order_submission env r actor s))"
    and "\<And>k. margin_of s1 k = margin_of (gated_state env r s) k" and "gw_positions s1 = gw_positions s"
    and "gw_mtm s1 = gw_mtm s" and "gw_pledges s1 = after_pledge r s" and "gw_exposure s1 = after_exposure r s"
    and "gw_paper_positions s1 = gw_paper_positions s" and "gw_milli_positions s1 = gw_milli_positions s"
proof -
  obtain ack s1 where a: "accept_order env r actor (gated_state env r s) = (ack, s1)" by fastforce
  note frame = accept_order_frame [OF a]
  have "process_order_submission env r actor s = route_order env r actor (sells_holding r) ack s1"
    using assms submission_accepted [OF _ a] by (simp add: goes_live_def)
  with route_order_effect [of env r "sells_holding r" ack s1 actor] frame that [of s1] show ?thesis by simp
qed

lemma paper_order:
  assumes "first_rejection (gate_verdicts env r s) = None" and "request_is_paper_trading r"
  obtains ack s1 where "process_order_submission env r actor s = fill_paper_order env r actor (sells_holding r) ack s1"
    and "\<And>k. margin_of s1 k = margin_of (gated_state env r s) k" and "gw_positions s1 = gw_positions s"
    and "gw_mtm s1 = gw_mtm s" and "gw_pledges s1 = after_pledge r s" and "gw_exposure s1 = after_exposure r s"
    and "gw_paper_positions s1 = gw_paper_positions s" and "gw_milli_positions s1 = gw_milli_positions s"
    and "gw_kill_switch s1 = gw_kill_switch s"
proof -
  obtain ack s1 where a: "accept_order env r actor (gated_state env r s) = (ack, s1)" by fastforce
  from submission_accepted [OF assms(1) a] accept_order_frame [OF a] assms(2) that [of ack s1] show ?thesis by simp
qed

lemma rejected_order:
  assumes "first_rejection (gate_verdicts env r s) = Some code"
  shows "gw_margins (snd (process_order_submission env r actor s)) = gw_margins s"
    and "gw_positions (snd (process_order_submission env r actor s)) = gw_positions s"
    and "gw_mtm (snd (process_order_submission env r actor s)) = gw_mtm s"
    and "gw_paper_positions (snd (process_order_submission env r actor s)) = gw_paper_positions s"
    and "gw_milli_positions (snd (process_order_submission env r actor s)) = gw_milli_positions s"
    and "gw_kill_switch (snd (process_order_submission env r actor s)) = gw_kill_switch s"
proof -
  obtain s1 v e where r: "reserved_so_far env r s s1 v"
    and s': "snd (process_order_submission env r actor s) = release_reservations env r (audit env e s1, v)"
    using submission_rejected [OF assms, of actor] by fastforce
  from r obtain g x f p where s1: "s1 = s\<lparr>gw_algo := g, gw_exposure := x, gw_friction := f, gw_pledges := p\<rparr>"
    unfolding reserved_so_far_def by blast
  show "gw_margins (snd (process_order_submission env r actor s)) = gw_margins s"
    "gw_positions (snd (process_order_submission env r actor s)) = gw_positions s"
    "gw_mtm (snd (process_order_submission env r actor s)) = gw_mtm s"
    "gw_paper_positions (snd (process_order_submission env r actor s)) = gw_paper_positions s"
    "gw_milli_positions (snd (process_order_submission env r actor s)) = gw_milli_positions s"
    "gw_kill_switch (snd (process_order_submission env r actor s)) = gw_kill_switch s"
    by (simp_all add: s' s1 release_reservations_def Let_def)
qed

lemma fill_paper_order_frame:
  fixes env r actor h ack s
  defines "s' \<equiv> snd (fill_paper_order env r actor h ack s)"
  shows "margin_of s' k = margin_of s k + (if k = request_account r then risk_notional r else 0)"
    and "gw_positions s' = gw_positions s" and "gw_mtm s' = gw_mtm s"
    and "gw_pledges s' = routed_pledges r h True 0 (gw_pledges s)" and "gw_exposure s' = gw_exposure s"
    and "gw_kill_switch s' = gw_kill_switch s"
  by (auto simp: s'_def fill_paper_order_def simulation_failed_def give_back_effect Let_def
    split: prod.splits sum.splits)

section \<open>Properties\<close>

lemma position_step:
  "gw_positions (snd (process_order_submission env r actor s)) =
      apply_fills (map (fst \<circ> as_fill (request_instrument r)) (order_fills env r s)) (gw_positions s) \<and>
    gw_mtm (snd (process_order_submission env r actor s)) =
      apply_mtm_fills (map (as_fill (request_instrument r)) (order_fills env r s)) (gw_mtm s)"
proof (cases "goes_live env r s")
  case True
  from live_order [OF this, of actor] show ?thesis
    by (metis (no_types, lifting) True order_fills_def route_effect_def)
next
  case False
  have "gw_positions (snd (process_order_submission env r actor s)) = gw_positions s \<and>
    gw_mtm (snd (process_order_submission env r actor s)) = gw_mtm s"
  proof (cases "first_rejection (gate_verdicts env r s)")
    case None
    with False have "request_is_paper_trading r" by (simp add: goes_live_def)
    from paper_order [OF None this, of actor] show ?thesis
      by (metis fill_paper_order_frame(2,3))
  qed (simp add: rejected_order)
  with False show ?thesis
    by (simp add: order_fills_def apply_fills_def apply_mtm_fills_def)
qed

text \<open>
  The books record what was settled: an order moves the position book and the cost bases by
  exactly the fills of the matching engine that the ledger settled, in their order; a rejected order,
  a paper order, and a fill whose settlement failed move neither.
\<close>

theorem books_record_settled_fills:
  "gw_positions (snd (process_order_submission env r actor s)) =
      apply_fills (map (fst \<circ> as_fill (request_instrument r)) (order_fills env r s)) (gw_positions s)
    \<and> gw_mtm (snd (process_order_submission env r actor s)) =
      apply_mtm_fills (map (as_fill (request_instrument r)) (order_fills env r s)) (gw_mtm s)"
  by (rule position_step)

lemma margin_step:
  "margin_of (snd (process_order_submission env r actor s)) k = margin_of s k
    + (\<Sum>ev\<leftarrow>order_fills env r s. counterparty_delta (request_account r) ev k)
    + (if goes_live env r s \<and> k = request_account r
       then own_margin_change r (engine_refuses env r) (order_fills env r s) - risk_notional r else 0)"
proof (cases "goes_live env r s")
  case True
  then have ok: "first_rejection (gate_verdicts env r s) = None" by (simp add: goes_live_def)
  obtain s1 where e: "route_effect env r (sells_holding r) (gw_sequence s + 1) s1
      (snd (process_order_submission env r actor s))"
    and m: "\<And>k. margin_of s1 k = margin_of (gated_state env r s) k"
    using live_order [OF True, of actor] by blast
  show ?thesis
    using e [unfolded route_effect_def Let_def] True by (simp add: m gated_margin [OF ok] order_fills_def)
next
  case False
  have "margin_of (snd (process_order_submission env r actor s)) k = margin_of s k"
  proof (cases "first_rejection (gate_verdicts env r s)")
    case None
    with False have "request_is_paper_trading r" by (simp add: goes_live_def)
    from paper_order [OF None this, of actor] obtain ack s1
      where "process_order_submission env r actor s = fill_paper_order env r actor (sells_holding r) ack s1"
        and "\<And>k. margin_of s1 k = margin_of (gated_state env r s) k" by metis
    then show ?thesis
      by (simp add: fill_paper_order_frame gated_margin [OF None])
  qed (simp add: rejected_order margin_of_def)
  with False show ?thesis by (simp add: order_fills_def)
qed

text \<open>
  C8. The margin of every account is moved exactly: an order that goes live holds its notional back
  from its account, gives it back whole when the matching engine refuses it and in proportion to the
  settled quantity otherwise, and adds or takes the notional that was executed; the counterparty of
  each settled fill pays or receives that fill; nothing else moves any margin.
\<close>

theorem margins_move_exactly:
  "margin_of (snd (process_order_submission env r actor s)) k = margin_of s k
    + (\<Sum>ev\<leftarrow>order_fills env r s. counterparty_delta (request_account r) ev k)
    + (if goes_live env r s \<and> k = request_account r
       then own_margin_change r (engine_refuses env r) (order_fills env r s) - risk_notional r else 0)"
  by (rule margin_step)

text \<open>A run of orders through one gateway, each with its own answers from outside.\<close>

fun run_orders :: "(gateway_environment \<times> order_submission_request \<times> string) list \<Rightarrow> gateway_state \<Rightarrow> gateway_state" where
  "run_orders [] s = s"
| "run_orders ((env, r, actor) # os) s = run_orders os (snd (process_order_submission env r actor s))"

definition books_agree :: "gateway_state \<Rightarrow> bool" where
  "books_agree s \<longleftrightarrow> book_ok (gw_positions s) \<and>
    (\<forall>k i. net_quantity (basis_of (gw_mtm s) k i) = nested_get 0 (gw_positions s) k i)"

lemma books_agree_step:
  assumes "books_agree s" and "s' = snd (process_order_submission env r actor s)"
  shows "books_agree s' \<and> instrument_total (gw_positions s') i = instrument_total (gw_positions s) i"
proof -
  let ?fs = "map (as_fill (request_instrument r)) (order_fills env r s)"
  have p: "gw_positions s' = apply_fills (map fst ?fs) (gw_positions s)" "gw_mtm s' = apply_mtm_fills ?fs (gw_mtm s)"
    using position_step [of env r actor s] by (simp_all add: assms(2) comp_def)
  have "book_ok (gw_positions s)" using assms(1) by (simp add: books_agree_def)
  from fills_log [OF this, of "map fst ?fs"] net_quantity_run [of "gw_mtm s" "gw_positions s" ?fs] assms(1) show ?thesis
    unfolding books_agree_def p by blast
qed

text \<open>
  C7. The two books of the gateway never drift apart: from a state in which they agree, in particular
  a new gateway, after any run of orders, whatever the services outside answered, the net quantity of
  every cost basis is the position of the book, and trading has created or destroyed no holdings of
  any instrument.
\<close>

theorem books_agree_after_orders:
  assumes "books_agree s"
  shows "books_agree (run_orders os s)
    \<and> instrument_total (gw_positions (run_orders os s)) i = instrument_total (gw_positions s) i"
  using assms
proof (induction os arbitrary: s)
  case (Cons o1 os)
  obtain env r actor where o1: "o1 = (env, r, actor)" by (metis prod.exhaust)
  from books_agree_step [OF Cons.prems refl, of env r actor] Cons.IH show ?case by (simp add: o1)
qed simp

lemma books_agree_after_orders_witness:
  "books_agree (run_orders [(demo_environment (\<lambda>q. Inr \<lparr>response_trades =
    [\<lparr>event_buyer = ''a'', event_seller = ''b'', event_price = 100, event_quantity = 5\<rparr>],
    response_error = None, response_sequence = Some 1\<rparr>), demo_order ''a'' True 100 5, ''a'')]
    (demo_gateway\<lparr>gw_positions := new_position_book\<rparr>))"
proof -
  have "books_agree (demo_gateway\<lparr>gw_positions := new_position_book\<rparr>)"
    by (simp add: books_agree_def demo_defs new_position_book_def book_ok_def basis_of_def empty_cost_basis_def)
  from books_agree_after_orders [OF this] show ?thesis by blast
qed

lemma refused_no_fills: "engine_refuses env r \<Longrightarrow> order_fills env r s = []"
  by (auto simp: order_fills_def engine_refuses_def engine_fills_def split: sum.splits)

lemma accepted_pledge_verdict: "first_rejection (gate_verdicts env r s) = None \<Longrightarrow> pledge_verdict env r s = None"
  by (simp add: first_rejection_None gate_verdicts_def)

lemma live_order_rest:
  assumes "goes_live env r s"
  shows "gw_pledges (snd (process_order_submission env r actor s)) = routed_pledges r (sells_holding r)
      (engine_refuses env r) (sum_list (map event_quantity (order_fills env r s))) (after_pledge r s)"
    and "gw_exposure (snd (process_order_submission env r actor s)) = after_exposure r s"
    and "gw_paper_positions (snd (process_order_submission env r actor s)) = gw_paper_positions s"
    and "gw_milli_positions (snd (process_order_submission env r actor s)) = gw_milli_positions s"
proof -
  obtain s1 where e: "route_effect env r (sells_holding r) (gw_sequence s + 1) s1
      (snd (process_order_submission env r actor s))"
    and s1: "gw_pledges s1 = after_pledge r s" "gw_exposure s1 = after_exposure r s"
      "gw_paper_positions s1 = gw_paper_positions s" "gw_milli_positions s1 = gw_milli_positions s"
    using live_order [OF assms, of actor] by blast
  show "gw_pledges (snd (process_order_submission env r actor s)) = routed_pledges r (sells_holding r)
      (engine_refuses env r) (sum_list (map event_quantity (order_fills env r s))) (after_pledge r s)"
    "gw_exposure (snd (process_order_submission env r actor s)) = after_exposure r s"
    "gw_paper_positions (snd (process_order_submission env r actor s)) = gw_paper_positions s"
    "gw_milli_positions (snd (process_order_submission env r actor s)) = gw_milli_positions s"
    using e [unfolded route_effect_def Let_def] s1 assms by (simp_all add: order_fills_def)
qed

lemma refused_order_state:
  fixes env r actor s
  defines "s' \<equiv> snd (process_order_submission env r actor s)"
  assumes "goes_live env r s" and "engine_refuses env r"
  shows "\<exists>err. gw_audit s' = append_audit_entry (env_audit_clock env (Suc (length (gw_audit s))))
        (order_entry EventOrderMatchingEngineFailure r actor err)
        (append_audit_entry (env_audit_clock env (length (gw_audit s))) (submitted_entry r actor (gw_sequence s + 1)) (gw_audit s))"
    and "gw_algo s' = after_strategy env r s" and "gw_friction s' = after_friction r s"
    and "gw_sequence s' = gw_sequence s + 1" and "gw_kill_switch s' = engine_health env r s" and "gw_session s' = gw_session s"
    and "gw_disclosure s' = (case gw_disclosure s of None \<Rightarrow> None
      | Some g \<Rightarrow> Some (if is_fno r then record_first_fno_order (request_account r) g else g))"
proof -
  obtain ack s1 where a: "accept_order env r actor (gated_state env r s) = (ack, s1)" by fastforce
  have "s' = snd (route_order env r actor (sells_holding r) ack s1)"
    using assms(2) submission_accepted [OF _ a] by (simp add: s'_def goes_live_def)
  then obtain err where s': "s' = give_back r (sells_holding r)
      (audit env (order_entry EventOrderMatchingEngineFailure r actor err) (s1\<lparr>gw_kill_switch := engine_health env r s1\<rparr>))"
    using route_order_refused [OF assms(3)] by metis
  have s1: "gw_audit s1 = append_audit_entry (env_audit_clock env (length (gw_audit s))) (submitted_entry r actor (gw_sequence s + 1)) (gw_audit s)"
    "gw_algo s1 = after_strategy env r s" "gw_friction s1 = after_friction r s" "gw_sequence s1 = gw_sequence s + 1"
    "gw_kill_switch s1 = gw_kill_switch s" "gw_session s1 = gw_session s"
    "gw_disclosure s1 = (case gw_disclosure s of None \<Rightarrow> None
      | Some g \<Rightarrow> Some (if is_fno r then record_first_fno_order (request_account r) g else g))"
    using a by (auto simp: accept_order_def allocate_next_sequence_number_def audit_def gated_state_def Let_def split: option.splits)
  then have "gw_audit s' = append_audit_entry (env_audit_clock env (Suc (length (gw_audit s))))
      (order_entry EventOrderMatchingEngineFailure r actor err) (gw_audit s1)"
    by (simp add: s' give_back_def audit_def append_audit_entry_def Let_def)
  with s1 show "\<exists>err. gw_audit s' = append_audit_entry (env_audit_clock env (Suc (length (gw_audit s))))
        (order_entry EventOrderMatchingEngineFailure r actor err)
        (append_audit_entry (env_audit_clock env (length (gw_audit s))) (submitted_entry r actor (gw_sequence s + 1)) (gw_audit s))"
    by auto
  show "gw_algo s' = after_strategy env r s" "gw_friction s' = after_friction r s" "gw_sequence s' = gw_sequence s + 1"
    "gw_kill_switch s' = engine_health env r s" "gw_session s' = gw_session s"
    "gw_disclosure s' = (case gw_disclosure s of None \<Rightarrow> None
      | Some g \<Rightarrow> Some (if is_fno r then record_first_fno_order (request_account r) g else g))"
    by (simp_all add: s' s1 give_back_def engine_health_def Let_def)
qed

text \<open>
  C25. What a failed hand-off restores and what it keeps: an order that was accepted and that the matching engine could
  not be given, or refused, leaves every margin, every pledge, both position books, the cost bases and the milli-share book
  as they were, and every sell reservation too where the quantities reserved for the pair and the order's stay below
  2^64 together. It is not undone: the reserved exposure, the strategy's usage and the history of order sizes stay as the
  gates left them, a sequence number is used up, a first derivatives order is on record, the kill switch has counted whether the
  engine answered, and the audit trail has gained the submission and the failure.
\<close>

theorem failed_handoff_restores:
  fixes env r actor s
  defines "s' \<equiv> snd (process_order_submission env r actor s)"
  assumes "goes_live env r s" and "engine_refuses env r"
  shows "(\<forall>a. margin_of s' a = margin_of s a) \<and> gw_positions s' = gw_positions s \<and> gw_mtm s' = gw_mtm s
    \<and> gw_paper_positions s' = gw_paper_positions s \<and> gw_milli_positions s' = gw_milli_positions s
    \<and> pledges (gw_pledges s') = pledges (gw_pledges s)
    \<and> (if sell_fits r s
       then \<forall>a i. reserved_for_pending_sell a i (gw_pledges s') = reserved_for_pending_sell a i (gw_pledges s) else True)
    \<and> gw_exposure s' = after_exposure r s \<and> gw_algo s' = after_strategy env r s \<and> gw_friction s' = after_friction r s
    \<and> gw_sequence s' = gw_sequence s + 1 \<and> gw_session s' = gw_session s
    \<and> gw_kill_switch s' =
      snd (record_connectivity_check (\<not> isl (env_matching_engine env (wire_request r))) (gw_kill_switch s))
    \<and> gw_disclosure s' = (case gw_disclosure s of None \<Rightarrow> None
      | Some g \<Rightarrow> Some (if is_fno r then record_first_fno_order (request_account r) g else g))
    \<and> (\<exists>err. gw_audit s' = append_audit_entry (env_audit_clock env (Suc (length (gw_audit s))))
        (order_entry EventOrderMatchingEngineFailure r actor err)
        (append_audit_entry (env_audit_clock env (length (gw_audit s))) (submitted_entry r actor (gw_sequence s + 1)) (gw_audit s)))"
proof -
  have accepted: "pledge_verdict env r s = None"
    using assms(2) accepted_pledge_verdict by (simp add: goes_live_def)
  note rest = live_order_rest [OF assms(2), of actor, folded s'_def]
  have "pledges (gw_pledges s') = pledges (gw_pledges s)"
    using pledges_after_refusal [OF accepted] by (simp add: rest(1) assms(3))
  moreover have "reserved_for_pending_sell a i (gw_pledges s') = reserved_for_pending_sell a i (gw_pledges s)" if "sell_fits r s" for a i
    using pledge_reservation_undone(1) [OF that accepted] by (simp add: rest(1) assms(3))
  moreover have "margin_of s' a = margin_of s a" for a
    using margin_step [of env r actor s a] by (simp add: s'_def refused_no_fills [OF assms(3)] assms(2,3) own_margin_change_def)
  moreover have "gw_positions s' = gw_positions s \<and> gw_mtm s' = gw_mtm s"
    using position_step [of env r actor s]
    by (simp add: s'_def refused_no_fills [OF assms(3)] apply_fills_def apply_mtm_fills_def)
  ultimately show ?thesis
    using rest(2-4) refused_order_state [OF assms(2,3), of actor, folded s'_def] by (simp add: engine_health_def)
qed

lemma demo_goes_live: "goes_live (demo_environment engine) (demo_order ''a'' True 100 5) demo_gateway"
  by (simp add: goes_live_def gate_verdicts_def verdict_defs demo_defs is_trading_halted_def check_and_reserve_exposure_def
    over_limit_def evaluate_order_def order_notional_def risk_notional_def Let_def lookup_or_def
    word_sle_eq word_sless_alt)

lemma failed_handoff_restores_witness:
  "margin_of (gated_state (demo_environment (\<lambda>w. Inl ''connection refused'')) (demo_order ''a'' True 100 5) demo_gateway) ''a'' = 500 \<and>
   margin_of (snd (process_order_submission (demo_environment (\<lambda>w. Inl ''connection refused''))
    (demo_order ''a'' True 100 5) ''a'' demo_gateway)) ''a'' = 1000"
proof -
  have refused: "engine_refuses (demo_environment (\<lambda>w. Inl ''connection refused'')) (demo_order ''a'' True 100 5)"
    by (simp add: engine_refuses_def demo_environment_def)
  have "margin_of demo_gateway ''a'' = 1000" by (simp add: margin_of_def demo_gateway_def lookup_or_def)
  moreover have "margin_of (gated_state (demo_environment (\<lambda>w. Inl ''connection refused'')) (demo_order ''a'' True 100 5) demo_gateway) ''a'' = 500"
    using gated_margin [of "demo_environment (\<lambda>w. Inl ''connection refused'')" "demo_order ''a'' True 100 5" demo_gateway "''a''"]
      demo_goes_live [of "\<lambda>w. Inl ''connection refused''"] \<open>margin_of demo_gateway ''a'' = 1000\<close>
    by (simp add: goes_live_def) (simp add: demo_order_def risk_notional_def order_notional_def)
  ultimately show ?thesis
    using failed_handoff_restores [OF demo_goes_live refused, of "''a''"] by simp
qed

text \<open>What a paper order does to the paper book.\<close>

definition paper_book_after :: "gateway_environment \<Rightarrow> order_submission_request \<Rightarrow> gateway_state \<Rightarrow> position_book" where
  "paper_book_after env r s =
    (if first_rejection (gate_verdicts env r s) = None \<and> request_milli_share_quantity r = None
     then case simulate_fill r of
         Inl err \<Rightarrow> gw_paper_positions s
       | Inr (price, q) \<Rightarrow> apply_fill (fst (paper_sides r)) (snd (paper_sides r)) (request_instrument r) q (gw_paper_positions s)
     else gw_paper_positions s)"

text \<open>
  Paper trading is isolated: whatever becomes of a paper order, no margin, position, cost basis,
  pledge or sell reservation changes and the matching engine's health is not judged by it; the paper
  book moves by the simulated fill, against the synthetic counterparty, when the order is accepted.
\<close>

theorem paper_order_isolated:
  fixes env r actor s
  defines "s' \<equiv> snd (process_order_submission env r actor s)"
  assumes "request_is_paper_trading r" and "sell_fits r s"
  shows "margin_of s' k = margin_of s k \<and> gw_positions s' = gw_positions s \<and> gw_mtm s' = gw_mtm s
    \<and> reserved_for_pending_sell k i (gw_pledges s') = reserved_for_pending_sell k i (gw_pledges s)
    \<and> pledges (gw_pledges s') = pledges (gw_pledges s) \<and> gw_kill_switch s' = gw_kill_switch s
    \<and> gw_paper_positions s' = paper_book_after env r s"
proof (cases "first_rejection (gate_verdicts env r s)")
  case None
  obtain ack s1 where s': "s' = snd (fill_paper_order env r actor (sells_holding r) ack s1)"
    and s1: "\<And>k. margin_of s1 k = margin_of (gated_state env r s) k" "gw_positions s1 = gw_positions s"
      "gw_mtm s1 = gw_mtm s" "gw_pledges s1 = after_pledge r s" "gw_paper_positions s1 = gw_paper_positions s"
      "gw_kill_switch s1 = gw_kill_switch s"
    using paper_order [OF None assms(2), of actor] unfolding s'_def by metis
  have "gw_paper_positions s' = paper_book_after env r s"
    by (auto simp: s' fill_paper_order_def simulation_failed_def give_back_effect paper_book_after_def None s1 Let_def
      split: prod.splits sum.splits option.splits)
  then show ?thesis
    using pledge_reservation_undone [OF assms(3) accepted_pledge_verdict [OF None]]
    by (simp add: s' fill_paper_order_frame s1 gated_margin [OF None])
next
  case (Some code)
  obtain s1 v e where r: "reserved_so_far env r s s1 v" and s': "s' = release_reservations env r (audit env e s1, v)"
    using submission_rejected [OF Some, of actor] unfolding s'_def by fastforce
  from rejected_order [OF Some, of actor] release_sells [OF r assms(3), where e = e] show ?thesis
    by (simp add: s'_def [symmetric] s' [symmetric] margin_of_def paper_book_after_def Some)
qed

lemma paper_order_isolated_witness:
  "gw_positions (snd (process_order_submission (demo_environment (\<lambda>q. Inl ''down''))
    (demo_order ''a'' True 100 5\<lparr>request_is_paper_trading := True\<rparr>) ''a'' demo_gateway)) = gw_positions demo_gateway"
proof -
  have "sell_fits (demo_order ''a'' True 100 5\<lparr>request_is_paper_trading := True\<rparr>) demo_gateway"
    by (simp add: sell_fits_def demo_defs reserved_for_pending_sell_def lookup_or_def)
  then show ?thesis
    using paper_order_isolated [of "demo_order ''a'' True 100 5\<lparr>request_is_paper_trading := True\<rparr>"] by simp
qed

section \<open>Gaps\<close>

text \<open>
  The exposure of an order that the matching engine refused is never released: it keeps counting
  against the account's limits.
\<close>

theorem refused_order_keeps_exposure:
  assumes "goes_live env r s" and "engine_refuses env r" and "0 <s order_notional r"
  shows "current_account_exposure (request_account r) (gw_exposure (snd (process_order_submission env r actor s)))
    = current_account_exposure (request_account r) (gw_exposure s) + order_notional r"
proof -
  have "exposure_verdict env r s = None"
    using assms(1) by (simp add: goes_live_def first_rejection_None gate_verdicts_def)
  then have "check_and_reserve_exposure (request_account r) (classify_segment (request_instrument r))
      (order_notional r) (gw_exposure s) = (None, after_exposure r s)"
    by (simp add: exposure_verdict_def after_exposure_def prod_eq_iff)
  from exposure_after_accept(1) [OF this assms(3)] show ?thesis
    by (simp add: live_order_rest(2) [OF assms(1)])
qed

text \<open>
  No check of the gateway asks for a positive price: a resting buy order at a negative limit price
  raises the margin of its account by its notional.
\<close>

definition demo_resting :: "order_wire_request \<Rightarrow> string + order_wire_response" where
  "demo_resting w = Inr \<lparr>response_trades = [], response_error = None, response_sequence = Some 1\<rparr>"

lemma demo_negative_goes_live:
  "goes_live (demo_environment engine) (demo_order ''a'' True (- 100) 5) demo_gateway"
  by (simp add: goes_live_def gate_verdicts_def verdict_defs demo_defs is_trading_halted_def check_and_reserve_exposure_def
    over_limit_def evaluate_order_def order_notional_def risk_notional_def Let_def lookup_or_def
    word_sle_eq word_sless_alt)

theorem negative_price_raises_margin:
  "margin_of demo_gateway ''a'' = 1000
    \<and> margin_of (snd (process_order_submission (demo_environment demo_resting) (demo_order ''a'' True (- 100) 5)
        ''a'' demo_gateway)) ''a'' = 1500"
proof -
  have "order_fills (demo_environment demo_resting) (demo_order ''a'' True (- 100) 5) demo_gateway = []"
    by (simp add: order_fills_def engine_fills_def demo_environment_def demo_resting_def)
  then show ?thesis
    using demo_negative_goes_live [of demo_resting]
    by (simp add: margin_step own_margin_change_def engine_refuses_def demo_environment_def demo_resting_def
      demo_order_def risk_notional_def order_notional_def) (simp add: margin_of_def demo_gateway_def lookup_or_def)
qed

end
