(* ===== verification/ConnectivityProbe.thy ===== *)
theory ConnectivityProbe
  imports OrderPipeline
begin

text \<open>
  The background connectivity probe of the order gateway, the goroutine that main starts in
  services/oms-gateway/cmd/server/main.go: on every tick it asks the matching engine for the status of
  an order and feeds whether an answer came into the kill switch. The answer of the engine is an
  argument, \<open>Inl\<close> being an error of the connection.
\<close>

section \<open>The probe among the submissions\<close>

definition connectivity_probe :: "(string \<Rightarrow> uint64 \<Rightarrow> string + 'a) \<Rightarrow> gateway_state \<Rightarrow> gateway_state" where
  "connectivity_probe query s = s\<lparr>gw_kill_switch :=
     snd (record_connectivity_check (\<not> isl (query ''DEMO-EQ'' 0)) (gw_kill_switch s))\<rparr>"

text \<open>What arrives at the gateway, oldest first, with the acknowledgements of the submissions.\<close>

datatype 'a gateway_event =
    Submission gateway_environment order_submission_request string
  | ProbeTick "string \<Rightarrow> uint64 \<Rightarrow> string + 'a"

fun run_gateway :: "'a gateway_event list \<Rightarrow> gateway_state \<Rightarrow> order_acknowledgement list \<times> gateway_state" where
  "run_gateway [] s = ([], s)"
| "run_gateway (Submission env r actor # es) s =
    (let (ack, s1) = process_order_submission env r actor s; (acks, s2) = run_gateway es s1 in (ack # acks, s2))"
| "run_gateway (ProbeTick query # es) s = run_gateway es (connectivity_probe query s)"

fun engine_unreachable :: "'a gateway_event \<Rightarrow> bool" where
  "engine_unreachable (Submission env r actor) = True"
| "engine_unreachable (ProbeTick query) = isl (query ''DEMO-EQ'' 0)"

section \<open>While trading is halted\<close>

lemma halted_submission:
  assumes "is_trading_halted (gw_kill_switch s)"
  shows "\<not> ack_was_accepted (fst (process_order_submission env r actor s))"
    and "ack_machine_readable_reason (fst (process_order_submission env r actor s)) = ''TRADING_HALTED''"
    and "gw_kill_switch (snd (process_order_submission env r actor s)) = gw_kill_switch s"
proof -
  have code: "first_rejection (gate_verdicts env r s) = Some ''TRADING_HALTED''"
    using assms by (simp add: gate_verdicts_def halted_verdict_def)
  from submission_rejected [OF this, of actor] obtain s1 v reason event detail
    where "reserved_so_far env r s s1 v" and "process_order_submission env r actor s =
      (rejection_acknowledgement ''TRADING_HALTED'' reason,
       release_reservations env r (audit env (order_entry event r actor detail) s1, v))"
    by blast
  then show "\<not> ack_was_accepted (fst (process_order_submission env r actor s))"
    "ack_machine_readable_reason (fst (process_order_submission env r actor s)) = ''TRADING_HALTED''"
    "gw_kill_switch (snd (process_order_submission env r actor s)) = gw_kill_switch s"
    by (auto simp: rejection_acknowledgement_def release_reservations_def audit_def reserved_so_far_def Let_def)
qed

definition auto_halted :: "gateway_state \<Rightarrow> bool" where
  "auto_halted s \<longleftrightarrow> is_auto_engaged (gw_kill_switch s) \<and> \<not> is_manually_engaged (gw_kill_switch s)"

lemma auto_halted_halts: "auto_halted s \<Longrightarrow> is_trading_halted (gw_kill_switch s)"
  by (simp add: auto_halted_def is_trading_halted_def)

lemma failed_probe_keeps_halt:
  "auto_halted s \<Longrightarrow> isl (query ''DEMO-EQ'' 0) \<Longrightarrow> auto_halted (connectivity_probe query s)"
  by (auto simp: auto_halted_def connectivity_probe_def record_connectivity_check_def Let_def)

lemma run_while_unreachable:
  assumes "auto_halted s" and "list_all engine_unreachable es"
  shows "auto_halted (snd (run_gateway es s)) \<and> list_all (\<lambda>ack. \<not> ack_was_accepted ack \<and>
    ack_machine_readable_reason ack = ''TRADING_HALTED'') (fst (run_gateway es s))"
  using assms
proof (induction es s rule: run_gateway.induct)
  case (2 env r actor es s)
  note h = halted_submission [OF auto_halted_halts [OF 2(2)], of env r actor]
  obtain ack s1 where p: "process_order_submission env r actor s = (ack, s1)" by fastforce
  with h 2(2) have "auto_halted s1" by (simp add: auto_halted_def)
  with 2(1) [OF p [symmetric] refl] 2(3) h p show ?case
    by (simp add: split: prod.splits) force
next
  case (3 query es s)
  then show ?case by (simp add: failed_probe_keeps_halt)
qed simp

section \<open>Property\<close>

text \<open>
  C26. An automatic halt holds as long as the matching engine is unreachable and ends with the first
  probe that reaches it, whatever orders arrive meanwhile: during the outage every submission is
  rejected as TRADING_HALTED and none of them can end the halt, and after the first answered probe
  the kill switch objects to no order.
\<close>

theorem probe_reopens_trading:
  assumes "is_auto_engaged (gw_kill_switch s)" and "\<not> is_manually_engaged (gw_kill_switch s)"
    and "list_all engine_unreachable es" and "\<not> engine_unreachable (ProbeTick query)"
  shows "list_all (\<lambda>ack. \<not> ack_was_accepted ack \<and> ack_machine_readable_reason ack = ''TRADING_HALTED'')
      (fst (run_gateway es s))
    \<and> is_trading_halted (gw_kill_switch (snd (run_gateway es s)))
    \<and> halted_verdict env r (snd (run_gateway (es @ [ProbeTick query]) s)) = None"
proof -
  have run: "auto_halted (snd (run_gateway es s)) \<and> list_all (\<lambda>ack. \<not> ack_was_accepted ack \<and>
      ack_machine_readable_reason ack = ''TRADING_HALTED'') (fst (run_gateway es s))"
    using assms by (intro run_while_unreachable) (simp_all add: auto_halted_def)
  have "snd (run_gateway (es @ es') s) = snd (run_gateway es' (snd (run_gateway es s)))" for es'
    by (induction es s rule: run_gateway.induct) (auto simp: Let_def split: prod.splits)
  with run assms(4) have "halted_verdict env r (snd (run_gateway (es @ [ProbeTick query]) s)) = None"
    by (simp add: halted_verdict_def connectivity_probe_def record_connectivity_check_def auto_halted_def
      is_trading_halted_def)
  with run show ?thesis by (simp add: auto_halted_halts)
qed

lemma probe_reopens_trading_witness:
  "is_trading_halted (gw_kill_switch (demo_gateway\<lparr>gw_kill_switch := (new_kill_switch 1)\<lparr>is_auto_engaged := True\<rparr>\<rparr>))
    \<and> halted_verdict (demo_environment (\<lambda>q. Inl ''down'')) (demo_order ''alice'' True 100 5) (snd (run_gateway ([Submission (demo_environment (\<lambda>q. Inl ''down'')) (demo_order ''alice'' True 100 5) ''''] @ [ProbeTick (\<lambda>i n. Inr True)])
      (demo_gateway\<lparr>gw_kill_switch := (new_kill_switch 1)\<lparr>is_auto_engaged := True\<rparr>\<rparr>))) = None"
  using probe_reopens_trading [of "demo_gateway\<lparr>gw_kill_switch := (new_kill_switch 1)\<lparr>is_auto_engaged := True\<rparr>\<rparr>"
    "[Submission (demo_environment (\<lambda>q. Inl ''down'')) (demo_order ''alice'' True 100 5) '''']" "\<lambda>i n. Inr True" "demo_environment (\<lambda>q. Inl ''down'')" "demo_order ''alice'' True 100 5"]
  by (simp add: new_kill_switch_def is_trading_halted_def)

end
