(* ===== verification/OvertradingDetection.thy ===== *)
theory OvertradingDetection
  imports OrderTypes GoText
begin

text \<open>
  The overtrading nudge of the order gateway,
  services/oms-gateway/internal/overtradingdetection/overtradingDetector.go: submission times per account,
  two patterns over a recent and a baseline window, and a cool-down after each nudge. The text of a
  duration (\<open>%s\<close>) is the parameter \<open>dt\<close>; the dash of the second message is a hyphen here.
\<close>

section \<open>State and operations\<close>

record overtrading_thresholds =
  recent_window :: duration
  baseline_lookback :: duration
  minimum_recent_orders :: int
  baseline_multiplier :: float64
  rapid_fire_gap :: duration
  cooldown_duration :: duration
  max_submission_history :: int

record overtrading_detector =
  detector_thresholds :: overtrading_thresholds
  submission_times :: "instant list table"
  cooldown_expiries :: "instant table"

definition default_thresholds :: overtrading_thresholds where
  "default_thresholds = \<lparr>recent_window = 5 * 60 * 1000000000, baseline_lookback = 24 * 3600 * 1000000000,
     minimum_recent_orders = 5, baseline_multiplier = 3, rapid_fire_gap = 3 * 1000000000,
     cooldown_duration = 15 * 60 * 1000000000, max_submission_history = 500\<rparr>"

datatype threshold_error =
    RecentWindowNotPositive | BaselineShorterThanWindow | MinimumRecentNotPositive
  | BaselineMultiplierTooSmall | CooldownNotPositive

definition new_detector :: "overtrading_thresholds \<Rightarrow> threshold_error + overtrading_detector" where
  "new_detector t =
    (if recent_window t \<le>s 0 then Inl RecentWindowNotPositive
     else if baseline_lookback t <s recent_window t then Inl BaselineShorterThanWindow
     else if minimum_recent_orders t \<le> 0 then Inl MinimumRecentNotPositive
     else if baseline_multiplier t \<le> 1 then Inl BaselineMultiplierTooSmall
     else if cooldown_duration t \<le>s 0 then Inl CooldownNotPositive
     else Inr \<lparr>detector_thresholds = (if max_submission_history t \<le> 0 then t\<lparr>max_submission_history := 500\<rparr> else t),
       submission_times = [], cooldown_expiries = []\<rparr>)"

definition record_submission :: "string \<Rightarrow> instant \<Rightarrow> overtrading_detector \<Rightarrow> overtrading_detector" where
  "record_submission a now d =
    (let history = lookup_or [] (submission_times d) a @ [now];
         bound = nat (max_submission_history (detector_thresholds d));
         kept = (if bound < length history then drop (length history - bound) history else history)
     in d\<lparr>submission_times := put a kept (submission_times d)\<rparr>)"

definition counted_since :: "instant \<Rightarrow> instant \<Rightarrow> instant list \<Rightarrow> nat" where
  "counted_since start now history = length (filter (\<lambda>t. time_after t start \<and> \<not> time_after t now) history)"

definition cooling_down :: "string \<Rightarrow> instant \<Rightarrow> overtrading_detector \<Rightarrow> bool" where
  "cooling_down a now d = (case lookup (cooldown_expiries d) a of
     None \<Rightarrow> False | Some expiry \<Rightarrow> time_before now expiry)"

definition rapid_fire :: "overtrading_thresholds \<Rightarrow> instant list \<Rightarrow> bool" where
  "rapid_fire t history = (2 \<le> length history \<and>
     (let gap = time_sub (history ! (length history - 1)) (history ! (length history - 2))
      in 0 \<le>s gap \<and> gap <s rapid_fire_gap t))"

definition rapid_fire_message :: "(duration \<Rightarrow> string) \<Rightarrow> nat \<Rightarrow> overtrading_thresholds \<Rightarrow> string" where
  "rapid_fire_message dt n t = ''You've submitted '' @ decimal_of_nat n @ '' orders in the last '' @
     dt (recent_window t) @ '', with orders arriving less than '' @ dt (rapid_fire_gap t) @
     '' apart. Consider taking a short break before your next order.''"

definition velocity_message :: "float_text \<Rightarrow> (duration \<Rightarrow> string) \<Rightarrow> nat \<Rightarrow> float64 \<Rightarrow> overtrading_thresholds \<Rightarrow> string" where
  "velocity_message ft dt n baseline t = ''You've submitted '' @ decimal_of_nat n @ '' orders in the last '' @
     dt (recent_window t) @ '' - that's well above your own usual pace (~'' @ ft ''%.1f'' baseline @
     '' orders in a window this length). Consider slowing down.''"

definition detect_pattern ::
    "float_text \<Rightarrow> (duration \<Rightarrow> string) \<Rightarrow> overtrading_thresholds \<Rightarrow> instant list \<Rightarrow> instant \<Rightarrow> (string \<times> string \<times> nat \<times> float64) option" where
  "detect_pattern ft dt t history now =
    (let recent = counted_since (time_add now (- recent_window t)) now history;
         in_baseline = counted_since (time_add now (- baseline_lookback t)) now history;
         windows = float_div (float_of_int64 (baseline_lookback t)) (float_of_int64 (recent_window t));
         baseline = float_div (round_float (of_nat in_baseline)) windows
     in if minimum_recent_orders t \<le> int recent \<and> rapid_fire t history
        then Some (''RAPID_FIRE_BURST'', rapid_fire_message dt recent t, recent, baseline)
        else if minimum_recent_orders t \<le> int recent \<and>
          float_mul baseline (baseline_multiplier t) < round_float (of_nat recent)
        then Some (''ELEVATED_ORDER_VELOCITY_VS_BASELINE'', velocity_message ft dt recent baseline t, recent, baseline)
        else None)"

definition evaluate_overtrading ::
    "float_text \<Rightarrow> (duration \<Rightarrow> string) \<Rightarrow> string \<Rightarrow> instant \<Rightarrow> overtrading_detector \<Rightarrow>
      (overtrading_nudge option \<times> bool) \<times> overtrading_detector" where
  "evaluate_overtrading ft dt a now d =
    (if cooling_down a now d then ((None, True), d)
     else case detect_pattern ft dt (detector_thresholds d) (lookup_or [] (submission_times d) a) now of
       None \<Rightarrow> ((None, False), d)
     | Some (pattern, message, recent, baseline) \<Rightarrow>
         let expiry = time_add now (cooldown_duration (detector_thresholds d))
         in ((Some \<lparr>nudge_pattern_detected = pattern, nudge_message = message,
               nudge_recent_order_count = of_nat recent, nudge_baseline_order_count = baseline,
               nudge_cooldown_expires_at = expiry\<rparr>, False),
             d\<lparr>cooldown_expiries := put a expiry (cooldown_expiries d)\<rparr>))"

record cooldown_status =
  status_is_in_cooldown :: bool
  status_cooldown_expires_at :: instant
  status_recent_order_count :: nat

definition overtrading_status :: "string \<Rightarrow> instant \<Rightarrow> overtrading_detector \<Rightarrow> cooldown_status" where
  "overtrading_status a now d =
    \<lparr>status_is_in_cooldown = cooling_down a now d,
     status_cooldown_expires_at =
       (if cooling_down a now d then lookup_or zero_time (cooldown_expiries d) a else zero_time),
     status_recent_order_count = counted_since (time_add now (- recent_window (detector_thresholds d))) now
       (lookup_or [] (submission_times d) a)\<rparr>"

section \<open>Runs of submissions\<close>

text \<open>As in the gateway, each submission of an account is recorded and then evaluated; the log is the nudges.\<close>

fun nudge_times :: "float_text \<Rightarrow> (duration \<Rightarrow> string) \<Rightarrow> (string \<times> instant) list \<Rightarrow> overtrading_detector \<Rightarrow> (string \<times> instant) list" where
  "nudge_times ft dt [] d = []"
| "nudge_times ft dt ((a, now) # es) d =
    (case evaluate_overtrading ft dt a now (record_submission a now d) of
       ((None, suppressed), d') \<Rightarrow> nudge_times ft dt es d'
     | ((Some n, suppressed), d') \<Rightarrow> (a, now) # nudge_times ft dt es d')"

text \<open>Consecutive nudges of one account are at least the cool-down apart.\<close>

fun spaced :: "int \<Rightarrow> instant list \<Rightarrow> bool" where
  "spaced c (t # u # ts) \<longleftrightarrow> t + c \<le> u \<and> spaced c (u # ts)"
| "spaced c ts \<longleftrightarrow> True"

definition times_of :: "string \<Rightarrow> (string \<times> instant) list \<Rightarrow> instant list" where
  "times_of a L = map snd (filter (\<lambda>e. fst e = a) L)"

lemma spaced_Cons: "spaced c ts \<Longrightarrow> ts = [] \<or> t + c \<le> hd ts \<Longrightarrow> spaced c (t # ts)"
  by (cases ts) auto

lemma record_submission_frame [simp]:
  "cooldown_expiries (record_submission a now d) = cooldown_expiries d"
  "detector_thresholds (record_submission a now d) = detector_thresholds d"
  by (simp_all add: record_submission_def Let_def)

lemma evaluate_frame:
  assumes "evaluate_overtrading ft dt a now d = ((r, suppressed), d')"
  shows "detector_thresholds d' = detector_thresholds d"
    and "r = None \<Longrightarrow> cooldown_expiries d' = cooldown_expiries d"
    and "r = Some n \<Longrightarrow> lookup (cooldown_expiries d') b =
      (if b = a then Some (now + sint (cooldown_duration (detector_thresholds d))) else lookup (cooldown_expiries d) b)"
    and "r = Some n \<Longrightarrow> lookup (cooldown_expiries d) a = Some e \<Longrightarrow> e \<le> now"
  using assms
  by (auto simp: evaluate_overtrading_def cooling_down_def time_defs Let_def split: if_splits option.splits prod.splits)

lemma nudges_spaced_from:
  assumes "c = sint (cooldown_duration (detector_thresholds d))"
    and "ts = times_of a (nudge_times ft dt es d)"
  shows "spaced c ts \<and> (\<forall>e. lookup (cooldown_expiries d) a = Some e \<longrightarrow> ts = [] \<or> e \<le> hd ts)"
  using assms
proof (induction es arbitrary: d ts)
  case (Cons e es)
  obtain b now where e: "e = (b, now)" by fastforce
  obtain r suppressed d' where ev: "evaluate_overtrading ft dt b now (record_submission b now d) = ((r, suppressed), d')"
    by (metis prod.collapse)
  note frame = evaluate_frame [OF ev]
  define us where "us = times_of a (nudge_times ft dt es d')"
  have IH: "spaced c us \<and> (\<forall>e. lookup (cooldown_expiries d') a = Some e \<longrightarrow> us = [] \<or> e \<le> hd us)"
    by (rule Cons.IH [OF _ us_def]) (use frame(1) Cons.prems(1) in simp)
  show ?case
  proof (cases r)
    case None
    then show ?thesis
      using IH frame(2) Cons.prems(2) ev by (simp add: e us_def)
  next
    case (Some n)
    have ts: "ts = (if b = a then now # us else us)"
      using Cons.prems(2) ev Some by (simp add: e us_def times_of_def)
    show ?thesis
      using IH frame(3,4) [OF Some] Cons.prems(1) by (auto simp: ts intro!: spaced_Cons)
  qed
qed (simp add: times_of_def)

section \<open>Properties\<close>

text \<open>
  An account is not nagged: in every run of submissions the nudges that one account gets are at
  least the cool-down duration apart, whatever the other accounts do.
\<close>

theorem nudges_spaced_by_cooldown:
  "spaced (sint (cooldown_duration (detector_thresholds d))) (times_of a (nudge_times ft dt es d))"
  using nudges_spaced_from [OF refl refl] by blast

text \<open>A short burst never draws a nudge: below the minimum count no pattern is detected.\<close>

lemma few_orders_no_nudge:
  assumes "int (length history) < minimum_recent_orders t"
  shows "detect_pattern ft dt t history now = None"
proof -
  have "counted_since start now history \<le> length history" for start
    by (simp add: counted_since_def)
  then have "\<not> minimum_recent_orders t \<le> int (counted_since start now history)" for start
    using assms by (meson le_less_trans not_le of_nat_le_iff)
  then show ?thesis by (simp add: detect_pattern_def Let_def)
qed

end
