(* ===== verification/GatewayHandlers.thy ===== *)
theory GatewayHandlers
  imports OrderPipeline Idempotency OvertradingDetection
begin

text \<open>
  The request handlers of the order gateway that change its state beyond one component,
  services/oms-gateway/cmd/server/main.go: order submission with its idempotency key and its
  after-market queue, the opening and closing of the market session, cancellation, cover orders, and
  the pledge handlers. A request arrives decoded and authenticated. The market session of the
  handlers is the object the order pipeline reads; dereferencing it when it is nil panics.
\<close>

section \<open>State\<close>

record server_state =
  sv_gateway :: gateway_state
  sv_store :: idempotency_store
  sv_queue :: after_market_queue
  sv_detector :: "overtrading_detector option"

record server_environment =
  se_gateway :: gateway_environment
  se_duration_text :: "duration \<Rightarrow> string"
  se_nudge_time :: instant

text \<open>
  What a submission is answered with. \<open>AwaitsOwner\<close> is the request that finds its key claimed: it blocks
  in the store and is answered as \<open>await_answers\<close> (Idempotency) says.
\<close>

datatype submission_answer =
    BadExecutionType execution_type_error
  | BadMilliShareQuantity milli_share_error
  | Acknowledged order_acknowledgement
  | AwaitsOwner
  | HandlerPanics

section \<open>Order submission\<close>

definition bare_entry :: "audit_event \<Rightarrow> string \<Rightarrow> audit_entry" where
  "bare_entry event actor = empty_audit_entry\<lparr>audit_event := event, audit_actor := actor\<rparr>"

definition queue_order :: "server_environment \<Rightarrow> order_submission_request \<Rightarrow> string \<Rightarrow> server_state \<Rightarrow>
    submission_answer \<times> server_state" where
  "queue_order env r actor s =
    (Acknowledged (empty_acknowledgement\<lparr>ack_was_accepted := True, ack_is_queued_as_amo := True\<rparr>),
     s\<lparr>sv_queue := enqueue r (sv_queue s),
       sv_gateway := audit (se_gateway env) ((bare_entry EventAfterMarketOrderQueued actor)\<lparr>
         audit_account := request_account r, audit_instrument := request_instrument r\<rparr>) (sv_gateway s)\<rparr>)"

definition nudge_order :: "server_environment \<Rightarrow> string \<Rightarrow> order_acknowledgement \<Rightarrow> overtrading_detector option \<Rightarrow>
    order_acknowledgement \<times> overtrading_detector option" where
  "nudge_order env a ack detector = (case detector of
     None \<Rightarrow> (ack, None)
   | Some d \<Rightarrow>
       if a = '''' then (ack, detector)
       else case evaluate_overtrading (env_float_text (se_gateway env)) (se_duration_text env) a (se_nudge_time env)
              (record_submission a (se_nudge_time env) d) of
         ((nudge, suppressed), d') \<Rightarrow>
           (if nudge = None then ack else ack\<lparr>ack_overtrading_nudge := nudge\<rparr>, Some d'))"

definition own_submission :: "server_environment \<Rightarrow> order_submission_request \<Rightarrow> string \<Rightarrow> server_state \<Rightarrow>
    submission_answer \<times> server_state" where
  "own_submission env r actor s =
    (case process_order_submission (se_gateway env) r actor (sv_gateway s) of (ack, g) \<Rightarrow>
     case nudge_order env (request_account r) ack (sv_detector s) of (ack1, detector) \<Rightarrow>
     case complete_claimed_key (request_idempotency_key r) ack1 (sv_store s) of (outcome, st) \<Rightarrow>
       (case outcome of CompletionDone \<Rightarrow> Acknowledged ack1 | CompletionPanics \<Rightarrow> HandlerPanics,
        s\<lparr>sv_gateway := g, sv_detector := detector, sv_store := st\<rparr>))"

definition claim_and_process :: "server_environment \<Rightarrow> order_submission_request \<Rightarrow> string \<Rightarrow> server_state \<Rightarrow>
    submission_answer \<times> server_state" where
  "claim_and_process env r actor s =
    (case claim_key (request_idempotency_key r) (sv_store s) of
       (WaitsForOwner, st) \<Rightarrow> (AwaitsOwner, s\<lparr>sv_store := st\<rparr>)
     | (ThisCallOwns, st) \<Rightarrow> own_submission env r actor (s\<lparr>sv_store := st\<rparr>))"

definition submit_order :: "server_environment \<Rightarrow> order_submission_request \<Rightarrow> string \<Rightarrow> server_state \<Rightarrow>
    submission_answer \<times> server_state" where
  "submit_order env r actor s =
    (case validate_order_execution_type r of
       Some err \<Rightarrow> (BadExecutionType err, s)
     | None \<Rightarrow>
         (case validate_milli_share_quantity (request_milli_share_quantity r) (request_is_paper_trading r) of
            Some err \<Rightarrow> (BadMilliShareQuantity err, s)
          | None \<Rightarrow>
              if request_is_after_market_order r
              then (case gw_session (sv_gateway s) of
                  None \<Rightarrow> (HandlerPanics, s)
                | Some m \<Rightarrow> if is_market_open m then claim_and_process env r actor s else queue_order env r actor s)
              else claim_and_process env r actor s))"

section \<open>The market session\<close>

definition close_market :: "server_environment \<Rightarrow> string \<Rightarrow> server_state \<Rightarrow> server_state option" where
  "close_market env actor s = (case gw_session (sv_gateway s) of
     None \<Rightarrow> None
   | Some m \<Rightarrow> Some (s\<lparr>sv_gateway := audit (se_gateway env) (bare_entry EventMarketSessionClosed actor)
         ((sv_gateway s)\<lparr>gw_session := Some (set_market_open False m)\<rparr>)\<rparr>))"

text \<open>The drained orders run one after another, the \<open>i\<close>-th under the environment \<open>envs i\<close>.\<close>

fun drain_orders :: "(nat \<Rightarrow> gateway_environment) \<Rightarrow> string \<Rightarrow> nat \<Rightarrow> order_submission_request list \<Rightarrow> gateway_state \<Rightarrow>
    order_acknowledgement list \<times> gateway_state" where
  "drain_orders envs actor i [] g = ([], g)"
| "drain_orders envs actor i (r # rs) g =
    (case process_order_submission (envs i) r actor g of (ack, g1) \<Rightarrow>
     case drain_orders envs actor (Suc i) rs g1 of (acks, g2) \<Rightarrow> (ack # acks, g2))"

record session_opened =
  opened_results :: "order_acknowledgement list"
  opened_drained :: nat
  opened_accepted :: nat
  opened_rejected :: nat

definition open_market :: "server_environment \<Rightarrow> (nat \<Rightarrow> gateway_environment) \<Rightarrow> string \<Rightarrow> server_state \<Rightarrow>
    (session_opened \<times> server_state) option" where
  "open_market env envs actor s = (case gw_session (sv_gateway s) of
     None \<Rightarrow> None
   | Some m \<Rightarrow>
       (case drain_all (sv_queue s) of (rs, q) \<Rightarrow>
        case drain_orders envs actor 0 rs (audit (se_gateway env) (bare_entry EventMarketSessionOpened actor)
            ((sv_gateway s)\<lparr>gw_session := Some (set_market_open True m)\<rparr>)) of (acks, g) \<Rightarrow>
          Some (\<lparr>opened_results = acks, opened_drained = length rs,
                 opened_accepted = length (filter ack_was_accepted acks),
                 opened_rejected = length (filter (\<lambda>a. \<not> ack_was_accepted a) acks)\<rparr>,
                s\<lparr>sv_gateway := g, sv_queue := q\<rparr>)))"

section \<open>Cancellation\<close>

text \<open>The matching engine's answer to a cancellation: an error, or whether it says that the order was cancelled.\<close>

definition cancel_unreachable_text :: string where
  "cancel_unreachable_text = ''We couldn't reach the matching engine to cancel this order. Please try again in a moment - if it keeps failing, check the order's status before assuming it's still resting.''"

definition cancel_not_found_text :: string where
  "cancel_not_found_text = ''No matching order was found to cancel - it may have already fully filled, already been cancelled, or never existed.''"

definition cancel_order :: "gateway_environment \<Rightarrow> (string \<Rightarrow> uint64 \<Rightarrow> string + bool option) \<Rightarrow> string \<Rightarrow> uint64 \<Rightarrow> string \<Rightarrow>
    gateway_state \<Rightarrow> (bool \<times> string) \<times> gateway_state" where
  "cancel_order env engine_cancel ins seq actor g =
    (let entry = (\<lambda>event detail. (bare_entry event actor)\<lparr>audit_instrument := ins,
         audit_matching_engine_sequence := seq, audit_detail := detail\<rparr>)
     in case engine_cancel ins seq of
          Inl err \<Rightarrow> ((False, cancel_unreachable_text), audit env (entry EventOrderCancelFailed err) g)
        | Inr cancelled \<Rightarrow>
            if cancelled = Some True then ((True, ''''), audit env (entry EventOrderCancelled '''') g)
            else ((False, cancel_not_found_text), audit env (entry EventOrderCancelFailed cancel_not_found_text) g))"

section \<open>Cover orders\<close>

record cover_order_request =
  cover_account :: string
  cover_instrument :: string
  cover_is_buy :: bool
  cover_is_market_order :: bool
  cover_limit_price :: int64
  cover_quantity :: uint64
  cover_stop_trigger_price :: int64

record cover_order_response =
  cover_entry_acknowledgement :: order_acknowledgement
  cover_stop_sequence :: uint64
  cover_stop_error :: string

definition cover_entry_order :: "cover_order_request \<Rightarrow> order_submission_request" where
  "cover_entry_order c = \<lparr>request_account = cover_account c, request_instrument = cover_instrument c,
     request_is_buy = cover_is_buy c, request_is_market_order = cover_is_market_order c,
     request_is_stop_loss = False, request_stop_trigger_price = None, request_limit_price = cover_limit_price c,
     request_quantity = cover_quantity c, request_idempotency_key = '''', request_is_after_market_order = False,
     request_execution_type = '''', request_iceberg_visible_quantity = None, request_is_paper_trading = False,
     request_paper_reference_price = None, request_strategy_identifier = '''',
     request_confirmed_large_order = False, request_milli_share_quantity = None\<rparr>"

definition protective_wire_request :: "cover_order_request \<Rightarrow> uint64 \<Rightarrow> order_wire_request" where
  "protective_wire_request c filled = \<lparr>wire_account = cover_account c, wire_instrument = cover_instrument c,
     wire_is_buy = (\<not> cover_is_buy c), wire_is_market_order = True, wire_is_stop_loss = True,
     wire_stop_trigger_price = Some (cover_stop_trigger_price c), wire_limit_price = 0, wire_quantity = filled\<rparr>"

fun total_filled :: "uint64 \<Rightarrow> trade_execution_summary list \<Rightarrow> uint64" where
  "total_filled acc [] = acc"
| "total_filled acc (t # ts) = total_filled (acc + trade_executed_quantity t) ts"

text \<open>The protective leg is asked of the matching engine after the entry: its answer is a second function.\<close>

definition cover_order :: "gateway_environment \<Rightarrow> (order_wire_request \<Rightarrow> string + order_wire_response) \<Rightarrow> cover_order_request \<Rightarrow>
    string \<Rightarrow> gateway_state \<Rightarrow> cover_order_response \<times> gateway_state" where
  "cover_order env engine_stop c actor g0 =
    (case process_order_submission env (cover_entry_order c) actor g0 of (ack, g) \<Rightarrow>
     let filled = total_filled 0 (ack_trade_executions ack);
         response = \<lparr>cover_entry_acknowledgement = ack, cover_stop_sequence = 0, cover_stop_error = ''''\<rparr>;
         entry = (\<lambda>event. (bare_entry event actor)\<lparr>audit_account := cover_account c, audit_instrument := cover_instrument c\<rparr>);
         failed = (\<lambda>err. (response\<lparr>cover_stop_error := err\<rparr>,
           audit env ((entry EventCoverProtectiveLegFailed)\<lparr>audit_detail := err\<rparr>) g))
     in if filled = 0 then (response, g)
        else case engine_stop (protective_wire_request c filled) of
          Inl err \<Rightarrow> failed err
        | Inr answer \<Rightarrow>
            (case response_error answer of
               Some err \<Rightarrow> failed err
             | None \<Rightarrow>
                 let seq = (case response_sequence answer of None \<Rightarrow> 0 | Some n \<Rightarrow> n)
                 in (response\<lparr>cover_stop_sequence := seq\<rparr>,
                     audit env ((entry EventCoverProtectiveLegPlaced)\<lparr>audit_matching_engine_sequence := seq\<rparr>) g)))"

text \<open>
  Whatever the matching engine answers to the protective leg, its trades included, the books stay as
  the entry order left them: a protective stop that fills at once is neither settled nor booked.
\<close>

theorem protective_fills_unbooked:
  "gw_positions (snd (cover_order env engine_stop c actor g)) =
      gw_positions (snd (process_order_submission env (cover_entry_order c) actor g))
    \<and> gw_mtm (snd (cover_order env engine_stop c actor g)) =
      gw_mtm (snd (process_order_submission env (cover_entry_order c) actor g))
    \<and> gw_margins (snd (cover_order env engine_stop c actor g)) =
      gw_margins (snd (process_order_submission env (cover_entry_order c) actor g))"
  by (auto simp: cover_order_def Let_def audit_def split: prod.splits sum.splits option.splits)

section \<open>Pledges and margin\<close>

definition pledge_handler :: "string \<Rightarrow> string \<Rightarrow> uint64 \<Rightarrow> int64 \<Rightarrow> gateway_state \<Rightarrow>
    (pledge_error + pledge_record \<times> int64 \<times> int64) \<times> gateway_state" where
  "pledge_handler a ins quantity price g =
    (let net = lookup_or 0 (positions_for_account a (gw_positions g)) ins in
     case pledge_holding a ins quantity price net (gw_pledges g) of
       Inl err \<Rightarrow> (Inl err, g)
     | Inr ((r, v), p) \<Rightarrow>
         let e = adjust_available_margin a v (gw_margins g)
         in (Inr (r, v, lookup_or 0 e a), g\<lparr>gw_pledges := p, gw_margins := e\<rparr>))"

definition unpledge_handler :: "string \<Rightarrow> string \<Rightarrow> uint64 \<Rightarrow> gateway_state \<Rightarrow>
    (pledge_error + int64 \<times> int64) \<times> gateway_state" where
  "unpledge_handler a ins quantity g =
    (case unpledge_holding a ins quantity (gw_pledges g) of
       Inl err \<Rightarrow> (Inl err, g)
     | Inr (v, p) \<Rightarrow>
         let e = adjust_available_margin a (- v) (gw_margins g)
         in (Inr (v, lookup_or 0 e a), g\<lparr>gw_pledges := p, gw_margins := e\<rparr>))"

definition set_utilized_margin_handler :: "string \<Rightarrow> int64 \<Rightarrow> gateway_state \<Rightarrow> gateway_state" where
  "set_utilized_margin_handler a v g = g\<lparr>gw_pledges := set_utilized_margin a v (gw_pledges g)\<rparr>"

section \<open>Retries\<close>

lemma own_submission_completes:
  assumes "lookup (sv_store s) (request_idempotency_key r) = Some None" and "request_idempotency_key r \<noteq> ''''"
    and "own_submission env r actor s = (answer, s')"
  shows "\<exists>ack. answer = Acknowledged ack \<and> lookup (sv_store s') (request_idempotency_key r) = Some (Some ack)"
  using assms by (auto simp: own_submission_def complete_claimed_key_def split: prod.splits)

lemma claimed_answer:
  assumes "claim_and_process env r actor s = (Acknowledged ack, s')" and "request_idempotency_key r \<noteq> ''''"
  shows "lookup (sv_store s') (request_idempotency_key r) = Some (Some ack)"
proof -
  obtain outcome st where c: "claim_key (request_idempotency_key r) (sv_store s) = (outcome, st)" by fastforce
  show ?thesis
  proof (cases outcome)
    case ThisCallOwns
    with claim_key_cases(1) [OF _ assms(2), of "sv_store s" st] c
    have "st = put (request_idempotency_key r) None (sv_store s)" by simp
    then show ?thesis
      using own_submission_completes [of "s\<lparr>sv_store := st\<rparr>" r env actor "Acknowledged ack" s'] assms c ThisCallOwns
      by (simp add: claim_and_process_def)
  next
    case WaitsForOwner
    with assms(1) c show ?thesis by (simp add: claim_and_process_def)
  qed
qed

text \<open>
  A retry is not a second order: once a submission with an idempotency key has been acknowledged,
  submitting it again, under any answers from outside, changes no state at all, and the waiting
  request is answered with the acknowledgement of the first.
\<close>

theorem retried_submission_replays:
  assumes "submit_order env r actor s = (Acknowledged ack, s')" and "request_idempotency_key r \<noteq> ''''"
    and "\<not> request_is_after_market_order r"
  shows "submit_order env2 r actor2 s' = (AwaitsOwner, s')
    \<and> await_answers (request_idempotency_key r) False (sv_store s') = [ack]"
proof -
  have ok: "validate_order_execution_type r = None"
    "validate_milli_share_quantity (request_milli_share_quantity r) (request_is_paper_trading r) = None"
    and "claim_and_process env r actor s = (Acknowledged ack, s')"
    using assms(1,3) by (auto simp: submit_order_def split: option.splits)
  note stored = claimed_answer [OF this(3) assms(2)]
  then show ?thesis
    using ok assms(2,3) by (simp add: submit_order_def claim_and_process_def claim_key_def await_answers_def)
qed

definition demo_server :: server_state where
  "demo_server = \<lparr>sv_gateway = demo_gateway\<lparr>gw_session := Some new_market_session\<rparr>, sv_store = [], sv_queue = [],
     sv_detector = None\<rparr>"

definition demo_server_environment :: server_environment where
  "demo_server_environment = \<lparr>se_gateway = demo_environment demo_resting, se_duration_text = (\<lambda>d. ''''), se_nudge_time = 0\<rparr>"

lemma retried_submission_replays_witness:
  "\<exists>ack s'. submit_order demo_server_environment (demo_order ''a'' True 100 5\<lparr>request_idempotency_key := ''k''\<rparr>) ''a'' demo_server
      = (Acknowledged ack, s') \<and>
    submit_order demo_server_environment (demo_order ''a'' True 100 5\<lparr>request_idempotency_key := ''k''\<rparr>) ''a'' s'
      = (AwaitsOwner, s')"
proof -
  let ?r = "demo_order ''a'' True 100 5\<lparr>request_idempotency_key := ''k''\<rparr>"
  have key: "request_idempotency_key ?r \<noteq> ''''" "\<not> request_is_after_market_order ?r"
    by (simp_all add: demo_order_def)
  have "submit_order demo_server_environment ?r ''a'' demo_server =
      own_submission demo_server_environment ?r ''a'' (demo_server\<lparr>sv_store := [(''k'', None)]\<rparr>)"
    by (simp add: submit_order_def claim_and_process_def claim_key_def demo_server_def demo_order_def
      validate_order_execution_type_def validate_milli_share_quantity_def)
  moreover obtain answer s' where run: "own_submission demo_server_environment ?r ''a''
      (demo_server\<lparr>sv_store := [(''k'', None)]\<rparr>) = (answer, s')" by fastforce
  moreover obtain ack where "answer = Acknowledged ack"
    using own_submission_completes [OF _ key(1) run] by (auto simp: demo_order_def)
  ultimately show ?thesis
    using retried_submission_replays [OF _ key, of demo_server_environment "''a''" demo_server ack s' demo_server_environment "''a''"]
    by auto
qed

section \<open>After-market orders\<close>

fun run_submissions :: "(server_environment \<times> order_submission_request \<times> string) list \<Rightarrow> server_state \<Rightarrow> server_state" where
  "run_submissions [] s = s"
| "run_submissions ((env, r, actor) # es) s = run_submissions es (snd (submit_order env r actor s))"

definition market_is_open :: "server_state \<Rightarrow> bool option" where
  "market_is_open s = map_option is_market_open (gw_session (sv_gateway s))"

definition valid_after_market_order :: "order_submission_request \<Rightarrow> bool" where
  "valid_after_market_order r \<longleftrightarrow> request_is_after_market_order r \<and> validate_order_execution_type r = None \<and>
     validate_milli_share_quantity (request_milli_share_quantity r) (request_is_paper_trading r) = None"

text \<open>Two gateways that differ in their audit trails only.\<close>

definition same_trading :: "gateway_state \<Rightarrow> gateway_state \<Rightarrow> bool" where
  "same_trading g h \<longleftrightarrow> g\<lparr>gw_audit := []\<rparr> = h\<lparr>gw_audit := []\<rparr>"

lemma same_trading_audit [simp]:
  "same_trading g (audit env e h) = same_trading g h" "same_trading (audit env e g) h = same_trading g h"
  by (simp_all add: same_trading_def audit_def)

lemma same_trading_session: "same_trading g h \<Longrightarrow> gw_session g = gw_session h"
  by (cases g, cases h) (simp add: same_trading_def)

lemma same_trading_set_session:
  "same_trading g h \<Longrightarrow> same_trading (g\<lparr>gw_session := m\<rparr>) (h\<lparr>gw_session := m\<rparr>)"
  by (cases g, cases h) (simp add: same_trading_def)

lemma queued_submission:
  assumes "valid_after_market_order r" and "market_is_open s = Some False"
  shows "snd (submit_order env r actor s) = snd (queue_order env r actor s)"
  using assms by (auto simp: submit_order_def valid_after_market_order_def market_is_open_def)

lemma queued_submissions:
  assumes "\<forall>(env, r, actor) \<in> set es. valid_after_market_order r" and "market_is_open s = Some False"
  shows "sv_queue (run_submissions es s) = sv_queue s @ map (fst \<circ> snd) es
    \<and> same_trading (sv_gateway (run_submissions es s)) (sv_gateway s)
    \<and> sv_store (run_submissions es s) = sv_store s"
  using assms
proof (induction es arbitrary: s)
  case (Cons e es)
  obtain env r actor where e: "e = (env, r, actor)" by (metis prod.exhaust)
  let ?s = "snd (queue_order env r actor s)"
  have step: "snd (submit_order env r actor s) = ?s"
    by (rule queued_submission) (use Cons.prems e in auto)
  have "market_is_open ?s = Some False"
    using Cons.prems(2) by (simp add: queue_order_def market_is_open_def)
  from Cons.IH [OF _ this] Cons.prems(1) show ?case
    by (simp add: e step) (simp add: queue_order_def enqueue_def)
qed (simp add: same_trading_def)

lemma drain_is_run:
  "snd (drain_orders envs actor i rs g) = run_orders (map (\<lambda>(j, r). (envs j, r, actor)) (enumerate i rs)) g"
  "length (fst (drain_orders envs actor i rs g)) = length rs"
  by (induction rs arbitrary: i g) (simp_all add: case_prod_unfold)

text \<open>
  An after-market order waits for the market and then runs once: orders that arrive while the
  market is closed change nothing but the queue and the audit trail; opening the market empties the
  queue and processes every waiting order exactly once, in the order of arrival, and the counts that
  it reports add up.
\<close>

theorem after_market_orders_run_at_open:
  assumes "\<forall>(env, r, actor) \<in> set es. valid_after_market_order r" and "market_is_open s = Some False"
  shows "same_trading (sv_gateway (run_submissions es s)) (sv_gateway s)
    \<and> (\<exists>opened s2 g1. open_market env envs admin (run_submissions es s) = Some (opened, s2)
      \<and> sv_queue s2 = []
      \<and> same_trading g1 ((sv_gateway s)\<lparr>gw_session := map_option (set_market_open True) (gw_session (sv_gateway s))\<rparr>)
      \<and> sv_gateway s2 = run_orders (map (\<lambda>(j, r). (envs j, r, admin))
          (enumerate 0 (sv_queue s @ map (fst \<circ> snd) es))) g1
      \<and> opened_drained opened = length (sv_queue s) + length es
      \<and> opened_accepted opened + opened_rejected opened = opened_drained opened)"
proof -
  let ?t = "run_submissions es s"
  note q = queued_submissions [OF assms]
  obtain m where m: "gw_session (sv_gateway s) = Some m"
    using assms(2) by (auto simp: market_is_open_def)
  have "gw_session (sv_gateway ?t) = gw_session (sv_gateway s)"
    using q same_trading_session by blast
  then have m': "gw_session (sv_gateway ?t) = Some m" by (simp add: m)
  define g1 where "g1 = audit (se_gateway env) (bare_entry EventMarketSessionOpened admin)
      ((sv_gateway ?t)\<lparr>gw_session := Some (set_market_open True m)\<rparr>)"
  have g1: "same_trading g1 ((sv_gateway s)\<lparr>gw_session := map_option (set_market_open True) (gw_session (sv_gateway s))\<rparr>)"
    using q same_trading_set_session [of "sv_gateway ?t" "sv_gateway s" "Some (set_market_open True m)"]
    by (simp add: g1_def m)
  obtain acks g where d: "drain_orders envs admin 0 (sv_queue ?t) g1 = (acks, g)" by fastforce
  define opened where "opened = \<lparr>opened_results = acks, opened_drained = length (sv_queue ?t),
      opened_accepted = length (filter ack_was_accepted acks),
      opened_rejected = length (filter (\<lambda>a. \<not> ack_was_accepted a) acks)\<rparr>"
  have o: "open_market env envs admin ?t = Some (opened, ?t\<lparr>sv_gateway := g, sv_queue := []\<rparr>)"
    by (simp add: open_market_def m' drain_all_def d opened_def flip: g1_def)
  have run: "length acks = length (sv_queue ?t)"
    "g = run_orders (map (\<lambda>(j, r). (envs j, r, admin)) (enumerate 0 (sv_queue ?t))) g1"
    using drain_is_run [of envs admin 0 "sv_queue ?t" g1] by (simp_all add: d)
  have queue: "sv_queue ?t = sv_queue s @ map (fst \<circ> snd) es" using q by blast
  have counts: "opened_accepted opened + opened_rejected opened = opened_drained opened"
    by (simp add: opened_def sum_length_filter_compl run(1))
  have drained: "opened_drained opened = length (sv_queue s) + length es"
    by (simp add: opened_def queue)
  have "sv_queue (?t\<lparr>sv_gateway := g, sv_queue := []\<rparr>) = []"
    "sv_gateway (?t\<lparr>sv_gateway := g, sv_queue := []\<rparr>) =
      run_orders (map (\<lambda>(j, r). (envs j, r, admin)) (enumerate 0 (sv_queue s @ map (fst \<circ> snd) es))) g1"
    by (simp_all add: run(2) queue)
  with o g1 counts drained q show ?thesis by blast
qed

lemma after_market_orders_run_at_open_witness:
  "\<exists>opened s2. open_market demo_server_environment (\<lambda>i. demo_environment demo_resting) ''admin''
      (run_submissions [(demo_server_environment, demo_order ''a'' True 100 5\<lparr>request_is_after_market_order := True\<rparr>, ''a'')]
        demo_server) = Some (opened, s2)
    \<and> opened_accepted opened + opened_rejected opened = 1"
proof -
  let ?es = "[(demo_server_environment, demo_order ''a'' True 100 5\<lparr>request_is_after_market_order := True\<rparr>, ''a'')]"
  have "\<forall>(env, r, actor) \<in> set ?es. valid_after_market_order r"
    by (simp add: valid_after_market_order_def demo_order_def validate_order_execution_type_def
      validate_milli_share_quantity_def)
  moreover have "market_is_open demo_server = Some False"
    by (simp add: market_is_open_def demo_server_def new_market_session_def is_market_open_def)
  ultimately have "\<exists>opened s2 g1. open_market demo_server_environment (\<lambda>i. demo_environment demo_resting) ''admin''
        (run_submissions ?es demo_server) = Some (opened, s2)
      \<and> opened_drained opened = length (sv_queue demo_server) + length ?es
      \<and> opened_accepted opened + opened_rejected opened = opened_drained opened"
    using after_market_orders_run_at_open [of ?es demo_server demo_server_environment
      "\<lambda>i. demo_environment demo_resting" "''admin''"] by blast
  then show ?thesis by (auto simp: demo_server_def)
qed

section \<open>Collateral\<close>

text \<open>What clients and administrators do with pledges through the handlers.\<close>

datatype pledge_request =
    PledgeRequest string string uint64 int64
  | UnpledgeRequest string string uint64
  | UtilizedMarginRequest string int64

fun run_pledges :: "pledge_request list \<Rightarrow> gateway_state \<Rightarrow> gateway_state" where
  "run_pledges [] g = g"
| "run_pledges (PledgeRequest a ins q price # ps) g = run_pledges ps (snd (pledge_handler a ins q price g))"
| "run_pledges (UnpledgeRequest a ins q # ps) g = run_pledges ps (snd (unpledge_handler a ins q g))"
| "run_pledges (UtilizedMarginRequest a v # ps) g = run_pledges ps (set_utilized_margin_handler a v g)"

definition free_margin :: "gateway_state \<Rightarrow> string \<Rightarrow> int64" where
  "free_margin g a = margin_of g a - total_pledged_margin_value a (gw_pledges g)"

lemma pledge_book_ok_remove:
  "pledge_book_ok b \<Longrightarrow> pledge_book_ok (b\<lparr>pledges := put a (remove ins (lookup_or [] (pledges b) a)) (pledges b)\<rparr>)"
  by (simp add: pledge_book_ok_def)

lemma pledge_holding_total:
  assumes "pledge_book_ok b" and "pledge_holding a ins q price net b = Inr ((r, v), b')"
  shows "pledge_book_ok b'"
    and "total_pledged_margin_value c b' = total_pledged_margin_value c b + (if c = a then v else 0)"
  using assms total_after_put [OF assms(1), of c a ins] pledge_book_ok_put [OF assms(1)]
  by (auto simp: pledge_holding_def Let_def split: if_splits option.splits)

text \<open>
  Unpledging multiplies the quantity with the margin value before it divides: a request fits when that
  product does.
\<close>

definition unpledge_fits :: "string \<Rightarrow> string \<Rightarrow> uint64 \<Rightarrow> pledge_book \<Rightarrow> bool" where
  "unpledge_fits a ins q b = (case pledge_of a ins b of
     None \<Rightarrow> True | Some r \<Rightarrow> uint q < 2 ^ 63 \<and> \<bar>uint q * sint (pledge_margin_value r)\<bar> < 2 ^ 63)"

fun pledges_fit :: "pledge_request list \<Rightarrow> gateway_state \<Rightarrow> bool" where
  "pledges_fit [] g = True"
| "pledges_fit (PledgeRequest a ins q price # ps) g = pledges_fit ps (snd (pledge_handler a ins q price g))"
| "pledges_fit (UnpledgeRequest a ins q # ps) g =
    (unpledge_fits a ins q (gw_pledges g) \<and> pledges_fit ps (snd (unpledge_handler a ins q g)))"
| "pledges_fit (UtilizedMarginRequest a v # ps) g = pledges_fit ps (set_utilized_margin_handler a v g)"

lemma unpledge_holding_total:
  assumes "pledge_book_ok b" and "unpledge_holding a ins q b = Inr (v, b')" and "unpledge_fits a ins q b"
  shows "pledge_book_ok b'"
    and "total_pledged_margin_value c b' = total_pledged_margin_value c b - (if c = a then v else 0)"
proof -
  obtain r where r: "pledge_of a ins b = Some r" and q: "q \<noteq> 0"
    and v: "v = int64_div (q * pledge_margin_value r) (pledge_quantity r)"
    and b': "b' = b\<lparr>pledges := (if pledge_quantity r = q
        then put a (remove ins (lookup_or [] (pledges b) a)) (pledges b)
        else nested_put a ins (r\<lparr>pledge_quantity := pledge_quantity r - q,
          pledge_margin_value := pledge_margin_value r - v\<rparr>) (pledges b))\<rparr>"
    using assms(2) by (auto simp: unpledge_holding_def Let_def split: if_splits option.splits)
  have whole: "v = pledge_margin_value r" if "pledge_quantity r = q"
    using int64_div_mult_self [OF _ q, of "pledge_margin_value r"] assms(3) r that by (simp add: v unpledge_fits_def)
  show "pledge_book_ok b'"
    using pledge_book_ok_put [OF assms(1)] pledge_book_ok_remove [OF assms(1)] by (auto simp: b')
  show "total_pledged_margin_value c b' = total_pledged_margin_value c b - (if c = a then v else 0)"
    using total_after_put [OF assms(1), of c a ins] total_after_remove [OF assms(1), of c a ins] whole r
    by (auto simp: b')
qed

lemma pledge_step:
  assumes "pledge_book_ok (gw_pledges g)"
  shows "pledge_book_ok (gw_pledges (snd (pledge_handler a ins q price g))) \<and>
    free_margin (snd (pledge_handler a ins q price g)) c = free_margin g c"
  using assms pledge_holding_total [OF assms, of a ins q price]
  by (auto simp: pledge_handler_def free_margin_def margin_of_def adjust_available_margin_def Let_def
    split: sum.splits prod.splits)

lemma unpledge_step:
  assumes "pledge_book_ok (gw_pledges g)" and "unpledge_fits a ins q (gw_pledges g)"
  shows "pledge_book_ok (gw_pledges (snd (unpledge_handler a ins q g))) \<and>
    free_margin (snd (unpledge_handler a ins q g)) c = free_margin g c"
  using assms(1) unpledge_holding_total [OF assms(1) _ assms(2)]
  by (auto simp: unpledge_handler_def free_margin_def margin_of_def adjust_available_margin_def Let_def
    split: sum.splits prod.splits)

text \<open>
  C14. Collateral is neither minted nor lost: through any run of pledge, unpledge and utilized-margin
  requests of any accounts, accepted or not, in which no product of a quantity and a margin value
  overflows, the margin of an account beyond what its pledges back stays what it was.
\<close>

theorem collateral_margin_conserved:
  assumes "pledge_book_ok (gw_pledges g)" and "pledges_fit ps g"
  shows "free_margin (run_pledges ps g) a = free_margin g a"
  using assms
proof (induction ps g rule: run_pledges.induct)
  case (2 b ins q price ps g)
  then show ?case using pledge_step [OF 2(2), of b ins q price a] by simp
next
  case (3 b ins q ps g)
  then show ?case using unpledge_step [OF 3(2), of b ins q a] by simp
next
  case (4 b v ps g)
  have "pledge_book_ok (gw_pledges (set_utilized_margin_handler b v g))"
    using 4(2) by (simp add: set_utilized_margin_handler_def set_utilized_margin_def pledge_book_ok_def)
  moreover have "free_margin (set_utilized_margin_handler b v g) a = free_margin g a"
    by (simp add: free_margin_def margin_of_def set_utilized_margin_handler_def set_utilized_margin_def
      total_pledged_margin_value_def)
  ultimately show ?case using 4 by simp
qed simp

lemma collateral_margin_conserved_witness:
  "free_margin (run_pledges [PledgeRequest ''b'' ''X'' 10 100, UnpledgeRequest ''b'' ''Y'' 4] demo_gateway) ''b''
    = free_margin demo_gateway ''b''"
proof -
  have "pledge_book_ok (gw_pledges demo_gateway)"
    by (simp add: demo_defs pledge_book_ok_def lookup_or_def)
  moreover have "pledge_of ''b'' ''Y'' (gw_pledges (snd (pledge_handler ''b'' ''X'' 10 100 demo_gateway))) = None"
    by (simp add: pledge_handler_def demo_defs pledge_holding_def Let_def pledge_of_def pledged_quantity_def
      positions_for_account_def lookup_or_def split: sum.splits)
  then have "pledges_fit [PledgeRequest ''b'' ''X'' 10 100, UnpledgeRequest ''b'' ''Y'' 4] demo_gateway"
    by (simp add: unpledge_fits_def)
  ultimately show ?thesis
    by (rule collateral_margin_conserved)
qed

end
