(* ===== verification/CreditBooks.thy ===== *)
theory CreditBooks
  imports GatewayHandlers
begin

text \<open>
  The two loan products of the order gateway against pledged collateral,
  services/oms-gateway/internal/marginfunding (marginFundingBook.go, costCalculator.go) and
  internal/loanagainstsecurities/loanAgainstSecuritiesBook.go, with the handlers of
  cmd/server/main.go that reserve principal, post the cash to the ledger and undo the reservation when
  the posting fails. The answer of the ledger is an argument, \<open>Some err\<close> being a failed posting.
\<close>

section \<open>The contract of a book of principals\<close>

text \<open>
  What the handlers rely on: granting a loan adds to what the account owes and to nothing else, and
  taking the grant back, which clamps at zero, undoes it.
\<close>

locale principal_book =
  fixes owed :: "'b \<Rightarrow> string \<Rightarrow> int64"
    and granted :: "string \<Rightarrow> int64 \<Rightarrow> 'b \<Rightarrow> 'b \<Rightarrow> bool"
    and take_back :: "string \<Rightarrow> int64 \<Rightarrow> 'b \<Rightarrow> 'b"
  assumes granted_owed: "granted a n b b' \<Longrightarrow> owed b' k = (if k = a then owed b a + n else owed b k)"
    and take_back_owed: "owed (take_back a n b) k =
      (if k \<noteq> a then owed b k else if owed b a - n <s 0 then 0 else owed b a - n)"
begin

lemma take_back_grant:
  assumes "granted a n b b'" and "0 \<le>s owed b a"
  shows "owed (take_back a n b') k = owed b k"
  using assms by (auto simp: take_back_owed granted_owed word_sle_eq word_sless_alt)

end

section \<open>Margin funding\<close>

record funding_book =
  funding_principals :: "int64 table"
  disbursement_starts :: "instant table"

datatype funding_error =
    FundingAmountMustBePositive | InsufficientUnutilizedPledgedCollateral | FundingRepaymentExceedsPrincipal

definition new_funding_book :: funding_book where
  "new_funding_book = \<lparr>funding_principals = [], disbursement_starts = []\<rparr>"

definition outstanding_funding :: "funding_book \<Rightarrow> string \<Rightarrow> int64" where
  "outstanding_funding b a = lookup_or 0 (funding_principals b) a"

definition record_disbursement_start_time :: "string \<Rightarrow> instant \<Rightarrow> funding_book \<Rightarrow> funding_book" where
  "record_disbursement_start_time a now b =
    (if lookup (disbursement_starts b) a = None then b\<lparr>disbursement_starts := put a now (disbursement_starts b)\<rparr> else b)"

definition disbursement_start_time :: "string \<Rightarrow> funding_book \<Rightarrow> instant option" where
  "disbursement_start_time a b = lookup (disbursement_starts b) a"

definition request_funding :: "string \<Rightarrow> int64 \<Rightarrow> int64 \<Rightarrow> funding_book \<Rightarrow> funding_error + int64 \<times> funding_book" where
  "request_funding a amount pledged b =
    (if amount \<le>s 0 then Inl FundingAmountMustBePositive
     else let current = outstanding_funding b a
       in if pledged - current <s amount then Inl InsufficientUnutilizedPledgedCollateral
          else Inr (current + amount, b\<lparr>funding_principals := put a (current + amount) (funding_principals b)\<rparr>))"

definition roll_back_funding :: "string \<Rightarrow> int64 \<Rightarrow> funding_book \<Rightarrow> funding_book" where
  "roll_back_funding a amount b =
    (let rest = outstanding_funding b a - amount
     in b\<lparr>funding_principals := put a (if rest <s 0 then 0 else rest) (funding_principals b)\<rparr>)"

definition repay_funding :: "string \<Rightarrow> int64 \<Rightarrow> funding_book \<Rightarrow> funding_error + int64 \<times> funding_book" where
  "repay_funding a amount b =
    (if amount \<le>s 0 then Inl FundingAmountMustBePositive
     else let current = outstanding_funding b a
       in if current <s amount then Inl FundingRepaymentExceedsPrincipal
          else let b1 = b\<lparr>funding_principals := put a (current - amount) (funding_principals b)\<rparr>
            in Inr (current - amount, if current - amount = 0
                 then b1\<lparr>disbursement_starts := remove a (disbursement_starts b1)\<rparr> else b1))"

section \<open>Interest\<close>

text \<open>The daily rates are constant expressions, exact until they are stored in a float.\<close>

definition accrued_interest :: "rat \<Rightarrow> int64 \<Rightarrow> int64 \<Rightarrow> int64" where
  "accrued_interest percent debt days =
    (if debt \<le>s 0 \<or> days \<le>s 0 then 0
     else round_to_nearest_minor_unit (float_mul (float_mul (float_of_int64 debt)
       (round_float (percent / 100 / 365))) (float_of_int64 days)))"

definition funding_interest :: "int64 \<Rightarrow> int64 \<Rightarrow> int64" where
  "funding_interest = accrued_interest 12"

definition loan_interest :: "int64 \<Rightarrow> int64 \<Rightarrow> int64" where
  "loan_interest = accrued_interest 9"

definition days_elapsed_floor_zero :: "instant \<Rightarrow> instant \<Rightarrow> int64" where
  "days_elapsed_floor_zero start stop = (let elapsed = time_sub stop start
     in if elapsed \<le>s 0 then 0 else int64_of_float (float_div (duration_hours elapsed) 24))"

definition cost_so_far :: "int64 \<Rightarrow> instant \<Rightarrow> instant \<Rightarrow> int64" where
  "cost_so_far debt start now = funding_interest debt (days_elapsed_floor_zero start now)"

definition projected_cost :: "int64 \<Rightarrow> instant \<Rightarrow> instant \<Rightarrow> int64 \<Rightarrow> int64" where
  "projected_cost debt start now additional =
    funding_interest debt (days_elapsed_floor_zero start now + (if additional <s 0 then 0 else additional))"

record interest_snapshot =
  snapshot_principal :: int64
  snapshot_disbursed_at :: instant
  snapshot_as_of :: instant
  snapshot_days_elapsed :: int64
  snapshot_cost_so_far :: int64
  snapshot_additional_days :: int64
  snapshot_projected_total :: int64
  snapshot_projected_incremental :: int64

definition live_interest_cost_snapshot :: "int64 \<Rightarrow> instant \<Rightarrow> instant \<Rightarrow> int64 \<Rightarrow> interest_snapshot" where
  "live_interest_cost_snapshot debt start now additional =
    (let so_far = cost_so_far debt start now; projected = projected_cost debt start now additional
     in \<lparr>snapshot_principal = debt, snapshot_disbursed_at = start, snapshot_as_of = now,
         snapshot_days_elapsed = days_elapsed_floor_zero start now, snapshot_cost_so_far = so_far,
         snapshot_additional_days = additional, snapshot_projected_total = projected,
         snapshot_projected_incremental = projected - so_far\<rparr>)"

definition interest_cost_view :: "string \<Rightarrow> instant \<Rightarrow> int64 \<Rightarrow> funding_book \<Rightarrow> interest_snapshot" where
  "interest_cost_view a now additional b =
    (case disbursement_start_time a b of
       Some start \<Rightarrow> if outstanding_funding b a \<le>s 0
         then \<lparr>snapshot_principal = outstanding_funding b a, snapshot_disbursed_at = zero_time, snapshot_as_of = now,
           snapshot_days_elapsed = 0, snapshot_cost_so_far = 0, snapshot_additional_days = additional,
           snapshot_projected_total = 0, snapshot_projected_incremental = 0\<rparr>
         else live_interest_cost_snapshot (outstanding_funding b a) start now additional
     | None \<Rightarrow> \<lparr>snapshot_principal = outstanding_funding b a, snapshot_disbursed_at = zero_time, snapshot_as_of = now,
         snapshot_days_elapsed = 0, snapshot_cost_so_far = 0, snapshot_additional_days = additional,
         snapshot_projected_total = 0, snapshot_projected_incremental = 0\<rparr>)"

section \<open>Loans against securities\<close>

record loan_book =
  loan_principals :: "int64 table"
  loan_tenures :: "(32 word) table"

datatype loan_error =
    LoanAmountMustBePositive | TenureMustBePositive | InsufficientLoanToValueCapacity | LoanRepaymentExceedsPrincipal

definition new_loan_book :: loan_book where
  "new_loan_book = \<lparr>loan_principals = [], loan_tenures = []\<rparr>"

definition outstanding_loan :: "loan_book \<Rightarrow> string \<Rightarrow> int64" where
  "outstanding_loan b a = lookup_or 0 (loan_principals b) a"

definition loan_to_value_cap :: "int64 \<Rightarrow> int64" where
  "loan_to_value_cap pledged = (if pledged \<le>s 0 then 0
     else round_to_nearest_minor_unit (float_mul (float_of_int64 pledged) (1 / 2)))"

definition request_loan :: "string \<Rightarrow> int64 \<Rightarrow> int64 \<Rightarrow> 32 word \<Rightarrow> loan_book \<Rightarrow> loan_error + int64 \<times> loan_book" where
  "request_loan a amount pledged tenure b =
    (if amount \<le>s 0 then Inl LoanAmountMustBePositive
     else if tenure = 0 then Inl TenureMustBePositive
     else let current = outstanding_loan b a
       in if loan_to_value_cap pledged - current <s amount then Inl InsufficientLoanToValueCapacity
          else Inr (current + amount, b\<lparr>loan_principals := put a (current + amount) (loan_principals b),
            loan_tenures := put a tenure (loan_tenures b)\<rparr>))"

definition roll_back_loan :: "string \<Rightarrow> int64 \<Rightarrow> loan_book \<Rightarrow> loan_book" where
  "roll_back_loan a amount b =
    (let rest = outstanding_loan b a - amount
     in b\<lparr>loan_principals := put a (if rest <s 0 then 0 else rest) (loan_principals b)\<rparr>)"

definition repay_loan :: "string \<Rightarrow> int64 \<Rightarrow> loan_book \<Rightarrow> loan_error + int64 \<times> loan_book" where
  "repay_loan a amount b =
    (if amount \<le>s 0 then Inl LoanAmountMustBePositive
     else let current = outstanding_loan b a
       in if current <s amount then Inl LoanRepaymentExceedsPrincipal
          else Inr (current - amount, b\<lparr>loan_principals := put a (current - amount) (loan_principals b)\<rparr>))"

definition restore_principal :: "string \<Rightarrow> int64 \<Rightarrow> loan_book \<Rightarrow> loan_book" where
  "restore_principal a amount b = b\<lparr>loan_principals := put a (outstanding_loan b a + amount) (loan_principals b)\<rparr>"

section \<open>The handlers\<close>

record credit_state =
  cr_gateway :: gateway_state
  cr_funding :: funding_book
  cr_loans :: loan_book

type_synonym ledger_answer = "string \<Rightarrow> int64 \<Rightarrow> string option"

datatype credit_error =
    FundingRefused funding_error | LoanRefused loan_error | DisbursementFailed string | RepaymentPostingFailed string

text \<open>An approved request answers with the outstanding principal and the available margin after it.\<close>

definition funding_request_handler :: "ledger_answer \<Rightarrow> instant \<Rightarrow> string \<Rightarrow> int64 \<Rightarrow> credit_state \<Rightarrow>
    (credit_error + int64 \<times> int64) \<times> credit_state" where
  "funding_request_handler disburse now a amount s =
    (case request_funding a amount (total_pledged_margin_value a (gw_pledges (cr_gateway s))) (cr_funding s) of
       Inl err \<Rightarrow> (Inl (FundingRefused err), s)
     | Inr (outstanding, b) \<Rightarrow>
         (case disburse a amount of
            Some err \<Rightarrow> (Inl (DisbursementFailed err), s\<lparr>cr_funding := roll_back_funding a amount b\<rparr>)
          | None \<Rightarrow>
              let e = adjust_available_margin a amount (gw_margins (cr_gateway s))
              in (Inr (outstanding, lookup_or 0 e a),
                  s\<lparr>cr_gateway := (cr_gateway s)\<lparr>gw_margins := e\<rparr>,
                    cr_funding := record_disbursement_start_time a now b\<rparr>)))"

definition loan_request_handler :: "ledger_answer \<Rightarrow> string \<Rightarrow> int64 \<Rightarrow> 32 word \<Rightarrow> credit_state \<Rightarrow>
    (credit_error + int64 \<times> int64) \<times> credit_state" where
  "loan_request_handler disburse a amount tenure s =
    (case request_loan a amount (total_pledged_margin_value a (gw_pledges (cr_gateway s))) tenure (cr_loans s) of
       Inl err \<Rightarrow> (Inl (LoanRefused err), s)
     | Inr (outstanding, b) \<Rightarrow>
         (case disburse a amount of
            Some err \<Rightarrow> (Inl (DisbursementFailed err), s\<lparr>cr_loans := roll_back_loan a amount b\<rparr>)
          | None \<Rightarrow>
              let e = adjust_available_margin a amount (gw_margins (cr_gateway s))
              in (Inr (outstanding, lookup_or 0 e a),
                  s\<lparr>cr_gateway := (cr_gateway s)\<lparr>gw_margins := e\<rparr>, cr_loans := b\<rparr>)))"

definition loan_repay_handler :: "ledger_answer \<Rightarrow> string \<Rightarrow> int64 \<Rightarrow> credit_state \<Rightarrow>
    (credit_error + int64) \<times> credit_state" where
  "loan_repay_handler post a amount s =
    (case repay_loan a amount (cr_loans s) of
       Inl err \<Rightarrow> (Inl (LoanRefused err), s)
     | Inr (outstanding, b) \<Rightarrow>
         (case post a amount of
            Some err \<Rightarrow> (Inl (RepaymentPostingFailed err), s\<lparr>cr_loans := restore_principal a amount b\<rparr>)
          | None \<Rightarrow> (Inr outstanding,
              s\<lparr>cr_gateway := (cr_gateway s)\<lparr>gw_margins := adjust_available_margin a (- amount) (gw_margins (cr_gateway s))\<rparr>,
                cr_loans := b\<rparr>)))"

text \<open>The status views: outstanding principal, pledged value, cap and remaining capacity.\<close>

definition remaining_capacity :: "int64 \<Rightarrow> int64 \<Rightarrow> int64" where
  "remaining_capacity cap outstanding = (if cap - outstanding <s 0 then 0 else cap - outstanding)"

definition funding_status_view :: "string \<Rightarrow> credit_state \<Rightarrow> int64 \<times> int64 \<times> int64" where
  "funding_status_view a s = (let pledged = total_pledged_margin_value a (gw_pledges (cr_gateway s));
     outstanding = outstanding_funding (cr_funding s) a in (outstanding, pledged, remaining_capacity pledged outstanding))"

definition loan_status_view :: "string \<Rightarrow> credit_state \<Rightarrow> int64 \<times> 32 word \<times> int64 \<times> int64 \<times> int64" where
  "loan_status_view a s = (let pledged = total_pledged_margin_value a (gw_pledges (cr_gateway s));
     cap = loan_to_value_cap pledged; outstanding = outstanding_loan (cr_loans s) a
     in (outstanding, lookup_or 0 (loan_tenures (cr_loans s)) a, pledged, cap, remaining_capacity cap outstanding))"

section \<open>The books keep the contract\<close>

definition funding_granted :: "string \<Rightarrow> int64 \<Rightarrow> funding_book \<Rightarrow> funding_book \<Rightarrow> bool" where
  "funding_granted a n b b' \<longleftrightarrow> (\<exists>pledged outstanding. request_funding a n pledged b = Inr (outstanding, b'))"

definition loan_granted :: "string \<Rightarrow> int64 \<Rightarrow> loan_book \<Rightarrow> loan_book \<Rightarrow> bool" where
  "loan_granted a n b b' \<longleftrightarrow> (\<exists>pledged tenure outstanding. request_loan a n pledged tenure b = Inr (outstanding, b'))"

interpretation funding: principal_book outstanding_funding funding_granted roll_back_funding
  by unfold_locales
    (auto simp: funding_granted_def request_funding_def roll_back_funding_def outstanding_funding_def Let_def
      split: if_splits)

interpretation loans: principal_book outstanding_loan loan_granted roll_back_loan
  by unfold_locales
    (auto simp: loan_granted_def request_loan_def roll_back_loan_def outstanding_loan_def Let_def split: if_splits)

section \<open>Lending conserves margin and stays within the collateral\<close>

datatype credit_request =
    FundingRequest ledger_answer instant string int64
  | LoanRequest ledger_answer string int64 "32 word"
  | LoanRepayment ledger_answer string int64

fun credit_step :: "credit_request \<Rightarrow> credit_state \<Rightarrow> credit_state" where
  "credit_step (FundingRequest ledger now a n) s = snd (funding_request_handler ledger now a n s)"
| "credit_step (LoanRequest ledger a n tenure) s = snd (loan_request_handler ledger a n tenure s)"
| "credit_step (LoanRepayment ledger a n) s = snd (loan_repay_handler ledger a n s)"

text \<open>The margin of an account beyond the money it was lent.\<close>

definition own_margin :: "credit_state \<Rightarrow> string \<Rightarrow> int64" where
  "own_margin s a = margin_of (cr_gateway s) a - outstanding_funding (cr_funding s) a - outstanding_loan (cr_loans s) a"

definition within_collateral :: "credit_state \<Rightarrow> string \<Rightarrow> bool" where
  "within_collateral s a \<longleftrightarrow> (let pledged = total_pledged_margin_value a (gw_pledges (cr_gateway s)) in
    0 \<le>s outstanding_funding (cr_funding s) a \<and> outstanding_funding (cr_funding s) a \<le>s pledged \<and>
    0 \<le>s outstanding_loan (cr_loans s) a \<and> outstanding_loan (cr_loans s) a \<le>s loan_to_value_cap pledged)"

lemma added_within:
  assumes "0 \<le>s (current :: int64)" and "current \<le>s cap" and "0 <s n" and "\<not> cap - current <s n"
  shows "0 \<le>s current + n \<and> current + n \<le>s cap"
proof -
  have c: "0 \<le> sint current" "sint current \<le> sint cap" "0 < sint n" "sint n \<le> sint (cap - current)"
    using assms by (simp_all add: word_sle_eq word_sless_alt not_less)
  have "sint (cap - current) = sint cap - sint current"
    using c sint_bounds64 [of cap] by (intro sint_sub64) linarith+
  moreover from this have "sint (current + n) = sint current + sint n"
    using c sint_bounds64 [of cap] by (intro sint_add64) linarith+
  ultimately show ?thesis using c by (simp add: word_sle_eq)
qed

lemma subtracted_within:
  assumes "0 \<le>s (current :: int64)" and "current \<le>s cap" and "0 <s n" and "\<not> current <s n"
  shows "0 \<le>s current - n \<and> current - n \<le>s cap"
proof -
  have c: "0 \<le> sint current" "sint current \<le> sint cap" "0 < sint n" "sint n \<le> sint current"
    using assms by (simp_all add: word_sle_eq word_sless_alt not_less)
  then have "sint (current - n) = sint current - sint n"
    using sint_bounds64 [of current] by (intro sint_sub64) linarith+
  with c show ?thesis by (simp add: word_sle_eq)
qed

lemma not_sle_zero: "\<not> n \<le>s 0 \<longleftrightarrow> 0 <s (n :: int64)"
  by (simp add: word_sle_eq word_sless_alt not_le)

lemma funding_step:
  assumes "\<forall>a. within_collateral s a"
  shows "own_margin (snd (funding_request_handler ledger now a n s)) k = own_margin s k
    \<and> within_collateral (snd (funding_request_handler ledger now a n s)) k"
proof (cases "request_funding a n (total_pledged_margin_value a (gw_pledges (cr_gateway s))) (cr_funding s)")
  case (Inl err)
  then show ?thesis using assms by (simp add: funding_request_handler_def)
next
  case (Inr r)
  obtain outstanding b where r: "r = (outstanding, b)" by fastforce
  have g: "funding_granted a n (cr_funding s) b" using Inr r by (auto simp: funding_granted_def)
  have owed: "outstanding_funding b j = (if j = a then outstanding_funding (cr_funding s) a + n
      else outstanding_funding (cr_funding s) j)" for j
    by (rule funding.granted_owed [OF g])
  have undone: "outstanding_funding (roll_back_funding a n b) j = outstanding_funding (cr_funding s) j" for j
    by (rule funding.take_back_grant [OF g]) (use assms in \<open>simp add: within_collateral_def Let_def\<close>)
  have started: "outstanding_funding (record_disbursement_start_time a now b) j = outstanding_funding b j" for j
    by (simp add: record_disbursement_start_time_def outstanding_funding_def)
  have "0 <s n" and "\<not> total_pledged_margin_value a (gw_pledges (cr_gateway s)) - outstanding_funding (cr_funding s) a <s n"
    using Inr by (auto simp: request_funding_def Let_def not_sle_zero split: if_splits)
  then have "0 \<le>s outstanding_funding (cr_funding s) a + n \<and> outstanding_funding (cr_funding s) a + n \<le>s
      total_pledged_margin_value a (gw_pledges (cr_gateway s))"
    using assms by (intro added_within) (simp_all add: within_collateral_def Let_def)
  then show ?thesis
    using assms Inr r owed undone started
    by (auto simp: funding_request_handler_def own_margin_def within_collateral_def margin_of_def
      adjust_available_margin_def Let_def split: option.splits)
qed

lemma loan_step:
  assumes "\<forall>a. within_collateral s a"
  shows "own_margin (snd (loan_request_handler ledger a n tenure s)) k = own_margin s k
    \<and> within_collateral (snd (loan_request_handler ledger a n tenure s)) k"
proof (cases "request_loan a n (total_pledged_margin_value a (gw_pledges (cr_gateway s))) tenure (cr_loans s)")
  case (Inl err)
  then show ?thesis using assms by (simp add: loan_request_handler_def)
next
  case (Inr r)
  obtain outstanding b where r: "r = (outstanding, b)" by fastforce
  have g: "loan_granted a n (cr_loans s) b" using Inr r by (auto simp: loan_granted_def)
  have owed: "outstanding_loan b j = (if j = a then outstanding_loan (cr_loans s) a + n
      else outstanding_loan (cr_loans s) j)" for j
    by (rule loans.granted_owed [OF g])
  have undone: "outstanding_loan (roll_back_loan a n b) j = outstanding_loan (cr_loans s) j" for j
    by (rule loans.take_back_grant [OF g]) (use assms in \<open>simp add: within_collateral_def Let_def\<close>)
  have "0 <s n" and "\<not> loan_to_value_cap (total_pledged_margin_value a (gw_pledges (cr_gateway s)))
      - outstanding_loan (cr_loans s) a <s n"
    using Inr by (auto simp: request_loan_def Let_def not_sle_zero split: if_splits)
  then have "0 \<le>s outstanding_loan (cr_loans s) a + n \<and> outstanding_loan (cr_loans s) a + n \<le>s
      loan_to_value_cap (total_pledged_margin_value a (gw_pledges (cr_gateway s)))"
    using assms by (intro added_within) (simp_all add: within_collateral_def Let_def)
  then show ?thesis
    using assms Inr r owed undone
    by (auto simp: loan_request_handler_def own_margin_def within_collateral_def margin_of_def
      adjust_available_margin_def Let_def split: option.splits)
qed

lemma repay_step:
  assumes "\<forall>a. within_collateral s a"
  shows "own_margin (snd (loan_repay_handler ledger a n s)) k = own_margin s k
    \<and> within_collateral (snd (loan_repay_handler ledger a n s)) k"
proof (cases "repay_loan a n (cr_loans s)")
  case (Inl err)
  then show ?thesis using assms by (simp add: loan_repay_handler_def)
next
  case (Inr r)
  then have r: "r = (outstanding_loan (cr_loans s) a - n,
      (cr_loans s)\<lparr>loan_principals := put a (outstanding_loan (cr_loans s) a - n) (loan_principals (cr_loans s))\<rparr>)"
    and "0 <s n" and "\<not> outstanding_loan (cr_loans s) a <s n"
    by (auto simp: repay_loan_def Let_def not_sle_zero split: if_splits)
  then have "0 \<le>s outstanding_loan (cr_loans s) a - n \<and> outstanding_loan (cr_loans s) a - n \<le>s
      loan_to_value_cap (total_pledged_margin_value a (gw_pledges (cr_gateway s)))"
    using assms by (intro subtracted_within) (simp_all add: within_collateral_def Let_def)
  then show ?thesis
    using assms Inr r
    by (auto simp: loan_repay_handler_def restore_principal_def own_margin_def within_collateral_def margin_of_def
      adjust_available_margin_def outstanding_loan_def Let_def split: option.splits)
qed

text \<open>
  C27. Lending neither mints nor destroys margin and never exceeds the collateral: through any run of funding
  requests, loan requests and repayments, whether the ledger posts the cash or not, the margin of
  every account beyond the money it owes stays what it was, and what it owes on each product stays
  between zero and that product's cap on its pledged value.
\<close>

theorem lending_conserves_margin:
  assumes "\<forall>a. within_collateral s a"
  shows "own_margin (fold credit_step rs s) k = own_margin s k \<and> within_collateral (fold credit_step rs s) k"
proof -
  have "(\<forall>a. own_margin (fold credit_step rs s) a = own_margin s a) \<and> (\<forall>a. within_collateral (fold credit_step rs s) a)"
    using assms
  proof (induction rs arbitrary: s)
    case (Cons r rs)
    have "own_margin (credit_step r s) a = own_margin s a \<and> within_collateral (credit_step r s) a" for a
      using funding_step [OF Cons(2)] loan_step [OF Cons(2)] repay_step [OF Cons(2)] by (cases r) simp_all
    then show ?case using Cons(1) [of "credit_step r s"] by simp
  qed simp
  then show ?thesis by blast
qed

definition demo_credit :: credit_state where
  "demo_credit = \<lparr>cr_gateway = demo_gateway, cr_funding = new_funding_book, cr_loans = new_loan_book\<rparr>"

lemma demo_within: "gw_pledges demo_gateway = p \<Longrightarrow> pledges p = [] \<Longrightarrow> within_collateral demo_credit a"
  by (simp add: within_collateral_def demo_credit_def new_funding_book_def new_loan_book_def outstanding_funding_def
    outstanding_loan_def total_pledged_margin_value_def lookup_or_def loan_to_value_cap_def Let_def)

lemma lending_conserves_margin_witness:
  "own_margin (fold credit_step [FundingRequest (\<lambda>a n. None) 0 ''a'' 5, LoanRequest (\<lambda>a n. Some ''down'') ''a'' 7 12]
    demo_credit) ''a'' = own_margin demo_credit ''a''"
proof -
  have "\<forall>a. within_collateral demo_credit a"
    using demo_within by (simp add: demo_defs)
  from lending_conserves_margin [OF this] show ?thesis by blast
qed

section \<open>The cap of a loan\<close>

lemma round_float_half: "\<bar>n\<bar> < 2 ^ 53 \<Longrightarrow> round_float (of_int n / 2) = of_int n / 2"
  by (rule round_float_exact [of _ n "- 1"]) (simp_all add: power_int_minus)

text \<open>The loan-to-value cap is half of the pledged value, rounded up, for every value below \<open>2 ^ 52\<close>.\<close>

theorem loan_cap_is_half:
  assumes "0 \<le>s v" and "sint v < 2 ^ 52"
  shows "sint (loan_to_value_cap v) = (sint v + 1) div 2"
proof (cases "v \<le>s 0")
  case True
  then have "sint v = 0" using assms(1) by (simp add: word_sle_eq)
  then show ?thesis using True by (simp add: loan_to_value_cap_def)
next
  case False
  have v: "0 < sint v" using False by (simp add: word_sle_eq)
  have half: "float_mul (float_of_int64 v) (1 / 2) = of_int (sint v) / 2"
    using v assms(2) round_float_int [of "sint v"] round_float_half [of "sint v"]
    by (simp add: float_mul_def float_of_int64_def)
  have up: "float_add (of_int (sint v) / 2) (1 / 2) = of_int (sint v + 1) / of_int 2"
    using v assms(2) round_float_half [of "sint v + 1"] by (simp add: float_add_def add_divide_distrib)
  have "(0 :: rat) < of_int (sint v)" "(0 :: rat) < of_int (sint v + 1)" using v by (simp_all only: of_int_0_less_iff)
  then have pos: "\<not> of_int (sint v) / 2 < (0 :: rat)" "\<not> of_int (sint v + 1) / of_int 2 < (0 :: rat)"
    by (simp_all only: not_less zero_le_divide_iff of_int_numeral zero_le_numeral less_imp_le simp_thms)
  have "loan_to_value_cap v = round_to_nearest_minor_unit (of_int (sint v) / 2)"
    unfolding loan_to_value_cap_def half using False by simp
  also have "\<dots> = int64_of_float (of_int (sint v + 1) / of_int 2)"
    unfolding round_to_nearest_minor_unit_def up by (simp only: pos if_False)
  also have "\<dots> = word_of_int ((sint v + 1) div 2)"
    unfolding int64_of_float_def floor_divide_of_int_eq by (simp only: pos if_False)
  finally have "loan_to_value_cap v = word_of_int ((sint v + 1) div 2)" .
  then show ?thesis using v assms(2) by (simp add: sint_of_int64)
qed

lemma loan_cap_is_half_witness: "sint (loan_to_value_cap 101) = 51"
  using loan_cap_is_half [of 101] by (simp add: word_sle_eq)

section \<open>Gaps\<close>

text \<open>
  The two products do not know of each other: the same pledge backs a funding of its full value and a
  loan of half of it.
\<close>

theorem collateral_backs_two_loans:
  assumes "total_pledged_margin_value a (gw_pledges (cr_gateway s)) = 100"
    and "outstanding_funding (cr_funding s) a = 0" and "outstanding_loan (cr_loans s) a = 0"
  shows "outstanding_funding (cr_funding (fold credit_step
        [FundingRequest (\<lambda>a n. None) now a 100, LoanRequest (\<lambda>a n. None) a 50 12] s)) a = 100
    \<and> outstanding_loan (cr_loans (fold credit_step
        [FundingRequest (\<lambda>a n. None) now a 100, LoanRequest (\<lambda>a n. None) a 50 12] s)) a = 50"
proof -
  have "sint (loan_to_value_cap 100) = 50" using loan_cap_is_half [of 100] by (simp add: word_sle_eq)
  then have "sint (loan_to_value_cap 100) = sint (50 :: int64)" by simp
  then have cap: "loan_to_value_cap 100 = 50" by (rule signed_word_eqI)
  define b where "b = (cr_funding s)\<lparr>funding_principals := put a 100 (funding_principals (cr_funding s))\<rparr>"
  define l where "l = (cr_loans s)\<lparr>loan_principals := put a 50 (loan_principals (cr_loans s)),
    loan_tenures := put a 12 (loan_tenures (cr_loans s))\<rparr>"
  define s1 where "s1 = snd (funding_request_handler (\<lambda>a n. None) now a 100 s)"
  have "request_funding a 100 100 (cr_funding s) = Inr (100, b)"
    using assms(2) by (simp add: request_funding_def word_sle_eq word_sless_alt b_def)
  then have s1: "cr_funding s1 = record_disbursement_start_time a now b" "cr_loans s1 = cr_loans s"
    "gw_pledges (cr_gateway s1) = gw_pledges (cr_gateway s)"
    using assms(1) by (simp_all add: s1_def funding_request_handler_def Let_def)
  have "request_loan a 50 100 12 (cr_loans s) = Inr (50, l)"
    using assms(3) by (simp add: request_loan_def word_sle_eq word_sless_alt cap l_def)
  then have "cr_funding (snd (loan_request_handler (\<lambda>a n. None) a 50 12 s1)) = cr_funding s1"
    "cr_loans (snd (loan_request_handler (\<lambda>a n. None) a 50 12 s1)) = l"
    using assms(1) s1 by (simp_all add: loan_request_handler_def Let_def)
  then show ?thesis
    using s1 by (simp add: s1_def [symmetric] record_disbursement_start_time_def outstanding_funding_def
      outstanding_loan_def b_def l_def)
qed

text \<open>
  Unpledging looks at the utilized margin that an administrator has set, not at the funding outstanding
  against the pledge: the collateral of a funded account can be taken out.
\<close>

theorem funded_collateral_released:
  assumes "lookup_or 0 (utilized_margins (gw_pledges g)) a = 0"
    and "pledge_of a ins (gw_pledges g) = Some r" and "pledge_quantity r = 1"
    and "pledge_margin_value r = 100" and "total_pledged_margin_value a (gw_pledges g) = 100"
  shows "\<exists>p margin. unpledge_handler a ins 1 g = (Inr (100, margin), p)"
  using assms by (simp add: unpledge_handler_def unpledge_holding_def Let_def int64_div_def word_sless_alt)

end
