(* ===== verification/SecuritiesLending.thy ===== *)
theory SecuritiesLending
  imports MarginPledge PositionBook
begin

text \<open>
  The securities lending and borrowing desk,
  services/oms-gateway/internal/securitieslendingborrowing/securitiesLendingBorrowingDesk.go, with the lend
  handler of cmd/server/main.go, which reads the holding from the position book.
\<close>

section \<open>State and operations\<close>

record lending_record =
  lending_instrument :: string
  lent_amount :: uint64
  lending_price :: int64
  lending_fee :: int64

record borrowing_record =
  borrowing_instrument :: string
  borrowed_amount :: uint64
  borrowing_price :: int64
  borrowing_fee :: int64

record lending_desk =
  lendings :: "lending_record table table"
  borrowings :: "borrowing_record table table"

datatype desk_error =
    DeskQuantityMustBePositive | InsufficientUnlentHolding | NoLendingRecord | RecallExceedsLent
  | NoBorrowingRecord | ReturnExceedsBorrowed

definition new_desk :: lending_desk where
  "new_desk = \<lparr>lendings = [], borrowings = []\<rparr>"

definition lent_quantity :: "string \<Rightarrow> string \<Rightarrow> lending_desk \<Rightarrow> uint64" where
  "lent_quantity a ins d = (case nested_lookup (lendings d) a ins of None \<Rightarrow> 0 | Some r \<Rightarrow> lent_amount r)"

definition lend_security :: "string \<Rightarrow> string \<Rightarrow> uint64 \<Rightarrow> int64 \<Rightarrow> int64 \<Rightarrow> lending_desk \<Rightarrow>
    desk_error + lending_record \<times> lending_desk" where
  "lend_security a ins quantity price holding d =
    (if quantity = 0 then Inl DeskQuantityMustBePositive
     else let available = holding - lent_quantity a ins d
       in if available <s 0 \<or> available < quantity then Inl InsufficientUnlentHolding
          else let existing = (case nested_lookup (lendings d) a ins of
                   None \<Rightarrow> \<lparr>lending_instrument = ins, lent_amount = 0, lending_price = price, lending_fee = 0\<rparr>
                 | Some r \<Rightarrow> r);
                 r = existing\<lparr>lent_amount := lent_amount existing + quantity, lending_price := price\<rparr>
            in Inr (r, d\<lparr>lendings := nested_put a ins r (lendings d)\<rparr>))"

definition recall_lending :: "string \<Rightarrow> string \<Rightarrow> uint64 \<Rightarrow> lending_desk \<Rightarrow>
    desk_error + lending_record \<times> lending_desk" where
  "recall_lending a ins quantity d =
    (if quantity = 0 then Inl DeskQuantityMustBePositive
     else case nested_lookup (lendings d) a ins of
       None \<Rightarrow> Inl NoLendingRecord
     | Some existing \<Rightarrow>
         if lent_amount existing < quantity then Inl RecallExceedsLent
         else let r = existing\<lparr>lent_amount := lent_amount existing - quantity\<rparr>
           in Inr (r, d\<lparr>lendings := (if lent_amount r = 0 then put a (remove ins (lookup_or [] (lendings d) a)) (lendings d)
                else nested_put a ins r (lendings d))\<rparr>))"

definition borrow_security :: "string \<Rightarrow> string \<Rightarrow> uint64 \<Rightarrow> int64 \<Rightarrow> lending_desk \<Rightarrow>
    desk_error + borrowing_record \<times> lending_desk" where
  "borrow_security a ins quantity price d =
    (if quantity = 0 then Inl DeskQuantityMustBePositive
     else let existing = (case nested_lookup (borrowings d) a ins of
             None \<Rightarrow> \<lparr>borrowing_instrument = ins, borrowed_amount = 0, borrowing_price = price, borrowing_fee = 0\<rparr>
           | Some r \<Rightarrow> r);
           r = existing\<lparr>borrowed_amount := borrowed_amount existing + quantity, borrowing_price := price\<rparr>
       in Inr (r, d\<lparr>borrowings := nested_put a ins r (borrowings d)\<rparr>))"

definition return_borrowing :: "string \<Rightarrow> string \<Rightarrow> uint64 \<Rightarrow> lending_desk \<Rightarrow>
    desk_error + borrowing_record \<times> lending_desk" where
  "return_borrowing a ins quantity d =
    (if quantity = 0 then Inl DeskQuantityMustBePositive
     else case nested_lookup (borrowings d) a ins of
       None \<Rightarrow> Inl NoBorrowingRecord
     | Some existing \<Rightarrow>
         if borrowed_amount existing < quantity then Inl ReturnExceedsBorrowed
         else let r = existing\<lparr>borrowed_amount := borrowed_amount existing - quantity\<rparr>
           in Inr (r, d\<lparr>borrowings := (if borrowed_amount r = 0
                then put a (remove ins (lookup_or [] (borrowings d) a)) (borrowings d)
                else nested_put a ins r (borrowings d))\<rparr>))"

definition lending_records_for_account :: "string \<Rightarrow> lending_desk \<Rightarrow> lending_record table" where
  "lending_records_for_account a d = lookup_or [] (lendings d) a"

definition borrowing_records_for_account :: "string \<Rightarrow> lending_desk \<Rightarrow> borrowing_record table" where
  "borrowing_records_for_account a d = lookup_or [] (borrowings d) a"

text \<open>The rates are fractions stored in floats.\<close>

definition lending_fee_percent :: float64 where
  "lending_fee_percent = round_float (2 / 100)"

definition borrowing_fee_percent :: float64 where
  "borrowing_fee_percent = round_float (5 / 100)"

definition accrued_fee :: "int64 \<Rightarrow> float64 \<Rightarrow> int64 \<Rightarrow> int64" where
  "accrued_fee notional rate days =
    (if notional \<le>s 0 \<or> days \<le>s 0 then 0
     else round_to_nearest_minor_unit
       (float_div (float_mul (float_mul (float_of_int64 notional) rate) (float_of_int64 days)) 365))"

definition lend_handler :: "string \<Rightarrow> string \<Rightarrow> uint64 \<Rightarrow> int64 \<Rightarrow> position_book \<Rightarrow> lending_desk \<Rightarrow>
    desk_error + lending_record \<times> lending_desk" where
  "lend_handler a ins quantity price positions d =
    lend_security a ins quantity price (lookup_or 0 (positions_for_account a positions) ins) d"

section \<open>What is on loan\<close>

text \<open>Requests to the desk, a lending with the holding that its handler has read.\<close>

datatype desk_request =
    Lend string string uint64 int64 int64
  | Recall string string uint64
  | Borrow string string uint64 int64
  | ReturnBorrowed string string uint64

definition accepted :: "'e + 'r \<times> 's \<Rightarrow> bool" where
  "accepted result = (\<not> isl result)"

definition after :: "'e + 'r \<times> 's \<Rightarrow> 's \<Rightarrow> 's" where
  "after result s = (case result of Inl err \<Rightarrow> s | Inr (r, s') \<Rightarrow> s')"

fun desk_step :: "desk_request \<Rightarrow> lending_desk \<Rightarrow> lending_desk" where
  "desk_step (Lend a ins q price holding) d = after (lend_security a ins q price holding d) d"
| "desk_step (Recall a ins q) d = after (recall_lending a ins q d) d"
| "desk_step (Borrow a ins q price) d = after (borrow_security a ins q price d) d"
| "desk_step (ReturnBorrowed a ins q) d = after (return_borrowing a ins q d) d"

text \<open>What the accepted requests lent out and took back of a holding.\<close>

fun net_lent :: "string \<Rightarrow> string \<Rightarrow> desk_request list \<Rightarrow> lending_desk \<Rightarrow> int" where
  "net_lent a ins [] d = 0"
| "net_lent a ins (r # rs) d = (case r of
      Lend b i q price holding \<Rightarrow> if b = a \<and> i = ins \<and> accepted (lend_security b i q price holding d) then uint q else 0
    | Recall b i q \<Rightarrow> if b = a \<and> i = ins \<and> accepted (recall_lending b i q d) then - uint q else 0
    | _ \<Rightarrow> 0) + net_lent a ins rs (desk_step r d)"

fun holding_read :: "string \<Rightarrow> string \<Rightarrow> int64 \<Rightarrow> desk_request \<Rightarrow> bool" where
  "holding_read a ins h (Lend b i q price holding) = (b = a \<and> i = ins \<longrightarrow> holding = h)"
| "holding_read a ins h r = True"

lemma lent_put:
  "lent_quantity a ins (d\<lparr>lendings := nested_put b i r (lendings d)\<rparr>) =
    (if a = b \<and> ins = i then lent_amount r else lent_quantity a ins d)"
  by (simp add: lent_quantity_def)

lemma lent_remove:
  "lent_quantity a ins (d\<lparr>lendings := put b (remove i (lookup_or [] (lendings d) b)) (lendings d)\<rparr>) =
    (if a = b \<and> ins = i then 0 else lent_quantity a ins d)"
  by (auto simp: lent_quantity_def nested_lookup_def)

lemma lent_borrowings [simp]: "lent_quantity a ins (d\<lparr>borrowings := b\<rparr>) = lent_quantity a ins d"
  by (simp add: lent_quantity_def)

lemma lend_step:
  assumes "0 \<le> sint h" and "uint (lent_quantity a ins d) \<le> sint h"
    and "lend_security b i q price holding d = Inr (r, d')" and "b = a \<and> i = ins \<longrightarrow> holding = h"
  shows "uint (lent_quantity a ins d') = uint (lent_quantity a ins d) + (if b = a \<and> i = ins then uint q else 0)
    \<and> uint (lent_quantity a ins d') \<le> sint h"
proof (cases "b = a \<and> i = ins")
  case True
  let ?l = "lent_quantity a ins d"
  have l: "sint ?l = uint ?l" using assms(2) sint_bounds64 [of h] by (intro sint_eq_uint64) linarith
  have avail: "sint (h - ?l) = sint h - sint ?l"
    using assms(1,2) l sint_bounds64 [of h] uint_ge_0 [of ?l] by (intro sint_sub64) linarith+
  have lent: "lent_quantity a ins d' = ?l + q" and ok: "\<not> h - ?l <s 0" "\<not> h - ?l < q"
    using assms(3,4) True by (auto simp: lend_security_def Let_def lent_put lent_quantity_def split: if_splits option.splits)
  have "uint (h - ?l) = sint (h - ?l)"
    using ok(1) by (intro nonneg_int64 [symmetric]) (simp add: word_sless_alt)
  then have "uint q \<le> sint h - uint ?l"
    using ok(2) avail l by (simp add: word_less_def not_less)
  moreover from this have "uint (?l + q) = uint ?l + uint q"
    using sint_bounds64 [of h] by (intro uint_plus_simple_iff [THEN iffD1] ) (simp add: no_olen_add)
  ultimately show ?thesis using True lent by simp
next
  case False
  then show ?thesis
    using assms by (auto simp: lend_security_def Let_def lent_put split: if_splits)
qed

lemma recall_step:
  assumes "recall_lending b i q d = Inr (r, d')"
  shows "uint (lent_quantity a ins d') = uint (lent_quantity a ins d) - (if b = a \<and> i = ins then uint q else 0)"
proof -
  obtain e where e: "nested_lookup (lendings d) b i = Some e" and q: "q \<le> lent_amount e"
    and d': "d' = d\<lparr>lendings := (if lent_amount e - q = 0 then put b (remove i (lookup_or [] (lendings d) b)) (lendings d)
      else nested_put b i (e\<lparr>lent_amount := lent_amount e - q\<rparr>) (lendings d))\<rparr>"
    using assms by (auto simp: recall_lending_def Let_def not_less split: if_splits option.splits)
  have "lent_quantity a ins d' = (if a = b \<and> ins = i then lent_amount e - q else lent_quantity a ins d)"
    by (simp add: d' lent_put lent_remove)
  moreover have "uint (lent_amount e - q) = uint (lent_amount e) - uint q"
    using q by (simp add: uint_sub_if' word_le_def)
  moreover have "lent_quantity b i d = lent_amount e" by (simp add: lent_quantity_def e)
  ultimately show ?thesis by auto
qed

text \<open>
  The desk keeps count: through any run of requests, accepted or refused, in which the holding read for
  an account and a symbol stays the same, what is out on loan is what the accepted requests lent minus
  what they recalled, never negative and never more than the holding.
\<close>

theorem lendings_covered_by_holding:
  assumes "0 \<le>s h" and "list_all (holding_read a ins h) rs"
  shows "uint (lent_quantity a ins (fold desk_step rs new_desk)) = net_lent a ins rs new_desk
    \<and> uint (lent_quantity a ins (fold desk_step rs new_desk)) \<le> sint h"
proof -
  have h: "0 \<le> sint h" using assms(1) by (simp add: word_sle_eq)
  have run: "uint (lent_quantity a ins (fold desk_step rs d)) = uint (lent_quantity a ins d) + net_lent a ins rs d
      \<and> uint (lent_quantity a ins (fold desk_step rs d)) \<le> sint h"
    if "uint (lent_quantity a ins d) \<le> sint h" for d
    using that assms(2)
  proof (induction rs arbitrary: d)
    case (Cons r rs)
    have "uint (lent_quantity a ins (desk_step r d)) = uint (lent_quantity a ins d) + net_lent a ins [r] d
        \<and> uint (lent_quantity a ins (desk_step r d)) \<le> sint h"
    proof (cases r)
      case (Lend b i q price holding)
      show ?thesis
      proof (cases "lend_security b i q price holding d")
        case (Inl err)
        then show ?thesis using Cons(2) Lend by (simp add: after_def accepted_def)
      next
        case (Inr p)
        then obtain rec d' where "lend_security b i q price holding d = Inr (rec, d')" by (cases p) simp
        moreover from lend_step [OF h Cons(2) this] Cons(3) Lend
        have "uint (lent_quantity a ins d') = uint (lent_quantity a ins d) + (if b = a \<and> i = ins then uint q else 0)
            \<and> uint (lent_quantity a ins d') \<le> sint h" by simp
        ultimately show ?thesis using Lend by (simp add: after_def accepted_def)
      qed
    next
      case (Recall b i q)
      show ?thesis
      proof (cases "recall_lending b i q d")
        case (Inl err)
        then show ?thesis using Cons(2) Recall by (simp add: after_def accepted_def)
      next
        case (Inr p)
        then obtain rec d' where "recall_lending b i q d = Inr (rec, d')" by (cases p) simp
        moreover note left = recall_step [OF this, of a ins]
        moreover have "uint (lent_quantity a ins d') \<le> uint (lent_quantity a ins d)" unfolding left by simp
        with Cons(2) have "uint (lent_quantity a ins d') \<le> sint h" by linarith
        ultimately show ?thesis using Recall by (simp add: after_def accepted_def)
      qed
    next
      case (Borrow b i q price)
      then show ?thesis
        using Cons(2) by (auto simp: after_def borrow_security_def Let_def)
    next
      case (ReturnBorrowed b i q)
      then show ?thesis
        using Cons(2) by (auto simp: after_def return_borrowing_def Let_def split: option.splits)
    qed
    with Cons(1) [of "desk_step r d"] Cons(3) show ?case by simp
  qed simp
  have "lent_quantity a ins new_desk = 0" by (simp add: lent_quantity_def new_desk_def)
  with run [of new_desk] h show ?thesis by simp
qed

lemma lendings_covered_by_holding_witness:
  "uint (lent_quantity ''a'' ''X'' (fold desk_step [Lend ''a'' ''X'' 5 100 8, Lend ''a'' ''X'' 5 100 8, Recall ''a'' ''X'' 2]
    new_desk)) \<le> 8"
  using lendings_covered_by_holding [of 8 "''a''" "''X''" "[Lend ''a'' ''X'' 5 100 8, Lend ''a'' ''X'' 5 100 8,
    Recall ''a'' ''X'' 2]"] by (simp add: word_sle_eq)

text \<open>Borrowing is not bounded, and its counter wraps: two borrows of half the range leave nothing to return.\<close>

theorem borrowed_quantity_wraps:
  assumes "borrow_security a ins (2 ^ 63) price new_desk = Inr (r1, d1)"
    and "borrow_security a ins (2 ^ 63) price d1 = Inr (r2, d2)"
  shows "borrowed_amount r2 = 0"
  using assms by (auto simp: borrow_security_def new_desk_def Let_def)

end
