(* ===== verification/ExecutionAlgos.thy ===== *)
theory ExecutionAlgos
  imports GoFloat
begin

text \<open>
  The execution algorithms that slice a large order,
  services/oms-gateway/internal/executionalgos/executionAlgoScheduler.go: TWAP and VWAP schedules by the
  method of largest remainders, the scheduler that releases their slices, and the POV scheduler. A
  value \<open>None\<close> of a building function is a panic: an index out of range.
\<close>

section \<open>Orders and slices\<close>

record parent_order =
  parent_instrument :: string
  parent_is_buy :: bool
  parent_total_quantity :: uint64
  parent_start :: instant
  parent_end :: instant

datatype algo_type = AlgoTwap | AlgoVwap | AlgoPov

record child_slice =
  slice_algo :: algo_type
  slice_index :: int
  slice_time :: instant
  slice_quantity :: uint64

datatype algo_error =
    ZeroTotalQuantity | EndTimeNotAfterStartTime | InvalidNumberOfSlices | EmptyVolumeCurve
  | NonPositiveVolumeCurveWeightSum | NegativeVolumeCurveWeight | NonPositiveParticipationRate | ZeroMaxClipSize
  | CumulativeVolumeWentBackwards uint64 uint64

definition validate_parent_order :: "parent_order \<Rightarrow> algo_error option" where
  "validate_parent_order p = (if parent_total_quantity p = 0 then Some ZeroTotalQuantity else None)"

section \<open>Largest remainders\<close>

definition exact_shares :: "uint64 \<Rightarrow> float64 list \<Rightarrow> float64 list" where
  "exact_shares goal weights = (let weight_sum = foldl float_add 0 weights
     in map (\<lambda>w. float_mul (float_div w weight_sum) (float_of_uint64 goal)) weights)"

definition remainder_order :: "float64 list \<Rightarrow> nat list" where
  "remainder_order shares = map fst (sort_key (\<lambda>r. - snd r)
     (zip [0..<length shares] (map (\<lambda>x. float_sub x (float_of_uint64 (uint64_of_float x))) shares)))"

definition distribute_by_largest_remainder :: "uint64 \<Rightarrow> float64 list \<Rightarrow> uint64 list option" where
  "distribute_by_largest_remainder goal weights =
    (let shares = exact_shares goal weights;
         bases = map uint64_of_float shares;
         leftover = goal - sum_list bases;
         order = remainder_order shares
     in if length order < unat leftover then None
        else Some (foldl (\<lambda>qs i. qs[i := qs ! i + 1]) bases (take (unat leftover) order)))"

section \<open>TWAP and VWAP schedules\<close>

definition twap_time :: "parent_order \<Rightarrow> int64 \<Rightarrow> nat \<Rightarrow> instant" where
  "twap_time p n i = (let interval = int64_div (time_sub (parent_end p) (parent_start p)) (n - 1)
     in if int i = sint n - 1 then parent_end p else time_add (parent_start p) (of_nat i * interval))"

definition build_twap_schedule :: "parent_order \<Rightarrow> int64 \<Rightarrow> (algo_error + child_slice list) option" where
  "build_twap_schedule p n =
    (case validate_parent_order p of
       Some err \<Rightarrow> Some (Inl err)
     | None \<Rightarrow>
         if n \<le>s 0 then Some (Inl InvalidNumberOfSlices)
         else if \<not> time_after (parent_end p) (parent_start p) then Some (Inl EndTimeNotAfterStartTime)
         else map_option (\<lambda>quantities. Inr (
             if n = 1 then [\<lparr>slice_algo = AlgoTwap, slice_index = 0, slice_time = parent_start p,
               slice_quantity = quantities ! 0\<rparr>]
             else map (\<lambda>i. \<lparr>slice_algo = AlgoTwap, slice_index = int i, slice_time = twap_time p n i,
               slice_quantity = quantities ! i\<rparr>) [0..<nat (sint n)]))
           (distribute_by_largest_remainder (parent_total_quantity p) (replicate (nat (sint n)) 1)))"

record volume_curve_point =
  bucket_time :: instant
  bucket_weight :: float64

definition build_vwap_schedule :: "parent_order \<Rightarrow> volume_curve_point list \<Rightarrow> (algo_error + child_slice list) option" where
  "build_vwap_schedule p curve =
    (case validate_parent_order p of
       Some err \<Rightarrow> Some (Inl err)
     | None \<Rightarrow>
         let weights = map bucket_weight curve in
         if curve = [] then Some (Inl EmptyVolumeCurve)
         else if list_ex (\<lambda>w. w < 0) weights then Some (Inl NegativeVolumeCurveWeight)
         else if foldl float_add 0 weights \<le> 0 then Some (Inl NonPositiveVolumeCurveWeightSum)
         else map_option (\<lambda>quantities.
             let slices = map (\<lambda>(i, point). \<lparr>slice_algo = AlgoVwap, slice_index = int i, slice_time = bucket_time point,
                   slice_quantity = quantities ! i\<rparr>) (zip [0..<length curve] curve);
                 sorted_slices = sort_key slice_time slices
             in Inr (map (\<lambda>(i, s). s\<lparr>slice_index := int i\<rparr>) (zip [0..<length sorted_slices] sorted_slices)))
           (distribute_by_largest_remainder (parent_total_quantity p) weights))"

section \<open>Releasing the slices of a schedule\<close>

record slice_scheduler =
  scheduler_parent :: parent_order
  scheduler_slices :: "child_slice list"
  released_indices :: "int list"

definition new_scheduler :: "parent_order \<Rightarrow> child_slice list \<Rightarrow> slice_scheduler" where
  "new_scheduler p slices = \<lparr>scheduler_parent = p, scheduler_slices = slices, released_indices = []\<rparr>"

fun poll_slices :: "instant \<Rightarrow> child_slice list \<Rightarrow> int list \<Rightarrow> child_slice list \<times> int list" where
  "poll_slices now [] released = ([], released)"
| "poll_slices now (s # ss) released =
    (if slice_index s \<in> set released \<or> time_after (slice_time s) now then poll_slices now ss released
     else case poll_slices now ss (slice_index s # released) of (due, released') \<Rightarrow> (s # due, released'))"

definition poll_due_slices :: "instant \<Rightarrow> slice_scheduler \<Rightarrow> child_slice list \<times> slice_scheduler" where
  "poll_due_slices now sch = (case poll_slices now (scheduler_slices sch) (released_indices sch) of
     (due, released) \<Rightarrow> (due, sch\<lparr>released_indices := released\<rparr>))"

definition schedule_is_complete :: "slice_scheduler \<Rightarrow> bool" where
  "schedule_is_complete sch = (length (released_indices sch) = length (scheduler_slices sch))"

definition remaining_slice_quantity :: "slice_scheduler \<Rightarrow> uint64" where
  "remaining_slice_quantity sch = sum_list (map slice_quantity
     (filter (\<lambda>s. slice_index s \<notin> set (released_indices sch)) (scheduler_slices sch)))"

section \<open>Percentage of volume\<close>

record pov_config =
  pov_participation_rate :: float64
  pov_max_clip :: uint64

record pov_scheduler =
  pov_parent :: parent_order
  pov_configuration :: pov_config
  pov_remaining :: uint64
  pov_last_volume :: uint64
  pov_have_observed :: bool
  pov_next_index :: int

definition new_pov_scheduler :: "parent_order \<Rightarrow> pov_config \<Rightarrow> algo_error + pov_scheduler" where
  "new_pov_scheduler p c =
    (case validate_parent_order p of
       Some err \<Rightarrow> Inl err
     | None \<Rightarrow>
         if pov_participation_rate c \<le> 0 then Inl NonPositiveParticipationRate
         else if pov_max_clip c = 0 then Inl ZeroMaxClipSize
         else Inr \<lparr>pov_parent = p, pov_configuration = c, pov_remaining = parent_total_quantity p,
           pov_last_volume = 0, pov_have_observed = False, pov_next_index = 0\<rparr>)"

definition pov_slice_quantity :: "uint64 \<Rightarrow> pov_scheduler \<Rightarrow> uint64" where
  "pov_slice_quantity delta s =
    (let raw = uint64_of_float (float_mul (float_of_uint64 delta) (pov_participation_rate (pov_configuration s)));
         clipped = (if pov_max_clip (pov_configuration s) < raw then pov_max_clip (pov_configuration s) else raw)
     in if pov_remaining s < clipped then pov_remaining s else clipped)"

definition on_volume_observation :: "instant \<Rightarrow> uint64 \<Rightarrow> pov_scheduler \<Rightarrow>
    (algo_error + child_slice option) \<times> pov_scheduler" where
  "on_volume_observation now volume s =
    (if \<not> pov_have_observed s then (Inr None, s\<lparr>pov_have_observed := True, pov_last_volume := volume\<rparr>)
     else if volume < pov_last_volume s then (Inl (CumulativeVolumeWentBackwards (pov_last_volume s) volume), s)
     else let q = pov_slice_quantity (volume - pov_last_volume s) s; s1 = s\<lparr>pov_last_volume := volume\<rparr>
       in if pov_remaining s = 0 \<or> q = 0 then (Inr None, s1)
          else (Inr (Some \<lparr>slice_algo = AlgoPov, slice_index = pov_next_index s, slice_time = now, slice_quantity = q\<rparr>),
            s1\<lparr>pov_remaining := pov_remaining s - q, pov_next_index := pov_next_index s + 1\<rparr>))"

section \<open>Nothing is lost to rounding\<close>

lemma remainder_order_perm: "mset (remainder_order shares) = mset [0..<length shares]"
proof -
  have "mset (remainder_order shares) = mset (map fst (zip [0..<length shares]
      (map (\<lambda>x. float_sub x (float_of_uint64 (uint64_of_float x))) shares)))"
    unfolding remainder_order_def mset_map mset_sort by (rule refl)
  then show ?thesis by simp
qed

lemma remainder_order_props:
  "set (remainder_order shares) = {0..<length shares}" "distinct (remainder_order shares)"
  "length (remainder_order shares) = length shares"
  using mset_eq_setD [OF remainder_order_perm [of shares]] mset_eq_imp_distinct_iff [OF remainder_order_perm [of shares]]
    mset_eq_length [OF remainder_order_perm [of shares]] by simp_all

lemma sum_list_increment: "i < length qs \<Longrightarrow> sum_list (qs[i := qs ! i + 1]) = sum_list qs + (1 :: uint64)"
proof (induction qs arbitrary: i)
  case (Cons q qs)
  then show ?case by (cases i) (simp_all add: add.assoc)
qed simp

lemma increments:
  "set is \<subseteq> {0..<length qs} \<Longrightarrow> sum_list (foldl (\<lambda>qs i. qs[i := qs ! i + 1]) qs is) = sum_list qs + (of_nat (length is) :: uint64)"
  by (induction "is" arbitrary: qs) (auto simp: sum_list_increment)

lemma increments_length [simp]: "length (foldl (\<lambda>qs i. qs[i := qs ! i + (1 :: uint64)]) qs is) = length qs"
  by (induction "is" arbitrary: qs) auto

lemma increments_nth:
  "distinct is \<Longrightarrow> set is \<subseteq> {0..<length qs} \<Longrightarrow> j < length qs \<Longrightarrow>
    foldl (\<lambda>qs i. qs[i := qs ! i + (1 :: uint64)]) qs is ! j = qs ! j + (if j \<in> set is then 1 else 0)"
  by (induction "is" arbitrary: qs) (auto simp: nth_list_update)

lemma exact_shares_length [simp]: "length (exact_shares goal weights) = length weights"
  by (simp add: exact_shares_def Let_def)

lemma distribute_sum:
  assumes "distribute_by_largest_remainder goal weights = Some qs"
  shows "sum_list qs = goal \<and> length qs = length weights"
proof -
  define shares where "shares = exact_shares goal weights"
  define bases where "bases = map uint64_of_float shares"
  define k where "k = unat (goal - sum_list bases)"
  have len: "length shares = length weights" by (simp add: shares_def)
  have k: "k \<le> length weights"
    and qs: "qs = foldl (\<lambda>qs i. qs[i := qs ! i + 1]) bases (take k (remainder_order shares))"
    using assms by (auto simp: distribute_by_largest_remainder_def Let_def shares_def bases_def k_def
      remainder_order_props split: if_splits)
  have "set (take k (remainder_order shares)) \<subseteq> {0..<length bases}"
    using set_take_subset [of k "remainder_order shares"] by (simp add: remainder_order_props bases_def)
  from increments [OF this] have "sum_list qs = sum_list bases + of_nat k"
    using k by (simp add: qs remainder_order_props len)
  then show ?thesis by (simp add: k_def qs) (simp add: bases_def len)
qed

lemma zip_nth_map: "map (\<lambda>(i, x). qs ! i) (zip [0..<length xs] xs) = map ((!) qs) [0..<length xs]"
  by (rule nth_equalityI) simp_all

lemma zip_upt_nths: "length qs = length xs \<Longrightarrow> map (\<lambda>(i, x). qs ! i) (zip [0..<length xs] xs) = qs"
  unfolding zip_nth_map by (metis map_nth)

text \<open>
  C28. A schedule loses no share and makes none up: whenever a TWAP or VWAP schedule is built, its slices are
  numbered from zero and their quantities add up to the parent order.
\<close>

theorem schedule_sums_to_parent:
  assumes "build_twap_schedule p n = Some (Inr slices) \<or> build_vwap_schedule p curve = Some (Inr slices)"
  shows "sum_list (map slice_quantity slices) = parent_total_quantity p
    \<and> map slice_index slices = map int [0..<length slices]"
  using assms
proof
  assume b: "build_twap_schedule p n = Some (Inr slices)"
  then obtain qs where d: "distribute_by_largest_remainder (parent_total_quantity p) (replicate (nat (sint n)) 1) = Some qs"
    and pos: "0 < sint n"
    by (auto simp: build_twap_schedule_def word_sle_eq split: option.splits if_splits)
  note qs = distribute_sum [OF d]
  show ?thesis
  proof (cases "n = 1")
    case True
    with b d have "slices = [\<lparr>slice_algo = AlgoTwap, slice_index = 0, slice_time = parent_start p, slice_quantity = qs ! 0\<rparr>]"
      by (auto simp: build_twap_schedule_def split: option.splits if_splits)
    moreover from qs True obtain q where "qs = [q]" by (auto simp: length_Suc_conv)
    ultimately show ?thesis using qs True by simp
  next
    case False
    with b d have s: "slices = map (\<lambda>i. \<lparr>slice_algo = AlgoTwap, slice_index = int i, slice_time = twap_time p n i,
        slice_quantity = qs ! i\<rparr>) [0..<nat (sint n)]"
      by (auto simp: build_twap_schedule_def split: option.splits if_splits)
    have "map slice_quantity slices = qs"
      using qs by (simp add: s comp_def) (metis map_nth)
    then show ?thesis using qs by (simp add: s comp_def)
  qed
next
  assume b: "build_vwap_schedule p curve = Some (Inr slices)"
  then obtain qs where d: "distribute_by_largest_remainder (parent_total_quantity p) (map bucket_weight curve) = Some qs"
    by (auto simp: build_vwap_schedule_def Let_def split: option.splits if_splits)
  note qs = distribute_sum [OF d]
  define raw where "raw = map (\<lambda>(i, point). \<lparr>slice_algo = AlgoVwap, slice_index = int i, slice_time = bucket_time point,
    slice_quantity = qs ! i\<rparr>) (zip [0..<length curve] curve)"
  define sorted_slices where "sorted_slices = sort_key slice_time raw"
  from b d have s: "slices = map (\<lambda>(i, s). s\<lparr>slice_index := int i\<rparr>) (zip [0..<length sorted_slices] sorted_slices)"
    by (auto simp: build_vwap_schedule_def Let_def raw_def sorted_slices_def split: option.splits if_splits)
  have "map slice_quantity slices = map slice_quantity sorted_slices"
    unfolding s by (rule nth_equalityI) simp_all
  then have "sum_list (map slice_quantity slices) = sum_mset (mset (map slice_quantity sorted_slices))"
    by (simp only: sum_mset_sum_list)
  also have "\<dots> = sum_mset (mset (map slice_quantity raw))" by (simp add: sorted_slices_def)
  also have "map slice_quantity raw = qs"
    using zip_upt_nths [of qs curve] qs by (simp add: raw_def comp_def case_prod_unfold)
  finally have "sum_list (map slice_quantity slices) = parent_total_quantity p"
    using qs by (simp add: sum_mset_sum_list)
  moreover have "map slice_index slices = map int [0..<length slices]"
    unfolding s by (rule nth_equalityI) simp_all
  ultimately show ?thesis ..
qed

section \<open>Equal slices\<close>

lemma unit_weight_sum: "n < 2 ^ 53 \<Longrightarrow> foldl float_add 0 (replicate n 1) = of_nat n"
proof (induction n)
  case (Suc n)
  have "foldl float_add 0 (replicate (Suc n) 1) = float_add (foldl float_add 0 (replicate n 1)) 1"
    by (simp only: replicate_append_same [symmetric] replicate_Suc foldl_append foldl.simps)
  also have "foldl float_add 0 (replicate n 1) = of_nat n" using Suc by simp
  also have "float_add (of_nat n) 1 = round_float (of_int (int (Suc n)))"
    by (simp add: float_add_def add.commute)
  also have "\<dots> = of_int (int (Suc n))" by (rule round_float_int) (use Suc(2) in simp)
  finally show ?case by simp
qed simp

text \<open>The float share of one of \<open>n\<close> equal slices is within \<open>1/n\<close> of the exact share.\<close>

lemma equal_share_bounds:
  assumes "0 < n" and "n < 2 ^ 51" and "0 < t" and "t < 2 ^ 51"
  defines "y \<equiv> float_mul (float_div 1 (of_nat n)) (of_nat t)"
  shows "0 \<le> y" and "of_nat n * y < of_nat t + 1" and "of_nat t - 1 < of_nat n * y"
proof -
  define u :: rat where "u = 2 powi (- 53)"
  define x where "x = float_div 1 (of_nat n)"
  have less: "(of_nat k :: rat) < 2 ^ 51" if "k < 2 ^ 51" for k
  proof -
    have "(of_nat k :: rat) < of_nat (2 ^ 51)" using that by (simp only: of_nat_less_iff)
    then show ?thesis by simp
  qed
  have n: "(1 :: rat) \<le> of_nat n" "(of_nat n :: rat) < 2 ^ 51" and t: "(1 :: rat) \<le> of_nat t" "(of_nat t :: rat) < 2 ^ 51"
    using assms(1-4) less by simp_all
  have u: "0 < u" "u = 1 / 2 ^ 53" by (simp_all add: u_def power_int_minus field_simps)
  have small: "(2 :: rat) powi (- 1022) \<le> 2 powi (- 60)" by (intro power_int_increasing) auto
  have tiny: "(2 :: rat) powi (- 60) = 1 / 2 ^ 60" by (simp add: power_int_minus field_simps)
  have "(2 :: rat) powi (- 60) \<le> 1 / of_nat n"
    unfolding tiny using n by (simp add: field_simps)
  with small round_float_error [of "1 / of_nat n"] have x: "\<bar>x - 1 / of_nat n\<bar> \<le> 1 / of_nat n * u"
    by (simp add: x_def float_div_def u_def)
  have nx: "\<bar>of_nat n * x - 1\<bar> \<le> u"
  proof -
    have "of_nat n * x - 1 = of_nat n * (x - 1 / of_nat n)"
      using n by (simp add: algebra_simps)
    then have "\<bar>of_nat n * x - 1\<bar> = of_nat n * \<bar>x - 1 / of_nat n\<bar>"
      by (simp add: abs_mult)
    also have "\<dots> \<le> of_nat n * (1 / of_nat n * u)" using n x by (intro mult_left_mono) auto
    finally show ?thesis using n by simp
  qed
  have "1 / 2 ^ 60 * of_nat n \<le> (1 / 2 :: rat)" using n by simp
  moreover have "u \<le> 1 / 2" by (simp add: u(2))
  with nx have "1 / 2 \<le> of_nat n * x" by linarith
  ultimately have "1 / 2 ^ 60 * of_nat n \<le> of_nat n * x" by linarith
  then have xlow: "1 / 2 ^ 60 \<le> x" using n by (simp add: field_simps)
  have "1 / 2 ^ 60 * 1 \<le> x * of_nat t" using xlow t by (intro mult_mono) auto
  with small tiny round_float_error [of "x * of_nat t"] have y: "\<bar>y - x * of_nat t\<bar> \<le> x * of_nat t * u"
    by (simp add: y_def float_mul_def u_def x_def [symmetric])
  have xt: "of_nat n * (x * of_nat t) \<le> 2 * of_nat t" "\<bar>of_nat n * (x * of_nat t) - of_nat t\<bar> \<le> u * of_nat t"
  proof -
    have "of_nat n * (x * of_nat t) - of_nat t = (of_nat n * x - 1) * of_nat t" by (simp add: algebra_simps)
    then show e: "\<bar>of_nat n * (x * of_nat t) - of_nat t\<bar> \<le> u * of_nat t"
      using nx t by (simp add: abs_mult mult_right_mono)
    moreover have "u * of_nat t \<le> 1 * of_nat t" using u t by (intro mult_right_mono) auto
    ultimately show "of_nat n * (x * of_nat t) \<le> 2 * of_nat t" by linarith
  qed
  have "\<bar>of_nat n * y - of_nat n * (x * of_nat t)\<bar> = of_nat n * \<bar>y - x * of_nat t\<bar>"
    by (simp add: abs_mult flip: right_diff_distrib)
  also have "\<dots> \<le> of_nat n * (x * of_nat t * u)" using n y by (intro mult_left_mono) auto
  also have "\<dots> \<le> 2 * of_nat t * u"
    using mult_right_mono [OF xt(1), of u] u by (simp add: mult_ac)
  finally have "\<bar>of_nat n * y - of_nat t\<bar> \<le> 3 * (u * of_nat t)"
    using xt(2) by (simp add: mult.commute)
  moreover have "3 * (u * of_nat t) < 1" unfolding u(2) using t by simp
  ultimately show "of_nat n * y < of_nat t + 1" and "of_nat t - 1 < of_nat n * y" by linarith+
  show "0 \<le> y" using xlow t by (simp add: y_def float_mul_def x_def [symmetric] round_float_nonneg)
qed

lemma unat_sum_list:
  "sum_list (map unat (qs :: uint64 list)) < 2 ^ 64 \<Longrightarrow> unat (sum_list qs) = sum_list (map unat qs)"
proof (induction qs)
  case (Cons q qs)
  then have "unat q + unat (sum_list qs) < 2 ^ 64" by simp
  then show ?case using Cons by (simp add: unat_add_lem [where 'a = 64, THEN iffD1])
qed simp

lemma equal_bases:
  assumes "0 < n" and "n < 2 ^ 51" and "0 < t" and "t < 2 ^ 51"
  defines "b \<equiv> nat \<lfloor>float_mul (float_div 1 (of_nat n)) (of_nat t)\<rfloor>"
  shows "n * b \<le> t \<and> t \<le> n * (b + 1) \<and> b \<le> t"
proof -
  define y where "y = float_mul (float_div 1 (of_nat n)) (of_nat t)"
  note y = equal_share_bounds [OF assms(1-4), folded y_def]
  have b: "of_nat b = (of_int \<lfloor>y\<rfloor> :: rat)" using y(1) by (simp add: b_def y_def of_nat_nat)
  have "of_nat (n * b) \<le> of_nat n * y"
    unfolding of_nat_mult b by (intro mult_left_mono of_int_floor_le) simp
  with y(2) have "(of_nat (n * b) :: rat) < of_nat (t + 1)" by simp
  then have nb: "n * b \<le> t" by (simp only: of_nat_less_iff)
  have "of_nat n * y \<le> of_nat n * (of_int \<lfloor>y\<rfloor> + 1)" by (intro mult_left_mono) (auto, linarith)
  with y(3) b have "(of_nat t :: rat) < of_nat (n * (b + 1) + 1)" by (simp add: algebra_simps)
  then have "t \<le> n * (b + 1)" by (simp only: of_nat_less_iff)
  moreover have "b \<le> t" using nb assms(1) by (metis le_trans mult_le_mono1 nat_mult_1 Suc_leI One_nat_def)
  ultimately show ?thesis using nb by simp
qed

lemma equal_weights_distribution:
  assumes "0 < n" and "n < 2 ^ 51" and "q \<noteq> 0" and "unat q < 2 ^ 51"
  obtains qs where "distribute_by_largest_remainder q (replicate n 1) = Some qs"
    and "sum_list (map unat qs) = unat q"
    and "list_all (\<lambda>x. unat q div n \<le> unat x \<and> unat x \<le> unat q div n + 1) qs"
proof -
  define t where "t = unat q"
  define y where "y = float_mul (float_div 1 (of_nat n)) (of_nat t)"
  define b where "b = nat \<lfloor>y\<rfloor>"
  have t: "0 < t" "t < 2 ^ 51" using assms(3,4) by (simp_all add: t_def unat_gt_0)
  note eb = equal_bases [OF assms(1,2) t, folded y_def b_def]
  note y = equal_share_bounds(1) [OF assms(1,2) t, folded y_def]
  have "float_of_uint64 q = of_nat t"
  proof -
    have u: "uint q = int t" by (simp add: t_def)
    have "round_float (of_int (int t)) = of_int (int t)" by (rule round_float_int) (use t in simp)
    then show ?thesis unfolding float_of_uint64_def u by simp
  qed
  then have shares: "exact_shares q (replicate n 1) = replicate n y"
    using assms(2) by (simp add: exact_shares_def unit_weight_sum map_replicate_const Let_def y_def)
  have base: "uint64_of_float y = of_nat b"
    using y by (simp add: uint64_of_float_def b_def)
  have "sum_list (map uint64_of_float (replicate n y)) = of_nat (n * b)"
    by (simp add: base sum_list_replicate)
  moreover have "q = of_nat t" by (simp add: t_def)
  ultimately have left: "unat (q - sum_list (map uint64_of_float (replicate n y))) = t - n * b"
    using eb t by (simp add: of_nat_diff [symmetric] unat_of_nat64 del: of_nat_mult of_nat_diff)
  have k: "t - n * b \<le> n" using eb by (simp add: le_diff_conv add.commute)
  define ix where "ix = take (t - n * b) (remainder_order (replicate n y))"
  define qs where "qs = foldl (\<lambda>qs i. qs[i := qs ! i + (1 :: uint64)]) (replicate n (of_nat b)) ix"
  have d: "distribute_by_largest_remainder q (replicate n 1) = Some qs"
    using k left by (simp add: distribute_by_largest_remainder_def shares Let_def remainder_order_props not_less
      qs_def ix_def base)
  have ix: "distinct ix" "set ix \<subseteq> {0..<n}" "length ix = t - n * b"
    using set_take_subset [of "t - n * b" "remainder_order (replicate n y)"] k
    by (simp_all add: ix_def remainder_order_props)
  have bb: "b + 1 < 2 ^ 52" using eb t by simp
  have len: "length qs = n" by (simp add: qs_def)
  have nth: "unat (qs ! j) = b + (if j \<in> set ix then 1 else 0)" if "j < n" for j
  proof -
    have "qs ! j = of_nat (b + (if j \<in> set ix then 1 else 0))"
      using increments_nth [OF ix(1), of "replicate n (of_nat b)" j] ix(2) that by (simp add: qs_def)
    moreover have "b + (if j \<in> set ix then 1 else 0) < 2 ^ 64" using bb by simp
    ultimately show ?thesis by (simp only: unat_of_nat64)
  qed
  have all: "list_all (\<lambda>x. unat q div n \<le> unat x \<and> unat x \<le> unat q div n + 1) qs"
  proof -
    have "unat q div n \<le> unat (qs ! j) \<and> unat (qs ! j) \<le> unat q div n + 1" if j: "j < n" for j
    proof (cases "t = n * (b + 1)")
      case True
      then have "set ix = {0..<n}"
        using ix by (metis card_atLeastLessThan card_subset_eq diff_zero distinct_card finite_atLeastLessThan
          add_diff_cancel_left' nat_distrib(2) nat_mult_1_right)
      then show ?thesis using nth [OF j] j True assms(1) by (simp flip: t_def)
    next
      case False
      then have "t div n = b" using eb assms(1) by (intro div_nat_eqI) (auto simp: algebra_simps)
      then show ?thesis using nth [OF j] by (simp flip: t_def)
    qed
    then show ?thesis by (simp add: list_all_length len)
  qed
  have "sum_list (map unat qs) \<le> n * (b + 1)"
  proof -
    have "sum_list (map unat qs) \<le> sum_list (map (\<lambda>x. b + 1) qs)"
      using nth by (intro sum_list_mono) (auto simp: in_set_conv_nth len)
    then show ?thesis by (simp add: sum_list_triv len)
  qed
  also have "\<dots> < 2 ^ 64" using eb t assms(2) by (simp add: algebra_simps)
  finally have "sum_list (map unat qs) = unat q"
    using unat_sum_list [of qs] distribute_sum [OF d] by simp
  from that [OF d this all] show thesis .
qed

text \<open>
  An order split by time is split evenly: below \<open>2 ^ 51\<close> shares and slices, a TWAP schedule is always
  built, it has as many slices as asked for, each slice is the integer quotient of the order by the
  number of slices or one more, and the slices add up to the order without wrapping.
\<close>

theorem twap_slices_even:
  assumes "0 <s n" and "sint n < 2 ^ 51" and "parent_total_quantity p \<noteq> 0"
    and "unat (parent_total_quantity p) < 2 ^ 51" and "parent_start p < parent_end p"
  shows "\<exists>slices. build_twap_schedule p n = Some (Inr slices) \<and> length slices = nat (sint n)
    \<and> sum_list (map (\<lambda>s. unat (slice_quantity s)) slices) = unat (parent_total_quantity p)
    \<and> list_all (\<lambda>s. unat (parent_total_quantity p) div nat (sint n) \<le> unat (slice_quantity s)
        \<and> unat (slice_quantity s) \<le> unat (parent_total_quantity p) div nat (sint n) + 1) slices"
proof -
  have n: "0 < sint n" "0 < nat (sint n)" "nat (sint n) < 2 ^ 51"
    using assms(1,2) by (simp_all add: word_sless_alt nat_less_iff)
  obtain qs where d: "distribute_by_largest_remainder (parent_total_quantity p) (replicate (nat (sint n)) 1) = Some qs"
    and sum: "sum_list (map unat qs) = unat (parent_total_quantity p)"
    and all: "list_all (\<lambda>x. unat (parent_total_quantity p) div nat (sint n) \<le> unat x
      \<and> unat x \<le> unat (parent_total_quantity p) div nat (sint n) + 1) qs"
    by (rule equal_weights_distribution [OF n(2,3) assms(3,4)])
  define slices where "slices = (if n = 1 then [\<lparr>slice_algo = AlgoTwap, slice_index = 0, slice_time = parent_start p,
      slice_quantity = qs ! 0\<rparr>]
    else map (\<lambda>i. \<lparr>slice_algo = AlgoTwap, slice_index = int i, slice_time = twap_time p n i,
      slice_quantity = qs ! i\<rparr>) [0..<nat (sint n)])"
  have b: "build_twap_schedule p n = Some (Inr slices)"
    using n(1) assms(3,5) d by (simp add: build_twap_schedule_def validate_parent_order_def word_sle_eq time_after_def
      slices_def)
  have len: "length qs = nat (sint n)" using distribute_sum [OF d] by simp
  have q: "map slice_quantity slices = qs"
  proof (cases "n = 1")
    case True
    then have "length qs = 1" using len by simp
    then obtain x where "qs = [x]" by (auto simp: length_Suc_conv)
    then show ?thesis using True by (simp add: slices_def)
  next
    case False
    then show ?thesis using len by (simp add: slices_def comp_def) (metis map_nth)
  qed
  have m: "map (\<lambda>s. unat (slice_quantity s)) slices = map unat qs" unfolding q [symmetric] by simp
  have "sum_list (map (\<lambda>s. unat (slice_quantity s)) slices) = unat (parent_total_quantity p)"
    unfolding m by (rule sum)
  moreover have "list_all (\<lambda>s. unat (parent_total_quantity p) div nat (sint n) \<le> unat (slice_quantity s)
        \<and> unat (slice_quantity s) \<le> unat (parent_total_quantity p) div nat (sint n) + 1) slices"
    using all unfolding q [symmetric] by (simp add: list.pred_map comp_def)
  moreover have "length slices = nat (sint n)" using len unfolding q [symmetric] by simp
  ultimately show ?thesis using b by blast
qed

definition demo_parent :: parent_order where
  "demo_parent = \<lparr>parent_instrument = ''X'', parent_is_buy = True, parent_total_quantity = 10, parent_start = 0,
     parent_end = 100\<rparr>"

lemma twap_slices_even_witness:
  "\<exists>slices. build_twap_schedule demo_parent 3 = Some (Inr slices) \<and> length slices = 3
    \<and> sum_list (map (\<lambda>s. unat (slice_quantity s)) slices) = 10"
  using twap_slices_even [of 3 demo_parent] by (auto simp: demo_parent_def word_sless_alt)

lemma schedule_sums_to_parent_witness:
  "\<exists>slices. build_twap_schedule demo_parent 1 = Some (Inr slices) \<and> sum_list (map slice_quantity slices) = 10"
proof -
  obtain qs where "distribute_by_largest_remainder 10 (replicate 1 1) = Some qs"
    using equal_weights_distribution [of 1 10] by auto
  then obtain slices where s: "build_twap_schedule demo_parent 1 = Some (Inr slices)"
    by (simp add: build_twap_schedule_def demo_parent_def validate_parent_order_def word_sle_eq time_after_def)
  then show ?thesis
    using schedule_sums_to_parent [of demo_parent 1 slices "[]"] by (simp add: demo_parent_def)
qed

text \<open>
  A share count that the float cannot hold is rounded up, the first pass hands out more than there is,
  the unsigned rest wraps around and the distribution runs out of its array.
\<close>

theorem large_order_panics:
  "distribute_by_largest_remainder (2 ^ 53 + 3) [1] = None"
proof -
  have up: "float_of_uint64 (2 ^ 53 + 3) = 2 ^ 53 + 4"
    unfolding float_of_uint64_def
    by (subst round_float_binade [of 53]) (simp_all add: float_computation)
  have one: "round_float 1 = 1" and big: "round_float (2 ^ 53 + 4) = 2 ^ 53 + 4"
    using round_float_exact [of 1 1 0] round_float_exact [of "2 ^ 53 + 4" "2 ^ 51 + 1" 2] by simp_all
  have "exact_shares (2 ^ 53 + 3) [1] = [2 ^ 53 + 4]"
    unfolding exact_shares_def up using one big by (simp add: float_add_def float_div_def float_mul_def)
  moreover have "uint64_of_float (2 ^ 53 + 4) = 2 ^ 53 + 4"
    by (simp add: uint64_of_float_def)
  ultimately show ?thesis
    by (simp add: distribute_by_largest_remainder_def remainder_order_props Let_def) (simp add: unsigned_minus_1_eq_mask mask_eq_exp_minus_1)
qed

section \<open>Every slice is released once\<close>

fun poll_all :: "instant list \<Rightarrow> slice_scheduler \<Rightarrow> child_slice list \<times> slice_scheduler" where
  "poll_all [] sch = ([], sch)"
| "poll_all (now # nows) sch = (case poll_due_slices now sch of (due, sch1) \<Rightarrow>
     case poll_all nows sch1 of (later, sch2) \<Rightarrow> (due @ later, sch2))"

lemma poll_slices_due:
  assumes "distinct (map slice_index ss)"
  shows "fst (poll_slices now ss released) = filter (\<lambda>s. slice_index s \<notin> set released \<and> slice_time s \<le> now) ss
    \<and> set (snd (poll_slices now ss released)) = set released \<union>
        slice_index ` {s \<in> set ss. slice_time s \<le> now}
    \<and> (distinct released \<longrightarrow> distinct (snd (poll_slices now ss released)))"
  using assms
proof (induction now ss released rule: poll_slices.induct)
  case (2 now s ss released)
  have "filter (\<lambda>r. slice_index r \<notin> set (slice_index s # released) \<and> slice_time r \<le> now) ss =
      filter (\<lambda>r. slice_index r \<notin> set released \<and> slice_time r \<le> now) ss"
  proof (intro filter_cong refl)
    fix r
    assume "r \<in> set ss"
    then have "slice_index r \<noteq> slice_index s" using 2(3) by (metis distinct.simps(2) image_eqI list.simps(9) set_map)
    then show "(slice_index r \<notin> set (slice_index s # released) \<and> slice_time r \<le> now) =
        (slice_index r \<notin> set released \<and> slice_time r \<le> now)" by auto
  qed
  with 2 show ?case by (auto simp: time_after_def split: prod.splits)
qed simp

lemma poll_all_released:
  assumes "distinct (map slice_index (scheduler_slices sch))" and "distinct (released_indices sch)"
    and "set (released_indices sch) \<subseteq> slice_index ` set (scheduler_slices sch)"
  shows "(case poll_all nows sch of (due, sch') \<Rightarrow>
      distinct (map slice_index due) \<and> set due = {s \<in> set (scheduler_slices sch).
        slice_index s \<notin> set (released_indices sch) \<and> (\<exists>now \<in> set nows. slice_time s \<le> now)}
      \<and> scheduler_slices sch' = scheduler_slices sch \<and> distinct (released_indices sch')
      \<and> set (released_indices sch') = set (released_indices sch) \<union> slice_index ` set due)"
  using assms
proof (induction nows arbitrary: sch)
  case (Cons now nows)
  obtain due released where p: "poll_slices now (scheduler_slices sch) (released_indices sch) = (due, released)"
    by fastforce
  define sch1 where "sch1 = sch\<lparr>released_indices := released\<rparr>"
  note spec = poll_slices_due [OF Cons(2), of now "released_indices sch", unfolded p fst_conv snd_conv]
  obtain later sch2 where l: "poll_all nows sch1 = (later, sch2)" by fastforce
  have run: "poll_all (now # nows) sch = (due @ later, sch2)"
    using l by (simp add: poll_due_slices_def p sch1_def)
  have pre: "distinct (map slice_index (scheduler_slices sch1))" "distinct (released_indices sch1)"
    "set (released_indices sch1) \<subseteq> slice_index ` set (scheduler_slices sch1)"
    using Cons(2-4) spec by (auto simp: sch1_def)
  note ih = Cons(1) [OF pre, unfolded l prod.case]
  have d: "distinct (map slice_index due)"
    using spec Cons(2) by (simp add: distinct_map_filter)
  have inj: "inj_on slice_index (set (scheduler_slices sch))"
    using Cons(2) by (simp add: distinct_map)
  have due: "set due = {s \<in> set (scheduler_slices sch). slice_index s \<notin> set (released_indices sch) \<and> slice_time s \<le> now}"
    using spec by auto
  have released: "set released = set (released_indices sch) \<union> slice_index ` {s \<in> set (scheduler_slices sch). slice_time s \<le> now}"
    using spec by simp
  have fresh: "slice_index s \<notin> set released \<longleftrightarrow> slice_index s \<notin> set (released_indices sch) \<and> \<not> slice_time s \<le> now"
    if "s \<in> set (scheduler_slices sch)" for s
    using that inj by (auto simp: released inj_on_def)
  have later: "set later = {s \<in> set (scheduler_slices sch). slice_index s \<notin> set (released_indices sch) \<and>
      \<not> slice_time s \<le> now \<and> (\<exists>now \<in> set nows. slice_time s \<le> now)}"
    using ih fresh by (auto simp: sch1_def)
  have "slice_index ` set due \<inter> slice_index ` set later = {}"
    using inj by (auto simp: due later inj_on_def)
  moreover have "slice_index ` set due \<union> set (released_indices sch) = set released"
    by (auto simp: due released)
  ultimately show ?case
    unfolding run using ih d by (auto simp: due later sch1_def)
qed (auto simp: filter_empty_conv)

text \<open>
  Polling releases every slice once: whatever the times of the polls, in whatever order, the slices
  handed out have distinct indices and are exactly those that were due at some poll, and the
  schedule is complete exactly when every slice was.
\<close>

theorem slices_released_once:
  assumes "distinct (map slice_index slices)"
  shows "distinct (map slice_index (fst (poll_all nows (new_scheduler p slices))))
    \<and> set (fst (poll_all nows (new_scheduler p slices))) = {s \<in> set slices. \<exists>now \<in> set nows. slice_time s \<le> now}
    \<and> (schedule_is_complete (snd (poll_all nows (new_scheduler p slices)))
        \<longleftrightarrow> (\<forall>s \<in> set slices. \<exists>now \<in> set nows. slice_time s \<le> now))"
proof -
  define run where "run = poll_all nows (new_scheduler p slices)"
  have r: "distinct (map slice_index (fst run))"
    "set (fst run) = {s \<in> set slices. \<exists>now \<in> set nows. slice_time s \<le> now}"
    "scheduler_slices (snd run) = slices" "distinct (released_indices (snd run))"
    "set (released_indices (snd run)) = slice_index ` set (fst run)"
    using poll_all_released [of "new_scheduler p slices" nows] assms
    by (auto simp: new_scheduler_def run_def split: prod.splits)
  have inj: "inj_on slice_index (set slices)" and d: "distinct slices"
    using assms by (simp_all add: distinct_map)
  have "length (released_indices (snd run)) = card (set (fst run))"
    using r(2,4,5) inj by (metis (no_types, lifting) card_image distinct_card inj_on_subset mem_Collect_eq subsetI)
  then have "schedule_is_complete (snd run) \<longleftrightarrow> card (set (fst run)) = card (set slices)"
    by (simp add: schedule_is_complete_def r(3) distinct_card [OF d])
  also have "\<dots> \<longleftrightarrow> set (fst run) = set slices"
    using r(2) card_subset_eq [of "set slices" "set (fst run)"] by auto
  finally have "schedule_is_complete (snd run) \<longleftrightarrow> (\<forall>s \<in> set slices. \<exists>now \<in> set nows. slice_time s \<le> now)"
    unfolding r(2) by auto
  with r(1,2) show ?thesis by (simp add: run_def)
qed

lemma slices_released_once_witness:
  "schedule_is_complete (snd (poll_all [5, 20] (new_scheduler demo_parent
    [\<lparr>slice_algo = AlgoTwap, slice_index = 0, slice_time = 3, slice_quantity = 4\<rparr>,
     \<lparr>slice_algo = AlgoTwap, slice_index = 1, slice_time = 10, slice_quantity = 4\<rparr>])))"
  using slices_released_once [of "[\<lparr>slice_algo = AlgoTwap, slice_index = 0, slice_time = 3, slice_quantity = 4\<rparr>,
     \<lparr>slice_algo = AlgoTwap, slice_index = 1, slice_time = 10, slice_quantity = 4\<rparr>]" "[5, 20]" demo_parent] by simp

section \<open>Participation never overfills the order\<close>

fun observe_all :: "(instant \<times> uint64) list \<Rightarrow> pov_scheduler \<Rightarrow> child_slice list \<times> pov_scheduler" where
  "observe_all [] s = ([], s)"
| "observe_all ((now, volume) # os) s = (case on_volume_observation now volume s of (result, s1) \<Rightarrow>
     case observe_all os s1 of (slices, s2) \<Rightarrow>
       (case result of Inr (Some child) \<Rightarrow> child # slices | _ \<Rightarrow> slices, s2))"

lemma pov_slice_quantity_bounds:
  "pov_slice_quantity delta s \<le> pov_remaining s \<and> pov_slice_quantity delta s \<le> pov_max_clip (pov_configuration s)"
  by (auto simp: pov_slice_quantity_def Let_def)

lemma observe_all_bounds:
  "sum_list (map (\<lambda>x. unat (slice_quantity x)) (fst (observe_all os s))) + unat (pov_remaining (snd (observe_all os s)))
      = unat (pov_remaining s)
    \<and> list_all (\<lambda>x. 0 < slice_quantity x \<and> slice_quantity x \<le> pov_max_clip (pov_configuration s)) (fst (observe_all os s))
    \<and> map slice_index (fst (observe_all os s)) =
        map (\<lambda>i. pov_next_index s + int i) [0..<length (fst (observe_all os s))]"
proof (induction os s rule: observe_all.induct)
  case (2 now volume os s)
  obtain result s1 where o: "on_volume_observation now volume s = (result, s1)" by fastforce
  note ih = 2 [OF o [symmetric]]
  show ?case
  proof (cases "\<exists>child. result = Inr (Some child)")
    case False
    then have "pov_remaining s1 = pov_remaining s" "pov_next_index s1 = pov_next_index s"
        "pov_configuration s1 = pov_configuration s"
      using o by (auto simp: on_volume_observation_def Let_def split: if_splits)
    moreover have "fst (observe_all ((now, volume) # os) s) = fst (observe_all os s1)"
      "snd (observe_all ((now, volume) # os) s) = snd (observe_all os s1)"
      using False o by (auto split: prod.splits sum.splits option.splits)
    ultimately show ?thesis using ih by (simp only:)
  next
    case True
    then obtain child where res: "result = Inr (Some child)" by blast
    define q where "q = pov_slice_quantity (volume - pov_last_volume s) s"
    have q: "0 < q" and sl: "child = \<lparr>slice_algo = AlgoPov, slice_index = pov_next_index s, slice_time = now, slice_quantity = q\<rparr>"
      and s1: "pov_remaining s1 = pov_remaining s - q" "pov_next_index s1 = pov_next_index s + 1"
        "pov_configuration s1 = pov_configuration s"
      using o res by (auto simp: on_volume_observation_def Let_def q_def word_neq_0_conv split: if_splits)
    have b: "q \<le> pov_remaining s" "q \<le> pov_max_clip (pov_configuration s)"
      using pov_slice_quantity_bounds [of "volume - pov_last_volume s" s] by (simp_all add: q_def)
    have runs: "fst (observe_all ((now, volume) # os) s) = child # fst (observe_all os s1)"
      "snd (observe_all ((now, volume) # os) s) = snd (observe_all os s1)"
      using o res by (auto split: prod.splits)
    have "unat (pov_remaining s - q) = unat (pov_remaining s) - unat q" "unat q \<le> unat (pov_remaining s)"
      using b(1) by (simp_all add: unat_sub word_le_nat_alt)
    moreover have "map (\<lambda>i. pov_next_index s + int i) [0..<Suc k] =
        pov_next_index s # map (\<lambda>i. pov_next_index s + 1 + int i) [0..<k]" for k
      by (simp add: upt_conv_Cons map_Suc_upt [symmetric] comp_def add.assoc del: upt_Suc)
    ultimately show ?thesis
      unfolding runs using ih q b by (simp add: s1 sl) linarith
  qed
qed simp

text \<open>
  Participation never overfills: whatever volumes are observed, backwards ones included, the slices
  released and the remaining quantity add up to the parent order, no slice is empty or larger than
  the clip, and the slices are numbered from zero.
\<close>

theorem participation_never_overfills:
  assumes "new_pov_scheduler p c = Inr s"
  shows "sum_list (map (\<lambda>x. unat (slice_quantity x)) (fst (observe_all os s)))
        + unat (pov_remaining (snd (observe_all os s))) = unat (parent_total_quantity p)
    \<and> list_all (\<lambda>x. 0 < slice_quantity x \<and> slice_quantity x \<le> pov_max_clip c) (fst (observe_all os s))
    \<and> map slice_index (fst (observe_all os s)) = map int [0..<length (fst (observe_all os s))]"
  using observe_all_bounds [of os s] assms
  by (auto simp: new_pov_scheduler_def split: option.splits if_splits)

lemma participation_never_overfills_witness:
  "\<exists>s. new_pov_scheduler demo_parent \<lparr>pov_participation_rate = 1 / 2, pov_max_clip = 4\<rparr> = Inr s \<and>
    unat (pov_remaining (snd (observe_all [(0, 5), (1, 9)] s))) \<le> 10"
proof -
  obtain s where s: "new_pov_scheduler demo_parent \<lparr>pov_participation_rate = 1 / 2, pov_max_clip = 4\<rparr> = Inr s"
    by (simp add: new_pov_scheduler_def demo_parent_def validate_parent_order_def)
  from participation_never_overfills [OF this, of "[(0, 5), (1, 9)]"] s show ?thesis
    by (intro exI [of _ s]) (simp add: demo_parent_def)
qed

end
