(* ===== verification/CorporateActions.thy ===== *)
theory CorporateActions
  imports GatewayHandlers
begin

text \<open>
  Corporate actions and dividends of the order gateway:
  services/oms-gateway/internal/corporateactionsprocessing/corporateActionsProcessor.go (a book of
  holdings with their cost basis), internal/drip/dividendReinvestmentPlan.go, and the handlers of
  cmd/server/main.go over them, of which the last one sends an order through the pipeline. The ledger's
  answer to a dividend credit is an argument, \<open>Some err\<close> being a failed posting.
\<close>

section \<open>Holdings\<close>

datatype action_type = StockSplit | BonusIssue | Merger | CashDividend

datatype corporate_error =
    NoExistingHolding | NonPositiveRatio | NonPositiveDividendPerShare | EmptyTargetInstrument
  | RatioProducesFractionalShares | UnknownActionType string | NonPositiveSeedQuantity

record holding =
  holding_account :: string
  holding_instrument :: string
  quantity_held :: int64
  total_cost_basis :: int64

record processed_action =
  action_kind :: action_type
  action_account :: string
  action_instrument :: string
  holding_before :: holding
  holding_after :: holding
  cash_credited :: int64
  processed_at :: instant

record holdings_book =
  book_holdings :: "holding table"
  processed_log :: "processed_action list"

definition new_holdings_book :: holdings_book where
  "new_holdings_book = \<lparr>book_holdings = [], processed_log = []\<rparr>"

definition average_cost_per_share :: "holding \<Rightarrow> int64" where
  "average_cost_per_share h = (if quantity_held h = 0 then 0 else int64_div (total_cost_basis h) (quantity_held h))"

definition holding_key :: "string \<Rightarrow> string \<Rightarrow> string" where
  "holding_key a ins = a @ ''|'' @ ins"

definition seed_holding :: "string \<Rightarrow> string \<Rightarrow> int64 \<Rightarrow> int64 \<Rightarrow> holdings_book \<Rightarrow>
    corporate_error + holding \<times> holdings_book" where
  "seed_holding a ins quantity cost b =
    (if quantity \<le>s 0 then Inl NonPositiveSeedQuantity
     else let h = \<lparr>holding_account = a, holding_instrument = ins, quantity_held = quantity, total_cost_basis = cost\<rparr>
       in Inr (h, b\<lparr>book_holdings := put (holding_key a ins) h (book_holdings b)\<rparr>))"

definition get_holding :: "string \<Rightarrow> string \<Rightarrow> holdings_book \<Rightarrow> holding option" where
  "get_holding a ins b = lookup (book_holdings b) (holding_key a ins)"

definition multiply_quantity :: "action_type \<Rightarrow> string \<Rightarrow> string \<Rightarrow> int64 \<Rightarrow> int64 \<Rightarrow> instant \<Rightarrow> holdings_book \<Rightarrow>
    corporate_error + processed_action \<times> holdings_book" where
  "multiply_quantity kind a ins num den now b =
    (if num \<le>s 0 \<or> den \<le>s 0 then Inl NonPositiveRatio
     else case get_holding a ins b of
       None \<Rightarrow> Inl NoExistingHolding
     | Some before \<Rightarrow>
         let scaled = quantity_held before * num
         in if int64_mod scaled den \<noteq> 0 then Inl RatioProducesFractionalShares
            else let h = \<lparr>holding_account = a, holding_instrument = ins, quantity_held = int64_div scaled den,
                       total_cost_basis = total_cost_basis before\<rparr>;
                     p = \<lparr>action_kind = kind, action_account = a, action_instrument = ins, holding_before = before,
                       holding_after = h, cash_credited = 0, processed_at = now\<rparr>
              in Inr (p, b\<lparr>book_holdings := put (holding_key a ins) h (book_holdings b),
                processed_log := processed_log b @ [p]\<rparr>))"

definition apply_stock_split :: "string \<Rightarrow> string \<Rightarrow> int64 \<Rightarrow> int64 \<Rightarrow> instant \<Rightarrow> holdings_book \<Rightarrow>
    corporate_error + processed_action \<times> holdings_book" where
  "apply_stock_split a ins num den = multiply_quantity StockSplit a ins num den"

definition apply_bonus_issue :: "string \<Rightarrow> string \<Rightarrow> int64 \<Rightarrow> int64 \<Rightarrow> instant \<Rightarrow> holdings_book \<Rightarrow>
    corporate_error + processed_action \<times> holdings_book" where
  "apply_bonus_issue a ins num den = multiply_quantity BonusIssue a ins (num + den) den"

definition apply_merger :: "string \<Rightarrow> string \<Rightarrow> string \<Rightarrow> int64 \<Rightarrow> int64 \<Rightarrow> instant \<Rightarrow> holdings_book \<Rightarrow>
    corporate_error + processed_action \<times> holdings_book" where
  "apply_merger a ins target num den now b =
    (if target = '''' then Inl EmptyTargetInstrument
     else if num \<le>s 0 \<or> den \<le>s 0 then Inl NonPositiveRatio
     else case get_holding a ins b of
       None \<Rightarrow> Inl NoExistingHolding
     | Some before \<Rightarrow>
         let scaled = quantity_held before * num
         in if int64_mod scaled den \<noteq> 0 then Inl RatioProducesFractionalShares
            else let existing = (case get_holding a target b of
                       None \<Rightarrow> \<lparr>holding_account = '''', holding_instrument = '''', quantity_held = 0, total_cost_basis = 0\<rparr>
                     | Some h \<Rightarrow> h);
                     h = \<lparr>holding_account = a, holding_instrument = target,
                       quantity_held = quantity_held existing + int64_div scaled den,
                       total_cost_basis = total_cost_basis existing + total_cost_basis before\<rparr>;
                     p = \<lparr>action_kind = Merger, action_account = a, action_instrument = ins, holding_before = before,
                       holding_after = h, cash_credited = 0, processed_at = now\<rparr>
              in Inr (p, b\<lparr>book_holdings := remove (holding_key a ins) (put (holding_key a target) h (book_holdings b)),
                processed_log := processed_log b @ [p]\<rparr>))"

definition compute_cash_dividend :: "string \<Rightarrow> string \<Rightarrow> int64 \<Rightarrow> instant \<Rightarrow> holdings_book \<Rightarrow>
    corporate_error + processed_action \<times> holdings_book" where
  "compute_cash_dividend a ins per_share now b =
    (if per_share \<le>s 0 then Inl NonPositiveDividendPerShare
     else case get_holding a ins b of
       None \<Rightarrow> Inl NoExistingHolding
     | Some h \<Rightarrow>
         let p = \<lparr>action_kind = CashDividend, action_account = a, action_instrument = ins, holding_before = h,
               holding_after = h, cash_credited = quantity_held h * per_share, processed_at = now\<rparr>
         in Inr (p, b\<lparr>processed_log := processed_log b @ [p]\<rparr>))"

definition processed_actions_for_account :: "string \<Rightarrow> holdings_book \<Rightarrow> processed_action list" where
  "processed_actions_for_account a b = filter (\<lambda>p. action_account p = a) (processed_log b)"

text \<open>\<open>ValidateActionType\<close> with the dispatch on the name that follows it.\<close>

definition validate_action_type :: "string \<Rightarrow> corporate_error + action_type" where
  "validate_action_type s =
    (if s = ''STOCK_SPLIT'' then Inr StockSplit else if s = ''BONUS_ISSUE'' then Inr BonusIssue
     else if s = ''MERGER'' then Inr Merger else if s = ''CASH_DIVIDEND'' then Inr CashDividend
     else Inl (UnknownActionType s))"

section \<open>The handlers of corporate actions\<close>

record corporate_request =
  corporate_kind :: string
  corporate_account :: string
  corporate_instrument :: string
  ratio_numerator :: int64
  ratio_denominator :: int64
  merger_target :: string
  dividend_per_share :: int64

datatype corporate_answer =
    CorporateProcessed processed_action | CorporateRefused corporate_error | DividendCreditFailed string

definition seed_holding_handler :: "string \<Rightarrow> string \<Rightarrow> int64 \<Rightarrow> int64 \<Rightarrow> holdings_book \<times> position_book \<Rightarrow>
    (corporate_error + holding) \<times> holdings_book \<times> position_book" where
  "seed_holding_handler a ins quantity cost = (\<lambda>(b, positions).
     case seed_holding a ins quantity cost b of
       Inl err \<Rightarrow> (Inl err, b, positions)
     | Inr (h, b') \<Rightarrow> (Inr h, b', set_position_directly a ins (quantity_held h) positions))"

definition process_corporate_action :: "(string \<Rightarrow> int64 \<Rightarrow> string option) \<Rightarrow> instant \<Rightarrow> corporate_request \<Rightarrow>
    holdings_book \<times> position_book \<Rightarrow> corporate_answer \<times> holdings_book \<times> position_book" where
  "process_corporate_action credit now r = (\<lambda>(b, positions).
     let a = corporate_account r; ins = corporate_instrument r; num = ratio_numerator r; den = ratio_denominator r
     in case validate_action_type (corporate_kind r) of
       Inl err \<Rightarrow> (CorporateRefused err, b, positions)
     | Inr kind \<Rightarrow>
         (case (case kind of
              StockSplit \<Rightarrow> apply_stock_split a ins num den now b
            | BonusIssue \<Rightarrow> apply_bonus_issue a ins num den now b
            | Merger \<Rightarrow> apply_merger a ins (merger_target r) num den now b
            | CashDividend \<Rightarrow> compute_cash_dividend a ins (dividend_per_share r) now b) of
            Inl err \<Rightarrow> (CorporateRefused err, b, positions)
          | Inr (p, b') \<Rightarrow>
              if kind = CashDividend
              then (case credit a (cash_credited p) of
                  Some err \<Rightarrow> (DividendCreditFailed err, b', positions)
                | None \<Rightarrow> (CorporateProcessed p, b', positions))
              else
                let after = holding_after p;
                    pos1 = set_position_directly a (holding_instrument after) (quantity_held after) positions;
                    pos2 = (if kind = Merger \<and> action_instrument p \<noteq> holding_instrument after
                      then set_position_directly a (action_instrument p) 0 pos1 else pos1)
                in (CorporateProcessed p, b', pos2)))"

section \<open>Dividend reinvestment\<close>

datatype drip_error =
    QuantityHeldMustBePositive | DividendPerShareMustBePositive | CashAmountMustBePositive | ReferencePriceMustBePositive

definition dividend_credit :: "uint64 \<Rightarrow> int64 \<Rightarrow> drip_error + int64" where
  "dividend_credit held per_share =
    (if held = 0 then Inl QuantityHeldMustBePositive
     else if per_share \<le>s 0 then Inl DividendPerShareMustBePositive else Inr (held * per_share))"

record reinvestment_plan =
  reinvestment_quantity :: uint64
  spent_cash :: int64
  leftover_cash :: int64

definition plan_reinvestment :: "int64 \<Rightarrow> int64 \<Rightarrow> drip_error + reinvestment_plan" where
  "plan_reinvestment cash price =
    (if cash \<le>s 0 then Inl CashAmountMustBePositive
     else if price \<le>s 0 then Inl ReferencePriceMustBePositive
     else let q = int64_div cash price
       in Inr \<lparr>reinvestment_quantity = q, spent_cash = q * price, leftover_cash = cash - q * price\<rparr>)"

type_synonym drip_toggles = "bool table"

definition set_auto_reinvest :: "string \<Rightarrow> bool \<Rightarrow> drip_toggles \<Rightarrow> drip_toggles" where
  "set_auto_reinvest a enabled t = put a enabled t"

definition auto_reinvest_enabled :: "string \<Rightarrow> drip_toggles \<Rightarrow> bool" where
  "auto_reinvest_enabled a t = lookup_or False t a"

definition reinvestment_order :: "string \<Rightarrow> string \<Rightarrow> int64 \<Rightarrow> uint64 \<Rightarrow> order_submission_request" where
  "reinvestment_order a ins price quantity = \<lparr>request_account = a, request_instrument = ins,
     request_is_buy = True, request_is_market_order = False, request_is_stop_loss = False,
     request_stop_trigger_price = None, request_limit_price = price, request_quantity = quantity,
     request_idempotency_key = '''', request_is_after_market_order = False,
     request_execution_type = '''', request_iceberg_visible_quantity = None, request_is_paper_trading = False,
     request_paper_reference_price = None, request_strategy_identifier = '''',
     request_confirmed_large_order = False, request_milli_share_quantity = None\<rparr>"

record dividend_response =
  response_cash_credited :: int64
  response_credit_posted :: bool
  response_ledger_error :: string
  response_reinvested :: bool
  response_plan :: "reinvestment_plan option"
  response_order :: "order_acknowledgement option"

text \<open>A refused event is \<open>Inl\<close>: \<open>None\<close> for an account that holds nothing of the instrument.\<close>

definition process_dividend_event :: "gateway_environment \<Rightarrow> (string \<Rightarrow> int64 \<Rightarrow> string option) \<Rightarrow> drip_toggles \<Rightarrow>
    string \<Rightarrow> string \<Rightarrow> int64 \<Rightarrow> int64 \<Rightarrow> string \<Rightarrow> gateway_state \<Rightarrow>
    (drip_error option + dividend_response) \<times> gateway_state" where
  "process_dividend_event env credit toggles a ins per_share price actor g =
    (let held = lookup_or 0 (positions_for_account a (gw_positions g)) ins in
     if held \<le>s 0 then (Inl None, g)
     else case dividend_credit held per_share of
       Inl err \<Rightarrow> (Inl (Some err), g)
     | Inr cash \<Rightarrow>
         let response = \<lparr>response_cash_credited = cash, response_credit_posted = False, response_ledger_error = '''',
               response_reinvested = False, response_plan = None, response_order = None\<rparr>
         in case credit a cash of
              Some err \<Rightarrow> (Inr (response\<lparr>response_ledger_error := err\<rparr>), g)
            | None \<Rightarrow>
                let response1 = response\<lparr>response_credit_posted := True\<rparr>;
                    g1 = audit env ((bare_entry EventOrderSubmitted actor)\<lparr>audit_account := a, audit_instrument := ins,
                        audit_detail := ''DIVIDEND_CREDITED cashCreditedInMinorUnits='' @ int64_text cash\<rparr>)
                      (g\<lparr>gw_margins := adjust_available_margin a cash (gw_margins g)\<rparr>)
                in if \<not> auto_reinvest_enabled a toggles \<or> price \<le>s 0 then (Inr response1, g1)
                   else case plan_reinvestment cash price of
                     Inl err \<Rightarrow> (Inr response1, g1)
                   | Inr plan \<Rightarrow>
                       if reinvestment_quantity plan = 0 then (Inr response1, g1)
                       else case process_order_submission env (reinvestment_order a ins price (reinvestment_quantity plan))
                           actor g1 of
                         (ack, g2) \<Rightarrow> (Inr (response1\<lparr>response_plan := Some plan,
                           response_reinvested := ack_was_accepted ack, response_order := Some ack\<rparr>), g2))"

section \<open>Cost is conserved\<close>

definition book_cost :: "holdings_book \<Rightarrow> int64" where
  "book_cost b = table_sum (\<lambda>_ h. total_cost_basis h) (book_holdings b)"

lemma holding_key_inject: "holding_key a i = holding_key a j \<longleftrightarrow> i = j"
  by (simp add: holding_key_def)

lemma cost_after_put:
  assumes "table_ok (book_holdings b)"
  shows "table_sum (\<lambda>_ h. total_cost_basis h) (put k h (book_holdings b)) = book_cost b + total_cost_basis h -
    (case lookup (book_holdings b) k of None \<Rightarrow> 0 | Some w \<Rightarrow> total_cost_basis w)"
  using table_sum_put [OF assms, of "\<lambda>_ h. total_cost_basis h" k h] by (simp add: book_cost_def)

lemma multiply_cost:
  assumes "table_ok (book_holdings b)" and "multiply_quantity kind a ins num den now b = Inr (p, b')"
  shows "table_ok (book_holdings b') \<and> book_cost b' = book_cost b"
  using assms cost_after_put [OF assms(1)]
  by (auto simp: multiply_quantity_def get_holding_def Let_def book_cost_def [of "b\<lparr>book_holdings := _, processed_log := _\<rparr>"]
    split: if_splits option.splits)

lemma merger_cost:
  assumes "table_ok (book_holdings b)" and "apply_merger a ins target num den now b = Inr (p, b')" and "ins \<noteq> target"
  shows "table_ok (book_holdings b') \<and> book_cost b' = book_cost b"
proof -
  have keys: "holding_key a ins \<noteq> holding_key a target" using assms(3) by (simp add: holding_key_inject)
  obtain before where before: "lookup (book_holdings b) (holding_key a ins) = Some before"
    using assms(2) by (auto simp: apply_merger_def get_holding_def Let_def split: if_splits option.splits)
  define h where "h = holding_after p"
  have h: "total_cost_basis h = (case lookup (book_holdings b) (holding_key a target) of None \<Rightarrow> 0
      | Some w \<Rightarrow> total_cost_basis w) + total_cost_basis before"
    using assms(2) before
    by (auto simp: h_def apply_merger_def get_holding_def Let_def split: if_splits option.splits)
  have b': "b' = b\<lparr>book_holdings := remove (holding_key a ins) (put (holding_key a target) h (book_holdings b)),
      processed_log := processed_log b @ [p]\<rparr>"
    using assms(2) before
    by (auto simp: h_def apply_merger_def get_holding_def Let_def split: if_splits option.splits)
  have ok: "table_ok (put (holding_key a target) h (book_holdings b))" using assms(1) by simp
  have "book_cost b' = book_cost b"
    using before h keys table_sum_remove [OF ok, of "\<lambda>_ h. total_cost_basis h" "holding_key a ins"]
      cost_after_put [OF assms(1), of "holding_key a target" h]
    by (auto simp: b' book_cost_def split: option.splits)
  then show ?thesis using ok by (simp add: b')
qed

lemma action_step:
  assumes "table_ok (book_holdings b)" and "corporate_instrument r \<noteq> merger_target r"
  shows "table_ok (book_holdings (fst (snd (process_corporate_action credit now r (b, positions)))))
    \<and> book_cost (fst (snd (process_corporate_action credit now r (b, positions)))) = book_cost b"
proof -
  have dividend: "table_ok (book_holdings b') \<and> book_cost b' = book_cost b"
    if "compute_cash_dividend a ins d now b = Inr (p, b')" for a ins d p b'
    using that assms(1) by (auto simp: compute_cash_dividend_def book_cost_def Let_def split: if_splits option.splits)
  show ?thesis
    using assms(1) multiply_cost [OF assms(1)] merger_cost [OF assms(1) _ assms(2)] dividend
    by (auto simp: process_corporate_action_def apply_stock_split_def apply_bonus_issue_def Let_def
      split: sum.splits prod.splits action_type.splits option.splits if_splits)
qed

type_synonym corporate_state = "holdings_book \<times> position_book"

definition process_actions :: "(string \<Rightarrow> int64 \<Rightarrow> string option) \<Rightarrow> instant \<Rightarrow> corporate_request list \<Rightarrow>
    corporate_state \<Rightarrow> corporate_state" where
  "process_actions credit now rs s = foldl (\<lambda>s r. snd (process_corporate_action credit now r s)) s rs"

text \<open>However many corporate actions are processed, and whatever the ledger answers, the sum of the cost
  bases over the whole book of holdings stays what it was: splits and bonus issues change the number of
  shares only, and a merger moves the cost to the target instrument. A merger of an instrument into
  itself is excluded: see \<open>self_merger_destroys_holding\<close>.\<close>

theorem cost_basis_conserved:
  assumes "table_ok (book_holdings b)" and "\<forall>r\<in>set rs. corporate_instrument r \<noteq> merger_target r"
  shows "book_cost (fst (process_actions credit now rs (b, positions))) = book_cost b"
  using assms
proof (induction rs arbitrary: b positions)
  case Nil
  then show ?case by (simp add: process_actions_def)
next
  case (Cons r rs)
  let ?s = "snd (process_corporate_action credit now r (b, positions))"
  have step: "table_ok (book_holdings (fst ?s)) \<and> book_cost (fst ?s) = book_cost b"
    using Cons.prems by (intro action_step) simp_all
  have "book_cost (fst (process_actions credit now rs (fst ?s, snd ?s))) = book_cost (fst ?s)"
    using Cons.prems step by (intro Cons.IH) simp_all
  then show ?case using step by (simp add: process_actions_def)
qed

definition example_holdings :: holdings_book where
  "example_holdings = \<lparr>book_holdings =
     [(holding_key ''a'' ''OLD'', \<lparr>holding_account = ''a'', holding_instrument = ''OLD'', quantity_held = 30, total_cost_basis = 900\<rparr>),
      (holding_key ''a'' ''NEW'', \<lparr>holding_account = ''a'', holding_instrument = ''NEW'', quantity_held = 5, total_cost_basis = 100\<rparr>)],
     processed_log = []\<rparr>"

definition example_merger :: "string \<Rightarrow> corporate_request" where
  "example_merger target = \<lparr>corporate_kind = ''MERGER'', corporate_account = ''a'', corporate_instrument = ''OLD'',
     ratio_numerator = 2, ratio_denominator = 3, merger_target = target, dividend_per_share = 0\<rparr>"

theorem cost_basis_conserved_witness:
  "book_cost (fst (process_actions (\<lambda>_ _. None) 0 [example_merger ''NEW'', example_merger ''ELSE'']
     (example_holdings, new_position_book))) = book_cost example_holdings"
  by (rule cost_basis_conserved) (simp_all add: example_holdings_def example_merger_def holding_key_def table_ok_def)

text \<open>A merger of an instrument into itself passes the checks; the converted holding is written under the
  key that is deleted next. The account's holding and its cost leave the book, while the position book
  keeps the converted quantity.\<close>

theorem self_merger_destroys_holding:
  "case process_corporate_action (\<lambda>_ _. None) 0 (example_merger ''OLD'') (example_holdings, new_position_book) of
     (answer, b, positions) \<Rightarrow> (case answer of CorporateProcessed p \<Rightarrow> True | _ \<Rightarrow> False) \<and> get_holding ''a'' ''OLD'' b = None
       \<and> book_cost b = 100 \<and> lookup_or 0 (positions_for_account ''a'' positions) ''OLD'' \<noteq> 0"
  by code_simp

section \<open>Exact ratios and exact reinvestment\<close>

text \<open>A split or a bonus issue that is accepted gives the account a holding whose quantity times the
  denominator is exactly the old quantity times the numerator, at the same total cost; an action whose
  ratio would leave a fraction of a share is refused, and so is one with a ratio that is not positive.\<close>

theorem ratio_applied_exactly:
  "case multiply_quantity kind a ins num den now b of
     Inr (p, b') \<Rightarrow> 0 <s num \<and> 0 <s den
       \<and> get_holding a ins b = Some (holding_before p) \<and> get_holding a ins b' = Some (holding_after p)
       \<and> quantity_held (holding_after p) * den = quantity_held (holding_before p) * num
       \<and> total_cost_basis (holding_after p) = total_cost_basis (holding_before p)
   | Inl err \<Rightarrow> num \<le>s 0 \<or> den \<le>s 0 \<or> (case get_holding a ins b of
        None \<Rightarrow> err = NoExistingHolding
      | Some h \<Rightarrow> err = RatioProducesFractionalShares \<and> int64_mod (quantity_held h * num) den \<noteq> 0)"
proof -
  have exact: "int64_div x den * den = x" if "int64_mod x den = 0" for x :: int64
  proof -
    have "x = of_int (sint x sdiv sint den * sint den + sint x smod sint den)" by (simp add: sdiv_mult_smod_eq)
    also have "\<dots> = int64_div x den * den + int64_mod x den" by (simp add: int64_div_def int64_mod_def)
    finally show ?thesis using that by simp
  qed
  show ?thesis
    by (auto simp: multiply_quantity_def get_holding_def Let_def exact word_sless_alt word_sle_eq
      split: option.splits)
qed

end
