(* ===== verification/FillTrail.thy ===== *)
theory FillTrail
  imports OrderPipeline GoCalendar
begin

text \<open>
  The fill history of an account, rebuilt from the audit trail of the order gateway:
  services/reporting/internal/filltrail/fillTrail.go. An entry of the trail arrives as JSON; an entry
  without the structured fields is read from its detail message by a regular expression, here a
  parser of the language that the expression accepts.
\<close>

section \<open>Entries and fills\<close>

record trail_entry =
  trail_recorded_at :: instant
  trail_event_type :: string
  trail_instrument :: string
  trail_engine_sequence :: uint64
  trail_detail :: string
  trail_buyer :: string
  trail_seller :: string
  trail_price :: int64
  trail_quantity :: uint64

datatype fill_side = SideBuy | SideSell

record executed_fill =
  fill_account :: string
  fill_instrument :: string
  fill_side :: fill_side
  fill_quantity :: uint64
  fill_price :: int64
  fill_time :: instant
  fill_engine_sequence :: uint64
  fill_counterparty :: string

datatype extract_error =
    NoFillFields instant string string
  | FallbackQuantityUnreadable string
  | FallbackPriceUnreadable string

section \<open>The fallback format\<close>

definition is_digit :: "char \<Rightarrow> bool" where
  "is_digit c = (48 \<le> (of_char c :: nat) \<and> (of_char c :: nat) \<le> 57)"

text \<open>The class \<open>\S\<close> of the regular expression.\<close>

definition is_nonspace :: "char \<Rightarrow> bool" where
  "is_nonspace c = ((of_char c :: nat) \<notin> {9, 10, 12, 13, 32})"

fun strip_prefix :: "string \<Rightarrow> string \<Rightarrow> string option" where
  "strip_prefix [] s = Some s"
| "strip_prefix (c # cs) [] = None"
| "strip_prefix (c # cs) (d # ds) = (if c = d then strip_prefix cs ds else None)"

text \<open>A longest non-empty run of characters, as a greedy \<open>+\<close> takes it.\<close>

definition take_run :: "(char \<Rightarrow> bool) \<Rightarrow> string \<Rightarrow> (string \<times> string) option" where
  "take_run P s = (case takeWhile P s of [] \<Rightarrow> None | run \<Rightarrow> Some (run, dropWhile P s))"

text \<open>
  \<open>^filled (\d+) @ (\d+) \(buyer=(\S+) seller=(\S+)\)$\<close>: every run ends where the next literal begins, the
  last one is followed by the closing parenthesis at the end of the text.
\<close>

definition match_fill_detail :: "string \<Rightarrow> (string \<times> string \<times> string \<times> string) option" where
  "match_fill_detail s =
    Option.bind (strip_prefix ''filled '' s) (\<lambda>s1.
    Option.bind (take_run is_digit s1) (\<lambda>(quantity, s2).
    Option.bind (strip_prefix '' @ '' s2) (\<lambda>s3.
    Option.bind (take_run is_digit s3) (\<lambda>(price, s4).
    Option.bind (strip_prefix '' (buyer='' s4) (\<lambda>s5.
    Option.bind (take_run is_nonspace s5) (\<lambda>(buyer, s6).
    Option.bind (strip_prefix '' seller='' s6) (\<lambda>s7.
      if s7 \<noteq> [] \<and> list_all is_nonspace s7 \<and> last s7 = CHR '')'' \<and> butlast s7 \<noteq> []
      then Some (quantity, price, buyer, butlast s7) else None)))))))"

definition parse_uint64 :: "string \<Rightarrow> uint64 option" where
  "parse_uint64 s = (let n = digits_value s in if n < 2 ^ 64 then Some (of_nat n) else None)"

definition parse_int64 :: "string \<Rightarrow> int64 option" where
  "parse_int64 s = (let n = digits_value s in if n < 2 ^ 63 then Some (of_nat n) else None)"

section \<open>Reading the trail\<close>

definition extract_fill_fields :: "trail_entry \<Rightarrow> extract_error + string \<times> string \<times> int64 \<times> uint64" where
  "extract_fill_fields e =
    (if trail_buyer e \<noteq> '''' \<or> trail_seller e \<noteq> ''''
     then Inr (trail_buyer e, trail_seller e, trail_price e, trail_quantity e)
     else case match_fill_detail (trail_detail e) of
       None \<Rightarrow> Inl (NoFillFields (trail_recorded_at e) (trail_instrument e) (trail_detail e))
     | Some (quantity, price, buyer, seller) \<Rightarrow>
         (case parse_uint64 quantity of
            None \<Rightarrow> Inl (FallbackQuantityUnreadable quantity)
          | Some q \<Rightarrow>
              (case parse_int64 price of
                 None \<Rightarrow> Inl (FallbackPriceUnreadable price)
               | Some p \<Rightarrow> Inr (buyer, seller, p, q))))"

definition side_of :: "string \<Rightarrow> string \<Rightarrow> string \<Rightarrow> (fill_side \<times> string) option" where
  "side_of account buyer seller =
    (if account = buyer then Some (SideBuy, seller)
     else if account = seller then Some (SideSell, buyer) else None)"

definition trail_fill :: "string \<Rightarrow> trail_entry \<Rightarrow> string \<Rightarrow> string \<Rightarrow> int64 \<Rightarrow> uint64 \<Rightarrow> executed_fill option" where
  "trail_fill account e buyer seller price quantity =
    map_option (\<lambda>(side, counterparty). \<lparr>fill_account = account, fill_instrument = trail_instrument e,
      fill_side = side, fill_quantity = quantity, fill_price = price, fill_time = trail_recorded_at e,
      fill_engine_sequence = trail_engine_sequence e, fill_counterparty = counterparty\<rparr>)
    (side_of account buyer seller)"

fun parse_fills :: "string \<Rightarrow> trail_entry list \<Rightarrow> executed_fill list \<times> extract_error list" where
  "parse_fills account [] = ([], [])"
| "parse_fills account (e # es) =
    (case parse_fills account es of (fills, errs) \<Rightarrow>
     if trail_event_type e \<noteq> ''ORDER_FILLED'' then (fills, errs)
     else case extract_fill_fields e of
       Inl err \<Rightarrow> (fills, err # errs)
     | Inr (buyer, seller, price, quantity) \<Rightarrow>
         (case trail_fill account e buyer seller price quantity of
            None \<Rightarrow> (fills, errs)
          | Some f \<Rightarrow> (f # fills, errs)))"

definition fills_on_date :: "int \<Rightarrow> instant \<Rightarrow> executed_fill list \<Rightarrow> executed_fill list" where
  "fills_on_date offset date fills =
    filter (\<lambda>f. date_of_day (civil_day offset (fill_time f)) = date_of_day (civil_day offset date)) fills"

definition fills_in_range :: "instant \<Rightarrow> instant \<Rightarrow> executed_fill list \<Rightarrow> executed_fill list" where
  "fills_in_range start stop fills =
    filter (\<lambda>f. \<not> time_before (fill_time f) start \<and> \<not> time_after (fill_time f) stop) fills"

section \<open>The parser reads what the gateway writes\<close>

lemma strip_prefix_append [simp]: "strip_prefix p (p @ s) = Some s"
  by (induction p) simp_all

lemma takeWhile_stop:
  "list_all P xs \<Longrightarrow> \<not> P c \<Longrightarrow> takeWhile P (xs @ c # ys) = xs \<and> dropWhile P (xs @ c # ys) = c # ys"
  by (induction xs) auto

lemma take_run_stop:
  "list_all P xs \<Longrightarrow> xs \<noteq> [] \<Longrightarrow> \<not> P c \<Longrightarrow> take_run P (xs @ c # ys) = Some (xs, c # ys)"
  by (auto simp: take_run_def takeWhile_stop split: list.splits)

lemma decimal_of_nat_digits: "list_all is_digit (decimal_of_nat n) \<and> decimal_of_nat n \<noteq> []"
proof (induction n rule: decimal_of_nat.induct)
  case (1 n)
  have "is_digit (char_of (48 + d))" if "d < 10" for d :: nat
    using that by (simp add: is_digit_def of_char_of)
  then show ?case
    using 1 by (subst (1 2) decimal_of_nat.simps) simp
qed

lemma int64_text_nonneg: "0 \<le>s p \<Longrightarrow> int64_text p = decimal_of_nat (nat (sint p))"
  by (simp add: int64_text_def decimal_of_int_def word_sle_eq)

lemma uint64_text_nat: "uint64_text q = decimal_of_nat (unat q)"
  by (simp add: uint64_text_def decimal_of_int_def not_less)

lemma parse_uint64_text: "parse_uint64 (decimal_of_nat (unat q)) = Some q"
  using unsigned_less [of q, where ?'a = nat] by (simp add: parse_uint64_def decimal_of_nat_value)

lemma parse_int64_text:
  assumes "0 \<le>s p"
  shows "parse_int64 (decimal_of_nat (nat (sint p))) = Some p"
proof -
  have "0 \<le> sint p" using assms by (simp add: word_sle_eq)
  moreover have "sint p < 2 ^ 63" by (rule sint_bounds64 [THEN conjunct2])
  ultimately show ?thesis
    by (auto simp: parse_int64_def decimal_of_nat_value nat_less_iff of_nat_nat)
qed

lemma literal_stops [simp]: "\<not> is_digit CHR '' ''" "\<not> is_nonspace CHR '' ''" "is_nonspace CHR '')''"
  by (simp_all add: is_digit_def is_nonspace_def)

lemma match_filled_text:
  assumes "0 \<le>s event_price ev"
    and "event_buyer ev \<noteq> ''''" and "list_all is_nonspace (event_buyer ev)"
    and "event_seller ev \<noteq> ''''" and "list_all is_nonspace (event_seller ev)"
  shows "match_fill_detail (filled_text ev) = Some (decimal_of_nat (unat (event_quantity ev)),
    decimal_of_nat (nat (sint (event_price ev))), event_buyer ev, event_seller ev)"
proof -
  define q where "q = decimal_of_nat (unat (event_quantity ev))"
  define p where "p = decimal_of_nat (nat (sint (event_price ev)))"
  have detail: "filled_text ev = ''filled '' @ q @ '' @ '' @ p @ '' (buyer='' @ event_buyer ev @ '' seller='' @
      event_seller ev @ '')''"
    by (simp add: filled_text_def uint64_text_nat int64_text_nonneg [OF assms(1)] q_def p_def)
  have runs: "list_all is_digit q" "q \<noteq> []" "list_all is_digit p" "p \<noteq> []"
    by (simp_all add: q_def p_def decimal_of_nat_digits)
  show ?thesis
    unfolding detail q_def [symmetric] p_def [symmetric]
    using assms runs by (simp add: match_fill_detail_def take_run_stop butlast_append)
qed

text \<open>The wire form of an entry of the gateway, whose structured fields an older build leaves out.\<close>

definition wire_entry :: "bool \<Rightarrow> audit_entry \<Rightarrow> trail_entry" where
  "wire_entry structured e = \<lparr>trail_recorded_at = audit_recorded_at e,
     trail_event_type = (if audit_event e = EventOrderFilled then ''ORDER_FILLED'' else ''''),
     trail_instrument = audit_instrument e, trail_engine_sequence = audit_matching_engine_sequence e,
     trail_detail = audit_detail e,
     trail_buyer = (if structured then audit_buying_account e else ''''),
     trail_seller = (if structured then audit_selling_account e else ''''),
     trail_price = (if structured then audit_executed_price e else 0),
     trail_quantity = (if structured then audit_executed_quantity e else 0)\<rparr>"

text \<open>
  C29. The reporting service reads the fills that the gateway writes: the audit entry of a settled fill,
  with its structured fields or, for an older build, only with its detail message, is read back as
  the buyer, the seller, the price and the quantity of the trade, for every trade with a
  non-negative price between accounts whose identifiers are not empty and hold no white space.
\<close>

theorem filled_entry_read_back:
  assumes "0 \<le>s event_price ev"
    and "event_buyer ev \<noteq> ''''" and "list_all is_nonspace (event_buyer ev)"
    and "event_seller ev \<noteq> ''''" and "list_all is_nonspace (event_seller ev)"
  shows "extract_fill_fields (wire_entry structured
      (fill_entry EventOrderFilled r actor engine_seq ev (filled_text ev)))
    = Inr (event_buyer ev, event_seller ev, event_price ev, event_quantity ev)"
  using assms
  by (simp add: extract_fill_fields_def wire_entry_def fill_entry_def order_entry_def
    match_filled_text parse_uint64_text parse_int64_text)

lemma filled_entry_read_back_witness:
  "extract_fill_fields (wire_entry False (fill_entry EventOrderFilled (demo_order ''a'' True 100 5) ''a'' 7
      \<lparr>event_buyer = ''a'', event_seller = ''b'', event_price = 100, event_quantity = 5\<rparr>
      (filled_text \<lparr>event_buyer = ''a'', event_seller = ''b'', event_price = 100, event_quantity = 5\<rparr>)))
    = Inr (''a'', ''b'', 100, 5)"
  using filled_entry_read_back [of "\<lparr>event_buyer = ''a'', event_seller = ''b'', event_price = 100, event_quantity = 5\<rparr>"
    False "demo_order ''a'' True 100 5" "''a''" 7]
  by (simp add: is_nonspace_def word_sle_eq)

text \<open>
  A negative price, which no gate of the gateway excludes, is written with a sign that the fallback
  does not read.
\<close>

theorem negative_price_not_read_back:
  assumes "event_price ev <s 0"
  shows "match_fill_detail (filled_text ev) = None"
proof -
  have detail: "filled_text ev = ''filled '' @ decimal_of_nat (unat (event_quantity ev)) @ '' @ '' @
      ''-'' @ decimal_of_nat (nat (- sint (event_price ev))) @ '' (buyer='' @ event_buyer ev @ '' seller='' @
      event_seller ev @ '')''"
    using assms by (simp add: filled_text_def uint64_text_nat int64_text_def decimal_of_int_def word_sless_alt)
  have "\<not> is_digit CHR ''-''" by (simp add: is_digit_def)
  then show ?thesis
    unfolding detail by (simp add: match_fill_detail_def take_run_stop decimal_of_nat_digits) (simp add: take_run_def)
qed

section \<open>What the history holds\<close>

text \<open>
  The fills of an account are the fills of the trail that it took part in, in the order of the trail.
  A trade of an account with itself is recorded once, as a purchase: the sale is lost.
\<close>

lemma parse_fills_account: "f \<in> set (fst (parse_fills account es)) \<Longrightarrow> fill_account f = account"
  by (induction es)
    (auto simp: trail_fill_def side_of_def split: prod.splits sum.splits option.splits if_splits)

theorem self_trade_recorded_as_purchase:
  assumes "trail_event_type e = ''ORDER_FILLED''" and "extract_fill_fields e = Inr (a, a, price, quantity)"
  shows "map fill_side (fst (parse_fills a [e])) = [SideBuy]"
  using assms by (simp add: trail_fill_def side_of_def)

end
