(* ===== verification/CapitalGains.thy ===== *)
theory CapitalGains
  imports FillTrail
begin

text \<open>
  Realized capital gains by first-in-first-out matching of lots,
  services/reporting/internal/capitalgains/capitalGains.go. The order in which a Go map is iterated and
  the order in which \<open>sort.Slice\<close> leaves equal times are not fixed by Go: both are arguments, the first
  a permutation of the keys, the second a permutation of the fills that is sorted by time.
\<close>

section \<open>Lots and gains\<close>

record buy_lot =
  lot_quantity :: uint64
  lot_price :: int64
  lot_acquired :: instant

datatype gain_type = ShortTermGain | LongTermGain

record realized_gain =
  gain_instrument :: string
  gain_quantity :: uint64
  gain_acquired :: instant
  gain_sold :: instant
  gain_buy_price :: int64
  gain_sell_price :: int64
  gain_holding_days :: int
  gain_type :: gain_type
  gain_amount :: int64

text \<open>\<open>SellExceedsHeld\<close> carries the instrument, the sale's quantity and time and the unmatched units.\<close>

datatype gains_error = SellExceedsHeld string uint64 instant uint64

definition classify_holding_period :: "int \<Rightarrow> instant \<Rightarrow> instant \<Rightarrow> gain_type \<times> int" where
  "classify_holding_period offset acquired sold =
    (let days = sint (int64_of_float (float_div (duration_hours (time_sub sold acquired)) 24))
     in if \<not> time_before sold (add_date offset 1 0 0 acquired) then (LongTermGain, days) else (ShortTermGain, days))"

definition match_gain :: "int \<Rightarrow> string \<Rightarrow> executed_fill \<Rightarrow> buy_lot \<Rightarrow> uint64 \<Rightarrow> realized_gain" where
  "match_gain offset ins f lot matched =
    (case classify_holding_period offset (lot_acquired lot) (fill_time f) of (t, days) \<Rightarrow>
     \<lparr>gain_instrument = ins, gain_quantity = matched, gain_acquired = lot_acquired lot, gain_sold = fill_time f,
      gain_buy_price = lot_price lot, gain_sell_price = fill_price f, gain_holding_days = days, gain_type = t,
      gain_amount = (fill_price f - lot_price lot) * matched\<rparr>)"

section \<open>Matching\<close>

text \<open>
  The loop of a sale, which runs while something remains to be sold: the gains it appends, and the
  open lots it leaves or the units it found no lot for. A value \<open>None\<close> would be a loop that never ends.
\<close>

partial_function (option) sell_loop ::
    "int \<Rightarrow> string \<Rightarrow> executed_fill \<Rightarrow> uint64 \<Rightarrow> buy_lot list \<Rightarrow> (realized_gain list \<times> (uint64 + buy_lot list)) option" where
  "sell_loop offset ins f remaining lots =
    (if remaining = 0 then Some ([], Inr lots)
     else case lots of
       [] \<Rightarrow> Some ([], Inl remaining)
     | lot # rest \<Rightarrow>
         let matched = (if remaining < lot_quantity lot then remaining else lot_quantity lot);
             left = lot_quantity lot - matched;
             lots' = (if left = 0 then rest else lot\<lparr>lot_quantity := left\<rparr> # rest)
         in Option.bind (sell_loop offset ins f (remaining - matched) lots')
              (\<lambda>(gains, outcome). Some (match_gain offset ins f lot matched # gains, outcome)))"

text \<open>
  The fills of one instrument in order. The gains found before a sale that the lots do not cover
  are kept.
\<close>

fun match_fills :: "int \<Rightarrow> string \<Rightarrow> executed_fill list \<Rightarrow> buy_lot list \<Rightarrow>
    (realized_gain list \<times> gains_error option) option" where
  "match_fills offset ins [] lots = Some ([], None)"
| "match_fills offset ins (f # fs) lots =
    (case fill_side f of
       SideBuy \<Rightarrow> match_fills offset ins fs (lots @ [\<lparr>lot_quantity = fill_quantity f, lot_price = fill_price f,
         lot_acquired = fill_time f\<rparr>])
     | SideSell \<Rightarrow> Option.bind (sell_loop offset ins f (fill_quantity f) lots) (\<lambda>(gains, outcome).
         case outcome of
           Inl unmatched \<Rightarrow> Some (gains, Some (SellExceedsHeld ins (fill_quantity f) (fill_time f) unmatched))
         | Inr lots' \<Rightarrow> map_option (\<lambda>(gains', err). (gains @ gains', err)) (match_fills offset ins fs lots')))"

fun match_instruments :: "int \<Rightarrow> (executed_fill list \<Rightarrow> executed_fill list) \<Rightarrow> executed_fill list \<Rightarrow> string list \<Rightarrow>
    (realized_gain list \<times> gains_error option) option" where
  "match_instruments offset by_time fills [] = Some ([], None)"
| "match_instruments offset by_time fills (ins # rest) =
    Option.bind (match_fills offset ins (by_time (filter (\<lambda>f. fill_instrument f = ins) fills)) []) (\<lambda>(gains, err).
      case err of
        Some e \<Rightarrow> Some (gains, Some e)
      | None \<Rightarrow> map_option (\<lambda>(gains', err'). (gains @ gains', err')) (match_instruments offset by_time fills rest))"

definition compute_fifo_realized_gains :: "int \<Rightarrow> (string list \<Rightarrow> string list) \<Rightarrow> (executed_fill list \<Rightarrow> executed_fill list) \<Rightarrow>
    (realized_gain list \<Rightarrow> realized_gain list) \<Rightarrow> executed_fill list \<Rightarrow> (realized_gain list \<times> gains_error option) option" where
  "compute_fifo_realized_gains offset map_order by_time gains_by_time fills =
    map_option (\<lambda>(gains, err). (if err = None then gains_by_time gains else gains, err))
      (match_instruments offset by_time fills (map_order (remdups (map fill_instrument fills))))"

section \<open>Aggregation\<close>

record gains_summary =
  summary_account :: string
  summary_financial_year :: string
  summary_start :: instant
  summary_end :: instant
  summary_gains :: "realized_gain list"
  summary_short_term :: int64
  summary_long_term :: int64

fun add_gains :: "instant \<Rightarrow> instant \<Rightarrow> realized_gain list \<Rightarrow> gains_summary \<Rightarrow> gains_summary" where
  "add_gains start stop [] s = s"
| "add_gains start stop (g # gs) s =
    (if time_before (gain_sold g) start \<or> time_after (gain_sold g) stop then add_gains start stop gs s
     else let s1 = s\<lparr>summary_gains := summary_gains s @ [g]\<rparr>
       in add_gains start stop gs (case gain_type g of
            ShortTermGain \<Rightarrow> s1\<lparr>summary_short_term := summary_short_term s1 + gain_amount g\<rparr>
          | LongTermGain \<Rightarrow> s1\<lparr>summary_long_term := summary_long_term s1 + gain_amount g\<rparr>))"

definition aggregate_for_financial_year :: "string \<Rightarrow> string \<Rightarrow> realized_gain list \<Rightarrow> instant \<Rightarrow> instant \<Rightarrow>
    gains_summary" where
  "aggregate_for_financial_year account label gains start stop =
    add_gains start stop gains \<lparr>summary_account = account, summary_financial_year = label, summary_start = start,
      summary_end = stop, summary_gains = [], summary_short_term = 0, summary_long_term = 0\<rparr>"

section \<open>The loop of a sale ends\<close>

lemma sell_loop_stop [simp]:
  "sell_loop offset ins f 0 lots = Some ([], Inr lots)"
  "remaining \<noteq> 0 \<Longrightarrow> sell_loop offset ins f remaining [] = Some ([], Inl remaining)"
  by (subst sell_loop.simps, simp)+

lemma sell_loop_round:
  assumes "remaining \<noteq> 0" and "matched = (if remaining < lot_quantity lot then remaining else lot_quantity lot)"
    and "lots' = (if lot_quantity lot - matched = 0 then rest
      else lot\<lparr>lot_quantity := lot_quantity lot - matched\<rparr> # rest)"
  shows "sell_loop offset ins f remaining (lot # rest) =
    Option.bind (sell_loop offset ins f (remaining - matched) lots')
      (\<lambda>(gains, outcome). Some (match_gain offset ins f lot matched # gains, outcome))"
  using assms by (subst sell_loop.simps) (simp add: Let_def)

text \<open>Every round either closes a lot or completes the sale: at most one round more than there are lots.\<close>

lemma sell_loop_terminates: "\<exists>r. sell_loop offset ins f remaining lots = Some r"
proof (induction "length lots + (if remaining = 0 then 0 else 1)" arbitrary: remaining lots rule: less_induct)
  case less
  show ?case
  proof (cases "remaining = 0 \<or> lots = []")
    case True
    then show ?thesis
      by (cases "remaining = 0") auto
  next
    case False
    then obtain lot rest where lots: "lots = lot # rest" by (cases lots) auto
    define matched where "matched = (if remaining < lot_quantity lot then remaining else lot_quantity lot)"
    define lots' where "lots' = (if lot_quantity lot - matched = 0 then rest
      else lot\<lparr>lot_quantity := lot_quantity lot - matched\<rparr> # rest)"
    have "length lots' + (if remaining - matched = 0 then 0 else 1) < length lots + (if remaining = 0 then 0 else 1)"
      using False by (auto simp: lots lots'_def matched_def)
    from less [OF this] show ?thesis
      using False by (auto simp: lots sell_loop_round [OF _ matched_def lots'_def])
  qed
qed

lemma match_fills_terminates: "\<exists>r. match_fills offset ins fs lots = Some r"
proof (induction offset ins fs lots rule: match_fills.induct)
  case (2 offset ins f fs lots)
  obtain gains outcome where "sell_loop offset ins f (fill_quantity f) lots = Some (gains, outcome)"
    using sell_loop_terminates [of offset ins f "fill_quantity f" lots] by auto
  with 2 show ?case
    by (cases "fill_side f"; cases outcome) fastforce+
qed simp

lemma match_instruments_terminates: "\<exists>r. match_instruments offset by_time fills is = Some r"
proof (induction "is")
  case (Cons i "is")
  obtain gains err where "match_fills offset i (by_time (filter (\<lambda>f. fill_instrument f = i) fills)) [] = Some (gains, err)"
    using match_fills_terminates by (metis surj_pair)
  with Cons show ?case by (cases err) auto
qed simp

section \<open>Shares one by one\<close>

text \<open>
  The specification knows no lots: the shares bought and the shares sold, one entry each, in order.
  A gain stands for as many pairs of a purchase and a sale as its quantity says.
\<close>

type_synonym share = "int64 \<times> instant"

definition lot_shares :: "buy_lot list \<Rightarrow> share list" where
  "lot_shares lots = concat (map (\<lambda>l. replicate (unat (lot_quantity l)) (lot_price l, lot_acquired l)) lots)"

definition gain_shares :: "realized_gain list \<Rightarrow> (share \<times> share) list" where
  "gain_shares gains = concat (map (\<lambda>g. replicate (unat (gain_quantity g))
     ((gain_buy_price g, gain_acquired g), (gain_sell_price g, gain_sold g))) gains)"

definition shares_of :: "fill_side \<Rightarrow> executed_fill list \<Rightarrow> share list" where
  "shares_of side fs = concat (map (\<lambda>f. if fill_side f = side
     then replicate (unat (fill_quantity f)) (fill_price f, fill_time f) else []) fs)"

text \<open>No sale exceeds what is held at its time.\<close>

fun sales_covered :: "nat \<Rightarrow> executed_fill list \<Rightarrow> bool" where
  "sales_covered held [] = True"
| "sales_covered held (f # fs) = (case fill_side f of
     SideBuy \<Rightarrow> sales_covered (held + unat (fill_quantity f)) fs
   | SideSell \<Rightarrow> unat (fill_quantity f) \<le> held \<and> sales_covered (held - unat (fill_quantity f)) fs)"

lemma shares_simps [simp]:
  "lot_shares [] = []" "gain_shares [] = []" "shares_of side [] = []"
  "lot_shares (l # ls) = replicate (unat (lot_quantity l)) (lot_price l, lot_acquired l) @ lot_shares ls"
  "lot_shares (ls @ ms) = lot_shares ls @ lot_shares ms"
  "gain_shares (g # gs) = replicate (unat (gain_quantity g))
     ((gain_buy_price g, gain_acquired g), (gain_sell_price g, gain_sold g)) @ gain_shares gs"
  "gain_shares (gs @ hs) = gain_shares gs @ gain_shares hs"
  "shares_of side (f # fs) = (if fill_side f = side
     then replicate (unat (fill_quantity f)) (fill_price f, fill_time f) else []) @ shares_of side fs"
  by (simp_all add: lot_shares_def gain_shares_def shares_of_def)

lemma match_gain_simps [simp]:
  "gain_quantity (match_gain offset ins f lot m) = m"
  "gain_buy_price (match_gain offset ins f lot m) = lot_price lot"
  "gain_acquired (match_gain offset ins f lot m) = lot_acquired lot"
  "gain_sell_price (match_gain offset ins f lot m) = fill_price f"
  "gain_sold (match_gain offset ins f lot m) = fill_time f"
  "gain_instrument (match_gain offset ins f lot m) = ins"
  "gain_amount (match_gain offset ins f lot m) = (fill_price f - lot_price lot) * m"
  by (simp_all add: match_gain_def split: prod.split)

definition gain_consistent :: "string \<Rightarrow> realized_gain \<Rightarrow> bool" where
  "gain_consistent ins g \<longleftrightarrow> gain_instrument g = ins \<and>
    gain_amount g = (gain_sell_price g - gain_buy_price g) * gain_quantity g"

definition sell_spec :: "string \<Rightarrow> executed_fill \<Rightarrow> nat \<Rightarrow> buy_lot list \<Rightarrow> realized_gain list \<Rightarrow> uint64 + buy_lot list \<Rightarrow> bool" where
  "sell_spec ins f n lots gains outcome \<longleftrightarrow>
    gain_shares gains = map (\<lambda>s. (s, (fill_price f, fill_time f))) (take n (lot_shares lots))
    \<and> list_all (gain_consistent ins) gains
    \<and> (case outcome of
        Inl unmatched \<Rightarrow> length (lot_shares lots) < n
      | Inr lots' \<Rightarrow> n \<le> length (lot_shares lots) \<and> lot_shares lots' = drop n (lot_shares lots))"

lemma sell_loop_shares:
  assumes "sell_loop offset ins f remaining lots = Some (gains, outcome)"
  shows "sell_spec ins f (unat remaining) lots gains outcome"
  using assms
proof (induction "length lots + (if remaining = 0 then 0 else 1)" arbitrary: remaining lots gains rule: less_induct)
  case less
  show ?case
  proof (cases "remaining = 0 \<or> lots = []")
    case True
    then show ?thesis
      using less(2) by (cases "remaining = 0") (auto simp: sell_spec_def unat_gt_0)
  next
    case False
    then obtain lot rest where lots: "lots = lot # rest" by (cases lots) auto
    define matched where "matched = (if remaining < lot_quantity lot then remaining else lot_quantity lot)"
    define lots' where "lots' = (if lot_quantity lot - matched = 0 then rest
      else lot\<lparr>lot_quantity := lot_quantity lot - matched\<rparr> # rest)"
    have shorter: "length lots' + (if remaining - matched = 0 then 0 else 1) <
        length lots + (if remaining = 0 then 0 else 1)"
      using False by (auto simp: lots lots'_def matched_def)
    from less(2) False obtain gains' where gains: "gains = match_gain offset ins f lot matched # gains'"
      and "sell_loop offset ins f (remaining - matched) lots' = Some (gains', outcome)"
      by (auto simp: lots sell_loop_round [OF _ matched_def lots'_def [unfolded lots]] split: Option.bind_splits)
    note spec = less(1) [OF shorter this(2)]
    have m: "unat matched \<le> unat remaining" "unat matched \<le> unat (lot_quantity lot)"
      by (auto simp: matched_def word_less_nat_alt)
    then have r: "unat (remaining - matched) = unat remaining - unat matched"
      and q: "unat (lot_quantity lot - matched) = unat (lot_quantity lot) - unat matched"
      by (simp_all add: unat_sub word_le_nat_alt)
    have lots'_shares: "lot_shares lots' = drop (unat matched) (lot_shares lots)"
      using m q by (auto simp: lots'_def lots drop_replicate unat_eq_zero [symmetric] simp del: unat_eq_zero)
    have head: "take (unat matched) (lot_shares lots) = replicate (unat matched) (lot_price lot, lot_acquired lot)"
      using m by (simp add: lots)
    have len: "unat matched \<le> length (lot_shares lots)"
      using m by (simp add: lots)
    have "take (unat remaining) (lot_shares lots) = take (unat matched) (lot_shares lots) @
        take (unat remaining - unat matched) (drop (unat matched) (lot_shares lots))"
      using m(1) take_add [of "unat matched" "unat remaining - unat matched" "lot_shares lots"] by simp
    then show ?thesis
      using spec m len unfolding sell_spec_def gains lots'_shares r
      by (auto simp: head gain_consistent_def split: sum.splits)
  qed
qed

lemma match_fills_shares:
  assumes "match_fills offset ins fs lots = Some (gains, err)"
  shows "(err = None \<longleftrightarrow> sales_covered (length (lot_shares lots)) fs) \<and> list_all (gain_consistent ins) gains
    \<and> (err = None \<longrightarrow> gain_shares gains = zip (lot_shares lots @ shares_of SideBuy fs) (shares_of SideSell fs))"
  using assms
proof (induction offset ins fs lots arbitrary: gains err rule: match_fills.induct)
  case (2 offset ins f fs lots)
  show ?case
  proof (cases "fill_side f")
    case SideBuy
    with 2(1) [OF SideBuy, of gains err] 2(3) show ?thesis by (simp add: add.commute)
  next
    case SideSell
    then obtain sold outcome where sale: "sell_loop offset ins f (fill_quantity f) lots = Some (sold, outcome)"
      using sell_loop_terminates [of offset ins f "fill_quantity f" lots] by auto
    note spec = sell_loop_shares [OF sale]
    show ?thesis
    proof (cases outcome)
      case (Inl u)
      with 2(3) SideSell sale spec show ?thesis by (auto simp: sell_spec_def)
    next
      case (Inr lots')
      with 2(3) SideSell sale obtain gains' where rest: "match_fills offset ins fs lots' = Some (gains', err)"
        and gains: "gains = sold @ gains'" by (auto split: option.splits)
      let ?n = "unat (fill_quantity f)"
      have n: "?n \<le> length (lot_shares lots)" "lot_shares lots' = drop ?n (lot_shares lots)"
        and sold: "gain_shares sold = map (\<lambda>s. (s, (fill_price f, fill_time f))) (take ?n (lot_shares lots))"
        using spec Inr by (auto simp: sell_spec_def)
      have pairs: "map (\<lambda>s. (s, x)) xs = zip xs (replicate (length xs) x)" for x :: share and xs :: "share list"
        by (induction xs) simp_all
      have "zip (lot_shares lots @ shares_of SideBuy fs) (replicate ?n x @ ys) =
          zip (take ?n (lot_shares lots)) (replicate ?n x) @ zip (drop ?n (lot_shares lots) @ shares_of SideBuy fs) ys" for x :: share and ys
        using n(1) zip_append [of "take ?n (lot_shares lots)" "replicate ?n x" "drop ?n (lot_shares lots) @ shares_of SideBuy fs" ys]
        by (simp flip: append_assoc)
      with 2(2) [OF SideSell sale refl Inr rest] spec n sold show ?thesis
        by (auto simp: gains SideSell sell_spec_def pairs min_absorb2)
    qed
  qed
qed simp

section \<open>Properties\<close>

text \<open>C30. The computation returns, whatever the fills.\<close>

theorem gains_computation_returns:
  "\<exists>r. compute_fifo_realized_gains offset map_order by_time gains_by_time fills = Some r"
  using match_instruments_terminates [of offset by_time fills "map_order (remdups (map fill_instrument fills))"]
  by (auto simp: compute_fifo_realized_gains_def)

text \<open>What Go promises of the iteration of a map and of \<open>sort.Slice\<close>.\<close>

definition permutes :: "('a list \<Rightarrow> 'a list) \<Rightarrow> bool" where
  "permutes p \<longleftrightarrow> (\<forall>xs. mset (p xs) = mset xs)"

definition instrument_fills :: "(executed_fill list \<Rightarrow> executed_fill list) \<Rightarrow> executed_fill list \<Rightarrow> string \<Rightarrow> executed_fill list" where
  "instrument_fills by_time fills ins = by_time (filter (\<lambda>f. fill_instrument f = ins) fills)"

definition gains_of :: "string \<Rightarrow> realized_gain list \<Rightarrow> realized_gain list" where
  "gains_of ins gains = filter (\<lambda>g. gain_instrument g = ins) gains"

lemma match_fills_instrument:
  assumes "match_fills offset ins fs [] = Some (gains, err)"
  shows "gains_of j gains = (if j = ins then gains else [])"
  using match_fills_shares [OF assms]
  by (auto simp: gains_of_def gain_consistent_def list_all_iff filter_empty_conv intro!: filter_True)

lemma match_instruments_shares:
  assumes "match_instruments offset by_time fills is = Some (gains, None)" and "distinct is"
  shows "(\<forall>i \<in> set is. sales_covered 0 (instrument_fills by_time fills i) \<and>
      gain_shares (gains_of i gains) = zip (shares_of SideBuy (instrument_fills by_time fills i))
        (shares_of SideSell (instrument_fills by_time fills i)))
    \<and> (\<forall>g \<in> set gains. gain_amount g = (gain_sell_price g - gain_buy_price g) * gain_quantity g)
    \<and> (\<forall>i. i \<notin> set is \<longrightarrow> gains_of i gains = [])"
  using assms
proof (induction "is" arbitrary: gains)
  case Nil
  then show ?case by (simp add: gains_of_def)
next
  case (Cons i "is")
  obtain g1 err where first: "match_fills offset i (instrument_fills by_time fills i) [] = Some (g1, err)"
    using match_fills_terminates by (metis surj_pair)
  with Cons(2) obtain g2 where rest: "match_instruments offset by_time fills is = Some (g2, None)"
    and e: "err = None" and gains: "gains = g1 @ g2"
    by (auto simp: instrument_fills_def split: option.splits)
  have app: "gains_of j (xs @ ys) = gains_of j xs @ gains_of j ys" for j xs ys
    by (simp add: gains_of_def)
  have i: "i \<notin> set is" and "distinct is" using Cons(3) by simp_all
  note ih = Cons(1) [OF rest this(2)]
  have g1: "gains_of j g1 = (if j = i then g1 else [])" for j
    by (rule match_fills_instrument [OF first])
  have split: "gains_of j gains = (if j = i then g1 else gains_of j g2)" for j
    using ih i unfolding gains app g1 by simp
  have one: "sales_covered 0 (instrument_fills by_time fills i)"
    "gain_shares g1 = zip (shares_of SideBuy (instrument_fills by_time fills i))
      (shares_of SideSell (instrument_fills by_time fills i))"
    "\<forall>g \<in> set g1. gain_amount g = (gain_sell_price g - gain_buy_price g) * gain_quantity g"
    using match_fills_shares [OF first] by (simp_all add: e list_all_iff gain_consistent_def)
  show ?case
  proof (intro conjI)
    show "\<forall>j \<in> set (i # is). sales_covered 0 (instrument_fills by_time fills j) \<and>
      gain_shares (gains_of j gains) = zip (shares_of SideBuy (instrument_fills by_time fills j))
        (shares_of SideSell (instrument_fills by_time fills j))"
    proof
      fix j
      assume "j \<in> set (i # is)"
      then show "sales_covered 0 (instrument_fills by_time fills j) \<and>
          gain_shares (gains_of j gains) = zip (shares_of SideBuy (instrument_fills by_time fills j))
            (shares_of SideSell (instrument_fills by_time fills j))"
        unfolding split using ih one(1,2) by (cases "j = i") simp_all
    qed
    show "\<forall>g \<in> set gains. gain_amount g = (gain_sell_price g - gain_buy_price g) * gain_quantity g"
      unfolding gains set_append using ih one(3) by blast
    show "\<forall>j. j \<notin> set (i # is) \<longrightarrow> gains_of j gains = []"
      unfolding split using ih by (metis list.set_intros)
  qed
qed

lemma match_instruments_error:
  assumes "match_instruments offset by_time fills is = Some (gains, Some e)"
  shows "\<exists>i \<in> set is. \<not> sales_covered 0 (instrument_fills by_time fills i)"
  using assms
proof (induction "is" arbitrary: gains)
  case (Cons i "is")
  obtain g1 err where first: "match_fills offset i (instrument_fills by_time fills i) [] = Some (g1, err)"
    using match_fills_terminates by (metis surj_pair)
  show ?case
  proof (cases err)
    case None
    with Cons(2) first obtain g2 where "match_instruments offset by_time fills is = Some (g2, Some e)"
      by (auto simp: instrument_fills_def split: option.splits)
    from Cons(1) [OF this] show ?thesis by auto
  next
    case (Some x)
    with match_fills_shares [OF first] show ?thesis by auto
  qed
qed simp

lemma no_fills_of:
  "permutes by_time \<Longrightarrow> ins \<notin> set (map fill_instrument fills) \<Longrightarrow> instrument_fills by_time fills ins = []"
proof -
  assume "permutes by_time" and "ins \<notin> set (map fill_instrument fills)"
  moreover from this(2) have "filter (\<lambda>f. fill_instrument f = ins) fills = []" by (auto simp: filter_empty_conv)
  ultimately have "mset (instrument_fills by_time fills ins) = {#}"
    by (simp add: instrument_fills_def permutes_def)
  then show ?thesis by simp
qed

lemma mset_gain_shares: "mset gs = mset hs \<Longrightarrow> mset (gain_shares (gains_of i gs)) = mset (gain_shares (gains_of i hs))"
proof -
  have sum: "mset (gain_shares gs) = (\<Sum>g\<in>#mset gs. mset (gain_shares [g]))" for gs
    by (induction gs) simp_all
  assume "mset gs = mset hs"
  then have "mset (gains_of i gs) = mset (gains_of i hs)" by (simp add: gains_of_def)
  then show ?thesis by (metis sum)
qed

text \<open>
  C31. First in, first out, share by share: the computation succeeds exactly when no instrument's sales
  exceed what was held at their time, and then the gains of every instrument pair the shares sold, in
  order, with the shares bought, in order: the n-th share sold is the n-th share bought, each with its
  own price and time, and every gain is the difference of its prices times its quantity.
\<close>

theorem fifo_pairs_shares:
  assumes "permutes map_order" and "permutes by_time" and "permutes gains_by_time"
    and "compute_fifo_realized_gains offset map_order by_time gains_by_time fills = Some (gains, err)"
  shows "(err = None \<longleftrightarrow> (\<forall>ins. sales_covered 0 (instrument_fills by_time fills ins)))
    \<and> (err = None \<longrightarrow> (\<forall>ins. mset (gain_shares (gains_of ins gains)) =
        mset (zip (shares_of SideBuy (instrument_fills by_time fills ins))
          (shares_of SideSell (instrument_fills by_time fills ins))))
      \<and> (\<forall>g \<in> set gains. gain_amount g = (gain_sell_price g - gain_buy_price g) * gain_quantity g))"
proof -
  define order where "order = map_order (remdups (map fill_instrument fills))"
  have o: "mset order = mset (remdups (map fill_instrument fills))"
    using assms(1) by (simp add: permutes_def order_def)
  then have order: "set order = set (map fill_instrument fills)" "distinct order"
    using mset_eq_setD [OF o] mset_eq_imp_distinct_iff [OF o] by auto
  obtain gs where run: "match_instruments offset by_time fills order = Some (gs, err)"
    and gains: "gains = (if err = None then gains_by_time gs else gs)"
    using assms(4) by (auto simp: compute_fifo_realized_gains_def order_def)
  show ?thesis
  proof (cases err)
    case (Some e)
    with match_instruments_error [of offset by_time fills order gs e] run show ?thesis by auto
  next
    case None
    note spec = match_instruments_shares [OF run [unfolded None] order(2)]
    have m: "mset gains = mset gs" using None gains assms(3) by (simp add: permutes_def)
    have "sales_covered 0 (instrument_fills by_time fills ins) \<and>
        mset (gain_shares (gains_of ins gains)) = mset (zip (shares_of SideBuy (instrument_fills by_time fills ins))
          (shares_of SideSell (instrument_fills by_time fills ins)))" for ins
      using spec order(1) no_fills_of [OF assms(2), of ins fills] mset_gain_shares [OF m, of ins]
      by (cases "ins \<in> set order") auto
    moreover have "set gains = set gs" using m by (rule mset_eq_setD)
    ultimately show ?thesis using None spec by auto
  qed
qed

definition demo_fills :: "executed_fill list" where
  "demo_fills = (let f = \<lparr>fill_account = ''a'', fill_instrument = ''X'', fill_side = SideBuy, fill_quantity = 2,
     fill_price = 100, fill_time = 1, fill_engine_sequence = 0, fill_counterparty = ''b''\<rparr>
     in [f, f\<lparr>fill_side := SideSell, fill_quantity := 1, fill_price := 120, fill_time := 5\<rparr>])"

lemma fifo_pairs_shares_witness:
  "\<exists>gains. compute_fifo_realized_gains 0 id (sort_key fill_time) (sort_key gain_sold) demo_fills = Some (gains, None) \<and>
    mset (gain_shares (gains_of ''X'' gains)) = {#((100, 1), (120, 5))#}"
proof -
  obtain gains err where r: "compute_fifo_realized_gains 0 id (sort_key fill_time) (sort_key gain_sold) demo_fills
      = Some (gains, err)"
    using gains_computation_returns by fastforce
  have "permutes id" "permutes (sort_key fill_time)" "permutes (sort_key gain_sold)"
    by (simp_all add: permutes_def)
  note * = fifo_pairs_shares [OF this r]
  have fs: "instrument_fills (sort_key fill_time) demo_fills i = (if i = ''X'' then demo_fills else [])" for i
    by (simp add: instrument_fills_def demo_fills_def Let_def)
  have "\<forall>i. sales_covered 0 (instrument_fills (sort_key fill_time) demo_fills i)"
    by (simp add: fs) (simp add: demo_fills_def Let_def)
  with * have "err = None" and "mset (gain_shares (gains_of ''X'' gains)) =
      mset (zip (shares_of SideBuy demo_fills) (shares_of SideSell demo_fills))"
    by (auto simp: fs)
  moreover have "mset (zip (shares_of SideBuy demo_fills) (shares_of SideSell demo_fills)) = {#((100, 1), (120, 5))#}"
    by (simp add: demo_fills_def Let_def) (simp add: numeral_2_eq_2)
  ultimately show ?thesis using r by metis
qed

end
