(* ===== verification/AuthCodecs.thy ===== *)
theory AuthCodecs
  imports GoText
begin

text \<open>
  The encodings of the authentication service: base64 for URLs without padding
  (\<open>base64.RawURLEncoding\<close>), base32 without padding, big-endian counters, and the parsing of a
  decimal number by \<open>strconv.Atoi\<close>. The decoders ignore line ends and the spare bits of the last
  character, as the decoders of Go's library do.
\<close>

unbundle bit_operations_syntax

type_synonym byte = "8 word"

section \<open>Base64 for URLs\<close>

definition base64_char :: "6 word \<Rightarrow> char" where
  "base64_char v = (let n = unat v in
     if n < 26 then char_of (65 + n) else if n < 52 then char_of (71 + n)
     else if n < 62 then char_of (n - 4) else if n = 62 then CHR ''-'' else CHR ''_'')"

definition base64_value :: "char \<Rightarrow> 6 word option" where
  "base64_value c = (let n = of_char c :: nat in
     if 65 \<le> n \<and> n \<le> 90 then Some (of_nat (n - 65)) else if 97 \<le> n \<and> n \<le> 122 then Some (of_nat (n - 71))
     else if 48 \<le> n \<and> n \<le> 57 then Some (of_nat (n + 4))
     else if n = 45 then Some 62 else if n = 95 then Some 63 else None)"

definition sextets :: "byte \<Rightarrow> byte \<Rightarrow> byte \<Rightarrow> 6 word list" where
  "sextets a b c = [ucast (drop_bit 2 a), ucast (push_bit 4 (a AND 3) OR drop_bit 4 b),
     ucast (push_bit 2 (b AND 15) OR drop_bit 6 c), ucast (c AND 63)]"

definition octets :: "6 word \<Rightarrow> 6 word \<Rightarrow> 6 word \<Rightarrow> 6 word \<Rightarrow> byte list" where
  "octets v w x y = [push_bit 2 (ucast v) OR drop_bit 4 (ucast w), push_bit 4 (ucast w) OR drop_bit 2 (ucast x),
     push_bit 6 (ucast x) OR ucast y]"

fun base64_groups :: "byte list \<Rightarrow> 6 word list" where
  "base64_groups [] = []"
| "base64_groups [a] = take 2 (sextets a 0 0)"
| "base64_groups [a, b] = take 3 (sextets a b 0)"
| "base64_groups (a # b # c # rest) = sextets a b c @ base64_groups rest"

fun bytes_of_groups :: "6 word list \<Rightarrow> byte list option" where
  "bytes_of_groups [] = Some []"
| "bytes_of_groups [v] = None"
| "bytes_of_groups [v, w] = Some (take 1 (octets v w 0 0))"
| "bytes_of_groups [v, w, x] = Some (take 2 (octets v w x 0))"
| "bytes_of_groups (v # w # x # y # rest) = map_option (\<lambda>bs. octets v w x y @ bs) (bytes_of_groups rest)"

definition line_end :: "char \<Rightarrow> bool" where
  "line_end c = (of_char c = (10 :: nat) \<or> of_char c = (13 :: nat))"

definition base64_encode :: "byte list \<Rightarrow> string" where
  "base64_encode bs = map base64_char (base64_groups bs)"

definition base64_decode :: "string \<Rightarrow> byte list option" where
  "base64_decode s = (let vs = map base64_value (filter (\<lambda>c. \<not> line_end c) s)
     in if None \<in> set vs then None else bytes_of_groups (map the vs))"

lemma base64_value_char: "base64_value (base64_char v) = Some v"
proof -
  have v: "unat v < 64" using unsigned_less [of v, where 'a=nat] by simp
  have back_v: "of_nat (unat v) = v" by simp
  consider "unat v < 26" | "26 \<le> unat v" "unat v < 52" | "52 \<le> unat v" "unat v < 62" | "unat v = 62" | "unat v = 63"
    using v by linarith
  then show ?thesis
  proof cases
    case 3
    then have "48 \<le> unat v - 4 \<and> unat v - 4 \<le> 57" by arith
    then show ?thesis using 3 back_v by (simp add: base64_char_def base64_value_def Let_def of_char_of)
  next
    case 4
    then have "v = 62" using back_v by simp
    then show ?thesis by (simp add: base64_char_def base64_value_def Let_def)
  next
    case 5
    then have "v = 63" using back_v by simp
    then show ?thesis by (simp add: base64_char_def base64_value_def Let_def)
  qed (use v back_v in \<open>simp_all add: base64_char_def base64_value_def Let_def of_char_of\<close>)
qed

lemma base64_char_not_line_end: "\<not> line_end (base64_char v)"
  using base64_value_char [of v] by (auto simp: line_end_def base64_value_def Let_def)

lemma byte_eqI:
  assumes "bit a 0 = bit b 0" and "bit a 1 = bit b 1" and "bit a 2 = bit b 2" and "bit a 3 = bit b 3"
    and "bit a 4 = bit b 4" and "bit a 5 = bit b 5" and "bit a 6 = bit b 6" and "bit a 7 = bit b 7"
  shows "a = (b :: byte)"
proof (rule bit_word_eqI)
  fix n
  assume "n < LENGTH(8)"
  then have "n \<in> {0, 1, 2, 3, 4, 5, 6, 7}" by auto
  then show "bit a n = bit b n" using assms by auto
qed

lemma bit_beyond_byte: "\<not> bit (b :: byte) 8" "\<not> bit (b :: byte) 9" "\<not> bit (b :: byte) 10" "\<not> bit (b :: byte) 11"
  by (simp_all add: impossible_bit)

lemma octets_of_sextets: "octets (sextets a b c ! 0) (sextets a b c ! 1) (sextets a b c ! 2) (sextets a b c ! 3) = [a, b, c]"
proof -
  have "push_bit 2 (ucast (ucast (drop_bit 2 a) :: 6 word))
      OR drop_bit 4 (ucast (ucast (push_bit 4 (a AND 3) OR drop_bit 4 b) :: 6 word)) = a"
    by (rule byte_eqI) (simp_all add: bit_simps bit_beyond_byte)
  moreover have "push_bit 4 (ucast (ucast (push_bit 4 (a AND 3) OR drop_bit 4 b) :: 6 word))
      OR drop_bit 2 (ucast (ucast (push_bit 2 (b AND 15) OR drop_bit 6 c) :: 6 word)) = b"
    by (rule byte_eqI) (simp_all add: bit_simps bit_beyond_byte)
  moreover have "push_bit 6 (ucast (ucast (push_bit 2 (b AND 15) OR drop_bit 6 c) :: 6 word))
      OR ucast (ucast (c AND 63) :: 6 word) = c"
    by (rule byte_eqI) (simp_all add: bit_simps bit_beyond_byte)
  ultimately show ?thesis by (simp add: octets_def sextets_def)
qed

lemma bytes_of_base64_groups: "bytes_of_groups (base64_groups bs) = Some bs"
proof (induction bs rule: base64_groups.induct)
  case 1
  show ?case by simp
next
  case (2 a)
  have "sextets a 0 0 ! 2 = 0" "sextets a 0 0 ! 3 = 0" by (simp_all add: sextets_def)
  then show ?case
    using octets_of_sextets [of a 0 0] by (simp add: sextets_def)
next
  case (3 a b)
  show ?case
    using octets_of_sextets [of a b 0] by (simp add: sextets_def)
next
  case (4 a b c rest)
  show ?case
    using octets_of_sextets [of a b c] 4 by (simp add: sextets_def)
qed

lemma base64_round_trip: "base64_decode (base64_encode bs) = Some bs"
proof -
  have "filter (\<lambda>c. \<not> line_end c) (base64_encode bs) = base64_encode bs"
    by (simp add: base64_encode_def filter_id_conv base64_char_not_line_end)
  then show ?thesis
    by (simp add: base64_decode_def base64_encode_def Let_def comp_def base64_value_char bytes_of_base64_groups image_iff)
qed

section \<open>Base32\<close>

definition base32_char :: "5 word \<Rightarrow> char" where
  "base32_char v = (let n = unat v in if n < 26 then char_of (65 + n) else char_of (24 + n))"

definition base32_value :: "char \<Rightarrow> 5 word option" where
  "base32_value c = (let n = of_char c :: nat in
     if 65 \<le> n \<and> n \<le> 90 then Some (of_nat (n - 65)) else if 50 \<le> n \<and> n \<le> 55 then Some (of_nat (n - 24)) else None)"

definition quintets :: "byte \<Rightarrow> byte \<Rightarrow> byte \<Rightarrow> byte \<Rightarrow> byte \<Rightarrow> 5 word list" where
  "quintets a b c d e = [ucast (drop_bit 3 a), ucast (push_bit 2 a AND 31 OR drop_bit 6 b),
     ucast (drop_bit 1 b AND 31), ucast (push_bit 4 b AND 31 OR drop_bit 4 c),
     ucast (push_bit 1 c AND 31 OR drop_bit 7 d), ucast (drop_bit 2 d AND 31),
     ucast (push_bit 3 d AND 31 OR drop_bit 5 e), ucast (e AND 31)]"

definition five_octets :: "5 word list \<Rightarrow> byte list" where
  "five_octets vs = [push_bit 3 (ucast (vs ! 0)) OR drop_bit 2 (ucast (vs ! 1)),
     push_bit 6 (ucast (vs ! 1)) OR push_bit 1 (ucast (vs ! 2)) OR drop_bit 4 (ucast (vs ! 3)),
     push_bit 4 (ucast (vs ! 3)) OR drop_bit 1 (ucast (vs ! 4)),
     push_bit 7 (ucast (vs ! 4)) OR push_bit 2 (ucast (vs ! 5)) OR drop_bit 3 (ucast (vs ! 6)),
     push_bit 5 (ucast (vs ! 6)) OR ucast (vs ! 7)]"

fun base32_groups :: "byte list \<Rightarrow> 5 word list" where
  "base32_groups [] = []"
| "base32_groups [a] = take 2 (quintets a 0 0 0 0)"
| "base32_groups [a, b] = take 4 (quintets a b 0 0 0)"
| "base32_groups [a, b, c] = take 5 (quintets a b c 0 0)"
| "base32_groups [a, b, c, d] = take 7 (quintets a b c d 0)"
| "base32_groups (a # b # c # d # e # rest) = quintets a b c d e @ base32_groups rest"

text \<open>The last group of one, three or six characters gives no byte at all.\<close>

fun bytes_of_quintets :: "5 word list \<Rightarrow> byte list" where
  "bytes_of_quintets [] = []"
| "bytes_of_quintets (a # b # c # d # e # f # g # h # rest) = five_octets [a, b, c, d, e, f, g, h] @ bytes_of_quintets rest"
| "bytes_of_quintets vs = take (lookup_or 0 [(7, 4), (5, 3), (4, 2), (2, 1)] (length vs))
     (five_octets (vs @ replicate (8 - length vs) 0))"

definition base32_encode :: "byte list \<Rightarrow> string" where
  "base32_encode bs = map base32_char (base32_groups bs)"

definition base32_decode :: "string \<Rightarrow> byte list option" where
  "base32_decode s = (let vs = map base32_value (filter (\<lambda>c. \<not> line_end c) s)
     in if None \<in> set vs then None else Some (bytes_of_quintets (map the vs)))"

section \<open>Counters and numbers\<close>

definition big_endian :: "uint64 \<Rightarrow> byte list" where
  "big_endian n = map (\<lambda>i. ucast (drop_bit (8 * i) n)) [7, 6, 5, 4, 3, 2, 1, 0]"

text \<open>\<open>strconv.Atoi\<close> on a platform of 64 bits: an optional sign and at least one digit.\<close>

definition atoi :: "string \<Rightarrow> int option" where
  "atoi s = (let signed = s \<noteq> [] \<and> (hd s = CHR ''-'' \<or> hd s = CHR ''+'');
       digits = (if signed then tl s else s); v = int (digits_value digits);
       n = (if s \<noteq> [] \<and> hd s = CHR ''-'' then - v else v)
     in if digits \<noteq> [] \<and> list_all (\<lambda>c. 48 \<le> (of_char c :: nat) \<and> (of_char c :: nat) \<le> 57) digits
        \<and> - (2 ^ 63) \<le> n \<and> n < 2 ^ 63 then Some n else None)"

lemma atoi_decimal: "n < 2 ^ 63 \<Longrightarrow> atoi (decimal_of_nat n) = Some (int n)"
proof -
  assume n: "n < 2 ^ 63"
  obtain c cs where s: "decimal_of_nat n = c # cs" by (cases "decimal_of_nat n") auto
  have "48 \<le> (of_char c :: nat)" using decimal_of_nat_chars [of c n] s by simp
  then have "c \<noteq> CHR ''-''" "c \<noteq> CHR ''+''" by auto
  moreover have "list_all (\<lambda>c. 48 \<le> (of_char c :: nat) \<and> (of_char c :: nat) \<le> 57) (c # cs)"
    unfolding s [symmetric] list_all_iff using decimal_of_nat_chars by blast
  ultimately show ?thesis
    using n decimal_of_nat_value [of n] unfolding s atoi_def Let_def
    by simp
qed

fun split_on :: "char \<Rightarrow> string \<Rightarrow> string list" where
  "split_on d [] = [[]]"
| "split_on d (c # cs) = (if c = d then [] # split_on d cs
     else case split_on d cs of p # ps \<Rightarrow> (c # p) # ps | [] \<Rightarrow> [[c]])"

lemma split_on_append: "d \<notin> set p \<Longrightarrow> split_on d (p @ d # s) = p # split_on d s"
  by (induction p) auto

lemma split_on_single: "d \<notin> set p \<Longrightarrow> split_on d p = [p]"
  by (induction p) auto

section \<open>Base32 reads back what it wrote\<close>

lemma base32_value_char: "base32_value (base32_char v) = Some v"
proof -
  have v: "unat v < 32" using unsigned_less [of v, where 'a = nat] by simp
  have back_v: "of_nat (unat v) = v" by simp
  show ?thesis
  proof (cases "unat v < 26")
    case True
    then show ?thesis using back_v by (simp add: base32_char_def base32_value_def Let_def of_char_of)
  next
    case False
    then have "50 \<le> 24 + unat v \<and> 24 + unat v \<le> 55" using v by arith
    then show ?thesis using False back_v v by (simp add: base32_char_def base32_value_def Let_def of_char_of)
  qed
qed

lemma base32_char_cases: "\<not> line_end (base32_char v) \<and> ascii_upper [base32_char v] = [base32_char v]"
proof -
  have v: "unat v < 32" using unsigned_less [of v, where 'a = nat] by simp
  have small: "\<not> CHR ''a'' \<le> char_of n" if "n < 97" for n :: nat
    using that by (simp add: less_eq_char_def of_char_of)
  show ?thesis
    using base32_value_char [of v] v small [of "24 + unat v"] small [of "65 + unat v"]
    by (auto simp: line_end_def base32_value_def base32_char_def ascii_upper_def Let_def)
qed

lemma five_octets_of_quintets: "five_octets (quintets a b c d e) = [a, b, c, d, e]"
proof -
  let ?u = "\<lambda>x. ucast (ucast x :: 5 word) :: byte"
  have "push_bit 3 (?u (drop_bit 3 a)) OR drop_bit 2 (?u (push_bit 2 a AND 31 OR drop_bit 6 b)) = a"
    by (rule byte_eqI) (simp_all add: bit_simps bit_beyond_byte del: push_bit_Suc)
  moreover have "push_bit 6 (?u (push_bit 2 a AND 31 OR drop_bit 6 b)) OR push_bit 1 (?u (drop_bit 1 b AND 31))
      OR drop_bit 4 (?u (push_bit 4 b AND 31 OR drop_bit 4 c)) = b"
    by (rule byte_eqI) (simp_all add: bit_simps bit_beyond_byte numeral_2_eq_2 [symmetric] del: push_bit_Suc)
  moreover have "push_bit 4 (?u (push_bit 4 b AND 31 OR drop_bit 4 c))
      OR drop_bit 1 (?u (push_bit 1 c AND 31 OR drop_bit 7 d)) = c"
    by (rule byte_eqI) (simp_all add: bit_simps bit_beyond_byte numeral_2_eq_2 [symmetric] del: push_bit_Suc)
  moreover have "push_bit 7 (?u (push_bit 1 c AND 31 OR drop_bit 7 d)) OR push_bit 2 (?u (drop_bit 2 d AND 31))
      OR drop_bit 3 (?u (push_bit 3 d AND 31 OR drop_bit 5 e)) = d"
    by (rule byte_eqI) (simp_all add: bit_simps bit_beyond_byte del: push_bit_Suc)
  moreover have "push_bit 5 (?u (push_bit 3 d AND 31 OR drop_bit 5 e)) OR ?u (e AND 31) = e"
    by (rule byte_eqI) (simp_all add: bit_simps bit_beyond_byte del: push_bit_Suc)
  ultimately show ?thesis by (simp add: five_octets_def quintets_def)
qed

lemma bytes_of_quintets_group:
  "bytes_of_quintets (quintets a b c d e @ vs) = [a, b, c, d, e] @ bytes_of_quintets vs"
  using five_octets_of_quintets [of a b c d e] by (simp add: quintets_def)

text \<open>A secret is a whole number of groups of five bytes.\<close>

lemma base32_round_trip: "length bs = 5 * n \<Longrightarrow> base32_decode (ascii_upper (base32_encode bs)) = Some bs"
proof -
  assume len: "length bs = 5 * n"
  have "bytes_of_quintets (base32_groups bs) = bs"
    using len
  proof (induction n arbitrary: bs)
    case (Suc n)
    then obtain a b c d e rest where bs: "bs = a # b # c # d # e # rest" "length rest = 5 * n"
      by (auto simp: length_Suc_conv numeral_eq_Suc)
    then show ?case using Suc.IH [of rest] by (simp add: bytes_of_quintets_group)
  qed simp
  moreover have "ascii_upper (base32_encode bs) = base32_encode bs"
    using base32_char_cases by (simp add: ascii_upper_def base32_encode_def)
  moreover have "filter (\<lambda>c. \<not> line_end c) (base32_encode bs) = base32_encode bs"
    by (simp add: base32_encode_def filter_id_conv base32_char_cases)
  ultimately show ?thesis
    by (simp add: base32_decode_def base32_encode_def Let_def comp_def base32_value_char image_iff)
qed

end
