(* ===== verification/Credentials.thy ===== *)
theory Credentials
  imports AuthCodecs
begin

text \<open>
  The credentials of the authentication service: time-based one-time codes
  (internal/totp/totp.go), stored passwords (internal/passwordhashing/passwordHasher.go) and access
  tokens (internal/jwtauth/jwtToken.go). The primitives HMAC-SHA1, HMAC-SHA256 and PBKDF2 are
  arguments, arbitrary functions on bytes, and so is the JSON decoder of the claims.
\<close>

section \<open>One-time codes\<close>

type_synonym mac = "byte list \<Rightarrow> byte list \<Rightarrow> byte list"

definition unix_seconds :: "instant \<Rightarrow> int64" where
  "unix_seconds t = word_of_int (t div 10 ^ 9)"

definition time_step :: "instant \<Rightarrow> uint64" where
  "time_step t = unix_seconds t div 30"

definition generate_random_secret :: "byte list option \<Rightarrow> string option" where
  "generate_random_secret random_bytes = map_option base32_encode random_bytes"

definition dynamic_truncation :: "byte list \<Rightarrow> 32 word" where
  "dynamic_truncation mac = (let offset = unat (last mac AND 15) in
     push_bit 24 (ucast (mac ! offset) AND 0x7F) OR push_bit 16 (ucast (mac ! (offset + 1)) AND 0xFF)
     OR push_bit 8 (ucast (mac ! (offset + 2)) AND 0xFF) OR (ucast (mac ! (offset + 3)) AND 0xFF))"

text \<open>\<open>%0*d\<close>: a decimal number filled up with zeros.\<close>

definition zero_padded :: "nat \<Rightarrow> nat \<Rightarrow> string" where
  "zero_padded width n = (let digits = decimal_of_nat n in replicate (width - length digits) CHR ''0'' @ digits)"

definition compute_hotp_code :: "mac \<Rightarrow> byte list \<Rightarrow> uint64 \<Rightarrow> string" where
  "compute_hotp_code hmac secret counter =
     zero_padded 6 (unat (dynamic_truncation (hmac secret (big_endian counter))) mod 10 ^ 6)"

definition generate_code :: "mac \<Rightarrow> string \<Rightarrow> instant \<Rightarrow> string option" where
  "generate_code hmac secret t = (case base32_decode (ascii_upper secret) of
     None \<Rightarrow> None
   | Some bytes \<Rightarrow> Some (compute_hotp_code hmac bytes (time_step t)))"

text \<open>\<open>None\<close> for a secret that is not base32.\<close>

definition verify_code :: "mac \<Rightarrow> string \<Rightarrow> string \<Rightarrow> instant \<Rightarrow> int \<Rightarrow> bool option" where
  "verify_code hmac secret candidate t allowed_skew = (case base32_decode (ascii_upper secret) of
     None \<Rightarrow> None
   | Some bytes \<Rightarrow> Some (list_ex (\<lambda>skew. let counter = time_step t + of_int skew
       in \<not> counter <s 0 \<and> compute_hotp_code hmac bytes counter = candidate) [- allowed_skew .. allowed_skew]))"

section \<open>Stored passwords\<close>

type_synonym key_derivation = "string \<Rightarrow> byte list \<Rightarrow> int \<Rightarrow> nat \<Rightarrow> byte list option"

datatype hash_error =
    SaltFailed | DerivationFailed | UnrecognizedHash | MalformedIterationCount | MalformedSalt | MalformedKey
  | CandidateDerivationFailed

definition hash_password :: "key_derivation \<Rightarrow> byte list option \<Rightarrow> string \<Rightarrow> hash_error + string" where
  "hash_password kdf salt password = (case salt of
     None \<Rightarrow> Inl SaltFailed
   | Some s \<Rightarrow> (case kdf password s 100000 32 of
       None \<Rightarrow> Inl DerivationFailed
     | Some key \<Rightarrow> Inr (''pbkdf2-sha256$'' @ decimal_of_int 100000 @ ''$'' @ base64_encode s @ ''$'' @ base64_encode key)))"

definition verify_password :: "key_derivation \<Rightarrow> string \<Rightarrow> string \<Rightarrow> hash_error + bool" where
  "verify_password kdf candidate encoded = (case split_on (CHR ''$'') encoded of
     [tag, count_text, salt_text, key_text] \<Rightarrow>
       if tag \<noteq> ''pbkdf2-sha256'' then Inl UnrecognizedHash
       else (case atoi count_text of
         None \<Rightarrow> Inl MalformedIterationCount
       | Some n \<Rightarrow> (case base64_decode salt_text of
           None \<Rightarrow> Inl MalformedSalt
         | Some s \<Rightarrow> (case base64_decode key_text of
             None \<Rightarrow> Inl MalformedKey
           | Some key \<Rightarrow> (case kdf candidate s n (length key) of
               None \<Rightarrow> Inl CandidateDerivationFailed
             | Some k \<Rightarrow> Inr (key = k)))))
   | _ \<Rightarrow> Inl UnrecognizedHash)"

section \<open>Access tokens\<close>

record access_claims =
  claims_subject :: string
  claims_role :: string
  claims_issued_at :: int64
  claims_expires_at :: int64

datatype token_error = TokenExpired | TokenSignatureInvalid | TokenMalformed

text \<open>A string as \<open>encoding/json\<close> writes it, with its escapes for ASCII characters.\<close>

definition json_char :: "char \<Rightarrow> string" where
  "json_char c = (let n = of_char c :: nat; bs = char_of (92 :: nat) in
     if n = 34 \<or> n = 92 then [bs, c]
     else if n < 32 \<or> n = 38 \<or> n = 60 \<or> n = 62
     then (case lookup [(8, CHR ''b''), (9, CHR ''t''), (10, CHR ''n''), (12, CHR ''f''), (13, CHR ''r'')] n of
         Some d \<Rightarrow> [bs, d]
       | None \<Rightarrow> [bs, CHR ''u'', CHR ''0'', CHR ''0'', hex_digit (n div 16), hex_digit (n mod 16)])
     else [c])"

definition json_string :: "string \<Rightarrow> string" where
  "json_string s = [char_of (34 :: nat)] @ concat (map json_char s) @ [char_of (34 :: nat)]"

definition claims_json :: "access_claims \<Rightarrow> string" where
  "claims_json c = CHR ''{'' # json_string ''sub'' @ '':'' @ json_string (claims_subject c)
     @ '','' @ json_string ''role'' @ '':'' @ json_string (claims_role c)
     @ '','' @ json_string ''iat'' @ '':'' @ int64_text (claims_issued_at c)
     @ '','' @ json_string ''exp'' @ '':'' @ int64_text (claims_expires_at c) @ ''}''"

definition header_json :: string where
  "header_json = CHR ''{'' # json_string ''alg'' @ '':'' @ json_string ''HS256''
     @ '','' @ json_string ''typ'' @ '':'' @ json_string ''JWT'' @ ''}''"

definition text_bytes :: "string \<Rightarrow> byte list" where
  "text_bytes s = map of_char s"

definition token_signature :: "mac \<Rightarrow> byte list \<Rightarrow> string \<Rightarrow> string" where
  "token_signature hmac secret signing_input = base64_encode (hmac secret (text_bytes signing_input))"

definition new_claims :: "string \<Rightarrow> string \<Rightarrow> duration \<Rightarrow> instant \<Rightarrow> access_claims" where
  "new_claims a role lifetime issued = \<lparr>claims_subject = a, claims_role = role,
     claims_issued_at = unix_seconds issued, claims_expires_at = unix_seconds (time_add issued lifetime)\<rparr>"

definition issue_access_token :: "mac \<Rightarrow> string \<Rightarrow> string \<Rightarrow> byte list \<Rightarrow> duration \<Rightarrow> instant \<Rightarrow> string" where
  "issue_access_token hmac a role secret lifetime issued =
    (let signing_input = base64_encode (text_bytes header_json) @ ''.''
           @ base64_encode (text_bytes (claims_json (new_claims a role lifetime issued)))
     in signing_input @ ''.'' @ token_signature hmac secret signing_input)"

definition split_first :: "char \<Rightarrow> string \<Rightarrow> (string \<times> string) option" where
  "split_first d s = (case dropWhile (\<lambda>c. c \<noteq> d) s of [] \<Rightarrow> None | _ # rest \<Rightarrow> Some (takeWhile (\<lambda>c. c \<noteq> d) s, rest))"

definition token_segments :: "string \<Rightarrow> (string \<times> string \<times> string) option" where
  "token_segments tok = (case split_first (CHR ''.'') tok of
     None \<Rightarrow> None
   | Some (header, rest) \<Rightarrow> map_option (\<lambda>(claims, signature). (header, claims, signature)) (split_first (CHR ''.'') rest))"

definition parse_access_token :: "mac \<Rightarrow> (byte list \<Rightarrow> access_claims option) \<Rightarrow> string \<Rightarrow> byte list \<Rightarrow> instant \<Rightarrow>
    token_error + access_claims" where
  "parse_access_token hmac unmarshal tok secret now = (case token_segments tok of
     None \<Rightarrow> Inl TokenMalformed
   | Some (header, claims, signature) \<Rightarrow>
       if token_signature hmac secret (header @ ''.'' @ claims) \<noteq> signature then Inl TokenSignatureInvalid
       else (case base64_decode claims of
         None \<Rightarrow> Inl TokenMalformed
       | Some bytes \<Rightarrow> (case unmarshal bytes of
           None \<Rightarrow> Inl TokenMalformed
         | Some c \<Rightarrow> if claims_expires_at c \<le>s unix_seconds now then Inl TokenExpired else Inr c)))"

section \<open>Codes are accepted for one step around their own\<close>

definition step_number :: "instant \<Rightarrow> int" where
  "step_number t = t div 10 ^ 9 div 30"

lemma seconds_bounds:
  fixes t :: instant
  assumes "0 \<le> t" and "t < 2 ^ 62 * 10 ^ 9"
  shows "0 \<le> t div 10 ^ 9 \<and> t div 10 ^ 9 < 2 ^ 62"
  using assms by auto

lemma time_step_eq:
  assumes "0 \<le> t" and "t < 2 ^ 62 * 10 ^ 9"
  shows "time_step t = word_of_int (step_number t)"
proof -
  have "uint (unix_seconds t) = t div 10 ^ 9"
    using seconds_bounds [OF assms] by (simp add: unix_seconds_def unsigned_of_int take_bit_int_eq_self)
  then show ?thesis by (simp add: time_step_def step_number_def word_div_def)
qed

lemma step_number_bounds:
  assumes "0 \<le> t" and "t < 2 ^ 62 * 10 ^ 9"
  shows "0 \<le> step_number t \<and> step_number t < 2 ^ 62"
  using seconds_bounds [OF assms] by (auto simp: step_number_def)

text \<open>A code generated for a secret at one time is accepted at every time whose step of thirty seconds is
  at most the allowed skew away from the step it was generated in; times are after 1970 and a
  secret is any text that decodes as base32.\<close>

theorem generated_code_verifies:
  assumes "generate_code hmac secret t = Some code" and "0 \<le> t" "t < 2 ^ 62 * 10 ^ 9" and "0 \<le> u" "u < 2 ^ 62 * 10 ^ 9"
    and "\<bar>step_number t - step_number u\<bar> \<le> skew"
  shows "verify_code hmac secret code u skew = Some True"
proof -
  obtain bytes where bytes: "base32_decode (ascii_upper secret) = Some bytes"
      and code: "code = compute_hotp_code hmac bytes (time_step t)"
    using assms(1) by (auto simp: generate_code_def split: option.splits)
  let ?k = "step_number t - step_number u"
  have "time_step u + of_int ?k = time_step t"
    using assms(2-5) by (simp add: time_step_eq)
  moreover have "sint (time_step t) = step_number t"
    using step_number_bounds [OF assms(2,3)] by (simp add: time_step_eq [OF assms(2,3)] sint_of_int64)
  then have "\<not> time_step t <s 0" using step_number_bounds [OF assms(2,3)] by (simp add: word_sless_alt)
  moreover have "?k \<in> set [- skew .. skew]" using assms(6) by auto
  ultimately have "\<exists>k\<in>set [- skew .. skew]. \<not> time_step u + of_int k <s 0
      \<and> compute_hotp_code hmac bytes (time_step u + of_int k) = code"
    unfolding code by (metis (no_types))
  then show ?thesis by (simp add: verify_code_def bytes list_ex_iff Let_def)
qed

text \<open>Every code has six characters, all of them digits.\<close>

lemma decimal_length: "n < 10 ^ k \<Longrightarrow> 0 < k \<Longrightarrow> length (decimal_of_nat n) \<le> k"
proof (induction k arbitrary: n)
  case (Suc k)
  show ?case
  proof (cases "n < 10")
    case True
    then show ?thesis by (subst decimal_of_nat.simps) simp
  next
    case False
    then have "0 < k" using Suc.prems by (cases k) auto
    moreover have "n div 10 < 10 ^ k" using Suc.prems(1) by (simp add: less_mult_imp_div_less mult.commute)
    ultimately show ?thesis using Suc.IH [of "n div 10"] False by (subst decimal_of_nat.simps) simp
  qed
qed simp

lemma code_length: "length (compute_hotp_code hmac secret counter) = 6"
  using decimal_length [of "unat (dynamic_truncation (hmac secret (big_endian counter))) mod 10 ^ 6" 6]
  by (simp add: compute_hotp_code_def zero_padded_def Let_def)

definition plain_mac :: mac where
  "plain_mac key message = replicate 12 0 @ message"

theorem generated_code_verifies_witness:
  "\<exists>code. generate_code plain_mac ''GEZDGNBV'' 59000000000 = Some code
     \<and> verify_code plain_mac ''GEZDGNBV'' code 61000000000 1 = Some True"
proof -
  obtain code where code: "generate_code plain_mac ''GEZDGNBV'' 59000000000 = Some code"
    by (simp add: generate_code_def ascii_upper_def base32_decode_def line_end_def base32_value_def Let_def)
  have "verify_code plain_mac ''GEZDGNBV'' code 61000000000 1 = Some True"
    by (rule generated_code_verifies [OF code]) (simp_all add: step_number_def)
  then show ?thesis using code by blast
qed

section \<open>Passwords and tokens\<close>

lemma base64_char_range: "base64_char v \<noteq> CHR ''$'' \<and> base64_char v \<noteq> CHR ''.''"
  using base64_value_char [of v] by (auto simp: base64_value_def)

lemma base64_encode_clean: "CHR ''$'' \<notin> set (base64_encode bs)" "CHR ''.'' \<notin> set (base64_encode bs)"
  using base64_char_range by (auto simp: base64_encode_def dest: sym)

lemma stored_password_decides:
  assumes "\<And>p s n l k. kdf p s n l = Some k \<Longrightarrow> length k = l" and "hash_password kdf (Some salt) password = Inr stored"
  shows "verify_password kdf candidate stored = (case kdf candidate salt 100000 32 of
     None \<Rightarrow> Inl CandidateDerivationFailed | Some key \<Rightarrow> Inr (kdf password salt 100000 32 = Some key))"
proof -
  obtain own where own: "kdf password salt 100000 32 = Some own"
    using assms(2) unfolding hash_password_def by (cases "kdf password salt 100000 32") simp_all
  have stored: "stored = ''pbkdf2-sha256$'' @ decimal_of_int 100000 @ ''$'' @ base64_encode salt @ ''$'' @ base64_encode own"
    using assms(2) unfolding hash_password_def own option.case sum.inject by (rule sym)
  have digits: "CHR ''$'' \<notin> set (decimal_of_int 100000)"
    using decimal_of_nat_chars [of "CHR ''$''" 100000] by (auto simp: decimal_of_int_def)
  have "split_on (CHR ''$'') stored = [''pbkdf2-sha256'', decimal_of_int 100000, base64_encode salt, base64_encode own]"
    unfolding stored
    using split_on_append [of "CHR ''$''" "base64_encode salt"] split_on_append [OF digits] base64_encode_clean
    by (simp add: split_on_single)
  moreover have "atoi (decimal_of_int 100000) = Some 100000"
    using atoi_decimal [of 100000] by (simp add: decimal_of_int_def)
  moreover have "length own = 32" using assms(1) own by blast
  ultimately show ?thesis using own by (auto simp: verify_password_def base64_round_trip split: option.splits)
qed

text \<open>A stored password accepts exactly the passwords that derive the key of the one it was made from, under
  the stored salt; so the password itself is accepted, and one that derives another key is refused.
  The derivation returns as many bytes as it is asked for.\<close>

theorem stored_password_verifies:
  assumes "\<And>p s n l k. kdf p s n l = Some k \<Longrightarrow> length k = l"
    and "hash_password kdf (Some salt) password = Inr stored" and "kdf candidate salt 100000 32 = Some key"
  shows "verify_password kdf candidate stored = Inr (kdf password salt 100000 32 = Some key)"
  using assms(3) by (simp add: stored_password_decides [OF assms(1,2)])

definition plain_derivation :: key_derivation where
  "plain_derivation p s n l = Some (take l (map of_char p @ s @ replicate l 0))"

theorem stored_password_verifies_witness:
  "verify_password plain_derivation ''tulip'' (''pbkdf2-sha256$'' @ decimal_of_int 100000 @ ''$'' @ base64_encode [7] @ ''$''
     @ base64_encode (the (plain_derivation ''rose'' [7] 100000 32))) = Inr False"
proof -
  have "verify_password plain_derivation ''tulip'' (''pbkdf2-sha256$'' @ decimal_of_int 100000 @ ''$'' @ base64_encode [7] @ ''$''
     @ base64_encode (the (plain_derivation ''rose'' [7] 100000 32)))
     = Inr (plain_derivation ''rose'' [7] 100000 32 = Some (the (plain_derivation ''tulip'' [7] 100000 32)))"
  proof (rule stored_password_verifies)
    show "length k = l" if "plain_derivation p s n l = Some k" for p s n l k
      using that by (auto simp: plain_derivation_def)
    show "hash_password plain_derivation (Some [7]) ''rose'' = Inr (''pbkdf2-sha256$'' @ decimal_of_int 100000 @ ''$''
        @ base64_encode [7] @ ''$'' @ base64_encode (the (plain_derivation ''rose'' [7] 100000 32)))"
      unfolding hash_password_def plain_derivation_def option.case option.sel by (rule refl)
    show "plain_derivation ''tulip'' [7] 100000 32 = Some (the (plain_derivation ''tulip'' [7] 100000 32))"
      by (simp add: plain_derivation_def)
  qed
  then show ?thesis by (simp add: plain_derivation_def)
qed

lemma split_first_append: "d \<notin> set p \<Longrightarrow> split_first d (p @ d # s) = Some (p, s)"
  by (induction p) (auto simp: split_first_def split: list.splits)

text \<open>C32. A token that was issued is accepted with exactly its claims until the second in which it expires, and
  refused as expired from then on. The JSON decoder reads back the claims that were written.\<close>

theorem issued_token_verifies:
  assumes "unmarshal (text_bytes (claims_json (new_claims a role lifetime issued))) = Some (new_claims a role lifetime issued)"
  shows "parse_access_token hmac unmarshal (issue_access_token hmac a role secret lifetime issued) secret now =
    (if unix_seconds (time_add issued lifetime) \<le>s unix_seconds now then Inl TokenExpired
     else Inr (new_claims a role lifetime issued))"
proof -
  let ?h = "base64_encode (text_bytes header_json)"
  let ?c = "base64_encode (text_bytes (claims_json (new_claims a role lifetime issued)))"
  have "token_segments (issue_access_token hmac a role secret lifetime issued) =
      Some (?h, ?c, token_signature hmac secret (?h @ ''.'' @ ?c))"
    using split_first_append [OF base64_encode_clean(2) [of "text_bytes header_json"]]
      split_first_append [OF base64_encode_clean(2) [of "text_bytes (claims_json (new_claims a role lifetime issued))"]]
    by (simp add: issue_access_token_def token_segments_def Let_def)
  then show ?thesis
    using assms by (simp add: parse_access_token_def base64_round_trip new_claims_def)
qed

theorem issued_token_verifies_witness:
  "parse_access_token plain_mac (\<lambda>_. Some (new_claims ''a'' ''retail'' 60000000000 0))
     (issue_access_token plain_mac ''a'' ''retail'' [1, 2] 60000000000 0) [1, 2] 59999999999
   = Inr (new_claims ''a'' ''retail'' 60000000000 0)"
  using issued_token_verifies [of "\<lambda>_. Some (new_claims ''a'' ''retail'' 60000000000 0)" "''a''" "''retail''" 60000000000 0
      plain_mac "[1, 2]" 59999999999]
  by (simp add: unix_seconds_def time_add_def word_sle_eq)

end
