(* ===== verification/LoginGuards.thy ===== *)
theory LoginGuards
  imports Credentials
begin

text \<open>
  What guards a login, services/auth/internal: the sliding-window limiter
  (ratelimiter/rateLimiter.go), the registry of accounts (accountstore/accountStore.go) and the
  enrolment of second factors (mfastate/mfaState.go). A confirmation of an enrolment reads its
  record under the mutex, releases it to verify the code, and takes it again to enable the record
  it read, so records live at addresses and the calls of mfaState.go also have an interleaved form.
\<close>

section \<open>Sliding-window limiter\<close>

record rate_limiter =
  limiter_attempts :: "instant list table"
  limiter_max :: int
  limiter_window :: duration

definition new_rate_limiter :: "int \<Rightarrow> duration \<Rightarrow> rate_limiter" where
  "new_rate_limiter limit window = \<lparr>limiter_attempts = [], limiter_max = limit, limiter_window = window\<rparr>"

definition within_window :: "duration \<Rightarrow> instant \<Rightarrow> instant \<Rightarrow> bool" where
  "within_window window now t = time_after t (time_add now (- window))"

definition limiter_allow :: "string \<Rightarrow> instant \<Rightarrow> rate_limiter \<Rightarrow> bool \<times> rate_limiter" where
  "limiter_allow k now l =
    (let pruned = filter (within_window (limiter_window l) now) (lookup_or [] (limiter_attempts l) k)
     in (int (length pruned) < limiter_max l, l\<lparr>limiter_attempts := put k (pruned @ [now]) (limiter_attempts l)\<rparr>))"

definition attempts_in_window :: "string \<Rightarrow> instant \<Rightarrow> rate_limiter \<Rightarrow> nat" where
  "attempts_in_window k now l =
    length (filter (within_window (limiter_window l) now) (lookup_or [] (limiter_attempts l) k))"

section \<open>Accounts\<close>

record registered_account =
  registered_identifier :: string
  registered_email :: string
  registered_hash :: string
  registered_role :: string

record account_store =
  accounts_by_email :: "registered_account table"
  accounts_by_identifier :: "registered_account table"

datatype account_error =
    EmailAlreadyRegistered | InvalidCredentials | AccountIdentifierAlreadyExists | PasswordNotHashed hash_error
  | IdentifierNotGenerated

definition new_account_store :: account_store where
  "new_account_store = \<lparr>accounts_by_email = [], accounts_by_identifier = []\<rparr>"

definition normalize_email :: "string \<Rightarrow> string" where
  "normalize_email email = ascii_lower (trim_space email)"

definition generate_account_identifier :: "byte list option \<Rightarrow> string option" where
  "generate_account_identifier random_bytes =
    map_option (\<lambda>bs. ''acct-'' @ concat (map (\<lambda>b. [hex_digit (unat b div 16), hex_digit (unat b mod 16)]) bs)) random_bytes"

definition register_account :: "key_derivation \<Rightarrow> byte list option \<Rightarrow> byte list option \<Rightarrow> string \<Rightarrow> string \<Rightarrow> string \<Rightarrow> string \<Rightarrow>
    account_store \<Rightarrow> account_error + string \<times> account_store" where
  "register_account kdf salt random_bytes email password requested role s =
    (case hash_password kdf salt password of
       Inl err \<Rightarrow> Inl (PasswordNotHashed err)
     | Inr stored \<Rightarrow>
         (case (if requested = '''' then generate_account_identifier random_bytes else Some requested) of
            None \<Rightarrow> Inl IdentifierNotGenerated
          | Some identifier \<Rightarrow>
              let e = normalize_email email; r = (if role = '''' then ''retail'' else role);
                  a = \<lparr>registered_identifier = identifier, registered_email = e, registered_hash = stored, registered_role = r\<rparr>
              in if lookup (accounts_by_email s) e \<noteq> None then Inl EmailAlreadyRegistered
                 else if lookup (accounts_by_identifier s) identifier \<noteq> None then Inl AccountIdentifierAlreadyExists
                 else Inr (identifier, s\<lparr>accounts_by_email := put e a (accounts_by_email s),
                   accounts_by_identifier := put identifier a (accounts_by_identifier s)\<rparr>)))"

definition authenticate_with_password :: "key_derivation \<Rightarrow> string \<Rightarrow> string \<Rightarrow> account_store \<Rightarrow>
    account_error + string \<times> string" where
  "authenticate_with_password kdf email password s = (case lookup (accounts_by_email s) (normalize_email email) of
     None \<Rightarrow> Inl InvalidCredentials
   | Some a \<Rightarrow> (case verify_password kdf password (registered_hash a) of
       Inl err \<Rightarrow> Inl InvalidCredentials
     | Inr ok \<Rightarrow> if ok then Inr (registered_identifier a, registered_role a) else Inl InvalidCredentials))"

definition role_for_account_identifier :: "string \<Rightarrow> account_store \<Rightarrow> string option" where
  "role_for_account_identifier a s = map_option registered_role (lookup (accounts_by_identifier s) a)"

section \<open>Second factors\<close>

record mfa_record =
  mfa_secret :: string
  mfa_enabled :: bool

text \<open>Records stay where they were made; the map holds the address of an account's latest one.\<close>

record mfa_state =
  mfa_heap :: "mfa_record list"
  mfa_address :: "nat table"

definition new_mfa_state :: mfa_state where
  "new_mfa_state = \<lparr>mfa_heap = [], mfa_address = []\<rparr>"

definition current_mfa_record :: "string \<Rightarrow> mfa_state \<Rightarrow> mfa_record option" where
  "current_mfa_record a s = map_option (\<lambda>p. mfa_heap s ! p) (lookup (mfa_address s) a)"

definition begin_enrollment :: "string \<Rightarrow> byte list option \<Rightarrow> mfa_state \<Rightarrow> string option \<times> mfa_state" where
  "begin_enrollment a random_bytes s = (case generate_random_secret random_bytes of
     None \<Rightarrow> (None, s)
   | Some secret \<Rightarrow> (Some secret, s\<lparr>mfa_heap := mfa_heap s @ [\<lparr>mfa_secret = secret, mfa_enabled = False\<rparr>],
       mfa_address := put a (length (mfa_heap s)) (mfa_address s)\<rparr>))"

definition enable_record :: "nat \<Rightarrow> mfa_state \<Rightarrow> mfa_state" where
  "enable_record p s = s\<lparr>mfa_heap := (mfa_heap s)[p := (mfa_heap s ! p)\<lparr>mfa_enabled := True\<rparr>]\<rparr>"

text \<open>The answer \<open>None\<close> is an error of the verification.\<close>

definition confirm_enrollment :: "mac \<Rightarrow> string \<Rightarrow> string \<Rightarrow> instant \<Rightarrow> mfa_state \<Rightarrow> bool option \<times> mfa_state" where
  "confirm_enrollment hmac a code now s = (case lookup (mfa_address s) a of
     None \<Rightarrow> (Some False, s)
   | Some p \<Rightarrow> (case verify_code hmac (mfa_secret (mfa_heap s ! p)) code now 1 of
       None \<Rightarrow> (None, s)
     | Some ok \<Rightarrow> if ok then (Some True, enable_record p s) else (Some False, s)))"

definition is_mfa_enabled :: "string \<Rightarrow> mfa_state \<Rightarrow> bool" where
  "is_mfa_enabled a s = (case current_mfa_record a s of None \<Rightarrow> False | Some r \<Rightarrow> mfa_enabled r)"

definition verify_login_code :: "mac \<Rightarrow> string \<Rightarrow> string \<Rightarrow> instant \<Rightarrow> mfa_state \<Rightarrow> bool option" where
  "verify_login_code hmac a code now s = (case current_mfa_record a s of
     None \<Rightarrow> Some False
   | Some r \<Rightarrow> if mfa_enabled r then verify_code hmac (mfa_secret r) code now 1 else Some False)"

definition disable_mfa :: "string \<Rightarrow> mfa_state \<Rightarrow> mfa_state" where
  "disable_mfa a s = s\<lparr>mfa_address := remove a (mfa_address s)\<rparr>"

section \<open>Attempts per window\<close>

fun run_limiter :: "(string \<times> instant) list \<Rightarrow> rate_limiter \<Rightarrow> (string \<times> instant \<times> bool) list \<times> rate_limiter" where
  "run_limiter [] l = ([], l)"
| "run_limiter ((k, now) # rest) l = (case limiter_allow k now l of (ok, l1) \<Rightarrow>
     case run_limiter rest l1 of (verdicts, l2) \<Rightarrow> ((k, now, ok) # verdicts, l2))"

definition times_of :: "string \<Rightarrow> (string \<times> instant) list \<Rightarrow> instant list" where
  "times_of k attempts = map snd (filter (\<lambda>p. fst p = k) attempts)"

definition permitted_between :: "string \<Rightarrow> instant \<Rightarrow> instant \<Rightarrow> (string \<times> instant \<times> bool) list \<Rightarrow> nat" where
  "permitted_between k from until verdicts = length (filter (\<lambda>(k', t, ok). k' = k \<and> ok \<and> from < t \<and> t \<le> until) verdicts)"

lemma run_limiter_append:
  "run_limiter (xs @ ys) l = (case run_limiter xs l of (verdicts, l1) \<Rightarrow> case run_limiter ys l1 of (verdicts', l2) \<Rightarrow> (verdicts @ verdicts', l2))"
  by (induction xs arbitrary: l) (auto split: prod.splits)

lemma run_limiter_config:
  "limiter_window (snd (run_limiter xs l)) = limiter_window l \<and> limiter_max (snd (run_limiter xs l)) = limiter_max l"
  by (induction xs arbitrary: l) (auto simp: limiter_allow_def Let_def case_prod_beta)

lemma times_of_simps [simp]:
  "times_of k [] = []" "times_of k (xs @ ys) = times_of k xs @ times_of k ys"
  "times_of k (p # xs) = (if fst p = k then snd p # times_of k xs else times_of k xs)"
  by (simp_all add: times_of_def)

text \<open>What the limiter has forgotten can never be in a later window.\<close>

lemma window_later: "t \<le> u \<Longrightarrow> within_window w u x \<Longrightarrow> within_window w t x"
  by (simp add: within_window_def time_defs)

lemma limiter_history:
  assumes "sorted (map snd xs)" and "\<forall>t\<in>set (map snd xs). t \<le> now"
  shows "filter (within_window w now) (lookup_or [] (limiter_attempts (snd (run_limiter xs (new_rate_limiter limit w)))) k)
    = filter (within_window w now) (times_of k xs)"
  using assms
proof (induction xs arbitrary: now k rule: rev_induct)
  case Nil
  then show ?case by (simp add: new_rate_limiter_def lookup_or_def)
next
  case (snoc p xs)
  obtain k' u where p: "p = (k', u)" by (cases p)
  let ?l = "snd (run_limiter xs (new_rate_limiter limit w))"
  have before: "sorted (map snd xs)" "\<forall>t\<in>set (map snd xs). t \<le> u" "u \<le> now"
    using snoc.prems p by (auto simp: sorted_append)
  have now: "\<forall>t\<in>set (map snd xs). t \<le> now" using before by auto
  have forgotten: "filter (within_window w now) (filter (within_window w u) ts) = filter (within_window w now) ts" for ts
    using window_later [OF before(3)] by (auto intro: filter_cong)
  have window: "limiter_window ?l = w" using run_limiter_config [of xs] by (simp add: new_rate_limiter_def)
  have "filter (within_window w now) (times_of k' xs)
      = filter (within_window w now) (filter (within_window w u) (lookup_or [] (limiter_attempts ?l) k'))"
    using snoc.IH [OF before(1,2), of k'] forgotten by metis
  then show ?case
    using snoc.IH [OF before(1) now, of k] window
    by (auto simp: run_limiter_append p limiter_allow_def Let_def split: prod.splits)
qed

lemma allowed_iff:
  assumes "sorted (map snd (xs @ [(k, now)]))"
  shows "fst (limiter_allow k now (snd (run_limiter xs (new_rate_limiter limit w)))) \<longleftrightarrow>
    int (length (filter (within_window w now) (times_of k xs))) < limit"
  using assms limiter_history [of xs now w limit k] run_limiter_config [of xs "new_rate_limiter limit w"]
  by (auto simp: limiter_allow_def Let_def sorted_append new_rate_limiter_def)

lemma permitted_le_times:
  "permitted_between k from until (fst (run_limiter xs l)) \<le> length (filter (\<lambda>t. from < t \<and> t \<le> until) (times_of k xs))"
proof (induction xs arbitrary: l)
  case (Cons p xs)
  then show ?case
    using Cons.IH [of "snd (limiter_allow (fst p) (snd p) l)"]
    by (cases p) (auto simp: permitted_between_def case_prod_beta le_SucI)
qed (simp add: permitted_between_def)

text \<open>Whatever keys make attempts, in the order of their times, no window of the limiter's length, wherever it
  starts, holds more permitted attempts of one key than the limit.\<close>

theorem attempts_capped:
  assumes "sorted (map snd attempts)" and "0 \<le> limit"
  shows "int (permitted_between k (time_add t (- w)) t (fst (run_limiter attempts (new_rate_limiter limit w)))) \<le> limit"
  using assms(1)
proof (induction attempts rule: rev_induct)
  case Nil
  then show ?case using assms(2) by (simp add: permitted_between_def)
next
  case (snoc p xs)
  obtain k' u where p: "p = (k', u)" by (cases p)
  let ?l = "new_rate_limiter limit w"
  let ?ok = "fst (limiter_allow k' u (snd (run_limiter xs ?l)))"
  have verdicts: "fst (run_limiter (xs @ [p]) ?l) = fst (run_limiter xs ?l) @ [(k', u, ?ok)]"
    by (simp add: run_limiter_append p split: prod.splits)
  have IH: "int (permitted_between k (time_add t (- w)) t (fst (run_limiter xs ?l))) \<le> limit"
    using snoc by (simp add: sorted_append)
  show ?case
  proof (cases "k' = k \<and> ?ok \<and> time_add t (- w) < u \<and> u \<le> t")
    case True
    have "permitted_between k (time_add t (- w)) t (fst (run_limiter xs ?l))
        \<le> length (filter (\<lambda>x. time_add t (- w) < x \<and> x \<le> t) (times_of k xs))"
      by (rule permitted_le_times)
    also have "\<dots> \<le> length (filter (within_window w u) (times_of k xs))"
      using True by (intro length_filter_mono) (auto simp: within_window_def time_defs)
    finally have "permitted_between k (time_add t (- w)) t (fst (run_limiter xs ?l))
        \<le> length (filter (within_window w u) (times_of k xs))" .
    moreover have "int (length (filter (within_window w u) (times_of k xs))) < limit"
      using True allowed_iff [of xs k u limit w] snoc.prems p by auto
    ultimately show ?thesis using True by (simp add: verdicts permitted_between_def)
  next
    case False
    then show ?thesis using IH by (auto simp: verdicts permitted_between_def)
  qed
qed

theorem attempts_capped_witness:
  "int (permitted_between ''k'' (time_add 30 (- 20)) 30
     (fst (run_limiter [(''k'', 15), (''j'', 18), (''k'', 20), (''k'', 30)] (new_rate_limiter 2 20)))) \<le> 2"
  by (rule attempts_capped) simp_all

section \<open>Registration and authentication\<close>

record registration =
  registration_salt :: "byte list option"
  registration_random :: "byte list option"
  registration_email :: string
  registration_password :: string
  registration_identifier :: string
  registration_role :: string

definition register_one :: "key_derivation \<Rightarrow> registration \<Rightarrow> account_store \<Rightarrow> account_error + string \<times> account_store" where
  "register_one kdf r = register_account kdf (registration_salt r) (registration_random r) (registration_email r)
     (registration_password r) (registration_identifier r) (registration_role r)"

definition register_all :: "key_derivation \<Rightarrow> registration list \<Rightarrow> account_store \<Rightarrow> account_store" where
  "register_all kdf rs s = foldl (\<lambda>s r. case register_one kdf r s of Inl err \<Rightarrow> s | Inr (a, s') \<Rightarrow> s') s rs"

lemma register_account_cases:
  assumes "register_account kdf salt random_bytes email password requested role s = Inr (identifier, s')"
  obtains stored where "hash_password kdf salt password = Inr stored"
    and "lookup (accounts_by_email s) (normalize_email email) = None" and "lookup (accounts_by_identifier s) identifier = None"
    and "s' = (let a = \<lparr>registered_identifier = identifier, registered_email = normalize_email email,
        registered_hash = stored, registered_role = (if role = '''' then ''retail'' else role)\<rparr>
      in s\<lparr>accounts_by_email := put (normalize_email email) a (accounts_by_email s),
        accounts_by_identifier := put identifier a (accounts_by_identifier s)\<rparr>)"
  using assms by (auto simp: register_account_def Let_def split: sum.splits option.splits if_splits)

lemma registration_keeps:
  assumes "register_account kdf salt random_bytes email password requested role s = Inr (identifier, s')"
  shows "lookup (accounts_by_email s) e = Some a \<Longrightarrow> lookup (accounts_by_email s') e = Some a"
    and "lookup (accounts_by_identifier s) i = Some a \<Longrightarrow> lookup (accounts_by_identifier s') i = Some a"
  by (rule register_account_cases [OF assms]; auto simp: Let_def)+

lemma register_all_keeps:
  "lookup (accounts_by_email s) e = Some a \<Longrightarrow> lookup (accounts_by_email (register_all kdf rs s)) e = Some a"
  "lookup (accounts_by_identifier s) i = Some a \<Longrightarrow> lookup (accounts_by_identifier (register_all kdf rs s)) i = Some a"
  by (induction rs arbitrary: s)
    (auto simp: register_all_def register_one_def registration_keeps split: sum.splits)

text \<open>Once an account is registered, and whatever registrations are tried after it, a login under any spelling
  of its address that normalises to the same text, with a password that derives the same key,
  gives the identifier and the role it was registered with; any other password gives the one error
  that an unknown address gives too, and the role is found under the identifier.\<close>

theorem registered_account_authenticates:
  assumes "\<And>p s n l k. kdf p s n l = Some k \<Longrightarrow> length k = l"
    and "register_account kdf (Some salt) random_bytes email password requested role s = Inr (identifier, s')"
    and "normalize_email spelling = normalize_email email"
  shows "authenticate_with_password kdf spelling candidate (register_all kdf rs s') =
      (if kdf candidate salt 100000 32 = kdf password salt 100000 32
       then Inr (identifier, if role = '''' then ''retail'' else role) else Inl InvalidCredentials)
    \<and> role_for_account_identifier identifier (register_all kdf rs s') = Some (if role = '''' then ''retail'' else role)"
proof -
  obtain stored where stored: "hash_password kdf (Some salt) password = Inr stored"
    and s': "s' = (let a = \<lparr>registered_identifier = identifier, registered_email = normalize_email email,
        registered_hash = stored, registered_role = (if role = '''' then ''retail'' else role)\<rparr>
      in s\<lparr>accounts_by_email := put (normalize_email email) a (accounts_by_email s),
        accounts_by_identifier := put identifier a (accounts_by_identifier s)\<rparr>)"
    by (rule register_account_cases [OF assms(2)])
  define a where "a = \<lparr>registered_identifier = identifier, registered_email = normalize_email email,
        registered_hash = stored, registered_role = (if role = '''' then ''retail'' else role)\<rparr>"
  have "lookup (accounts_by_email s') (normalize_email email) = Some a" "lookup (accounts_by_identifier s') identifier = Some a"
    by (simp_all add: s' a_def Let_def)
  then have found: "lookup (accounts_by_email (register_all kdf rs s')) (normalize_email email) = Some a"
      "lookup (accounts_by_identifier (register_all kdf rs s')) identifier = Some a"
    by (simp_all add: register_all_keeps)
  have "kdf password salt 100000 32 \<noteq> None" using stored by (auto simp: hash_password_def split: option.splits)
  then have "authenticate_with_password kdf spelling candidate (register_all kdf rs s') =
      (if kdf candidate salt 100000 32 = kdf password salt 100000 32
       then Inr (identifier, if role = '''' then ''retail'' else role) else Inl InvalidCredentials)"
    unfolding authenticate_with_password_def assms(3) found option.case
    by (auto simp: a_def stored_password_decides [OF assms(1) stored] split: option.splits)
  then show ?thesis by (simp add: role_for_account_identifier_def found a_def)
qed

theorem registered_account_authenticates_witness:
  "case register_account plain_derivation (Some [7]) None '' Ann@X.org '' ''rose'' ''acct-9'' '''' new_account_store of
     Inl err \<Rightarrow> False
   | Inr (identifier, s') \<Rightarrow>
       authenticate_with_password plain_derivation ''ann@x.org'' ''tulip'' (register_all plain_derivation [] s') =
         (if plain_derivation ''tulip'' [7] 100000 32 = plain_derivation ''rose'' [7] 100000 32
          then Inr (identifier, ''retail'') else Inl InvalidCredentials)"
proof -
  obtain stored where stored: "hash_password plain_derivation (Some [7]) ''rose'' = Inr stored"
    unfolding hash_password_def plain_derivation_def option.case by blast
  let ?a = "\<lparr>registered_identifier = ''acct-9'', registered_email = normalize_email '' Ann@X.org '',
    registered_hash = stored, registered_role = ''retail''\<rparr>"
  let ?s = "\<lparr>accounts_by_email = [(normalize_email '' Ann@X.org '', ?a)], accounts_by_identifier = [(''acct-9'', ?a)]\<rparr>"
  have registered: "register_account plain_derivation (Some [7]) None '' Ann@X.org '' ''rose'' ''acct-9'' '''' new_account_store
      = Inr (''acct-9'', ?s)"
    unfolding register_account_def stored sum.case by (simp add: new_account_store_def Let_def)
  have "normalize_email ''ann@x.org'' = normalize_email '' Ann@X.org ''" by code_simp
  then have "authenticate_with_password plain_derivation ''ann@x.org'' ''tulip'' (register_all plain_derivation [] ?s) =
         (if plain_derivation ''tulip'' [7] 100000 32 = plain_derivation ''rose'' [7] 100000 32
          then Inr (''acct-9'', if '''' = ([] :: string) then ''retail'' else '''') else Inl InvalidCredentials)"
    by (intro conjunct1 [OF registered_account_authenticates [OF _ registered]])
      (auto simp: plain_derivation_def)
  then show ?thesis unfolding registered by simp
qed

section \<open>Enrolments that interleave\<close>

text \<open>
  A confirmation in flight has read the address of the account's record. \<open>verified_codes\<close> collects the
  address, the code and the time of every confirmation that succeeded.
\<close>

record mfa_system =
  mfa_store :: mfa_state
  confirming :: "(nat \<times> string \<times> instant) multiset"
  verified_codes :: "(nat \<times> string \<times> instant) list"

inductive mfa_step :: "mac \<Rightarrow> mfa_system \<Rightarrow> mfa_system \<Rightarrow> bool" for hmac where
  enrolls: "mfa_step hmac s (s\<lparr>mfa_store := snd (begin_enrollment a random_bytes (mfa_store s))\<rparr>)"
| confirmation_reads: "lookup (mfa_address (mfa_store s)) a = Some p \<Longrightarrow>
    mfa_step hmac s (s\<lparr>confirming := add_mset (p, code, now) (confirming s)\<rparr>)"
| confirmation_enables: "confirming s = add_mset (p, code, now) R \<Longrightarrow>
    verify_code hmac (mfa_secret (mfa_heap (mfa_store s) ! p)) code now 1 = Some True \<Longrightarrow>
    mfa_step hmac s (s\<lparr>mfa_store := enable_record p (mfa_store s), confirming := R,
      verified_codes := (p, code, now) # verified_codes s\<rparr>)"
| confirmation_refuses: "confirming s = add_mset (p, code, now) R \<Longrightarrow>
    verify_code hmac (mfa_secret (mfa_heap (mfa_store s) ! p)) code now 1 \<noteq> Some True \<Longrightarrow>
    mfa_step hmac s (s\<lparr>confirming := R\<rparr>)"
| disables: "mfa_step hmac s (s\<lparr>mfa_store := disable_mfa a (mfa_store s)\<rparr>)"

definition mfa_init :: "mfa_system \<Rightarrow> bool" where
  "mfa_init s \<longleftrightarrow> s = \<lparr>mfa_store = new_mfa_state, confirming = {#}, verified_codes = []\<rparr>"

definition code_verified :: "mac \<Rightarrow> mfa_system \<Rightarrow> nat \<Rightarrow> bool" where
  "code_verified hmac s p \<longleftrightarrow> list_ex (\<lambda>(q, code, now). q = p
     \<and> verify_code hmac (mfa_secret (mfa_heap (mfa_store s) ! p)) code now 1 = Some True) (verified_codes s)"

definition mfa_inv :: "mac \<Rightarrow> mfa_system \<Rightarrow> bool" where
  "mfa_inv hmac s \<longleftrightarrow>
    (\<forall>a p. lookup (mfa_address (mfa_store s)) a = Some p \<longrightarrow> p < length (mfa_heap (mfa_store s))) \<and>
    (\<forall>(p, c) \<in># confirming s. p < length (mfa_heap (mfa_store s))) \<and>
    (\<forall>p < length (mfa_heap (mfa_store s)). mfa_enabled (mfa_heap (mfa_store s) ! p) \<longrightarrow> code_verified hmac s p)"

lemma mfa_inv_step:
  assumes "mfa_inv hmac s" and "mfa_step hmac s t"
  shows "mfa_inv hmac t"
  using assms(2,1)
proof cases
  case (enrolls a random_bytes)
  then show ?thesis
    using assms(1)
    by (fastforce simp: mfa_inv_def begin_enrollment_def code_verified_def nth_append less_Suc_eq
      split: option.splits if_splits)
next
  case (confirmation_reads a p code now)
  then show ?thesis using assms(1) by (auto simp: mfa_inv_def code_verified_def)
next
  case (confirmation_enables p code now R)
  then show ?thesis
    using assms(1)
    by (auto simp: mfa_inv_def enable_record_def code_verified_def nth_list_update list_ex_iff split: if_splits)
next
  case (confirmation_refuses p code now R)
  then show ?thesis using assms(1) by (auto simp: mfa_inv_def code_verified_def)
next
  case (disables a)
  then show ?thesis using assms(1) by (auto simp: mfa_inv_def disable_mfa_def code_verified_def split: if_splits)
qed

interpretation mfa_calls: invariant_system mfa_init "mfa_step hmac" "mfa_inv hmac" for hmac
proof
  show "mfa_inv hmac s" if "mfa_init s" for s
    using that by (simp add: mfa_init_def mfa_inv_def new_mfa_state_def)
  show "mfa_inv hmac t" if "mfa_inv hmac s" and "mfa_step hmac s t" for s t
    using that by (rule mfa_inv_step)
qed

text \<open>However enrolments, confirmations and removals interleave, an account for which a second factor is
  required has, at some point, had a code confirmed that is valid for the very secret its logins
  are now checked against: starting an enrolment alone never locks anybody out.\<close>

theorem enabled_only_by_verified_code:
  assumes "reachable_by mfa_init (mfa_step hmac) s" and "is_mfa_enabled a (mfa_store s)"
  shows "case lookup (mfa_address (mfa_store s)) a of
     None \<Rightarrow> False
   | Some p \<Rightarrow> code_verified hmac s p"
  using mfa_calls.inv_reachable [OF assms(1)] assms(2)
  by (auto simp: is_mfa_enabled_def current_mfa_record_def mfa_inv_def split: option.splits)

lemma first_code_verifies:
  "verify_code hmac (base32_encode (replicate 5 0)) (compute_hotp_code hmac (replicate 5 0) 0) 0 1 = Some True"
proof -
  have "base32_decode (ascii_upper (base32_encode (replicate 5 0))) = Some (replicate 5 0)"
    by (rule base32_round_trip [of _ 1]) simp
  moreover have "[- 1 .. 1] = [- 1, 0, 1 :: int]" by code_simp
  ultimately show ?thesis by (simp add: verify_code_def time_step_def unix_seconds_def Let_def)
qed

theorem enabled_only_by_verified_code_witness:
  "let code = compute_hotp_code plain_mac (replicate 5 0) 0;
     s = \<lparr>mfa_store = enable_record 0 (snd (begin_enrollment ''a'' (Some (replicate 5 0)) new_mfa_state)), confirming = {#},
       verified_codes = [(0, code, 0)]\<rparr>
   in reachable_by mfa_init (mfa_step plain_mac) s \<and> is_mfa_enabled ''a'' (mfa_store s) \<and> code_verified plain_mac s 0"
proof -
  define code where "code = compute_hotp_code plain_mac (replicate 5 0) 0"
  define m where "m = snd (begin_enrollment ''a'' (Some (replicate 5 0)) new_mfa_state)"
  have m: "mfa_heap m = [\<lparr>mfa_secret = base32_encode (replicate 5 0), mfa_enabled = False\<rparr>]" "mfa_address m = [(''a'', 0)]"
    by (simp_all add: m_def begin_enrollment_def generate_random_secret_def new_mfa_state_def)
  let ?begun = "\<lparr>mfa_store = new_mfa_state, confirming = {#}, verified_codes = []\<rparr> :: mfa_system"
  let ?enrolled = "?begun\<lparr>mfa_store := m\<rparr>"
  let ?reading = "?enrolled\<lparr>confirming := add_mset (0, code, 0) {#}\<rparr>"
  let ?s = "\<lparr>mfa_store = enable_record 0 m, confirming = {#}, verified_codes = [(0, code, 0)]\<rparr> :: mfa_system"
  have "reachable_by mfa_init (mfa_step plain_mac) ?begun"
    by (rule reachable_by.reachable_init) (simp only: mfa_init_def)
  moreover have "mfa_step plain_mac ?begun ?enrolled" using enrolls [of plain_mac ?begun "''a''"] by (simp add: m_def)
  moreover have "mfa_step plain_mac ?enrolled ?reading" using confirmation_reads [of ?enrolled "''a''" 0 plain_mac code 0] by (simp add: m)
  moreover have "mfa_step plain_mac ?reading ?s"
    using confirmation_enables [of ?reading 0 code 0 "{#}" plain_mac] first_code_verifies [of plain_mac]
    by (simp add: m code_def)
  ultimately have r: "reachable_by mfa_init (mfa_step plain_mac) ?s" by (blast intro: reachable_step)
  have e: "is_mfa_enabled ''a'' (mfa_store ?s)" by (simp add: is_mfa_enabled_def current_mfa_record_def enable_record_def m)
  have "code_verified plain_mac ?s 0"
    using enabled_only_by_verified_code [OF r e] by (simp add: enable_record_def m)
  then show ?thesis using r e unfolding Let_def code_def m_def by blast
qed

text \<open>Starting an enrolment for an account whose second factor is required removes the requirement, until the
  new secret is confirmed.\<close>

theorem reenrollment_drops_second_factor:
  assumes "is_mfa_enabled a s" and "begin_enrollment a (Some random_bytes) s = (answer, s')"
  shows "\<not> is_mfa_enabled a s'"
  using assms(2) by (auto simp: begin_enrollment_def generate_random_secret_def is_mfa_enabled_def current_mfa_record_def)

text \<open>A confirmation that read its record before another enrolment began reports success and enables the
  replaced record: the account's second factor is not required.\<close>

theorem confirmation_of_replaced_enrollment:
  assumes "lookup (mfa_address s) a = Some p" and "p < length (mfa_heap s)"
    and "begin_enrollment a (Some random_bytes) s = (answer, s')"
  shows "\<not> is_mfa_enabled a (enable_record p s')"
  using assms by (auto simp: begin_enrollment_def generate_random_secret_def is_mfa_enabled_def current_mfa_record_def
    enable_record_def nth_append)

end
