(* ===== verification/LoginAnomaly.thy ===== *)
theory LoginAnomaly
  imports GoText
begin

text \<open>
  Detection of anomalous logins,
  services/auth/internal/anomalouslogindetection/anomalousLoginDetection.go: per account the devices
  and networks seen, the place of the last successful login and the current run of failures. The
  trigonometric functions of Go's library and the text of a duration are arguments.
\<close>

section \<open>State\<close>

datatype anomaly_type = NewDeviceOrNetwork | ImpossibleTravel | RapidFailuresThenSuccess

record login_attempt =
  attempt_account :: string
  attempt_device :: string
  attempt_network :: string
  attempt_successful :: bool
  attempted_at :: instant
  attempt_location :: "(float64 \<times> float64) option"

record anomaly_alert =
  anomaly_account :: string
  anomaly_kind :: anomaly_type
  anomaly_detail :: string
  anomaly_detected_at :: instant

record account_history =
  known_devices :: "string list"
  known_networks :: "string list"
  has_ever_attempted :: bool
  last_successful_place :: "(instant \<times> float64 \<times> float64) option"
  recent_failures :: "instant list"

record anomaly_detector =
  history_by_account :: "account_history table"
  anomaly_alerts :: "anomaly_alert list"

record math_library =
  math_sin :: "float64 \<Rightarrow> float64"
  math_cos :: "float64 \<Rightarrow> float64"
  math_sqrt :: "float64 \<Rightarrow> float64"
  math_atan2 :: "float64 \<Rightarrow> float64 \<Rightarrow> float64"
  duration_string :: "duration \<Rightarrow> string"

definition empty_history :: account_history where
  "empty_history = \<lparr>known_devices = [], known_networks = [], has_ever_attempted = False,
     last_successful_place = None, recent_failures = []\<rparr>"

definition new_anomaly_detector :: anomaly_detector where
  "new_anomaly_detector = \<lparr>history_by_account = [], anomaly_alerts = []\<rparr>"

section \<open>Distance and speed\<close>

definition float_pi :: float64 where
  "float_pi = 884279719003555 / 281474976710656"

definition degrees_to_radians :: "float64 \<Rightarrow> float64" where
  "degrees_to_radians x = float_div (float_mul x float_pi) 180"

definition haversine_distance :: "math_library \<Rightarrow> float64 \<Rightarrow> float64 \<Rightarrow> float64 \<Rightarrow> float64 \<Rightarrow> float64" where
  "haversine_distance m lat1 lon1 lat2 lon2 =
    (let r1 = degrees_to_radians lat1; r2 = degrees_to_radians lat2;
         dlat = degrees_to_radians (float_sub lat2 lat1); dlon = degrees_to_radians (float_sub lon2 lon1);
         slat = math_sin m (float_div dlat 2); slon = math_sin m (float_div dlon 2);
         h = float_add (float_mul slat slat)
           (float_mul (float_mul (float_mul (math_cos m r1) (math_cos m r2)) slon) slon);
         angle = float_mul 2 (math_atan2 m (math_sqrt m h) (math_sqrt m (float_sub 1 h)))
     in float_mul 6371 angle)"

text \<open>An implied speed of \<open>None\<close> is the positive infinity of the source.\<close>

definition evaluate_impossible_travel :: "math_library \<Rightarrow> float64 \<Rightarrow> float64 \<Rightarrow> instant \<Rightarrow> float64 \<Rightarrow> float64 \<Rightarrow> instant \<Rightarrow>
    float64 option \<times> bool" where
  "evaluate_impossible_travel m lat1 lon1 t1 lat2 lon2 t2 =
    (let difference = time_sub t2 t1; elapsed = (if difference <s 0 then - difference else difference);
         distance = haversine_distance m lat1 lon1 lat2 lon2
     in if 1 < distance \<and> elapsed <s 60000000000 then (None, True)
        else if elapsed = 0 then (if 1 < distance then (None, True) else (Some 0, False))
        else let speed = float_div distance (duration_hours elapsed) in (Some speed, 1000 < speed))"

definition failures_within_window :: "instant list \<Rightarrow> instant \<Rightarrow> duration \<Rightarrow> nat" where
  "failures_within_window failures now window =
    (let earliest = time_add now (- window) in length (filter (\<lambda>t. time_after t earliest \<or> t = earliest) failures))"

section \<open>Texts\<close>

definition describe_new_device_or_network :: "bool \<Rightarrow> bool \<Rightarrow> string" where
  "describe_new_device_or_network device network =
    (if device \<and> network then ''login from a device fingerprint and network never seen before on this account''
     else if device then ''login from a device fingerprint never seen before on this account''
     else ''login from a network never seen before on this account'')"

text \<open>\<open>math.Round\<close> rounds half away from zero.\<close>

definition round_half_away :: "float64 \<Rightarrow> int" where
  "round_half_away x = (if x < 0 then - \<lfloor>- x + 1 / 2\<rfloor> else \<lfloor>x + 1 / 2\<rfloor>)"

definition format_speed :: "float64 \<Rightarrow> string" where
  "format_speed x = decimal_of_int (round_half_away x)"

definition describe_impossible_travel :: "math_library \<Rightarrow> float64 option \<Rightarrow> instant \<Rightarrow> instant \<Rightarrow> string" where
  "describe_impossible_travel m speed previous current = (case speed of
     None \<Rightarrow> ''two successful logins from materially different locations too close together in time to be explained by any travel''
   | Some v \<Rightarrow> ''implied travel speed between two successful logins exceeds any plausible physical travel: ~''
       @ format_speed v @ '' km/h over '' @ duration_string m (time_sub current previous))"

definition rapid_failures_text :: string where
  "rapid_failures_text = ''a successful login followed a run of failed attempts on this account within a short window''"

section \<open>Recording an attempt\<close>

definition device_alerts :: "login_attempt \<Rightarrow> account_history \<Rightarrow> (anomaly_type \<times> string) list" where
  "device_alerts x h =
    (let device = attempt_device x \<noteq> '''' \<and> attempt_device x \<notin> set (known_devices h);
         network = attempt_network x \<noteq> '''' \<and> attempt_network x \<notin> set (known_networks h)
     in if has_ever_attempted h \<and> (device \<or> network)
        then [(NewDeviceOrNetwork, describe_new_device_or_network device network)] else [])"

definition remember_device :: "login_attempt \<Rightarrow> account_history \<Rightarrow> account_history" where
  "remember_device x h = h\<lparr>
     known_devices := (if attempt_device x = '''' then known_devices h else List.insert (attempt_device x) (known_devices h)),
     known_networks := (if attempt_network x = '''' then known_networks h else List.insert (attempt_network x) (known_networks h)),
     has_ever_attempted := True\<rparr>"

definition travel_alerts :: "math_library \<Rightarrow> login_attempt \<Rightarrow> account_history \<Rightarrow> (anomaly_type \<times> string) list \<times> account_history" where
  "travel_alerts m x h = (case attempt_location x of
     None \<Rightarrow> ([], h)
   | Some (lat, lon) \<Rightarrow> if \<not> attempt_successful x then ([], h) else
       ((case last_successful_place h of
           None \<Rightarrow> []
         | Some (t0, lat0, lon0) \<Rightarrow> (case evaluate_impossible_travel m lat0 lon0 t0 lat lon (attempted_at x) of
             (speed, impossible) \<Rightarrow>
               if impossible then [(ImpossibleTravel, describe_impossible_travel m speed t0 (attempted_at x))] else [])),
        h\<lparr>last_successful_place := Some (attempted_at x, lat, lon)\<rparr>))"

definition failure_alerts :: "login_attempt \<Rightarrow> account_history \<Rightarrow> (anomaly_type \<times> string) list \<times> account_history" where
  "failure_alerts x h =
    (if attempt_successful x
     then ((if 3 \<le> failures_within_window (recent_failures h) (attempted_at x) 600000000000
            then [(RapidFailuresThenSuccess, rapid_failures_text)] else []), h\<lparr>recent_failures := []\<rparr>)
     else ([], h\<lparr>recent_failures := recent_failures h @ [attempted_at x]\<rparr>))"

text \<open>\<open>None\<close> is the error for an empty account.\<close>

definition record_login_attempt :: "math_library \<Rightarrow> login_attempt \<Rightarrow> anomaly_detector \<Rightarrow>
    (anomaly_alert list \<times> anomaly_detector) option" where
  "record_login_attempt m x d =
    (if attempt_account x = '''' then None
     else let h = lookup_or empty_history (history_by_account d) (attempt_account x);
              first = device_alerts x h; h1 = remember_device x h
       in case travel_alerts m x h1 of (second, h2) \<Rightarrow> case failure_alerts x h2 of (third, h3) \<Rightarrow>
          let raised = map (\<lambda>(kind, detail). \<lparr>anomaly_account = attempt_account x, anomaly_kind = kind,
                anomaly_detail = detail, anomaly_detected_at = attempted_at x\<rparr>) (first @ second @ third)
          in Some (raised, d\<lparr>history_by_account := put (attempt_account x) h3 (history_by_account d),
               anomaly_alerts := anomaly_alerts d @ raised\<rparr>))"

definition anomalies_for_account :: "string \<Rightarrow> anomaly_detector \<Rightarrow> anomaly_alert list" where
  "anomalies_for_account a d = filter (\<lambda>x. anomaly_account x = a) (anomaly_alerts d)"

section \<open>Alerts follow the history\<close>

definition record_attempts :: "math_library \<Rightarrow> login_attempt list \<Rightarrow> anomaly_detector \<Rightarrow> anomaly_detector" where
  "record_attempts m xs d = foldl (\<lambda>d x. case record_login_attempt m x d of None \<Rightarrow> d | Some (raised, d') \<Rightarrow> d') d xs"

definition own_attempts :: "string \<Rightarrow> login_attempt list \<Rightarrow> login_attempt list" where
  "own_attempts a xs = filter (\<lambda>x. attempt_account x = a) xs"

text \<open>The failures since the last success, oldest first.\<close>

definition failure_run :: "login_attempt list \<Rightarrow> login_attempt list" where
  "failure_run xs = rev (takeWhile (\<lambda>x. \<not> attempt_successful x) (rev xs))"

definition history_reflects :: "login_attempt list \<Rightarrow> account_history \<Rightarrow> bool" where
  "history_reflects xs h \<longleftrightarrow>
    set (known_devices h) = attempt_device ` set xs - {''''} \<and> set (known_networks h) = attempt_network ` set xs - {''''} \<and>
    (has_ever_attempted h \<longleftrightarrow> xs \<noteq> []) \<and> recent_failures h = map attempted_at (failure_run xs)"

lemma travel_alerts_keeps:
  "known_devices (snd (travel_alerts m x h)) = known_devices h \<and> known_networks (snd (travel_alerts m x h)) = known_networks h
   \<and> has_ever_attempted (snd (travel_alerts m x h)) = has_ever_attempted h
   \<and> recent_failures (snd (travel_alerts m x h)) = recent_failures h"
  by (simp add: travel_alerts_def split: option.splits)

lemma travel_alerts_kind: "k \<in> fst ` set (fst (travel_alerts m x h)) \<Longrightarrow> k = ImpossibleTravel"
  by (auto simp: travel_alerts_def split: option.splits prod.splits if_splits)

lemma history_reflects_next:
  assumes "history_reflects xs h"
  shows "history_reflects (xs @ [x]) (snd (failure_alerts x (snd (travel_alerts m x (remember_device x h)))))"
  using assms travel_alerts_keeps [of m x "remember_device x h"]
  by (auto simp: history_reflects_def failure_alerts_def remember_device_def failure_run_def)

lemma history_reflects_attempts:
  assumes "\<forall>x\<in>set xs. attempt_account x \<noteq> ''''"
  shows "history_reflects (own_attempts a xs)
    (lookup_or empty_history (history_by_account (record_attempts m xs new_anomaly_detector)) a)"
  using assms
proof (induction xs rule: rev_induct)
  case Nil
  then show ?case
    by (simp add: record_attempts_def new_anomaly_detector_def history_reflects_def own_attempts_def lookup_or_def
      empty_history_def failure_run_def)
next
  case (snoc x xs)
  then show ?case
    using history_reflects_next [of "own_attempts a xs"]
    by (auto simp: record_attempts_def record_login_attempt_def own_attempts_def Let_def case_prod_beta)
qed

text \<open>After any history of logins, an attempt raises the alert for a new device or network exactly when the
  account was tried before and the device, or the network, is named and was never named in an
  attempt of that account; and the alert for rapid failures exactly when it succeeds after at
  least three failures of the account since its last success, within the last ten minutes.\<close>

theorem alerts_follow_history:
  assumes "\<forall>y\<in>set (x # xs). attempt_account y \<noteq> ''''"
  shows "case record_login_attempt m x (record_attempts m xs new_anomaly_detector) of
     None \<Rightarrow> False
   | Some (raised, d) \<Rightarrow>
       (let own = own_attempts (attempt_account x) xs in
        (NewDeviceOrNetwork \<in> anomaly_kind ` set raised \<longleftrightarrow> own \<noteq> [] \<and>
          (attempt_device x \<notin> insert '''' (attempt_device ` set own) \<or> attempt_network x \<notin> insert '''' (attempt_network ` set own))) \<and>
        (RapidFailuresThenSuccess \<in> anomaly_kind ` set raised \<longleftrightarrow> attempt_successful x \<and>
          3 \<le> length (filter (\<lambda>y. attempted_at x - 600000000000 \<le> attempted_at y) (failure_run own))))"
proof -
  let ?a = "attempt_account x"
  let ?h = "lookup_or empty_history (history_by_account (record_attempts m xs new_anomaly_detector)) ?a"
  let ?h2 = "snd (travel_alerts m x (remember_device x ?h))"
  have h: "history_reflects (own_attempts ?a xs) ?h" using assms by (intro history_reflects_attempts) simp
  have failures: "recent_failures ?h2 = map attempted_at (failure_run (own_attempts ?a xs))"
    using h travel_alerts_keeps [of m x "remember_device x ?h"] by (simp add: history_reflects_def remember_device_def)
  have window: "(time_after t (time_add now (- 600000000000)) \<or> t = time_add now (- 600000000000)) = (now - 600000000000 \<le> t)"
    for t now by (auto simp: time_defs)
  have device: "NewDeviceOrNetwork \<in> fst ` set (device_alerts x ?h) \<longleftrightarrow> own_attempts ?a xs \<noteq> [] \<and>
      (attempt_device x \<notin> insert '''' (attempt_device ` set (own_attempts ?a xs))
       \<or> attempt_network x \<notin> insert '''' (attempt_network ` set (own_attempts ?a xs)))"
    using h by (auto simp: device_alerts_def history_reflects_def Let_def)
  have rapid: "RapidFailuresThenSuccess \<in> fst ` set (fst (failure_alerts x ?h2)) \<longleftrightarrow> attempt_successful x \<and>
      3 \<le> length (filter (\<lambda>y. attempted_at x - 600000000000 \<le> attempted_at y) (failure_run (own_attempts ?a xs)))"
    by (cases "3 \<le> length (filter (\<lambda>y. attempted_at x - 600000000000 \<le> attempted_at y) (failure_run (own_attempts ?a xs)))")
      (simp_all add: failure_alerts_def failures_within_window_def failures window filter_map comp_def Let_def)
  have kinds: "NewDeviceOrNetwork \<notin> fst ` set (fst (travel_alerts m x h))"
      "RapidFailuresThenSuccess \<notin> fst ` set (fst (travel_alerts m x h))"
      "NewDeviceOrNetwork \<notin> fst ` set (fst (failure_alerts x h))" "RapidFailuresThenSuccess \<notin> fst ` set (device_alerts x h)" for h
    using travel_alerts_kind [of _ m x h] by (auto simp: failure_alerts_def device_alerts_def Let_def)
  have image: "anomaly_kind ` (\<lambda>p. \<lparr>anomaly_account = a, anomaly_kind = fst p, anomaly_detail = snd p,
      anomaly_detected_at = t\<rparr>) ` S = fst ` S" for a t and S :: "(anomaly_type \<times> string) set"
    by (simp add: image_image)
  have "?a \<noteq> ''''" using assms by simp
  then show ?thesis
    using device rapid kinds
    by (simp add: record_login_attempt_def Let_def case_prod_beta image image_Un)
qed

definition demo_attempt :: "string \<Rightarrow> bool \<Rightarrow> instant \<Rightarrow> login_attempt" where
  "demo_attempt device ok t = \<lparr>attempt_account = ''a'', attempt_device = device, attempt_network = '''',
     attempt_successful = ok, attempted_at = t, attempt_location = None\<rparr>"

definition demo_math :: math_library where
  "demo_math = \<lparr>math_sin = id, math_cos = id, math_sqrt = id, math_atan2 = (\<lambda>_. id), duration_string = (\<lambda>_. [])\<rparr>"

theorem alerts_follow_history_witness:
  "case record_login_attempt demo_math (demo_attempt ''phone'' True 40)
     (record_attempts demo_math (map (demo_attempt ''laptop'' False) [10, 20, 30]) new_anomaly_detector) of
     None \<Rightarrow> False
   | Some (raised, d) \<Rightarrow> {NewDeviceOrNetwork, RapidFailuresThenSuccess} \<subseteq> anomaly_kind ` set raised"
proof -
  have "\<forall>y\<in>set (demo_attempt ''phone'' True 40 # map (demo_attempt ''laptop'' False) [10, 20, 30]). attempt_account y \<noteq> ''''"
    by (simp add: demo_attempt_def)
  from alerts_follow_history [OF this, of demo_math] show ?thesis
    by (auto simp: demo_attempt_def own_attempts_def failure_run_def Let_def split: option.splits)
qed

end
