(* ===== verification/AuthServer.thy ===== *)
theory AuthServer
  imports LoginGuards LoginAnomaly SessionStore
begin

text \<open>
  The handlers of the authentication service, services/auth/cmd/server/main.go: registration, login,
  refresh, logout, the management of second factors and the verification of access tokens, each as
  one step over the stores it is given. Requests arrive decoded; the clock readings of a request
  and its random values are part of it, and the key of a remote address is an argument.
\<close>

section \<open>State\<close>

record auth_state =
  auth_accounts :: account_store
  auth_sessions :: session_store
  auth_mfa :: mfa_state
  auth_login_limiter :: rate_limiter
  auth_register_limiter :: rate_limiter
  auth_detector :: anomaly_detector

record auth_environment =
  env_kdf :: key_derivation
  env_hmac_sha1 :: mac
  env_hmac_sha256 :: mac
  env_unmarshal :: "byte list \<Rightarrow> access_claims option"
  env_math :: math_library
  env_signing_secret :: "byte list"

definition access_token_lifetime :: duration where
  "access_token_lifetime = 900 * 1000000000"

definition new_auth_state :: auth_state where
  "new_auth_state = \<lparr>auth_accounts = new_account_store, auth_sessions = new_session_store (30 * 24 * 3600 * 1000000000),
     auth_mfa = new_mfa_state, auth_login_limiter = new_rate_limiter 5 60000000000,
     auth_register_limiter = new_rate_limiter 3 60000000000, auth_detector = new_anomaly_detector\<rparr>"

definition demo_seed_accounts :: "string list" where
  "demo_seed_accounts = [''acct-001'', ''acct-002'']"

fun seed_demo_accounts :: "key_derivation \<Rightarrow> (string \<Rightarrow> byte list option) \<Rightarrow> string \<Rightarrow> string list \<Rightarrow> account_store \<Rightarrow> account_store" where
  "seed_demo_accounts kdf salt password [] s = s"
| "seed_demo_accounts kdf salt password (a # rest) s =
    (case register_account kdf (salt a) None (a @ ''@demo.mercurius.local'') password a ''retail'' s of
       Inl err \<Rightarrow> seed_demo_accounts kdf salt password rest s
     | Inr (identifier, s') \<Rightarrow> seed_demo_accounts kdf salt password rest s')"

section \<open>Registration\<close>

datatype register_answer = RegisterTooMany | RegisterFieldsMissing | RegisterRefused account_error | Registered string

definition register_handler :: "auth_environment \<Rightarrow> byte list option \<Rightarrow> byte list option \<Rightarrow> string \<Rightarrow> instant \<Rightarrow> string \<Rightarrow> string \<Rightarrow>
    auth_state \<Rightarrow> register_answer \<times> auth_state" where
  "register_handler env salt random_bytes address now email password s =
    (case limiter_allow address now (auth_register_limiter s) of (allowed, limiter) \<Rightarrow>
     let s1 = s\<lparr>auth_register_limiter := limiter\<rparr>
     in if \<not> allowed then (RegisterTooMany, s1)
        else if email = '''' \<or> password = '''' then (RegisterFieldsMissing, s1)
        else case register_account (env_kdf env) salt random_bytes email password '''' ''retail'' (auth_accounts s1) of
          Inl err \<Rightarrow> (RegisterRefused err, s1)
        | Inr (identifier, accounts) \<Rightarrow> (Registered identifier, s1\<lparr>auth_accounts := accounts\<rparr>))"

section \<open>Login\<close>

record login_request =
  login_email :: string
  login_password :: string
  login_totp :: string
  login_device :: string
  login_network :: string
  login_latitude :: "float64 option"
  login_longitude :: "float64 option"

datatype login_answer =
    LoginTooMany | LoginInvalidCredentials | LoginMfaRequired | LoginMfaFailed | LoginMfaInvalid | LoginSessionFailed
  | LoginGranted string string string "anomaly_alert list"

definition login_record :: "math_library \<Rightarrow> string \<Rightarrow> login_request \<Rightarrow> bool \<Rightarrow> instant \<Rightarrow> auth_state \<Rightarrow>
    anomaly_alert list \<times> auth_state" where
  "login_record m key r ok now s =
    (case record_login_attempt m \<lparr>attempt_account = key, attempt_device = login_device r, attempt_network = login_network r,
         attempt_successful = ok, attempted_at = now,
         attempt_location = (case (login_latitude r, login_longitude r) of
           (Some lat, Some lon) \<Rightarrow> Some (lat, lon) | _ \<Rightarrow> None)\<rparr> (auth_detector s) of
       None \<Rightarrow> ([], s)
     | Some (alerts, d) \<Rightarrow> (alerts, s\<lparr>auth_detector := d\<rparr>))"

definition login_grant :: "auth_environment \<Rightarrow> string option \<Rightarrow> string option \<Rightarrow> login_request \<Rightarrow> string \<Rightarrow> string \<Rightarrow> instant \<Rightarrow>
    auth_state \<Rightarrow> login_answer \<times> auth_state" where
  "login_grant env family tok r a role now s =
    (let access = issue_access_token (env_hmac_sha256 env) a role (env_signing_secret env) access_token_lifetime now
     in case issue_new_session_family a now family tok (auth_sessions s) of
       Inl err \<Rightarrow> (LoginSessionFailed, s)
     | Inr (refresh, store) \<Rightarrow>
         (case login_record (env_math env) (normalize_email (login_email r)) r True now (s\<lparr>auth_sessions := store\<rparr>) of
           (alerts, s') \<Rightarrow> (LoginGranted a access refresh alerts, s')))"

definition login_handler :: "auth_environment \<Rightarrow> string option \<Rightarrow> string option \<Rightarrow> login_request \<Rightarrow> instant \<Rightarrow> instant \<Rightarrow>
    auth_state \<Rightarrow> login_answer \<times> auth_state" where
  "login_handler env family tok r arrived now s =
    (let key = normalize_email (login_email r) in
     case limiter_allow key arrived (auth_login_limiter s) of (allowed, limiter) \<Rightarrow>
     let s1 = s\<lparr>auth_login_limiter := limiter\<rparr>
     in if \<not> allowed then (LoginTooMany, s1)
        else case authenticate_with_password (env_kdf env) (login_email r) (login_password r) (auth_accounts s1) of
          Inl err \<Rightarrow> (LoginInvalidCredentials, snd (login_record (env_math env) key r False now s1))
        | Inr (a, role) \<Rightarrow>
            if is_mfa_enabled a (auth_mfa s1)
            then if login_totp r = '''' then (LoginMfaRequired, s1)
                 else case verify_login_code (env_hmac_sha1 env) a (login_totp r) now (auth_mfa s1) of
                   None \<Rightarrow> (LoginMfaFailed, s1)
                 | Some ok \<Rightarrow>
                     if ok then login_grant env family tok r a role now s1
                     else (LoginMfaInvalid, snd (login_record (env_math env) key r False now s1))
            else login_grant env family tok r a role now s1)"

section \<open>Sessions\<close>

datatype refresh_answer = RefreshRefused refresh_error | RefreshReuseDetected | Refreshed string string string

definition refresh_handler :: "auth_environment \<Rightarrow> string \<Rightarrow> instant \<Rightarrow> string option \<Rightarrow> auth_state \<Rightarrow> refresh_answer \<times> auth_state" where
  "refresh_handler env presented now tok s =
    (case rotate_refresh_token presented now tok (auth_sessions s) of (outcome, store) \<Rightarrow>
     let s1 = s\<lparr>auth_sessions := store\<rparr>
     in case outcome of
          Inl err \<Rightarrow> (RefreshRefused err, s1)
        | Inr result \<Rightarrow>
            if was_reuse_detected result then (RefreshReuseDetected, s1)
            else let a = result_account result;
                     role = (case role_for_account_identifier a (auth_accounts s1) of None \<Rightarrow> ''retail'' | Some r \<Rightarrow> r)
              in (Refreshed a (issue_access_token (env_hmac_sha256 env) a role (env_signing_secret env)
                   access_token_lifetime now) (new_refresh_token result), s1))"

definition logout_handler :: "string \<Rightarrow> auth_state \<Rightarrow> auth_state" where
  "logout_handler tok s = (case revoke_refresh_token tok (auth_sessions s) of
     Inl err \<Rightarrow> s | Inr store \<Rightarrow> s\<lparr>auth_sessions := store\<rparr>)"

section \<open>Bearer tokens and second factors\<close>

definition extract_bearer_token :: "string \<Rightarrow> string" where
  "extract_bearer_token header =
    (if length header \<le> 7 \<or> take 7 header \<noteq> ''Bearer '' then '''' else drop 7 header)"

text \<open>\<open>None\<close> is a missing or malformed header, \<open>Inl\<close> a token that is refused.\<close>

definition require_valid_access_token :: "auth_environment \<Rightarrow> string \<Rightarrow> instant \<Rightarrow> (token_error + string) option" where
  "require_valid_access_token env header now =
    (let bearer = extract_bearer_token header in
     if bearer = '''' then None
     else Some (case parse_access_token (env_hmac_sha256 env) (env_unmarshal env) bearer (env_signing_secret env) now of
       Inl err \<Rightarrow> Inl err | Inr c \<Rightarrow> Inr (claims_subject c)))"

datatype mfa_answer = MfaUnauthorized | MfaEnrollFailed | MfaEnrolled string | MfaConfirmFailed | MfaConfirmed bool | MfaDisabled

definition mfa_enroll_handler :: "auth_environment \<Rightarrow> string \<Rightarrow> instant \<Rightarrow> byte list option \<Rightarrow> auth_state \<Rightarrow> mfa_answer \<times> auth_state" where
  "mfa_enroll_handler env header now random_bytes s = (case require_valid_access_token env header now of
     Some (Inr a) \<Rightarrow> (case begin_enrollment a random_bytes (auth_mfa s) of
         (None, m) \<Rightarrow> (MfaEnrollFailed, s\<lparr>auth_mfa := m\<rparr>)
       | (Some secret, m) \<Rightarrow> (MfaEnrolled secret, s\<lparr>auth_mfa := m\<rparr>))
   | _ \<Rightarrow> (MfaUnauthorized, s))"

definition mfa_confirm_handler :: "auth_environment \<Rightarrow> string \<Rightarrow> instant \<Rightarrow> string \<Rightarrow> instant \<Rightarrow> auth_state \<Rightarrow> mfa_answer \<times> auth_state" where
  "mfa_confirm_handler env header arrived code now s = (case require_valid_access_token env header arrived of
     Some (Inr a) \<Rightarrow> (case confirm_enrollment (env_hmac_sha1 env) a code now (auth_mfa s) of
         (None, m) \<Rightarrow> (MfaConfirmFailed, s\<lparr>auth_mfa := m\<rparr>)
       | (Some ok, m) \<Rightarrow> (MfaConfirmed ok, s\<lparr>auth_mfa := m\<rparr>))
   | _ \<Rightarrow> (MfaUnauthorized, s))"

definition mfa_disable_handler :: "auth_environment \<Rightarrow> string \<Rightarrow> instant \<Rightarrow> auth_state \<Rightarrow> mfa_answer \<times> auth_state" where
  "mfa_disable_handler env header now s = (case require_valid_access_token env header now of
     Some (Inr a) \<Rightarrow> (MfaDisabled, s\<lparr>auth_mfa := disable_mfa a (auth_mfa s)\<rparr>)
   | _ \<Rightarrow> (MfaUnauthorized, s))"

section \<open>A login needs every factor\<close>

lemma login_record_keeps:
  "auth_accounts (snd (login_record m key r ok now s)) = auth_accounts s
   \<and> auth_sessions (snd (login_record m key r ok now s)) = auth_sessions s
   \<and> auth_mfa (snd (login_record m key r ok now s)) = auth_mfa s
   \<and> auth_login_limiter (snd (login_record m key r ok now s)) = auth_login_limiter s"
  by (simp add: login_record_def split: option.splits)

text \<open>C11. Tokens are handed out only to a request that the limiter lets through, whose password is the one of the
  account, and whose code, where the account requires one, is valid; the access token is then the
  one issued for that account and role and the refresh token is stored as an active one. Every
  other answer leaves the sessions, the accounts and the second factors as they were.\<close>

theorem login_needs_every_factor:
  "case login_handler env family tok r arrived now s of (answer, s') \<Rightarrow>
     (case answer of
        LoginGranted a access refresh alerts \<Rightarrow>
          fst (limiter_allow (normalize_email (login_email r)) arrived (auth_login_limiter s))
          \<and> (\<exists>role. authenticate_with_password (env_kdf env) (login_email r) (login_password r) (auth_accounts s) = Inr (a, role)
              \<and> access = issue_access_token (env_hmac_sha256 env) a role (env_signing_secret env) access_token_lifetime now)
          \<and> (if is_mfa_enabled a (auth_mfa s)
              then verify_login_code (env_hmac_sha1 env) a (login_totp r) now (auth_mfa s) = Some True else True)
          \<and> map_option (\<lambda>t. (token_account t, token_state t)) (lookup (records_by_token (auth_sessions s')) refresh)
              = Some (a, TokenActive)
      | _ \<Rightarrow> auth_sessions s' = auth_sessions s)
     \<and> auth_accounts s' = auth_accounts s \<and> auth_mfa s' = auth_mfa s"
proof -
  obtain allowed limiter where l: "limiter_allow (normalize_email (login_email r)) arrived (auth_login_limiter s) = (allowed, limiter)"
    by (cases "limiter_allow (normalize_email (login_email r)) arrived (auth_login_limiter s)")
  let ?s1 = "s\<lparr>auth_login_limiter := limiter\<rparr>"
  have grant: "case login_grant env family tok r a role now ?s1 of (answer, s') \<Rightarrow>
      (case answer of
        LoginGranted b access refresh alerts \<Rightarrow> b = a
          \<and> access = issue_access_token (env_hmac_sha256 env) a role (env_signing_secret env) access_token_lifetime now
          \<and> map_option (\<lambda>t. (token_account t, token_state t)) (lookup (records_by_token (auth_sessions s')) refresh)
              = Some (a, TokenActive)
      | _ \<Rightarrow> auth_sessions s' = auth_sessions s)
     \<and> auth_accounts s' = auth_accounts s \<and> auth_mfa s' = auth_mfa s" for a role
    using login_record_keeps [of "env_math env" "normalize_email (login_email r)" r True now]
    by (auto simp: login_grant_def issue_new_session_family_def issue_token_in_family_def Let_def case_prod_beta
      split: option.splits)
  show ?thesis
  proof (cases "authenticate_with_password (env_kdf env) (login_email r) (login_password r) (auth_accounts s)")
    case (Inl err)
    then show ?thesis by (cases allowed) (simp_all add: login_handler_def l Let_def login_record_keeps)
  next
    case (Inr p)
    obtain a role where p: "p = (a, role)" by (cases p)
    show ?thesis
    proof (cases "allowed \<and> (is_mfa_enabled a (auth_mfa s) \<longrightarrow>
        login_totp r \<noteq> '''' \<and> verify_login_code (env_hmac_sha1 env) a (login_totp r) now (auth_mfa s) = Some True)")
      case True
      obtain answer s' where g: "login_grant env family tok r a role now ?s1 = (answer, s')"
        by (cases "login_grant env family tok r a role now ?s1")
      have h: "login_handler env family tok r arrived now s = (answer, s')"
        using True by (simp add: login_handler_def l Inr p Let_def g)
      show ?thesis using grant [of a role] True unfolding h g prod.case l Inr p by (cases answer) auto
    next
      case False
      then show ?thesis
        by (cases allowed; cases "is_mfa_enabled a (auth_mfa s)"; cases "login_totp r = ''''";
            cases "verify_login_code (env_hmac_sha1 env) a (login_totp r) now (auth_mfa s)")
          (simp_all add: login_handler_def l Inr p Let_def login_record_keeps)
    qed
  qed
qed

section \<open>Guesses per minute\<close>

datatype auth_request =
    RequestRegister "byte list option" "byte list option" string instant string string
  | RequestLogin "string option" "string option" login_request instant instant
  | RequestRefresh string instant "string option"
  | RequestLogout string
  | RequestEnroll string instant "byte list option"
  | RequestConfirm string instant string instant
  | RequestDisable string instant

fun serve :: "auth_environment \<Rightarrow> auth_request \<Rightarrow> auth_state \<Rightarrow> auth_state" where
  "serve env (RequestRegister salt bytes address now email password) s =
     snd (register_handler env salt bytes address now email password s)"
| "serve env (RequestLogin family tok r arrived now) s = snd (login_handler env family tok r arrived now s)"
| "serve env (RequestRefresh presented now tok) s = snd (refresh_handler env presented now tok s)"
| "serve env (RequestLogout tok) s = logout_handler tok s"
| "serve env (RequestEnroll header now bytes) s = snd (mfa_enroll_handler env header now bytes s)"
| "serve env (RequestConfirm header arrived code now) s = snd (mfa_confirm_handler env header arrived code now s)"
| "serve env (RequestDisable header now) s = snd (mfa_disable_handler env header now s)"

text \<open>The logins among the requests: the key, the time, and whether the password was looked at.\<close>

fun password_checks :: "auth_environment \<Rightarrow> auth_request list \<Rightarrow> auth_state \<Rightarrow> (string \<times> instant \<times> bool) list" where
  "password_checks env [] s = []"
| "password_checks env (q # qs) s =
    (case q of
       RequestLogin family tok r arrived now \<Rightarrow>
         [(normalize_email (login_email r), arrived, fst (login_handler env family tok r arrived now s) \<noteq> LoginTooMany)]
     | _ \<Rightarrow> []) @ password_checks env qs (serve env q s)"

fun login_arrivals :: "auth_request list \<Rightarrow> (string \<times> instant) list" where
  "login_arrivals [] = []"
| "login_arrivals (q # qs) = (case q of
     RequestLogin family tok r arrived now \<Rightarrow> [(normalize_email (login_email r), arrived)] | _ \<Rightarrow> []) @ login_arrivals qs"

lemma login_grant_keeps:
  "auth_login_limiter (snd (login_grant env family tok r a role now s)) = auth_login_limiter s
   \<and> fst (login_grant env family tok r a role now s) \<noteq> LoginTooMany"
  by (simp add: login_grant_def issue_new_session_family_def issue_token_in_family_def Let_def login_record_keeps
    case_prod_beta split: option.splits)

lemma login_limits:
  "auth_login_limiter (snd (login_handler env family tok r arrived now s))
     = snd (limiter_allow (normalize_email (login_email r)) arrived (auth_login_limiter s))
   \<and> (fst (login_handler env family tok r arrived now s) \<noteq> LoginTooMany \<longleftrightarrow>
     fst (limiter_allow (normalize_email (login_email r)) arrived (auth_login_limiter s)))"
  by (simp add: login_handler_def Let_def login_record_keeps login_grant_keeps case_prod_beta split: sum.splits option.splits)

lemma serve_keeps_limiter:
  assumes "\<forall>family tok r arrived now. q \<noteq> RequestLogin family tok r arrived now"
  shows "auth_login_limiter (serve env q s) = auth_login_limiter s"
  using assms
  by (cases q) (auto simp: register_handler_def refresh_handler_def logout_handler_def mfa_enroll_handler_def
    mfa_confirm_handler_def mfa_disable_handler_def Let_def split: option.splits sum.splits prod.splits)

lemma password_checks_limited:
  "password_checks env qs s = fst (run_limiter (login_arrivals qs) (auth_login_limiter s))"
proof (induction qs arbitrary: s)
  case (Cons q qs)
  show ?case
  proof (cases "\<exists>family tok r arrived now. q = RequestLogin family tok r arrived now")
    case True
    then obtain family tok r arrived now where "q = RequestLogin family tok r arrived now" by blast
    then show ?thesis
      using Cons [of "serve env q s"] by (simp add: login_limits case_prod_beta)
  next
    case False
    then show ?thesis
      using Cons [of "serve env q s"] serve_keeps_limiter [of q env s] by (auto split: auth_request.splits)
  qed
qed simp

text \<open>C12. Whatever requests the service gets, from whatever addresses, within any minute it looks at no more than
  five passwords for one email address; logins arrive in the order of their times.\<close>

theorem password_guesses_capped:
  assumes "sorted (map snd (login_arrivals qs))"
  shows "permitted_between (normalize_email email) (t - 60000000000) t
    (password_checks env qs (new_auth_state\<lparr>auth_accounts := accounts\<rparr>)) \<le> 5"
proof -
  have "int (permitted_between (normalize_email email) (time_add t (- 60000000000)) t
      (fst (run_limiter (login_arrivals qs) (new_rate_limiter 5 60000000000)))) \<le> 5"
    using assms by (intro attempts_capped) simp_all
  then show ?thesis by (simp add: password_checks_limited new_auth_state_def time_add_def)
qed

definition demo_login :: login_request where
  "demo_login = \<lparr>login_email = ''a@x'', login_password = ''p'', login_totp = '''', login_device = '''', login_network = '''',
     login_latitude = None, login_longitude = None\<rparr>"

definition demo_environment :: auth_environment where
  "demo_environment = \<lparr>env_kdf = plain_derivation, env_hmac_sha1 = plain_mac, env_hmac_sha256 = plain_mac,
     env_unmarshal = (\<lambda>_. None), env_math = demo_math, env_signing_secret = []\<rparr>"

theorem password_guesses_capped_witness:
  "permitted_between (normalize_email ''A@x'') (5 - 60000000000) 5
     (password_checks demo_environment (map (\<lambda>t. RequestLogin None None demo_login t t) [0, 1, 2, 3, 4, 5])
       (new_auth_state\<lparr>auth_accounts := new_account_store\<rparr>)) \<le> 5"
  by (rule password_guesses_capped) simp

text \<open>A login without an address has the empty key, which the detector refuses: it is never recorded.\<close>

theorem empty_address_not_recorded:
  "snd (login_record m (normalize_email '''') r ok now s) = s"
proof -
  have "normalize_email '''' = ''''" by code_simp
  then show ?thesis by (simp add: login_record_def record_login_attempt_def)
qed

end
