(* ===== verification/AccountOpening.thy ===== *)
theory AccountOpening
  imports GoText
begin

text \<open>
  The opening of an account in the onboarding service, services/kyc-onboarding/internal: the
  verification of identity (kycstate/kycVerificationStateMachine.go), of a bank account by a small
  deposit (bankverification/bankAccountVerifier.go), and the risk questionnaire
  (riskprofiling/riskProfiler.go). Random values are arguments.
\<close>

section \<open>Verification of identity\<close>

datatype kyc_stage = StageNotSubmitted | StageVerified | StageRejected | StageUnknown string

record kyc_record =
  kyc_account :: string
  kyc_stage :: kyc_stage
  kyc_pan_number :: string
  kyc_full_name :: string
  kyc_rejection_reason :: string

type_synonym kyc_registry = "kyc_record table"

datatype kyc_error = NoRecordToOverride | InvalidOverrideStage

definition upper_letter :: "char \<Rightarrow> bool" where
  "upper_letter c = (65 \<le> (of_char c :: nat) \<and> (of_char c :: nat) \<le> 90)"

definition decimal_digit :: "char \<Rightarrow> bool" where
  "decimal_digit c = (48 \<le> (of_char c :: nat) \<and> (of_char c :: nat) \<le> 57)"

text \<open>The pattern \<open>^[A-Z]{5}[0-9]{4}[A-Z]$\<close>.\<close>

definition pan_format :: "string \<Rightarrow> bool" where
  "pan_format s = (length s = 10 \<and> list_all upper_letter (take 5 s) \<and> list_all decimal_digit (take 4 (drop 5 s))
     \<and> list_all upper_letter (drop 9 s))"

definition submit_kyc_details :: "string \<Rightarrow> string \<Rightarrow> string \<Rightarrow> kyc_registry \<Rightarrow> kyc_record \<times> kyc_registry" where
  "submit_kyc_details a pan name s =
    (let (stage, reason) = (if name = '''' then (StageRejected, ''full name is required'')
           else if \<not> pan_format pan then (StageRejected, quoted_text pan @ '' is not a validly-formatted PAN (expected AAAAA9999A)'')
           else (StageVerified, ''''));
         r = \<lparr>kyc_account = a, kyc_stage = stage, kyc_pan_number = pan, kyc_full_name = name, kyc_rejection_reason = reason\<rparr>
     in (r, put a r s))"

definition lookup_kyc_status :: "string \<Rightarrow> kyc_registry \<Rightarrow> kyc_record" where
  "lookup_kyc_status a s = lookup_or \<lparr>kyc_account = a, kyc_stage = StageNotSubmitted, kyc_pan_number = '''',
     kyc_full_name = '''', kyc_rejection_reason = ''''\<rparr> s a"

definition is_eligible_to_place_orders :: "kyc_record \<Rightarrow> bool" where
  "is_eligible_to_place_orders r = (kyc_stage r = StageVerified)"

definition list_records_by_stage :: "kyc_stage \<Rightarrow> kyc_registry \<Rightarrow> kyc_record list" where
  "list_records_by_stage stage s = sort_key kyc_account (filter (\<lambda>r. kyc_stage r = stage) (map snd s))"

definition override_stage :: "string \<Rightarrow> kyc_stage \<Rightarrow> string \<Rightarrow> kyc_registry \<Rightarrow> kyc_error + kyc_record \<times> kyc_registry" where
  "override_stage a stage reason s =
    (if stage \<noteq> StageVerified \<and> stage \<noteq> StageRejected then Inl InvalidOverrideStage
     else case lookup s a of
       None \<Rightarrow> Inl NoRecordToOverride
     | Some r \<Rightarrow>
         let r' = r\<lparr>kyc_stage := stage, kyc_rejection_reason := (if stage = StageRejected then reason else '''')\<rparr>
         in Inr (r', put a r' s))"

section \<open>Verification of a bank account\<close>

datatype bank_status = BankPending | BankVerified | BankFailedLocked | BankNotFound

record bank_verification =
  bank_verification_id :: string
  bank_holder :: string
  bank_account_number :: string
  bank_ifsc_code :: string
  deposited_amount :: int64
  bank_status :: bank_status
  remaining_attempts :: int

record bank_verifier =
  bank_records :: "bank_verification table"
  latest_verification :: "string table"

definition new_bank_verifier :: bank_verifier where
  "new_bank_verifier = \<lparr>bank_records = [], latest_verification = []\<rparr>"

definition max_confirmation_attempts :: int where
  "max_confirmation_attempts = 3"

text \<open>The random offset is below 99; \<open>None\<close> when the random source fails.\<close>

definition random_deposit_amount :: "int option \<Rightarrow> int64 option" where
  "random_deposit_amount offset = map_option (\<lambda>k. 1 + word_of_int k) offset"

definition initiate_verification :: "int option \<Rightarrow> string option \<Rightarrow> string \<Rightarrow> string \<Rightarrow> string \<Rightarrow> bank_verifier \<Rightarrow>
    (string \<times> bank_verifier) option" where
  "initiate_verification offset new_id a account_number ifsc v =
    Option.bind (random_deposit_amount offset) (\<lambda>amount. Option.bind new_id (\<lambda>i.
      Some (i, v\<lparr>bank_records := put i \<lparr>bank_verification_id = i, bank_holder = a, bank_account_number = account_number,
            bank_ifsc_code = ifsc, deposited_amount = amount, bank_status = BankPending,
            remaining_attempts = max_confirmation_attempts\<rparr> (bank_records v),
          latest_verification := put a i (latest_verification v)\<rparr>)))"

definition confirm_deposit_amount :: "string \<Rightarrow> int64 \<Rightarrow> bank_verifier \<Rightarrow> bank_status \<times> bank_verifier" where
  "confirm_deposit_amount i claimed v = (case lookup (bank_records v) i of
     None \<Rightarrow> (BankNotFound, v)
   | Some r \<Rightarrow>
       if bank_status r \<noteq> BankPending then (bank_status r, v)
       else let r' = (if claimed = deposited_amount r then r\<lparr>bank_status := BankVerified\<rparr>
              else let left = remaining_attempts r - 1
                in r\<lparr>remaining_attempts := left, bank_status := (if left \<le> 0 then BankFailedLocked else BankPending)\<rparr>)
            in (bank_status r', v\<lparr>bank_records := put i r' (bank_records v)\<rparr>))"

definition latest_verification_for_account :: "string \<Rightarrow> bank_verifier \<Rightarrow> string option" where
  "latest_verification_for_account a v = lookup (latest_verification v) a"

definition query_verification_status :: "string \<Rightarrow> bank_verifier \<Rightarrow> bank_status" where
  "query_verification_status i v = (case lookup (bank_records v) i of None \<Rightarrow> BankNotFound | Some r \<Rightarrow> bank_status r)"

definition peek_deposit_amount :: "string \<Rightarrow> bank_verifier \<Rightarrow> int64 option" where
  "peek_deposit_amount i v = map_option deposited_amount (lookup (bank_records v) i)"

datatype bank_initiate_answer = BankFieldsMissing | BankInitiateFailed | BankInitiated string

definition bank_initiate_handler :: "int option \<Rightarrow> string option \<Rightarrow> string \<Rightarrow> string \<Rightarrow> string \<Rightarrow> bank_verifier \<Rightarrow>
    bank_initiate_answer \<times> bank_verifier" where
  "bank_initiate_handler offset new_id a account_number ifsc v =
    (if a = '''' \<or> account_number = '''' \<or> ifsc = '''' then (BankFieldsMissing, v)
     else case initiate_verification offset new_id a account_number ifsc v of
       None \<Rightarrow> (BankInitiateFailed, v) | Some (i, v') \<Rightarrow> (BankInitiated i, v'))"

section \<open>The risk questionnaire\<close>

datatype risk_category =
    RiskConservative | RiskModeratelyConservative | RiskModerate | RiskModeratelyAggressive | RiskAggressive

record risk_question =
  question_id :: string
  question_text :: string
  question_options :: "(string \<times> int) list"

text \<open>Every question has five options, worth one to five points in their order.\<close>

definition standard_questionnaire :: "risk_question list" where
  "standard_questionnaire = map (\<lambda>(i, t, options). \<lparr>question_id = i, question_text = t,
       question_options = zip options [1, 2, 3, 4, 5]\<rparr>)
    [(''investment-horizon'', ''When do you expect to need this money?'',
      [''Within 1 year'',
       ''1-3 years'',
       ''3-5 years'',
       ''5-10 years'',
       ''More than 10 years'']),
     (''drawdown-reaction'', ''If your portfolio fell 20% in a month, what would you do?'',
      [''Sell everything immediately'',
       ''Sell some to reduce risk'',
       ''Do nothing and wait it out'',
       ''Buy a little more'',
       ''Buy significantly more - it'' @ CHR 0x27 # ''s a discount'']),
     (''income-stability'', ''How stable is your primary source of income?'',
      [''Very unstable / no regular income'',
       ''Somewhat unstable'',
       ''Stable'',
       ''Very stable (e.g. government job)'',
       ''Very stable with significant additional savings/assets'']),
     (''investment-goal'', ''What is the primary goal for this investment?'',
      [''Capital preservation - I cannot afford to lose money'',
       ''Steady income generation'',
       ''Balanced growth and income'',
       ''Long-term capital growth'',
       ''Maximum growth - I can tolerate high volatility'']),
     (''investing-experience'', ''How much experience do you have with market-linked investments?'',
      [''None'',
       ''A little - mostly fixed deposits/savings'',
       ''Some - mutual funds, occasionally direct equity'',
       ''Significant - regular direct equity investor'',
       ''Extensive - including derivatives/leveraged products'']),
     (''existing-emergency-fund'', ''Do you have an emergency fund covering at least 6 months of expenses, separate from this investment?'',
      [''No emergency fund at all'',
       ''Covers less than 3 months'',
       ''Covers 3-6 months'',
       ''Covers 6-12 months'',
       ''Covers more than 12 months''])]"

record risk_profile =
  profile_account :: string
  profile_score :: int
  profile_category :: risk_category

datatype profile_error = UnknownQuestion | InvalidPointValue

definition valid_point_value :: "risk_question \<Rightarrow> int \<Rightarrow> bool" where
  "valid_point_value q points = list_ex (\<lambda>p. snd p = points) (question_options q)"

definition classify_score :: "int \<Rightarrow> risk_category" where
  "classify_score n = (if n \<le> 10 then RiskConservative else if n \<le> 15 then RiskModeratelyConservative
     else if n \<le> 20 then RiskModerate else if n \<le> 25 then RiskModeratelyAggressive else RiskAggressive)"

fun score_answers :: "risk_question list \<Rightarrow> int table \<Rightarrow> int \<Rightarrow> profile_error + int" where
  "score_answers [] answers score = Inr score"
| "score_answers (q # qs) answers score = (case lookup answers (question_id q) of
     None \<Rightarrow> Inl UnknownQuestion
   | Some points \<Rightarrow> if \<not> valid_point_value q points then Inl InvalidPointValue
       else score_answers qs answers (score + points))"

definition submit_answers :: "string \<Rightarrow> int table \<Rightarrow> risk_profile table \<Rightarrow> profile_error + risk_profile \<times> risk_profile table" where
  "submit_answers a answers profiles =
    (if length answers \<noteq> length standard_questionnaire then Inl UnknownQuestion
     else case score_answers standard_questionnaire answers 0 of
       Inl err \<Rightarrow> Inl err
     | Inr score \<Rightarrow>
         let p = \<lparr>profile_account = a, profile_score = score, profile_category = classify_score score\<rparr>
         in Inr (p, put a p profiles))"

definition lookup_profile :: "string \<Rightarrow> risk_profile table \<Rightarrow> risk_profile option" where
  "lookup_profile a profiles = lookup profiles a"

section \<open>Guessing the deposit\<close>

text \<open>The claims made about one verification, in their order.\<close>

definition confirm_all :: "string \<Rightarrow> int64 list \<Rightarrow> bank_verifier \<Rightarrow> bank_verifier" where
  "confirm_all i claims v = foldl (\<lambda>v c. snd (confirm_deposit_amount i c v)) v claims"

lemma confirm_closed: "query_verification_status i v \<noteq> BankPending \<Longrightarrow> snd (confirm_deposit_amount i c v) = v"
  by (auto simp: query_verification_status_def confirm_deposit_amount_def split: option.splits)

lemma confirm_all_closed: "query_verification_status i v \<noteq> BankPending \<Longrightarrow> confirm_all i claims v = v"
  by (induction claims) (simp_all add: confirm_all_def confirm_closed)

lemma confirm_pending:
  assumes "lookup (bank_records v) i = Some r" and "bank_status r = BankPending"
    and "remaining_attempts r = int n" and "0 < n"
  shows "query_verification_status i (confirm_all i claims v) =
    (if deposited_amount r \<in> set (take n claims) then BankVerified
     else if n \<le> length claims then BankFailedLocked else BankPending)"
  using assms
proof (induction claims arbitrary: v r n)
  case Nil
  then show ?case by (simp add: confirm_all_def query_verification_status_def)
next
  case (Cons c claims)
  let ?v = "snd (confirm_deposit_amount i c v)"
  have step: "confirm_all i (c # claims) v = confirm_all i claims ?v" by (simp add: confirm_all_def)
  obtain k where n: "n = Suc k" using Cons.prems(4) gr0_implies_Suc by blast
  show ?case
  proof (cases "c = deposited_amount r")
    case True
    then have "query_verification_status i ?v = BankVerified"
      using Cons.prems by (simp add: confirm_deposit_amount_def query_verification_status_def)
    then show ?thesis unfolding step using True n by (simp add: confirm_all_closed)
  next
    case False
    let ?r = "r\<lparr>remaining_attempts := int k, bank_status := (if int k \<le> 0 then BankFailedLocked else BankPending)\<rparr>"
    have found: "lookup (bank_records ?v) i = Some ?r"
      using Cons.prems False n by (simp add: confirm_deposit_amount_def Let_def)
    show ?thesis
    proof (cases "k = 0")
      case True
      then have "query_verification_status i ?v = BankFailedLocked" using found by (simp add: query_verification_status_def)
      then show ?thesis unfolding step using True n False by (auto simp: confirm_all_closed)
    next
      case k: False
      show ?thesis
        unfolding step using Cons.IH [OF found, of k] k False n by auto
    qed
  qed
qed

text \<open>Whatever amounts are claimed, in whatever number, a bank account ends verified exactly when the amount that
  was deposited is among the first three claims; after three wrong claims the verification is
  locked for good, and no later claim, the right one included, changes it.\<close>

theorem three_guesses_decide:
  assumes "initiate_verification (Some k) (Some i) a account_number ifsc v = Some (i, v')"
  shows "query_verification_status i (confirm_all i claims v') =
    (if 1 + word_of_int k \<in> set (take 3 claims) then BankVerified
     else if 3 \<le> length claims then BankFailedLocked else BankPending)"
proof -
  let ?r = "\<lparr>bank_verification_id = i, bank_holder = a, bank_account_number = account_number, bank_ifsc_code = ifsc,
    deposited_amount = 1 + word_of_int k, bank_status = BankPending, remaining_attempts = 3\<rparr>"
  have "lookup (bank_records v') i = Some ?r"
    using assms by (auto simp: initiate_verification_def random_deposit_amount_def max_confirmation_attempts_def)
  from confirm_pending [OF this, of 3] show ?thesis by simp
qed

theorem three_guesses_decide_witness:
  "\<exists>v'. initiate_verification (Some 41) (Some ''v-1'') ''acct'' ''0042'' ''IFSC0'' new_bank_verifier = Some (''v-1'', v')
     \<and> query_verification_status ''v-1'' (confirm_all ''v-1'' [7, 8, 9, 42] v') = BankFailedLocked"
proof -
  obtain v' where v': "initiate_verification (Some 41) (Some ''v-1'') ''acct'' ''0042'' ''IFSC0'' new_bank_verifier = Some (''v-1'', v')"
    by (simp add: initiate_verification_def random_deposit_amount_def)
  show ?thesis using three_guesses_decide [OF v', of "[7, 8, 9, 42]"] v' by auto
qed

section \<open>Scores\<close>

definition complete_answers :: "int table \<Rightarrow> bool" where
  "complete_answers answers \<longleftrightarrow> fst ` set answers = question_id ` set standard_questionnaire
     \<and> (\<forall>p\<in>set answers. 1 \<le> snd p \<and> snd p \<le> 5)"

lemma question_facts:
  "distinct (map question_id standard_questionnaire)" "length standard_questionnaire = 6"
  "q \<in> set standard_questionnaire \<Longrightarrow> valid_point_value q n \<longleftrightarrow> 1 \<le> n \<and> n \<le> 5"
  by (auto simp: standard_questionnaire_def valid_point_value_def)

lemma score_answers_spec:
  "case score_answers qs answers n of
     Inr m \<Rightarrow> (\<forall>q\<in>set qs. \<exists>x. lookup answers (question_id q) = Some x \<and> valid_point_value q x)
       \<and> m = n + (\<Sum>q\<leftarrow>qs. the (lookup answers (question_id q)))
   | Inl err \<Rightarrow> \<not> (\<forall>q\<in>set qs. \<exists>x. lookup answers (question_id q) = Some x \<and> valid_point_value q x)"
proof (induction qs arbitrary: n)
  case (Cons q qs)
  show ?case
  proof (cases "lookup answers (question_id q)")
    case (Some x)
    then show ?thesis using Cons [of "n + x"] by (auto split: sum.splits)
  qed simp
qed simp

lemma answers_by_question:
  assumes "table_ok answers" and "length answers = 6"
  shows "(\<forall>q\<in>set standard_questionnaire. \<exists>x. lookup answers (question_id q) = Some x \<and> valid_point_value q x)
    \<longleftrightarrow> complete_answers answers"
proof -
  let ?ids = "question_id ` set standard_questionnaire"
  have ids: "card ?ids = 6" "finite ?ids"
    using question_facts(1,2) by (metis distinct_card length_map set_map) simp
  have keys: "card (fst ` set answers) = 6" "finite (fst ` set answers)"
    using assms distinct_card [of "map fst answers"] by (simp_all add: table_ok_def)
  have found: "lookup answers k = Some x \<longleftrightarrow> (k, x) \<in> set answers" for k x
    using lookup_in_set [OF assms(1)] by simp
  show ?thesis
  proof
    assume *: "\<forall>q\<in>set standard_questionnaire. \<exists>x. lookup answers (question_id q) = Some x \<and> valid_point_value q x"
    then have "?ids \<subseteq> fst ` set answers" by (force simp: found)
    then have eq: "fst ` set answers = ?ids" using card_subset_eq [OF keys(2), of ?ids] ids(1) keys(1) by simp
    have "1 \<le> snd p \<and> snd p \<le> 5" if p: "p \<in> set answers" for p
    proof -
      have "fst p \<in> ?ids" using p eq by auto
      then obtain q where q: "q \<in> set standard_questionnaire" "question_id q = fst p" by auto
      then have "valid_point_value q (snd p)" using * p found [of "fst p" "snd p"] by auto
      then show ?thesis using question_facts(3) [OF q(1)] by simp
    qed
    then show "complete_answers answers" using eq by (simp add: complete_answers_def)
  next
    assume c: "complete_answers answers"
    show "\<forall>q\<in>set standard_questionnaire. \<exists>x. lookup answers (question_id q) = Some x \<and> valid_point_value q x"
    proof
      fix q assume q: "q \<in> set standard_questionnaire"
      then have "question_id q \<in> fst ` set answers" using c by (simp add: complete_answers_def)
      then obtain x where x: "(question_id q, x) \<in> set answers" by auto
      then have "1 \<le> x \<and> x \<le> 5" using c by (auto simp: complete_answers_def)
      then show "\<exists>x. lookup answers (question_id q) = Some x \<and> valid_point_value q x"
        using x found question_facts(3) [OF q] by blast
    qed
  qed
qed

lemma answers_sum:
  assumes "table_ok answers" and "complete_answers answers"
  shows "(\<Sum>q\<leftarrow>standard_questionnaire. the (lookup answers (question_id q))) = (\<Sum>p\<leftarrow>answers. snd p)"
proof -
  have d: "distinct (map fst answers)" using assms(1) by (simp add: table_ok_def)
  have "(\<Sum>q\<leftarrow>standard_questionnaire. the (lookup answers (question_id q)))
      = (\<Sum>k\<leftarrow>map question_id standard_questionnaire. the (lookup answers k))" by (simp add: comp_def)
  also have "\<dots> = (\<Sum>k\<in>question_id ` set standard_questionnaire. the (lookup answers k))"
    using question_facts(1) by (subst sum_list_distinct_conv_sum_set) simp_all
  also have "\<dots> = (\<Sum>k\<in>set (map fst answers). the (lookup answers k))"
    using assms(2) by (simp add: complete_answers_def)
  also have "\<dots> = (\<Sum>k\<leftarrow>map fst answers. the (lookup answers k))"
    using d by (subst sum_list_distinct_conv_sum_set) simp_all
  also have "\<dots> = (\<Sum>p\<leftarrow>answers. snd p)"
    using d by (auto intro!: arg_cong [where f = sum_list] simp: comp_def)
  finally show ?thesis .
qed

lemma points_bounds: "\<forall>p\<in>set xs. 1 \<le> snd p \<and> snd p \<le> 5 \<Longrightarrow>
  int (length xs) \<le> (\<Sum>p\<leftarrow>xs. snd p) \<and> (\<Sum>p\<leftarrow>xs. snd p) \<le> 5 * int (length xs)"
  by (induction xs) auto

text \<open>A completed questionnaire is accepted exactly when it answers each of the six questions, and no other,
  with one to five points. The profile it stores then has the sum of the points as its score, which
  lies between six and thirty, and the category of that score.\<close>

theorem questionnaire_scored_exactly:
  assumes "table_ok answers"
  shows "case submit_answers a answers profiles of
     Inr (p, profiles') \<Rightarrow> complete_answers answers \<and> lookup_profile a profiles' = Some p
       \<and> profile_score p = (\<Sum>q\<leftarrow>answers. snd q) \<and> 6 \<le> profile_score p \<and> profile_score p \<le> 30
       \<and> profile_category p = classify_score (profile_score p)
   | Inl err \<Rightarrow> \<not> complete_answers answers"
proof (cases "length answers = 6")
  case True
  let ?r = "score_answers standard_questionnaire answers 0"
  show ?thesis
  proof (cases ?r)
    case (Inl err)
    then show ?thesis
      using score_answers_spec [of standard_questionnaire answers 0] answers_by_question [OF assms True] True
      by (simp add: submit_answers_def question_facts(2))
  next
    case (Inr m)
    then have c: "complete_answers answers" and m: "m = (\<Sum>p\<leftarrow>answers. snd p)"
      using score_answers_spec [of standard_questionnaire answers 0] answers_by_question [OF assms True]
        answers_sum [OF assms] by simp_all
    have "int 6 \<le> m \<and> m \<le> 5 * int 6"
      using points_bounds [of answers] c True by (simp add: complete_answers_def m)
    then show ?thesis
      using c m by (simp add: submit_answers_def question_facts(2) True Inr Let_def lookup_profile_def)
  qed
next
  case False
  have "length answers = 6" if "complete_answers answers"
    using that assms question_facts distinct_card [of "map fst answers"]
      distinct_card [of "map question_id standard_questionnaire"]
    by (simp add: complete_answers_def table_ok_def)
  then show ?thesis using False by (auto simp: submit_answers_def question_facts(2))
qed

theorem questionnaire_scored_exactly_witness:
  "case submit_answers ''a'' (map (\<lambda>q. (question_id q, 4)) standard_questionnaire) [] of
     Inr (p, profiles') \<Rightarrow> profile_score p = 24 \<and> profile_category p = RiskModeratelyAggressive
   | Inl err \<Rightarrow> False"
proof -
  have "table_ok (map (\<lambda>q. (question_id q, 4 :: int)) standard_questionnaire)"
    by (simp add: standard_questionnaire_def table_ok_def)
  from questionnaire_scored_exactly [OF this, of "''a''" "[]"] show ?thesis
    by (auto simp: complete_answers_def standard_questionnaire_def classify_score_def split: sum.splits)
qed

text \<open>An account that an administrator rejected is verified again by submitting its details once more.\<close>

theorem resubmission_undoes_rejection:
  assumes "override_stage a StageRejected reason s = Inr (r, s')" and "pan_format pan" and "name \<noteq> ''''"
  shows "\<not> is_eligible_to_place_orders (lookup_kyc_status a s')
    \<and> is_eligible_to_place_orders (lookup_kyc_status a (snd (submit_kyc_details a pan name s')))"
  using assms by (auto simp: override_stage_def submit_kyc_details_def lookup_kyc_status_def
    is_eligible_to_place_orders_def lookup_or_def Let_def split: option.splits if_splits)

end
