(* ===== verification/AccountHolders.thy ===== *)
theory AccountHolders
  imports GoText GoCalendar
begin

text \<open>
  Who owns an account and who inherits it, of services/kyc-onboarding/internal:
  nomineedesignation/nomineeDesignation.go and jointholding/jointHoldingRegistry.go. Random parts of
  identifiers are arguments, as hexadecimal text or absent where the random source failed.
\<close>

section \<open>Ages\<close>

definition year_of_instant :: "int \<Rightarrow> instant \<Rightarrow> int" where
  "year_of_instant offset t = fst (date_of_day (civil_day offset t))"

definition civil_midnight :: "int \<Rightarrow> int \<Rightarrow> int \<Rightarrow> int \<Rightarrow> instant" where
  "civil_midnight offset y m d = (day_of_date y m d - unix_epoch_day) * day_nanos - offset"

text \<open>The age on the calendar of the location of the time that is asked for; the birth date is read on its own.\<close>

definition compute_age_in_years :: "int \<Rightarrow> instant \<Rightarrow> int \<Rightarrow> instant \<Rightarrow> int" where
  "compute_age_in_years birth_offset birth offset now =
    (case date_of_day (civil_day birth_offset birth) of (by, bm, bd) \<Rightarrow>
      let age = year_of_instant offset now - by
      in if time_before now (civil_midnight offset (year_of_instant offset now) bm bd) then age - 1 else age)"

section \<open>Nominees\<close>

record nominee_input =
  nominee_name :: string
  nominee_relationship :: string
  birth_date :: instant
  birth_offset :: int
  percentage :: int64
  guardian_name :: string
  guardian_relationship :: string
  guardian_document :: string

record nominee =
  nominee_id :: string
  nominee_details :: nominee_input

record nominee_designation =
  designation_account :: string
  opted_out :: bool
  nominees :: "nominee list"
  last_updated :: instant

datatype nominee_error = NomineeAccountRequired | NomineeNameRequired | NomineeRelationshipRequired | InvalidDateOfBirth
  | InvalidPercentage | GuardianRequired | PercentagesMustSumTo100 | PercentagesExceed100 | NomineeOrOptOutRequired
  | NoDesignation | NomineeNotFound

definition is_minor_as_of :: "int \<Rightarrow> instant \<Rightarrow> nominee_input \<Rightarrow> bool" where
  "is_minor_as_of offset now x = (compute_age_in_years (birth_offset x) (birth_date x) offset now < 18)"

definition total_percentage :: "nominee list \<Rightarrow> int64" where
  "total_percentage ns = foldl (\<lambda>s n. s + percentage (nominee_details n)) 0 ns"

definition is_complete :: "nominee_designation \<Rightarrow> bool" where
  "is_complete d = (opted_out d \<or> nominees d \<noteq> [] \<and> total_percentage (nominees d) = 100)"

definition validate_nominee_input :: "int \<Rightarrow> instant \<Rightarrow> nominee_input \<Rightarrow> nominee_error option" where
  "validate_nominee_input offset now x =
    (if nominee_name x = [] then Some NomineeNameRequired else if nominee_relationship x = [] then Some NomineeRelationshipRequired
     else if birth_date x = zero_time \<or> time_after (birth_date x) now then Some InvalidDateOfBirth
     else if percentage x <s 1 \<or> 100 <s percentage x then Some InvalidPercentage
     else if is_minor_as_of offset now x \<and> (guardian_name x = [] \<or> guardian_relationship x = [] \<or> guardian_document x = [])
       then Some GuardianRequired
     else None)"

definition generate_nominee_id :: "string option \<Rightarrow> int64 \<Rightarrow> string" where
  "generate_nominee_id random_hex clock = (case random_hex of
     Some h \<Rightarrow> ''nominee-'' @ h | None \<Rightarrow> ''nominee-fallback-'' @ int64_text clock)"

fun build_validated_nominees :: "int \<Rightarrow> (nat \<Rightarrow> string) \<Rightarrow> instant \<Rightarrow> nat \<Rightarrow> nominee_input list \<Rightarrow> nominee_error + nominee list" where
  "build_validated_nominees offset ids now i [] = Inr []"
| "build_validated_nominees offset ids now i (x # xs) = (case validate_nominee_input offset now x of
     Some e \<Rightarrow> Inl e
   | None \<Rightarrow> (case build_validated_nominees offset ids now (i + 1) xs of
       Inl e \<Rightarrow> Inl e | Inr ns \<Rightarrow> Inr (\<lparr>nominee_id = ids i, nominee_details = x\<rparr> # ns)))"

text \<open>The identifiers that the calls of \<open>generateNomineeId\<close> return are the argument \<open>ids\<close>.\<close>

definition submit_nomination :: "int \<Rightarrow> (nat \<Rightarrow> string) \<Rightarrow> string \<Rightarrow> nominee_input list \<Rightarrow> bool \<Rightarrow> instant \<Rightarrow> nominee_designation table \<Rightarrow>
    nominee_error + nominee_designation \<times> nominee_designation table" where
  "submit_nomination offset ids account inputs opt_out now t =
    (if account = [] then Inl NomineeAccountRequired else
     case build_validated_nominees offset ids now 0 inputs of Inl e \<Rightarrow> Inl e | Inr ns \<Rightarrow>
       if \<not> opt_out \<and> ns = [] then Inl NomineeOrOptOutRequired
       else if \<not> opt_out \<and> total_percentage ns \<noteq> 100 then Inl PercentagesMustSumTo100
       else let d = \<lparr>designation_account = account, opted_out = opt_out, nominees = (if opt_out then [] else ns), last_updated = now\<rparr>
         in Inr (d, put account d t))"

definition existing_nominees :: "string \<Rightarrow> nominee_designation table \<Rightarrow> nominee list" where
  "existing_nominees account t = (case lookup t account of None \<Rightarrow> [] | Some d \<Rightarrow> nominees d)"

definition add_nominee :: "int \<Rightarrow> string \<Rightarrow> string \<Rightarrow> nominee_input \<Rightarrow> instant \<Rightarrow> nominee_designation table \<Rightarrow>
    nominee_error + nominee_designation \<times> nominee_designation table" where
  "add_nominee offset i account x now t =
    (if account = [] then Inl NomineeAccountRequired else
     case validate_nominee_input offset now x of Some e \<Rightarrow> Inl e | None \<Rightarrow>
       let ns = existing_nominees account t in
       if 100 <s total_percentage ns + percentage x then Inl PercentagesExceed100
       else let d = \<lparr>designation_account = account, opted_out = False, nominees = ns @ [\<lparr>nominee_id = i, nominee_details = x\<rparr>],
               last_updated = now\<rparr>
         in Inr (d, put account d t))"

fun nominee_index :: "string \<Rightarrow> nominee list \<Rightarrow> nat option" where
  "nominee_index i [] = None"
| "nominee_index i (n # ns) = (if nominee_id n = i then Some 0 else map_option Suc (nominee_index i ns))"

definition update_nominee :: "int \<Rightarrow> string \<Rightarrow> string \<Rightarrow> nominee_input \<Rightarrow> instant \<Rightarrow> nominee_designation table \<Rightarrow>
    nominee_error + nominee_designation \<times> nominee_designation table" where
  "update_nominee offset account i x now t =
    (if account = [] then Inl NomineeAccountRequired else
     case validate_nominee_input offset now x of Some e \<Rightarrow> Inl e | None \<Rightarrow>
       (case lookup t account of None \<Rightarrow> Inl NoDesignation | Some d0 \<Rightarrow>
         (case nominee_index i (nominees d0) of None \<Rightarrow> Inl NomineeNotFound | Some k \<Rightarrow>
           let ns = (nominees d0)[k := \<lparr>nominee_id = i, nominee_details = x\<rparr>] in
           if 100 <s total_percentage ns then Inl PercentagesExceed100
           else let d = \<lparr>designation_account = account, opted_out = opted_out d0, nominees = ns, last_updated = now\<rparr>
             in Inr (d, put account d t))))"

definition remove_nominee :: "string \<Rightarrow> string \<Rightarrow> instant \<Rightarrow> nominee_designation table \<Rightarrow>
    nominee_error + nominee_designation \<times> nominee_designation table" where
  "remove_nominee account i now t =
    (if account = [] then Inl NomineeAccountRequired else
     case lookup t account of None \<Rightarrow> Inl NoDesignation | Some d0 \<Rightarrow>
       (case nominee_index i (nominees d0) of None \<Rightarrow> Inl NomineeNotFound | Some k \<Rightarrow>
         let d = \<lparr>designation_account = account, opted_out = opted_out d0,
               nominees = take k (nominees d0) @ drop (k + 1) (nominees d0), last_updated = now\<rparr>
         in Inr (d, put account d t)))"

section \<open>Holders\<close>

datatype holding_type = IndividualHolding | JointHolding

datatype holding_mode = Jointly | EitherOrSurvivor | AnyoneOrSurvivor

record holder =
  holder_id :: string
  holder_name :: string
  is_primary :: bool

record holding_structure =
  structure_account :: string
  holding_type :: holding_type
  holding_mode :: "holding_mode option"
  holders :: "holder list"

datatype holding_error = HoldingAccountRequired | HolderNameRequired | InvalidHoldingMode | JointNeedsTwoHolders
  | EitherNeedsExactlyTwo | AnyoneNeedsThree | PrimaryIndexOutOfRange | SoleHolderNameRequired | NoHoldingStructure
  | ConsentFromUnknownHolder | ConsentRequired | AllHoldersMustConsent

text \<open>The strings of the wire that name a mode.\<close>

definition parse_holding_mode :: "string \<Rightarrow> holding_mode option" where
  "parse_holding_mode s = (if s = ''JOINTLY'' then Some Jointly else if s = ''EITHER_OR_SURVIVOR'' then Some EitherOrSurvivor
     else if s = ''ANYONE_OR_SURVIVOR'' then Some AnyoneOrSurvivor else None)"

definition generate_holder_id :: "string option \<Rightarrow> string" where
  "generate_holder_id random_hex = (case random_hex of Some h \<Rightarrow> ''holder-'' @ h | None \<Rightarrow> ''holder-fallback-8'')"

definition primary_holder :: "holding_structure \<Rightarrow> holder option" where
  "primary_holder s = List.find is_primary (holders s)"

definition register_individual_account :: "string option \<Rightarrow> string \<Rightarrow> string \<Rightarrow> holding_structure table \<Rightarrow>
    holding_error + holding_structure \<times> holding_structure table" where
  "register_individual_account random_hex account name t =
    (if account = [] then Inl HoldingAccountRequired else if name = [] then Inl SoleHolderNameRequired
     else let s = \<lparr>structure_account = account, holding_type = IndividualHolding, holding_mode = None,
            holders = [\<lparr>holder_id = generate_holder_id random_hex, holder_name = name, is_primary = True\<rparr>]\<rparr>
       in Inr (s, put account s t))"

definition register_joint_account :: "(nat \<Rightarrow> string option) \<Rightarrow> string \<Rightarrow> string \<Rightarrow> string list \<Rightarrow> int \<Rightarrow> holding_structure table \<Rightarrow>
    holding_error + holding_structure \<times> holding_structure table" where
  "register_joint_account random_hex account mode names primary t =
    (if account = [] then Inl HoldingAccountRequired else
     case parse_holding_mode mode of None \<Rightarrow> Inl InvalidHoldingMode | Some m \<Rightarrow>
       if [] \<in> set names then Inl HolderNameRequired
       else if length names < 2 then Inl JointNeedsTwoHolders
       else if m = EitherOrSurvivor \<and> length names \<noteq> 2 then Inl EitherNeedsExactlyTwo
       else if m = AnyoneOrSurvivor \<and> length names < 3 then Inl AnyoneNeedsThree
       else if primary < 0 \<or> int (length names) \<le> primary then Inl PrimaryIndexOutOfRange
       else let s = \<lparr>structure_account = account, holding_type = JointHolding, holding_mode = Some m,
              holders = map (\<lambda>(i, name). \<lparr>holder_id = generate_holder_id (random_hex i), holder_name = name,
                is_primary = (int i = primary)\<rparr>) (zip [0..<length names] names)\<rparr>
         in Inr (s, put account s t))"

definition authorize_operation :: "string \<Rightarrow> string list \<Rightarrow> holding_structure table \<Rightarrow> holding_error + bool" where
  "authorize_operation account consents t =
    (if account = [] then Inl HoldingAccountRequired else if consents = [] then Inl ConsentRequired
     else case lookup t account of None \<Rightarrow> Inl NoHoldingStructure | Some s \<Rightarrow>
       if \<exists>c\<in>set consents. c \<notin> holder_id ` set (holders s) then Inl ConsentFromUnknownHolder
       else if holding_type s = IndividualHolding \<or> holding_mode s = Some EitherOrSurvivor \<or> holding_mode s = Some AnyoneOrSurvivor
         then Inr True
       else if \<exists>h\<in>set (holders s). holder_id h \<notin> set consents then Inl AllHoldersMustConsent
       else Inr True)"

definition accounts_by_holding_type :: "holding_type \<Rightarrow> holding_structure table \<Rightarrow> string list" where
  "accounts_by_holding_type ty t = sort_key (\<lambda>k. k) (map fst (filter (\<lambda>(k, s). holding_type s = ty) t))"

section \<open>Every registered structure has the holders its mode asks for\<close>

inductive holding_step :: "holding_structure table \<Rightarrow> holding_structure table \<Rightarrow> bool" where
  registers_individual: "register_individual_account random_hex account name t = Inr (s, t') \<Longrightarrow> holding_step t t'"
| registers_joint: "register_joint_account random_hexes account mode names primary t = Inr (s, t') \<Longrightarrow> holding_step t t'"

definition structure_ok :: "string \<Rightarrow> holding_structure \<Rightarrow> bool" where
  "structure_ok account s \<longleftrightarrow> account \<noteq> [] \<and> structure_account s = account \<and>
     (case (holding_type s, holding_mode s) of
        (IndividualHolding, None) \<Rightarrow> length (holders s) = 1
      | (JointHolding, Some Jointly) \<Rightarrow> 2 \<le> length (holders s)
      | (JointHolding, Some EitherOrSurvivor) \<Rightarrow> length (holders s) = 2
      | (JointHolding, Some AnyoneOrSurvivor) \<Rightarrow> 3 \<le> length (holders s)
      | _ \<Rightarrow> False) \<and>
     length (filter is_primary (holders s)) = 1 \<and> (\<forall>h\<in>set (holders s). holder_name h \<noteq> [])"

definition holding_inv :: "holding_structure table \<Rightarrow> bool" where
  "holding_inv t \<longleftrightarrow> (\<forall>account s. lookup t account = Some s \<longrightarrow> structure_ok account s)"

lemma one_index: "p < length xs \<Longrightarrow> length (filter (\<lambda>x. int (fst x) = int p) (zip [0..<length xs] xs)) = 1"
proof -
  assume p: "p < length xs"
  have "length (filter (\<lambda>x. int (fst x) = int p) (zip [0..<length xs] xs)) = card {i. i < length xs \<and> i = p}"
    by (simp add: length_filter_conv_card case_prod_beta conj_commute cong: conj_cong)
  also have "{i. i < length xs \<and> i = p} = {p}" using p by auto
  finally show ?thesis by simp
qed

lemma structure_ok_individual: "register_individual_account h account name t = Inr (s, t') \<Longrightarrow> structure_ok account s \<and> t' = put account s t"
  by (auto simp: register_individual_account_def structure_ok_def Let_def split: if_splits)

lemma structure_ok_joint:
  assumes "register_joint_account hs account mode names primary t = Inr (s, t')"
  shows "structure_ok account s \<and> t' = put account s t"
proof -
  obtain m where m: "parse_holding_mode mode = Some m" "account \<noteq> []" "[] \<notin> set names" "2 \<le> length names"
      "m = EitherOrSurvivor \<longrightarrow> length names = 2" "m = AnyoneOrSurvivor \<longrightarrow> 3 \<le> length names" "0 \<le> primary" "primary < int (length names)"
    and s: "s = \<lparr>structure_account = account, holding_type = JointHolding, holding_mode = Some m,
      holders = map (\<lambda>(i, name). \<lparr>holder_id = generate_holder_id (hs i), holder_name = name, is_primary = (int i = primary)\<rparr>)
        (zip [0..<length names] names)\<rparr>" and t': "t' = put account s t"
    using assms by (auto simp: register_joint_account_def Let_def not_less split: if_splits option.splits)
  have "length (filter is_primary (holders s)) = 1"
    using one_index [of "nat primary" names] m(7,8) by (simp add: s filter_map comp_def case_prod_beta)
  moreover have "\<forall>h\<in>set (holders s). holder_name h \<noteq> []" using m(3) by (auto simp: s dest: set_zip_rightD)
  ultimately show ?thesis using m t' by (cases m) (simp_all add: structure_ok_def s)
qed

interpretation holding_calls: invariant_system "\<lambda>t. t = []" holding_step holding_inv
proof
  show "holding_inv t" if "t = []" for t using that by (simp add: holding_inv_def)
  show "holding_inv t'" if inv: "holding_inv t" and step: "holding_step t t'" for t t'
    using step
  proof cases
    case (registers_individual h account name s)
    then show ?thesis using structure_ok_individual [OF registers_individual] inv by (auto simp: holding_inv_def)
  next
    case (registers_joint hs account mode names primary s)
    then show ?thesis using structure_ok_joint [OF registers_joint] inv by (auto simp: holding_inv_def)
  qed
qed

text \<open>C33. Whatever registrations were made, every registered structure is well formed: one holder for an individual
  account; at least two for a joint one, exactly two where either may act, at least three where anyone may; all of
  them named, exactly one of them primary.\<close>

theorem registered_structures_well_formed:
  assumes "reachable_by (\<lambda>t. t = []) holding_step t" and "lookup t account = Some s"
  shows "structure_ok account s"
  using holding_calls.inv_reachable [OF assms(1)] assms(2) by (simp add: holding_inv_def)

theorem registered_structures_well_formed_witness:
  "case register_joint_account (\<lambda>i. Some (if i = 0 then ''0'' else ''1'')) ''a'' ''JOINTLY'' [''x'', ''y''] 1 [] of
     Inl _ \<Rightarrow> False | Inr (s, t) \<Rightarrow> structure_ok ''a'' s"
proof -
  obtain s t where st: "register_joint_account (\<lambda>i. Some (if i = 0 then ''0'' else ''1'')) ''a'' ''JOINTLY'' [''x'', ''y''] 1 [] = Inr (s, t)"
    by (simp add: register_joint_account_def parse_holding_mode_def Let_def)
  have "reachable_by (\<lambda>t. t = []) holding_step t"
    using registers_joint [OF st] by (auto intro: reachable_by.intros)
  moreover have "lookup t ''a'' = Some s" using structure_ok_joint [OF st] by simp
  ultimately show ?thesis using registered_structures_well_formed st by simp
qed

text \<open>The consent rule: on registered structures an operation is authorised exactly when the consents are of
  registered holders, there is one, and, where the holders act jointly, none of them is missing; a check that does not
  authorise is an error.\<close>

theorem consent_rule_exact:
  assumes "reachable_by (\<lambda>t. t = []) holding_step t"
  shows "(authorize_operation account consents t = Inr True \<longleftrightarrow>
      (\<exists>s. lookup t account = Some s \<and> consents \<noteq> [] \<and> set consents \<subseteq> holder_id ` set (holders s) \<and>
        (if holding_mode s = Some Jointly then holder_id ` set (holders s) \<subseteq> set consents else True))) \<and>
    authorize_operation account consents t \<noteq> Inr False"
proof -
  have ok: "structure_ok account s" if "lookup t account = Some s" for s
    using holding_calls.inv_reachable [OF assms] that by (simp add: holding_inv_def)
  have modes: "(holding_type s = IndividualHolding \<or> holding_mode s = Some EitherOrSurvivor \<or> holding_mode s = Some AnyoneOrSurvivor)
      = (holding_mode s \<noteq> Some Jointly) \<and> account \<noteq> []" if "lookup t account = Some s" for s
    using ok [OF that] by (auto simp: structure_ok_def split: holding_type.splits option.splits holding_mode.splits)
  show ?thesis
  proof (cases "lookup t account")
    case None
    then show ?thesis by (simp add: authorize_operation_def)
  next
    case (Some s)
    then show ?thesis using modes [OF Some] by (auto simp: authorize_operation_def)
  qed
qed

theorem consent_rule_exact_witness:
  "case register_joint_account (\<lambda>i. Some (if i = 0 then ''0'' else ''1'')) ''a'' ''JOINTLY'' [''x'', ''y''] 1 [] of
     Inl _ \<Rightarrow> False | Inr (s, t) \<Rightarrow> authorize_operation ''a'' [''holder-0''] t \<noteq> Inr True"
proof -
  obtain s t where st: "register_joint_account (\<lambda>i. Some (if i = 0 then ''0'' else ''1'')) ''a'' ''JOINTLY'' [''x'', ''y''] 1 [] = Inr (s, t)"
    by (simp add: register_joint_account_def parse_holding_mode_def Let_def)
  then have s: "holder_id ` set (holders s) = {''holder-0'', ''holder-1''}" "holding_mode s = Some Jointly"
    by (auto simp: register_joint_account_def parse_holding_mode_def Let_def generate_holder_id_def)
  have "reachable_by (\<lambda>t. t = []) holding_step t"
    using registers_joint [OF st] by (auto intro: reachable_by.intros)
  from consent_rule_exact [OF this, of "''a''" "[''holder-0'']"]
  have "authorize_operation ''a'' [''holder-0''] t \<noteq> Inr True"
    using structure_ok_joint [OF st] s by auto
  then show ?thesis using st by simp
qed

text \<open>Where the random source fails, all holders get the same identifier: one consent then stands for both.\<close>

theorem fallback_ids_coincide:
  "case register_joint_account (\<lambda>i. None) ''a'' ''JOINTLY'' [''x'', ''y''] 0 [] of
     Inl _ \<Rightarrow> False | Inr (s, t) \<Rightarrow> authorize_operation ''a'' [''holder-fallback-8''] t = Inr True"
  by (simp add: register_joint_account_def parse_holding_mode_def Let_def authorize_operation_def generate_holder_id_def)

section \<open>Nominations stay valid\<close>

lemma year_of_day_mono: "m \<le> n \<Longrightarrow> year_of_day m \<le> year_of_day n"
  using year_of_day_bounds [of m] year_of_day_bounds [of n] days_before_year_mono [of "year_of_day n + 1" "year_of_day m"]
  by linarith

lemma year_of_instant_mono: "t \<le> u \<Longrightarrow> year_of_instant offset t \<le> year_of_instant offset u"
  using year_of_day_mono [of "civil_day offset t" "civil_day offset u"] zdiv_mono1 [of "t + offset" "u + offset" day_nanos]
  by (simp add: year_of_instant_def date_of_day_def Let_def civil_day_def)

text \<open>Nobody gets younger.\<close>

lemma age_mono:
  assumes "t \<le> u"
  shows "compute_age_in_years zone birth offset t \<le> compute_age_in_years zone birth offset u"
proof -
  obtain y m d where ymd: "date_of_day (civil_day zone birth) = (y, m, d)" by (metis prod_cases3)
  show ?thesis
    using year_of_instant_mono [OF assms, of offset] assms
    by (cases "year_of_instant offset t = year_of_instant offset u")
      (auto simp: compute_age_in_years_def ymd Let_def time_before_def)
qed

definition nominee_ok :: "int \<Rightarrow> instant \<Rightarrow> nominee \<Rightarrow> bool" where
  "nominee_ok offset now n \<longleftrightarrow> (let x = nominee_details n in
     nominee_name x \<noteq> [] \<and> nominee_relationship x \<noteq> [] \<and> birth_date x \<le> now \<and> 1 \<le> sint (percentage x) \<and> sint (percentage x) \<le> 100 \<and>
     (is_minor_as_of offset now x \<longrightarrow> guardian_name x \<noteq> [] \<and> guardian_relationship x \<noteq> [] \<and> guardian_document x \<noteq> []))"

abbreviation percentages :: "nominee list \<Rightarrow> int" where
  "percentages ns \<equiv> sum_list (map (\<lambda>n. sint (percentage (nominee_details n))) ns)"

definition designation_ok :: "int \<Rightarrow> instant \<Rightarrow> string \<Rightarrow> nominee_designation \<Rightarrow> bool" where
  "designation_ok offset now account d \<longleftrightarrow> account \<noteq> [] \<and> designation_account d = account \<and>
     (\<forall>n\<in>set (nominees d). nominee_ok offset now n) \<and> percentages (nominees d) \<le> 100 \<and> (opted_out d \<longrightarrow> nominees d = [])"

lemma nominee_ok_later: "nominee_ok offset t n \<Longrightarrow> t \<le> u \<Longrightarrow> nominee_ok offset u n"
  using age_mono [of t u "birth_offset (nominee_details n)" "birth_date (nominee_details n)" offset]
  by (auto simp: nominee_ok_def Let_def is_minor_as_of_def)

lemma designation_ok_later: "designation_ok offset t account d \<Longrightarrow> t \<le> u \<Longrightarrow> designation_ok offset u account d"
  by (auto simp: designation_ok_def intro: nominee_ok_later)

lemma validated_ok: "validate_nominee_input offset now x = None \<Longrightarrow> nominee_ok offset now \<lparr>nominee_id = i, nominee_details = x\<rparr>"
  by (auto simp: validate_nominee_input_def nominee_ok_def Let_def time_after_def word_sless_alt split: if_splits)

lemma percentages_bounds: "\<forall>n\<in>set ns. nominee_ok offset now n \<Longrightarrow> 0 \<le> percentages ns \<and> percentages ns \<le> 100 * int (length ns)"
  by (induction ns) (auto simp: nominee_ok_def Let_def)

lemma total_percentage_eq: "total_percentage ns = sum_list (map (\<lambda>n. percentage (nominee_details n)) ns)"
proof -
  have "foldl (\<lambda>s n. s + percentage (nominee_details n)) a ns = a + sum_list (map (\<lambda>n. percentage (nominee_details n)) ns)" for a
    by (induction ns arbitrary: a) (simp_all add: add.assoc)
  then show ?thesis by (simp add: total_percentage_def)
qed

lemma sint_total_percentage:
  "\<forall>n\<in>set ns. nominee_ok offset now n \<Longrightarrow> percentages ns < 2 ^ 63 \<Longrightarrow> sint (total_percentage ns) = percentages ns"
proof (induction ns)
  case (Cons n ns)
  have b: "0 \<le> percentages ns" "0 < sint (percentage (nominee_details n))"
    using percentages_bounds [of ns offset now] Cons.prems(1) by (auto simp: nominee_ok_def Let_def)
  then have "sint (total_percentage ns) = percentages ns" using Cons by simp
  then show ?case using b Cons.prems(2) by (simp add: total_percentage_eq sint_add64)
qed (simp add: total_percentage_eq)

lemma built_nominees_ok:
  "build_validated_nominees offset ids now i inputs = Inr ns \<Longrightarrow> (\<forall>n\<in>set ns. nominee_ok offset now n) \<and> length ns = length inputs"
  by (induction inputs arbitrary: i ns) (auto intro: validated_ok split: option.splits sum.splits)

lemma submitted_ok:
  assumes "submit_nomination offset ids account inputs opt_out now t = Inr (d, t')" and "length inputs < 2 ^ 32"
  shows "designation_ok offset now account d \<and> t' = put account d t \<and> is_complete d"
proof -
  obtain ns where a: "account \<noteq> []" and ns: "build_validated_nominees offset ids now 0 inputs = Inr ns"
    and sum: "\<not> opt_out \<Longrightarrow> total_percentage ns = 100" "\<not> opt_out \<Longrightarrow> ns \<noteq> []"
    and d: "d = \<lparr>designation_account = account, opted_out = opt_out, nominees = (if opt_out then [] else ns), last_updated = now\<rparr>"
    and t': "t' = put account d t"
    using assms(1) by (auto simp: submit_nomination_def Let_def split: if_splits sum.splits)
  note ok = built_nominees_ok [OF ns]
  have "percentages ns < 2 ^ 63" using percentages_bounds [of ns offset now] ok assms(2) by auto
  then have "percentages ns \<le> 100" if "\<not> opt_out" using sint_total_percentage [of ns offset now] ok sum(1) [OF that] by simp
  then show ?thesis using a ok sum by (simp add: designation_ok_def is_complete_def d t')
qed

lemma existing_ok:
  "\<forall>d. lookup t account = Some d \<longrightarrow> designation_ok offset now account d \<Longrightarrow>
    (\<forall>n\<in>set (existing_nominees account t). nominee_ok offset now n) \<and> percentages (existing_nominees account t) \<le> 100"
  by (auto simp: existing_nominees_def designation_ok_def split: option.splits)

lemma added_ok:
  assumes "add_nominee offset i account x now t = Inr (d, t')"
    and "\<forall>d. lookup t account = Some d \<longrightarrow> designation_ok offset now account d"
  shows "designation_ok offset now account d \<and> t' = put account d t"
proof -
  let ?ns = "existing_nominees account t"
  have a: "account \<noteq> []" and x: "validate_nominee_input offset now x = None"
    and sum: "\<not> 100 <s total_percentage ?ns + percentage x"
    and d: "d = \<lparr>designation_account = account, opted_out = False, nominees = ?ns @ [\<lparr>nominee_id = i, nominee_details = x\<rparr>], last_updated = now\<rparr>"
    and t': "t' = put account d t"
    using assms(1) by (auto simp: add_nominee_def Let_def split: if_splits option.splits)
  note old = existing_ok [OF assms(2)]
  have s: "sint (total_percentage ?ns) = percentages ?ns" using old by (intro sint_total_percentage) auto
  have v: "nominee_ok offset now \<lparr>nominee_id = i, nominee_details = x\<rparr>" by (rule validated_ok [OF x])
  have "percentages ?ns + sint (percentage x) \<le> 100"
    using sum s old v percentages_bounds [of ?ns offset now] by (auto simp: word_sless_alt sint_add64 nominee_ok_def Let_def)
  then show ?thesis using a old v by (simp add: designation_ok_def d t')
qed

lemma nominee_index_bound: "nominee_index i ns = Some k \<Longrightarrow> k < length ns"
  by (induction ns arbitrary: k) (auto split: if_splits)

lemma updated_ok:
  assumes "update_nominee offset account i x now t = Inr (d, t')"
    and "\<forall>d. lookup t account = Some d \<longrightarrow> designation_ok offset now account d"
  shows "designation_ok offset now account d \<and> t' = put account d t"
proof -
  obtain d0 k where a: "account \<noteq> []" and x: "validate_nominee_input offset now x = None" and d0: "lookup t account = Some d0"
    and k: "nominee_index i (nominees d0) = Some k"
    and sum: "\<not> 100 <s total_percentage ((nominees d0)[k := \<lparr>nominee_id = i, nominee_details = x\<rparr>])"
    and d: "d = \<lparr>designation_account = account, opted_out = opted_out d0, nominees = (nominees d0)[k := \<lparr>nominee_id = i, nominee_details = x\<rparr>],
      last_updated = now\<rparr>" and t': "t' = put account d t"
    using assms(1) by (auto simp: update_nominee_def Let_def split: if_splits option.splits)
  have old: "designation_ok offset now account d0" using assms(2) d0 by simp
  let ?ns = "(nominees d0)[k := \<lparr>nominee_id = i, nominee_details = x\<rparr>]"
  have ok: "\<forall>n\<in>set ?ns. nominee_ok offset now n"
    using old validated_ok [OF x, of i] set_update_subset_insert [of "nominees d0" k] by (auto simp: designation_ok_def)
  have "length (nominees d0) \<le> nat (percentages (nominees d0))"
  proof -
    have long: "int (length ns) \<le> percentages ns" if "\<forall>n\<in>set ns. nominee_ok offset now n" for ns
      using that by (induction ns) (auto simp: nominee_ok_def Let_def)
    have "\<forall>n\<in>set (nominees d0). nominee_ok offset now n" using old by (simp add: designation_ok_def)
    from long [OF this] show ?thesis by linarith
  qed
  moreover have "percentages (nominees d0) \<le> 100" using old by (simp add: designation_ok_def)
  ultimately have "length ?ns \<le> 100" by simp
  then have "percentages ?ns < 2 ^ 63" using percentages_bounds [OF ok] by simp
  then have "percentages ?ns \<le> 100" using sum sint_total_percentage [OF ok] by (simp add: word_sless_alt)
  moreover have "opted_out d0 \<longrightarrow> nominees d0 = []" using old by (simp add: designation_ok_def)
  ultimately show ?thesis using a ok by (simp add: designation_ok_def d t')
qed

lemma removed_ok:
  assumes "remove_nominee account i now t = Inr (d, t')"
    and "\<forall>d. lookup t account = Some d \<longrightarrow> designation_ok offset now account d"
  shows "designation_ok offset now account d \<and> t' = put account d t"
proof -
  obtain d0 k where a: "account \<noteq> []" and d0: "lookup t account = Some d0" and k: "nominee_index i (nominees d0) = Some k"
    and d: "d = \<lparr>designation_account = account, opted_out = opted_out d0, nominees = take k (nominees d0) @ drop (k + 1) (nominees d0),
      last_updated = now\<rparr>" and t': "t' = put account d t"
    using assms(1) by (auto simp: remove_nominee_def Let_def split: if_splits option.splits)
  have old: "designation_ok offset now account d0" using assms(2) d0 by simp
  have split: "nominees d0 = take k (nominees d0) @ nominees d0 ! k # drop (k + 1) (nominees d0)"
    using nominee_index_bound [OF k] by (simp add: id_take_nth_drop)
  have "0 \<le> sint (percentage (nominee_details (nominees d0 ! k)))"
    using old nth_mem [OF nominee_index_bound [OF k]] by (fastforce simp: designation_ok_def nominee_ok_def Let_def)
  then have "percentages (nominees d) \<le> percentages (nominees d0)" by (subst split) (simp add: d)
  moreover have "set (nominees d) \<subseteq> set (nominees d0)" by (subst split) (auto simp: d)
  ultimately show ?thesis using a old by (auto simp: designation_ok_def d t')
qed

text \<open>The calls of the registry under a clock that does not go back. A request names fewer than 2^32 nominees: more do not
  fit into memory.\<close>

record nominee_system =
  designations :: "nominee_designation table"
  clock :: instant

inductive nominee_step :: "int \<Rightarrow> nominee_system \<Rightarrow> nominee_system \<Rightarrow> bool" for offset where
  submits: "submit_nomination offset ids account inputs opt_out now (designations s) = Inr (d, t) \<Longrightarrow> length inputs < 2 ^ 32 \<Longrightarrow>
    clock s \<le> now \<Longrightarrow> nominee_step offset s \<lparr>designations = t, clock = now\<rparr>"
| adds: "add_nominee offset i account x now (designations s) = Inr (d, t) \<Longrightarrow> clock s \<le> now \<Longrightarrow>
    nominee_step offset s \<lparr>designations = t, clock = now\<rparr>"
| updates: "update_nominee offset account i x now (designations s) = Inr (d, t) \<Longrightarrow> clock s \<le> now \<Longrightarrow>
    nominee_step offset s \<lparr>designations = t, clock = now\<rparr>"
| removes: "remove_nominee account i now (designations s) = Inr (d, t) \<Longrightarrow> clock s \<le> now \<Longrightarrow>
    nominee_step offset s \<lparr>designations = t, clock = now\<rparr>"

definition nominee_inv :: "int \<Rightarrow> nominee_system \<Rightarrow> bool" where
  "nominee_inv offset s \<longleftrightarrow> (\<forall>account d. lookup (designations s) account = Some d \<longrightarrow> designation_ok offset (clock s) account d)"

lemma nominee_inv_put:
  "nominee_inv offset s \<Longrightarrow> clock s \<le> now \<Longrightarrow> designation_ok offset now account d \<and> t = put account d (designations s) \<Longrightarrow>
    nominee_inv offset \<lparr>designations = t, clock = now\<rparr>"
  by (auto simp: nominee_inv_def intro: designation_ok_later)

interpretation nominee_calls: invariant_system "\<lambda>s. designations s = []" "nominee_step offset" "nominee_inv offset" for offset
proof
  show "nominee_inv offset s" if "designations s = []" for s using that by (simp add: nominee_inv_def)
  show "nominee_inv offset s'" if inv: "nominee_inv offset s" and step: "nominee_step offset s s'" for s s'
  proof -
    have later: "\<forall>d. lookup (designations s) account = Some d \<longrightarrow> designation_ok offset now account d" if "clock s \<le> now" for account now
      using inv that by (auto simp: nominee_inv_def intro: designation_ok_later)
    show ?thesis
      using step
    proof cases
      case (submits ids account inputs opt_out now d t)
      then show ?thesis using submitted_ok [OF submits(2,3)] nominee_inv_put [OF inv submits(4)] by blast
    next
      case (adds i account x now d t)
      then show ?thesis using added_ok [OF adds(2) later [OF adds(3)]] nominee_inv_put [OF inv adds(3)] by blast
    next
      case (updates account i x now d t)
      then show ?thesis using updated_ok [OF updates(2) later [OF updates(3)]] nominee_inv_put [OF inv updates(3)] by blast
    next
      case (removes account i now d t)
      then show ?thesis using removed_ok [OF removes(2) later [OF removes(3)]] nominee_inv_put [OF inv removes(3)] by blast
    qed
  qed
qed

text \<open>C34. However nominations are submitted, extended, changed and withdrawn, the shares of an account's nominees never
  exceed 100 in sum, an account that opted out has none, and every nominee who is a minor, then or at any later time, has a
  guardian on record.\<close>

theorem nominations_stay_valid:
  assumes "reachable_by (\<lambda>s. designations s = []) (nominee_step offset) s" and "lookup (designations s) account = Some d"
    and "clock s \<le> now"
  shows "percentages (nominees d) \<le> 100 \<and> (opted_out d \<longrightarrow> nominees d = []) \<and>
    (\<forall>n\<in>set (nominees d). 1 \<le> sint (percentage (nominee_details n)) \<and>
       (is_minor_as_of offset now (nominee_details n) \<longrightarrow> guardian_document (nominee_details n) \<noteq> []))"
proof -
  have "designation_ok offset (clock s) account d"
    using nominee_calls.inv_reachable [OF assms(1)] assms(2) by (simp add: nominee_inv_def)
  from designation_ok_later [OF this assms(3)] show ?thesis by (auto simp: designation_ok_def nominee_ok_def Let_def)
qed

definition demo_input :: nominee_input where
  "demo_input = \<lparr>nominee_name = ''n'', nominee_relationship = ''r'', birth_date = 0, birth_offset = 0, percentage = 100,
     guardian_name = ''g'', guardian_relationship = ''p'', guardian_document = ''doc''\<rparr>"

theorem nominations_stay_valid_witness:
  "case submit_nomination 0 (\<lambda>i. ''n-0'') ''a'' [demo_input] False 5 [] of
     Inl _ \<Rightarrow> False | Inr (d, t) \<Rightarrow> percentages (nominees d) \<le> 100"
proof -
  have "submit_nomination 0 (\<lambda>i. ''n-0'') ''a'' [demo_input] False 5 [] =
      Inr (\<lparr>designation_account = ''a'', opted_out = False, nominees = [\<lparr>nominee_id = ''n-0'', nominee_details = demo_input\<rparr>], last_updated = 5\<rparr>,
        [(''a'', \<lparr>designation_account = ''a'', opted_out = False, nominees = [\<lparr>nominee_id = ''n-0'', nominee_details = demo_input\<rparr>], last_updated = 5\<rparr>)])"
    (is "_ = Inr (?d, ?t)")
    by (simp add: submit_nomination_def validate_nominee_input_def demo_input_def zero_time_def time_after_def total_percentage_def
        word_sless_alt Let_def)
  moreover have "reachable_by (\<lambda>s. designations s = []) (nominee_step 0) \<lparr>designations = ?t, clock = 5\<rparr>"
    using submits [of 0 "\<lambda>i. ''n-0''" "''a''" "[demo_input]" False 5 "\<lparr>designations = [], clock = 0\<rparr>", simplified, OF calculation]
    by (rule reachable_by.reachable_step [OF reachable_by.reachable_init, rotated]) simp
  ultimately show ?thesis
    using nominations_stay_valid [of 0 "\<lparr>designations = ?t, clock = 5\<rparr>" "''a''" ?d 5] by simp
qed

end
