(* ===== verification/BondAuction.thy ===== *)
theory BondAuction
  imports GoText GoCalendar "HOL-Library.Product_Lexorder"
begin

text \<open>
  Primary-market auctions of bonds in the fund service, services/mutual-funds/internal:
  primarymarketbidding/primaryAuctionEngine.go over the calendar of
  fixedincome/auctionCalendarFixture.go. Bids are filled in the order of the yields they ask for; the
  bids tied at the cutoff share what is left. Bid identifiers are arguments. The source sorts and
  mutates pointers to the stored bids; here a position in the stored list stands for the pointer.
\<close>

section \<open>State\<close>

datatype auction_status = AuctionScheduled | AuctionOpen | AuctionClosed

record auction =
  auction_id :: string
  auction_bond :: string
  auction_date :: instant
  notified_amount :: int64
  auction_status :: auction_status
  auction_closed_at :: instant

datatype bid_status = BidSubmitted | BidAllotted | BidPartiallyAllotted | BidRejected

record bid =
  bid_id :: string
  bid_auction :: string
  bid_account :: string
  bid_quantity :: int64
  bid_yield :: float64
  bid_submitted_at :: instant
  bid_status :: bid_status
  bid_allotted :: int64

datatype auction_error = UnknownAuction | AuctionNotOpen | AuctionAlreadyClosed | InvalidBidQuantity | InvalidBidYield | BidIdFailed

record auction_engine =
  auctions_by_id :: "auction table"
  bids_by_auction :: "bid list table"

text \<open>\<open>time.Parse\<close> of a date gives midnight in UTC.\<close>

definition utc_date :: "int \<Rightarrow> int \<Rightarrow> int \<Rightarrow> instant" where
  "utc_date y m d = (day_of_date y m d - unix_epoch_day) * day_nanos"

definition seed_auction_calendar :: "(string \<times> instant \<times> int64) list" where
  "seed_auction_calendar =
    [(''GSEC-07.10-2028'', utc_date 2026 8 21, 500000000), (''GSEC-07.26-2031'', utc_date 2026 8 28, 400000000),
     (''GSEC-06.90-2036'', utc_date 2026 9 4, 300000000), (''TBILL-91D-NOV26'', utc_date 2026 8 19, 200000000),
     (''TBILL-364D-AUG27'', utc_date 2026 8 19, 150000000)]"

fun three_digits :: "nat \<Rightarrow> string" where
  "three_digits n = (let digits = decimal_of_nat n in replicate (3 - length digits) CHR ''0'' @ digits)"

definition new_auction_engine :: auction_engine where
  "new_auction_engine = \<lparr>auctions_by_id = map (\<lambda>(i, bond, date, amount). let k = ''auction-'' @ three_digits (i + 1) in
       (k, \<lparr>auction_id = k, auction_bond = bond, auction_date = date, notified_amount = amount,
         auction_status = AuctionScheduled, auction_closed_at = zero_time\<rparr>))
     (zip [0..<length seed_auction_calendar] seed_auction_calendar), bids_by_auction = []\<rparr>"

section \<open>Operations\<close>

definition list_auctions :: "auction_engine \<Rightarrow> auction list" where
  "list_auctions e = sort_key auction_id (map snd (auctions_by_id e))"

definition auction_due :: "instant \<Rightarrow> auction \<Rightarrow> bool" where
  "auction_due now a = (auction_status a = AuctionScheduled \<and> \<not> time_before now (auction_date a))"

definition open_due_auctions :: "instant \<Rightarrow> auction_engine \<Rightarrow> auction list \<times> auction_engine" where
  "open_due_auctions now e =
    (sort_key auction_id (map (\<lambda>a. a\<lparr>auction_status := AuctionOpen\<rparr>) (filter (auction_due now) (map snd (auctions_by_id e)))),
     e\<lparr>auctions_by_id := map (\<lambda>(k, a). (k, if auction_due now a then a\<lparr>auction_status := AuctionOpen\<rparr> else a)) (auctions_by_id e)\<rparr>)"

definition submit_bid :: "string option \<Rightarrow> string \<Rightarrow> string \<Rightarrow> int64 \<Rightarrow> float64 \<Rightarrow> instant \<Rightarrow> auction_engine \<Rightarrow>
    auction_error + bid \<times> auction_engine" where
  "submit_bid new_id k account quantity yield now e =
    (if quantity \<le>s 0 then Inl InvalidBidQuantity else if yield \<le> 0 then Inl InvalidBidYield
     else case lookup (auctions_by_id e) k of
       None \<Rightarrow> Inl UnknownAuction
     | Some a \<Rightarrow>
         if auction_status a \<noteq> AuctionOpen then Inl AuctionNotOpen
         else case new_id of
           None \<Rightarrow> Inl BidIdFailed
         | Some i \<Rightarrow>
             let b = \<lparr>bid_id = i, bid_auction = k, bid_account = account, bid_quantity = quantity, bid_yield = yield,
                   bid_submitted_at = now, bid_status = BidSubmitted, bid_allotted = 0\<rparr>
             in Inr (b, e\<lparr>bids_by_auction := put k (lookup_or [] (bids_by_auction e) k @ [b]) (bids_by_auction e)\<rparr>))"

text \<open>The product is exact (\<open>math/big\<close>) and the quotient truncated.\<close>

definition pro_rata_allotment :: "int64 \<Rightarrow> int64 \<Rightarrow> int64 \<Rightarrow> int64" where
  "pro_rata_allotment quantity remaining requested = word_of_int ((sint quantity * sint remaining) sdiv sint requested)"

definition award :: "int64 \<Rightarrow> bid \<Rightarrow> bid" where
  "award n b = b\<lparr>bid_allotted := n, bid_status :=
     (if n = 0 then BidRejected else if n <s bid_quantity b then BidPartiallyAllotted else BidAllotted)\<rparr>"

text \<open>The bids of an oversubscribed group: the last one takes what the others leave.\<close>

fun share_out :: "int64 \<Rightarrow> int64 \<Rightarrow> int64 \<Rightarrow> bid list \<Rightarrow> bid list" where
  "share_out remaining requested so_far [] = []"
| "share_out remaining requested so_far [b] = [award (remaining - so_far) b]"
| "share_out remaining requested so_far (b # c # rest) =
    (let n = pro_rata_allotment (bid_quantity b) remaining requested
     in award n b # share_out remaining requested (so_far + n) (c # rest))"

definition fill_bid :: "bid \<Rightarrow> bid" where
  "fill_bid b = b\<lparr>bid_allotted := bid_quantity b, bid_status := BidAllotted\<rparr>"

definition reject_bid :: "bid \<Rightarrow> bid" where
  "reject_bid b = b\<lparr>bid_allotted := 0, bid_status := BidRejected\<rparr>"

function allot_bids :: "int64 \<Rightarrow> bid list \<Rightarrow> bid list" where
  "allot_bids remaining [] = []"
| "allot_bids remaining (b # bs) =
    (if remaining \<le>s 0 then map reject_bid (b # bs)
     else let group = takeWhile (\<lambda>c. bid_yield c = bid_yield b) (b # bs);
              rest = dropWhile (\<lambda>c. bid_yield c = bid_yield b) bs;
              requested = sum_list (map bid_quantity group)
       in if requested \<le>s remaining then map fill_bid group @ allot_bids (remaining - requested) rest
          else share_out remaining requested 0 group @ allot_bids 0 rest)"
  by pat_completeness auto

termination
  by (relation "measure (\<lambda>(remaining, bids). length bids)") (auto simp: le_imp_less_Suc length_dropWhile_le)

definition bid_order :: "nat \<times> bid \<Rightarrow> float64 \<times> string" where
  "bid_order p = (bid_yield (snd p), bid_id (snd p))"

definition close_auction :: "string \<Rightarrow> instant \<Rightarrow> auction_engine \<Rightarrow> auction_error + bid list \<times> auction_engine" where
  "close_auction k now e = (case lookup (auctions_by_id e) k of
     None \<Rightarrow> Inl UnknownAuction
   | Some a \<Rightarrow>
       if auction_status a = AuctionClosed then Inl AuctionAlreadyClosed
       else let bids = lookup_or [] (bids_by_auction e) k;
                positions = sort_key bid_order (zip [0..<length bids] bids);
                results = allot_bids (notified_amount a) (map snd positions);
                bids' = foldl (\<lambda>bs (i, b). bs[i := b]) bids (zip (map fst positions) results)
         in Inr (sort_key bid_id results,
              e\<lparr>auctions_by_id := put k (a\<lparr>auction_status := AuctionClosed, auction_closed_at := now\<rparr>) (auctions_by_id e),
                bids_by_auction := (if bids = [] then bids_by_auction e else put k bids' (bids_by_auction e))\<rparr>))"

text \<open>The bids of a bidder, in no particular order where they were submitted at the same time.\<close>

definition bids_for_bidder :: "string \<Rightarrow> auction_engine \<Rightarrow> bid list" where
  "bids_for_bidder account e = sort_key bid_submitted_at
     (filter (\<lambda>b. bid_account b = account) (concat (map snd (bids_by_auction e))))"

definition bids_for_auction :: "string \<Rightarrow> auction_engine \<Rightarrow> bid list" where
  "bids_for_auction k e = sort_key bid_id (lookup_or [] (bids_by_auction e) k)"

section \<open>What an auction allots\<close>

abbreviation quantities :: "bid list \<Rightarrow> int" where
  "quantities bids \<equiv> sum_list (map (\<lambda>b. sint (bid_quantity b)) bids)"

abbreviation allotments :: "bid list \<Rightarrow> int" where
  "allotments bids \<equiv> sum_list (map (\<lambda>b. sint (bid_allotted b)) bids)"

definition bids_ok :: "bid list \<Rightarrow> bool" where
  "bids_ok bids \<longleftrightarrow> (\<forall>b\<in>set bids. 0 < sint (bid_quantity b)) \<and> quantities bids < 2 ^ 63"

definition bid_terms :: "bid \<Rightarrow> string \<times> int64 \<times> float64" where
  "bid_terms b = (bid_id b, bid_quantity b, bid_yield b)"

lemma award_simps [simp]:
  "bid_allotted (award n b) = n" "bid_terms (award n b) = bid_terms b"
  "bid_allotted (fill_bid b) = bid_quantity b" "bid_terms (fill_bid b) = bid_terms b"
  "bid_allotted (reject_bid b) = 0" "bid_terms (reject_bid b) = bid_terms b"
  by (simp_all add: award_def fill_bid_def reject_bid_def bid_terms_def)

lemma quantities_nonneg: "\<forall>b\<in>set bids. 0 < sint (bid_quantity b) \<Longrightarrow> 0 \<le> quantities bids"
  by (induction bids) auto

lemma bids_ok_append: "bids_ok (xs @ ys) \<Longrightarrow> bids_ok xs \<and> bids_ok ys"
  using quantities_nonneg [of xs] quantities_nonneg [of ys] by (auto simp: bids_ok_def)

lemma sint_quantities: "bids_ok bids \<Longrightarrow> sint (sum_list (map bid_quantity bids)) = quantities bids"
proof (induction bids)
  case (Cons b bids)
  then have ok: "bids_ok bids" using bids_ok_append [of "[b]" bids] by simp
  then have "0 \<le> quantities bids" by (auto simp: bids_ok_def intro: quantities_nonneg)
  moreover have "sint (bid_quantity b) + quantities bids < 2 ^ 63" "0 < sint (bid_quantity b)"
    using Cons.prems by (simp_all add: bids_ok_def)
  ultimately show ?case using Cons.IH [OF ok] by (simp add: sint_add64)
qed simp

text \<open>The shares of a group add up to what is left, and none is negative.\<close>

lemma share_out_sum:
  assumes "bs \<noteq> []" and "\<forall>b\<in>set bs. 0 < sint (bid_quantity b)" and "0 \<le> sint s" "0 < sint r" "sint r < sint q"
    and "sint s * sint q \<le> sint r * (sint q - quantities bs)"
  shows "allotments (share_out r q s bs) = sint r - sint s \<and> (\<forall>b\<in>set (share_out r q s bs). 0 \<le> sint (bid_allotted b))
    \<and> map bid_terms (share_out r q s bs) = map bid_terms bs"
  using assms
proof (induction r q s bs rule: share_out.induct)
  case (2 r q s b)
  have "sint s * sint q \<le> sint r * (sint q - quantities [b])" using 2 by blast
  also have "\<dots> \<le> sint r * sint q" using 2 by (intro mult_left_mono) auto
  finally have "sint s \<le> sint r" using 2(4,5) by (simp add: mult_le_cancel_right)
  then show ?case using 2(3,4) sint_bounds64 [of r] by (simp add: sint_sub64)
next
  case (3 r q s b c rest)
  define n where "n = sint (bid_quantity b) * sint r div sint q"
  have q: "0 < sint q" using 3 by simp
  have qb: "0 < sint (bid_quantity b)" using 3 by simp
  have n0: "0 \<le> n" using qb 3 q by (simp add: n_def pos_imp_zdiv_nonneg_iff)
  have nq: "n * sint q \<le> sint (bid_quantity b) * sint r"
    using q by (simp add: n_def minus_mod_eq_div_mult [symmetric])
  have step: "(sint s + n) * sint q \<le> sint r * (sint q - quantities (c # rest))"
    using 3(7) nq by (simp add: algebra_simps)
  also have "\<dots> \<le> sint r * sint q"
    using 3 quantities_nonneg [of "c # rest"] by (intro mult_left_mono) auto
  finally have le: "sint s + n \<le> sint r" using q by (simp add: mult_le_cancel_right)
  then have small: "n < 2 ^ 63" using 3(4) sint_bounds64 [of r] by linarith
  have pr: "pro_rata_allotment (bid_quantity b) r q = word_of_int n"
    using qb 3 q by (simp add: pro_rata_allotment_def n_def signed_divide_int_def)
  have sn: "sint (word_of_int n :: int64) = n" using n0 small by (simp add: sint_of_int64)
  have ssn: "sint (s + word_of_int n) = sint s + n"
    using sn n0 le 3(4) sint_bounds64 [of r] by (simp add: sint_add64)
  have "allotments (share_out r q (s + word_of_int n) (c # rest)) = sint r - sint (s + word_of_int n)
    \<and> (\<forall>b\<in>set (share_out r q (s + word_of_int n) (c # rest)). 0 \<le> sint (bid_allotted b))
    \<and> map bid_terms (share_out r q (s + word_of_int n) (c # rest)) = map bid_terms (c # rest)"
    using 3 step ssn n0 by (intro 3(1) [unfolded pr]) auto
  then show ?case using sn n0 ssn by (simp add: pr Let_def)
qed simp

lemma group_split:
  "b # bs = takeWhile (\<lambda>c. bid_yield c = bid_yield b) (b # bs) @ dropWhile (\<lambda>c. bid_yield c = bid_yield b) bs"
  by simp

lemma sum_list_map_mset: "mset xs = mset ys \<Longrightarrow> sum_list (map f xs) = (sum_list (map f ys) :: int)"
  by (metis mset_map sum_mset_sum_list)

lemma sum_list_map_zero: "(\<And>x. x \<in> set xs \<Longrightarrow> f x = (0::int)) \<Longrightarrow> sum_list (map f xs) = 0"
  by (induction xs) auto

text \<open>An allotment: what is allotted is what there is or what is asked for, no share is negative, and the terms of
  the bids stay.\<close>

definition allots :: "int \<Rightarrow> bid list \<Rightarrow> bid list \<Rightarrow> bool" where
  "allots available bids results \<longleftrightarrow>
     allotments results = min (max 0 available) (quantities bids) \<and> (\<forall>b\<in>set results. 0 \<le> sint (bid_allotted b)) \<and>
     map bid_terms results = map bid_terms bids"

lemma allots_rejected: "available \<le> 0 \<Longrightarrow> bids_ok bids \<Longrightarrow> allots available bids (map reject_bid bids)"
  using quantities_nonneg [of bids] by (auto simp: allots_def bids_ok_def comp_def sum_list_map_zero)

lemma allot_bids_allots: "bids_ok bids \<Longrightarrow> allots (sint remaining) bids (allot_bids remaining bids)"
proof (induction remaining bids rule: allot_bids.induct)
  case (2 remaining b bs)
  define g where "g = takeWhile (\<lambda>c. bid_yield c = bid_yield b) (b # bs)"
  define r where "r = dropWhile (\<lambda>c. bid_yield c = bid_yield b) bs"
  have split: "b # bs = g @ r" unfolding g_def r_def by (rule group_split)
  have gn: "g \<noteq> []" by (simp add: g_def)
  have ok: "bids_ok g" "bids_ok r" using 2(3) bids_ok_append [of g r] by (simp_all add: split)
  have req: "sint (sum_list (map bid_quantity g)) = quantities g" by (rule sint_quantities [OF ok(1)])
  have qr: "0 \<le> quantities r" using ok(2) by (intro quantities_nonneg) (simp add: bids_ok_def)
  have qg: "0 \<le> quantities g" using ok(1) by (intro quantities_nonneg) (simp add: bids_ok_def)
  consider (none) "remaining \<le>s 0" | (fits) "\<not> remaining \<le>s 0" "sum_list (map bid_quantity g) \<le>s remaining"
    | (cut) "\<not> remaining \<le>s 0" "\<not> sum_list (map bid_quantity g) \<le>s remaining" by blast
  then show ?case
  proof cases
    case none
    then show ?thesis using 2(3) allots_rejected [of "sint remaining" "b # bs"] by (simp add: word_sle_eq)
  next
    case fits
    have "sint (remaining - sum_list (map bid_quantity g)) = sint remaining - quantities g"
      using fits qg req sint_bounds64 [of remaining] by (simp add: sint_sub64 word_sle_eq)
    moreover have "allots (sint (remaining - sum_list (map bid_quantity g))) r
        (allot_bids (remaining - sum_list (map bid_quantity g)) r)"
      by (rule 2(1) [OF fits(1) g_def r_def refl fits(2) ok(2)])
    moreover have "allot_bids remaining (b # bs) = map fill_bid g @ allot_bids (remaining - sum_list (map bid_quantity g)) r"
      using fits by (simp add: g_def r_def Let_def)
    moreover have "\<forall>c\<in>set g. 0 \<le> sint (bid_quantity c)" using ok(1) by (auto simp: bids_ok_def intro: less_imp_le)
    ultimately show ?thesis using fits qr req unfolding split by (auto simp: allots_def comp_def word_sle_eq)
  next
    case cut
    have "allots 0 r (allot_bids 0 r)" using 2(2) [OF cut(1) g_def r_def refl cut(2) ok(2)] by simp
    moreover have "allot_bids remaining (b # bs) = share_out remaining (sum_list (map bid_quantity g)) 0 g @ allot_bids 0 r"
      using cut by (simp add: g_def r_def Let_def)
    moreover have "allotments (share_out remaining (sum_list (map bid_quantity g)) 0 g) = sint remaining
        \<and> (\<forall>b\<in>set (share_out remaining (sum_list (map bid_quantity g)) 0 g). 0 \<le> sint (bid_allotted b))
        \<and> map bid_terms (share_out remaining (sum_list (map bid_quantity g)) 0 g) = map bid_terms g"
      using share_out_sum [of g 0 remaining "sum_list (map bid_quantity g)"] gn ok(1) cut req
      by (simp add: bids_ok_def word_sle_eq not_le)
    ultimately show ?thesis using cut qr req unfolding split by (auto simp: allots_def word_sle_eq not_le)
  qed
qed (simp add: allots_def)

text \<open>Nobody who asks for a higher yield is served before a lower one is served in full.\<close>

definition lower_yields_first :: "bid list \<Rightarrow> bool" where
  "lower_yields_first results \<longleftrightarrow> (\<forall>b\<in>set results. \<forall>c\<in>set results.
     bid_yield b < bid_yield c \<longrightarrow> 0 < sint (bid_allotted c) \<longrightarrow> bid_allotted b = bid_quantity b)"

lemma terms_mem: "map bid_terms results = map bid_terms bids \<Longrightarrow> b \<in> set results \<Longrightarrow> \<exists>a\<in>set bids. bid_terms a = bid_terms b"
proof -
  assume eq: "map bid_terms results = map bid_terms bids" and b: "b \<in> set results"
  have "bid_terms b \<in> set (map bid_terms bids)" using b by (simp flip: eq)
  then show "\<exists>a\<in>set bids. bid_terms a = bid_terms b" by auto
qed

lemma allot_bids_zero: "allot_bids 0 bids = map reject_bid bids"
  by (cases bids) (simp_all)

lemma sorted_rest_yields:
  assumes "sorted (map bid_yield (b # bs))" "c \<in> set (dropWhile (\<lambda>c. bid_yield c = bid_yield b) bs)"
  shows "bid_yield b \<le> bid_yield c"
  using assms set_dropWhileD by fastforce

lemma allot_bids_priority:
  "bids_ok bids \<Longrightarrow> sorted (map bid_yield bids) \<Longrightarrow> lower_yields_first (allot_bids remaining bids)"
proof (induction remaining bids rule: allot_bids.induct)
  case (2 remaining b bs)
  define g where "g = takeWhile (\<lambda>c. bid_yield c = bid_yield b) (b # bs)"
  define r where "r = dropWhile (\<lambda>c. bid_yield c = bid_yield b) bs"
  have split: "b # bs = g @ r" unfolding g_def r_def by (rule group_split)
  have ok: "bids_ok g" "bids_ok r" using 2(3) bids_ok_append [of g r] by (simp_all add: split)
  have yg: "bid_yield c = bid_yield b" if "c \<in> set g" for c using that unfolding g_def by (rule set_takeWhileD [THEN conjunct2])
  have yr: "bid_yield b \<le> bid_yield c" if "c \<in> set r" for c using sorted_rest_yields [OF 2(4)] that by (simp add: r_def)
  have sr: "sorted (map bid_yield r)" using 2(4) by (simp add: split sorted_append)
  consider (none) "remaining \<le>s 0" | (fits) "\<not> remaining \<le>s 0" "sum_list (map bid_quantity g) \<le>s remaining"
    | (cut) "\<not> remaining \<le>s 0" "\<not> sum_list (map bid_quantity g) \<le>s remaining" by blast
  then show ?case
  proof cases
    case none
    then show ?thesis by (auto simp: lower_yields_first_def)
  next
    case fits
    let ?rest = "allot_bids (remaining - sum_list (map bid_quantity g)) r"
    have IH: "lower_yields_first ?rest"
      by (rule 2(1) [OF fits(1) g_def r_def refl fits(2) ok(2) sr])
    have eq: "allot_bids remaining (b # bs) = map fill_bid g @ ?rest"
      using fits by (simp add: g_def r_def Let_def)
    have low: "bid_yield b \<le> bid_yield x" if "x \<in> set ?rest" for x
      using terms_mem [OF _ that, of r] allot_bids_allots [OF ok(2)] yr by (fastforce simp: allots_def bid_terms_def)
    have filled: "bid_yield x = bid_yield b \<and> bid_allotted x = bid_quantity x" if "x \<in> set (map fill_bid g)" for x
      using that yg by (auto simp: fill_bid_def)
    show ?thesis unfolding eq lower_yields_first_def
      using IH low filled unfolding lower_yields_first_def set_append by (metis UnE leD)
  next
    case cut
    let ?shares = "share_out remaining (sum_list (map bid_quantity g)) 0 g"
    have eq: "allot_bids remaining (b # bs) = ?shares @ map reject_bid r"
      using cut by (simp add: g_def r_def Let_def allot_bids_zero)
    have "map bid_terms ?shares = map bid_terms g"
      using share_out_sum [of g 0 remaining "sum_list (map bid_quantity g)"] ok(1) cut sint_quantities [OF ok(1)]
      by (cases "g = []") (auto simp: bids_ok_def word_sle_eq not_le)
    then have same: "bid_yield x = bid_yield b" if "x \<in> set ?shares" for x
      using terms_mem [OF _ that, of g] yg by (fastforce simp: bid_terms_def)
    have zero: "bid_yield b \<le> bid_yield x \<and> bid_allotted x = 0" if "x \<in> set (map reject_bid r)" for x
      using that yr by (auto simp: reject_bid_def)
    show ?thesis unfolding eq lower_yields_first_def
      using same zero unfolding set_append by (metis UnE leD less_irrefl sint_0)
  qed
qed (simp add: lower_yields_first_def)

section \<open>Closing an auction\<close>

lemma foldl_updates:
  assumes "distinct (map fst ps)" "\<forall>(i, b)\<in>set ps. i < length bs"
  shows "length (foldl (\<lambda>bs (i, b). bs[i := b]) bs ps) = length bs \<and>
    (\<forall>j<length bs. foldl (\<lambda>bs (i, b). bs[i := b]) bs ps ! j = (case map_of ps j of None \<Rightarrow> bs ! j | Some b \<Rightarrow> b))"
  using assms
proof (induction ps arbitrary: bs)
  case (Cons p ps)
  obtain i b where p: "p = (i, b)" by (cases p)
  have new: "map_of ps i = None" using Cons.prems(1) by (simp add: p map_of_eq_None_iff)
  have "\<forall>(i, c)\<in>set ps. i < length (bs[i := b])" using Cons.prems(2) by auto
  with Cons show ?case using Cons.prems(2) new by (auto simp: p nth_list_update split: option.splits)
qed simp

lemma foldl_updates_all:
  assumes "mset (map fst ps) = mset [0..<length bs]"
  shows "mset (foldl (\<lambda>bs (i, b). bs[i := b]) bs ps) = mset (map snd ps)"
proof -
  let ?new = "foldl (\<lambda>bs (i, b). bs[i := b]) bs ps"
  have d: "distinct (map fst ps)" using assms mset_eq_imp_distinct_iff by fastforce
  have s: "set (map fst ps) = {0..<length bs}" using mset_eq_setD [OF assms] by simp
  have f: "length ?new = length bs \<and> (\<forall>j<length bs. ?new ! j = (case map_of ps j of None \<Rightarrow> bs ! j | Some b \<Rightarrow> b))"
    using s by (intro foldl_updates [OF d]) force
  have at: "?new ! fst p = snd p" if "p \<in> set ps" for p
  proof -
    have "map_of ps (fst p) = Some (snd p)" using that d by simp
    moreover have "fst p < length bs" using that s by force
    ultimately show ?thesis using f by simp
  qed
  have "?new = map ((!) ?new) [0..<length bs]" using f by (metis map_nth)
  then have "mset ?new = image_mset ((!) ?new) (mset [0..<length bs])" by (metis mset_map)
  also have "\<dots> = mset (map (\<lambda>p. ?new ! fst p) ps)" unfolding assms [symmetric] by (simp only: mset_map) (simp add: multiset.map_comp comp_def case_prod_beta)
  also have "\<dots> = mset (map snd ps)" using at by (simp cong: map_cong)
  finally show ?thesis .
qed



lemma close_auction_allots:
  assumes closed: "close_auction k now e = Inr (results, e')" and a: "lookup (auctions_by_id e) k = Some a"
    and bids: "bids = lookup_or [] (bids_by_auction e) k" and ok: "bids_ok bids"
  shows "\<exists>ordered. mset ordered = mset bids \<and> sorted (map bid_yield ordered) \<and>
    results = sort_key bid_id (allot_bids (notified_amount a) ordered) \<and>
    mset (lookup_or [] (bids_by_auction e') k) = mset results \<and>
    lookup (auctions_by_id e') k = Some (a\<lparr>auction_status := AuctionClosed, auction_closed_at := now\<rparr>)"
proof -
  define ps where "ps = sort_key bid_order (zip [0..<length bids] bids)"
  define rs where "rs = allot_bids (notified_amount a) (map snd ps)"
  have mp: "mset ps = mset (zip [0..<length bids] bids)" by (simp add: ps_def)
  have order: "mset (map snd ps) = mset bids" by (metis mp mset_map map_snd_zip length_upt minus_nat.diff_0)
  have fsts: "mset (map fst ps) = mset [0..<length bids]" by (metis mp mset_map map_fst_zip length_upt minus_nat.diff_0)
  have "sorted (map bid_order ps)" by (simp add: ps_def)
  then have sorted: "sorted (map bid_yield (map snd ps))"
    by (simp add: bid_order_def sorted_iff_nth_mono) (fastforce simp: less_eq_prod_def)
  have "bids_ok (map snd ps)" using ok mset_eq_setD [OF order] arg_cong [OF order, of "\<lambda>m. sum_mset (image_mset (\<lambda>b. sint (bid_quantity b)) m)"]
    by (simp add: bids_ok_def sum_mset_sum_list flip: mset_map)
  then have "length rs = length ps"
    using allot_bids_allots [of "map snd ps" "notified_amount a"] by (simp add: rs_def allots_def) (metis length_map)
  then have "mset (foldl (\<lambda>bs (i, b). bs[i := b]) bids (zip (map fst ps) rs)) = mset rs"
    using foldl_updates_all [of "zip (map fst ps) rs" bids] fsts by simp
  moreover have "results = sort_key bid_id rs \<and>
    e' = e\<lparr>auctions_by_id := put k (a\<lparr>auction_status := AuctionClosed, auction_closed_at := now\<rparr>) (auctions_by_id e),
      bids_by_auction := (if bids = [] then bids_by_auction e
        else put k (foldl (\<lambda>bs (i, b). bs[i := b]) bids (zip (map fst ps) rs)) (bids_by_auction e))\<rparr>"
    using closed a by (simp add: close_auction_def Let_def bids ps_def rs_def split: if_splits)
  ultimately show ?thesis using order sorted
    by (intro exI [of _ "map snd ps"]) (auto simp: rs_def lookup_or_put bids)
qed

text \<open>C35. Closing an auction whose bids ask for positive amounts that add up to less than 2^63 allots exactly the
  notified amount, or everything asked for where that is less; no bid is changed in its terms or allotted a
  negative amount, nobody is served before a bid with a lower yield is served in full, the stored bids are the ones
  returned, and the auction is closed.\<close>

theorem auction_allots_exactly:
  assumes "close_auction k now e = Inr (results, e')" and "lookup (auctions_by_id e) k = Some a"
    and "bids_ok (lookup_or [] (bids_by_auction e) k)"
  shows "allotments results = min (max 0 (sint (notified_amount a))) (quantities (lookup_or [] (bids_by_auction e) k)) \<and>
      mset (map bid_terms results) = mset (map bid_terms (lookup_or [] (bids_by_auction e) k)) \<and>
      (\<forall>b\<in>set results. 0 \<le> sint (bid_allotted b)) \<and> lower_yields_first results \<and>
      mset (lookup_or [] (bids_by_auction e') k) = mset results \<and>
      map_option auction_status (lookup (auctions_by_id e') k) = Some AuctionClosed"
proof -
  obtain ordered where o: "mset ordered = mset (lookup_or [] (bids_by_auction e) k)" "sorted (map bid_yield ordered)"
      "results = sort_key bid_id (allot_bids (notified_amount a) ordered)"
    and after: "mset (lookup_or [] (bids_by_auction e') k) = mset results"
      "lookup (auctions_by_id e') k = Some (a\<lparr>auction_status := AuctionClosed, auction_closed_at := now\<rparr>)"
    using close_auction_allots [OF assms(1,2) refl assms(3)] by blast
  have q: "quantities ordered = quantities (lookup_or [] (bids_by_auction e) k)"
    using o(1) by (rule sum_list_map_mset)
  then have ok: "bids_ok ordered" using assms(3) mset_eq_setD [OF o(1)] by (simp add: bids_ok_def)
  have m: "mset results = mset (allot_bids (notified_amount a) ordered)" by (simp add: o(3))
  then have s: "set results = set (allot_bids (notified_amount a) ordered)" by (rule mset_eq_setD)
  note al = allot_bids_allots [OF ok, of "notified_amount a", unfolded allots_def]
  have c1: "allotments results = min (max 0 (sint (notified_amount a))) (quantities (lookup_or [] (bids_by_auction e) k))"
    using al q sum_list_map_mset [OF m] by simp
  have c2: "mset (map bid_terms results) = mset (map bid_terms (lookup_or [] (bids_by_auction e) k))"
    using al m o(1) by (metis mset_map)
  have c3: "\<forall>b\<in>set results. 0 \<le> sint (bid_allotted b)" using al s by simp
  have c4: "lower_yields_first results"
    using allot_bids_priority [OF ok o(2), of "notified_amount a"] s by (simp add: lower_yields_first_def)
  have c5: "mset (lookup_or [] (bids_by_auction e') k) = mset results" by (rule after(1))
  have c6: "map_option auction_status (lookup (auctions_by_id e') k) = Some AuctionClosed" by (simp add: after(2))
  show ?thesis using c1 c2 c3 c4 c5 c6 by blast
qed

definition demo_bid :: "string \<Rightarrow> int64 \<Rightarrow> float64 \<Rightarrow> bid" where
  "demo_bid i quantity yield = \<lparr>bid_id = i, bid_auction = ''a'', bid_account = ''acc'', bid_quantity = quantity, bid_yield = yield,
     bid_submitted_at = 0, bid_status = BidSubmitted, bid_allotted = 0\<rparr>"

definition demo_engine :: "int64 \<Rightarrow> bid list \<Rightarrow> auction_engine" where
  "demo_engine amount bids = \<lparr>auctions_by_id = [(''a'', \<lparr>auction_id = ''a'', auction_bond = ''g'', auction_date = 0,
     notified_amount = amount, auction_status = AuctionOpen, auction_closed_at = 0\<rparr>)], bids_by_auction = [(''a'', bids)]\<rparr>"

definition allotted_in :: "auction_error + bid list \<times> auction_engine \<Rightarrow> (string \<times> int64) list" where
  "allotted_in r = (case r of Inl _ \<Rightarrow> [] | Inr (bids, _) \<Rightarrow> map (\<lambda>b. (bid_id b, bid_allotted b)) bids)"

lemmas auction_demo = close_auction_def demo_engine_def demo_bid_def allotted_in_def bid_order_def Let_def
  award_def fill_bid_def reject_bid_def pro_rata_allotment_def signed_divide_int_def word_sle_eq less_eq_prod_def
  lookup_or_def

text \<open>The bid at the lower yield is filled, and the two tied at the cutoff share the other 50.\<close>

lemma demo_auction_closes:
  "isl (close_auction ''a'' 5 (demo_engine 100 [demo_bid ''x'' 60 7, demo_bid ''y'' 40 7, demo_bid ''z'' 50 6])) = False"
  by (simp add: auction_demo)

theorem auction_allots_exactly_witness:
  "\<exists>results e'. close_auction ''a'' 5 (demo_engine 100 [demo_bid ''x'' 60 7, demo_bid ''y'' 40 7, demo_bid ''z'' 50 6]) = Inr (results, e')
     \<and> allotments results = 100 \<and> lower_yields_first results"
proof -
  let ?bids = "[demo_bid ''x'' 60 7, demo_bid ''y'' 40 7, demo_bid ''z'' 50 6]"
  obtain results e' where c: "close_auction ''a'' 5 (demo_engine 100 ?bids) = Inr (results, e')"
    using demo_auction_closes by (metis isl_def old.prod.exhaust sum.exhaust_sel)
  have bids: "lookup_or [] (bids_by_auction (demo_engine 100 ?bids)) ''a'' = ?bids"
    by (simp add: demo_engine_def lookup_or_def)
  have "bids_ok ?bids" by (simp add: bids_ok_def demo_bid_def)
  then show ?thesis
    using auction_allots_exactly [OF c, of "\<lparr>auction_id = ''a'', auction_bond = ''g'', auction_date = 0,
     notified_amount = 100, auction_status = AuctionOpen, auction_closed_at = 0\<rparr>"] c bids
    by (simp add: demo_engine_def demo_bid_def)
qed

text \<open>The last of the tied bids takes what truncation leaves, which can be more than it asked for: three bids for 1
  share 2 as 0, 0 and 2.\<close>

theorem last_tied_bid_over_allotted:
  "allotted_in (close_auction ''a'' 5 (demo_engine 2 [demo_bid ''x'' 1 7, demo_bid ''y'' 1 7, demo_bid ''z'' 1 7]))
     = [(''x'', 0), (''y'', 0), (''z'', 2)]"
  by (simp add: auction_demo)

text \<open>The total of a tied group wraps around: two bids of 2^62 count as a negative total, so both are allotted in full
  in an auction of 100.\<close>

theorem tied_bids_overflow:
  "allotted_in (close_auction ''a'' 5 (demo_engine 100 [demo_bid ''x'' (2 ^ 62) 7, demo_bid ''y'' (2 ^ 62) 7]))
     = [(''x'', 2 ^ 62), (''y'', 2 ^ 62)]"
  by (simp add: auction_demo)

end
