(* ===== verification/FundOrders.thy ===== *)
theory FundOrders
  imports GoFloat GoCalendar
begin

text \<open>
  Mutual fund orders and systematic investment plans of services/mutual-funds/internal:
  fundcatalog/schemeCatalog.go, amcrouting/amcOrderRouter.go and sipscheduler/sipScheduler.go. Order and
  plan identifiers are arguments; an absent one is a failed random source. The two sweeps collect what is
  due under the mutex, release it, and go on item by item: the collection and the step for one item are
  separate definitions.
\<close>

section \<open>The catalog\<close>

datatype scheme_category = EquityScheme | DebtScheme | HybridScheme

record scheme =
  scheme_id :: string
  scheme_name :: string
  scheme_category :: scheme_category
  current_nav :: int64

definition seed_schemes :: "scheme list" where
  "seed_schemes =
    [\<lparr>scheme_id = ''MF-EQ-BLUECHIP001'', scheme_name = ''Mercurius Bluechip Equity Fund'', scheme_category = EquityScheme, current_nav = 45237\<rparr>,
     \<lparr>scheme_id = ''MF-EQ-MIDCAP002'', scheme_name = ''Mercurius Midcap Growth Fund'', scheme_category = EquityScheme, current_nav = 12890\<rparr>,
     \<lparr>scheme_id = ''MF-DT-LIQUID003'', scheme_name = ''Mercurius Liquid Debt Fund'', scheme_category = DebtScheme, current_nav = 100000\<rparr>,
     \<lparr>scheme_id = ''MF-HY-BALANCED004'', scheme_name = ''Mercurius Balanced Hybrid Fund'', scheme_category = HybridScheme, current_nav = 8765\<rparr>,
     \<lparr>scheme_id = ''MF-DT-CORPBOND005'', scheme_name = ''Mercurius Corporate Bond Fund'', scheme_category = DebtScheme, current_nav = 4520\<rparr>]"

definition new_fund_catalog :: "scheme table" where
  "new_fund_catalog = foldl (\<lambda>t s. put (scheme_id s) s t) [] seed_schemes"

definition list_schemes :: "scheme table \<Rightarrow> scheme list" where
  "list_schemes catalog = sort_key scheme_id (map snd catalog)"

datatype fund_error = UnknownScheme | InvalidNav | InvalidFundAmount | InvalidUnits | InsufficientUnits | FundIdFailed
  | UnsupportedFrequency | InvalidStepUp | MissingFundAccount | ZeroStartDate | PlanNotFound | PlanNotActive | PlanNotPaused
  | PlanAlreadyCancelled

definition update_nav :: "string \<Rightarrow> int64 \<Rightarrow> scheme table \<Rightarrow> fund_error + scheme table" where
  "update_nav k nav catalog = (if nav \<le>s 0 then Inl InvalidNav else
     case lookup catalog k of None \<Rightarrow> Inl UnknownScheme | Some s \<Rightarrow> Inr (put k (s\<lparr>current_nav := nav\<rparr>) catalog))"

section \<open>The router\<close>

datatype fund_order_type = Purchase | Redemption

datatype fund_order_status = OrderPending | OrderConfirmed

record fund_order =
  fund_order_id :: string
  fund_account :: string
  fund_scheme :: string
  fund_order_type :: fund_order_type
  amount_invested :: int64
  units_requested :: float64
  placed_at :: instant
  eligible_at :: instant
  confirmed_at :: instant
  nav_at_confirmation :: int64
  units_allocated :: float64
  amount_credited :: int64
  fund_order_status :: fund_order_status

record fund_holding =
  holding_scheme :: string
  total_units :: float64
  reserved_units :: float64

record amc_router =
  confirmation_delay :: duration
  orders_by_id :: "fund_order table"
  fund_holdings :: "(string \<times> fund_holding table) list"

definition new_amc_router :: "duration \<Rightarrow> amc_router" where
  "new_amc_router delay = \<lparr>confirmation_delay = delay, orders_by_id = [], fund_holdings = []\<rparr>"

definition available_units :: "fund_holding \<Rightarrow> float64" where
  "available_units h = float_sub (total_units h) (reserved_units h)"

definition math_round :: "float64 \<Rightarrow> float64" where
  "math_round x = (if x < 0 then of_int (- \<lfloor>- x + 1 / 2\<rfloor>) else of_int \<lfloor>x + 1 / 2\<rfloor>)"

definition round_units :: "float64 \<Rightarrow> float64" where
  "round_units units = float_div (math_round (float_mul units 10000)) 10000"

definition unit_epsilon :: float64 where
  "unit_epsilon = round_float (1 / 10 ^ 9)"

definition lookup_or_create_holding :: "string \<Rightarrow> string \<Rightarrow> amc_router \<Rightarrow> fund_holding \<times> amc_router" where
  "lookup_or_create_holding account k r = (case nested_lookup (fund_holdings r) account k of
     Some h \<Rightarrow> (h, r)
   | None \<Rightarrow> let h = \<lparr>holding_scheme = k, total_units = 0, reserved_units = 0\<rparr>
       in (h, r\<lparr>fund_holdings := nested_put account k h (fund_holdings r)\<rparr>))"

definition new_fund_order :: "string \<Rightarrow> string \<Rightarrow> string \<Rightarrow> instant \<Rightarrow> amc_router \<Rightarrow> fund_order" where
  "new_fund_order i account k now r = \<lparr>fund_order_id = i, fund_account = account, fund_scheme = k, fund_order_type = Purchase,
     amount_invested = 0, units_requested = 0, placed_at = now, eligible_at = time_add now (confirmation_delay r),
     confirmed_at = zero_time, nav_at_confirmation = 0, units_allocated = 0, amount_credited = 0, fund_order_status = OrderPending\<rparr>"

definition place_purchase_order :: "scheme table \<Rightarrow> string option \<Rightarrow> string \<Rightarrow> string \<Rightarrow> int64 \<Rightarrow> instant \<Rightarrow> amc_router \<Rightarrow>
    fund_error + fund_order \<times> amc_router" where
  "place_purchase_order catalog new_id account k amount now r =
    (if amount \<le>s 0 then Inl InvalidFundAmount else
     case lookup catalog k of None \<Rightarrow> Inl UnknownScheme | Some _ \<Rightarrow>
       (case new_id of None \<Rightarrow> Inl FundIdFailed | Some i \<Rightarrow>
         let o1 = (new_fund_order i account k now r)\<lparr>amount_invested := amount\<rparr>
         in Inr (o1, r\<lparr>orders_by_id := put i o1 (orders_by_id r)\<rparr>)))"

text \<open>A refused redemption has created the empty holding all the same.\<close>

definition place_redemption_order :: "scheme table \<Rightarrow> string option \<Rightarrow> string \<Rightarrow> string \<Rightarrow> float64 \<Rightarrow> instant \<Rightarrow> amc_router \<Rightarrow>
    (fund_error + fund_order) \<times> amc_router" where
  "place_redemption_order catalog new_id account k units now r =
    (if units \<le> 0 then (Inl InvalidUnits, r) else
     case lookup catalog k of None \<Rightarrow> (Inl UnknownScheme, r) | Some _ \<Rightarrow>
       (let (h, r1) = lookup_or_create_holding account k r in
        if float_add (available_units h) unit_epsilon < units then (Inl InsufficientUnits, r1)
        else case new_id of None \<Rightarrow> (Inl FundIdFailed, r1) | Some i \<Rightarrow>
          let o1 = (new_fund_order i account k now r)\<lparr>fund_order_type := Redemption, units_requested := units\<rparr>
          in (Inr o1, r1\<lparr>orders_by_id := put i o1 (orders_by_id r1),
                fund_holdings := nested_put account k (h\<lparr>reserved_units := float_add (reserved_units h) units\<rparr>) (fund_holdings r1)\<rparr>)))"

definition order_due :: "instant \<Rightarrow> fund_order \<Rightarrow> bool" where
  "order_due now ord = (fund_order_status ord = OrderPending \<and> \<not> time_before now (eligible_at ord))"

definition due_order_ids :: "instant \<Rightarrow> amc_router \<Rightarrow> string list" where
  "due_order_ids now r = sort_key (\<lambda>k. k) (map fst (filter (\<lambda>(k, ord). order_due now ord) (orders_by_id r)))"

text \<open>What confirming an order at a net asset value writes to the order and to the holding.\<close>

definition settle_order :: "int64 \<Rightarrow> instant \<Rightarrow> fund_order \<Rightarrow> fund_order" where
  "settle_order nav now ord =
    (let o1 = ord\<lparr>nav_at_confirmation := nav, confirmed_at := now, fund_order_status := OrderConfirmed\<rparr> in
     case fund_order_type ord of
       Purchase \<Rightarrow> o1\<lparr>units_allocated := round_units (float_div (float_of_int64 (amount_invested ord)) (float_of_int64 nav))\<rparr>
     | Redemption \<Rightarrow> o1\<lparr>amount_credited := int64_of_float (math_round (float_mul (units_requested ord) (float_of_int64 nav)))\<rparr>)"

definition settle_holding :: "int64 \<Rightarrow> fund_order \<Rightarrow> fund_holding \<Rightarrow> fund_holding" where
  "settle_holding nav ord h = (case fund_order_type ord of
     Purchase \<Rightarrow> h\<lparr>total_units := round_units (float_add (total_units h)
       (round_units (float_div (float_of_int64 (amount_invested ord)) (float_of_int64 nav))))\<rparr>
   | Redemption \<Rightarrow> h\<lparr>total_units := round_units (float_sub (total_units h) (units_requested ord)),
       reserved_units := round_units (float_sub (reserved_units h) (units_requested ord))\<rparr>)"

definition confirm_order :: "scheme table \<Rightarrow> instant \<Rightarrow> string \<Rightarrow> amc_router \<Rightarrow> (string + string) \<times> amc_router" where
  "confirm_order catalog now i r = (case lookup (orders_by_id r) i of
     None \<Rightarrow> (Inr i, r)
   | Some ord \<Rightarrow> (case lookup catalog (fund_scheme ord) of
       None \<Rightarrow> (Inr i, r)
     | Some s \<Rightarrow>
         let (h, r1) = lookup_or_create_holding (fund_account ord) (fund_scheme ord) r
         in (Inl i, r1\<lparr>orders_by_id := put i (settle_order (current_nav s) now ord) (orders_by_id r1),
               fund_holdings := nested_put (fund_account ord) (fund_scheme ord) (settle_holding (current_nav s) ord h) (fund_holdings r1)\<rparr>)))"

fun confirm_orders :: "scheme table \<Rightarrow> instant \<Rightarrow> string list \<Rightarrow> amc_router \<Rightarrow> (string list \<times> string list) \<times> amc_router" where
  "confirm_orders catalog now [] r = (([], []), r)"
| "confirm_orders catalog now (i # rest) r =
    (let (res, r1) = confirm_order catalog now i r; ((confirmed, failed), r2) = confirm_orders catalog now rest r1
     in ((case res of Inl c \<Rightarrow> (c # confirmed, failed) | Inr f \<Rightarrow> (confirmed, f # failed)), r2))"

definition confirm_due_orders :: "scheme table \<Rightarrow> instant \<Rightarrow> amc_router \<Rightarrow> (string list \<times> string list) \<times> amc_router" where
  "confirm_due_orders catalog now r = confirm_orders catalog now (due_order_ids now r) r"

definition holdings_for_account :: "string \<Rightarrow> amc_router \<Rightarrow> fund_holding list" where
  "holdings_for_account account r = sort_key holding_scheme
    (filter (\<lambda>h. total_units h \<noteq> 0 \<or> reserved_units h \<noteq> 0) (map snd (lookup_or [] (fund_holdings r) account)))"

definition orders_for_account :: "string \<Rightarrow> amc_router \<Rightarrow> fund_order list" where
  "orders_for_account account r = sort_key placed_at (filter (\<lambda>ord. fund_account ord = account) (map snd (orders_by_id r)))"

section \<open>The plans\<close>

datatype plan_status = PlanActive | PlanPaused | PlanCancelled

record sip =
  sip_id :: string
  sip_account :: string
  sip_scheme :: string
  base_installment :: int64
  current_installment :: int64
  sip_frequency :: string
  sip_start :: instant
  next_due :: instant
  step_up_percent :: float64
  installments_executed :: int64
  plan_status :: plan_status
  sip_created_at :: instant

record sip_result =
  result_sip :: string
  result_order :: string
  result_amount :: int64
  result_executed_at :: instant
  result_next_due :: instant

definition monthly :: string where
  "monthly = ''MONTHLY''"

definition register_sip :: "scheme table \<Rightarrow> string option \<Rightarrow> string \<Rightarrow> string \<Rightarrow> int64 \<Rightarrow> string \<Rightarrow> instant \<Rightarrow> float64 \<Rightarrow> sip table \<Rightarrow>
    fund_error + sip \<times> sip table" where
  "register_sip catalog new_id account k amount frequency start percent sips =
    (if account = [] then Inl MissingFundAccount else if amount \<le>s 0 then Inl InvalidFundAmount
     else if frequency \<noteq> monthly then Inl UnsupportedFrequency else if start = zero_time then Inl ZeroStartDate
     else if percent < 0 \<or> 100 < percent then Inl InvalidStepUp
     else case lookup catalog k of None \<Rightarrow> Inl UnknownScheme | Some _ \<Rightarrow>
       (case new_id of None \<Rightarrow> Inl FundIdFailed | Some i \<Rightarrow>
         let p = \<lparr>sip_id = i, sip_account = account, sip_scheme = k, base_installment = amount, current_installment = amount,
               sip_frequency = frequency, sip_start = start, next_due = start, step_up_percent = percent, installments_executed = 0,
               plan_status = PlanActive, sip_created_at = start\<rparr>
         in Inr (p, put i p sips)))"

definition pause_sip :: "string \<Rightarrow> sip table \<Rightarrow> fund_error + sip table" where
  "pause_sip i sips = (case lookup sips i of None \<Rightarrow> Inl PlanNotFound | Some p \<Rightarrow>
     if plan_status p = PlanCancelled then Inl PlanAlreadyCancelled else if plan_status p \<noteq> PlanActive then Inl PlanNotActive
     else Inr (put i (p\<lparr>plan_status := PlanPaused\<rparr>) sips))"

definition resume_sip :: "string \<Rightarrow> sip table \<Rightarrow> fund_error + sip table" where
  "resume_sip i sips = (case lookup sips i of None \<Rightarrow> Inl PlanNotFound | Some p \<Rightarrow>
     if plan_status p = PlanCancelled then Inl PlanAlreadyCancelled else if plan_status p \<noteq> PlanPaused then Inl PlanNotPaused
     else Inr (put i (p\<lparr>plan_status := PlanActive\<rparr>) sips))"

definition cancel_sip :: "string \<Rightarrow> sip table \<Rightarrow> fund_error + sip table" where
  "cancel_sip i sips = (case lookup sips i of None \<Rightarrow> Inl PlanNotFound | Some p \<Rightarrow>
     if plan_status p = PlanCancelled then Inl PlanAlreadyCancelled else Inr (put i (p\<lparr>plan_status := PlanCancelled\<rparr>) sips))"

definition sips_for_account :: "string \<Rightarrow> sip table \<Rightarrow> sip list" where
  "sips_for_account account sips = sort_key sip_created_at (filter (\<lambda>p. sip_account p = account) (map snd sips))"

section \<open>Installments\<close>

lemma add_date_next_year:
  "add_date offset years 0 0 t + 364 * day_nanos \<le> add_date offset (years + 1) 0 0 t"
proof -
  obtain y m d where ymd: "date_of_day (civil_day offset t) = (y, m, d)" by (metis prod_cases3)
  have "1 \<le> m" "m \<le> 12" using date_of_day_valid [OF ymd] by simp_all
  then have z: "(m - 1) div 12 = 0" by (simp add: div_pos_pos_trivial)
  have months: "days_before_month (y + years) m' \<le> days_before_month (y + years + 1) m' + 1" for m'
    by (simp add: days_before_month_def)
  have "day_of_date (y + years) m d + 364 \<le> day_of_date (y + years + 1) m d"
    using days_in_year [of "y + years"] months [of "(m - 1) mod 12 + 1"]
    unfolding day_of_date_def z Let_def by (simp split: if_splits)
  then have "(day_of_date (y + years) m d + 364) * day_nanos \<le> day_of_date (y + years + 1) m d * day_nanos"
    by (rule mult_right_mono) (simp add: less_imp_le)
  then show ?thesis by (simp add: add_date_def ymd algebra_simps)
qed

text \<open>The loop that counts the full years from the start to the due date.\<close>

function years_elapsed :: "int \<Rightarrow> instant \<Rightarrow> instant \<Rightarrow> nat \<Rightarrow> nat" where
  "years_elapsed offset start due n =
    (if \<not> time_after (add_date offset (int n + 1) 0 0 start) due then years_elapsed offset start due (n + 1) else n)"
  by pat_completeness auto

termination
proof (relation "measure (\<lambda>(offset, start, due, n). nat (due + 1 - add_date offset (int n + 1) 0 0 start))", goal_cases)
  case (2 offset start due n)
  have "add_date offset (int n + 1) 0 0 start < add_date offset (int n + 1 + 1) 0 0 start"
    using add_date_next_year [of offset "int n + 1" start] day_nanos_pos by linarith
  then show ?case using 2 by (simp add: time_after_def)
qed simp

declare years_elapsed.simps [simp del]

text \<open>\<open>math.Pow\<close> with a small natural exponent: the mantissa of the base, between a half and one, is squared while the
  exponent of the base is doubled, and the two parts of the result are gathered separately.\<close>

function pow_loop :: "nat \<Rightarrow> float64 \<Rightarrow> int \<Rightarrow> float64 \<Rightarrow> int \<Rightarrow> float64 \<times> int" where
  "pow_loop i x1 xe a1 ae =
    (if i = 0 then (a1, ae)
     else let (a1', ae') = (if i mod 2 = 1 then (float_mul a1 x1, ae + xe) else (a1, ae));
              x2 = float_mul x1 x1
          in if x2 < 1 / 2 then pow_loop (i div 2) (float_add x2 x2) (xe * 2 - 1) a1' ae'
             else pow_loop (i div 2) x2 (xe * 2) a1' ae')"
  by pat_completeness auto

termination
  by (relation "measure (\<lambda>(i, x1, xe, a1, ae). i)") auto

declare pow_loop.simps [simp del]

definition math_pow :: "float64 \<Rightarrow> nat \<Rightarrow> float64" where
  "math_pow x n = (if n = 0 \<or> x = 1 then 1 else if n = 1 then x else
     let e = binary_exponent x + 1; (a1, ae) = pow_loop n (x / 2 powi e) e 1 0 in round_float (a1 * 2 powi ae))"

definition installment_amount :: "int \<Rightarrow> sip \<Rightarrow> instant \<Rightarrow> int64" where
  "installment_amount offset p due =
    (if step_up_percent p = 0 then base_installment p
     else let years = years_elapsed offset (sip_start p) due 0;
              multiplier = math_pow (float_add 1 (float_div (step_up_percent p) 100)) years
          in int64_of_float (math_round (float_mul (float_of_int64 (base_installment p)) multiplier)))"

definition plan_due :: "instant \<Rightarrow> sip \<Rightarrow> bool" where
  "plan_due now p = (plan_status p = PlanActive \<and> \<not> time_before now (next_due p))"

definition due_sip_ids :: "instant \<Rightarrow> sip table \<Rightarrow> string list" where
  "due_sip_ids now sips = sort_key (\<lambda>k. k) (map fst (filter (\<lambda>(k, p). plan_due now p) sips))"

text \<open>One plan of a sweep: its purchase order, and its schedule where the order was placed.\<close>

definition execute_sip :: "int \<Rightarrow> scheme table \<Rightarrow> (string \<Rightarrow> string option) \<Rightarrow> instant \<Rightarrow> string \<Rightarrow> sip table \<times> amc_router \<Rightarrow>
    (sip_result + string) \<times> sip table \<times> amc_router" where
  "execute_sip offset catalog new_ids now i s = (case s of (sips, r) \<Rightarrow>
     (case lookup sips i of None \<Rightarrow> (Inr i, sips, r) | Some p \<Rightarrow>
        let amount = installment_amount offset p (next_due p) in
        case place_purchase_order catalog (new_ids i) (sip_account p) (sip_scheme p) amount now r of
          Inl _ \<Rightarrow> (Inr i, sips, r)
        | Inr (ord, r1) \<Rightarrow>
            let next = add_date offset 0 1 0 (next_due p)
            in (Inl \<lparr>result_sip = i, result_order = fund_order_id ord, result_amount = amount, result_executed_at = now,
                  result_next_due = next\<rparr>,
                put i (p\<lparr>current_installment := amount, installments_executed := installments_executed p + 1, next_due := next\<rparr>) sips, r1)))"

fun execute_sips :: "int \<Rightarrow> scheme table \<Rightarrow> (string \<Rightarrow> string option) \<Rightarrow> instant \<Rightarrow> string list \<Rightarrow> sip table \<times> amc_router \<Rightarrow>
    (sip_result list \<times> string list) \<times> sip table \<times> amc_router" where
  "execute_sips offset catalog new_ids now [] s = (([], []), s)"
| "execute_sips offset catalog new_ids now (i # rest) s =
    (let (res, s1) = execute_sip offset catalog new_ids now i s;
         ((executed, failed), s2) = execute_sips offset catalog new_ids now rest s1
     in ((case res of Inl x \<Rightarrow> (x # executed, failed) | Inr f \<Rightarrow> (executed, f # failed)), s2))"

definition sweep_due_sips :: "int \<Rightarrow> scheme table \<Rightarrow> (string \<Rightarrow> string option) \<Rightarrow> instant \<Rightarrow> sip table \<times> amc_router \<Rightarrow>
    (sip_result list \<times> string list) \<times> sip table \<times> amc_router" where
  "sweep_due_sips offset catalog new_ids now s = execute_sips offset catalog new_ids now (due_sip_ids now (fst s)) s"

text \<open>The year count: the start plus that many years is not after the due date (where any year is over), one more is.\<close>

lemma years_elapsed_spec:
  "add_date offset (int (years_elapsed offset start due n) + 1) 0 0 start > due \<and> n \<le> years_elapsed offset start due n \<and>
   (n < years_elapsed offset start due n \<longrightarrow> add_date offset (int (years_elapsed offset start due n)) 0 0 start \<le> due)"
proof (induction offset start due n rule: years_elapsed.induct)
  case (1 offset start due n)
  show ?case
  proof (cases "time_after (add_date offset (int n + 1) 0 0 start) due")
    case True
    then show ?thesis by (simp add: years_elapsed.simps time_after_def)
  next
    case False
    have eq: "years_elapsed offset start due n = years_elapsed offset start due (n + 1)"
      using False by (simp add: years_elapsed.simps [of offset start due n])
    let ?k = "years_elapsed offset start due (n + 1)"
    have "add_date offset (int ?k) 0 0 start \<le> due" if "\<not> n + 1 < ?k"
    proof -
      have "?k = n + 1" using that 1 [OF False] by simp
      then show ?thesis using False by (simp only: time_after_def not_less) (simp add: add.commute)
    qed
    then show ?thesis using 1 [OF False] unfolding eq by auto
  qed
qed

section \<open>What a sweep of the plans does\<close>

text \<open>The order of the next installment of a plan, where it can be placed.\<close>

definition installment_order :: "int \<Rightarrow> scheme table \<Rightarrow> (string \<Rightarrow> string option) \<Rightarrow> instant \<Rightarrow> amc_router \<Rightarrow> string \<Rightarrow> sip \<Rightarrow> fund_order option" where
  "installment_order offset catalog new_ids now r i p =
    (if installment_amount offset p (next_due p) \<le>s 0 \<or> lookup catalog (sip_scheme p) = None then None else
     map_option (\<lambda>k. (new_fund_order k (sip_account p) (sip_scheme p) now r)\<lparr>amount_invested := installment_amount offset p (next_due p)\<rparr>)
       (new_ids i))"

definition advanced :: "int \<Rightarrow> sip \<Rightarrow> sip" where
  "advanced offset p = p\<lparr>current_installment := installment_amount offset p (next_due p),
     installments_executed := installments_executed p + 1, next_due := add_date offset 0 1 0 (next_due p)\<rparr>"

definition receipt :: "int \<Rightarrow> instant \<Rightarrow> string \<Rightarrow> sip \<Rightarrow> fund_order \<Rightarrow> sip_result" where
  "receipt offset now i p ord = \<lparr>result_sip = i, result_order = fund_order_id ord, result_amount = amount_invested ord,
     result_executed_at = now, result_next_due = next_due (advanced offset p)\<rparr>"

lemma receipt_sip [simp]: "result_sip (receipt offset now i p ord) = i"
  by (simp add: receipt_def)

lemma execute_sip_cases:
  "execute_sip offset catalog new_ids now i (sips, r) =
    (case lookup sips i of None \<Rightarrow> (Inr i, sips, r) | Some p \<Rightarrow>
      (case installment_order offset catalog new_ids now r i p of None \<Rightarrow> (Inr i, sips, r)
       | Some ord \<Rightarrow> (Inl (receipt offset now i p ord),
           put i (advanced offset p) sips, r\<lparr>orders_by_id := put (fund_order_id ord) ord (orders_by_id r)\<rparr>)))"
  by (auto simp: execute_sip_def place_purchase_order_def installment_order_def advanced_def receipt_def new_fund_order_def Let_def
      split: option.splits)

lemma installment_order_router:
  "confirmation_delay r = confirmation_delay r' \<Longrightarrow>
    installment_order offset catalog new_ids now r = installment_order offset catalog new_ids now r'"
  by (intro ext) (simp add: installment_order_def new_fund_order_def)

lemma installment_order_orders [simp]:
  "installment_order offset catalog new_ids now (r\<lparr>orders_by_id := t\<rparr>) = installment_order offset catalog new_ids now r"
  by (rule installment_order_router) simp

lemma installment_order_id:
  "installment_order offset catalog new_ids now r i p = Some ord \<Longrightarrow> new_ids i = Some (fund_order_id ord)"
  by (auto simp: installment_order_def new_fund_order_def split: if_splits)

text \<open>The plans of a sweep, each with its order or without.\<close>

abbreviation order_of_plan where
  "order_of_plan offset catalog new_ids now s i \<equiv>
    Option.bind (lookup (fst s) i) (installment_order offset catalog new_ids now (snd s) i)"

lemma execute_sips_exact:
  assumes "execute_sips offset catalog new_ids now ids s = ((executed, failed), s')" and "distinct ids"
    and "inj_on new_ids (set ids)"
  shows "map result_sip executed = filter (\<lambda>i. order_of_plan offset catalog new_ids now s i \<noteq> None) ids"
    and "failed = filter (\<lambda>i. order_of_plan offset catalog new_ids now s i = None) ids"
    and "lookup (fst s') i = (if i \<in> set ids \<and> order_of_plan offset catalog new_ids now s i \<noteq> None
           then map_option (advanced offset) (lookup (fst s) i) else lookup (fst s) i)"
    and "i \<in> set ids \<Longrightarrow> order_of_plan offset catalog new_ids now s i = Some ord \<Longrightarrow>
           lookup (orders_by_id (snd s')) (fund_order_id ord) = Some ord"
    and "(\<And>i. i \<in> set ids \<Longrightarrow> order_of_plan offset catalog new_ids now s i \<noteq> None \<Longrightarrow> new_ids i \<noteq> Some k) \<Longrightarrow>
           lookup (orders_by_id (snd s')) k = lookup (orders_by_id (snd s)) k"
    and "x \<in> set executed \<Longrightarrow> \<exists>p ord. lookup (fst s) (result_sip x) = Some p \<and>
           installment_order offset catalog new_ids now (snd s) (result_sip x) p = Some ord \<and> x = receipt offset now (result_sip x) p ord"
    and "fund_holdings (snd s') = fund_holdings (snd s) \<and> confirmation_delay (snd s') = confirmation_delay (snd s)"
proof -
  have "map result_sip executed = filter (\<lambda>i. order_of_plan offset catalog new_ids now s i \<noteq> None) ids \<and>
    failed = filter (\<lambda>i. order_of_plan offset catalog new_ids now s i = None) ids \<and>
    (\<forall>i. lookup (fst s') i = (if i \<in> set ids \<and> order_of_plan offset catalog new_ids now s i \<noteq> None
           then map_option (advanced offset) (lookup (fst s) i) else lookup (fst s) i)) \<and>
    (\<forall>i\<in>set ids. \<forall>ord. order_of_plan offset catalog new_ids now s i = Some ord \<longrightarrow>
           lookup (orders_by_id (snd s')) (fund_order_id ord) = Some ord) \<and>
    (\<forall>k. (\<forall>i\<in>set ids. order_of_plan offset catalog new_ids now s i \<noteq> None \<longrightarrow> new_ids i \<noteq> Some k) \<longrightarrow>
           lookup (orders_by_id (snd s')) k = lookup (orders_by_id (snd s)) k) \<and>
    (\<forall>x\<in>set executed. \<exists>p ord. lookup (fst s) (result_sip x) = Some p \<and>
           installment_order offset catalog new_ids now (snd s) (result_sip x) p = Some ord \<and> x = receipt offset now (result_sip x) p ord) \<and>
    fund_holdings (snd s') = fund_holdings (snd s) \<and> confirmation_delay (snd s') = confirmation_delay (snd s)"
    using assms
  proof (induction ids arbitrary: s executed failed)
    case (Cons j ids)
    obtain sips r where s: "s = (sips, r)" by (cases s)
    obtain res s1 where one: "execute_sip offset catalog new_ids now j s = (res, s1)" by (cases "execute_sip offset catalog new_ids now j s")
    obtain ex fl where rest: "execute_sips offset catalog new_ids now ids s1 = ((ex, fl), s')"
      using Cons.prems(1) by (simp add: one split: prod.splits)
    have all: "executed = (case res of Inl x \<Rightarrow> x # ex | Inr _ \<Rightarrow> ex)" "failed = (case res of Inl _ \<Rightarrow> fl | Inr f \<Rightarrow> f # fl)"
      using Cons.prems(1) by (simp_all add: one rest split: sum.splits)
    have inj: "inj_on new_ids (set ids)" "j \<notin> set ids" "distinct ids" "new_ids j \<notin> new_ids ` set ids"
      using Cons.prems(2,3) by auto
    note IH = Cons.IH [OF rest inj(3,1)]
    have delay: "confirmation_delay (snd s1) = confirmation_delay r"
      using one by (auto simp: s execute_sip_cases split: option.splits)
    then have same: "order_of_plan offset catalog new_ids now s1 i = order_of_plan offset catalog new_ids now s i" if "i \<in> set ids" for i
      using one inj(2) that installment_order_router [of "snd s1" r] by (auto simp: s execute_sip_cases split: option.splits)
    show ?case
    proof (cases "order_of_plan offset catalog new_ids now s j")
      case None
      then have "s1 = s" "res = Inr j" using one by (auto simp: s execute_sip_cases split: option.splits)
      then show ?thesis using IH None by (auto simp: all)
    next
      case (Some ord)
      have ids: "result_sip x \<in> set ids" if "x \<in> set ex" for x
        using IH imageI [OF that, of result_sip] by (metis (no_types, lifting) filter_is_subset image_set subsetD)
      from Some obtain p where p: "lookup sips j = Some p" "installment_order offset catalog new_ids now r j p = Some ord"
        by (auto simp: s bind_eq_Some_conv)
      have res: "res = Inl (receipt offset now j p ord)" and s1: "s1 = (put j (advanced offset p) sips, r\<lparr>orders_by_id := put (fund_order_id ord) ord (orders_by_id r)\<rparr>)"
        using one p by (auto simp: s execute_sip_cases)
      have id: "new_ids j = Some (fund_order_id ord)" by (rule installment_order_id [OF p(2)])
      have fresh: "new_ids i \<noteq> Some (fund_order_id ord)" if "i \<in> set ids" for i
        using inj(4) id that by (metis imageI)
      then have own: "lookup (orders_by_id (snd s')) (fund_order_id ord) = Some ord" using IH by (simp add: s1)
      have receipts: "\<exists>p ord. lookup (fst s) (result_sip x) = Some p \<and>
           installment_order offset catalog new_ids now (snd s) (result_sip x) p = Some ord \<and> x = receipt offset now (result_sip x) p ord"
        if "x \<in> set executed" for x
      proof (cases "x = receipt offset now j p ord")
        case True
        then show ?thesis using p by (auto simp: s)
      next
        case False
        then have x: "x \<in> set ex" using that by (auto simp: all res)
        then have other: "result_sip x \<noteq> j" using ids [OF x] inj(2) by metis
        have "\<exists>p ord. lookup (fst s1) (result_sip x) = Some p \<and>
            installment_order offset catalog new_ids now (snd s1) (result_sip x) p = Some ord \<and> x = receipt offset now (result_sip x) p ord"
          using IH x by blast
        then show ?thesis using other by (auto simp: s s1)
      qed
      show ?thesis using IH same Some res p id inj(2) own receipts by (auto simp: all s s1 cong: filter_cong)
    qed
  qed simp
  then show "map result_sip executed = filter (\<lambda>i. order_of_plan offset catalog new_ids now s i \<noteq> None) ids"
    and "failed = filter (\<lambda>i. order_of_plan offset catalog new_ids now s i = None) ids"
    and "lookup (fst s') i = (if i \<in> set ids \<and> order_of_plan offset catalog new_ids now s i \<noteq> None
           then map_option (advanced offset) (lookup (fst s) i) else lookup (fst s) i)"
    and "i \<in> set ids \<Longrightarrow> order_of_plan offset catalog new_ids now s i = Some ord \<Longrightarrow>
           lookup (orders_by_id (snd s')) (fund_order_id ord) = Some ord"
    and "(\<And>i. i \<in> set ids \<Longrightarrow> order_of_plan offset catalog new_ids now s i \<noteq> None \<Longrightarrow> new_ids i \<noteq> Some k) \<Longrightarrow>
           lookup (orders_by_id (snd s')) k = lookup (orders_by_id (snd s)) k"
    and "x \<in> set executed \<Longrightarrow> \<exists>p ord. lookup (fst s) (result_sip x) = Some p \<and>
           installment_order offset catalog new_ids now (snd s) (result_sip x) p = Some ord \<and> x = receipt offset now (result_sip x) p ord"
    and "fund_holdings (snd s') = fund_holdings (snd s) \<and> confirmation_delay (snd s') = confirmation_delay (snd s)"
    by blast+
qed

lemma due_sip_ids_set: "table_ok sips \<Longrightarrow> i \<in> set (due_sip_ids now sips) \<longleftrightarrow> (\<exists>p. lookup sips i = Some p \<and> plan_due now p)"
  using lookup_in_set [of sips i] by (force simp: due_sip_ids_def)

lemma due_sip_ids_distinct: "table_ok sips \<Longrightarrow> distinct (due_sip_ids now sips)"
  by (auto simp: due_sip_ids_def table_ok_def distinct_map intro: inj_on_subset)

text \<open>The order that a sweep places for a plan: that of its current installment, where the plan is active and due.\<close>

definition charge_of :: "int \<Rightarrow> scheme table \<Rightarrow> (string \<Rightarrow> string option) \<Rightarrow> instant \<Rightarrow> sip table \<times> amc_router \<Rightarrow> string \<Rightarrow> fund_order option" where
  "charge_of offset catalog new_ids now s i = (case lookup (fst s) i of
     None \<Rightarrow> None
   | Some p \<Rightarrow> if plan_due now p then installment_order offset catalog new_ids now (snd s) i p else None)"

text \<open>C37. A sweep of the plans places, for every active plan whose due date has come and whose order can be
  placed, exactly the purchase order of its current installment, under a new identifier, and no other: the orders of the
  router are the earlier ones, unless the identifier of an installment repeats theirs, and these. It moves each charged plan,
  and no other, on to its next due date, and reports it with the order, its amount and that date. The plans whose order
  cannot be placed are reported and stay due; no unit is allotted by the sweep. The new identifiers are distinct for
  distinct plans.\<close>

theorem sips_charged_exactly:
  assumes "sweep_due_sips offset catalog new_ids now (sips, r) = ((executed, failed), sips', r')"
    and "table_ok sips" and "inj_on new_ids (dom (lookup sips))"
  defines "charge \<equiv> charge_of offset catalog new_ids now (sips, r)"
  shows "(\<forall>k ord. lookup (orders_by_id r') k = Some ord \<longleftrightarrow>
      (\<exists>i. charge i = Some ord \<and> fund_order_id ord = k) \<or>
      lookup (orders_by_id r) k = Some ord \<and> (\<forall>i ord'. charge i = Some ord' \<longrightarrow> fund_order_id ord' \<noteq> k)) \<and>
    (\<forall>i. lookup sips' i = map_option (\<lambda>p. if charge i \<noteq> None then advanced offset p else p) (lookup sips i)) \<and>
    map result_sip executed = filter (\<lambda>i. charge i \<noteq> None) (due_sip_ids now sips) \<and>
    (\<forall>x\<in>set executed. \<exists>p ord. lookup sips (result_sip x) = Some p \<and> charge (result_sip x) = Some ord \<and>
      x = receipt offset now (result_sip x) p ord) \<and>
    failed = filter (\<lambda>i. charge i = None) (due_sip_ids now sips) \<and>
    fund_holdings r' = fund_holdings r \<and> confirmation_delay r' = confirmation_delay r"
proof -
  let ?ids = "due_sip_ids now sips"
  have sweep: "execute_sips offset catalog new_ids now ?ids (sips, r) = ((executed, failed), sips', r')"
    using assms(1) by (simp add: sweep_due_sips_def)
  note due = due_sip_ids_set [OF assms(2)]
  have inj: "inj_on new_ids (set ?ids)" by (rule inj_on_subset [OF assms(3)]) (auto simp: due)
  note ex = execute_sips_exact [OF sweep due_sip_ids_distinct [OF assms(2)] inj]
  have charge: "charge i = (if i \<in> set ?ids then order_of_plan offset catalog new_ids now (sips, r) i else None)" for i
    using due [of i now] by (auto simp: charge_def charge_of_def split: option.splits)
  then have same: "filter (\<lambda>i. order_of_plan offset catalog new_ids now (sips, r) i \<noteq> None) ?ids = filter (\<lambda>i. charge i \<noteq> None) ?ids"
      "filter (\<lambda>i. order_of_plan offset catalog new_ids now (sips, r) i = None) ?ids = filter (\<lambda>i. charge i = None) ?ids"
    by (auto intro: filter_cong)
  have placed: "lookup (orders_by_id r') (fund_order_id ord) = Some ord" if "charge i = Some ord" for i ord
    using ex(4) [of i ord] that by (simp add: charge split: if_splits)
  have id: "new_ids i = Some (fund_order_id ord)" if "charge i = Some ord" for i ord
    using that installment_order_id [of offset catalog new_ids now r i] by (auto simp: charge bind_eq_Some_conv split: if_splits)
  have kept: "lookup (orders_by_id r') k = lookup (orders_by_id r) k" if "\<forall>i ord. charge i = Some ord \<longrightarrow> fund_order_id ord \<noteq> k" for k
  proof -
    have "new_ids i \<noteq> Some k" if i: "i \<in> set ?ids" "order_of_plan offset catalog new_ids now (sips, r) i \<noteq> None" for i
    proof -
      obtain ord where "charge i = Some ord" using i charge [of i] by auto
      then show ?thesis using id that \<open>\<forall>i ord. charge i = Some ord \<longrightarrow> fund_order_id ord \<noteq> k\<close> by auto
    qed
    then show ?thesis using ex(5) [of k] by simp
  qed
  have c1: "lookup (orders_by_id r') k = Some ord \<longleftrightarrow>
      (\<exists>i. charge i = Some ord \<and> fund_order_id ord = k) \<or>
      lookup (orders_by_id r) k = Some ord \<and> (\<forall>i ord'. charge i = Some ord' \<longrightarrow> fund_order_id ord' \<noteq> k)" for k ord
  proof (cases "\<exists>i ord'. charge i = Some ord' \<and> fund_order_id ord' = k")
    case True
    then obtain i ord' where i: "charge i = Some ord'" "fund_order_id ord' = k" by blast
    then have "lookup (orders_by_id r') k = Some ord'" using placed by blast
    moreover have "ord'' = ord'" if "charge j = Some ord''" "fund_order_id ord'' = k" for j ord''
      using placed [OF that(1)] that(2) calculation by simp
    ultimately have "(\<exists>i. charge i = Some ord \<and> fund_order_id ord = k) \<longleftrightarrow> lookup (orders_by_id r') k = Some ord"
      using i by (metis option.inject)
    then show ?thesis using i by blast
  next
    case False
    then have "lookup (orders_by_id r') k = lookup (orders_by_id r) k" using kept [of k] by blast
    with False show ?thesis by (simp only:) blast
  qed
  have c2: "lookup sips' i = map_option (\<lambda>p. if charge i \<noteq> None then advanced offset p else p) (lookup sips i)" for i
    using ex(3) [of i] by (cases "lookup sips i") (auto simp: charge)
  have c3: "\<exists>p ord. lookup sips (result_sip x) = Some p \<and> charge (result_sip x) = Some ord \<and> x = receipt offset now (result_sip x) p ord"
    if "x \<in> set executed" for x
  proof -
    have "result_sip x \<in> set ?ids" using ex(1) imageI [OF that, of result_sip] by (metis (no_types, lifting) filter_is_subset image_set subsetD)
    then show ?thesis using ex(6) [OF that] by (auto simp: charge)
  qed
  show ?thesis
    using c1 c2 c3 ex(1) [unfolded same] ex(2) [unfolded same] ex(7) by (intro conjI allI ballI) (assumption | simp)+
qed

definition demo_plan :: "plan_status \<Rightarrow> sip" where
  "demo_plan st = \<lparr>sip_id = ''p'', sip_account = ''acc'', sip_scheme = ''MF-DT-LIQUID003'', base_installment = 500000,
     current_installment = 500000, sip_frequency = monthly, sip_start = 0, next_due = 0, step_up_percent = 0, installments_executed = 0,
     plan_status = st, sip_created_at = 0\<rparr>"

lemma demo_month: "length_of_month 0 0 = 31"
  by (simp add: length_of_month_def civil_day_def unix_epoch_day_def date_of_day_def year_of_day_def days_before_year_def
      month_of_def days_in_month_def days_before_month_simps leap_year_def Let_def)

definition demo_fund_router :: amc_router where
  "demo_fund_router = (new_amc_router 0)\<lparr>orders_by_id := [(''x'', new_fund_order ''x'' ''other'' ''MF-EQ-BLUECHIP001'' 0 (new_amc_router 0))]\<rparr>"

definition demo_plans :: "sip table" where
  "demo_plans = [(''p'', demo_plan PlanActive), (''q'', demo_plan PlanPaused)]"

lemma demo_charges:
  "charge_of 0 new_fund_catalog (\<lambda>i. Some (''o-'' @ i)) 5 (demo_plans, demo_fund_router) i =
    (if i = ''p'' then Some ((new_fund_order ''o-p'' ''acc'' ''MF-DT-LIQUID003'' 5 (new_amc_router 0))\<lparr>amount_invested := 500000\<rparr>) else None)"
  by (simp add: charge_of_def demo_plans_def demo_fund_router_def plan_due_def time_before_def installment_order_def installment_amount_def
      demo_plan_def new_fund_catalog_def seed_schemes_def word_sle_eq)

theorem sips_charged_exactly_witness:
  "\<exists>executed failed sips' r'. sweep_due_sips 0 new_fund_catalog (\<lambda>i. Some (''o-'' @ i)) 5 (demo_plans, demo_fund_router)
     = ((executed, failed), sips', r') \<and> lookup sips' ''p'' = Some (advanced 0 (demo_plan PlanActive)) \<and>
     lookup sips' ''q'' = Some (demo_plan PlanPaused) \<and> map_option amount_invested (lookup (orders_by_id r') ''o-p'') = Some 500000 \<and>
     lookup (orders_by_id r') ''o-q'' = None \<and> lookup (orders_by_id r') ''x'' = lookup (orders_by_id demo_fund_router) ''x''"
proof -
  obtain executed failed sips' r' where s: "sweep_due_sips 0 new_fund_catalog (\<lambda>i. Some (''o-'' @ i)) 5 (demo_plans, demo_fund_router)
      = ((executed, failed), sips', r')"
    by (metis prod.exhaust)
  have "table_ok demo_plans" "inj_on (\<lambda>i. Some (''o-'' @ i)) (dom (lookup demo_plans))"
    by (simp_all add: table_ok_def demo_plans_def inj_on_def)
  note t = sips_charged_exactly [OF s this]
  have orders: "lookup (orders_by_id r') k = Some ord \<longleftrightarrow>
      (\<exists>i. charge_of 0 new_fund_catalog (\<lambda>i. Some (''o-'' @ i)) 5 (demo_plans, demo_fund_router) i = Some ord \<and> fund_order_id ord = k) \<or>
      lookup (orders_by_id demo_fund_router) k = Some ord \<and>
      (\<forall>i ord'. charge_of 0 new_fund_catalog (\<lambda>i. Some (''o-'' @ i)) 5 (demo_plans, demo_fund_router) i = Some ord' \<longrightarrow> fund_order_id ord' \<noteq> k)" for k ord
    using t by blast
  have plans: "lookup sips' i = map_option (\<lambda>p. if charge_of 0 new_fund_catalog (\<lambda>i. Some (''o-'' @ i)) 5 (demo_plans, demo_fund_router) i \<noteq> None
      then advanced 0 p else p) (lookup demo_plans i)" for i
    using t by blast
  have "lookup (orders_by_id r') ''o-p'' = Some ((new_fund_order ''o-p'' ''acc'' ''MF-DT-LIQUID003'' 5 (new_amc_router 0))\<lparr>amount_invested := 500000\<rparr>)"
    unfolding orders demo_charges by (simp add: new_fund_order_def)
  moreover have "lookup (orders_by_id r') ''o-q'' \<noteq> Some ord" for ord
    unfolding orders demo_charges by (auto simp: new_fund_order_def demo_fund_router_def)
  moreover have "lookup (orders_by_id r') ''x'' = Some (new_fund_order ''x'' ''other'' ''MF-EQ-BLUECHIP001'' 0 (new_amc_router 0))"
    unfolding orders demo_charges by (simp add: demo_fund_router_def new_fund_order_def)
  moreover have "lookup sips' ''p'' = Some (advanced 0 (demo_plan PlanActive))" "lookup sips' ''q'' = Some (demo_plan PlanPaused)"
    unfolding plans demo_charges by (simp_all add: demo_plans_def)
  ultimately show ?thesis using s by (auto simp: demo_fund_router_def)
qed

text \<open>A plan paused before its first installment and resumed 40 days after it: the sweep charges the installment that fell
  in the pause, and leaves the plan due again.\<close>

theorem resumed_plan_charged_for_pause:
  "case resume_sip ''p'' [(''p'', demo_plan PlanPaused)] of
     Inl _ \<Rightarrow> False
   | Inr sips \<Rightarrow> (case sweep_due_sips 0 new_fund_catalog (\<lambda>i. Some (''o-'' @ i)) (40 * day_nanos) (sips, new_amc_router 0) of
       ((executed, failed), sips', r') \<Rightarrow> map (\<lambda>x. (result_sip x, result_amount x)) executed = [(''p'', 500000)] \<and>
         due_sip_ids (40 * day_nanos) sips' = [''p''])"
  by (simp add: resume_sip_def demo_plan_def sweep_due_sips_def due_sip_ids_def plan_due_def time_before_def execute_sip_def
      installment_amount_def place_purchase_order_def new_fund_catalog_def seed_schemes_def word_sle_eq new_fund_order_def
      add_date_month demo_month day_nanos_def Let_def)

section \<open>What a sweep of the orders does\<close>

abbreviation holding_of :: "string \<Rightarrow> string \<Rightarrow> amc_router \<Rightarrow> fund_holding" where
  "holding_of account k r \<equiv> nested_get \<lparr>holding_scheme = k, total_units = 0, reserved_units = 0\<rparr> (fund_holdings r) account k"

text \<open>The orders of a list of identifiers that are for one account and scheme, in the order of the list.\<close>

definition orders_of :: "string \<Rightarrow> string \<Rightarrow> string list \<Rightarrow> amc_router \<Rightarrow> fund_order list" where
  "orders_of account k ids r = filter (\<lambda>ord. fund_account ord = account \<and> fund_scheme ord = k) (List.map_filter (lookup (orders_by_id r)) ids)"

definition settled :: "scheme table \<Rightarrow> instant \<Rightarrow> fund_order \<Rightarrow> fund_order" where
  "settled catalog now ord = (case lookup catalog (fund_scheme ord) of None \<Rightarrow> ord | Some s \<Rightarrow> settle_order (current_nav s) now ord)"

definition holding_after :: "scheme table \<Rightarrow> string \<Rightarrow> fund_order list \<Rightarrow> fund_holding \<Rightarrow> fund_holding" where
  "holding_after catalog k ords h =
    (case lookup catalog k of None \<Rightarrow> h | Some s \<Rightarrow> foldl (\<lambda>h ord. settle_holding (current_nav s) ord h) h ords)"

lemma map_filter_agree: "\<forall>x\<in>set xs. f x = g x \<Longrightarrow> List.map_filter f xs = List.map_filter g xs"
  by (induction xs) (auto simp: map_filter_simps split: option.splits)

lemma nested_get_eq: "nested_get d t a k = (case nested_lookup t a k of None \<Rightarrow> d | Some v \<Rightarrow> v)"
  by (simp add: nested_get_def nested_lookup_def lookup_or_def [of d])

lemma confirm_order_orders:
  "lookup (orders_by_id (snd (confirm_order catalog now i r))) j =
    (if j = i then map_option (settled catalog now) (lookup (orders_by_id r) i) else lookup (orders_by_id r) j)"
  by (auto simp: confirm_order_def settled_def lookup_or_create_holding_def Let_def split: option.splits)

lemma confirm_order_holdings:
  "holding_of account k (snd (confirm_order catalog now i r)) = holding_after catalog k (orders_of account k [i] r) (holding_of account k r)"
  by (auto simp: confirm_order_def orders_of_def holding_after_def lookup_or_create_holding_def map_filter_simps nested_get_eq Let_def
      split: option.splits)

lemma confirm_order_result:
  "fst (confirm_order catalog now i r) = (case Option.bind (lookup (orders_by_id r) i) (\<lambda>ord. lookup catalog (fund_scheme ord)) of
     None \<Rightarrow> Inr i | Some _ \<Rightarrow> Inl i)"
  by (auto simp: confirm_order_def Let_def split: option.splits prod.splits)

lemma holding_after_append: "holding_after catalog k (xs @ ys) h = holding_after catalog k ys (holding_after catalog k xs h)"
  by (simp add: holding_after_def split: option.splits)

lemma confirm_orders_exact:
  assumes "distinct ids"
  shows "lookup (orders_by_id (snd (confirm_orders catalog now ids r))) j =
      (if j \<in> set ids then map_option (settled catalog now) (lookup (orders_by_id r) j) else lookup (orders_by_id r) j)"
    and "holding_of account k (snd (confirm_orders catalog now ids r)) =
      holding_after catalog k (orders_of account k ids r) (holding_of account k r)"
proof -
  have "(\<forall>j. lookup (orders_by_id (snd (confirm_orders catalog now ids r))) j =
      (if j \<in> set ids then map_option (settled catalog now) (lookup (orders_by_id r) j) else lookup (orders_by_id r) j)) \<and>
      holding_of account k (snd (confirm_orders catalog now ids r)) =
      holding_after catalog k (orders_of account k ids r) (holding_of account k r)"
    using assms
  proof (induction ids arbitrary: r)
    case Nil
    then show ?case by (simp add: orders_of_def holding_after_def map_filter_simps split: option.splits)
  next
    case (Cons i ids)
    let ?r = "snd (confirm_order catalog now i r)"
    have step: "snd (confirm_orders catalog now (i # ids) r) = snd (confirm_orders catalog now ids ?r)"
      by (simp split: prod.splits)
    have "List.map_filter (lookup (orders_by_id ?r)) ids = List.map_filter (lookup (orders_by_id r)) ids"
      using Cons.prems by (intro map_filter_agree) (auto simp: confirm_order_orders)
    then have "orders_of account k (i # ids) r = orders_of account k [i] r @ orders_of account k ids ?r"
      by (simp add: orders_of_def map_filter_simps split: option.splits)
    then show ?case using Cons unfolding step by (simp add: confirm_order_orders confirm_order_holdings holding_after_append)
  qed
  then show "lookup (orders_by_id (snd (confirm_orders catalog now ids r))) j =
      (if j \<in> set ids then map_option (settled catalog now) (lookup (orders_by_id r) j) else lookup (orders_by_id r) j)"
    and "holding_of account k (snd (confirm_orders catalog now ids r)) =
      holding_after catalog k (orders_of account k ids r) (holding_of account k r)" by blast+
qed

lemma due_order_ids_set:
  "table_ok (orders_by_id r) \<Longrightarrow> i \<in> set (due_order_ids now r) \<longleftrightarrow> (\<exists>ord. lookup (orders_by_id r) i = Some ord \<and> order_due now ord)"
  using lookup_in_set [of "orders_by_id r" i] by (force simp: due_order_ids_def)

lemma due_order_ids_distinct: "table_ok (orders_by_id r) \<Longrightarrow> distinct (due_order_ids now r)"
  by (auto simp: due_order_ids_def table_ok_def distinct_map intro: inj_on_subset)

lemma settled_not_due: "lookup catalog (fund_scheme ord) \<noteq> None \<Longrightarrow> \<not> order_due later (settled catalog now ord)"
  by (auto simp: settled_def settle_order_def order_due_def Let_def split: fund_order_type.splits)

text \<open>C38. A sweep of the orders settles every due order whose scheme is in the catalog at the scheme's current net asset
  value, and no other order; the holding of an account in a scheme changes by exactly its due orders, each applied
  once, in the order of their identifiers. A settled order is never due again, so later sweeps leave it.\<close>

theorem due_orders_settled_once:
  assumes "table_ok (orders_by_id r)"
  shows "(\<forall>i. lookup (orders_by_id (snd (confirm_due_orders catalog now r))) i =
        map_option (\<lambda>ord. if order_due now ord then settled catalog now ord else ord) (lookup (orders_by_id r) i)) \<and>
    (\<forall>account k. holding_of account k (snd (confirm_due_orders catalog now r)) =
        holding_after catalog k (orders_of account k (due_order_ids now r) r) (holding_of account k r)) \<and>
    distinct (due_order_ids now r) \<and>
    (\<forall>ord later. lookup catalog (fund_scheme ord) \<noteq> None \<longrightarrow> \<not> order_due later (settled catalog now ord))"
proof -
  note d = due_order_ids_distinct [OF assms, of now]
  have orders: "lookup (orders_by_id (snd (confirm_due_orders catalog now r))) i =
      map_option (\<lambda>ord. if order_due now ord then settled catalog now ord else ord) (lookup (orders_by_id r) i)" for i
    using due_order_ids_set [OF assms, of i now]
    by (cases "lookup (orders_by_id r) i") (auto simp: confirm_due_orders_def confirm_orders_exact(1) [OF d])
  then show ?thesis
    using d settled_not_due by (simp add: confirm_due_orders_def confirm_orders_exact(2) [OF d])
qed

definition demo_order :: "fund_order_type \<Rightarrow> int64 \<Rightarrow> float64 \<Rightarrow> fund_order" where
  "demo_order ty amount units = (new_fund_order ''o'' ''acc'' ''MF-DT-LIQUID003'' 0 (new_amc_router 0))
     \<lparr>fund_order_type := ty, amount_invested := amount, units_requested := units\<rparr>"

definition demo_router :: "fund_order_type \<Rightarrow> int64 \<Rightarrow> float64 \<Rightarrow> float64 \<Rightarrow> float64 \<Rightarrow> amc_router" where
  "demo_router ty amount units held reserved = \<lparr>confirmation_delay = 0, orders_by_id = [(''o'', demo_order ty amount units)],
     fund_holdings = [(''acc'', [(''MF-DT-LIQUID003'', \<lparr>holding_scheme = ''MF-DT-LIQUID003'', total_units = held, reserved_units = reserved\<rparr>)])]\<rparr>"

theorem due_orders_settled_once_witness:
  "map_option fund_order_status (lookup (orders_by_id (snd (confirm_due_orders new_fund_catalog 1 (demo_router Purchase 200000 0 0 0)))) ''o'')
    = Some OrderConfirmed"
proof -
  have "table_ok (orders_by_id (demo_router Purchase 200000 0 0 0))" by (simp add: demo_router_def table_ok_def)
  from due_orders_settled_once [OF this, of new_fund_catalog 1]
  have "lookup (orders_by_id (snd (confirm_due_orders new_fund_catalog 1 (demo_router Purchase 200000 0 0 0)))) ''o'' =
      Some (settled new_fund_catalog 1 (demo_order Purchase 200000 0))"
    by (simp add: demo_router_def demo_order_def new_fund_order_def order_due_def time_before_def new_amc_router_def time_add_def)
  then show ?thesis
    by (simp add: settled_def settle_order_def demo_order_def new_fund_order_def new_fund_catalog_def seed_schemes_def Let_def)
qed

lemma round_float_numeral [simp]: "(numeral n :: int) < 2 ^ 53 \<Longrightarrow> round_float (numeral n) = numeral n"
  using round_float_int [of "numeral n"] by simp

text \<open>Two overlapping sweeps that have both collected a pending purchase of two units allot it twice: the second does not
  look at the status again.\<close>

theorem overlapping_sweeps_allot_twice:
  "(let r = demo_router Purchase 200000 0 0 0; ids = due_order_ids 1 r;
        r1 = snd (confirm_orders new_fund_catalog 1 ids r); r2 = snd (confirm_orders new_fund_catalog 1 ids r1)
    in total_units (holding_of ''acc'' ''MF-DT-LIQUID003'' r1) = 2 \<and> total_units (holding_of ''acc'' ''MF-DT-LIQUID003'' r2) = 4)"
proof -
  let ?r = "demo_router Purchase 200000 0 0 0"
  have due: "due_order_ids 1 ?r = [''o'']"
    by (simp add: due_order_ids_def demo_router_def demo_order_def new_fund_order_def order_due_def time_before_def new_amc_router_def time_add_def)
  have nav: "lookup new_fund_catalog ''MF-DT-LIQUID003'' = Some \<lparr>scheme_id = ''MF-DT-LIQUID003'',
      scheme_name = ''Mercurius Liquid Debt Fund'', scheme_category = DebtScheme, current_nav = 100000\<rparr>"
    by (simp add: new_fund_catalog_def seed_schemes_def)
  have units: "settle_holding 100000 ord h = h\<lparr>total_units := round_units (float_add (total_units h) 2)\<rparr>"
    if "fund_order_type ord = Purchase" "amount_invested ord = 200000" for ord h
    using that by (simp add: settle_holding_def round_units_def float_div_def float_mul_def float_of_int64_def math_round_def)
  have sums: "round_units (float_add 0 2) = 2" "round_units (float_add 2 2) = 4"
    by (simp_all add: round_units_def float_add_def float_div_def float_mul_def math_round_def)
  let ?o = "demo_order Purchase 200000 0"
  define r1 where "r1 = snd (confirm_orders new_fund_catalog 1 [''o''] ?r)"
  note ex = confirm_orders_exact [where ids = "[''o'']" and catalog = new_fund_catalog and now = 1, simplified]
  have o0: "lookup (orders_by_id ?r) ''o'' = Some ?o" by (simp add: demo_router_def)
  have o1: "lookup (orders_by_id r1) ''o'' = Some (settle_order 100000 1 ?o)"
    using ex(1) [of ?r "''o''"] o0 by (simp add: r1_def settled_def demo_order_def new_fund_order_def nav)
  have ty: "fund_order_type ?o = Purchase" "amount_invested ?o = 200000" "fund_account ?o = ''acc''" "fund_scheme ?o = ''MF-DT-LIQUID003''"
    by (simp_all add: demo_order_def new_fund_order_def)
  then have ty1: "fund_order_type (settle_order 100000 1 ?o) = Purchase" "amount_invested (settle_order 100000 1 ?o) = 200000"
      "fund_account (settle_order 100000 1 ?o) = ''acc''" "fund_scheme (settle_order 100000 1 ?o) = ''MF-DT-LIQUID003''"
    by (simp_all add: settle_order_def Let_def)
  have h0: "total_units (holding_of ''acc'' ''MF-DT-LIQUID003'' ?r) = 0"
    by (simp add: demo_router_def nested_get_def lookup_or_def)
  have h1: "total_units (holding_of ''acc'' ''MF-DT-LIQUID003'' r1) = 2"
    using ex(2) [where account = "''acc''" and k = "''MF-DT-LIQUID003''" and r = ?r] o0 ty h0
    by (simp add: r1_def orders_of_def map_filter_simps holding_after_def nav units sums)
  have "total_units (holding_of ''acc'' ''MF-DT-LIQUID003'' (snd (confirm_orders new_fund_catalog 1 [''o''] r1))) = 4"
    using ex(2) [where account = "''acc''" and k = "''MF-DT-LIQUID003''" and r = r1] o1 ty1 h1
    by (simp add: orders_of_def map_filter_simps holding_after_def nav units sums)
  with h1 show ?thesis by (simp only: Let_def due r1_def)
qed

text \<open>A redemption of 2^-15 of a unit pays 3 paise and removes no unit: the holding is rounded to four decimals.\<close>

theorem dust_redemption_keeps_units:
  "let ord = demo_order Redemption 0 (1 / 32768)
   in amount_credited (settle_order 100000 1 ord) = 3 \<and>
      settle_holding 100000 ord \<lparr>holding_scheme = ''MF-DT-LIQUID003'', total_units = 1, reserved_units = 1 / 32768\<rparr> =
        \<lparr>holding_scheme = ''MF-DT-LIQUID003'', total_units = 1, reserved_units = 0\<rparr>"
proof -
  have pay: "round_float (3125 / 1024 :: rat) = 3125 / 1024"
    by (rule round_float_exact [of _ 3125 "- 10"]) (simp_all add: power_int_def power_divide)
  have rest: "round_float (32767 / 32768 :: rat) = 32767 / 32768"
    by (rule round_float_exact [of _ 32767 "- 15"]) (simp_all add: power_int_def power_divide)
  have one: "round_float 1 = 1" using round_float_int [of 1] by simp
  have half: "\<lfloor>1 / 2 :: rat\<rfloor> = 0" by (rule floor_unique) simp_all
  have scaled: "round_float (20479375 / 2048 :: rat) = 20479375 / 2048"
    by (rule round_float_exact [of _ 20479375 "- 11"]) (simp_all add: power_int_def power_divide)
  show ?thesis
    by (simp add: pay rest scaled one half Let_def demo_order_def settle_order_def settle_holding_def round_units_def float_div_def float_mul_def float_sub_def
        float_of_int64_def math_round_def int64_of_float_def new_fund_order_def)
qed

end
