(* ===== verification/BackOffice.thy ===== *)
theory BackOffice
  imports GoText "HOL-Library.Sublist"
begin

text \<open>
  The registries of the back office, services/backoffice/internal: accountcontrol/accountFreezeStateMachine.go,
  familyaccountaccess/familyAccountAccess.go, nomineesuccession/nomineeSuccession.go and
  supportticketing/supportTicketRegistry.go. Every method holds its mutex throughout and is one function.
\<close>

section \<open>Frozen accounts\<close>

record freeze_status =
  frozen_account :: string
  is_frozen :: bool
  freeze_reason :: string

definition freeze_account :: "string \<Rightarrow> string \<Rightarrow> string table \<Rightarrow> string table" where
  "freeze_account account reason t = put account reason t"

definition unfreeze_account :: "string \<Rightarrow> string table \<Rightarrow> string table" where
  "unfreeze_account account t = remove account t"

definition check_freeze_status :: "string \<Rightarrow> string table \<Rightarrow> freeze_status" where
  "check_freeze_status account t = \<lparr>frozen_account = account, is_frozen = (lookup t account \<noteq> None),
     freeze_reason = lookup_or [] t account\<rparr>"

section \<open>Family links\<close>

datatype permission = ViewOnly | ViewAndTrade

record family_link =
  link_owner :: string
  link_viewer :: string
  link_permission :: permission

type_synonym family_registry = "(string \<times> family_link table) list"

datatype family_error = OwnerRequired | ViewerRequired | ViewerCannotBeOwner | InvalidPermission | NoLinkGrantsAccess

definition parse_permission :: "string \<Rightarrow> permission option" where
  "parse_permission s = (if s = ''VIEW_ONLY'' then Some ViewOnly else if s = ''VIEW_AND_TRADE'' then Some ViewAndTrade else None)"

definition register_family_link :: "string \<Rightarrow> string \<Rightarrow> string \<Rightarrow> family_registry \<Rightarrow> family_error + family_registry" where
  "register_family_link owner viewer level t =
    (if owner = [] then Inl OwnerRequired else if viewer = [] then Inl ViewerRequired
     else if owner = viewer then Inl ViewerCannotBeOwner
     else case parse_permission level of None \<Rightarrow> Inl InvalidPermission
       | Some p \<Rightarrow> Inr (nested_put owner viewer \<lparr>link_owner = owner, link_viewer = viewer, link_permission = p\<rparr> t))"

definition revoke_family_link :: "string \<Rightarrow> string \<Rightarrow> family_registry \<Rightarrow> family_registry" where
  "revoke_family_link owner viewer t = (case lookup t owner of None \<Rightarrow> t | Some links \<Rightarrow> put owner (remove viewer links) t)"

definition check_access :: "string \<Rightarrow> string \<Rightarrow> family_registry \<Rightarrow> family_link option" where
  "check_access owner viewer t = nested_lookup t owner viewer"

definition authorize_view_only_access :: "string \<Rightarrow> string \<Rightarrow> family_registry \<Rightarrow> family_error option" where
  "authorize_view_only_access owner viewer t = (case check_access owner viewer t of None \<Rightarrow> Some NoLinkGrantsAccess | Some _ \<Rightarrow> None)"

definition links_for_owner :: "string \<Rightarrow> family_registry \<Rightarrow> family_link list" where
  "links_for_owner owner t = sort_key link_viewer (map snd (lookup_or [] t owner))"

section \<open>Succession\<close>

datatype succession_state = SuccessionSubmitted | UnderReview | SuccessionApproved | Transferred | SuccessionRejected

datatype succession_event = NomineeRegistered | SubmittedEvent | MovedToUnderReview | ApprovedEvent | TransferredEvent | RejectedEvent

datatype succession_error = SuccessionAccountRequired | SuccessorNameRequired | SuccessorRelationshipRequired | NoNomineeRegistered
  | DeathCertificateRequired | NoSuccessionRequest | SuccessionRequestExists | InvalidSuccessionTransition | ActorRequired

record successor =
  successor_account :: string
  successor_name :: string
  successor_relationship :: string
  successor_document :: string

record succession_request =
  request_account :: string
  request_nominee :: successor
  death_certificate :: string
  current_state :: succession_state
  submitted_at :: instant

record transition_record =
  transition_account :: string
  transition_event :: succession_event
  from_state :: "succession_state option"
  to_state :: "succession_state option"
  transition_actor :: string
  transition_reason :: string
  recorded_at :: instant

record succession_registry =
  nominee_by_account :: "successor table"
  request_by_account :: "succession_request table"
  transition_records :: "transition_record list"

definition new_succession_registry :: succession_registry where
  "new_succession_registry = \<lparr>nominee_by_account = [], request_by_account = [], transition_records = []\<rparr>"

text \<open>A record without a time is stamped with the clock, the argument \<open>wall\<close>.\<close>

definition append_transition :: "instant \<Rightarrow> transition_record \<Rightarrow> succession_registry \<Rightarrow> succession_registry" where
  "append_transition wall rec g = g\<lparr>transition_records := transition_records g @
     [if recorded_at rec = zero_time then rec\<lparr>recorded_at := wall\<rparr> else rec]\<rparr>"

definition register_nominee :: "instant \<Rightarrow> string \<Rightarrow> string \<Rightarrow> string \<Rightarrow> string \<Rightarrow> string \<Rightarrow> succession_registry \<Rightarrow>
    succession_error + succession_registry" where
  "register_nominee wall account name relationship document actor g =
    (if account = [] then Inl SuccessionAccountRequired else if name = [] then Inl SuccessorNameRequired
     else if relationship = [] then Inl SuccessorRelationshipRequired else if actor = [] then Inl ActorRequired
     else Inr (append_transition wall \<lparr>transition_account = account, transition_event = NomineeRegistered, from_state = None,
         to_state = None, transition_actor = actor, transition_reason = ''nominee '' @ name @ '' ('' @ relationship @ '') registered'',
         recorded_at = zero_time\<rparr>
       (g\<lparr>nominee_by_account := put account \<lparr>successor_account = account, successor_name = name,
           successor_relationship = relationship, successor_document = document\<rparr> (nominee_by_account g)\<rparr>)))"

definition is_terminal_state :: "succession_state \<Rightarrow> bool" where
  "is_terminal_state st = (st = Transferred \<or> st = SuccessionRejected)"

definition submit_succession_request :: "instant \<Rightarrow> string \<Rightarrow> string \<Rightarrow> string \<Rightarrow> instant \<Rightarrow> succession_registry \<Rightarrow>
    succession_error + succession_request \<times> succession_registry" where
  "submit_succession_request wall account certificate actor now g =
    (if account = [] then Inl SuccessionAccountRequired else if certificate = [] then Inl DeathCertificateRequired
     else if actor = [] then Inl ActorRequired
     else case lookup (nominee_by_account g) account of None \<Rightarrow> Inl NoNomineeRegistered | Some n \<Rightarrow>
       if (case lookup (request_by_account g) account of None \<Rightarrow> False | Some r \<Rightarrow> \<not> is_terminal_state (current_state r))
       then Inl SuccessionRequestExists
       else let r = \<lparr>request_account = account, request_nominee = n, death_certificate = certificate,
              current_state = SuccessionSubmitted, submitted_at = now\<rparr>
         in Inr (r, append_transition wall \<lparr>transition_account = account, transition_event = SubmittedEvent, from_state = None,
              to_state = Some SuccessionSubmitted, transition_actor = actor,
              transition_reason = ''death certificate reference '' @ certificate @ '' submitted'', recorded_at = now\<rparr>
            (g\<lparr>request_by_account := put account r (request_by_account g)\<rparr>)))"

text \<open>\<open>transition\<close> accepts one state to come from, \<open>Reject\<close> two of them.\<close>

definition succession_transition :: "instant \<Rightarrow> string \<Rightarrow> succession_state \<Rightarrow> succession_state \<Rightarrow> succession_event \<Rightarrow> string \<Rightarrow> string \<Rightarrow>
    instant \<Rightarrow> succession_registry \<Rightarrow> succession_error + succession_request \<times> succession_registry" where
  "succession_transition wall account from to event actor reason now g =
    (if account = [] then Inl SuccessionAccountRequired else if actor = [] then Inl ActorRequired
     else case lookup (request_by_account g) account of None \<Rightarrow> Inl NoSuccessionRequest | Some r \<Rightarrow>
       if current_state r \<noteq> from then Inl InvalidSuccessionTransition
       else let r' = r\<lparr>current_state := to\<rparr>
         in Inr (r', append_transition wall \<lparr>transition_account = account, transition_event = event, from_state = Some from,
              to_state = Some to, transition_actor = actor, transition_reason = reason, recorded_at = now\<rparr>
            (g\<lparr>request_by_account := put account r' (request_by_account g)\<rparr>)))"

definition move_to_under_review where
  "move_to_under_review wall account actor reason now g =
    succession_transition wall account SuccessionSubmitted UnderReview MovedToUnderReview actor reason now g"

definition approve_succession where
  "approve_succession wall account actor reason now g =
    succession_transition wall account UnderReview SuccessionApproved ApprovedEvent actor reason now g"

definition mark_transferred where
  "mark_transferred wall account actor reason now g =
    succession_transition wall account SuccessionApproved Transferred TransferredEvent actor reason now g"

definition reject_succession :: "instant \<Rightarrow> string \<Rightarrow> string \<Rightarrow> string \<Rightarrow> instant \<Rightarrow> succession_registry \<Rightarrow>
    succession_error + succession_request \<times> succession_registry" where
  "reject_succession wall account actor reason now g =
    (if account = [] then Inl SuccessionAccountRequired else if actor = [] then Inl ActorRequired
     else case lookup (request_by_account g) account of None \<Rightarrow> Inl NoSuccessionRequest | Some r \<Rightarrow>
       if current_state r \<noteq> SuccessionSubmitted \<and> current_state r \<noteq> UnderReview then Inl InvalidSuccessionTransition
       else let r' = r\<lparr>current_state := SuccessionRejected\<rparr>
         in Inr (r', append_transition wall \<lparr>transition_account = account, transition_event = RejectedEvent,
              from_state = Some (current_state r), to_state = Some SuccessionRejected, transition_actor = actor,
              transition_reason = reason, recorded_at = now\<rparr>
            (g\<lparr>request_by_account := put account r' (request_by_account g)\<rparr>)))"

definition trail_for_account :: "string \<Rightarrow> succession_registry \<Rightarrow> transition_record list" where
  "trail_for_account account g = filter (\<lambda>rec. transition_account rec = account) (transition_records g)"

section \<open>Support tickets\<close>

datatype ticket_status = TicketOpen | TicketInProgress | TicketResolved | TicketClosed

datatype author_type = CustomerAuthor | AgentAuthor

datatype ticket_error = TicketNotFound | SubjectRequired | InitialMessageRequired | TicketAccountRequired | MessageBodyRequired
  | NotTicketOwner | TicketAlreadyClosed | AgentRequired | InvalidTicketTransition

record support_message =
  message_ticket :: string
  message_author_type :: author_type
  message_author :: string
  message_body :: string
  sent_at :: instant

record support_ticket =
  ticket_id :: string
  ticket_account :: string
  ticket_subject :: string
  ticket_status :: ticket_status
  assigned_agent :: string
  ticket_created_at :: instant
  ticket_updated_at :: instant

record ticket_registry =
  tickets_by_id :: "support_ticket table"
  messages_by_ticket :: "support_message list table"
  ticket_sequence :: uint64

definition new_ticket_registry :: ticket_registry where
  "new_ticket_registry = \<lparr>tickets_by_id = [], messages_by_ticket = [], ticket_sequence = 0\<rparr>"

definition ticket_identifier :: "uint64 \<Rightarrow> string" where
  "ticket_identifier n = (let digits = uint64_text n in ''ticket-'' @ replicate (6 - length digits) CHR ''0'' @ digits)"

definition create_ticket :: "string \<Rightarrow> string \<Rightarrow> string \<Rightarrow> instant \<Rightarrow> ticket_registry \<Rightarrow> ticket_error + support_ticket \<times> ticket_registry" where
  "create_ticket account subject body now g =
    (if account = [] then Inl TicketAccountRequired else if subject = [] then Inl SubjectRequired
     else if body = [] then Inl InitialMessageRequired
     else let n = ticket_sequence g + 1; k = ticket_identifier n;
              t = \<lparr>ticket_id = k, ticket_account = account, ticket_subject = subject, ticket_status = TicketOpen, assigned_agent = [],
                ticket_created_at = now, ticket_updated_at = now\<rparr>
       in Inr (t, \<lparr>tickets_by_id = put k t (tickets_by_id g),
            messages_by_ticket = put k [\<lparr>message_ticket = k, message_author_type = CustomerAuthor, message_author = account,
              message_body = body, sent_at = now\<rparr>] (messages_by_ticket g),
            ticket_sequence = n\<rparr>))"

definition append_message :: "string \<Rightarrow> support_message \<Rightarrow> ticket_registry \<Rightarrow> ticket_registry" where
  "append_message k m g = g\<lparr>messages_by_ticket := put k (lookup_or [] (messages_by_ticket g) k @ [m]) (messages_by_ticket g)\<rparr>"

definition add_customer_message :: "string \<Rightarrow> string \<Rightarrow> string \<Rightarrow> instant \<Rightarrow> ticket_registry \<Rightarrow> ticket_error + support_message \<times> ticket_registry" where
  "add_customer_message k account body now g =
    (if body = [] then Inl MessageBodyRequired
     else case lookup (tickets_by_id g) k of None \<Rightarrow> Inl TicketNotFound | Some t \<Rightarrow>
       if ticket_account t \<noteq> account then Inl NotTicketOwner
       else if ticket_status t = TicketClosed then Inl TicketAlreadyClosed
       else let t1 = t\<lparr>ticket_status := (if ticket_status t = TicketResolved then TicketInProgress else ticket_status t),
                   ticket_updated_at := now\<rparr>;
                m = \<lparr>message_ticket = k, message_author_type = CustomerAuthor, message_author = account, message_body = body, sent_at = now\<rparr>
         in Inr (m, append_message k m (g\<lparr>tickets_by_id := put k t1 (tickets_by_id g)\<rparr>)))"

definition add_agent_reply :: "string \<Rightarrow> string \<Rightarrow> string \<Rightarrow> instant \<Rightarrow> ticket_registry \<Rightarrow> ticket_error + support_message \<times> ticket_registry" where
  "add_agent_reply k agent body now g =
    (if agent = [] then Inl AgentRequired else if body = [] then Inl MessageBodyRequired
     else case lookup (tickets_by_id g) k of None \<Rightarrow> Inl TicketNotFound | Some t \<Rightarrow>
       if ticket_status t = TicketClosed then Inl TicketAlreadyClosed
       else let t1 = t\<lparr>ticket_status := (if ticket_status t = TicketOpen then TicketInProgress else ticket_status t),
                   assigned_agent := (if assigned_agent t = [] then agent else assigned_agent t), ticket_updated_at := now\<rparr>;
                m = \<lparr>message_ticket = k, message_author_type = AgentAuthor, message_author = agent, message_body = body, sent_at = now\<rparr>
         in Inr (m, append_message k m (g\<lparr>tickets_by_id := put k t1 (tickets_by_id g)\<rparr>)))"

definition assign_agent :: "string \<Rightarrow> string \<Rightarrow> instant \<Rightarrow> ticket_registry \<Rightarrow> ticket_error + support_ticket \<times> ticket_registry" where
  "assign_agent k agent now g =
    (if agent = [] then Inl AgentRequired
     else case lookup (tickets_by_id g) k of None \<Rightarrow> Inl TicketNotFound | Some t \<Rightarrow>
       if ticket_status t = TicketClosed then Inl TicketAlreadyClosed
       else let t1 = t\<lparr>assigned_agent := agent, ticket_updated_at := now\<rparr>
         in Inr (t1, g\<lparr>tickets_by_id := put k t1 (tickets_by_id g)\<rparr>))"

fun transition_allowed :: "ticket_status \<Rightarrow> ticket_status \<Rightarrow> bool" where
  "transition_allowed TicketOpen TicketInProgress = True"
| "transition_allowed TicketOpen TicketResolved = True"
| "transition_allowed TicketInProgress TicketResolved = True"
| "transition_allowed TicketResolved TicketInProgress = True"
| "transition_allowed TicketResolved TicketClosed = True"
| "transition_allowed _ _ = False"

definition transition_status :: "string \<Rightarrow> ticket_status \<Rightarrow> instant \<Rightarrow> ticket_registry \<Rightarrow> ticket_error + support_ticket \<times> ticket_registry" where
  "transition_status k st now g = (case lookup (tickets_by_id g) k of None \<Rightarrow> Inl TicketNotFound | Some t \<Rightarrow>
     if \<not> transition_allowed (ticket_status t) st then Inl InvalidTicketTransition
     else let t1 = t\<lparr>ticket_status := st, ticket_updated_at := now\<rparr>
       in Inr (t1, g\<lparr>tickets_by_id := put k t1 (tickets_by_id g)\<rparr>))"

definition message_thread :: "string \<Rightarrow> ticket_registry \<Rightarrow> ticket_error + support_message list" where
  "message_thread k g = (case lookup (tickets_by_id g) k of None \<Rightarrow> Inl TicketNotFound | Some _ \<Rightarrow> Inr (lookup_or [] (messages_by_ticket g) k))"

definition tickets_for_account :: "string \<Rightarrow> ticket_registry \<Rightarrow> support_ticket list" where
  "tickets_for_account account g = filter (\<lambda>t. ticket_account t = account) (map snd (tickets_by_id g))"

definition tickets_for_agent :: "string \<Rightarrow> ticket_registry \<Rightarrow> support_ticket list" where
  "tickets_for_agent agent g = filter (\<lambda>t. assigned_agent t = agent) (map snd (tickets_by_id g))"

definition unassigned_open_tickets :: "ticket_registry \<Rightarrow> support_ticket list" where
  "unassigned_open_tickets g = filter (\<lambda>t. assigned_agent t = [] \<and> ticket_status t \<noteq> TicketClosed) (map snd (tickets_by_id g))"

definition all_tickets :: "ticket_registry \<Rightarrow> support_ticket list" where
  "all_tickets g = map snd (tickets_by_id g)"

section \<open>The audit trail explains every succession\<close>

inductive succession_step :: "succession_registry \<Rightarrow> succession_registry \<Rightarrow> bool" where
  registers: "register_nominee wall account name relationship document actor g = Inr g' \<Longrightarrow> succession_step g g'"
| submits: "submit_succession_request wall account certificate actor now g = Inr (r, g') \<Longrightarrow> succession_step g g'"
| reviews: "move_to_under_review wall account actor reason now g = Inr (r, g') \<Longrightarrow> succession_step g g'"
| approves: "approve_succession wall account actor reason now g = Inr (r, g') \<Longrightarrow> succession_step g g'"
| transfers: "mark_transferred wall account actor reason now g = Inr (r, g') \<Longrightarrow> succession_step g g'"
| rejects: "reject_succession wall account actor reason now g = Inr (r, g') \<Longrightarrow> succession_step g g'"

text \<open>The state machine on its own: what an event may follow, and where it leads.\<close>

fun succession_next :: "succession_state option \<Rightarrow> succession_event \<Rightarrow> succession_state option option" where
  "succession_next st NomineeRegistered = Some st"
| "succession_next None SubmittedEvent = Some (Some SuccessionSubmitted)"
| "succession_next (Some Transferred) SubmittedEvent = Some (Some SuccessionSubmitted)"
| "succession_next (Some SuccessionRejected) SubmittedEvent = Some (Some SuccessionSubmitted)"
| "succession_next (Some SuccessionSubmitted) MovedToUnderReview = Some (Some UnderReview)"
| "succession_next (Some UnderReview) ApprovedEvent = Some (Some SuccessionApproved)"
| "succession_next (Some SuccessionApproved) TransferredEvent = Some (Some Transferred)"
| "succession_next (Some SuccessionSubmitted) RejectedEvent = Some (Some SuccessionRejected)"
| "succession_next (Some UnderReview) RejectedEvent = Some (Some SuccessionRejected)"
| "succession_next _ _ = None"

fun replay_from :: "succession_state option \<Rightarrow> transition_record list \<Rightarrow> succession_state option option" where
  "replay_from st [] = Some st"
| "replay_from st (rec # recs) = (case succession_next st (transition_event rec) of None \<Rightarrow> None
     | Some st' \<Rightarrow> if to_state rec = (if transition_event rec = NomineeRegistered then None else st') \<and>
           from_state rec = (if transition_event rec \<in> {NomineeRegistered, SubmittedEvent} then None else st)
         then replay_from st' recs else None)"

lemma replay_from_append: "replay_from st (xs @ ys) = Option.bind (replay_from st xs) (\<lambda>st'. replay_from st' ys)"
  by (induction xs arbitrary: st) (auto split: option.splits)

definition succession_inv :: "succession_registry \<Rightarrow> bool" where
  "succession_inv g \<longleftrightarrow>
     (\<forall>account. replay_from None (trail_for_account account g) = Some (map_option current_state (lookup (request_by_account g) account))) \<and>
     (\<forall>rec\<in>set (transition_records g). transition_actor rec \<noteq> [])"

lemma trail_append [simp]:
  "trail_for_account account (append_transition wall rec g) = trail_for_account account g @
    (if transition_account rec = account then [if recorded_at rec = zero_time then rec\<lparr>recorded_at := wall\<rparr> else rec] else [])"
  "request_by_account (append_transition wall rec g) = request_by_account g"
  "transition_records (append_transition wall rec g) = transition_records g @ [if recorded_at rec = zero_time then rec\<lparr>recorded_at := wall\<rparr> else rec]"
  by (simp_all add: trail_for_account_def append_transition_def)

lemma trail_fields [simp]:
  "trail_for_account account (g\<lparr>nominee_by_account := t\<rparr>) = trail_for_account account g"
  "trail_for_account account (g\<lparr>request_by_account := u\<rparr>) = trail_for_account account g"
  by (simp_all add: trail_for_account_def)

lemma stamped [simp]:
  "transition_event (if b then rec\<lparr>recorded_at := wall\<rparr> else rec) = transition_event rec"
  "to_state (if b then rec\<lparr>recorded_at := wall\<rparr> else rec) = to_state rec"
  "from_state (if b then rec\<lparr>recorded_at := wall\<rparr> else rec) = from_state rec"
  "transition_actor (if b then rec\<lparr>recorded_at := wall\<rparr> else rec) = transition_actor rec"
  by simp_all

text \<open>Every step appends one record, and sets the state of one account to the state the record names.\<close>

lemma succession_inv_append:
  assumes "succession_inv g" and "transition_actor rec \<noteq> []" and "transition_event rec \<noteq> NomineeRegistered"
    and "succession_next (map_option current_state (lookup (request_by_account g) (transition_account rec))) (transition_event rec)
      = Some (Some (current_state r))"
    and "to_state rec = Some (current_state r)"
    and "from_state rec = (if transition_event rec = SubmittedEvent then None
      else map_option current_state (lookup (request_by_account g) (transition_account rec)))"
  shows "succession_inv (append_transition wall rec (g\<lparr>request_by_account := put (transition_account rec) r (request_by_account g)\<rparr>))"
  using assms by (auto simp: succession_inv_def replay_from_append)

lemma succession_inv_transition:
  assumes "succession_transition wall account from to event actor reason now g = Inr (r, g')" and "succession_inv g"
    and "succession_next (Some from) event = Some (Some to)" and "event \<notin> {NomineeRegistered, SubmittedEvent}"
  shows "succession_inv g'"
proof -
  obtain r0 where r0: "actor \<noteq> []" "lookup (request_by_account g) account = Some r0" "current_state r0 = from"
    and g': "g' = append_transition wall \<lparr>transition_account = account, transition_event = event, from_state = Some from,
        to_state = Some to, transition_actor = actor, transition_reason = reason, recorded_at = now\<rparr>
      (g\<lparr>request_by_account := put account (r0\<lparr>current_state := to\<rparr>) (request_by_account g)\<rparr>)"
    using assms(1) by (auto simp: succession_transition_def Let_def split: if_splits option.splits)
  show ?thesis
    using succession_inv_append [OF assms(2), of "\<lparr>transition_account = account, transition_event = event, from_state = Some from,
        to_state = Some to, transition_actor = actor, transition_reason = reason, recorded_at = now\<rparr>" "r0\<lparr>current_state := to\<rparr>" wall]
      r0 assms(3,4) by (simp add: g')
qed

lemma succession_inv_step: "succession_step g g' \<Longrightarrow> succession_inv g \<Longrightarrow> succession_inv g'"
proof (induction rule: succession_step.induct)
  case (registers wall account name relationship document actor g g')
  then show ?case by (auto simp: register_nominee_def succession_inv_def replay_from_append split: if_splits)
next
  case (submits wall account certificate actor now g r g')
  then obtain n where n: "actor \<noteq> []" "r = \<lparr>request_account = account, request_nominee = n, death_certificate = certificate,
      current_state = SuccessionSubmitted, submitted_at = now\<rparr>"
    and before: "case lookup (request_by_account g) account of None \<Rightarrow> True | Some r0 \<Rightarrow> is_terminal_state (current_state r0)"
    and g': "g' = append_transition wall \<lparr>transition_account = account, transition_event = SubmittedEvent, from_state = None,
        to_state = Some SuccessionSubmitted, transition_actor = actor,
        transition_reason = ''death certificate reference '' @ certificate @ '' submitted'', recorded_at = now\<rparr>
      (g\<lparr>request_by_account := put account r (request_by_account g)\<rparr>)"
    by (auto simp: submit_succession_request_def Let_def split: if_splits option.splits)
  let ?rec = "\<lparr>transition_account = account, transition_event = SubmittedEvent, from_state = None,
        to_state = Some SuccessionSubmitted, transition_actor = actor,
        transition_reason = ''death certificate reference '' @ certificate @ '' submitted'', recorded_at = now\<rparr>"
  have "succession_next (map_option current_state (lookup (request_by_account g) account)) SubmittedEvent = Some (Some SuccessionSubmitted)"
    using before by (auto simp: is_terminal_state_def split: option.splits)
  then show ?case using succession_inv_append [OF submits(2), of ?rec r wall] n by (simp add: g')
next
  case (reviews wall account actor reason now g r g')
  then show ?case by (auto simp: move_to_under_review_def intro: succession_inv_transition)
next
  case (approves wall account actor reason now g r g')
  then show ?case by (auto simp: approve_succession_def intro: succession_inv_transition)
next
  case (transfers wall account actor reason now g r g')
  then show ?case by (auto simp: mark_transferred_def intro: succession_inv_transition)
next
  case (rejects wall account actor reason now g r g')
  then obtain r0 where "lookup (request_by_account g) account = Some r0" "current_state r0 = SuccessionSubmitted \<or> current_state r0 = UnderReview"
    by (auto simp: reject_succession_def Let_def split: if_splits option.splits)
  then have "succession_transition wall account (current_state r0) SuccessionRejected RejectedEvent actor reason now g = Inr (r, g')"
    using rejects(1) by (auto simp: reject_succession_def succession_transition_def split: if_splits)
  then show ?case
    using rejects(2) \<open>current_state r0 = SuccessionSubmitted \<or> current_state r0 = UnderReview\<close> by (auto intro: succession_inv_transition)
qed

interpretation succession_calls: invariant_system "\<lambda>g. g = new_succession_registry" succession_step succession_inv
proof
  show "succession_inv g" if "g = new_succession_registry" for g
    using that by (simp add: succession_inv_def new_succession_registry_def trail_for_account_def)
  show "succession_inv g'" if "succession_inv g" and "succession_step g g'" for g g'
    using that(2,1) by (rule succession_inv_step)
qed

text \<open>The calls of the registry, each with the reading of the clock, and a run of them: the calls that succeeded, and the registry
  they leave. A call that fails changes nothing.\<close>

datatype succession_call =
    RegisterCall string string string string string
  | SubmitCall string string string instant
  | ReviewCall string string string instant
  | ApproveCall string string string instant
  | TransferCall string string string instant
  | RejectCall string string string instant

fun perform_call :: "instant \<Rightarrow> succession_call \<Rightarrow> succession_registry \<Rightarrow> succession_error + succession_registry" where
  "perform_call wall (RegisterCall account name relationship document actor) g =
    register_nominee wall account name relationship document actor g"
| "perform_call wall (SubmitCall account certificate actor now) g = map_sum id snd (submit_succession_request wall account certificate actor now g)"
| "perform_call wall (ReviewCall account actor reason now) g = map_sum id snd (move_to_under_review wall account actor reason now g)"
| "perform_call wall (ApproveCall account actor reason now) g = map_sum id snd (approve_succession wall account actor reason now g)"
| "perform_call wall (TransferCall account actor reason now) g = map_sum id snd (mark_transferred wall account actor reason now g)"
| "perform_call wall (RejectCall account actor reason now) g = map_sum id snd (reject_succession wall account actor reason now g)"

fun succession_run :: "(instant \<times> succession_call) list \<Rightarrow> succession_registry \<Rightarrow> (instant \<times> succession_call) list \<times> succession_registry" where
  "succession_run [] g = ([], g)"
| "succession_run ((wall, c) # cs) g = (case perform_call wall c g of
     Inl _ \<Rightarrow> succession_run cs g
   | Inr g' \<Rightarrow> (case succession_run cs g' of (succeeded, g'') \<Rightarrow> ((wall, c) # succeeded, g'')))"

text \<open>What a call has to leave in the trail: its account, what it did, who made it, why, and when.\<close>

definition stamp :: "instant \<Rightarrow> instant \<Rightarrow> instant" where
  "stamp wall now = (if now = zero_time then wall else now)"

fun call_terms :: "instant \<times> succession_call \<Rightarrow> string \<times> succession_event \<times> string \<times> string \<times> instant" where
  "call_terms (wall, RegisterCall account name relationship document actor) =
    (account, NomineeRegistered, actor, ''nominee '' @ name @ '' ('' @ relationship @ '') registered'', wall)"
| "call_terms (wall, SubmitCall account certificate actor now) =
    (account, SubmittedEvent, actor, ''death certificate reference '' @ certificate @ '' submitted'', stamp wall now)"
| "call_terms (wall, ReviewCall account actor reason now) = (account, MovedToUnderReview, actor, reason, stamp wall now)"
| "call_terms (wall, ApproveCall account actor reason now) = (account, ApprovedEvent, actor, reason, stamp wall now)"
| "call_terms (wall, TransferCall account actor reason now) = (account, TransferredEvent, actor, reason, stamp wall now)"
| "call_terms (wall, RejectCall account actor reason now) = (account, RejectedEvent, actor, reason, stamp wall now)"

definition record_terms :: "transition_record \<Rightarrow> string \<times> succession_event \<times> string \<times> string \<times> instant" where
  "record_terms rec = (transition_account rec, transition_event rec, transition_actor rec, transition_reason rec, recorded_at rec)"

lemma perform_call_step:
  assumes "perform_call wall c g = Inr g'"
  shows "succession_step g g'"
  using assms
  by (cases c) (auto intro: succession_step.intros simp: map_sum_def split: sum.splits)

lemma perform_call_record:
  assumes "perform_call wall c g = Inr g'"
  shows "\<exists>rec. transition_records g' = transition_records g @ [rec] \<and> record_terms rec = call_terms (wall, c)"
  using assms
  by (cases c) (auto simp: register_nominee_def submit_succession_request_def move_to_under_review_def approve_succession_def
    mark_transferred_def reject_succession_def succession_transition_def record_terms_def stamp_def Let_def split: if_splits option.splits)

lemma succession_run_reachable:
  "reachable_by init succession_step g \<Longrightarrow> reachable_by init succession_step (snd (succession_run calls g))"
proof (induction calls arbitrary: g)
  case (Cons wc calls)
  obtain wall c where wc: "wc = (wall, c)" by (cases wc)
  show ?case
    using Cons perform_call_step [of wall c g]
    by (auto simp: wc split: sum.split prod.split intro: reachable_by.intros) (metis reachable_by.intros(2) snd_conv)
qed simp

lemma succession_run_records:
  "map record_terms (transition_records (snd (succession_run calls g))) =
    map record_terms (transition_records g) @ map call_terms (fst (succession_run calls g)) \<and> subseq (fst (succession_run calls g)) calls"
proof (induction calls arbitrary: g)
  case (Cons wc calls)
  obtain wall c where wc: "wc = (wall, c)" by (cases wc)
  show ?case
  proof (cases "perform_call wall c g")
    case (Inr g')
    then show ?thesis
      using Cons.IH [of g'] perform_call_record [OF Inr] by (auto simp: wc split: prod.split)
  qed (use Cons.IH [of g] in \<open>auto simp: wc\<close>)
qed simp

text \<open>C39. The audit trail is exactly what happened: after any run of calls, refused ones included, the trail holds one record for
  each call that succeeded, in order, with the account, the event, the actor, the reason and the time of that call, and no
  actor is blank. Replaying an account's trail through the state machine of the code never gets stuck, meets in every
  record the state before and the state after the step (a submission names no state before, as in the code), and
  ends in the state that is stored for the account: a transfer is preceded by a submission, a review and an approval,
  in that order, a rejection by a submission. The machine is that of the code: an approved request cannot be
  rejected, and a transferred or rejected one can be submitted anew.\<close>

theorem audit_trail_explains_succession:
  "case succession_run calls new_succession_registry of (succeeded, g) \<Rightarrow>
    map record_terms (transition_records g) = map call_terms succeeded \<and> subseq succeeded calls \<and>
    list_all (\<lambda>rec. transition_actor rec \<noteq> []) (transition_records g) \<and>
    (\<forall>account. replay_from None (trail_for_account account g) = Some (map_option current_state (lookup (request_by_account g) account)))"
proof -
  obtain succeeded g where run: "succession_run calls new_succession_registry = (succeeded, g)" by fastforce
  have "reachable_by (\<lambda>g. g = new_succession_registry) succession_step g"
    using succession_run_reachable [of "\<lambda>g. g = new_succession_registry" new_succession_registry calls] run
    by (simp add: reachable_by.intros(1))
  from succession_calls.inv_reachable [OF this] show ?thesis
    using succession_run_records [of calls new_succession_registry] run
    by (simp add: succession_inv_def list_all_iff new_succession_registry_def)
qed

definition demo_succession :: "(instant \<times> succession_call) list" where
  "demo_succession = [(1, RegisterCall ''a'' ''heir'' ''child'' [] ''desk''), (2, SubmitCall ''a'' ''cert'' ''heir'' 2),
     (3, ApproveCall ''a'' ''hasty'' [] 3), (4, ReviewCall ''a'' ''ann'' ''complete'' 4), (5, ApproveCall ''a'' ''bob'' ''checked'' 5),
     (6, RejectCall ''a'' ''cy'' ''late'' 6), (7, TransferCall ''a'' ''dee'' ''done'' 7)]"

theorem audit_trail_explains_succession_witness:
  "case succession_run demo_succession new_succession_registry of (succeeded, g) \<Rightarrow>
    map (\<lambda>rec. (transition_actor rec, from_state rec, to_state rec)) (trail_for_account ''a'' g) =
      [(''desk'', None, None), (''heir'', None, Some SuccessionSubmitted), (''ann'', Some SuccessionSubmitted, Some UnderReview),
       (''bob'', Some UnderReview, Some SuccessionApproved), (''dee'', Some SuccessionApproved, Some Transferred)] \<and>
    replay_from None (trail_for_account ''a'' g) = Some (Some Transferred)"
proof -
  have "map (\<lambda>rec. (transition_actor rec, from_state rec, to_state rec)) (trail_for_account ''a'' (snd (succession_run demo_succession new_succession_registry))) =
      [(''desk'', None, None), (''heir'', None, Some SuccessionSubmitted), (''ann'', Some SuccessionSubmitted, Some UnderReview),
       (''bob'', Some UnderReview, Some SuccessionApproved), (''dee'', Some SuccessionApproved, Some Transferred)] \<and>
      map_option current_state (lookup (request_by_account (snd (succession_run demo_succession new_succession_registry))) ''a'') = Some Transferred"
    by (simp add: demo_succession_def register_nominee_def submit_succession_request_def move_to_under_review_def approve_succession_def
      mark_transferred_def reject_succession_def succession_transition_def new_succession_registry_def append_transition_def
      trail_for_account_def zero_time_def is_terminal_state_def Let_def)
  then show ?thesis
    using audit_trail_explains_succession [of demo_succession] by (simp add: case_prod_beta)
qed

text \<open>The package comment says that a request can be rejected from \<open>APPROVED\<close> too, and that no transition leaves
  \<open>TRANSFERRED\<close>. The code does neither.\<close>

theorem approved_request_not_rejected:
  assumes "account \<noteq> []" and "actor \<noteq> []" and "lookup (request_by_account g) account = Some r" and "current_state r = SuccessionApproved"
  shows "reject_succession wall account actor reason now g = Inl InvalidSuccessionTransition"
  using assms by (simp add: reject_succession_def)

theorem transferred_account_submits_again:
  assumes "account \<noteq> []" and "actor \<noteq> []" and "certificate \<noteq> []" and "lookup (nominee_by_account g) account = Some n"
    and "lookup (request_by_account g) account = Some r" and "current_state r = Transferred"
  shows "\<exists>r' g'. submit_succession_request wall account certificate actor now g = Inr (r', g') \<and>
    map_option current_state (lookup (request_by_account g') account) = Some SuccessionSubmitted"
  using assms by (auto simp: submit_succession_request_def is_terminal_state_def Let_def)

section \<open>Tickets keep their history\<close>

inductive ticket_step :: "ticket_registry \<Rightarrow> ticket_registry \<Rightarrow> bool" where
  creates: "create_ticket account subject body now g = Inr (t, g') \<Longrightarrow> ticket_sequence g < - 1 \<Longrightarrow> ticket_step g g'"
| customer_writes: "add_customer_message k account body now g = Inr (m, g') \<Longrightarrow> ticket_step g g'"
| agent_replies: "add_agent_reply k agent body now g = Inr (m, g') \<Longrightarrow> ticket_step g g'"
| assigns: "assign_agent k agent now g = Inr (t, g') \<Longrightarrow> ticket_step g g'"
| changes_status: "transition_status k st now g = Inr (t, g') \<Longrightarrow> ticket_step g g'"

lemma digits_value_padded: "digits_value (replicate n CHR ''0'' @ s) = digits_value s"
proof (induction s rule: rev_induct)
  case Nil
  have "digits_value (replicate n CHR ''0'') = 0"
    by (induction n) (simp_all add: digits_value_def)
  then show ?case by (simp add: digits_value_def)
next
  case (snoc c s)
  then show ?case by (simp add: digits_value_snoc flip: append_assoc)
qed

lemma ticket_identifier_inject: "ticket_identifier m = ticket_identifier n \<longleftrightarrow> m = n"
proof
  assume "ticket_identifier m = ticket_identifier n"
  then have "digits_value (uint64_text m) = digits_value (uint64_text n)"
    by (simp add: ticket_identifier_def Let_def) (metis digits_value_padded)
  then have "nat (uint m) = nat (uint n)" by (simp add: uint64_text_def decimal_of_int_def decimal_of_nat_value)
  then show "m = n" by (simp add: word_unat_eq_iff)
qed simp

abbreviation thread_of :: "ticket_registry \<Rightarrow> string \<Rightarrow> support_message list" where
  "thread_of g k \<equiv> lookup_or [] (messages_by_ticket g) k"

definition ticket_inv :: "ticket_registry \<Rightarrow> bool" where
  "ticket_inv g \<longleftrightarrow> (\<forall>k t. lookup (tickets_by_id g) k = Some t \<longrightarrow>
     (\<exists>n \<le> ticket_sequence g. k = ticket_identifier n) \<and>
     (\<forall>m\<in>set (thread_of g k). message_author_type m = CustomerAuthor \<longrightarrow> message_author m = ticket_account t))"

text \<open>A later registry: tickets stay, with their owner and everything written so far, and a closed one does not change.\<close>

definition ticket_kept :: "ticket_registry \<Rightarrow> ticket_registry \<Rightarrow> string \<Rightarrow> bool" where
  "ticket_kept g g' k \<longleftrightarrow> (case lookup (tickets_by_id g) k of None \<Rightarrow> True | Some t \<Rightarrow>
     (case lookup (tickets_by_id g') k of None \<Rightarrow> False | Some t' \<Rightarrow>
        ticket_account t' = ticket_account t \<and> ticket_subject t' = ticket_subject t \<and> prefix (thread_of g k) (thread_of g' k) \<and>
        (if ticket_status t = TicketClosed then t' = t \<and> thread_of g' k = thread_of g k else True)))"

lemma ticket_kept_refl: "ticket_kept g g k"
  by (simp add: ticket_kept_def split: option.splits)

lemma ticket_kept_trans: "ticket_kept g g' k \<Longrightarrow> ticket_kept g' g'' k \<Longrightarrow> ticket_kept g g'' k"
  by (auto simp: ticket_kept_def split: option.splits if_splits)

lemma created_ticket:
  assumes "create_ticket account subject body now g = Inr (t, g')"
  shows "t = \<lparr>ticket_id = ticket_identifier (ticket_sequence g + 1), ticket_account = account, ticket_subject = subject,
      ticket_status = TicketOpen, assigned_agent = [], ticket_created_at = now, ticket_updated_at = now\<rparr>"
    and "tickets_by_id g' = put (ticket_id t) t (tickets_by_id g)"
    and "messages_by_ticket g' = put (ticket_id t) [\<lparr>message_ticket = ticket_id t, message_author_type = CustomerAuthor,
      message_author = account, message_body = body, sent_at = now\<rparr>] (messages_by_ticket g)"
    and "ticket_sequence g' = ticket_sequence g + 1"
  using assms by (auto simp: create_ticket_def Let_def split: if_splits)

lemma ticket_step_keeps:
  assumes "ticket_step g g'" and "ticket_inv g"
  shows "ticket_inv g' \<and> ticket_kept g g' k"
  using assms
proof cases
  case (creates account subject body now t)
  note c = created_ticket [OF creates(1)]
  have "1 + ticket_sequence g \<noteq> 0" using creates(2) by (metis add.commute add_eq_0_iff2 less_irrefl)
  then have "unat (ticket_sequence g + 1) = Suc (unat (ticket_sequence g))" by (simp add: unatSuc add.commute)
  then have more: "n < ticket_sequence g + 1" if "n \<le> ticket_sequence g" for n
    using that by (simp add: word_less_nat_alt word_le_nat_alt)
  have "lookup (tickets_by_id g) (ticket_id t) = None"
  proof (rule ccontr)
    assume "lookup (tickets_by_id g) (ticket_id t) \<noteq> None"
    then obtain n where "n \<le> ticket_sequence g" "ticket_id t = ticket_identifier n" using assms(2) unfolding ticket_inv_def by blast
    then show False using more c(1) by (auto simp: ticket_identifier_inject)
  qed
  moreover have "\<exists>n\<le>ticket_sequence g + 1. j = ticket_identifier n" if "\<exists>n\<le>ticket_sequence g. j = ticket_identifier n" for j
    using that more by (blast intro: less_imp_le)
  ultimately show ?thesis using assms(2) c(1)
    by (auto simp: ticket_inv_def ticket_kept_def c(2-4) split: option.splits)
next
  case (customer_writes j account body now m)
  then show ?thesis
    using assms(2) by (auto simp: add_customer_message_def append_message_def ticket_inv_def ticket_kept_def Let_def split: if_splits option.splits)
next
  case (agent_replies j agent body now m)
  then show ?thesis
    using assms(2) by (auto simp: add_agent_reply_def append_message_def ticket_inv_def ticket_kept_def Let_def split: if_splits option.splits)
next
  case (assigns j agent now t)
  then show ?thesis
    using assms(2) by (auto simp: assign_agent_def ticket_inv_def ticket_kept_def Let_def split: if_splits option.splits)
next
  case (changes_status j st now t)
  then show ?thesis
    using assms(2) by (auto simp: transition_status_def ticket_inv_def ticket_kept_def Let_def split: if_splits option.splits)
qed

interpretation ticket_calls: invariant_system "\<lambda>g. g = new_ticket_registry" ticket_step ticket_inv
proof
  show "ticket_inv g" if "g = new_ticket_registry" for g using that by (simp add: ticket_inv_def new_ticket_registry_def)
  show "ticket_inv g'" if "ticket_inv g" and "ticket_step g g'" for g g' using ticket_step_keeps [OF that(2,1)] by blast
qed

text \<open>From any reachable registry on, whatever is done, every ticket stays with its owner and its subject, its thread only
  grows, the customer messages in it are the owner's, and once it is closed neither it nor its thread changes.\<close>

theorem tickets_keep_history:
  assumes "reachable_by (\<lambda>g. g = new_ticket_registry) ticket_step g" and "ticket_step\<^sup>*\<^sup>* g g'"
    and "lookup (tickets_by_id g) k = Some t"
  shows "case lookup (tickets_by_id g') k of None \<Rightarrow> False | Some t' \<Rightarrow>
      ticket_account t' = ticket_account t \<and> ticket_subject t' = ticket_subject t \<and> prefix (thread_of g k) (thread_of g' k) \<and>
      (if ticket_status t = TicketClosed then t' = t \<and> thread_of g' k = thread_of g k else True) \<and>
      (\<forall>m\<in>set (thread_of g' k). message_author_type m = CustomerAuthor \<longrightarrow> message_author m = ticket_account t)"
proof -
  have "ticket_inv g' \<and> ticket_kept g g' k"
    using assms(2) ticket_calls.inv_reachable [OF assms(1)]
  proof (induction rule: rtranclp_induct)
    case base
    then show ?case by (simp add: ticket_kept_refl)
  next
    case (step h h')
    then show ?case using ticket_step_keeps [of h h' k] ticket_kept_trans by blast
  qed
  then have inv: "ticket_inv g'" and kept: "ticket_kept g g' k" by blast+
  obtain t' where t': "lookup (tickets_by_id g') k = Some t'" "ticket_account t' = ticket_account t"
    using kept assms(3) by (auto simp: ticket_kept_def split: option.splits)
  have "\<forall>m\<in>set (thread_of g' k). message_author_type m = CustomerAuthor \<longrightarrow> message_author m = ticket_account t"
    using inv t' unfolding ticket_inv_def by metis
  then show ?thesis using kept assms(3) t' by (simp add: ticket_kept_def)
qed

theorem tickets_keep_history_witness:
  "case create_ticket ''a'' ''s'' ''b'' 1 new_ticket_registry of
     Inl _ \<Rightarrow> False
   | Inr (t, g) \<Rightarrow> (case add_agent_reply (ticket_id t) ''agent'' ''hello'' 2 g of
       Inl _ \<Rightarrow> False | Inr (m, g') \<Rightarrow> prefix (thread_of g (ticket_id t)) (thread_of g' (ticket_id t)))"
proof -
  obtain t g where c: "create_ticket ''a'' ''s'' ''b'' 1 new_ticket_registry = Inr (t, g)"
    by (simp add: create_ticket_def Let_def)
  note f = created_ticket [OF c]
  have found: "lookup (tickets_by_id g) (ticket_id t) = Some t" by (simp add: f(2))
  obtain m g' where r: "add_agent_reply (ticket_id t) ''agent'' ''hello'' 2 g = Inr (m, g')"
    using found by (simp add: add_agent_reply_def f(1) Let_def)
  have "reachable_by (\<lambda>g. g = new_ticket_registry) ticket_step g"
    using creates [OF c] by (metis (mono_tags, lifting) new_ticket_registry_def reachable_by.simps ticket_registry.select_convs(3) word_coorder.not_eq_extremum neg_equal_0_iff_equal zero_neq_one)
  moreover have "ticket_step\<^sup>*\<^sup>* g g'" using agent_replies [OF r] by blast
  ultimately have "prefix (thread_of g (ticket_id t)) (thread_of g' (ticket_id t))"
    using tickets_keep_history [of g g' "ticket_id t" t] found by (cases "lookup (tickets_by_id g') (ticket_id t)") simp_all
  then show ?thesis by (simp add: c r)
qed

end
