(* ===== verification/Referrals.thy ===== *)
theory Referrals
  imports FundSegregation PositionBook
begin

text \<open>
  Referral rewards of the back office: services/backoffice/internal/referralrewards/referralRewardsRegistry.go,
  the clients internal/ledgerclient/ledgerClient.go and omsgatewayclient/omsGatewayClient.go as far as the rewards
  use them, and the referral handlers of cmd/server/main.go. The gateway's position book and the ledger's book are
  those of the theories of these services: the qualifying check reads the one, the reward is posted to the other.
\<close>

section \<open>The registry\<close>

datatype referral_status = PendingQualifyingEvent | Rewarded

definition standard_referral_reward :: int64 where
  "standard_referral_reward = 10000"

datatype referral_error = ReferralAccountRequired | UnknownReferralCode | SelfReferral | AlreadyReferred | NoReferralLink | AlreadyRewarded

record referral_link =
  link_code :: string
  referrer_account :: string
  referred_account :: string
  referral_status :: referral_status
  reward_amount :: int64
  link_created_at :: instant
  rewarded_at :: instant

record referral_registry =
  code_by_referrer :: "string table"
  referrer_by_code :: "string table"
  link_by_referred :: "referral_link table"

definition new_referral_registry :: referral_registry where
  "new_referral_registry = \<lparr>code_by_referrer = [], referrer_by_code = [], link_by_referred = []\<rparr>"

definition code_alphabet :: string where
  "code_alphabet = ''ABCDEFGHJKLMNPQRSTUVWXYZ23456789''"

text \<open>The six random bytes are an argument.\<close>

definition shareable_code :: "8 word list \<Rightarrow> string" where
  "shareable_code suffix = ''MERC-'' @ map (\<lambda>b. code_alphabet ! (unat b mod length code_alphabet)) suffix"

text \<open>The loop draws until the code is free: the draws are the list \<open>draws\<close>; running out of them stands for not returning.\<close>

fun free_code :: "8 word list list \<Rightarrow> string table \<Rightarrow> string option" where
  "free_code [] taken = None"
| "free_code (d # draws) taken = (if lookup taken (shareable_code d) = None then Some (shareable_code d) else free_code draws taken)"

definition generate_referral_code :: "8 word list list \<Rightarrow> string \<Rightarrow> referral_registry \<Rightarrow> ((referral_error + string) \<times> referral_registry) option" where
  "generate_referral_code draws account g =
    (if account = [] then Some (Inl ReferralAccountRequired, g)
     else case lookup (code_by_referrer g) account of Some c \<Rightarrow> Some (Inr c, g) | None \<Rightarrow>
       map_option (\<lambda>c. (Inr c, g\<lparr>code_by_referrer := put account c (code_by_referrer g), referrer_by_code := put c account (referrer_by_code g)\<rparr>))
         (free_code draws (referrer_by_code g)))"

definition record_referral :: "string \<Rightarrow> string \<Rightarrow> instant \<Rightarrow> referral_registry \<Rightarrow> referral_error + referral_link \<times> referral_registry" where
  "record_referral code referred now g =
    (if referred = [] then Inl ReferralAccountRequired
     else case lookup (referrer_by_code g) code of None \<Rightarrow> Inl UnknownReferralCode | Some referrer \<Rightarrow>
       if referrer = referred then Inl SelfReferral
       else if lookup (link_by_referred g) referred \<noteq> None then Inl AlreadyReferred
       else let l = \<lparr>link_code = code, referrer_account = referrer, referred_account = referred, referral_status = PendingQualifyingEvent,
              reward_amount = 0, link_created_at = now, rewarded_at = zero_time\<rparr>
         in Inr (l, g\<lparr>link_by_referred := put referred l (link_by_referred g)\<rparr>))"

definition mark_rewarded :: "string \<Rightarrow> int64 \<Rightarrow> instant \<Rightarrow> referral_registry \<Rightarrow> referral_error + referral_link \<times> referral_registry" where
  "mark_rewarded referred amount now g = (case lookup (link_by_referred g) referred of None \<Rightarrow> Inl NoReferralLink | Some l \<Rightarrow>
     if referral_status l = Rewarded then Inl AlreadyRewarded
     else let l' = l\<lparr>referral_status := Rewarded, reward_amount := amount, rewarded_at := now\<rparr>
       in Inr (l', g\<lparr>link_by_referred := put referred l' (link_by_referred g)\<rparr>))"

definition referrals_for_referrer :: "string \<Rightarrow> referral_registry \<Rightarrow> referral_link list" where
  "referrals_for_referrer account g = filter (\<lambda>l. referrer_account l = account) (map snd (link_by_referred g))"

section \<open>The reward\<close>

definition firm_clearing_account :: string where
  "firm_clearing_account = ''firm-clearing-acct''"

definition reward_description :: "string \<Rightarrow> string" where
  "reward_description referred = ''referral reward for referring '' @ referred @ '' (first trade completed)''"

definition reward_entry :: "string \<Rightarrow> int64 \<Rightarrow> string \<Rightarrow> journal_entry" where
  "reward_entry account amount description = \<lparr>entry_description = description,
     debit_lines = [\<lparr>line_account = account, line_amount = amount\<rparr>],
     credit_lines = [\<lparr>line_account = firm_clearing_account, line_amount = amount\<rparr>]\<rparr>"

text \<open>The ledger answers, or cannot be reached, or posts the entry while its answer is lost.\<close>

datatype ledger_call = LedgerAnswers | LedgerUnreachable | AnswerLost

definition post_reward :: "ledger_call \<Rightarrow> string \<Rightarrow> int64 \<Rightarrow> string \<Rightarrow> ledger_book \<Rightarrow> bool \<times> ledger_book" where
  "post_reward call account amount description b = (case call of
     LedgerUnreachable \<Rightarrow> (False, b)
   | LedgerAnswers \<Rightarrow> (case post_journal_entry (reward_entry account amount description) b of Inl _ \<Rightarrow> (False, b) | Inr b' \<Rightarrow> (True, b'))
   | AnswerLost \<Rightarrow> (case post_journal_entry (reward_entry account amount description) b of Inl _ \<Rightarrow> (False, b) | Inr b' \<Rightarrow> (False, b')))"

section \<open>The handlers\<close>

record referral_system =
  referral_state :: referral_registry
  gateway_positions :: position_book
  reward_ledger :: ledger_book

datatype referral_answer = Forbidden | BadReferral referral_error | CodeAnswer string | LinkAnswer referral_link | NoLinkAnswer
  | AlreadyRewardedAnswer referral_link | GatewayFailed | NotQualified referral_link | CreditFailed | RewardCredited referral_link
  | CreditedNotMarked referral_error

definition referral_code_handler :: "8 word list list \<Rightarrow> string \<Rightarrow> string \<Rightarrow> referral_registry \<Rightarrow> (referral_answer \<times> referral_registry) option" where
  "referral_code_handler draws caller account g =
    (if caller \<noteq> account then Some (Forbidden, g)
     else map_option (\<lambda>(r, g'). (case r of Inl e \<Rightarrow> BadReferral e | Inr c \<Rightarrow> CodeAnswer c, g')) (generate_referral_code draws account g))"

definition record_referral_handler :: "string \<Rightarrow> string \<Rightarrow> string \<Rightarrow> instant \<Rightarrow> referral_registry \<Rightarrow> referral_answer \<times> referral_registry" where
  "record_referral_handler caller code referred now g =
    (if caller \<noteq> referred then (Forbidden, g)
     else case record_referral code referred now g of Inl e \<Rightarrow> (BadReferral e, g) | Inr (l, g') \<Rightarrow> (LinkAnswer l, g'))"

text \<open>The three stages of the qualifying check, between which no lock is held: reading the link and the positions, posting the
  reward, marking the link. \<open>reachable\<close> says whether the gateway answers.\<close>

definition qualifying_link :: "bool \<Rightarrow> string \<Rightarrow> string \<Rightarrow> referral_system \<Rightarrow> referral_answer + referral_link" where
  "qualifying_link reachable caller referred s =
    (if caller \<noteq> referred then Inl Forbidden
     else case lookup (link_by_referred (referral_state s)) referred of None \<Rightarrow> Inl NoLinkAnswer | Some l \<Rightarrow>
       if referral_status l = Rewarded then Inl (AlreadyRewardedAnswer l)
       else if \<not> reachable then Inl GatewayFailed
       else if positions_for_account referred (gateway_positions s) = [] then Inl (NotQualified l)
       else Inr l)"

definition credit_referrer :: "ledger_call \<Rightarrow> referral_link \<Rightarrow> referral_system \<Rightarrow> bool \<times> referral_system" where
  "credit_referrer call l s =
    (let (ok, b) = post_reward call (referrer_account l) standard_referral_reward (reward_description (referred_account l)) (reward_ledger s)
     in (ok, s\<lparr>reward_ledger := b\<rparr>))"

definition finish_reward :: "string \<Rightarrow> instant \<Rightarrow> referral_system \<Rightarrow> referral_answer \<times> referral_system" where
  "finish_reward referred now s = (case mark_rewarded referred standard_referral_reward now (referral_state s) of
     Inl e \<Rightarrow> (CreditedNotMarked e, s) | Inr (l, g) \<Rightarrow> (RewardCredited l, s\<lparr>referral_state := g\<rparr>))"

definition check_and_qualify_handler :: "bool \<Rightarrow> ledger_call \<Rightarrow> string \<Rightarrow> string \<Rightarrow> instant \<Rightarrow> referral_system \<Rightarrow> referral_answer \<times> referral_system" where
  "check_and_qualify_handler reachable call caller referred now s = (case qualifying_link reachable caller referred s of
     Inl a \<Rightarrow> (a, s)
   | Inr l \<Rightarrow> (case credit_referrer call l s of (ok, s1) \<Rightarrow> if \<not> ok then (CreditFailed, s1) else finish_reward referred now s1))"

section \<open>A referral is rewarded once\<close>

definition rewards_for :: "ledger_book \<Rightarrow> string \<Rightarrow> journal_entry list" where
  "rewards_for b referred = filter (\<lambda>e. entry_description e = reward_description referred) (posted_entries b)"

definition reward_count :: "ledger_book \<Rightarrow> string \<Rightarrow> nat" where
  "reward_count b referred = length (rewards_for b referred)"

text \<open>The services around: calls of the handlers that do not overlap and whose ledger answers arrive, fills in the gateway, and
  other entries of the ledger.\<close>

inductive referral_step :: "referral_system \<Rightarrow> referral_system \<Rightarrow> bool" where
  code_generated: "generate_referral_code draws account (referral_state s) = Some (r, g) \<Longrightarrow> referral_step s (s\<lparr>referral_state := g\<rparr>)"
| referral_recorded: "record_referral_handler caller code referred now (referral_state s) = (a, g) \<Longrightarrow> referral_step s (s\<lparr>referral_state := g\<rparr>)"
| reward_checked: "check_and_qualify_handler reachable call caller referred now s = (a, s') \<Longrightarrow> call \<noteq> AnswerLost \<Longrightarrow> referral_step s s'"
| fill_booked: "referral_step s (s\<lparr>gateway_positions := apply_fill buyer seller ins quantity (gateway_positions s)\<rparr>)"
| entry_posted: "post_journal_entry e (reward_ledger s) = Inr b \<Longrightarrow> (\<And>k. entry_description e \<noteq> reward_description k) \<Longrightarrow>
    referral_step s (s\<lparr>reward_ledger := b\<rparr>)"

definition referral_init :: "referral_system \<Rightarrow> bool" where
  "referral_init s \<longleftrightarrow> referral_state s = new_referral_registry \<and> posted_entries (reward_ledger s) = []"

definition link_ok :: "referral_registry \<Rightarrow> string \<Rightarrow> referral_link \<Rightarrow> bool" where
  "link_ok g k l \<longleftrightarrow> referred_account l = k \<and> referrer_account l \<noteq> k \<and>
    lookup (referrer_by_code g) (link_code l) = Some (referrer_account l) \<and>
    reward_amount l = (if referral_status l = Rewarded then standard_referral_reward else 0)"

text \<open>The rewards that a link stands for: none while it is pending, the standard reward to the referrer once it is rewarded.\<close>

definition rewards_of_link :: "referral_link option \<Rightarrow> journal_entry list" where
  "rewards_of_link x = (case x of None \<Rightarrow> [] | Some l \<Rightarrow> if referral_status l = Rewarded
     then [reward_entry (referrer_account l) standard_referral_reward (reward_description (referred_account l))] else [])"

definition referral_inv :: "referral_system \<Rightarrow> bool" where
  "referral_inv s \<longleftrightarrow> (\<forall>k. rewards_for (reward_ledger s) k = rewards_of_link (lookup (link_by_referred (referral_state s)) k)) \<and>
    (\<forall>k l. lookup (link_by_referred (referral_state s)) k = Some l \<longrightarrow> link_ok (referral_state s) k l)"

lemma reward_description_inject [simp]: "reward_description k = reward_description j \<longleftrightarrow> k = j"
  by (simp add: reward_description_def)

lemma rewards_post:
  "post_journal_entry e b = Inr b' \<Longrightarrow> rewards_for b' k = rewards_for b k @ (if entry_description e = reward_description k then [e] else [])"
  by (simp add: rewards_for_def post_journal_entry_posted)

lemma free_code_free: "free_code draws taken = Some c \<Longrightarrow> lookup taken c = None"
  by (induction draws taken rule: free_code.induct) (auto split: if_splits)

text \<open>Generating a code leaves the links, and the owners of the codes that are taken.\<close>

lemma generated_code:
  assumes "generate_referral_code draws account g = Some (r, g')"
  shows "link_by_referred g' = link_by_referred g" and "lookup (referrer_by_code g) c = Some a \<Longrightarrow> lookup (referrer_by_code g') c = Some a"
  using assms free_code_free [of draws "referrer_by_code g"]
  by (auto simp: generate_referral_code_def split: if_splits option.splits)

lemma qualifying_link_Inr:
  "qualifying_link reachable caller referred s = Inr l \<longleftrightarrow> caller = referred \<and> reachable \<and>
    lookup (link_by_referred (referral_state s)) referred = Some l \<and> referral_status l \<noteq> Rewarded \<and>
    positions_for_account referred (gateway_positions s) \<noteq> []"
  by (auto simp: qualifying_link_def split: option.splits)

text \<open>A call that is not refused posts one reward and marks the link, and every other call changes nothing.\<close>

lemma check_and_qualify_cases:
  assumes "check_and_qualify_handler reachable call caller referred now s = (a, s')" and "call \<noteq> AnswerLost"
  shows "s' = s \<or> (\<exists>l b. qualifying_link reachable caller referred s = Inr l \<and>
    post_journal_entry (reward_entry (referrer_account l) standard_referral_reward (reward_description (referred_account l))) (reward_ledger s) = Inr b \<and>
    s' = s\<lparr>reward_ledger := b, referral_state := (referral_state s)\<lparr>link_by_referred := put referred
      (l\<lparr>referral_status := Rewarded, reward_amount := standard_referral_reward, rewarded_at := now\<rparr>) (link_by_referred (referral_state s))\<rparr>\<rparr>)"
proof (cases "qualifying_link reachable caller referred s")
  case (Inl x)
  then show ?thesis using assms(1) by (simp add: check_and_qualify_handler_def)
next
  case (Inr l)
  then show ?thesis using assms
    by (auto simp: check_and_qualify_handler_def credit_referrer_def post_reward_def finish_reward_def mark_rewarded_def Let_def
        qualifying_link_Inr split: ledger_call.splits sum.splits if_splits)
qed

lemma referral_inv_step:
  assumes "referral_step s s'" and "referral_inv s"
  shows "referral_inv s'"
proof -
  have rewards: "rewards_for (reward_ledger s) k = rewards_of_link (lookup (link_by_referred (referral_state s)) k)" for k
    using assms(2) by (simp add: referral_inv_def)
  have ok: "link_ok (referral_state s) k l" if "lookup (link_by_referred (referral_state s)) k = Some l" for k l
    using assms(2) that by (simp add: referral_inv_def)
  from assms(1) show ?thesis
  proof cases
    case (code_generated draws account r g)
    then show ?thesis using rewards ok generated_code [OF code_generated(2)] by (simp add: referral_inv_def link_ok_def)
  next
    case (referral_recorded caller code referred now a g)
    then consider "g = referral_state s"
      | l where "g = (referral_state s)\<lparr>link_by_referred := put referred l (link_by_referred (referral_state s))\<rparr>"
        "link_ok g referred l" "referral_status l = PendingQualifyingEvent" "lookup (link_by_referred (referral_state s)) referred = None"
      by (auto simp: record_referral_handler_def record_referral_def link_ok_def Let_def split: if_splits option.splits)
    then show ?thesis
    proof cases
      case 2
      have "rewards_for (reward_ledger s) referred = []" using rewards [of referred] 2(4) by (simp add: rewards_of_link_def)
      then show ?thesis
        using rewards ok 2(2,3) by (simp add: referral_recorded(1) 2(1) referral_inv_def link_ok_def) (simp add: rewards_of_link_def)
    qed (use assms(2) referral_recorded(1) in simp)
  next
    case (reward_checked reachable call caller referred now a)
    from check_and_qualify_cases [OF this] show ?thesis
    proof (elim disjE exE conjE)
      assume "s' = s"
      then show ?thesis using assms(2) by simp
    next
      fix l b
      assume q: "qualifying_link reachable caller referred s = Inr l"
        and p: "post_journal_entry (reward_entry (referrer_account l) standard_referral_reward (reward_description (referred_account l)))
          (reward_ledger s) = Inr b"
        and s': "s' = s\<lparr>reward_ledger := b, referral_state := (referral_state s)\<lparr>link_by_referred := put referred
          (l\<lparr>referral_status := Rewarded, reward_amount := standard_referral_reward, rewarded_at := now\<rparr>) (link_by_referred (referral_state s))\<rparr>\<rparr>"
      have l: "lookup (link_by_referred (referral_state s)) referred = Some l" "referral_status l \<noteq> Rewarded" using q by (auto simp: qualifying_link_Inr)
      have linked: "referred_account l = referred" using ok [OF l(1)] by (simp add: link_ok_def)
      have "rewards_for (reward_ledger s) referred = []" "rewards_of_link (lookup (link_by_referred (referral_state s)) referred) = []"
        using rewards [of referred] l by (simp_all add: rewards_of_link_def)
      then have "rewards_for b k = rewards_of_link (lookup (link_by_referred (referral_state s')) k)" for k
        using rewards [of k] rewards_post [OF p, of k] linked by (auto simp: s' reward_entry_def) (simp_all add: rewards_of_link_def reward_entry_def)
      then show ?thesis using ok ok [OF l(1)] by (simp add: s' referral_inv_def link_ok_def)
    qed
  next
    case (fill_booked buyer seller ins quantity)
    then show ?thesis using assms(2) by (simp add: referral_inv_def)
  next
    case (entry_posted e b)
    then show ?thesis using rewards ok rewards_post [OF entry_posted(2)] by (simp add: referral_inv_def)
  qed
qed

interpretation referral_calls: invariant_system referral_init referral_step referral_inv
proof
  show "referral_inv s" if "referral_init s" for s
    using that by (simp add: referral_init_def referral_inv_def new_referral_registry_def rewards_for_def rewards_of_link_def)
  show "referral_inv s'" if "referral_inv s" and "referral_step s s'" for s s' using that(2,1) by (rule referral_inv_step)
qed

text \<open>C40. Where calls of the handlers do not overlap, the ledger's answers arrive, and nobody else posts under the description of a
  reward, the reward entries for an account are none unless its referral is marked rewarded, and then exactly one: 10000 minor
  units, recorded on the link too, from the firm's clearing account to the account that owns the code the referral was made
  with. That account is never the referred one, so that nobody is rewarded for referring themselves.\<close>

theorem referral_rewarded_once:
  assumes "reachable_by referral_init referral_step s"
  shows "rewards_for (reward_ledger s) k =
      (case lookup (link_by_referred (referral_state s)) k of
         None \<Rightarrow> []
       | Some l \<Rightarrow> if referral_status l = Rewarded
           then [\<lparr>entry_description = reward_description k,
               debit_lines = [\<lparr>line_account = referrer_account l, line_amount = 10000\<rparr>],
               credit_lines = [\<lparr>line_account = ''firm-clearing-acct'', line_amount = 10000\<rparr>]\<rparr>]
           else []) \<and>
    (case lookup (link_by_referred (referral_state s)) k of
       None \<Rightarrow> True
     | Some l \<Rightarrow> referrer_account l \<noteq> k \<and> lookup (referrer_by_code (referral_state s)) (link_code l) = Some (referrer_account l) \<and>
         reward_amount l = (if referral_status l = Rewarded then 10000 else 0))"
  using referral_calls.inv_reachable [OF assms]
  by (auto simp: referral_inv_def rewards_of_link_def link_ok_def reward_entry_def standard_referral_reward_def firm_clearing_account_def
    split: option.splits)

section \<open>A referral played through, and what can go wrong\<close>

definition demo_link :: referral_link where
  "demo_link = \<lparr>link_code = ''MERC-AAAAAA'', referrer_account = ''acct-001'', referred_account = ''acct-002'',
     referral_status = PendingQualifyingEvent, reward_amount = 0, link_created_at = 1, rewarded_at = zero_time\<rparr>"

definition demo_registry :: referral_registry where
  "demo_registry = \<lparr>code_by_referrer = [(''acct-001'', ''MERC-AAAAAA'')], referrer_by_code = [(''MERC-AAAAAA'', ''acct-001'')],
     link_by_referred = [(''acct-002'', demo_link)]\<rparr>"

definition demo_reward_ledger :: ledger_book where
  "demo_reward_ledger = \<lparr>account_balances = [(''acct-001'', 0), (''acct-002'', 0), (''firm-clearing-acct'', 0), (''pool'', 0), (''suspense'', 0)],
     posted_entries = []\<rparr>"

definition demo_referrals :: "position_book \<Rightarrow> referral_system" where
  "demo_referrals positions = \<lparr>referral_state = demo_registry, gateway_positions = positions, reward_ledger = demo_reward_ledger\<rparr>"

definition demo_traded :: referral_system where
  "demo_traded = demo_referrals (apply_fill ''acct-002'' ''acct-003'' ''X'' 5 new_position_book)"

lemma demo_simps [simp]:
  "referral_state demo_traded = demo_registry" "reward_ledger demo_traded = demo_reward_ledger"
  "referrer_account demo_link = ''acct-001''" "referred_account demo_link = ''acct-002''"
  "lookup (link_by_referred demo_registry) ''acct-002'' = Some demo_link" "referral_status demo_link = PendingQualifyingEvent"
  by (simp_all add: demo_traded_def demo_referrals_def demo_link_def demo_registry_def)

lemma demo_reachable: "reachable_by referral_init referral_step demo_traded"
proof -
  let ?s0 = "\<lparr>referral_state = new_referral_registry, gateway_positions = new_position_book, reward_ledger = demo_reward_ledger\<rparr>"
  let ?g1 = "\<lparr>code_by_referrer = [(''acct-001'', ''MERC-AAAAAA'')], referrer_by_code = [(''MERC-AAAAAA'', ''acct-001'')], link_by_referred = []\<rparr>"
  have "reachable_by referral_init referral_step ?s0"
    by (rule reachable_by.reachable_init) (simp add: referral_init_def demo_reward_ledger_def)
  moreover have "referral_step ?s0 (?s0\<lparr>referral_state := ?g1\<rparr>)"
    by (rule code_generated [of "[[0, 0, 0, 0, 0, 0]]" "''acct-001''"])
      (simp add: generate_referral_code_def shareable_code_def code_alphabet_def new_referral_registry_def)
  moreover have "referral_step (?s0\<lparr>referral_state := ?g1\<rparr>) (demo_referrals new_position_book)"
    using referral_recorded [of "''acct-002''" "''MERC-AAAAAA''" "''acct-002''" 1 "?s0\<lparr>referral_state := ?g1\<rparr>" _ demo_registry]
    by (simp add: record_referral_handler_def record_referral_def demo_registry_def demo_link_def demo_referrals_def Let_def)
  moreover have "referral_step (demo_referrals new_position_book) demo_traded"
    using fill_booked [of "demo_referrals new_position_book"] by (simp add: demo_traded_def demo_referrals_def)
  ultimately show ?thesis by (meson reachable_by.reachable_step)
qed

lemma demo_qualifies: "qualifying_link True ''acct-002'' ''acct-002'' demo_traded = Inr demo_link"
  by (simp add: qualifying_link_Inr)
    (simp add: demo_traded_def demo_referrals_def positions_for_account_def apply_fill_def
      adjust_position_def new_position_book_def nested_put_def nested_get_def lookup_or_def)

lemma demo_credit:
  "post_journal_entry (reward_entry ''acct-001'' standard_referral_reward (reward_description ''acct-002'')) demo_reward_ledger =
    Inr \<lparr>account_balances = [(''acct-001'', 10000), (''acct-002'', 0), (''firm-clearing-acct'', - 10000), (''pool'', 0), (''suspense'', 0)],
      posted_entries = [reward_entry ''acct-001'' standard_referral_reward (reward_description ''acct-002'')]\<rparr>"
  by (simp add: post_journal_entry_def reward_entry_def demo_reward_ledger_def sum_of_debit_lines_def sum_of_credit_lines_def
      firm_clearing_account_def standard_referral_reward_def lookup_or_def)

theorem referral_rewarded_once_witness:
  "case check_and_qualify_handler True LedgerAnswers ''acct-002'' ''acct-002'' 2 demo_traded of
     (a, s) \<Rightarrow> map (\<lambda>e. (debit_lines e, credit_lines e)) (rewards_for (reward_ledger s) ''acct-002'') =
       [([\<lparr>line_account = ''acct-001'', line_amount = 10000\<rparr>], [\<lparr>line_account = ''firm-clearing-acct'', line_amount = 10000\<rparr>])] \<and>
       rewards_for (reward_ledger s) ''acct-001'' = []"
proof -
  obtain a s where c: "check_and_qualify_handler True LedgerAnswers ''acct-002'' ''acct-002'' 2 demo_traded = (a, s)" by fastforce
  have r: "reachable_by referral_init referral_step s"
    by (rule reachable_by.reachable_step [OF demo_reachable reward_checked [OF c]]) simp
  have link: "lookup (link_by_referred (referral_state s)) ''acct-002'' =
      Some (demo_link\<lparr>referral_status := Rewarded, reward_amount := standard_referral_reward, rewarded_at := 2\<rparr>)"
    "lookup (link_by_referred (referral_state s)) ''acct-001'' = None"
    using c by (auto simp: check_and_qualify_handler_def demo_qualifies credit_referrer_def post_reward_def demo_credit finish_reward_def
        mark_rewarded_def demo_registry_def Let_def)
  show ?thesis
    using referral_rewarded_once [OF r, of "''acct-002''"] referral_rewarded_once [OF r, of "''acct-001''"] link c by simp
qed

lemma demo_credit_again:
  assumes "post_journal_entry (reward_entry ''acct-001'' standard_referral_reward (reward_description ''acct-002'')) demo_reward_ledger = Inr b"
  shows "\<exists>b'. post_journal_entry (reward_entry ''acct-001'' standard_referral_reward (reward_description ''acct-002'')) b = Inr b' \<and>
    reward_count b' ''acct-002'' = 2"
  using assms unfolding demo_credit
  by (auto simp: post_journal_entry_def reward_entry_def sum_of_debit_lines_def sum_of_credit_lines_def firm_clearing_account_def
      lookup_or_def reward_count_def rewards_for_def)

text \<open>Two calls that both passed the check before either marked the link post the reward twice.\<close>

theorem overlapping_checks_reward_twice:
  "case qualifying_link True ''acct-002'' ''acct-002'' demo_traded of Inl _ \<Rightarrow> False
   | Inr l \<Rightarrow> (case credit_referrer LedgerAnswers l demo_traded of
       (ok1, s1) \<Rightarrow> (case credit_referrer LedgerAnswers l s1 of
         (ok2, s2) \<Rightarrow> ok1 \<and> ok2 \<and> reward_count (reward_ledger s2) ''acct-002'' = 2))"
proof -
  obtain b where b: "post_journal_entry (reward_entry ''acct-001'' standard_referral_reward (reward_description ''acct-002'')) demo_reward_ledger = Inr b"
    using demo_credit by blast
  show ?thesis
    using demo_credit_again [OF b] b by (auto simp: demo_qualifies credit_referrer_def post_reward_def)
qed

text \<open>A reward whose answer is lost counts as failed; the next call posts it again.\<close>

theorem lost_answer_rewards_twice:
  "case check_and_qualify_handler True AnswerLost ''acct-002'' ''acct-002'' 2 demo_traded of
     (a1, s1) \<Rightarrow> (case check_and_qualify_handler True LedgerAnswers ''acct-002'' ''acct-002'' 3 s1 of
       (a2, s2) \<Rightarrow> a1 = CreditFailed \<and> reward_count (reward_ledger s2) ''acct-002'' = 2)"
proof -
  obtain b where b: "post_journal_entry (reward_entry ''acct-001'' standard_referral_reward (reward_description ''acct-002'')) demo_reward_ledger = Inr b"
    using demo_credit by blast
  obtain b' where b': "post_journal_entry (reward_entry ''acct-001'' standard_referral_reward (reward_description ''acct-002'')) b = Inr b'"
      "reward_count b' ''acct-002'' = 2"
    using demo_credit_again [OF b] by blast
  have first: "check_and_qualify_handler True AnswerLost ''acct-002'' ''acct-002'' 2 demo_traded = (CreditFailed, demo_traded\<lparr>reward_ledger := b\<rparr>)"
    using b by (simp add: check_and_qualify_handler_def demo_qualifies credit_referrer_def post_reward_def)
  have again: "qualifying_link True ''acct-002'' ''acct-002'' (demo_traded\<lparr>reward_ledger := b\<rparr>) = Inr demo_link"
    using demo_qualifies by (simp add: qualifying_link_Inr)
  show ?thesis
    unfolding first using b' by (simp add: check_and_qualify_handler_def again credit_referrer_def post_reward_def finish_reward_def mark_rewarded_def Let_def)
qed

text \<open>An account that has bought and sold what it bought has traded, but holds nothing: it does not qualify.\<close>

theorem flat_account_does_not_qualify:
  "qualifying_link True ''acct-002'' ''acct-002''
    (demo_referrals (apply_fill ''acct-003'' ''acct-002'' ''X'' 5 (apply_fill ''acct-002'' ''acct-003'' ''X'' 5 new_position_book)))
   = Inl (NotQualified demo_link)"
  by (simp add: qualifying_link_def demo_referrals_def demo_registry_def demo_link_def positions_for_account_def apply_fill_def
      adjust_position_def new_position_book_def nested_put_def nested_get_def lookup_or_def)

text \<open>The alphabet that is said to leave out L has it.\<close>

theorem code_may_contain_L: "shareable_code [10, 0, 0, 0, 0, 0] = ''MERC-LAAAAA''"
  by (simp add: shareable_code_def code_alphabet_def)

text \<open>The reward reaches the client's account past the guard: the pool no longer holds what the clients hold.\<close>

theorem reward_breaks_segregation:
  "case post_journal_entry (reward_entry ''acct-001'' standard_referral_reward (reward_description ''acct-002'')) demo_reward_ledger of
     Inl _ \<Rightarrow> False
   | Inr b \<Rightarrow> discrepancy demo_guard demo_reward_ledger = 0 \<and> discrepancy demo_guard b = - 10000 \<and>
       validate_entry_preserves_segregation demo_guard
         (reward_entry ''acct-001'' standard_referral_reward (reward_description ''acct-002'')) \<noteq> Inr ()"
  unfolding demo_credit
  by (simp add: discrepancy_of_def current_balance_def demo_guard_def new_segregation_guard_def client_accounts_def total_balance_def
      demo_reward_ledger_def balance_or_zero_def validate_entry_preserves_segregation_def entry_deltas_def validate_line_def
      reward_entry_def is_client_def account_kind_of_def standard_referral_reward_def firm_clearing_account_def)

end
