(* ===== verification/Liquidation.thy ===== *)
theory Liquidation
  imports CreditBooks "HOL-Library.Sublist"
begin

text \<open>
  Liquidation of over-leveraged accounts, services/oms-gateway/internal/autoliquidation/liquidationEngine.go with its callers in
  cmd/server/main.go: an account whose funding exceeds its pledged collateral has its long positions sold, the largest first, through
  the order pipeline. The submission of a reducing order is a parameter of the engine, as in the source; the server passes
  \<open>processOrderSubmission\<close>. What the gateway's partners answer during an order is an environment for each instrument.
\<close>

section \<open>States of risk\<close>

datatype risk_state = RiskNormal | RiskWarning | RiskUrgent | RiskLiquidation

record thresholds =
  warning_percent :: float64
  urgent_percent :: float64
  target_percent :: float64

definition liquidation_thresholds :: thresholds where
  "liquidation_thresholds = \<lparr>warning_percent = 80, urgent_percent = 90, target_percent = 75\<rparr>"

record liquidation_position =
  liq_instrument :: string
  liq_quantity :: int64
  liq_price :: int64
  liq_price_known :: bool

record leverage_snapshot =
  snap_account :: string
  snap_outstanding :: int64
  snap_pledged :: int64
  snap_positions :: "liquidation_position list"

definition utilization_percent :: "leverage_snapshot \<Rightarrow> float64" where
  "utilization_percent s =
    (if snap_pledged s \<le>s 0 then (if 0 <s snap_outstanding s then 100000 else 0)
     else float_mul (float_div (float_of_int64 (snap_outstanding s)) (float_of_int64 (snap_pledged s))) 100)"

definition classify_utilization :: "float64 \<Rightarrow> thresholds \<Rightarrow> risk_state" where
  "classify_utilization u th =
    (if 100 \<le> u then RiskLiquidation else if urgent_percent th \<le> u then RiskUrgent
     else if warning_percent th \<le> u then RiskWarning else RiskNormal)"

section \<open>The order of the positions\<close>

abbreviation position_notional :: "liquidation_position \<Rightarrow> int64" where
  "position_notional p \<equiv> liq_quantity p * liq_price p"

text \<open>The inner loop moves an element towards the front of the sorted prefix, here given back to front.\<close>

fun sift :: "liquidation_position \<Rightarrow> liquidation_position list \<Rightarrow> liquidation_position list" where
  "sift x [] = [x]"
| "sift x (p # ps) = (if position_notional p <s position_notional x then p # sift x ps else x # p # ps)"

definition sort_by_notional :: "liquidation_position list \<Rightarrow> liquidation_position list" where
  "sort_by_notional ps = rev (foldl (\<lambda>acc x. sift x acc) [] ps)"

definition ceil_div :: "int64 \<Rightarrow> int64 \<Rightarrow> int64" where
  "ceil_div n d = (if d \<le>s 0 then 0 else if n \<le>s 0 then 0
     else int64_div n d + (if int64_mod n d \<noteq> 0 then 1 else 0))"

section \<open>The engine\<close>

text \<open>What a submission answers: whether the order was accepted, the notional that was executed, and an error.\<close>

type_synonym 's submit_reduction = "string \<Rightarrow> string \<Rightarrow> int64 \<Rightarrow> int64 \<Rightarrow> 's \<Rightarrow> (bool \<times> int64 \<times> string option) \<times> 's"

record reducing_order =
  reduced_instrument :: string
  quantity_sold :: int64
  reference_price :: int64
  notional_reduced :: int64
  submission_error :: string
  was_accepted :: bool

record liquidation_outcome =
  out_account :: string
  out_utilization :: float64
  out_state :: risk_state
  out_orders :: "reducing_order list"
  out_shortfall :: int64
  out_skipped :: "string list"

definition quantity_to_sell :: "int64 \<Rightarrow> liquidation_position \<Rightarrow> int64" where
  "quantity_to_sell shortfall p = (let q = ceil_div shortfall (liq_price p) in if liq_quantity p <s q then liq_quantity p else q)"

definition reduce_position :: "'s submit_reduction \<Rightarrow> string \<Rightarrow> int64 \<Rightarrow> liquidation_position \<Rightarrow> 's \<Rightarrow> reducing_order \<times> int64 \<times> 's" where
  "reduce_position submit account shortfall p s =
    (let q = quantity_to_sell shortfall p in
     case submit account (liq_instrument p) q (q * liq_price p) s of
       ((accepted, executed, err), s') \<Rightarrow>
         (\<lparr>reduced_instrument = liq_instrument p, quantity_sold = q, reference_price = liq_price p, notional_reduced = executed,
            submission_error = (case err of None \<Rightarrow> '''' | Some e \<Rightarrow> e), was_accepted = accepted\<rparr>,
          (if 0 <s executed then shortfall - executed else shortfall), s'))"

fun reduce_positions :: "'s submit_reduction \<Rightarrow> string \<Rightarrow> liquidation_position list \<Rightarrow> int64 \<Rightarrow> 's \<Rightarrow>
    reducing_order list \<times> string list \<times> int64 \<times> 's" where
  "reduce_positions submit account [] shortfall s = ([], [], shortfall, s)"
| "reduce_positions submit account (p # ps) shortfall s =
    (if shortfall \<le>s 0 then ([], [], shortfall, s)
     else if liq_quantity p \<le>s 0 then reduce_positions submit account ps shortfall s
     else if \<not> liq_price_known p \<or> liq_price p \<le>s 0
       then case reduce_positions submit account ps shortfall s of (os, skipped, rest) \<Rightarrow> (os, liq_instrument p # skipped, rest)
     else if quantity_to_sell shortfall p \<le>s 0 then reduce_positions submit account ps shortfall s
     else case reduce_position submit account shortfall p s of (ord, shortfall', s') \<Rightarrow>
       (case reduce_positions submit account ps shortfall' s' of (os, rest) \<Rightarrow> (ord # os, rest)))"

definition target_outstanding :: "thresholds \<Rightarrow> leverage_snapshot \<Rightarrow> int64" where
  "target_outstanding th snap = int64_of_float (float_mul (float_div (target_percent th) 100) (float_of_int64 (snap_pledged snap)))"

definition evaluate_and_liquidate :: "thresholds \<Rightarrow> 's submit_reduction \<Rightarrow> leverage_snapshot \<Rightarrow> 's \<Rightarrow> liquidation_outcome \<times> 's" where
  "evaluate_and_liquidate th submit snap s =
    (let u = utilization_percent snap; st = classify_utilization u th;
         out = \<lparr>out_account = snap_account snap, out_utilization = u, out_state = st, out_orders = [], out_shortfall = 0, out_skipped = []\<rparr>
     in if st \<noteq> RiskLiquidation then (out, s)
        else let shortfall = snap_outstanding snap - target_outstanding th snap
          in if shortfall \<le>s 0 then (out\<lparr>out_shortfall := snap_outstanding snap\<rparr>, s)
             else case reduce_positions submit (snap_account snap) (sort_by_notional (snap_positions snap)) shortfall s of
               (os, skipped, rest, s') \<Rightarrow>
                 (out\<lparr>out_orders := os, out_skipped := skipped, out_shortfall := (if 0 <s rest then rest else 0)\<rparr>, s'))"

section \<open>The server\<close>

definition reducing_request :: "string \<Rightarrow> string \<Rightarrow> int64 \<Rightarrow> order_submission_request" where
  "reducing_request account ins q = \<lparr>request_account = account, request_instrument = ins, request_is_buy = False,
     request_is_market_order = True, request_is_stop_loss = False, request_stop_trigger_price = None,
     request_limit_price = 0, request_quantity = q, request_idempotency_key = '''',
     request_is_after_market_order = False, request_execution_type = '''', request_iceberg_visible_quantity = None,
     request_is_paper_trading = False, request_paper_reference_price = None, request_strategy_identifier = '''',
     request_confirmed_large_order = False, request_milli_share_quantity = None\<rparr>"

definition submit_reducing_order :: "(string \<Rightarrow> gateway_environment) \<Rightarrow> gateway_state submit_reduction" where
  "submit_reducing_order env account ins q assumed s =
    (case process_order_submission (env ins) (reducing_request account ins q) '''' s of (ack, s') \<Rightarrow>
       (if \<not> ack_was_accepted ack then (False, 0, Some (ack_human_readable_reason ack))
        else (True, sum_list (map (\<lambda>t. trade_executed_price t * trade_executed_quantity t) (ack_trade_executions ack)), None), s'))"

text \<open>Go iterates over the map of positions in an unspecified order, an argument here.\<close>

definition leverage_snapshot_of :: "((string \<times> int64) list \<Rightarrow> (string \<times> int64) list) \<Rightarrow> string \<Rightarrow> credit_state \<Rightarrow> leverage_snapshot" where
  "leverage_snapshot_of map_order account s =
    \<lparr>snap_account = account, snap_outstanding = outstanding_funding (cr_funding s) account,
     snap_pledged = total_pledged_margin_value account (gw_pledges (cr_gateway s)),
     snap_positions = map (\<lambda>(ins, q). \<lparr>liq_instrument = ins, liq_quantity = q,
         liq_price = (case market_price ins (gw_mtm (cr_gateway s)) of None \<Rightarrow> 0 | Some p \<Rightarrow> p),
         liq_price_known = (market_price ins (gw_mtm (cr_gateway s)) \<noteq> None)\<rparr>)
       (map_order (positions_for_account account (gw_positions (cr_gateway s))))\<rparr>"

definition liquidation_status_handler :: "string \<Rightarrow> credit_state \<Rightarrow> (float64 \<times> risk_state) option" where
  "liquidation_status_handler account s =
    (if account = [] then None
     else let u = utilization_percent \<lparr>snap_account = account, snap_outstanding = outstanding_funding (cr_funding s) account,
         snap_pledged = total_pledged_margin_value account (gw_pledges (cr_gateway s)), snap_positions = []\<rparr>
       in Some (u, classify_utilization u liquidation_thresholds))"

text \<open>The snapshot is taken before the engine's mutex: taking it and acting on it are two stages.\<close>

definition act_on_snapshot :: "(string \<Rightarrow> gateway_environment) \<Rightarrow> leverage_snapshot \<Rightarrow> credit_state \<Rightarrow> liquidation_outcome \<times> credit_state" where
  "act_on_snapshot env snap s =
    (case evaluate_and_liquidate liquidation_thresholds (submit_reducing_order env) snap (cr_gateway s) of
       (out, g) \<Rightarrow> (out, s\<lparr>cr_gateway := g\<rparr>))"

definition liquidation_evaluate_handler :: "((string \<times> int64) list \<Rightarrow> (string \<times> int64) list) \<Rightarrow> (string \<Rightarrow> gateway_environment) \<Rightarrow> string \<Rightarrow> credit_state \<Rightarrow>
    liquidation_outcome option \<times> credit_state" where
  "liquidation_evaluate_handler map_order env account s =
    (if account = [] then (None, s)
     else case act_on_snapshot env (leverage_snapshot_of map_order account s) s of (out, s') \<Rightarrow> (Some out, s'))"

section \<open>What is sold\<close>

lemma ceil_div_bounds:
  assumes "0 < sint n" and "0 < sint d"
  shows "(sint (ceil_div n d) - 1) * sint d < sint n \<and> sint n \<le> sint (ceil_div n d) * sint d \<and> 1 \<le> sint (ceil_div n d)"
proof -
  define q r where "q = sint n div sint d" and "r = sint n mod sint d"
  have nqr: "sint n = q * sint d + r" "0 \<le> r" "r < sint d" using assms(2) by (simp_all add: q_def r_def)
  have q0: "0 \<le> q" using assms by (simp add: q_def pos_imp_zdiv_nonneg_iff)
  have "q * 1 \<le> q * sint d" using q0 assms(2) by (intro mult_left_mono) auto
  then have qn: "q \<le> sint n" using nqr by linarith
  have small: "q + (if r \<noteq> 0 then 1 else 0) < 2 ^ 63"
  proof (cases "r = 0")
    case False
    then have "sint d \<noteq> 1" using nqr by auto
    then have "q * 2 \<le> q * sint d" using assms(2) q0 by (intro mult_left_mono) auto
    then show ?thesis using nqr sint_bounds64 [of n] assms(1) by auto
  qed (use qn sint_bounds64 [of n] in auto)
  have dv: "int64_div n d = word_of_int q" and md: "int64_mod n d = word_of_int r"
    using assms by (simp_all add: int64_div_def int64_mod_def signed_divide_int_def signed_modulo_int_def q_def r_def)
  have "int64_mod n d \<noteq> 0 \<longleftrightarrow> r \<noteq> 0"
    using nqr sint_bounds64 [of d] sint_of_int64 [of r] by (metis md of_int_0 less_trans neg_less_0_iff_less le_less_trans zero_less_numeral zero_less_power sint_0 order_less_imp_le less_le_trans)
  then have "ceil_div n d = word_of_int (q + (if r \<noteq> 0 then 1 else 0))"
    using assms by (simp add: ceil_div_def word_sle_eq dv)
  moreover have "sint (word_of_int (q + (if r \<noteq> 0 then 1 else 0)) :: int64) = q + (if r \<noteq> 0 then 1 else 0)"
    using small q0 by (intro sint_of_int64) auto
  ultimately have "sint (ceil_div n d) = q + (if r \<noteq> 0 then 1 else 0)" by simp
  moreover have "r \<noteq> 0 \<or> 1 \<le> q" using nqr(1) assms(1) q0 by (cases "q = 0") auto
  ultimately show ?thesis using nqr assms q0 by (auto simp: algebra_simps)
qed

definition eligible :: "liquidation_position \<Rightarrow> bool" where
  "eligible p \<longleftrightarrow> 0 < sint (liq_quantity p) \<and> liq_price_known p \<and> 0 < sint (liq_price p)"

lemma quantity_to_sell_bounds:
  assumes "0 < sint shortfall" and "eligible p"
  shows "1 \<le> sint (quantity_to_sell shortfall p) \<and> sint (quantity_to_sell shortfall p) \<le> sint (liq_quantity p) \<and>
    (sint (quantity_to_sell shortfall p) - 1) * sint (liq_price p) < sint shortfall \<and>
    (quantity_to_sell shortfall p \<noteq> liq_quantity p \<longrightarrow> sint shortfall \<le> sint (quantity_to_sell shortfall p) * sint (liq_price p))"
proof -
  have c: "(sint (ceil_div shortfall (liq_price p)) - 1) * sint (liq_price p) < sint shortfall"
      "sint shortfall \<le> sint (ceil_div shortfall (liq_price p)) * sint (liq_price p)" "1 \<le> sint (ceil_div shortfall (liq_price p))"
    using ceil_div_bounds [of shortfall "liq_price p"] assms by (simp_all add: eligible_def)
  show ?thesis
  proof (cases "liq_quantity p <s ceil_div shortfall (liq_price p)")
    case True
    then have "(sint (liq_quantity p) - 1) * sint (liq_price p) \<le> (sint (ceil_div shortfall (liq_price p)) - 1) * sint (liq_price p)"
      using assms(2) by (intro mult_right_mono) (auto simp: word_sless_alt eligible_def)
    then have "(sint (liq_quantity p) - 1) * sint (liq_price p) < sint shortfall" using c(1) by linarith
    then show ?thesis using True assms(2) by (simp add: quantity_to_sell_def eligible_def)
  next
    case False
    then show ?thesis using c assms(2) by (simp add: quantity_to_sell_def word_sless_alt)
  qed
qed

lemma reduce_positions_Cons:
  "reduce_positions submit account (p # ps) shortfall s =
    (if shortfall \<le>s 0 then ([], [], shortfall, s)
     else if \<not> eligible p then (case reduce_positions submit account ps shortfall s of (os, skipped, rest) \<Rightarrow>
       (os, if 0 < sint (liq_quantity p) then liq_instrument p # skipped else skipped, rest))
     else case reduce_position submit account shortfall p s of (ord, shortfall', s') \<Rightarrow>
       (case reduce_positions submit account ps shortfall' s' of (os, rest) \<Rightarrow> (ord # os, rest)))"
proof -
  have "\<not> quantity_to_sell shortfall p \<le>s 0" if "\<not> shortfall \<le>s 0" "eligible p"
    using quantity_to_sell_bounds [of shortfall p] that by (simp add: word_sle_eq)
  then show ?thesis by (auto simp: eligible_def word_sle_eq split: prod.splits)
qed

declare reduce_positions.simps(2) [simp del]

definition order_fits :: "int \<Rightarrow> liquidation_position list \<Rightarrow> reducing_order \<Rightarrow> bool" where
  "order_fits shortfall ps ord \<longleftrightarrow> (\<exists>p\<in>set ps. eligible p \<and> reduced_instrument ord = liq_instrument p \<and> reference_price ord = liq_price p \<and>
     1 \<le> sint (quantity_sold ord) \<and> sint (quantity_sold ord) \<le> sint (liq_quantity p) \<and>
     (sint (quantity_sold ord) - 1) * sint (liq_price p) < shortfall)"

text \<open>The orders of a liquidation against what is left of the shortfall: each is sized by what the orders before it have not executed.\<close>

definition executed_by :: "reducing_order \<Rightarrow> int" where
  "executed_by ord = max 0 (sint (notional_reduced ord))"

fun orders_fit :: "int \<Rightarrow> liquidation_position list \<Rightarrow> reducing_order list \<Rightarrow> bool" where
  "orders_fit remaining ps [] \<longleftrightarrow> True"
| "orders_fit remaining ps (ord # os) \<longleftrightarrow> 0 < remaining \<and> order_fits remaining ps ord \<and> orders_fit (remaining - executed_by ord) ps os"

text \<open>The state a run of submissions leaves, each order with the answer it was given.\<close>

fun orders_submitted :: "'s submit_reduction \<Rightarrow> string \<Rightarrow> reducing_order list \<Rightarrow> 's \<Rightarrow> 's \<Rightarrow> bool" where
  "orders_submitted submit account [] s s' \<longleftrightarrow> s' = s"
| "orders_submitted submit account (ord # os) s s' \<longleftrightarrow>
    (case submit account (reduced_instrument ord) (quantity_sold ord) (quantity_sold ord * reference_price ord) s of
       ((accepted, executed, err), s1) \<Rightarrow> was_accepted ord = accepted \<and> notional_reduced ord = executed \<and>
         submission_error ord = (case err of None \<Rightarrow> '''' | Some e \<Rightarrow> e) \<and> orders_submitted submit account os s1 s')"

lemma order_fits_mono: "order_fits a ps ord \<Longrightarrow> a \<le> b \<Longrightarrow> set ps \<subseteq> set qs \<Longrightarrow> order_fits b qs ord"
  by (fastforce simp: order_fits_def)

lemma orders_fit_mono: "orders_fit a ps os \<Longrightarrow> set ps \<subseteq> set qs \<Longrightarrow> orders_fit a qs os"
  by (induction os arbitrary: a) (auto intro: order_fits_mono)

lemma reduce_position_order:
  assumes "reduce_position submit account shortfall p s = (ord, shortfall', s')" and "0 < sint shortfall"
  shows "sint shortfall' = sint shortfall - executed_by ord"
    and "reduced_instrument ord = liq_instrument p" and "reference_price ord = liq_price p"
    and "quantity_sold ord = quantity_to_sell shortfall p"
    and "orders_submitted submit account [ord] s s'"
  using assms sint_bounds64 [of shortfall] sint_bounds64 [of "notional_reduced ord"]
  by (auto simp: reduce_position_def Let_def executed_by_def word_sless_alt sint_sub64 split: prod.splits if_splits)

lemma orders_submitted_Cons:
  "orders_submitted submit account [ord] s s1 \<Longrightarrow> orders_submitted submit account os s1 s2 \<Longrightarrow>
    orders_submitted submit account (ord # os) s s2"
  by (auto split: prod.splits)

text \<open>What a run over positions that starts with an eligible one and an open shortfall does first.\<close>

lemma reduce_positions_eligible:
  assumes "reduce_positions submit account (p # ps) shortfall s = (os, skipped, rest, s')" and "0 < sint shortfall" and "eligible p"
  obtains ord shortfall1 s1 os1 where "reduce_position submit account shortfall p s = (ord, shortfall1, s1)"
    and "reduce_positions submit account ps shortfall1 s1 = (os1, skipped, rest, s')" and "os = ord # os1"
proof -
  obtain ord shortfall1 s1 where one: "reduce_position submit account shortfall p s = (ord, shortfall1, s1)" by (metis prod_cases3)
  with assms that [of ord shortfall1 s1] show thesis by (auto simp: reduce_positions_Cons word_sle_eq split: prod.splits)
qed

lemma reduce_positions_ineligible:
  assumes "reduce_positions submit account (p # ps) shortfall s = (os, skipped, rest, s')" and "0 < sint shortfall" and "\<not> eligible p"
  obtains skipped1 where "reduce_positions submit account ps shortfall s = (os, skipped1, rest, s')"
    and "skipped = (if 0 < sint (liq_quantity p) then liq_instrument p # skipped1 else skipped1)"
  using assms that by (auto simp: reduce_positions_Cons word_sle_eq split: prod.splits)

lemma reduce_positions_covered:
  assumes "reduce_positions submit account ps shortfall s = (os, skipped, rest, s')" and "\<not> 0 < sint shortfall"
  shows "os = [] \<and> skipped = [] \<and> rest = shortfall \<and> s' = s"
  using assms by (cases ps) (auto simp: reduce_positions_Cons word_sle_eq)

lemma reduce_positions_orders:
  assumes "reduce_positions submit account ps shortfall s = (os, skipped, rest, s')"
  shows "orders_fit (sint shortfall) ps os \<and> subseq (map reduced_instrument os) (map liq_instrument ps) \<and>
    orders_submitted submit account os s s' \<and> sint rest = sint shortfall - sum_list (map executed_by os)"
  using assms
proof (induction ps arbitrary: shortfall s os skipped)
  case (Cons p ps)
  consider (closed) "\<not> 0 < sint shortfall" | (skip) "0 < sint shortfall" "\<not> eligible p" | (sell) "0 < sint shortfall" "eligible p" by blast
  then show ?case
  proof cases
    case closed
    then show ?thesis using reduce_positions_covered [OF Cons.prems] by simp
  next
    case skip
    with reduce_positions_ineligible [OF Cons.prems] Cons.IH show ?thesis
      by (metis (no_types, lifting) list.simps(9) list_emb_Cons orders_fit_mono set_subset_Cons)
  next
    case sell
    obtain ord shortfall1 s1 os1 where one: "reduce_position submit account shortfall p s = (ord, shortfall1, s1)"
      and rest: "reduce_positions submit account ps shortfall1 s1 = (os1, skipped, rest, s')" and os: "os = ord # os1"
      using reduce_positions_eligible [OF Cons.prems sell] .
    note ord = reduce_position_order [OF one sell(1)]
    have "order_fits (sint shortfall) (p # ps) ord"
      using ord quantity_to_sell_bounds [OF sell] sell(2) by (auto simp: order_fits_def)
    moreover have "orders_fit (sint shortfall - executed_by ord) (p # ps) os1"
      using Cons.IH [OF rest] ord(1) by (auto intro: orders_fit_mono)
    ultimately show ?thesis
      using Cons.IH [OF rest] ord sell(1) orders_submitted_Cons [OF ord(5)] by (simp add: os del: orders_submitted.simps(2))
  qed
qed simp

lemma mset_sift [simp]: "mset (sift x ps) = add_mset x (mset ps)"
  by (induction ps) auto

lemma mset_sort_by_notional [simp]: "mset (sort_by_notional ps) = mset ps"
proof -
  have "mset (foldl (\<lambda>acc x. sift x acc) acc ps) = mset acc + mset ps" for acc
    by (induction ps arbitrary: acc) simp_all
  then show ?thesis by (simp add: sort_by_notional_def)
qed

lemma set_sort_by_notional [simp]: "set (sort_by_notional ps) = set ps"
  by (rule mset_eq_setD) simp

lemma sorted_sift: "sorted_wrt (\<lambda>p q. position_notional p \<le>s position_notional q) ps \<Longrightarrow>
    sorted_wrt (\<lambda>p q. position_notional p \<le>s position_notional q) (sift x ps)"
proof (induction ps)
  case (Cons p ps)
  have "set (sift x ps) = insert x (set ps)" by (metis mset_sift set_mset_add_mset_insert set_mset_mset)
  then show ?case using Cons by (auto simp: word_sle_eq word_sless_alt)
qed simp

lemma sorted_by_notional: "sorted_wrt (\<lambda>p q. position_notional q \<le>s position_notional p) (sort_by_notional ps)"
proof -
  have "sorted_wrt (\<lambda>p q. position_notional p \<le>s position_notional q) (foldl (\<lambda>acc x. sift x acc) acc ps)"
    if "sorted_wrt (\<lambda>p q. position_notional p \<le>s position_notional q) acc" for acc
    using that by (induction ps arbitrary: acc) (auto intro: sorted_sift)
  then show ?thesis by (simp add: sort_by_notional_def sorted_wrt_rev)
qed

lemma out_state_eq: "out_state (fst (evaluate_and_liquidate th submit snap s)) = classify_utilization (utilization_percent snap) th"
  by (simp add: evaluate_and_liquidate_def Let_def split: prod.splits)

text \<open>C17. However the pipeline answers, an account that is not past its limit is left alone, and of an account that is past it
  only long positions with a known price are sold, each at most once and the largest first, never more than is held
  and never more than is needed: an order is sent only while the notionals executed by the orders before it leave something of
  the shortfall open, and its quantity, less one share, is worth less than what they leave at the reference price.
  The state changes by exactly the submissions of the listed orders, each recorded with its answer.\<close>

theorem liquidation_sells_no_more_than_needed:
  "case evaluate_and_liquidate th submit snap s of (out, s') \<Rightarrow>
    (if out_state out \<noteq> RiskLiquidation then out_orders out = [] \<and> s' = s else True) \<and>
    orders_fit (sint (snap_outstanding snap - target_outstanding th snap)) (snap_positions snap) (out_orders out) \<and>
    orders_submitted submit (snap_account snap) (out_orders out) s s' \<and>
    subseq (map reduced_instrument (out_orders out)) (map liq_instrument (sort_by_notional (snap_positions snap))) \<and>
    sorted_wrt (\<lambda>p q. position_notional q \<le>s position_notional p) (sort_by_notional (snap_positions snap))"
proof -
  obtain os skipped rest s1 where r: "reduce_positions submit (snap_account snap) (sort_by_notional (snap_positions snap))
      (snap_outstanding snap - target_outstanding th snap) s = (os, skipped, rest, s1)" by (metis prod_cases4)
  have "orders_fit (sint (snap_outstanding snap - target_outstanding th snap)) (snap_positions snap) os"
    using reduce_positions_orders [OF r] by (auto intro: orders_fit_mono)
  then show ?thesis
    using reduce_positions_orders [OF r] sorted_by_notional [of "snap_positions snap"] r
    by (simp add: evaluate_and_liquidate_def Let_def)
qed

definition full_fill :: "nat submit_reduction" where
  "full_fill account ins q assumed n = ((True, assumed, None), n + 1)"

text \<open>A submission that executes 100 of whatever it is given.\<close>

definition thin_fill :: "nat submit_reduction" where
  "thin_fill account ins q assumed n = ((True, 100, None), n + 1)"

definition demo_snapshot :: leverage_snapshot where
  "demo_snapshot = \<lparr>snap_account = ''a'', snap_outstanding = 500, snap_pledged = 0, snap_positions =
     [\<lparr>liq_instrument = ''X'', liq_quantity = 30, liq_price = 20, liq_price_known = True\<rparr>,
      \<lparr>liq_instrument = ''Y'', liq_quantity = 100, liq_price = 7, liq_price_known = True\<rparr>]\<rparr>"

lemma demo_target: "target_outstanding liquidation_thresholds demo_snapshot = 0"
  by (simp add: target_outstanding_def demo_snapshot_def float_of_int64_def float_mul_def int64_of_float_def)

lemmas evaluation_defs = utilization_percent_def classify_utilization_def sort_by_notional_def word_sle_eq word_sless_alt
  reduce_positions_Cons eligible_def reduce_position_def quantity_to_sell_def ceil_div_def int64_div_def int64_mod_def
  signed_divide_int_def signed_modulo_int_def

theorem liquidation_sells_no_more_than_needed_witness:
  "case evaluate_and_liquidate liquidation_thresholds thin_fill demo_snapshot 0 of (out, n) \<Rightarrow>
    map (\<lambda>ord. (reduced_instrument ord, quantity_sold ord)) (out_orders out) = [(''Y'', 72), (''X'', 20)] \<and> n = 2 \<and>
    orders_fit 500 (snap_positions demo_snapshot) (out_orders out)"
proof -
  have "map (\<lambda>ord. (reduced_instrument ord, quantity_sold ord)) (out_orders (fst (evaluate_and_liquidate liquidation_thresholds thin_fill demo_snapshot 0)))
      = [(''Y'', 72), (''X'', 20)] \<and> snd (evaluate_and_liquidate liquidation_thresholds thin_fill demo_snapshot 0) = 2"
    unfolding evaluate_and_liquidate_def demo_target by (simp add: demo_snapshot_def evaluation_defs thin_fill_def Let_def)
  then show ?thesis
    using liquidation_sells_no_more_than_needed [where th = liquidation_thresholds and submit = thin_fill and snap = demo_snapshot and s = 0]
    by (simp add: demo_target case_prod_beta) (simp add: demo_snapshot_def)
qed

text \<open>What the eligible positions are worth at their reference prices.\<close>

abbreviation worth :: "liquidation_position list \<Rightarrow> int" where
  "worth ps \<equiv> sum_list (map (\<lambda>p. sint (liq_quantity p) * sint (liq_price p)) (filter eligible ps))"

lemma worth_nonneg: "0 \<le> worth ps"
  by (intro sum_list_nonneg) (auto simp: eligible_def)

lemma worth_mset: "mset ps = mset qs \<Longrightarrow> worth ps = worth qs"
proof -
  assume "mset ps = mset qs"
  then have "mset (map (\<lambda>p. sint (liq_quantity p) * sint (liq_price p)) (filter eligible ps)) =
      mset (map (\<lambda>p. sint (liq_quantity p) * sint (liq_price p)) (filter eligible qs))" by simp
  from arg_cong [OF this, of sum_mset] show ?thesis by (simp only: sum_mset_sum_list)
qed

text \<open>Orders of which each sells its whole position or enough, at its price, for what is left of the shortfall: as long as something
  is left, every eligible position has been ordered whole.\<close>

lemma reduce_positions_open:
  assumes "reduce_positions submit account ps shortfall s = (os, skipped, rest, s')" and "0 < sint rest"
  shows "map reduced_instrument os = map liq_instrument (filter eligible ps) \<and>
    skipped = map liq_instrument (filter (\<lambda>p. 0 < sint (liq_quantity p) \<and> \<not> eligible p) ps)"
  using assms
proof (induction ps arbitrary: shortfall s os skipped)
  case (Cons p ps)
  consider (closed) "\<not> 0 < sint shortfall" | (skip) "0 < sint shortfall" "\<not> eligible p" | (sell) "0 < sint shortfall" "eligible p" by blast
  then show ?case
  proof cases
    case closed
    then show ?thesis using reduce_positions_covered [OF Cons.prems(1)] Cons.prems(2) by simp
  next
    case skip
    obtain skipped1 where rest: "reduce_positions submit account ps shortfall s = (os, skipped1, rest, s')"
      and "skipped = (if 0 < sint (liq_quantity p) then liq_instrument p # skipped1 else skipped1)"
      using reduce_positions_ineligible [OF Cons.prems(1) skip] .
    then show ?thesis using Cons.IH [OF rest Cons.prems(2)] skip(2) by simp
  next
    case sell
    obtain ord shortfall1 s1 os1 where one: "reduce_position submit account shortfall p s = (ord, shortfall1, s1)"
      and rest: "reduce_positions submit account ps shortfall1 s1 = (os1, skipped, rest, s')" and os: "os = ord # os1"
      using reduce_positions_eligible [OF Cons.prems(1) sell] .
    show ?thesis using Cons.IH [OF rest Cons.prems(2)] reduce_position_order(2) [OF one sell(1)] sell(2) by (simp add: os)
  qed
qed simp

definition filled_at_least :: "reducing_order \<Rightarrow> bool" where
  "filled_at_least ord \<longleftrightarrow> sint (quantity_sold ord) * sint (reference_price ord) \<le> sint (notional_reduced ord)"

definition filled_at_most :: "reducing_order \<Rightarrow> bool" where
  "filled_at_most ord \<longleftrightarrow> sint (notional_reduced ord) \<le> sint (quantity_sold ord) * sint (reference_price ord)"

lemma reduce_positions_worth:
  assumes "reduce_positions submit account ps shortfall s = (os, skipped, rest, s')"
  shows "(list_all filled_at_least os \<longrightarrow> sint rest \<le> max 0 (sint shortfall - worth ps)) \<and>
    (list_all filled_at_most os \<longrightarrow> sint shortfall - worth ps \<le> sint rest)"
  using assms
proof (induction ps arbitrary: shortfall s os skipped)
  case (Cons p ps)
  consider (closed) "\<not> 0 < sint shortfall" | (skip) "0 < sint shortfall" "\<not> eligible p" | (sell) "0 < sint shortfall" "eligible p" by blast
  then show ?case
  proof cases
    case closed
    then show ?thesis using reduce_positions_covered [OF Cons.prems] worth_nonneg [of "p # ps"] by simp
  next
    case skip
    obtain skipped1 where "reduce_positions submit account ps shortfall s = (os, skipped1, rest, s')"
      using reduce_positions_ineligible [OF Cons.prems skip] .
    then show ?thesis using Cons.IH skip(2) by simp
  next
    case sell
    obtain ord shortfall1 s1 os1 where one: "reduce_position submit account shortfall p s = (ord, shortfall1, s1)"
      and rest: "reduce_positions submit account ps shortfall1 s1 = (os1, skipped, rest, s')" and os: "os = ord # os1"
      using reduce_positions_eligible [OF Cons.prems sell] .
    note ord = reduce_position_order [OF one sell(1)]
    define w where "w = sint (liq_quantity p) * sint (liq_price p)"
    define n where "n = sint (quantity_sold ord) * sint (reference_price ord)"
    have q: "0 < n" "n \<le> w" "n = w \<or> sint shortfall \<le> n"
      using quantity_to_sell_bounds [OF sell] sell(2) ord(3,4) by (auto simp: w_def n_def eligible_def intro: mult_right_mono)
    have e: "filled_at_least ord \<Longrightarrow> n \<le> executed_by ord" "filled_at_most ord \<Longrightarrow> executed_by ord \<le> n"
      using q(1) by (auto simp: filled_at_least_def filled_at_most_def executed_by_def n_def)
    have w: "worth (p # ps) = w + worth ps" using sell(2) by (simp add: w_def)
    show ?thesis
      using Cons.IH [OF rest] e q ord(1) worth_nonneg [of ps] unfolding os w by auto
  qed
qed simp

text \<open>C18. What a liquidation leaves open is exactly what the notionals executed by its orders leave of the shortfall, whatever they
  executed. While something stays open, every long position with a known price has been ordered, the largest first, and
  every other held one is reported as skipped. Where each order executed at least its quantity at the reference price, no more
  stays open than the part of the shortfall that exceeds what those positions are worth, so that the shortfall is covered
  whenever the account can cover it; where each executed exactly that, exactly this part stays open.\<close>

theorem liquidation_covers_shortfall:
  assumes "evaluate_and_liquidate th submit snap s = (out, s')" and "out_state out = RiskLiquidation"
    and "0 <s snap_outstanding snap - target_outstanding th snap"
  defines "shortfall \<equiv> sint (snap_outstanding snap - target_outstanding th snap)"
    and "positions \<equiv> sort_by_notional (snap_positions snap)"
  shows "sint (out_shortfall out) = max 0 (shortfall - sum_list (map executed_by (out_orders out))) \<and>
    (if 0 <s out_shortfall out
     then map reduced_instrument (out_orders out) = map liq_instrument (filter eligible positions) \<and>
       out_skipped out = map liq_instrument (filter (\<lambda>p. 0 < sint (liq_quantity p) \<and> \<not> eligible p) positions) else True) \<and>
    (if list_all filled_at_least (out_orders out)
     then sint (out_shortfall out) \<le> max 0 (shortfall - worth (snap_positions snap)) else True) \<and>
    (if list_all (\<lambda>ord. sint (notional_reduced ord) = sint (quantity_sold ord) * sint (reference_price ord)) (out_orders out)
     then sint (out_shortfall out) = max 0 (shortfall - worth (snap_positions snap)) else True)"
proof -
  obtain os skipped rest s1 where r: "reduce_positions submit (snap_account snap) positions
      (snap_outstanding snap - target_outstanding th snap) s = (os, skipped, rest, s1)" by (metis prod_cases4)
  have "classify_utilization (utilization_percent snap) th = RiskLiquidation"
    using out_state_eq [of th submit snap s] assms(1,2) by simp
  then have out: "out_orders out = os" "out_skipped out = skipped" "sint (out_shortfall out) = max 0 (sint rest)"
    using assms(1,3) r by (auto simp: positions_def evaluate_and_liquidate_def Let_def word_sle_eq word_sless_alt split: if_splits)
  have w: "worth positions = worth (snap_positions snap)" unfolding positions_def by (rule worth_mset) simp
  have "list_all filled_at_least os \<and> list_all filled_at_most os"
    if "list_all (\<lambda>ord. sint (notional_reduced ord) = sint (quantity_sold ord) * sint (reference_price ord)) os"
    using that by (auto simp: list_all_iff filled_at_least_def filled_at_most_def)
  then show ?thesis
    using reduce_positions_orders [OF r] reduce_positions_open [OF r] reduce_positions_worth [OF r]
    by (auto simp: out w word_sless_alt shortfall_def)
qed

text \<open>The server's own submission, with a matching engine that fills a market order whole at the reference price.\<close>

definition demo_buyer :: "order_wire_request \<Rightarrow> string + order_wire_response" where
  "demo_buyer w = Inr \<lparr>response_trades = [\<lparr>event_buyer = ''a'', event_seller = ''b'', event_price = 20, event_quantity = wire_quantity w\<rparr>],
     response_error = None, response_sequence = Some 1\<rparr>"

definition demo_long :: leverage_snapshot where
  "demo_long = \<lparr>snap_account = ''b'', snap_outstanding = 500, snap_pledged = 0, snap_positions =
     [\<lparr>liq_instrument = ''X'', liq_quantity = 50, liq_price = 20, liq_price_known = True\<rparr>]\<rparr>"

lemma demo_reduction_passes:
  "first_rejection (gate_verdicts (demo_environment engine) (reducing_request ''b'' ''X'' 25) demo_gateway) = None"
  by (simp add: gate_verdicts_def verdict_defs demo_defs reducing_request_def is_trading_halted_def check_and_reserve_exposure_def
    over_limit_def evaluate_order_def order_notional_def risk_notional_def Let_def lookup_or_def
    positions_for_account_def reserve_unpledged_for_sell_def pledged_quantity_def pledge_of_def nested_lookup_def
    reserved_for_pending_sell_def word_sle_eq word_sless_alt)

lemma demo_reduction:
  "fst (submit_reducing_order (\<lambda>ins. demo_environment demo_buyer) ''b'' ''X'' 25 500 demo_gateway) = (True, 500, None)"
proof -
  let ?env = "demo_environment demo_buyer" and ?r = "reducing_request ''b'' ''X'' 25"
  obtain ack s1 where a: "accept_order ?env ?r '''' (gated_state ?env ?r demo_gateway) = (ack, s1)" by fastforce
  have ack: "ack_was_accepted ack" "ack_trade_executions ack = []"
    using a by (auto simp: accept_order_def allocate_next_sequence_number_def empty_acknowledgement_def Let_def split: option.splits)
  have "ack_was_accepted (fst (route_order ?env ?r '''' h ack s1)) \<and>
      map (\<lambda>t. trade_executed_price t * trade_executed_quantity t) (ack_trade_executions (fst (route_order ?env ?r '''' h ack s1))) = [500]" for h
    using ack by (simp add: route_order_def demo_environment_def demo_buyer_def wire_request_def reducing_request_def
      process_fill_def settle_trade_def Let_def)
  moreover have "process_order_submission ?env ?r '''' demo_gateway = route_order ?env ?r '''' (sells_holding ?r) ack s1"
    using submission_accepted [OF demo_reduction_passes a] by (simp add: reducing_request_def)
  ultimately show ?thesis
    by (simp add: submit_reducing_order_def case_prod_beta)
qed

theorem liquidation_covers_shortfall_witness:
  "case evaluate_and_liquidate liquidation_thresholds (submit_reducing_order (\<lambda>ins. demo_environment demo_buyer)) demo_long demo_gateway of
     (out, s') \<Rightarrow> map notional_reduced (out_orders out) = [500] \<and> out_shortfall out = 0"
proof -
  let ?submit = "submit_reducing_order (\<lambda>ins. demo_environment demo_buyer)"
  have t: "target_outstanding liquidation_thresholds demo_long = 0"
    by (simp add: target_outstanding_def demo_long_def float_of_int64_def float_mul_def int64_of_float_def)
  obtain out s' where e: "evaluate_and_liquidate liquidation_thresholds ?submit demo_long demo_gateway = (out, s')" by fastforce
  obtain s1 where one: "?submit ''b'' ''X'' 25 500 demo_gateway = ((True, 500, None), s1)"
    using demo_reduction by (metis prod.collapse)
  have os: "map (\<lambda>ord. (quantity_sold ord, reference_price ord, notional_reduced ord)) (out_orders out) = [(25, 20, 500)]"
    and st: "out_state out = RiskLiquidation"
    using e unfolding evaluate_and_liquidate_def t
    by (auto simp: demo_long_def evaluation_defs one Let_def split: if_splits)
  have open0: "snap_outstanding demo_long - target_outstanding liquidation_thresholds demo_long = 500"
    unfolding t by (simp add: demo_long_def)
  have "list_all (\<lambda>ord. sint (notional_reduced ord) = sint (quantity_sold ord) * sint (reference_price ord)) (out_orders out)"
    using os by (auto simp: list_all_iff)
  then have "sint (out_shortfall out) = max 0 (500 - worth (snap_positions demo_long))"
    using liquidation_covers_shortfall [OF e st] by (simp add: open0 word_sless_alt)
  then have "sint (out_shortfall out) = 0" by (simp add: demo_long_def eligible_def)
  then have "out_shortfall out = 0" by (metis signed_word_eqI sint_0)
  moreover have "map notional_reduced (out_orders out) = [500]"
    using arg_cong [OF os, of "map (snd \<circ> snd)"] by (simp add: comp_def)
  ultimately show ?thesis by (simp add: e)
qed

section \<open>What the engine misses\<close>

text \<open>The collateral that backs a funding is what the pledge gate keeps from being sold: a reducing order beyond the unpledged holding
  is rejected, so an account whose whole holding is pledged is never brought back under the limit.\<close>

theorem pledged_collateral_not_sold:
  assumes "q \<noteq> 0"
    and "fst (reserve_unpledged_for_sell account ins q
      (lookup_or 0 (positions_for_account account (gw_positions s)) ins) (gw_pledges s)) \<noteq> None"
  shows "\<exists>e. fst (submit_reducing_order env account ins q assumed s) = (False, 0, Some e)"
proof -
  have "pledge_verdict (env ins) (reducing_request account ins q) s \<noteq> None"
    using assms by (simp add: pledge_verdict_def reducing_request_def)
  then obtain code where "first_rejection (gate_verdicts (env ins) (reducing_request account ins q) s) = Some code"
    using accepted_pledge_verdict by (metis option.exhaust)
  from submission_rejected [OF this, where actor = "''''"] show ?thesis
    by (fastforce simp: submit_reducing_order_def rejection_acknowledgement_def)
qed

text \<open>The mutex serialises the actions and not the snapshots: two evaluations that have read the account before either acts both
  sell the whole shortfall.\<close>

lemma demo_liquidation_orders:
  "map (\<lambda>ord. (reduced_instrument ord, quantity_sold ord, notional_reduced ord))
    (out_orders (fst (evaluate_and_liquidate liquidation_thresholds full_fill demo_snapshot n))) = [(''Y'', 72, 504)]"
  unfolding evaluate_and_liquidate_def demo_target
  by (simp add: demo_snapshot_def utilization_percent_def classify_utilization_def sort_by_notional_def
      word_sle_eq word_sless_alt reduce_positions_Cons eligible_def reduce_position_def quantity_to_sell_def ceil_div_def
      int64_div_def int64_mod_def signed_divide_int_def signed_modulo_int_def full_fill_def Let_def)

theorem overlapping_evaluations_sell_twice:
  "case evaluate_and_liquidate liquidation_thresholds full_fill demo_snapshot 0 of (first, n) \<Rightarrow>
    case evaluate_and_liquidate liquidation_thresholds full_fill demo_snapshot n of (second, _) \<Rightarrow>
      sum_list (map notional_reduced (out_orders first)) + sum_list (map notional_reduced (out_orders second)) = 1008 \<and>
      snap_outstanding demo_snapshot = 500"
proof -
  have sold: "sum_list (map notional_reduced (out_orders (fst (evaluate_and_liquidate liquidation_thresholds full_fill demo_snapshot n)))) = 504" for n
    using arg_cong [OF demo_liquidation_orders [of n], of "\<lambda>xs. sum_list (map (snd \<circ> snd) xs)"] by (simp add: comp_def)
  show ?thesis by (simp add: case_prod_beta sold) (simp add: demo_snapshot_def)
qed

text \<open>A liquidation sells and does not repay: the funding that the next evaluation measures is what it was.\<close>

theorem liquidation_keeps_principal:
  "outstanding_funding (cr_funding (snd (liquidation_evaluate_handler map_order env account s))) a = outstanding_funding (cr_funding s) a"
  by (simp add: liquidation_evaluate_handler_def act_on_snapshot_def split: prod.splits)

end
