(* ===== verification/MultiLegOptions.thy ===== *)
theory MultiLegOptions
  imports OrderPipeline "HOL-Library.Multiset"
begin

text \<open>
  Option strategies of several legs, services/oms-gateway/internal/multilegoptions/multiLegOptionsStrategy.go and its handler in
  cmd/server/main.go: the shape of a named strategy is validated, then the legs are submitted in order, and where one is rejected
  the accepted ones are compensated by orders of the opposite side. The submission of a leg is a parameter of the execution; the
  handler passes \<open>processOrderSubmission\<close>. The texts of the errors are the values formatted into them.
\<close>

section \<open>Legs\<close>

record option_leg =
  leg_instrument :: string
  leg_type :: string
  leg_strike :: int64
  leg_premium :: int64
  leg_is_buy :: bool
  leg_quantity :: uint64

datatype multileg_error = UnknownStrategyShape | NoLegs | ZeroLegQuantity | UnknownOptionType | NegativeStrikePrice
  | NegativePremium | EmptyLegInstrument | LegShapeMismatch string

fun validate_each_leg :: "option_leg list \<Rightarrow> multileg_error option" where
  "validate_each_leg [] = None"
| "validate_each_leg (l # ls) =
    (if leg_instrument l = [] then Some EmptyLegInstrument
     else if leg_quantity l = 0 then Some ZeroLegQuantity
     else if leg_type l \<noteq> ''CALL'' \<and> leg_type l \<noteq> ''PUT'' then Some UnknownOptionType
     else if leg_strike l <s 0 then Some NegativeStrikePrice
     else if leg_premium l <s 0 then Some NegativePremium
     else validate_each_leg ls)"

definition validate_legs_generally :: "option_leg list \<Rightarrow> multileg_error option" where
  "validate_legs_generally ls = (if ls = [] then Some NoLegs else validate_each_leg ls)"

definition legs_of_type :: "string \<Rightarrow> option_leg list \<Rightarrow> option_leg list" where
  "legs_of_type t ls = filter (\<lambda>l. leg_type l = t) ls"

text \<open>Two legs with the lower strike first; legs of one strike keep their order.\<close>

definition by_strike :: "option_leg \<Rightarrow> option_leg \<Rightarrow> option_leg \<times> option_leg" where
  "by_strike a b = (if leg_strike b <s leg_strike a then (b, a) else (a, b))"

definition shape_mismatch :: "string \<Rightarrow> multileg_error option" where
  "shape_mismatch reason = Some (LegShapeMismatch reason)"

definition validate_straddle :: "option_leg list \<Rightarrow> multileg_error option" where
  "validate_straddle ls =
    (if length ls \<noteq> 2 then shape_mismatch ''a straddle requires exactly 2 legs''
     else let calls = legs_of_type ''CALL'' ls; puts = legs_of_type ''PUT'' ls in
       if length calls \<noteq> 1 \<or> length puts \<noteq> 1 then shape_mismatch ''a straddle requires exactly one CALL leg and one PUT leg''
       else if leg_strike (calls ! 0) \<noteq> leg_strike (puts ! 0) then shape_mismatch ''a straddle's CALL and PUT legs must share the same strike price''
       else if leg_quantity (calls ! 0) \<noteq> leg_quantity (puts ! 0) then shape_mismatch ''a straddle's CALL and PUT legs must have the same quantity''
       else if leg_is_buy (calls ! 0) \<noteq> leg_is_buy (puts ! 0) then shape_mismatch ''a straddle's CALL and PUT legs must both be bought or both be sold''
       else None)"

definition validate_strangle :: "option_leg list \<Rightarrow> multileg_error option" where
  "validate_strangle ls =
    (if length ls \<noteq> 2 then shape_mismatch ''a strangle requires exactly 2 legs''
     else let calls = legs_of_type ''CALL'' ls; puts = legs_of_type ''PUT'' ls in
       if length calls \<noteq> 1 \<or> length puts \<noteq> 1 then shape_mismatch ''a strangle requires exactly one CALL leg and one PUT leg''
       else if leg_strike (calls ! 0) \<le>s leg_strike (puts ! 0) then shape_mismatch ''a strangle's CALL strike must be strictly above its PUT strike''
       else if leg_quantity (calls ! 0) \<noteq> leg_quantity (puts ! 0) then shape_mismatch ''a strangle's CALL and PUT legs must have the same quantity''
       else if leg_is_buy (calls ! 0) \<noteq> leg_is_buy (puts ! 0) then shape_mismatch ''a strangle's CALL and PUT legs must both be bought or both be sold''
       else None)"

definition validate_bull_call_spread :: "option_leg list \<Rightarrow> multileg_error option" where
  "validate_bull_call_spread ls =
    (if length ls \<noteq> 2 then shape_mismatch ''a bull call spread requires exactly 2 legs''
     else let calls = legs_of_type ''CALL'' ls in
       if length calls \<noteq> 2 then shape_mismatch ''a bull call spread requires exactly 2 CALL legs''
       else let (lower, higher) = by_strike (calls ! 0) (calls ! 1) in
         if leg_strike lower = leg_strike higher then shape_mismatch ''a bull call spread requires two DISTINCT strikes''
         else if leg_quantity lower \<noteq> leg_quantity higher then shape_mismatch ''a bull call spread's two legs must have the same quantity''
         else if \<not> leg_is_buy lower then shape_mismatch ''a bull call spread must BUY the lower-strike CALL''
         else if leg_is_buy higher then shape_mismatch ''a bull call spread must SELL the higher-strike CALL''
         else None)"

definition validate_bear_put_spread :: "option_leg list \<Rightarrow> multileg_error option" where
  "validate_bear_put_spread ls =
    (if length ls \<noteq> 2 then shape_mismatch ''a bear put spread requires exactly 2 legs''
     else let puts = legs_of_type ''PUT'' ls in
       if length puts \<noteq> 2 then shape_mismatch ''a bear put spread requires exactly 2 PUT legs''
       else let (lower, higher) = by_strike (puts ! 0) (puts ! 1) in
         if leg_strike lower = leg_strike higher then shape_mismatch ''a bear put spread requires two DISTINCT strikes''
         else if leg_quantity lower \<noteq> leg_quantity higher then shape_mismatch ''a bear put spread's two legs must have the same quantity''
         else if \<not> leg_is_buy higher then shape_mismatch ''a bear put spread must BUY the higher-strike PUT''
         else if leg_is_buy lower then shape_mismatch ''a bear put spread must SELL the lower-strike PUT''
         else None)"

definition validate_iron_condor :: "option_leg list \<Rightarrow> multileg_error option" where
  "validate_iron_condor ls =
    (if length ls \<noteq> 4 then shape_mismatch ''an iron condor requires exactly 4 legs''
     else let calls = legs_of_type ''CALL'' ls; puts = legs_of_type ''PUT'' ls in
       if length calls \<noteq> 2 \<or> length puts \<noteq> 2 then shape_mismatch ''an iron condor requires exactly 2 CALL legs and 2 PUT legs''
       else let (put_low, put_high) = by_strike (puts ! 0) (puts ! 1); (call_low, call_high) = by_strike (calls ! 0) (calls ! 1) in
         if leg_strike put_low = leg_strike put_high then shape_mismatch ''an iron condor's two PUT legs must have distinct strikes''
         else if leg_strike call_low = leg_strike call_high then shape_mismatch ''an iron condor's two CALL legs must have distinct strikes''
         else if \<not> leg_is_buy put_low then shape_mismatch ''an iron condor must BUY the lower-strike (further OTM) PUT''
         else if leg_is_buy put_high then shape_mismatch ''an iron condor must SELL the higher-strike (nearer-the-money) PUT''
         else if leg_is_buy call_low then shape_mismatch ''an iron condor must SELL the lower-strike (nearer-the-money) CALL''
         else if \<not> leg_is_buy call_high then shape_mismatch ''an iron condor must BUY the higher-strike (further OTM) CALL''
         else if leg_strike call_low <s leg_strike put_high
           then shape_mismatch ''an iron condor's short PUT strike must not be above its short CALL strike (wings must not cross)''
         else if \<exists>l\<in>set ls. leg_quantity l \<noteq> leg_quantity put_low then shape_mismatch ''every leg of an iron condor must have the same quantity''
         else None)"

text \<open>The butterfly sorts its legs by exchanges: the inner loop compares each later element with the one in front.\<close>

fun exchange_pass :: "option_leg \<Rightarrow> option_leg list \<Rightarrow> option_leg \<times> option_leg list" where
  "exchange_pass x [] = (x, [])"
| "exchange_pass x (y # ys) =
    (if leg_strike y <s leg_strike x then case exchange_pass y ys of (least, rest) \<Rightarrow> (least, x # rest)
     else case exchange_pass x ys of (least, rest) \<Rightarrow> (least, y # rest))"

lemma exchange_pass_mset: "exchange_pass x ys = (least, rest) \<Longrightarrow> add_mset least (mset rest) = add_mset x (mset ys)"
  by (induction x ys arbitrary: least rest rule: exchange_pass.induct) (fastforce split: if_splits prod.splits)+

lemma exchange_pass_length: "exchange_pass x ys = (least, rest) \<Longrightarrow> length rest = length ys"
  by (drule exchange_pass_mset, drule arg_cong [where f = size]) simp

function exchange_sort :: "option_leg list \<Rightarrow> option_leg list" where
  "exchange_sort [] = []"
| "exchange_sort (x # xs) = (case exchange_pass x xs of (least, rest) \<Rightarrow> least # exchange_sort rest)"
  by pat_completeness auto

termination by (relation "measure length") (auto dest!: exchange_pass_length [OF sym])

definition validate_butterfly :: "option_leg list \<Rightarrow> multileg_error option" where
  "validate_butterfly ls =
    (if length ls \<noteq> 3 then shape_mismatch ''a butterfly requires exactly 3 legs''
     else let calls = legs_of_type ''CALL'' ls in
       if length calls \<noteq> 3 then shape_mismatch ''a butterfly requires exactly 3 CALL legs''
       else let sorted_legs = exchange_sort calls; low = sorted_legs ! 0; body = sorted_legs ! 1; high = sorted_legs ! 2 in
         if leg_strike low = leg_strike body \<or> leg_strike body = leg_strike high then shape_mismatch ''a butterfly's three strikes must be distinct''
         else if leg_strike body - leg_strike low \<noteq> leg_strike high - leg_strike body
           then shape_mismatch ''a butterfly's wings must be equally spaced around the body strike''
         else if \<not> leg_is_buy low \<or> \<not> leg_is_buy high then shape_mismatch ''a butterfly must BUY both wing legs''
         else if leg_is_buy body then shape_mismatch ''a butterfly must SELL the body (middle strike) leg''
         else if leg_quantity body \<noteq> 2 * leg_quantity low then shape_mismatch ''a butterfly's body quantity must be exactly double each wing's quantity''
         else if leg_quantity low \<noteq> leg_quantity high then shape_mismatch ''a butterfly's two wing legs must have the same quantity''
         else None)"

definition validate_strategy_shape :: "string \<Rightarrow> option_leg list \<Rightarrow> multileg_error option" where
  "validate_strategy_shape shape ls =
    (case validate_legs_generally ls of Some e \<Rightarrow> Some e
     | None \<Rightarrow> if shape = ''STRADDLE'' then validate_straddle ls
         else if shape = ''STRANGLE'' then validate_strangle ls
         else if shape = ''BULL_CALL_SPREAD'' then validate_bull_call_spread ls
         else if shape = ''BEAR_PUT_SPREAD'' then validate_bear_put_spread ls
         else if shape = ''IRON_CONDOR'' then validate_iron_condor ls
         else if shape = ''BUTTERFLY'' then validate_butterfly ls
         else Some UnknownStrategyShape)"

section \<open>Execution\<close>

text \<open>A submission answers whether the leg was accepted, the reason of a rejection, and an error.\<close>

type_synonym 's submit_leg = "option_leg \<Rightarrow> 's \<Rightarrow> (bool \<times> string \<times> string option) \<times> 's"

record leg_outcome =
  outcome_leg :: option_leg
  leg_accepted :: bool
  rejection_reason :: string
  was_rolled_back :: bool
  rollback_accepted :: bool
  rollback_error :: string

text \<open>The failure carries the rejected leg and the reason, the values of its text; the error that is returned beside a result
  with a failure is \<open>ErrLegRejectedDuringExecution\<close> with that text.\<close>

record strategy_result =
  result_strategy :: string
  fully_executed :: bool
  leg_outcomes :: "leg_outcome list"
  failure_reason :: "(option_leg \<times> string) option"

abbreviation opposite_leg :: "option_leg \<Rightarrow> option_leg" where
  "opposite_leg l \<equiv> l\<lparr>leg_is_buy := \<not> leg_is_buy l\<rparr>"

fun mark_rolled_back :: "option_leg \<Rightarrow> bool \<Rightarrow> string \<Rightarrow> leg_outcome list \<Rightarrow> leg_outcome list" where
  "mark_rolled_back l acc message [] = []"
| "mark_rolled_back l acc message (out # outs) =
    (if outcome_leg out = l \<and> \<not> was_rolled_back out
     then out\<lparr>was_rolled_back := True, rollback_accepted := acc, rollback_error := message\<rparr> # outs
     else out # mark_rolled_back l acc message outs)"

definition rollback_message :: "bool \<times> string \<times> string option \<Rightarrow> string" where
  "rollback_message answer = (case answer of (acc, reason, err) \<Rightarrow>
     (case err of Some e \<Rightarrow> e | None \<Rightarrow> if acc then '''' else reason))"

fun roll_back_accepted_legs :: "'s submit_leg \<Rightarrow> option_leg list \<Rightarrow> leg_outcome list \<Rightarrow> 's \<Rightarrow> leg_outcome list \<times> 's" where
  "roll_back_accepted_legs submit [] outs s = (outs, s)"
| "roll_back_accepted_legs submit (l # ls) outs s =
    (case submit (opposite_leg l) s of (answer, s') \<Rightarrow>
       roll_back_accepted_legs submit ls (mark_rolled_back l (fst answer) (rollback_message answer) outs) s')"

definition leg_outcome_of :: "option_leg \<Rightarrow> bool \<times> string \<times> string option \<Rightarrow> leg_outcome" where
  "leg_outcome_of l answer = (case answer of (acc, reason, err) \<Rightarrow>
     \<lparr>outcome_leg = l, leg_accepted = acc,
      rejection_reason = (case err of Some e \<Rightarrow> if reason = [] then e else reason | None \<Rightarrow> reason),
      was_rolled_back = False, rollback_accepted = False, rollback_error = ''''\<rparr>)"

fun submit_legs :: "'s submit_leg \<Rightarrow> option_leg list \<Rightarrow> option_leg list \<Rightarrow> leg_outcome list \<Rightarrow> 's \<Rightarrow>
    (leg_outcome list \<times> (option_leg \<times> string) option) \<times> 's" where
  "submit_legs submit accepted [] outs s = ((outs, None), s)"
| "submit_legs submit accepted (l # ls) outs s =
    (case submit l s of (answer, s') \<Rightarrow>
       let out = leg_outcome_of l answer in
       if \<not> fst answer
       then case roll_back_accepted_legs submit accepted (outs @ [out]) s' of
         (outs', s'') \<Rightarrow> ((outs', Some (l, rejection_reason out)), s'')
       else submit_legs submit (accepted @ [l]) ls (outs @ [out]) s')"

definition execute_strategy_atomically :: "string \<Rightarrow> option_leg list \<Rightarrow> 's submit_leg \<Rightarrow> 's \<Rightarrow> (multileg_error + strategy_result) \<times> 's" where
  "execute_strategy_atomically shape ls submit s =
    (case validate_strategy_shape shape ls of
       Some e \<Rightarrow> (Inl e, s)
     | None \<Rightarrow> (case submit_legs submit [] ls [] s of ((outs, failure), s') \<Rightarrow>
         (Inr \<lparr>result_strategy = shape, fully_executed = (failure = None), leg_outcomes = outs, failure_reason = failure\<rparr>, s')))"

section \<open>The server\<close>

text \<open>What the partners answer may differ from one submission to the next: there is an environment for each. A refused request
  answers with its error, \<open>None\<close> where it names no account.\<close>

definition leg_request :: "string \<Rightarrow> option_leg \<Rightarrow> order_submission_request" where
  "leg_request account l = \<lparr>request_account = account, request_instrument = leg_instrument l, request_is_buy = leg_is_buy l,
     request_is_market_order = False, request_is_stop_loss = False, request_stop_trigger_price = None,
     request_limit_price = leg_premium l, request_quantity = leg_quantity l, request_idempotency_key = '''',
     request_is_after_market_order = False, request_execution_type = '''', request_iceberg_visible_quantity = None,
     request_is_paper_trading = False, request_paper_reference_price = None, request_strategy_identifier = '''',
     request_confirmed_large_order = False, request_milli_share_quantity = None\<rparr>"

definition submit_leg_order :: "(nat \<Rightarrow> gateway_environment) \<Rightarrow> string \<Rightarrow> string \<Rightarrow> (nat \<times> gateway_state) submit_leg" where
  "submit_leg_order env account actor l st =
    (case process_order_submission (env (fst st)) (leg_request account l) actor (snd st) of (ack, s') \<Rightarrow>
       ((ack_was_accepted ack, ack_human_readable_reason ack, None), (fst st + 1, s')))"

definition strategy_entry :: "string \<Rightarrow> string \<Rightarrow> strategy_result \<Rightarrow> audit_entry" where
  "strategy_entry account actor r = empty_audit_entry\<lparr>audit_event := EventOrderSubmitted, audit_account := account,
     audit_detail := ''MULTI_LEG_STRATEGY_'' @ result_strategy r @ '' wasFullyExecuted='' @ (if fully_executed r then ''true'' else ''false''),
     audit_actor := actor\<rparr>"

definition execute_multileg_handler :: "(nat \<Rightarrow> gateway_environment) \<Rightarrow> string \<Rightarrow> string \<Rightarrow> string \<Rightarrow> option_leg list \<Rightarrow> gateway_state \<Rightarrow>
    (multileg_error option + strategy_result) \<times> gateway_state" where
  "execute_multileg_handler env actor account shape ls s =
    (if account = [] then (Inl None, s)
     else case execute_strategy_atomically shape ls (submit_leg_order env account actor) (0, s) of
       (Inl e, (n, s')) \<Rightarrow> (Inl (Some e), s')
     | (Inr r, (n, s')) \<Rightarrow> (Inr r, audit (env n) (strategy_entry account actor r) s'))"

section \<open>What is submitted\<close>

fun run_legs :: "'s submit_leg \<Rightarrow> option_leg list \<Rightarrow> 's \<Rightarrow> (bool \<times> string \<times> string option) list \<times> 's" where
  "run_legs submit [] s = ([], s)"
| "run_legs submit (l # ls) s =
    (case submit l s of (a, s') \<Rightarrow> (case run_legs submit ls s' of (rest, s'') \<Rightarrow> (a # rest, s'')))"

lemma run_legs_append:
  "run_legs submit (ks @ ls) s =
    (case run_legs submit ks s of (as, s') \<Rightarrow> (case run_legs submit ls s' of (bs, s'') \<Rightarrow> (as @ bs, s'')))"
  by (induction ks arbitrary: s) (simp_all split: prod.splits)

lemma run_legs_length: "run_legs submit ls s = (as, s') \<Longrightarrow> length as = length ls"
  by (induction ls arbitrary: s as) (auto split: prod.splits)

definition compensated :: "leg_outcome \<Rightarrow> bool \<times> string \<times> string option \<Rightarrow> leg_outcome" where
  "compensated out b = out\<lparr>was_rolled_back := True, rollback_accepted := fst b, rollback_error := rollback_message b\<rparr>"

lemma outcome_leg_of [simp]: "outcome_leg (leg_outcome_of l a) = l" "\<not> was_rolled_back (leg_outcome_of l a)"
  by (cases a; simp add: leg_outcome_of_def)+

lemma mark_first:
  "list_all was_rolled_back outs \<Longrightarrow> outcome_leg out = l \<Longrightarrow> \<not> was_rolled_back out \<Longrightarrow>
    mark_rolled_back l (fst b) (rollback_message b) (outs @ out # rest) = outs @ compensated out b # rest"
  by (induction outs) (auto simp: compensated_def)

text \<open>The roll-back marks the outcome of the leg it compensates, also where a leg occurs twice: the legs are compensated in the
  order of their outcomes.\<close>

lemma roll_back_marks:
  assumes "run_legs submit (map opposite_leg pre) s = (bs, s')" and "length as = length pre" and "list_all was_rolled_back outs"
  shows "roll_back_accepted_legs submit pre (outs @ map2 leg_outcome_of pre as @ rest) s =
    (outs @ map2 compensated (map2 leg_outcome_of pre as) bs @ rest, s')"
  using assms
proof (induction pre arbitrary: as outs s bs)
  case (Cons l pre)
  obtain a as' where as: "as = a # as'" using Cons.prems(2) by (cases as) auto
  obtain b s1 bs' where one: "submit (opposite_leg l) s = (b, s1)" and more: "run_legs submit (map opposite_leg pre) s1 = (bs', s')"
      and bs: "bs = b # bs'"
    using Cons.prems(1) by (auto split: prod.splits)
  have "mark_rolled_back l (fst b) (rollback_message b) (outs @ leg_outcome_of l a # map2 leg_outcome_of pre as' @ rest) =
      (outs @ [compensated (leg_outcome_of l a) b]) @ map2 leg_outcome_of pre as' @ rest"
    using Cons.prems(3) by (simp add: mark_first)
  moreover have "roll_back_accepted_legs submit pre ((outs @ [compensated (leg_outcome_of l a) b]) @ map2 leg_outcome_of pre as' @ rest) s1 =
      ((outs @ [compensated (leg_outcome_of l a) b]) @ map2 compensated (map2 leg_outcome_of pre as') bs' @ rest, s')"
    using Cons.prems(2,3) as by (intro Cons.IH [OF more]) (simp_all add: compensated_def)
  ultimately show ?case by (simp add: as bs one)
qed simp

lemma submit_legs_exact:
  assumes "submit_legs submit pre ls (map2 leg_outcome_of pre as) s = ((outs, failure), s')"
    and "length as = length pre" and "list_all fst as"
  shows "case failure of
      None \<Rightarrow> \<exists>bs. run_legs submit ls s = (bs, s') \<and> list_all fst bs \<and> outs = map2 leg_outcome_of (pre @ ls) (as @ bs)
    | Some (l, reason) \<Rightarrow> \<exists>more post bs a cs. ls = more @ l # post \<and> list_all fst bs \<and> \<not> fst a \<and> length bs = length more \<and>
        run_legs submit (more @ [l] @ map opposite_leg (pre @ more)) s = (bs @ [a] @ cs, s') \<and>
        outs = map2 compensated (map2 leg_outcome_of (pre @ more) (as @ bs)) cs @ [leg_outcome_of l a]"
  using assms
proof (induction ls arbitrary: pre as s)
  case (Cons l ls)
  obtain a s1 where one: "submit l s = (a, s1)" by fastforce
  show ?case
  proof (cases "fst a")
    case True
    have "submit_legs submit (pre @ [l]) ls (map2 leg_outcome_of (pre @ [l]) (as @ [a])) s1 = ((outs, failure), s')"
      using Cons.prems one True by (simp add: Let_def)
    from Cons.IH [OF this] Cons.prems True show ?thesis
    proof (cases failure)
      case None
      with Cons.IH [OF \<open>submit_legs submit (pre @ [l]) ls (map2 leg_outcome_of (pre @ [l]) (as @ [a])) s1 = ((outs, failure), s')\<close>]
        Cons.prems True one show ?thesis by fastforce
    next
      case (Some q)
      obtain l' reason where q: "q = (l', reason)" by fastforce
      from Cons.IH [OF \<open>submit_legs submit (pre @ [l]) ls (map2 leg_outcome_of (pre @ [l]) (as @ [a])) s1 = ((outs, failure), s')\<close>]
        Cons.prems True obtain more post bs a' cs where m: "ls = more @ l' # post" "list_all fst bs" "\<not> fst a'" "length bs = length more"
        "run_legs submit (more @ [l'] @ map opposite_leg ((pre @ [l]) @ more)) s1 = (bs @ [a'] @ cs, s')"
        "outs = map2 compensated (map2 leg_outcome_of ((pre @ [l]) @ more) ((as @ [a]) @ bs)) cs @ [leg_outcome_of l' a']"
        by (auto simp: Some q)
      have "\<exists>more' post' bs' a'' cs'. l # ls = more' @ l' # post' \<and> list_all fst bs' \<and> \<not> fst a'' \<and> length bs' = length more' \<and>
        run_legs submit (more' @ [l'] @ map opposite_leg (pre @ more')) s = (bs' @ [a''] @ cs', s') \<and>
        outs = map2 compensated (map2 leg_outcome_of (pre @ more') (as @ bs')) cs' @ [leg_outcome_of l' a'']"
        by (rule exI [of _ "l # more"], rule exI [of _ post], rule exI [of _ "a # bs"], rule exI [of _ a'], rule exI [of _ cs])
          (use m True one in simp)
      then show ?thesis by (simp add: Some q)
    qed
  next
    case False
    obtain cs s2 where undo: "run_legs submit (map opposite_leg pre) s1 = (cs, s2)" by fastforce
    have "roll_back_accepted_legs submit pre ([] @ map2 leg_outcome_of pre as @ [leg_outcome_of l a]) s1 =
        ([] @ map2 compensated (map2 leg_outcome_of pre as) cs @ [leg_outcome_of l a], s2)"
      using Cons.prems(2) by (intro roll_back_marks [OF undo]) simp_all
    then have outs: "outs = map2 compensated (map2 leg_outcome_of pre as) cs @ [leg_outcome_of l a]" "s' = s2"
        "failure = Some (l, rejection_reason (leg_outcome_of l a))"
      using Cons.prems(1) one False by (auto simp: Let_def)
    show ?thesis unfolding outs(3) prod.case option.case
      by (rule exI [of _ "[]"], rule exI [of _ ls], rule exI [of _ "[]"], rule exI [of _ a], rule exI [of _ cs])
        (use outs one undo False in simp)
  qed
qed simp

text \<open>C15. A strategy is executed whole or compensated: either every leg is submitted once, in order, and accepted; or the legs up to
  the first rejected one are, and then, in the same order, one opposite order for each accepted leg and for nothing else, and each
  outcome records the answers to its own leg and to its own compensation. A strategy of the wrong shape submits nothing.\<close>

theorem strategy_whole_or_compensated:
  "case execute_strategy_atomically shape ls submit s of
     (Inl e, s') \<Rightarrow> validate_strategy_shape shape ls = Some e \<and> s' = s
   | (Inr r, s') \<Rightarrow> validate_strategy_shape shape ls = None \<and>
      (if fully_executed r
       then \<exists>as. run_legs submit ls s = (as, s') \<and> list_all fst as \<and> leg_outcomes r = map2 leg_outcome_of ls as
       else \<exists>pre l post as a bs. ls = pre @ l # post \<and> list_all fst as \<and> \<not> fst a \<and> length as = length pre \<and>
         run_legs submit (pre @ [l] @ map opposite_leg pre) s = (as @ [a] @ bs, s') \<and>
         leg_outcomes r = map2 compensated (map2 leg_outcome_of pre as) bs @ [leg_outcome_of l a])"
proof (cases "validate_strategy_shape shape ls")
  case None
  obtain outs failure s' where x: "submit_legs submit [] ls [] s = ((outs, failure), s')" by (metis surj_pair)
  have "submit_legs submit [] ls (map2 leg_outcome_of [] []) s = ((outs, failure), s')" using x by simp
  note exact' = submit_legs_exact [OF this]
  have exact: "case failure of
      None \<Rightarrow> \<exists>bs. run_legs submit ls s = (bs, s') \<and> list_all fst bs \<and> outs = map2 leg_outcome_of ls bs
    | Some (l, reason) \<Rightarrow> \<exists>more post bs a cs. ls = more @ l # post \<and> list_all fst bs \<and> \<not> fst a \<and> length bs = length more \<and>
        run_legs submit (more @ [l] @ map opposite_leg more) s = (bs @ [a] @ cs, s') \<and>
        outs = map2 compensated (map2 leg_outcome_of more bs) cs @ [leg_outcome_of l a]"
    using exact' by (simp only: append_Nil list.size list.pred_inject simp_thms)
  show ?thesis
  proof (cases failure)
    case None
    with exact show ?thesis by (simp add: execute_strategy_atomically_def \<open>validate_strategy_shape shape ls = None\<close> x)
  next
    case (Some q)
    obtain l reason where q: "q = (l, reason)" by fastforce
    from exact show ?thesis
      by (simp add: execute_strategy_atomically_def \<open>validate_strategy_shape shape ls = None\<close> x Some q) blast
  qed
qed (simp add: execute_strategy_atomically_def)

section \<open>The shapes\<close>

text \<open>A strategy as a textbook gives it: a collection of legs, in any order, up to instruments and premiums.\<close>

definition leg_terms :: "option_leg \<Rightarrow> string \<times> int \<times> bool \<times> uint64" where
  "leg_terms l = (leg_type l, sint (leg_strike l), leg_is_buy l, leg_quantity l)"

definition leg_well_formed :: "option_leg \<Rightarrow> bool" where
  "leg_well_formed l \<longleftrightarrow> leg_instrument l \<noteq> [] \<and> leg_quantity l \<noteq> 0 \<and> (leg_type l = ''CALL'' \<or> leg_type l = ''PUT'') \<and>
    0 \<le> sint (leg_strike l) \<and> 0 \<le> sint (leg_premium l)"

definition textbook_shape :: "string \<Rightarrow> (string \<times> int \<times> bool \<times> uint64) multiset \<Rightarrow> bool" where
  "textbook_shape shape M \<longleftrightarrow>
    (if shape = ''STRADDLE'' then \<exists>k b q. M = {#(''CALL'', k, b, q), (''PUT'', k, b, q)#}
     else if shape = ''STRANGLE'' then \<exists>k k' b q. k < k' \<and> M = {#(''PUT'', k, b, q), (''CALL'', k', b, q)#}
     else if shape = ''BULL_CALL_SPREAD'' then \<exists>k k' q. k < k' \<and> M = {#(''CALL'', k, True, q), (''CALL'', k', False, q)#}
     else if shape = ''BEAR_PUT_SPREAD'' then \<exists>k k' q. k < k' \<and> M = {#(''PUT'', k, False, q), (''PUT'', k', True, q)#}
     else if shape = ''IRON_CONDOR'' then \<exists>k1 k2 k3 k4 q. k1 < k2 \<and> k2 \<le> k3 \<and> k3 < k4 \<and>
       M = {#(''PUT'', k1, True, q), (''PUT'', k2, False, q), (''CALL'', k3, False, q), (''CALL'', k4, True, q)#}
     else if shape = ''BUTTERFLY'' then \<exists>k d q. 0 < d \<and>
       M = {#(''CALL'', k - d, True, q), (''CALL'', k, False, 2 * q), (''CALL'', k + d, True, q)#}
     else False)"

lemma each_leg_valid: "validate_each_leg ls = None \<longleftrightarrow> list_all leg_well_formed ls"
  by (induction ls) (auto simp: leg_well_formed_def word_sless_alt)

lemma one_leg: "image_mset leg_terms (mset xs) = {#t#} \<longleftrightarrow> (\<exists>a. xs = [a] \<and> leg_terms a = t)"
  by (cases xs) auto

lemma two_legs:
  "image_mset leg_terms (mset xs) = {#t, u#} \<longleftrightarrow>
    (\<exists>a b. xs = [a, b] \<and> (leg_terms a = t \<and> leg_terms b = u \<or> leg_terms a = u \<and> leg_terms b = t))"
proof (cases xs)
  case (Cons a ys)
  then show ?thesis
    using one_leg [of ys t] one_leg [of ys u] by (auto simp: add_eq_conv_ex)
qed simp

lemma three_legs:
  "image_mset leg_terms (mset xs) = {#t, u, v#} \<longleftrightarrow>
    (\<exists>a b c. xs = [a, b, c] \<and> {#leg_terms a, leg_terms b, leg_terms c#} = {#t, u, v#})"
proof
  assume eq: "image_mset leg_terms (mset xs) = {#t, u, v#}"
  from arg_cong [OF this, of size] have "length xs = 3" by simp
  then obtain a b c where "xs = [a, b, c]" by (auto simp: length_Suc_conv eval_nat_numeral)
  with eq show "\<exists>a b c. xs = [a, b, c] \<and> {#leg_terms a, leg_terms b, leg_terms c#} = {#t, u, v#}" by simp
qed auto

lemma terms_of_type:
  "image_mset leg_terms (mset (legs_of_type t ls)) = filter_mset (\<lambda>x. fst x = t) (image_mset leg_terms (mset ls))"
  by (simp add: legs_of_type_def filter_mset_image_mset comp_def leg_terms_def)

lemma split_by_type:
  "list_all leg_well_formed ls \<Longrightarrow>
    image_mset leg_terms (mset ls) =
      image_mset leg_terms (mset (legs_of_type ''CALL'' ls)) + image_mset leg_terms (mset (legs_of_type ''PUT'' ls))"
  by (induction ls) (auto simp: legs_of_type_def leg_well_formed_def)

lemma by_strike_terms:
  "by_strike a b = (lo, hi) \<Longrightarrow> {#leg_terms lo, leg_terms hi#} = {#leg_terms a, leg_terms b#} \<and>
    sint (leg_strike lo) \<le> sint (leg_strike hi) \<and> {lo, hi} = {a, b}"
  by (auto simp: by_strike_def word_sless_alt add_mset_commute split: if_splits)

lemma strikes_differ: "leg_strike a = leg_strike b \<longleftrightarrow> sint (leg_strike a) = sint (leg_strike b)"
  by (metis signed_word_eqI)

lemma type_of_selected: "l \<in> set (legs_of_type t ls) \<Longrightarrow> leg_type l = t"
  by (simp add: legs_of_type_def)

lemma terms_length: "image_mset leg_terms (mset ls) = M \<Longrightarrow> length ls = size M"
  by (drule arg_cong [where f = size]) simp

lemma all_selected: "length (legs_of_type t ls) = length ls \<Longrightarrow> legs_of_type t ls = ls"
  by (metis filter_True legs_of_type_def length_filter_less nat_neq_iff)

lemma terms_eq: "leg_terms l = (t, k, b, q) \<longleftrightarrow> leg_type l = t \<and> sint (leg_strike l) = k \<and> leg_is_buy l = b \<and> leg_quantity l = q"
  by (simp add: leg_terms_def)

named_theorems shape_defs

lemmas [shape_defs] = Let_def shape_mismatch_def word_sle_eq word_sless_alt strikes_differ terms_eq

lemma straddle_exact:
  assumes "list_all leg_well_formed ls"
  shows "validate_straddle ls = None \<longleftrightarrow> (\<exists>k b q. image_mset leg_terms (mset ls) = {#(''CALL'', k, b, q), (''PUT'', k, b, q)#})"
proof
  assume v: "validate_straddle ls = None"
  then obtain c p where cp: "legs_of_type ''CALL'' ls = [c]" "legs_of_type ''PUT'' ls = [p]"
    by (auto simp: validate_straddle_def shape_defs length_Suc_conv split: if_splits)
  have "leg_terms p = (''PUT'', sint (leg_strike c), leg_is_buy c, leg_quantity c)" "leg_terms c = (''CALL'', sint (leg_strike c), leg_is_buy c, leg_quantity c)"
    using v cp type_of_selected [of c "''CALL''" ls] type_of_selected [of p "''PUT''" ls]
    by (simp_all add: validate_straddle_def shape_defs split: if_splits)
  then show "\<exists>k b q. image_mset leg_terms (mset ls) = {#(''CALL'', k, b, q), (''PUT'', k, b, q)#}"
    using split_by_type [OF assms] cp by (auto simp: add_mset_commute)
next
  assume "\<exists>k b q. image_mset leg_terms (mset ls) = {#(''CALL'', k, b, q), (''PUT'', k, b, q)#}"
  then obtain k b q where M: "image_mset leg_terms (mset ls) = {#(''CALL'', k, b, q), (''PUT'', k, b, q)#}" by blast
  have "image_mset leg_terms (mset (legs_of_type ''CALL'' ls)) = {#(''CALL'', k, b, q)#}"
    "image_mset leg_terms (mset (legs_of_type ''PUT'' ls)) = {#(''PUT'', k, b, q)#}" by (simp_all add: terms_of_type M)
  then show "validate_straddle ls = None"
    using terms_length [OF M] by (auto simp: one_leg validate_straddle_def shape_defs)
qed

lemma strangle_exact:
  assumes "list_all leg_well_formed ls"
  shows "validate_strangle ls = None \<longleftrightarrow>
    (\<exists>k k' b q. k < k' \<and> image_mset leg_terms (mset ls) = {#(''PUT'', k, b, q), (''CALL'', k', b, q)#})"
proof
  assume v: "validate_strangle ls = None"
  then obtain c p where cp: "legs_of_type ''CALL'' ls = [c]" "legs_of_type ''PUT'' ls = [p]"
    by (auto simp: validate_strangle_def shape_defs length_Suc_conv split: if_splits)
  have "leg_terms p = (''PUT'', sint (leg_strike p), leg_is_buy c, leg_quantity c)" "leg_terms c = (''CALL'', sint (leg_strike c), leg_is_buy c, leg_quantity c)"
      "sint (leg_strike p) < sint (leg_strike c)"
    using v cp type_of_selected [of c "''CALL''" ls] type_of_selected [of p "''PUT''" ls]
    by (simp_all add: validate_strangle_def shape_defs split: if_splits)
  then show "\<exists>k k' b q. k < k' \<and> image_mset leg_terms (mset ls) = {#(''PUT'', k, b, q), (''CALL'', k', b, q)#}"
    using split_by_type [OF assms] cp by (auto simp: add_mset_commute)
next
  assume "\<exists>k k' b q. k < k' \<and> image_mset leg_terms (mset ls) = {#(''PUT'', k, b, q), (''CALL'', k', b, q)#}"
  then obtain k k' b q where k: "k < k'" and M: "image_mset leg_terms (mset ls) = {#(''PUT'', k, b, q), (''CALL'', k', b, q)#}" by blast
  have "image_mset leg_terms (mset (legs_of_type ''CALL'' ls)) = {#(''CALL'', k', b, q)#}"
    "image_mset leg_terms (mset (legs_of_type ''PUT'' ls)) = {#(''PUT'', k, b, q)#}" by (simp_all add: terms_of_type M)
  then show "validate_strangle ls = None"
    using terms_length [OF M] k by (auto simp: one_leg validate_strangle_def shape_defs)
qed

text \<open>Two legs of one type in the order of their strikes.\<close>

lemma pair_sorted:
  assumes "image_mset leg_terms (mset xs) = {#(t, k, b, q), (t', k', b', q')#}" and "k < k'"
  shows "length xs = 2 \<and> (\<exists>lo hi. by_strike (xs ! 0) (xs ! 1) = (lo, hi) \<and> leg_terms lo = (t, k, b, q) \<and> leg_terms hi = (t', k', b', q'))"
  using assms by (auto simp: two_legs by_strike_def word_sless_alt terms_eq)

lemma pair_of:
  assumes "length xs = 2"
  obtains lo hi where "by_strike (xs ! 0) (xs ! 1) = (lo, hi)" and "image_mset leg_terms (mset xs) = {#leg_terms lo, leg_terms hi#}"
    and "sint (leg_strike lo) \<le> sint (leg_strike hi)" and "lo \<in> set xs" and "hi \<in> set xs"
proof -
  obtain a b where xs: "xs = [a, b]" using assms by (auto simp: length_Suc_conv eval_nat_numeral)
  obtain lo hi where s: "by_strike a b = (lo, hi)" by fastforce
  show ?thesis using that [of lo hi] by_strike_terms [OF s] s by (auto simp: xs)
qed

lemma bull_call_spread_exact:
  assumes "list_all leg_well_formed ls"
  shows "validate_bull_call_spread ls = None \<longleftrightarrow>
    (\<exists>k k' q. k < k' \<and> image_mset leg_terms (mset ls) = {#(''CALL'', k, True, q), (''CALL'', k', False, q)#})"
proof
  assume v: "validate_bull_call_spread ls = None"
  then have l: "length ls = 2" "length (legs_of_type ''CALL'' ls) = 2"
    by (auto simp: validate_bull_call_spread_def shape_defs split: if_splits)
  obtain lo hi where p: "by_strike (legs_of_type ''CALL'' ls ! 0) (legs_of_type ''CALL'' ls ! 1) = (lo, hi)"
    "image_mset leg_terms (mset (legs_of_type ''CALL'' ls)) = {#leg_terms lo, leg_terms hi#}"
    "sint (leg_strike lo) \<le> sint (leg_strike hi)" "lo \<in> set (legs_of_type ''CALL'' ls)" "hi \<in> set (legs_of_type ''CALL'' ls)"
    using pair_of [OF l(2)] by blast
  have "leg_terms lo = (''CALL'', sint (leg_strike lo), True, leg_quantity lo)" "leg_terms hi = (''CALL'', sint (leg_strike hi), False, leg_quantity lo)"
      "sint (leg_strike lo) < sint (leg_strike hi)"
    using v l p(1,3) type_of_selected [OF p(4)] type_of_selected [OF p(5)] by (simp_all add: validate_bull_call_spread_def shape_defs split: if_splits)
  then show "\<exists>k k' q. k < k' \<and> image_mset leg_terms (mset ls) = {#(''CALL'', k, True, q), (''CALL'', k', False, q)#}"
    using p(2) all_selected [of "''CALL''" ls] l by auto
next
  assume "\<exists>k k' q. k < k' \<and> image_mset leg_terms (mset ls) = {#(''CALL'', k, True, q), (''CALL'', k', False, q)#}"
  then obtain k k' q where k: "k < k'" and M: "image_mset leg_terms (mset ls) = {#(''CALL'', k, True, q), (''CALL'', k', False, q)#}" by blast
  have "image_mset leg_terms (mset (legs_of_type ''CALL'' ls)) = {#(''CALL'', k, True, q), (''CALL'', k', False, q)#}" by (simp add: terms_of_type M)
  from pair_sorted [OF this k] show "validate_bull_call_spread ls = None"
    using terms_length [OF M] k by (auto simp: validate_bull_call_spread_def shape_defs)
qed

lemma bear_put_spread_exact:
  assumes "list_all leg_well_formed ls"
  shows "validate_bear_put_spread ls = None \<longleftrightarrow>
    (\<exists>k k' q. k < k' \<and> image_mset leg_terms (mset ls) = {#(''PUT'', k, False, q), (''PUT'', k', True, q)#})"
proof
  assume v: "validate_bear_put_spread ls = None"
  then have l: "length ls = 2" "length (legs_of_type ''PUT'' ls) = 2"
    by (auto simp: validate_bear_put_spread_def shape_defs split: if_splits)
  obtain lo hi where p: "by_strike (legs_of_type ''PUT'' ls ! 0) (legs_of_type ''PUT'' ls ! 1) = (lo, hi)"
    "image_mset leg_terms (mset (legs_of_type ''PUT'' ls)) = {#leg_terms lo, leg_terms hi#}"
    "sint (leg_strike lo) \<le> sint (leg_strike hi)" "lo \<in> set (legs_of_type ''PUT'' ls)" "hi \<in> set (legs_of_type ''PUT'' ls)"
    using pair_of [OF l(2)] by blast
  have "leg_terms lo = (''PUT'', sint (leg_strike lo), False, leg_quantity lo)" "leg_terms hi = (''PUT'', sint (leg_strike hi), True, leg_quantity lo)"
      "sint (leg_strike lo) < sint (leg_strike hi)"
    using v l p(1,3) type_of_selected [OF p(4)] type_of_selected [OF p(5)] by (simp_all add: validate_bear_put_spread_def shape_defs split: if_splits)
  then show "\<exists>k k' q. k < k' \<and> image_mset leg_terms (mset ls) = {#(''PUT'', k, False, q), (''PUT'', k', True, q)#}"
    using p(2) all_selected [of "''PUT''" ls] l by auto
next
  assume "\<exists>k k' q. k < k' \<and> image_mset leg_terms (mset ls) = {#(''PUT'', k, False, q), (''PUT'', k', True, q)#}"
  then obtain k k' q where k: "k < k'" and M: "image_mset leg_terms (mset ls) = {#(''PUT'', k, False, q), (''PUT'', k', True, q)#}" by blast
  have "image_mset leg_terms (mset (legs_of_type ''PUT'' ls)) = {#(''PUT'', k, False, q), (''PUT'', k', True, q)#}" by (simp add: terms_of_type M)
  from pair_sorted [OF this k] show "validate_bear_put_spread ls = None"
    using terms_length [OF M] k by (auto simp: validate_bear_put_spread_def shape_defs)
qed

lemma same_quantities: "(\<exists>l\<in>set ls. leg_quantity l \<noteq> q) \<longleftrightarrow> (\<exists>x\<in>#image_mset leg_terms (mset ls). snd (snd (snd x)) \<noteq> q)"
  by (simp add: leg_terms_def)

lemma iron_condor_exact:
  assumes "list_all leg_well_formed ls"
  shows "validate_iron_condor ls = None \<longleftrightarrow> (\<exists>k1 k2 k3 k4 q. k1 < k2 \<and> k2 \<le> k3 \<and> k3 < k4 \<and> image_mset leg_terms (mset ls) =
    {#(''PUT'', k1, True, q), (''PUT'', k2, False, q), (''CALL'', k3, False, q), (''CALL'', k4, True, q)#})"
proof
  assume v: "validate_iron_condor ls = None"
  then have l: "length ls = 4" "length (legs_of_type ''CALL'' ls) = 2" "length (legs_of_type ''PUT'' ls) = 2"
    by (auto simp: validate_iron_condor_def shape_defs split: if_splits)
  obtain pl ph where p: "by_strike (legs_of_type ''PUT'' ls ! 0) (legs_of_type ''PUT'' ls ! 1) = (pl, ph)"
    "image_mset leg_terms (mset (legs_of_type ''PUT'' ls)) = {#leg_terms pl, leg_terms ph#}"
    "sint (leg_strike pl) \<le> sint (leg_strike ph)" "pl \<in> set (legs_of_type ''PUT'' ls)" "ph \<in> set (legs_of_type ''PUT'' ls)"
    using pair_of [OF l(3)] by blast
  obtain cl ch where c: "by_strike (legs_of_type ''CALL'' ls ! 0) (legs_of_type ''CALL'' ls ! 1) = (cl, ch)"
    "image_mset leg_terms (mset (legs_of_type ''CALL'' ls)) = {#leg_terms cl, leg_terms ch#}"
    "sint (leg_strike cl) \<le> sint (leg_strike ch)" "cl \<in> set (legs_of_type ''CALL'' ls)" "ch \<in> set (legs_of_type ''CALL'' ls)"
    using pair_of [OF l(2)] by blast
  note types = type_of_selected [OF p(4)] type_of_selected [OF p(5)] type_of_selected [OF c(4)] type_of_selected [OF c(5)]
  have members: "pl \<in> set ls" "ph \<in> set ls" "cl \<in> set ls" "ch \<in> set ls"
    using p(4,5) c(4,5) by (simp_all add: legs_of_type_def)
  have "\<not> (\<exists>l\<in>set ls. leg_quantity l \<noteq> leg_quantity pl)" and
    "sint (leg_strike pl) < sint (leg_strike ph)" "sint (leg_strike ph) \<le> sint (leg_strike cl)" "sint (leg_strike cl) < sint (leg_strike ch)"
    "leg_is_buy pl" "\<not> leg_is_buy ph" "\<not> leg_is_buy cl" "leg_is_buy ch"
    using v l p(1,3) c(1,3) by (simp_all add: validate_iron_condor_def shape_defs split: if_splits)
  moreover from this have "leg_quantity ph = leg_quantity pl" "leg_quantity cl = leg_quantity pl" "leg_quantity ch = leg_quantity pl"
    using members by blast+
  ultimately have "leg_terms pl = (''PUT'', sint (leg_strike pl), True, leg_quantity pl)" "leg_terms ph = (''PUT'', sint (leg_strike ph), False, leg_quantity pl)"
    "leg_terms cl = (''CALL'', sint (leg_strike cl), False, leg_quantity pl)" "leg_terms ch = (''CALL'', sint (leg_strike ch), True, leg_quantity pl)"
    "sint (leg_strike pl) < sint (leg_strike ph)" "sint (leg_strike ph) \<le> sint (leg_strike cl)" "sint (leg_strike cl) < sint (leg_strike ch)"
    using types by (simp_all add: terms_eq)
  moreover have "image_mset leg_terms (mset ls) = {#leg_terms pl, leg_terms ph, leg_terms cl, leg_terms ch#}"
    using split_by_type [OF assms] p(2) c(2) by (simp add: add_mset_commute)
  ultimately show "\<exists>k1 k2 k3 k4 q. k1 < k2 \<and> k2 \<le> k3 \<and> k3 < k4 \<and> image_mset leg_terms (mset ls) =
      {#(''PUT'', k1, True, q), (''PUT'', k2, False, q), (''CALL'', k3, False, q), (''CALL'', k4, True, q)#}" by metis
next
  assume "\<exists>k1 k2 k3 k4 q. k1 < k2 \<and> k2 \<le> k3 \<and> k3 < k4 \<and> image_mset leg_terms (mset ls) =
    {#(''PUT'', k1, True, q), (''PUT'', k2, False, q), (''CALL'', k3, False, q), (''CALL'', k4, True, q)#}"
  then obtain k1 k2 k3 k4 q where k: "k1 < k2" "k2 \<le> k3" "k3 < k4" and M: "image_mset leg_terms (mset ls) =
    {#(''PUT'', k1, True, q), (''PUT'', k2, False, q), (''CALL'', k3, False, q), (''CALL'', k4, True, q)#}" by blast
  have "image_mset leg_terms (mset (legs_of_type ''PUT'' ls)) = {#(''PUT'', k1, True, q), (''PUT'', k2, False, q)#}"
    "image_mset leg_terms (mset (legs_of_type ''CALL'' ls)) = {#(''CALL'', k3, False, q), (''CALL'', k4, True, q)#}"
    by (simp_all add: terms_of_type M)
  from pair_sorted [OF this(1) k(1)] pair_sorted [OF this(2) k(3)] show "validate_iron_condor ls = None"
    using terms_length [OF M] k by (auto simp: validate_iron_condor_def shape_defs same_quantities M)
qed

lemma exchange_pass_least:
  "exchange_pass x ys = (least, rest) \<Longrightarrow> sint (leg_strike least) \<le> sint (leg_strike x) \<and> (\<forall>z\<in>set rest. sint (leg_strike least) \<le> sint (leg_strike z))"
  by (induction x ys arbitrary: least rest rule: exchange_pass.induct)
    (fastforce simp: word_sless_alt split: if_splits prod.splits)+

lemma exchange_sort_mset [simp]: "mset (exchange_sort ls) = mset ls"
  by (induction ls rule: exchange_sort.induct) (auto dest: exchange_pass_mset split: prod.splits)

lemma exchange_sort_sorted: "sorted (map (\<lambda>l. sint (leg_strike l)) (exchange_sort ls))"
proof (induction ls rule: exchange_sort.induct)
  case (2 x xs)
  obtain least rest where p: "exchange_pass x xs = (least, rest)" by fastforce
  have "set (exchange_sort rest) = set rest" by (rule mset_eq_setD) simp
  then show ?case using 2 [OF p [symmetric]] exchange_pass_least [OF p] by (simp add: p)
qed simp

lemma three_in_order:
  fixes f :: "'a \<Rightarrow> int"
  assumes "{x, y, z} = {t, u, v}" and "f t < f u" and "f u < f v" and "f x \<le> f y" and "f y \<le> f z"
  shows "x = t \<and> y = u \<and> z = v"
proof -
  have "t \<in> {x, y, z}" "u \<in> {x, y, z}" "v \<in> {x, y, z}" using assms(1) by auto
  then show ?thesis using assms(2-5) by auto
qed

lemma three_sorted:
  assumes "image_mset leg_terms (mset xs) = {#(t, k, b, q), (t', k', b', q'), (t'', k'', b'', q'')#}" and "k < k'" and "k' < k''"
    and "sorted (map (\<lambda>l. sint (leg_strike l)) xs)"
  obtains l m h where "xs = [l, m, h]" and "leg_terms l = (t, k, b, q)" and "leg_terms m = (t', k', b', q')" and "leg_terms h = (t'', k'', b'', q'')"
proof -
  obtain x y z where xs: "xs = [x, y, z]"
    and M: "{#leg_terms x, leg_terms y, leg_terms z#} = {#(t, k, b, q), (t', k', b', q'), (t'', k'', b'', q'')#}"
    using assms(1) by (auto simp: three_legs)
  have "sint (leg_strike x) \<le> sint (leg_strike y)" "sint (leg_strike y) \<le> sint (leg_strike z)" using assms(4) by (simp_all add: xs)
  then have "leg_terms x = (t, k, b, q) \<and> leg_terms y = (t', k', b', q') \<and> leg_terms z = (t'', k'', b'', q'')"
    using arg_cong [OF M, of set_mset] assms(2,3)
    by (intro three_in_order [where f = "\<lambda>t. fst (snd t)"]) (simp_all add: leg_terms_def)
  then show ?thesis using that xs by blast
qed

lemma strike_differences:
  assumes "0 \<le> sint a" and "0 \<le> sint b" and "0 \<le> sint c"
  shows "b - a = c - b \<longleftrightarrow> sint b - sint a = sint c - sint (b :: int64)"
proof -
  have "sint (b - a) = sint b - sint a" "sint (c - b) = sint c - sint b"
    using assms sint_bounds64 [of a] sint_bounds64 [of b] sint_bounds64 [of c] by (simp_all add: sint_sub64)
  then show ?thesis by (metis signed_word_eqI)
qed

lemma butterfly_exact:
  assumes "list_all leg_well_formed ls"
  shows "validate_butterfly ls = None \<longleftrightarrow> (\<exists>k d q. 0 < d \<and> image_mset leg_terms (mset ls) =
    {#(''CALL'', k - d, True, q), (''CALL'', k, False, 2 * q), (''CALL'', k + d, True, q)#})"
proof
  assume v: "validate_butterfly ls = None"
  then have l: "length ls = 3" "length (legs_of_type ''CALL'' ls) = 3"
    by (auto simp: validate_butterfly_def shape_defs split: if_splits)
  have all: "legs_of_type ''CALL'' ls = ls" using all_selected l by simp
  have "length (exchange_sort ls) = 3" using l by (metis exchange_sort_mset size_mset)
  then obtain lo m hi where xs: "exchange_sort ls = [lo, m, hi]" by (auto simp: length_Suc_conv eval_nat_numeral)
  have M: "mset ls = {#lo, m, hi#}" using exchange_sort_mset [of ls] by (simp add: xs)
  have "set ls = {lo, m, hi}" using arg_cong [OF M, of set_mset] by simp
  then have types: "leg_type lo = ''CALL''" "leg_type m = ''CALL''" "leg_type hi = ''CALL''"
    and nonneg: "0 \<le> sint (leg_strike lo)" "0 \<le> sint (leg_strike m)" "0 \<le> sint (leg_strike hi)"
    using type_of_selected [of _ "''CALL''" ls] all assms by (auto simp: list_all_iff leg_well_formed_def)
  have "sint (leg_strike lo) \<le> sint (leg_strike m)" using exchange_sort_sorted [of ls] by (simp add: xs)
  moreover have "leg_strike lo \<noteq> leg_strike m" "leg_strike m - leg_strike lo = leg_strike hi - leg_strike m"
    "leg_is_buy lo" "leg_is_buy hi" "\<not> leg_is_buy m" "leg_quantity m = 2 * leg_quantity lo" "leg_quantity lo = leg_quantity hi"
    using v l by (simp_all add: validate_butterfly_def Let_def all xs shape_mismatch_def eval_nat_numeral split: if_splits)
  moreover define d where "d = sint (leg_strike m) - sint (leg_strike lo)"
  ultimately have "0 < d" and "leg_terms lo = (''CALL'', sint (leg_strike m) - d, True, leg_quantity lo)"
    "leg_terms m = (''CALL'', sint (leg_strike m), False, 2 * leg_quantity lo)" "leg_terms hi = (''CALL'', sint (leg_strike m) + d, True, leg_quantity lo)"
    using types strike_differences [OF nonneg] strikes_differ [of lo m] by (auto simp: terms_eq)
  then show "\<exists>k d q. 0 < d \<and> image_mset leg_terms (mset ls) =
      {#(''CALL'', k - d, True, q), (''CALL'', k, False, 2 * q), (''CALL'', k + d, True, q)#}"
    by (intro exI [of _ "sint (leg_strike m)"] exI [of _ d] exI [of _ "leg_quantity lo"]) (simp add: M)
next
  assume "\<exists>k d q. 0 < d \<and> image_mset leg_terms (mset ls) =
    {#(''CALL'', k - d, True, q), (''CALL'', k, False, 2 * q), (''CALL'', k + d, True, q)#}"
  then obtain k d q where d: "0 < d" and M: "image_mset leg_terms (mset ls) =
    {#(''CALL'', k - d, True, q), (''CALL'', k, False, 2 * q), (''CALL'', k + d, True, q)#}" by blast
  have calls: "image_mset leg_terms (mset (legs_of_type ''CALL'' ls)) =
      {#(''CALL'', k - d, True, q), (''CALL'', k, False, 2 * q), (''CALL'', k + d, True, q)#}" by (simp add: terms_of_type M)
  have all: "legs_of_type ''CALL'' ls = ls" using terms_length [OF M] terms_length [OF calls] by (intro all_selected) simp
  have sorted_terms: "image_mset leg_terms (mset (exchange_sort ls)) =
      {#(''CALL'', k - d, True, q), (''CALL'', k, False, 2 * q), (''CALL'', k + d, True, q)#}" by (simp add: M)
  obtain lo m hi where xs: "exchange_sort ls = [lo, m, hi]"
    and t: "leg_terms lo = (''CALL'', k - d, True, q)" "leg_terms m = (''CALL'', k, False, 2 * q)" "leg_terms hi = (''CALL'', k + d, True, q)"
    by (rule three_sorted [OF sorted_terms _ _ exchange_sort_sorted]) (use d in auto)
  have "mset ls = {#lo, m, hi#}" using exchange_sort_mset [of ls] by (simp add: xs)
  from arg_cong [OF this, of set_mset] have "0 \<le> sint (leg_strike lo)" "0 \<le> sint (leg_strike m)" "0 \<le> sint (leg_strike hi)"
    using assms by (auto simp: list_all_iff leg_well_formed_def)
  note strike_differences [OF this]
  then show "validate_butterfly ls = None"
    using d t terms_length [OF M] by (simp add: validate_butterfly_def Let_def all xs terms_eq strikes_differ eval_nat_numeral)
qed

text \<open>C16. A list of legs is accepted for a named strategy exactly when every leg is well formed and the legs, in whatever order they
  come, are those of the textbook: a straddle, a strangle, a bull call or bear put spread, an iron condor or a long call butterfly,
  where doubling the quantity of a butterfly is the doubling of a 64-bit word.\<close>

theorem strategy_shapes_exact:
  "validate_strategy_shape shape ls = None \<longleftrightarrow>
    list_all leg_well_formed ls \<and> textbook_shape shape (image_mset leg_terms (mset ls))"
proof (cases "ls \<noteq> [] \<and> list_all leg_well_formed ls")
  case True
  then have "validate_legs_generally ls = None" by (simp add: validate_legs_generally_def each_leg_valid)
  moreover have wf: "list_all leg_well_formed ls" using True by simp
  ultimately show ?thesis
    by (simp add: validate_strategy_shape_def textbook_shape_def straddle_exact [OF wf] strangle_exact [OF wf]
        bull_call_spread_exact [OF wf] bear_put_spread_exact [OF wf] iron_condor_exact [OF wf] butterfly_exact [OF wf])
next
  case False
  then show ?thesis
    by (cases "validate_legs_generally ls")
      (auto simp: validate_strategy_shape_def validate_legs_generally_def each_leg_valid textbook_shape_def split: if_splits)
qed

text \<open>The doubling wraps around: wings of 2^63 + 1 options go with a body of 2.\<close>

theorem wrapped_butterfly_accepted:
  "validate_strategy_shape ''BUTTERFLY''
    [\<lparr>leg_instrument = ''A'', leg_type = ''CALL'', leg_strike = 100, leg_premium = 1, leg_is_buy = True, leg_quantity = 9223372036854775809\<rparr>,
     \<lparr>leg_instrument = ''B'', leg_type = ''CALL'', leg_strike = 110, leg_premium = 1, leg_is_buy = False, leg_quantity = 2\<rparr>,
     \<lparr>leg_instrument = ''C'', leg_type = ''CALL'', leg_strike = 120, leg_premium = 1, leg_is_buy = True, leg_quantity = 9223372036854775809\<rparr>] = None"
  by (simp add: validate_strategy_shape_def validate_legs_generally_def validate_butterfly_def legs_of_type_def word_sless_alt Let_def)

end
