(* ===== verification/BasketOrders.thy ===== *)
theory BasketOrders
  imports OrderPipeline
begin

text \<open>
  Basket orders, services/oms-gateway/internal/basketorders/basketOrderExecution.go and the handler in cmd/server/main.go: a basket is
  resolved to whole quantities and compared with its cash constraint, and then every constituent is submitted, whatever becomes of the
  others. The submission of a constituent is a parameter; the handler passes \<open>processOrderSubmission\<close>. An error carries the
  values formatted into its text.
\<close>

section \<open>Baskets\<close>

record constituent =
  part_instrument :: string
  part_is_buy :: bool
  part_quantity :: uint64
  part_weight :: float64
  part_price :: int64

record basket_request =
  basket_id :: string
  basket_account :: string
  cash_constraint :: int64
  constituents :: "constituent list"

datatype basket_error = NoConstituents | EmptyBasketIdentifier | EmptyBasketAccount | EmptyPartInstrument | NonPositiveReferencePrice
  | MixedQuantityModes | ZeroQuantityOrWeight | WeightResolvesToZero string float64 | WeightsMustBePositive
  | NetCashConstraintExceeded int64 int64

record resolved_constituent =
  resolved_part :: constituent
  resolved_quantity :: uint64
  signed_notional :: int64

fun validate_constituents :: "bool \<Rightarrow> constituent list \<Rightarrow> basket_error option" where
  "validate_constituents weight_mode [] = None"
| "validate_constituents weight_mode (c # cs) =
    (if part_instrument c = [] then Some EmptyPartInstrument
     else if part_price c \<le>s 0 then Some NonPositiveReferencePrice
     else if (part_quantity c = 0) \<noteq> weight_mode then Some MixedQuantityModes
     else if part_quantity c = 0 \<and> part_weight c \<le> 0 then Some WeightsMustBePositive
     else if part_quantity c \<noteq> 0 \<and> part_quantity c = 0 then Some ZeroQuantityOrWeight
     else validate_constituents weight_mode cs)"

definition quantity_for_weight :: "int64 \<Rightarrow> constituent \<Rightarrow> uint64" where
  "quantity_for_weight constraint c =
    (let budget = float_mul (float_of_int64 constraint) (float_div (part_weight c) 100)
     in uint64_of_float (float_div budget (float_of_int64 (part_price c))))"

definition resolve_constituent :: "bool \<Rightarrow> int64 \<Rightarrow> constituent \<Rightarrow> basket_error + resolved_constituent" where
  "resolve_constituent weight_mode constraint c =
    (let q = (if weight_mode then quantity_for_weight constraint c else part_quantity c) in
     if weight_mode \<and> q = 0 then Inl (WeightResolvesToZero (part_instrument c) (part_weight c))
     else let notional = q * part_price c in
       Inr \<lparr>resolved_part = c, resolved_quantity = q, signed_notional = (if part_is_buy c then notional else - notional)\<rparr>)"

fun resolve_constituents :: "bool \<Rightarrow> int64 \<Rightarrow> constituent list \<Rightarrow> resolved_constituent list \<Rightarrow> int64 \<Rightarrow>
    basket_error + resolved_constituent list \<times> int64" where
  "resolve_constituents weight_mode constraint [] acc cash = Inr (acc, cash)"
| "resolve_constituents weight_mode constraint (c # cs) acc cash =
    (case resolve_constituent weight_mode constraint c of
       Inl e \<Rightarrow> Inl e
     | Inr r \<Rightarrow> resolve_constituents weight_mode constraint cs (acc @ [r]) (cash + signed_notional r))"

definition validate_and_resolve_basket :: "basket_request \<Rightarrow> basket_error + resolved_constituent list \<times> int64" where
  "validate_and_resolve_basket b =
    (if basket_id b = [] then Inl EmptyBasketIdentifier
     else if basket_account b = [] then Inl EmptyBasketAccount
     else if constituents b = [] then Inl NoConstituents
     else let weight_mode = (part_quantity (constituents b ! 0) = 0) in
       case validate_constituents weight_mode (constituents b) of
         Some e \<Rightarrow> Inl e
       | None \<Rightarrow> (case resolve_constituents weight_mode (cash_constraint b) (constituents b) [] 0 of
           Inl e \<Rightarrow> Inl e
         | Inr (rs, cash) \<Rightarrow> if cash_constraint b <s cash then Inl (NetCashConstraintExceeded cash (cash_constraint b)) else Inr (rs, cash)))"

section \<open>Execution\<close>

text \<open>A submission answers whether the order was accepted, the quantity that was filled, the reason of a rejection, and an error.\<close>

type_synonym 's submit_constituent = "string \<Rightarrow> bool \<Rightarrow> uint64 \<Rightarrow> 's \<Rightarrow> (bool \<times> uint64 \<times> string \<times> string option) \<times> 's"

record constituent_outcome =
  part_outcome_instrument :: string
  part_outcome_is_buy :: bool
  submitted_quantity :: uint64
  part_accepted :: bool
  part_filled :: uint64
  part_reason :: string

datatype aggregate_status = AllAccepted | PartiallyAccepted | NoneAccepted

record basket_result =
  result_basket :: string
  net_cash :: int64
  aggregate_status :: aggregate_status
  part_outcomes :: "constituent_outcome list"

definition constituent_outcome_of :: "resolved_constituent \<Rightarrow> bool \<times> uint64 \<times> string \<times> string option \<Rightarrow> constituent_outcome" where
  "constituent_outcome_of r answer = (case answer of (acc, filled, reason, err) \<Rightarrow>
     \<lparr>part_outcome_instrument = part_instrument (resolved_part r), part_outcome_is_buy = part_is_buy (resolved_part r),
      submitted_quantity = resolved_quantity r, part_accepted = acc, part_filled = filled,
      part_reason = (case err of Some e \<Rightarrow> if reason = [] then e else reason | None \<Rightarrow> reason)\<rparr>)"

fun submit_constituents :: "'s submit_constituent \<Rightarrow> resolved_constituent list \<Rightarrow> nat \<Rightarrow> constituent_outcome list \<Rightarrow> 's \<Rightarrow>
    (nat \<times> constituent_outcome list) \<times> 's" where
  "submit_constituents submit [] accepted outs s = ((accepted, outs), s)"
| "submit_constituents submit (r # rs) accepted outs s =
    (case submit (part_instrument (resolved_part r)) (part_is_buy (resolved_part r)) (resolved_quantity r) s of (answer, s') \<Rightarrow>
       submit_constituents submit rs (if fst answer then accepted + 1 else accepted) (outs @ [constituent_outcome_of r answer]) s')"

definition execute_basket :: "basket_request \<Rightarrow> 's submit_constituent \<Rightarrow> 's \<Rightarrow> (basket_error + basket_result) \<times> 's" where
  "execute_basket b submit s =
    (case validate_and_resolve_basket b of
       Inl e \<Rightarrow> (Inl e, s)
     | Inr (rs, cash) \<Rightarrow> (case submit_constituents submit rs 0 [] s of ((accepted, outs), s') \<Rightarrow>
         (Inr \<lparr>result_basket = basket_id b, net_cash = cash,
               aggregate_status = (if accepted = length rs then AllAccepted else if accepted = 0 then NoneAccepted else PartiallyAccepted),
               part_outcomes = outs\<rparr>, s')))"

section \<open>The server\<close>

definition constituent_request :: "string \<Rightarrow> string \<Rightarrow> bool \<Rightarrow> uint64 \<Rightarrow> order_submission_request" where
  "constituent_request account ins is_buy q = \<lparr>request_account = account, request_instrument = ins, request_is_buy = is_buy,
     request_is_market_order = True, request_is_stop_loss = False, request_stop_trigger_price = None,
     request_limit_price = 0, request_quantity = q, request_idempotency_key = '''',
     request_is_after_market_order = False, request_execution_type = '''', request_iceberg_visible_quantity = None,
     request_is_paper_trading = False, request_paper_reference_price = None, request_strategy_identifier = '''',
     request_confirmed_large_order = False, request_milli_share_quantity = None\<rparr>"

text \<open>There is an environment for each submission, as what the partners answer may differ from one to the next.\<close>

definition submit_constituent_order :: "(nat \<Rightarrow> gateway_environment) \<Rightarrow> string \<Rightarrow> string \<Rightarrow> (nat \<times> gateway_state) submit_constituent" where
  "submit_constituent_order env account actor ins is_buy q st =
    (case process_order_submission (env (fst st)) (constituent_request account ins is_buy q) actor (snd st) of (ack, s') \<Rightarrow>
       ((ack_was_accepted ack, sum_list (map trade_executed_quantity (ack_trade_executions ack)), ack_human_readable_reason ack, None),
        (fst st + 1, s')))"

definition aggregate_text :: "aggregate_status \<Rightarrow> string" where
  "aggregate_text st = (case st of AllAccepted \<Rightarrow> ''ALL_ACCEPTED'' | PartiallyAccepted \<Rightarrow> ''PARTIALLY_ACCEPTED'' | NoneAccepted \<Rightarrow> ''NONE_ACCEPTED'')"

definition basket_entry :: "basket_request \<Rightarrow> string \<Rightarrow> basket_result \<Rightarrow> audit_entry" where
  "basket_entry b actor r = empty_audit_entry\<lparr>audit_event := EventOrderSubmitted, audit_account := basket_account b,
     audit_detail := ''BASKET_ORDER_'' @ basket_id b @ '' aggregateStatus='' @ aggregate_text (aggregate_status r), audit_actor := actor\<rparr>"

definition execute_basket_handler :: "(nat \<Rightarrow> gateway_environment) \<Rightarrow> string \<Rightarrow> basket_request \<Rightarrow> gateway_state \<Rightarrow>
    (basket_error + basket_result) \<times> gateway_state" where
  "execute_basket_handler env actor b s =
    (case execute_basket b (submit_constituent_order env (basket_account b) actor) (0, s) of
       (Inl e, (n, s')) \<Rightarrow> (Inl e, s')
     | (Inr r, (n, s')) \<Rightarrow> (Inr r, audit (env n) (basket_entry b actor r) s'))"

section \<open>What a basket may spend\<close>

text \<open>The cash of a basket in unbounded integers, and the bound under which the 64-bit sums are exact.\<close>

abbreviation true_notional :: "resolved_constituent \<Rightarrow> int" where
  "true_notional r \<equiv> uint (resolved_quantity r) * sint (part_price (resolved_part r))"

definition true_cash :: "resolved_constituent list \<Rightarrow> int" where
  "true_cash rs = (\<Sum>r\<leftarrow>rs. if part_is_buy (resolved_part r) then true_notional r else - true_notional r)"

definition gross :: "resolved_constituent list \<Rightarrow> int" where
  "gross rs = (\<Sum>r\<leftarrow>rs. true_notional r)"

lemma gross_nonneg: "list_all (\<lambda>r. 0 < sint (part_price (resolved_part r))) rs \<Longrightarrow> 0 \<le> gross rs"
  unfolding gross_def by (intro sum_list_nonneg) (auto simp: list_all_iff)

lemma cash_within_gross:
  "list_all (\<lambda>r. 0 < sint (part_price (resolved_part r))) rs \<Longrightarrow> - gross rs \<le> true_cash rs \<and> true_cash rs \<le> gross rs"
proof (induction rs)
  case (Cons r rs)
  then have "0 \<le> true_notional r" by simp
  moreover have "true_cash (r # rs) = (if part_is_buy (resolved_part r) then true_notional r else - true_notional r) + true_cash rs"
      "gross (r # rs) = true_notional r + gross rs" by (simp_all add: true_cash_def gross_def)
  moreover have "- gross rs \<le> true_cash rs \<and> true_cash rs \<le> gross rs" using Cons by simp
  ultimately show ?case by (simp split: if_splits)
qed (simp add: true_cash_def gross_def)

definition resolves :: "bool \<Rightarrow> int64 \<Rightarrow> constituent \<Rightarrow> resolved_constituent \<Rightarrow> bool" where
  "resolves weight_mode constraint c r \<longleftrightarrow> resolve_constituent weight_mode constraint c = Inr r"

lemma resolve_constituents_exact:
  "resolve_constituents weight_mode constraint cs acc cash = Inr (rs, cash') \<Longrightarrow>
    \<exists>new. rs = acc @ new \<and> list_all2 (resolves weight_mode constraint) cs new \<and> cash' = cash + sum_list (map signed_notional new)"
proof (induction cs arbitrary: acc cash)
  case (Cons c cs)
  obtain r where r: "resolve_constituent weight_mode constraint c = Inr r"
      "resolve_constituents weight_mode constraint cs (acc @ [r]) (cash + signed_notional r) = Inr (rs, cash')"
    using Cons.prems by (auto split: sum.splits)
  from Cons.IH [OF r(2)] obtain new where "rs = acc @ r # new" "list_all2 (resolves weight_mode constraint) cs new"
      "cash' = cash + sum_list (map signed_notional (r # new))" by (auto simp: add.assoc)
  moreover have "resolves weight_mode constraint c r" using r(1) by (simp add: resolves_def)
  ultimately show ?case by (intro exI [of _ "r # new"]) simp
qed simp

lemma resolved_terms:
  "resolves weight_mode constraint c r \<Longrightarrow> resolved_part r = c \<and>
    signed_notional r = word_of_int (if part_is_buy c then true_notional r else - true_notional r)"
  by (auto simp: resolves_def resolve_constituent_def Let_def split: if_splits)

lemma cash_of_resolved:
  "list_all2 (resolves weight_mode constraint) cs rs \<Longrightarrow> sum_list (map signed_notional rs) = word_of_int (true_cash rs)"
  by (induction rule: list_all2_induct) (auto simp: true_cash_def dest!: resolved_terms)

lemma prices_of_resolved:
  "list_all2 (resolves weight_mode constraint) cs rs \<Longrightarrow> validate_constituents mode cs = None \<Longrightarrow>
    list_all (\<lambda>r. 0 < sint (part_price (resolved_part r))) rs"
  by (induction rule: list_all2_induct) (auto simp: word_sle_eq dest!: resolved_terms split: if_splits)

lemma resolved_basket:
  assumes "validate_and_resolve_basket b = Inr (rs, cash)"
  shows "list_all2 (resolves (part_quantity (constituents b ! 0) = 0) (cash_constraint b)) (constituents b) rs"
    and "cash = word_of_int (true_cash rs)" and "sint cash \<le> sint (cash_constraint b)"
    and "gross rs < 2 ^ 63 \<Longrightarrow> sint cash = true_cash rs"
proof -
  have v: "validate_constituents (part_quantity (constituents b ! 0) = 0) (constituents b) = None"
    and r: "resolve_constituents (part_quantity (constituents b ! 0) = 0) (cash_constraint b) (constituents b) [] 0 = Inr (rs, cash)"
    and le: "\<not> cash_constraint b <s cash"
    using assms by (auto simp: validate_and_resolve_basket_def Let_def split: if_splits option.splits sum.splits)
  show all: "list_all2 (resolves (part_quantity (constituents b ! 0) = 0) (cash_constraint b)) (constituents b) rs"
    and cash: "cash = word_of_int (true_cash rs)"
    using resolve_constituents_exact [OF r] cash_of_resolved by auto
  show "sint cash \<le> sint (cash_constraint b)" using le by (simp add: word_sless_alt)
  show "sint cash = true_cash rs" if "gross rs < 2 ^ 63"
    using cash_within_gross [OF prices_of_resolved [OF all v]] that unfolding cash by (intro sint_of_int64) auto
qed

section \<open>What a basket submits\<close>

fun run_constituents :: "'s submit_constituent \<Rightarrow> resolved_constituent list \<Rightarrow> 's \<Rightarrow> (bool \<times> uint64 \<times> string \<times> string option) list \<times> 's" where
  "run_constituents submit [] s = ([], s)"
| "run_constituents submit (r # rs) s =
    (case submit (part_instrument (resolved_part r)) (part_is_buy (resolved_part r)) (resolved_quantity r) s of (a, s') \<Rightarrow>
      (case run_constituents submit rs s' of (as, s'') \<Rightarrow> (a # as, s'')))"

lemma submit_constituents_exact:
  "run_constituents submit rs s = (as, s') \<Longrightarrow> submit_constituents submit rs n outs s =
    ((n + length (filter fst as), outs @ map2 constituent_outcome_of rs as), s') \<and> length as = length rs"
  by (induction rs arbitrary: s as n outs) (fastforce split: prod.splits)+

lemma aggregate_exact:
  "(if length (filter fst as) = length as then AllAccepted else if length (filter fst as) = 0 then NoneAccepted else PartiallyAccepted) =
    (if list_all fst as then AllAccepted else if list_all (\<lambda>a. \<not> fst a) as then NoneAccepted else PartiallyAccepted)"
proof -
  have "length (filter fst as) = length as \<longleftrightarrow> list_all fst as"
    by (induction as) (auto simp: less_Suc_eq_le le_imp_less_Suc dest: le_trans intro: length_filter_le,
      metis Suc_n_not_le_n length_filter_le)
  moreover have "length (filter fst as) = 0 \<longleftrightarrow> list_all (\<lambda>a. \<not> fst a) as"
    by (simp add: filter_empty_conv list_all_iff)
  ultimately show ?thesis by simp
qed

text \<open>C20. A basket that is refused submits nothing; one that is executed submits each constituent once, in order, for the quantity it
  resolves to, reports each answer, and calls itself accepted in whole, in part or not at all as its answers are. Its cash, purchases
  less sales at the reference prices, is within the constraint as long as the gross notional stays below 2^63.\<close>

theorem basket_submits_each_within_budget:
  "case execute_basket b submit s of
     (Inl e, s') \<Rightarrow> validate_and_resolve_basket b = Inl e \<and> s' = s
   | (Inr res, s') \<Rightarrow> \<exists>rs as. run_constituents submit rs s = (as, s') \<and>
       list_all2 (resolves (part_quantity (constituents b ! 0) = 0) (cash_constraint b)) (constituents b) rs \<and>
       part_outcomes res = map2 constituent_outcome_of rs as \<and>
       aggregate_status res = (if list_all fst as then AllAccepted else if list_all (\<lambda>a. \<not> fst a) as then NoneAccepted else PartiallyAccepted) \<and>
       sint (net_cash res) \<le> sint (cash_constraint b) \<and>
       (if gross rs < 2 ^ 63 then sint (net_cash res) = true_cash rs else True)"
proof (cases "validate_and_resolve_basket b")
  case (Inr p)
  obtain rs cash where p: "p = (rs, cash)" by fastforce
  obtain as s' where run: "run_constituents submit rs s = (as, s')" by fastforce
  note sub = submit_constituents_exact [OF run]
  note r = resolved_basket [OF Inr [unfolded p]]
  have "execute_basket b submit s = (Inr \<lparr>result_basket = basket_id b, net_cash = cash,
      aggregate_status = (if length (filter fst as) = length as then AllAccepted else if length (filter fst as) = 0 then NoneAccepted else PartiallyAccepted),
      part_outcomes = map2 constituent_outcome_of rs as\<rparr>, s')"
    using sub [of 0 "[]"] by (simp add: execute_basket_def Inr p)
  then show ?thesis using run r by (simp add: aggregate_exact) blast
qed (simp add: execute_basket_def)

text \<open>The sums wrap around: a purchase of 2^62 shares at 2 counts as the least 64-bit number and passes any constraint.\<close>

theorem wrapped_basket_passes:
  "case validate_and_resolve_basket \<lparr>basket_id = ''b'', basket_account = ''a'', cash_constraint = 1,
      constituents = [\<lparr>part_instrument = ''X'', part_is_buy = True, part_quantity = 4611686018427387904, part_weight = 0, part_price = 2\<rparr>]\<rparr> of
     Inl e \<Rightarrow> False | Inr (rs, cash) \<Rightarrow> true_cash rs = 9223372036854775808 \<and> sint cash < 0"
  by (simp add: validate_and_resolve_basket_def resolve_constituent_def Let_def word_sle_eq word_sless_alt true_cash_def)

end
