(* ===== verification/TradeSurveillance.thy ===== *)
theory TradeSurveillance
  imports OrderPipeline
begin

text \<open>
  Market surveillance, services/oms-gateway/internal/tradesurveillance (tradeSurveillance.go, routedOrder.go, washTradeDetector.go,
  spoofingDetector.go, layeringDetector.go, replay.go), over the audit trail that the order pipeline writes: the scope of an account,
  the orders rebuilt from their entries, the three detectors and the report. Texts are the values formatted into them; the order in
  which Go iterates over the groups of a map is an argument.
\<close>

section \<open>Configuration and windows\<close>

record detector_configuration =
  spoofing_large_quantity :: uint64
  spoofing_cancel_within :: duration
  spoofing_away_fraction :: float64
  spoofing_fast_cancel :: duration
  spoofing_follow_up_window :: duration
  layering_minimum_orders :: int
  layering_window :: duration
  layering_cancel_within :: duration
  layering_cancelled_fraction :: float64

definition default_detector_configuration :: detector_configuration where
  "default_detector_configuration = \<lparr>spoofing_large_quantity = 500, spoofing_cancel_within = 2 * 10 ^ 9,
     spoofing_away_fraction = round_float (1 / 100), spoofing_fast_cancel = 150 * 10 ^ 6, spoofing_follow_up_window = 2 * 10 ^ 9,
     layering_minimum_orders = 3, layering_window = 5 * 10 ^ 9, layering_cancel_within = 2 * 10 ^ 9,
     layering_cancelled_fraction = 3 / 4\<rparr>"

definition entries_in_window :: "audit_entry list \<Rightarrow> instant \<Rightarrow> instant \<Rightarrow> audit_entry list" where
  "entries_in_window es start stop =
    sort_key audit_recorded_at (filter (\<lambda>e. \<not> time_before (audit_recorded_at e) start \<and> \<not> time_after (audit_recorded_at e) stop) es)"

section \<open>The entries of an account\<close>

type_synonym order_key = "string \<times> uint64"

abbreviation entry_key :: "audit_entry \<Rightarrow> order_key" where
  "entry_key e \<equiv> (audit_instrument e, audit_matching_engine_sequence e)"

definition owned_keys :: "audit_entry list \<Rightarrow> string \<Rightarrow> order_key list" where
  "owned_keys es account = map entry_key (filter (\<lambda>e. audit_event e = EventOrderRoutedToMatchingEngine \<and> audit_account e = account) es)"

definition scope_entries_to_account :: "audit_entry list \<Rightarrow> string \<Rightarrow> audit_entry list" where
  "scope_entries_to_account es account = filter (\<lambda>e. audit_account e = account \<or>
     (audit_event e = EventOrderCancelled \<or> audit_event e = EventOrderCancelFailed) \<and> entry_key e \<in> set (owned_keys es account)) es"

section \<open>Orders rebuilt from the trail\<close>

record routed_order =
  routed_sequence :: uint64
  routed_instrument :: string
  routed_is_buy :: bool
  routed_quantity :: uint64
  routed_price :: int64
  routed_is_market :: bool
  routed_at :: instant
  was_cancelled :: bool
  cancelled_at :: instant
  was_filled :: bool
  filled_at :: instant

abbreviation order_key_of :: "routed_order \<Rightarrow> order_key" where
  "order_key_of ord \<equiv> (routed_instrument ord, routed_sequence ord)"

definition routed_order_of :: "audit_entry \<Rightarrow> routed_order" where
  "routed_order_of e = \<lparr>routed_sequence = audit_matching_engine_sequence e, routed_instrument = audit_instrument e,
     routed_is_buy = (case audit_is_buy e of None \<Rightarrow> False | Some b \<Rightarrow> b), routed_quantity = audit_quantity e,
     routed_price = audit_limit_price e, routed_is_market = audit_is_market e, routed_at = audit_recorded_at e,
     was_cancelled = False, cancelled_at = zero_time, was_filled = False, filled_at = zero_time\<rparr>"

text \<open>The index by key holds the order that was routed last under it.\<close>

fun update_latest :: "order_key \<Rightarrow> (routed_order \<Rightarrow> routed_order) \<Rightarrow> routed_order list \<Rightarrow> routed_order list" where
  "update_latest k f [] = []"
| "update_latest k f (x # xs) =
    (if order_key_of x = k \<and> k \<notin> order_key_of ` set xs then f x # xs else x # update_latest k f xs)"

definition follow_entry :: "routed_order list \<Rightarrow> audit_entry \<Rightarrow> routed_order list" where
  "follow_entry ords e = (case audit_event e of
     EventOrderRoutedToMatchingEngine \<Rightarrow> ords @ [routed_order_of e]
   | EventOrderCancelled \<Rightarrow> update_latest (entry_key e) (\<lambda>x. x\<lparr>was_cancelled := True, cancelled_at := audit_recorded_at e\<rparr>) ords
   | EventOrderFilled \<Rightarrow> update_latest (entry_key e) (\<lambda>x. x\<lparr>was_filled := True, filled_at := audit_recorded_at e\<rparr>) ords
   | _ \<Rightarrow> ords)"

definition build_routed_orders :: "audit_entry list \<Rightarrow> routed_order list" where
  "build_routed_orders es = foldl follow_entry [] es"

text \<open>The most recent fill before an instant: its time and price; of two at the same time, the first.\<close>

fun recent_fill_loop :: "audit_entry list \<Rightarrow> string \<Rightarrow> instant \<Rightarrow> (int64 \<times> instant) option \<Rightarrow> (int64 \<times> instant) option" where
  "recent_fill_loop [] ins t acc = acc"
| "recent_fill_loop (e # es) ins t acc = recent_fill_loop es ins t
    (if audit_event e \<noteq> EventOrderFilled \<or> audit_instrument e \<noteq> ins \<or> \<not> time_before (audit_recorded_at e) t then acc
     else case acc of
       None \<Rightarrow> Some (audit_executed_price e, audit_recorded_at e)
     | Some (price, since) \<Rightarrow> if time_after (audit_recorded_at e) since then Some (audit_executed_price e, audit_recorded_at e) else acc)"

definition most_recent_fill_price_before :: "audit_entry list \<Rightarrow> string \<Rightarrow> instant \<Rightarrow> int64 option" where
  "most_recent_fill_price_before es ins t = map_option fst (recent_fill_loop es ins t None)"

section \<open>Replay\<close>

definition replayed_events :: "audit_event set" where
  "replayed_events = {EventOrderRoutedToMatchingEngine, EventOrderCancelled, EventOrderCancelFailed, EventOrderFilled}"

definition replay_order_sequence_numbers :: "audit_entry list \<Rightarrow> string \<Rightarrow> uint64 list \<Rightarrow> audit_entry list" where
  "replay_order_sequence_numbers es ins seqs = sort_key audit_recorded_at (filter (\<lambda>e. audit_instrument e = ins \<and>
     audit_event e \<in> replayed_events \<and> audit_matching_engine_sequence e \<in> set seqs) es)"

definition replay_order_sequence_number :: "audit_entry list \<Rightarrow> string \<Rightarrow> uint64 \<Rightarrow> audit_entry list" where
  "replay_order_sequence_number es ins seq = replay_order_sequence_numbers es ins [seq]"

section \<open>Wash trades\<close>

record wash_trade_incident =
  wash_instrument :: string
  wash_sequence :: uint64
  wash_account :: string
  wash_price :: int64
  wash_quantity :: uint64
  wash_recorded_at :: instant
  wash_replay :: "audit_entry list"

definition wash_trade :: "audit_entry \<Rightarrow> wash_trade_incident option" where
  "wash_trade e =
    (if audit_event e \<noteq> EventOrderFilled then None
     else if audit_buying_account e = [] \<or> audit_selling_account e = [] then None
     else if audit_buying_account e \<noteq> audit_selling_account e then None
     else Some \<lparr>wash_instrument = audit_instrument e, wash_sequence = audit_matching_engine_sequence e,
       wash_account = audit_buying_account e, wash_price = audit_executed_price e, wash_quantity = audit_executed_quantity e,
       wash_recorded_at = audit_recorded_at e, wash_replay = [e]\<rparr>)"

definition detect_wash_trades :: "audit_entry list \<Rightarrow> wash_trade_incident list" where
  "detect_wash_trades es = List.map_filter wash_trade es"

section \<open>Spoofing\<close>

text \<open>A follow-up: whether the fill is on the side of the flagged order, its quantity, price and time, and the delay.\<close>

type_synonym follow_up = "bool \<times> uint64 \<times> int64 \<times> instant \<times> duration"

record spoofing_incident =
  spoof_instrument :: string
  spoof_sequence :: uint64
  spoof_is_buy :: bool
  spoof_quantity :: uint64
  spoof_price :: int64
  spoof_routed_at :: instant
  spoof_cancelled_at :: instant
  time_to_cancel :: duration
  was_away_from_touch :: bool
  reference_fill_price :: "int64 option"
  was_faster_than_latency :: bool
  corroboration :: "follow_up option"
  spoof_replay :: "audit_entry list"

fun find_spoofing_corroboration :: "audit_entry list \<Rightarrow> routed_order \<Rightarrow> duration \<Rightarrow> follow_up option" where
  "find_spoofing_corroboration [] ord window = None"
| "find_spoofing_corroboration (e # es) ord window =
    (let stop = time_add (cancelled_at ord) window; delay = time_sub (audit_recorded_at e) (cancelled_at ord);
         was_buyer = (audit_buying_account e = audit_account e)
     in if audit_event e \<noteq> EventOrderFilled \<or> audit_instrument e \<noteq> routed_instrument ord \<or>
           time_before (audit_recorded_at e) (cancelled_at ord) \<or> time_after (audit_recorded_at e) stop
        then find_spoofing_corroboration es ord window
        else if was_buyer = routed_is_buy ord \<and> audit_executed_quantity e < routed_quantity ord
        then Some (True, audit_executed_quantity e, audit_executed_price e, audit_recorded_at e, delay)
        else if was_buyer \<noteq> routed_is_buy ord
        then Some (False, audit_executed_quantity e, audit_executed_price e, audit_recorded_at e, delay)
        else find_spoofing_corroboration es ord window)"

definition away_from_touch :: "float64 \<Rightarrow> int64 \<Rightarrow> routed_order \<Rightarrow> bool" where
  "away_from_touch threshold reference ord =
    (if routed_is_buy ord
     then float_of_int64 (routed_price ord) < float_mul (float_of_int64 reference) (float_sub 1 threshold)
     else float_mul (float_of_int64 reference) (float_add 1 threshold) < float_of_int64 (routed_price ord))"

definition spoofing_flag :: "audit_entry list \<Rightarrow> detector_configuration \<Rightarrow> routed_order \<Rightarrow> spoofing_incident option" where
  "spoofing_flag es c ord =
    (if routed_is_market ord then None
     else if routed_quantity ord < spoofing_large_quantity c then None
     else if \<not> was_cancelled ord then None
     else let delay = time_sub (cancelled_at ord) (routed_at ord) in
       if delay <s 0 \<or> spoofing_cancel_within c <s delay then None
       else let reference = most_recent_fill_price_before es (routed_instrument ord) (routed_at ord);
           away = (case reference of None \<Rightarrow> False
             | Some price \<Rightarrow> 0 <s price \<and> away_from_touch (spoofing_away_fraction c) price ord);
           fast = (delay \<le>s spoofing_fast_cancel c)
         in if \<not> away \<and> \<not> fast then None
            else Some \<lparr>spoof_instrument = routed_instrument ord, spoof_sequence = routed_sequence ord, spoof_is_buy = routed_is_buy ord,
              spoof_quantity = routed_quantity ord, spoof_price = routed_price ord, spoof_routed_at = routed_at ord,
              spoof_cancelled_at = cancelled_at ord, time_to_cancel = delay, was_away_from_touch = away,
              reference_fill_price = reference, was_faster_than_latency = fast,
              corroboration = find_spoofing_corroboration es ord (spoofing_follow_up_window c),
              spoof_replay = replay_order_sequence_number es (routed_instrument ord) (routed_sequence ord)\<rparr>)"

definition detect_spoofing :: "audit_entry list \<Rightarrow> detector_configuration \<Rightarrow> spoofing_incident list" where
  "detect_spoofing es c = List.map_filter (spoofing_flag es c) (build_routed_orders es)"

section \<open>Layering\<close>

record layer_order_evidence =
  evidence_sequence :: uint64
  evidence_price :: int64
  evidence_quantity :: uint64
  evidence_routed_at :: instant
  evidence_was_cancelled :: bool
  evidence_cancelled_at :: instant

definition layer_evidence :: "routed_order \<Rightarrow> layer_order_evidence" where
  "layer_evidence ord = \<lparr>evidence_sequence = routed_sequence ord, evidence_price = routed_price ord, evidence_quantity = routed_quantity ord,
     evidence_routed_at = routed_at ord, evidence_was_cancelled = was_cancelled ord, evidence_cancelled_at = cancelled_at ord\<rparr>"

record layering_incident =
  layer_instrument :: string
  layer_is_buy :: bool
  layer_orders :: "layer_order_evidence list"
  distinct_price_levels :: nat
  opposite_fill_quantity :: uint64
  opposite_fill_price :: int64
  opposite_fill_at :: instant
  cancelled_order_count :: nat
  cancelled_fraction :: float64
  layer_replay :: "audit_entry list"

definition cluster_step :: "duration \<Rightarrow> routed_order list list \<times> routed_order list \<Rightarrow> routed_order \<Rightarrow>
    routed_order list list \<times> routed_order list" where
  "cluster_step window st ord = (case st of (clusters, current) \<Rightarrow>
     if current = [] then (clusters, [ord])
     else if time_sub (routed_at ord) (routed_at (current ! 0)) \<le>s window then (clusters, current @ [ord])
     else (clusters @ [current], [ord]))"

definition cluster_by_routed_time :: "routed_order list \<Rightarrow> duration \<Rightarrow> routed_order list list" where
  "cluster_by_routed_time ords window = (case foldl (cluster_step window) ([], []) ords of
     (clusters, current) \<Rightarrow> if current = [] then clusters else clusters @ [current])"

definition opposite_side_fill :: "audit_entry \<Rightarrow> string \<Rightarrow> bool \<Rightarrow> instant \<Rightarrow> instant \<Rightarrow> bool" where
  "opposite_side_fill e ins is_buy start stop \<longleftrightarrow> audit_event e = EventOrderFilled \<and> audit_instrument e = ins \<and>
     \<not> time_before (audit_recorded_at e) start \<and> \<not> time_after (audit_recorded_at e) stop \<and>
     (audit_buying_account e = audit_account e) \<noteq> is_buy"

definition find_opposite_side_fill_after :: "audit_entry list \<Rightarrow> string \<Rightarrow> bool \<Rightarrow> instant \<Rightarrow> instant \<Rightarrow> audit_entry option" where
  "find_opposite_side_fill_after es ins is_buy start stop = find (\<lambda>e. opposite_side_fill e ins is_buy start stop) es"

definition cancelled_after :: "audit_entry \<Rightarrow> duration \<Rightarrow> routed_order \<Rightarrow> bool" where
  "cancelled_after e limit ord \<longleftrightarrow> was_cancelled ord \<and> \<not> time_before (cancelled_at ord) (audit_recorded_at e) \<and>
     \<not> time_after (cancelled_at ord) (time_add (audit_recorded_at e) limit)"

definition layering_flag :: "audit_entry list \<Rightarrow> detector_configuration \<Rightarrow> string \<times> bool \<Rightarrow> routed_order list \<Rightarrow> layering_incident option" where
  "layering_flag es c key cluster =
    (if int (length cluster) < layering_minimum_orders c then None
     else let levels = length (remdups (map routed_price cluster)) in
       if int levels < layering_minimum_orders c then None
       else let since = routed_at (last cluster);
           stop = time_add since (layering_window c + layering_cancel_within c)
         in case find_opposite_side_fill_after es (fst key) (snd key) since stop of
              None \<Rightarrow> None
            | Some fill \<Rightarrow>
                let cancelled = length (filter (cancelled_after fill (layering_cancel_within c)) cluster);
                    fraction = float_div (round_float (of_nat cancelled)) (round_float (of_nat (length cluster)))
                in if fraction < layering_cancelled_fraction c then None
                   else Some \<lparr>layer_instrument = fst key, layer_is_buy = snd key, layer_orders = map layer_evidence cluster, distinct_price_levels = levels,
                     opposite_fill_quantity = audit_executed_quantity fill, opposite_fill_price = audit_executed_price fill,
                     opposite_fill_at = audit_recorded_at fill, cancelled_order_count = cancelled, cancelled_fraction = fraction,
                     layer_replay = replay_order_sequence_numbers es (fst key) (map routed_sequence cluster)\<rparr>)"

abbreviation group_key :: "routed_order \<Rightarrow> string \<times> bool" where
  "group_key ord \<equiv> (routed_instrument ord, routed_is_buy ord)"

definition detect_layering :: "((string \<times> bool) list \<Rightarrow> (string \<times> bool) list) \<Rightarrow> audit_entry list \<Rightarrow> detector_configuration \<Rightarrow>
    layering_incident list" where
  "detect_layering map_order es c =
    (let ords = filter (\<lambda>x. \<not> routed_is_market x) (build_routed_orders es)
     in concat (map (\<lambda>key. List.map_filter (layering_flag es c key)
          (cluster_by_routed_time (filter (\<lambda>x. group_key x = key) ords) (layering_window c)))
        (map_order (remdups (map group_key ords)))))"

section \<open>The report\<close>

record surveillance_report =
  report_account :: string
  report_start :: instant
  report_stop :: instant
  spoofing_incidents :: "spoofing_incident list"
  layering_incidents :: "layering_incident list"
  wash_trade_incidents :: "wash_trade_incident list"

definition run_all_detectors :: "((string \<times> bool) list \<Rightarrow> (string \<times> bool) list) \<Rightarrow> detector_configuration \<Rightarrow> string \<Rightarrow>
    audit_entry list \<Rightarrow> instant \<Rightarrow> instant \<Rightarrow> surveillance_report" where
  "run_all_detectors map_order c account es start stop =
    (let windowed = entries_in_window (scope_entries_to_account es account) start stop
     in \<lparr>report_account = account, report_start = start, report_stop = stop, spoofing_incidents = detect_spoofing windowed c,
         layering_incidents = detect_layering map_order windowed c, wash_trade_incidents = detect_wash_trades windowed\<rparr>)"

text \<open>The handler over the gateway's trail; an omitted bound is the zero time or a hundred years ahead.\<close>

definition surveillance_handler :: "((string \<times> bool) list \<Rightarrow> (string \<times> bool) list) \<Rightarrow> string \<Rightarrow> instant option \<Rightarrow> instant option \<Rightarrow>
    instant \<Rightarrow> gateway_state \<Rightarrow> surveillance_report option" where
  "surveillance_handler map_order account start stop now s =
    (if account = [] then None
     else Some (run_all_detectors map_order default_detector_configuration account (all_audit_entries (gw_audit s))
       (case start of None \<Rightarrow> zero_time | Some t \<Rightarrow> t)
       (case stop of None \<Rightarrow> time_add now (100 * 365 * 24 * 3600000000000) | Some t \<Rightarrow> t)))"

section \<open>The lifecycle of an order\<close>

text \<open>The reference: each routed entry with what comes after it in the trail, the last cancellation and the last fill under its key.\<close>

definition last_time :: "audit_event \<Rightarrow> order_key \<Rightarrow> audit_entry list \<Rightarrow> instant option" where
  "last_time ev k es = (case filter (\<lambda>e. audit_event e = ev \<and> entry_key e = k) es of
     [] \<Rightarrow> None | x # xs \<Rightarrow> Some (audit_recorded_at (last (x # xs))))"

definition follow_order :: "audit_entry list \<Rightarrow> routed_order \<Rightarrow> routed_order" where
  "follow_order es x = x\<lparr>
     was_cancelled := was_cancelled x \<or> last_time EventOrderCancelled (order_key_of x) es \<noteq> None,
     cancelled_at := (case last_time EventOrderCancelled (order_key_of x) es of None \<Rightarrow> cancelled_at x | Some t \<Rightarrow> t),
     was_filled := was_filled x \<or> last_time EventOrderFilled (order_key_of x) es \<noteq> None,
     filled_at := (case last_time EventOrderFilled (order_key_of x) es of None \<Rightarrow> filled_at x | Some t \<Rightarrow> t)\<rparr>"

fun order_lifecycles :: "audit_entry list \<Rightarrow> routed_order list" where
  "order_lifecycles [] = []"
| "order_lifecycles (e # es) =
    (if audit_event e = EventOrderRoutedToMatchingEngine then follow_order es (routed_order_of e) # order_lifecycles es else order_lifecycles es)"

definition routed_keys :: "audit_entry list \<Rightarrow> order_key list" where
  "routed_keys es = map entry_key (filter (\<lambda>e. audit_event e = EventOrderRoutedToMatchingEngine) es)"

lemma update_latest_distinct:
  "distinct (map order_key_of ords) \<Longrightarrow> update_latest k f ords = map (\<lambda>x. if order_key_of x = k then f x else x) ords"
proof (induction ords)
  case (Cons x ords)
  show ?case
  proof (cases "order_key_of x = k")
    case True
    then have "k \<notin> order_key_of ` set ords" using Cons.prems by auto
    then have "map (\<lambda>x. if order_key_of x = k then f x else x) ords = ords" by (intro map_idI) (force simp: image_iff)
    then show ?thesis using True \<open>k \<notin> order_key_of ` set ords\<close> by simp
  qed (use Cons in simp)
qed simp

lemma last_time_Cons:
  "last_time ev k (e # es) = (case last_time ev k es of Some t \<Rightarrow> Some t
     | None \<Rightarrow> if audit_event e = ev \<and> entry_key e = k then Some (audit_recorded_at e) else None)"
  by (auto simp: last_time_def split: list.splits)

lemma follow_order_keys [simp]:
  "routed_instrument (follow_order es x) = routed_instrument x" "routed_sequence (follow_order es x) = routed_sequence x"
  by (simp_all add: follow_order_def)

lemma follow_one:
  "follow_order [e] = (\<lambda>x. if order_key_of x = entry_key e \<and> audit_event e = EventOrderCancelled then x\<lparr>was_cancelled := True, cancelled_at := audit_recorded_at e\<rparr>
     else if order_key_of x = entry_key e \<and> audit_event e = EventOrderFilled then x\<lparr>was_filled := True, filled_at := audit_recorded_at e\<rparr>
     else x)"
proof
  show "follow_order [e] x = (if order_key_of x = entry_key e \<and> audit_event e = EventOrderCancelled
     then x\<lparr>was_cancelled := True, cancelled_at := audit_recorded_at e\<rparr>
     else if order_key_of x = entry_key e \<and> audit_event e = EventOrderFilled then x\<lparr>was_filled := True, filled_at := audit_recorded_at e\<rparr>
     else x)" for x by (cases x) (auto simp: follow_order_def last_time_def)
qed

lemma follow_entry_distinct:
  assumes "distinct (map order_key_of ords)"
  shows "follow_entry ords e = map (follow_order [e]) ords @
    (if audit_event e = EventOrderRoutedToMatchingEngine then [routed_order_of e] else [])"
  using assms
  by (cases "audit_event e"; simp add: follow_entry_def follow_one update_latest_distinct cong: if_cong)

lemma follow_order_Cons: "follow_order es (follow_order [e] x) = follow_order (e # es) x"
  by (cases "last_time EventOrderCancelled (order_key_of x) es"; cases "last_time EventOrderFilled (order_key_of x) es")
    (auto simp: follow_order_def last_time_Cons [of _ _ e es] last_time_def [of _ _ "[e]"])

lemma build_loop:
  assumes "distinct (map order_key_of ords @ routed_keys es)"
  shows "foldl follow_entry ords es = map (follow_order es) ords @ order_lifecycles es"
  using assms
proof (induction es arbitrary: ords)
  case Nil
  have "follow_order [] x = x" for x by (cases x) (simp add: follow_order_def last_time_def)
  then show ?case by simp
next
  case (Cons e es)
  have d: "distinct (map order_key_of ords)" using Cons.prems by simp
  have keys: "map order_key_of (follow_entry ords e) @ routed_keys es = map order_key_of ords @ routed_keys (e # es)"
    by (simp add: follow_entry_distinct [OF d] routed_keys_def routed_order_of_def comp_def)
  have "foldl follow_entry ords (e # es) = map (follow_order es) (follow_entry ords e) @ order_lifecycles es"
    using Cons.IH [of "follow_entry ords e"] Cons.prems keys by simp
  then show ?case by (simp add: follow_entry_distinct [OF d] comp_def follow_order_Cons)
qed

text \<open>C21. Where no key is routed twice, the orders that the detectors look at, rebuilt by updating them in place along the trail, are
  the routed entries in their order, each with the last cancellation and the last fill that come after it under its key.\<close>

theorem lifecycles_rebuilt:
  assumes "distinct (routed_keys es)"
  shows "build_routed_orders es = order_lifecycles es"
  using build_loop [of "[]" es] assms by (simp add: build_routed_orders_def)

definition sample_entry :: "audit_event \<Rightarrow> uint64 \<Rightarrow> instant \<Rightarrow> audit_entry" where
  "sample_entry ev n t = empty_audit_entry\<lparr>audit_event := ev, audit_account := ''a'', audit_instrument := ''X'',
     audit_matching_engine_sequence := n, audit_is_buy := Some True, audit_quantity := 500, audit_limit_price := 10, audit_recorded_at := t\<rparr>"

theorem lifecycles_rebuilt_witness:
  "map (\<lambda>x. (routed_sequence x, was_cancelled x, cancelled_at x)) (build_routed_orders
    [sample_entry EventOrderRoutedToMatchingEngine 1 0, sample_entry EventOrderRoutedToMatchingEngine 2 5,
     sample_entry EventOrderCancelled 1 7]) = [(1, True, 7), (2, False, zero_time)]"
proof -
  have "distinct (routed_keys [sample_entry EventOrderRoutedToMatchingEngine 1 0, sample_entry EventOrderRoutedToMatchingEngine 2 5,
     sample_entry EventOrderCancelled 1 7])" by (simp add: routed_keys_def sample_entry_def)
  from lifecycles_rebuilt [OF this] show ?thesis
    by (simp add: sample_entry_def follow_order_def last_time_def routed_order_of_def)
qed

section \<open>Evidence\<close>

text \<open>An order the detectors see comes from a routed entry, and its cancellation from an entry under the same key.\<close>

definition evidenced :: "audit_entry list \<Rightarrow> routed_order \<Rightarrow> bool" where
  "evidenced es x \<longleftrightarrow> (\<exists>e\<in>set es. audit_event e = EventOrderRoutedToMatchingEngine \<and> entry_key e = order_key_of x \<and>
     audit_quantity e = routed_quantity x \<and> audit_is_market e = routed_is_market x \<and> audit_recorded_at e = routed_at x) \<and>
   (was_cancelled x \<longrightarrow> (\<exists>e\<in>set es. audit_event e = EventOrderCancelled \<and> entry_key e = order_key_of x \<and> audit_recorded_at e = cancelled_at x))"

lemma update_latest_all:
  "list_all P ords \<Longrightarrow> (\<And>x. order_key_of x = k \<Longrightarrow> P x \<Longrightarrow> P (f x)) \<Longrightarrow> list_all P (update_latest k f ords)"
  by (induction ords) auto

lemma follow_entry_evidenced:
  assumes "list_all (evidenced es) ords" and "set es \<subseteq> set es'" and "e \<in> set es'"
  shows "list_all (evidenced es') (follow_entry ords e)"
proof -
  have old: "list_all (evidenced es') ords"
    using assms(1) by (rule list.pred_mono_strong) (use assms(2) in \<open>auto simp: evidenced_def\<close>)
  consider (routed) "audit_event e = EventOrderRoutedToMatchingEngine" | (cancelled) "audit_event e = EventOrderCancelled"
    | (filled) "audit_event e = EventOrderFilled"
    | (other) "audit_event e \<noteq> EventOrderRoutedToMatchingEngine" "audit_event e \<noteq> EventOrderCancelled" "audit_event e \<noteq> EventOrderFilled"
    by blast
  then show ?thesis
  proof cases
    case routed
    then have "evidenced es' (routed_order_of e)" using assms(3) by (auto simp: evidenced_def routed_order_of_def)
    then show ?thesis using old routed by (simp add: follow_entry_def)
  next
    case cancelled
    have "list_all (evidenced es') (update_latest (entry_key e) (\<lambda>x. x\<lparr>was_cancelled := True, cancelled_at := audit_recorded_at e\<rparr>) ords)"
      using old by (rule update_latest_all) (use assms(3) cancelled in \<open>auto simp: evidenced_def\<close>)
    then show ?thesis by (simp add: follow_entry_def cancelled)
  next
    case filled
    have "list_all (evidenced es') (update_latest (entry_key e) (\<lambda>x. x\<lparr>was_filled := True, filled_at := audit_recorded_at e\<rparr>) ords)"
      using old by (rule update_latest_all) (auto simp: evidenced_def)
    then show ?thesis by (simp add: follow_entry_def filled)
  next
    case other
    then show ?thesis using old by (cases "audit_event e") (simp_all add: follow_entry_def)
  qed
qed

lemma routed_orders_evidenced: "list_all (evidenced es) (build_routed_orders es)"
proof -
  have "list_all (evidenced es') (foldl follow_entry ords es)" if "list_all (evidenced es') ords" "set es \<subseteq> set es'" for es es' ords
    using that by (induction es arbitrary: ords) (simp_all add: follow_entry_evidenced)
  then show ?thesis by (simp add: build_routed_orders_def)
qed

lemma window_members:
  "e \<in> set (entries_in_window es start stop) \<longleftrightarrow> e \<in> set es \<and> start \<le> audit_recorded_at e \<and> audit_recorded_at e \<le> stop"
  by (auto simp: entries_in_window_def time_before_def time_after_def)

lemma map_filter_set: "y \<in> set (List.map_filter f xs) \<longleftrightarrow> (\<exists>x\<in>set xs. f x = Some y)"
  by (force simp: List.map_filter_def image_iff)

lemma spoofing_flag_facts:
  "spoofing_flag es c x = Some i \<Longrightarrow> order_key_of x = (spoof_instrument i, spoof_sequence i) \<and> \<not> routed_is_market x \<and>
    spoofing_large_quantity c \<le> routed_quantity x \<and> was_cancelled x \<and>
    0 \<le>s time_sub (cancelled_at x) (routed_at x) \<and> time_sub (cancelled_at x) (routed_at x) \<le>s spoofing_cancel_within c"
  by (auto simp: spoofing_flag_def Let_def word_sle_eq word_sless_alt split: if_splits)

text \<open>Every spoofing incident that is reported for an account rests on entries of the trail within the window: a limit order of
  at least the configured size that this account routed, and a cancellation under its key that came within the configured time.\<close>

theorem spoofing_reports_evidenced:
  "list_all (\<lambda>i. \<exists>e\<in>set es. \<exists>x\<in>set es. audit_event e = EventOrderRoutedToMatchingEngine \<and> audit_account e = account \<and>
      \<not> audit_is_market e \<and> spoofing_large_quantity c \<le> audit_quantity e \<and> audit_event x = EventOrderCancelled \<and>
      entry_key e = (spoof_instrument i, spoof_sequence i) \<and> entry_key x = entry_key e \<and>
      start \<le> audit_recorded_at e \<and> audit_recorded_at x \<le> stop \<and> 0 \<le>s time_sub (audit_recorded_at x) (audit_recorded_at e) \<and>
      time_sub (audit_recorded_at x) (audit_recorded_at e) \<le>s spoofing_cancel_within c)
    (spoofing_incidents (run_all_detectors map_order c account es start stop))"
proof -
  define w where "w = entries_in_window (scope_entries_to_account es account) start stop"
  have "\<exists>e\<in>set es. \<exists>x\<in>set es. audit_event e = EventOrderRoutedToMatchingEngine \<and> audit_account e = account \<and>
      \<not> audit_is_market e \<and> spoofing_large_quantity c \<le> audit_quantity e \<and> audit_event x = EventOrderCancelled \<and>
      entry_key e = (spoof_instrument i, spoof_sequence i) \<and> entry_key x = entry_key e \<and>
      start \<le> audit_recorded_at e \<and> audit_recorded_at x \<le> stop \<and> 0 \<le>s time_sub (audit_recorded_at x) (audit_recorded_at e) \<and>
      time_sub (audit_recorded_at x) (audit_recorded_at e) \<le>s spoofing_cancel_within c" if i: "i \<in> set (detect_spoofing w c)" for i
  proof -
    obtain ord where o: "ord \<in> set (build_routed_orders w)" "spoofing_flag w c ord = Some i"
      using i by (auto simp: detect_spoofing_def map_filter_set)
    note facts = spoofing_flag_facts [OF o(2)]
    have "evidenced w ord" using routed_orders_evidenced [of w] o(1) by (simp add: list_all_iff)
    then obtain e x where "e \<in> set w" "audit_event e = EventOrderRoutedToMatchingEngine" "entry_key e = order_key_of ord"
        "audit_quantity e = routed_quantity ord" "audit_is_market e = routed_is_market ord" "audit_recorded_at e = routed_at ord"
        "x \<in> set w" "audit_event x = EventOrderCancelled" "entry_key x = order_key_of ord" "audit_recorded_at x = cancelled_at ord"
      using facts unfolding evidenced_def by blast
    then show ?thesis
      using facts by (intro bexI [of _ e] bexI [of _ x]) (auto simp: w_def window_members scope_entries_to_account_def)
  qed
  then show ?thesis by (simp add: run_all_detectors_def Let_def w_def [symmetric] list_all_iff)
qed

section \<open>Clusters\<close>

definition near_head :: "duration \<Rightarrow> routed_order list \<Rightarrow> bool" where
  "near_head window c \<longleftrightarrow> c \<noteq> [] \<and> list_all (\<lambda>x. time_sub (routed_at x) (routed_at (hd c)) \<le>s window) (tl c)"

definition separated :: "duration \<Rightarrow> routed_order list list \<Rightarrow> bool" where
  "separated window cs \<longleftrightarrow> successively (\<lambda>c d. window <s time_sub (routed_at (hd d)) (routed_at (hd c))) cs"

lemma cluster_loop:
  assumes "list_all (near_head window) (cs @ [cur])" and "separated window (cs @ [cur])"
  shows "case foldl (cluster_step window) (cs, cur) ords of (cs', cur') \<Rightarrow>
    list_all (near_head window) (cs' @ [cur']) \<and> separated window (cs' @ [cur']) \<and> concat cs' @ cur' = concat cs @ cur @ ords"
  using assms
proof (induction ords arbitrary: cs cur)
  case (Cons x ords)
  have cur: "cur \<noteq> []" using Cons.prems by (simp add: near_head_def)
  show ?case
  proof (cases "time_sub (routed_at x) (routed_at (hd cur)) \<le>s window")
    case True
    have "near_head window cur" using Cons.prems(1) by simp
    then have "near_head window (cur @ [x])" using cur True by (simp add: near_head_def tl_append2)
    then have "list_all (near_head window) (cs @ [cur @ [x]])" using Cons.prems(1) by simp
    moreover have "separated window (cs @ [cur @ [x]])"
      using Cons.prems(2) cur by (simp add: separated_def successively_append_iff)
    ultimately show ?thesis
      using Cons.IH [of cs "cur @ [x]"] cur True by (simp add: cluster_step_def hd_conv_nth)
  next
    case False
    have "near_head window [x]" by (simp add: near_head_def)
    then have "list_all (near_head window) ((cs @ [cur]) @ [[x]])" using Cons.prems(1) by simp
    moreover have "separated window ((cs @ [cur]) @ [[x]])"
      using Cons.prems(2) False by (simp add: separated_def successively_append_iff word_sless_alt word_sle_eq)
    ultimately show ?thesis
      using Cons.IH [of "cs @ [cur]" "[x]"] cur False by (simp add: cluster_step_def hd_conv_nth)
  qed
qed simp

text \<open>Clustering by time cuts the orders into consecutive runs, none empty: in a run every order is within the window of the
  first, and a new run begins only with an order beyond the window of the run before.\<close>

theorem clusters_cut_at_the_window:
  "concat (cluster_by_routed_time ords window) = ords \<and> list_all (near_head window) (cluster_by_routed_time ords window) \<and>
    separated window (cluster_by_routed_time ords window)"
proof (cases ords)
  case (Cons x xs)
  have "list_all (near_head window) ([] @ [[x]])" "separated window ([] @ [[x]])" by (simp_all add: near_head_def separated_def)
  note cluster_loop [OF this, of xs]
  moreover obtain cs cur where "foldl (cluster_step window) ([], [x]) xs = (cs, cur)" by fastforce
  ultimately show ?thesis by (simp add: cluster_by_routed_time_def Cons cluster_step_def near_head_def)
qed (simp add: cluster_by_routed_time_def separated_def)

section \<open>What a submission adds to the trail\<close>

text \<open>A fill entry as the trail has it, and the entries a submission appends: each is stamped by the clock of the trail, and its
  fills are given.\<close>

definition fill_terms :: "audit_entry \<Rightarrow> string \<times> string \<times> string \<times> string \<times> int64 \<times> uint64" where
  "fill_terms e = (audit_account e, audit_instrument e, audit_buying_account e, audit_selling_account e, audit_executed_price e,
     audit_executed_quantity e)"

definition trail_fills :: "audit_entry list \<Rightarrow> (string \<times> string \<times> string \<times> string \<times> int64 \<times> uint64) list" where
  "trail_fills es = map fill_terms (filter (\<lambda>e. audit_event e = EventOrderFilled) es)"

definition trail_grows :: "gateway_environment \<Rightarrow> audit_trail \<Rightarrow> audit_trail \<Rightarrow>
    (string \<times> string \<times> string \<times> string \<times> int64 \<times> uint64) list \<Rightarrow> bool" where
  "trail_grows env t t' fs \<longleftrightarrow> (\<exists>new. t' = t @ new \<and> trail_fills new = fs \<and>
     list_all (\<lambda>e. \<exists>n. audit_recorded_at e = env_audit_clock env n) new)"

lemma trail_grows_refl [simp]: "trail_grows env t t []"
  by (simp add: trail_grows_def trail_fills_def)

lemma trail_grows_trans: "trail_grows env t t' fs \<Longrightarrow> trail_grows env t' t'' gs \<Longrightarrow> trail_grows env t t'' (fs @ gs)"
  unfolding trail_grows_def by (fastforce simp: trail_fills_def)

lemma trail_grows_entry:
  "trail_grows env t (append_audit_entry (env_audit_clock env n) e t) (if audit_event e = EventOrderFilled then [fill_terms e] else [])"
  unfolding trail_grows_def append_audit_entry_def
  by (intro exI [of _ "[e\<lparr>audit_recorded_at := env_audit_clock env n\<rparr>]"]) (auto simp: trail_fills_def fill_terms_def)

lemma trail_grows_audit: "audit_event e \<noteq> EventOrderFilled \<Longrightarrow> trail_grows env (gw_audit s) (gw_audit (audit env e s)) []"
  using trail_grows_entry [of env "gw_audit s" "length (gw_audit s)" e] by (simp add: audit_def)

lemma order_entry_event [simp]: "audit_event (order_entry ev r actor detail) = ev"
  by (simp add: order_entry_def)

lemma reject_order_trail:
  "ev \<noteq> EventOrderFilled \<Longrightarrow>
    trail_grows env (gw_audit s) (gw_audit (fst (snd (reject_order env ev r actor detail code reason (s, v))))) []"
  by (simp add: reject_order_def trail_grows_audit)

lemma gate_trail:
  assumes "g \<in> set order_gates"
  shows "trail_grows env (gw_audit (fst p)) (gw_audit (fst (snd (g env r actor p)))) []"
proof -
  obtain s v where p: "p = (s, v)" by fastforce
  have grown: "trail_grows env (gw_audit s) (gw_audit (audit env (order_entry ev r actor detail) s')) []"
    if "ev \<noteq> EventOrderFilled" "gw_audit s' = gw_audit s" for ev detail s'
    using trail_grows_audit [of "order_entry ev r actor detail" env s'] that by simp
  show ?thesis
    using assms unfolding order_gates_def p
    by (auto simp: kill_switch_gate_def session_gate_def strategy_gate_def exposure_gate_def large_order_gate_def kyc_gate_def
      freeze_gate_def pledged_holding_gate_def disclosure_order_gate_def risk_gate_def reject_order_def Let_def grown
      split: option.splits prod.splits)
qed

lemma run_gates_trail:
  "set gs \<subseteq> set order_gates \<Longrightarrow> trail_grows env (gw_audit (fst p)) (gw_audit (fst (snd (run_gates gs env r actor p)))) []"
proof (induction gs arbitrary: p)
  case (Cons g gs)
  have one: "trail_grows env (gw_audit (fst p)) (gw_audit (fst (snd (g env r actor p)))) []"
    using Cons.prems by (intro gate_trail) simp
  have more: "trail_grows env (gw_audit (fst (snd (g env r actor p))))
      (gw_audit (fst (snd (run_gates gs env r actor (snd (g env r actor p)))))) []"
    using Cons by simp
  show ?case using one trail_grows_trans [OF one more] by (auto split: prod.split option.split)
qed simp

lemma release_reservations_trail [simp]: "gw_audit (release_reservations env r (s, v)) = gw_audit s"
  by (simp add: release_reservations_def Let_def)

lemma pass_gates_trail: "trail_grows env (gw_audit s) (gw_audit (fst (snd (pass_gates env r actor (s, v))))) []"
  using run_gates_trail [of order_gates env "(s, v)" r actor]
  by (auto simp: pass_gates_def split: prod.splits option.splits)

lemma accept_order_trail: "trail_grows env (gw_audit s) (gw_audit (snd (accept_order env r actor s))) []"
  using trail_grows_audit [of "submitted_entry r actor (gw_sequence s + 1)" env "s\<lparr>gw_sequence := gw_sequence s + 1\<rparr>"]
  by (auto simp: accept_order_def allocate_next_sequence_number_def Let_def submitted_entry_def split: option.splits)

lemma give_back_trail [simp]: "gw_audit (give_back r h s) = gw_audit s"
  by (simp add: give_back_def Let_def)

lemma fill_paper_order_trail: "trail_grows env (gw_audit s) (gw_audit (snd (fill_paper_order env r actor h ack s))) []"
proof -
  have grown: "trail_grows env (gw_audit s) (gw_audit (audit env (order_entry ev r actor detail) s')) []"
    if "ev \<noteq> EventOrderFilled" "gw_audit s' = gw_audit s" for ev detail s'
    using trail_grows_audit [of "order_entry ev r actor detail" env s'] that by simp
  show ?thesis
    by (auto simp: fill_paper_order_def simulation_failed_def Let_def grown split: prod.splits sum.splits)
qed

definition fill_terms_of :: "order_submission_request \<Rightarrow> trade_wire_event \<Rightarrow> string \<times> string \<times> string \<times> string \<times> int64 \<times> uint64" where
  "fill_terms_of r ev = (request_account r, request_instrument r, event_buyer ev, event_seller ev, event_price ev, event_quantity ev)"

lemma fill_terms_entry [simp]: "fill_terms (fill_entry ev r actor n trade detail) = fill_terms_of r trade"
  "audit_event (fill_entry ev r actor n trade detail) = ev"
  by (simp_all add: fill_terms_def fill_terms_of_def fill_entry_def order_entry_def)

lemma process_fill_trail:
  "trail_grows env (gw_audit (fp_state f)) (gw_audit (fp_state (process_fill env r actor i ev f)))
    (map (fill_terms_of r) (settled_fills env (ack_global_sequence_number (fp_ack f)) i [ev]))"
proof -
  have grown: "trail_grows env (gw_audit (fp_state f)) (gw_audit (audit env (fill_entry event r actor n ev detail) s'))
      (if event = EventOrderFilled then [fill_terms_of r ev] else [])"
    if "gw_audit s' = gw_audit (fp_state f)" for event n detail s'
    using trail_grows_entry [of env "gw_audit s'" "length (gw_audit s')" "fill_entry event r actor n ev detail"] that
    by (simp add: audit_def split: if_splits)
  show ?thesis
    using grown [where event = EventOrderFilled] grown [where event = EventSettlementFailedPositionNotApplied]
    by (auto simp: process_fill_def settle_trade_def Let_def split: option.splits)
qed

lemma process_fills_trail:
  "trail_grows env (gw_audit (fp_state f)) (gw_audit (fp_state (process_fills env r actor i evs f)))
    (map (fill_terms_of r) (settled_fills env (ack_global_sequence_number (fp_ack f)) i evs))"
proof (induction evs arbitrary: i f)
  case (Cons ev evs)
  have seq: "ack_global_sequence_number (fp_ack (process_fill env r actor i ev f)) = ack_global_sequence_number (fp_ack f)" by simp
  have "settled_fills env n i (ev # evs) = settled_fills env n i [ev] @ settled_fills env n (Suc i) evs" for n by simp
  with trail_grows_trans [OF process_fill_trail [of env f r actor i ev] Cons.IH [of "process_fill env r actor i ev f" "Suc i", unfolded seq]]
  show ?case by (simp only: process_fills.simps map_append)
qed simp

lemma reconcile_trail [simp]: "gw_audit (reconcile_reservations r h q n s) = gw_audit s"
  by (simp add: reconcile_reservations_def Let_def)

lemma route_order_trail:
  "trail_grows env (gw_audit s) (gw_audit (snd (route_order env r actor h ack s)))
    (map (fill_terms_of r) (settled_fills env (ack_global_sequence_number ack) 0 (engine_fills env r)))"
proof (cases "engine_refuses env r")
  case True
  have grown: "trail_grows env (gw_audit s) (gw_audit (audit env (order_entry ev r actor detail) s')) []"
    if "ev \<noteq> EventOrderFilled" "gw_audit s' = gw_audit s" for ev detail s'
    using trail_grows_audit [of "order_entry ev r actor detail" env s'] that by simp
  have "engine_fills env r = []" using True by (auto simp: engine_refuses_def engine_fills_def split: sum.splits)
  moreover have "trail_grows env (gw_audit s) (gw_audit (snd (route_order env r actor h ack s))) []"
    using True by (auto simp: engine_refuses_def route_order_def engine_failed_def Let_def grown split: sum.splits option.splits)
  ultimately show ?thesis by simp
next
  case False
  then obtain response where a: "env_matching_engine env (wire_request r) = Inr response" "response_error response = None"
    by (auto simp: engine_refuses_def split: sum.splits)
  define s1 where "s1 = s\<lparr>gw_kill_switch := snd (record_connectivity_check True (gw_kill_switch s))\<rparr>"
  define f where "f = (case response_sequence response of
      None \<Rightarrow> \<lparr>fp_ack = ack, fp_state = s1, fp_quantity = 0, fp_notional = 0\<rparr>
    | Some n \<Rightarrow> \<lparr>fp_ack = ack\<lparr>ack_matching_engine_sequence_number := n\<rparr>,
        fp_state = audit env (routed_entry r actor n) s1, fp_quantity = 0, fp_notional = 0\<rparr>)"
  have "trail_grows env (gw_audit s) (gw_audit (fp_state f)) []"
    using trail_grows_audit [of "routed_entry r actor n" env s1 for n]
    by (auto simp: f_def s1_def routed_entry_def split: option.splits)
  moreover have "snd (route_order env r actor h ack s) =
      (let g = process_fills env r actor 0 (engine_fills env r) f
       in reconcile_reservations r h (fp_quantity g) (fp_notional g) (fp_state g))"
    by (simp add: route_order_def a engine_fills_def f_def s1_def Let_def split: option.splits)
  moreover have "ack_global_sequence_number (fp_ack f) = ack_global_sequence_number ack" by (simp add: f_def split: option.splits)
  ultimately show ?thesis
    using trail_grows_trans [OF _ process_fills_trail [of env f r actor 0 "engine_fills env r"]] by (fastforce simp: Let_def)
qed

text \<open>The fills that a submission adds to the trail are the fills it books.\<close>

lemma submission_trail:
  "trail_grows env (gw_audit s) (gw_audit (snd (process_order_submission env r actor s))) (map (fill_terms_of r) (order_fills env r s))"
proof (cases "first_rejection (gate_verdicts env r s)")
  case None
  obtain ack s1 where a: "accept_order env r actor (gated_state env r s) = (ack, s1)" by fastforce
  have one: "trail_grows env (gw_audit s) (gw_audit s1) []"
    using accept_order_trail [of env "gated_state env r s" r actor]
    unfolding a by (simp add: gated_state_def)
  have seq: "ack_global_sequence_number ack = gw_sequence s + 1" using accept_order_frame [OF a] by simp
  show ?thesis
    using trail_grows_trans [OF one fill_paper_order_trail [of env s1 r actor "sells_holding r" ack]]
      trail_grows_trans [OF one route_order_trail [of env s1 r actor "sells_holding r" ack]]
    by (simp add: submission_accepted [OF None a] order_fills_def goes_live_def None seq)
next
  case (Some code)
  have "run_gates order_gates env r actor (s, no_reservations) \<noteq> (None, q)" for q
    using Some gates_passed [of env r actor s q] first_rejection_None [of "gate_verdicts env r s"] by auto
  then have "fst (pass_gates env r actor (s, no_reservations)) \<noteq> None"
    by (auto simp: pass_gates_def split: prod.splits option.splits)
  then have "snd (process_order_submission env r actor s) = fst (snd (pass_gates env r actor (s, no_reservations)))"
    by (auto simp: process_order_submission_def split: prod.splits option.splits)
  then show ?thesis
    using pass_gates_trail [of env s r actor no_reservations] by (simp add: order_fills_def goes_live_def Some)
qed

text \<open>A self trade in the terms of its incident: the instrument, the account on both sides, the price and the quantity.\<close>

definition wash_terms :: "wash_trade_incident \<Rightarrow> string \<times> string \<times> int64 \<times> uint64" where
  "wash_terms i = (wash_instrument i, wash_account i, wash_price i, wash_quantity i)"

definition self_fill :: "string \<Rightarrow> string \<times> string \<times> string \<times> string \<times> int64 \<times> uint64 \<Rightarrow> bool" where
  "self_fill account t = (case t of (owner, ins, buyer, seller, price, quantity) \<Rightarrow> owner = account \<and> buyer = seller \<and> buyer \<noteq> [])"

definition self_trade_terms :: "string \<times> string \<times> string \<times> string \<times> int64 \<times> uint64 \<Rightarrow> string \<times> string \<times> int64 \<times> uint64" where
  "self_trade_terms t = (case t of (owner, ins, buyer, seller, price, quantity) \<Rightarrow> (ins, buyer, price, quantity))"

abbreviation stamped_within :: "instant \<Rightarrow> instant \<Rightarrow> audit_entry \<Rightarrow> bool" where
  "stamped_within start stop e \<equiv> start \<le> audit_recorded_at e \<and> audit_recorded_at e \<le> stop"

lemma wash_trade_fill:
  "wash_trade e = None \<longleftrightarrow> \<not> (audit_event e = EventOrderFilled \<and> self_fill (audit_account e) (fill_terms e))"
  "wash_trade e = Some i \<Longrightarrow> wash_terms i = self_trade_terms (fill_terms e)"
  by (auto simp: wash_trade_def self_fill_def fill_terms_def wash_terms_def self_trade_terms_def split: if_splits)

lemma self_fill_owner: "self_fill account (fill_terms e) \<longleftrightarrow> audit_account e = account \<and> self_fill (audit_account e) (fill_terms e)"
  by (auto simp: self_fill_def fill_terms_def)

lemma wash_trades_of_account:
  assumes "\<And>e. audit_event e = EventOrderFilled \<Longrightarrow> P e \<longleftrightarrow> audit_account e = account"
  shows "map wash_terms (detect_wash_trades (filter P es)) = map self_trade_terms (filter (self_fill account) (trail_fills es))"
proof (induction es)
  case (Cons e es)
  show ?case
  proof (cases "wash_trade e")
    case None
    then have "\<not> (audit_event e = EventOrderFilled \<and> self_fill account (fill_terms e))"
      using self_fill_owner [of account e] wash_trade_fill(1) [of e] by metis
    then show ?thesis using Cons None by (simp add: detect_wash_trades_def trail_fills_def)
  next
    case (Some i)
    then have f: "audit_event e = EventOrderFilled" "self_fill (audit_account e) (fill_terms e)"
      using wash_trade_fill(1) [of e] by auto
    then have "P e \<longleftrightarrow> self_fill account (fill_terms e)" using assms self_fill_owner [of account e] by metis
    then show ?thesis using Cons Some f wash_trade_fill(2) [OF Some] by (simp add: detect_wash_trades_def trail_fills_def)
  qed
qed (simp add: detect_wash_trades_def trail_fills_def)

lemma wash_trades_permute: "mset xs = mset ys \<Longrightarrow> mset (detect_wash_trades xs) = mset (detect_wash_trades ys)"
proof -
  have "mset (detect_wash_trades xs) = image_mset (the \<circ> wash_trade) (filter_mset (\<lambda>e. wash_trade e \<noteq> None) (mset xs))" for xs
    by (simp only: detect_wash_trades_def List.map_filter_def mset_map mset_filter)
  then show "mset xs = mset ys \<Longrightarrow> mset (detect_wash_trades xs) = mset (detect_wash_trades ys)" by simp
qed

lemma wash_trades_terms:
  "image_mset wash_terms (mset (detect_wash_trades (entries_in_window (scope_entries_to_account es account) start stop))) =
    mset (map self_trade_terms (filter (self_fill account) (trail_fills (filter (stamped_within start stop) es))))"
proof -
  define P where "P e \<longleftrightarrow> audit_account e = account \<or>
     (audit_event e = EventOrderCancelled \<or> audit_event e = EventOrderCancelFailed) \<and> entry_key e \<in> set (owned_keys es account)" for e
  have scope: "scope_entries_to_account es account = filter P es" by (simp add: scope_entries_to_account_def P_def [abs_def])
  have "mset (entries_in_window (filter P es) start stop) = mset (filter P (filter (stamped_within start stop) es))"
    by (simp add: entries_in_window_def time_before_def time_after_def not_less filter_filter_mset conj_commute)
  then have "mset (detect_wash_trades (entries_in_window (filter P es) start stop)) =
      mset (detect_wash_trades (filter P (filter (stamped_within start stop) es)))" by (rule wash_trades_permute)
  moreover have "map wash_terms (detect_wash_trades (filter P (filter (stamped_within start stop) es))) =
      map self_trade_terms (filter (self_fill account) (trail_fills (filter (stamped_within start stop) es)))"
    by (rule wash_trades_of_account) (simp add: P_def)
  ultimately show ?thesis unfolding scope by (metis mset_map)
qed

text \<open>C19. Every fill of an order that an account makes with itself and that is booked is in the next surveillance report of that
  account, once, with its instrument, price and quantity, beside the ones reported before, and nothing else is added: the report is
  exact on what the order pipeline writes. The window that is asked for contains the readings of the clock, as the unbounded
  default window of the handler does.\<close>

theorem self_trades_reported:
  assumes "\<forall>n. start \<le> env_audit_clock env n \<and> env_audit_clock env n \<le> stop"
  shows "image_mset wash_terms (mset (wash_trade_incidents (run_all_detectors map_order c account
      (gw_audit (snd (process_order_submission env r actor s))) start stop))) =
    image_mset wash_terms (mset (wash_trade_incidents (run_all_detectors map_order c account (gw_audit s) start stop))) +
    mset (map self_trade_terms (filter (self_fill account) (map (fill_terms_of r) (order_fills env r s))))"
proof -
  obtain new where new: "gw_audit (snd (process_order_submission env r actor s)) = gw_audit s @ new"
    "trail_fills new = map (fill_terms_of r) (order_fills env r s)" "list_all (\<lambda>e. \<exists>n. audit_recorded_at e = env_audit_clock env n) new"
    using submission_trail [of env s r actor] unfolding trail_grows_def by blast
  have "filter (stamped_within start stop) new = new"
    using new(3) assms by (intro filter_True) (auto simp: list_all_iff)
  then have "trail_fills (filter (stamped_within start stop) (gw_audit s @ new)) =
      trail_fills (filter (stamped_within start stop) (gw_audit s)) @ trail_fills new" by (simp add: trail_fills_def)
  then show ?thesis
    by (simp add: run_all_detectors_def Let_def wash_trades_terms new(1,2) del: filter_append)
qed

definition self_trade_environment :: gateway_environment where
  "self_trade_environment = (demo_environment (\<lambda>q. Inr \<lparr>response_trades =
     [\<lparr>event_buyer = ''b'', event_seller = ''b'', event_price = 9, event_quantity = 5\<rparr>], response_error = None, response_sequence = Some 1\<rparr>))
     \<lparr>env_audit_clock := (\<lambda>n. 7)\<rparr>"

lemma self_trade_fills:
  "order_fills self_trade_environment (demo_order ''b'' False 0 5) demo_gateway =
    [\<lparr>event_buyer = ''b'', event_seller = ''b'', event_price = 9, event_quantity = 5\<rparr>]"
proof -
  have "goes_live self_trade_environment (demo_order ''b'' False 0 5) demo_gateway"
    by (simp add: self_trade_environment_def goes_live_def gate_verdicts_def verdict_defs demo_defs is_trading_halted_def
      check_and_reserve_exposure_def over_limit_def evaluate_order_def order_notional_def risk_notional_def Let_def lookup_or_def
      positions_for_account_def reserve_unpledged_for_sell_def pledged_quantity_def pledge_of_def nested_lookup_def
      reserved_for_pending_sell_def word_sle_eq word_sless_alt)
  then show ?thesis by (simp add: order_fills_def engine_fills_def self_trade_environment_def demo_environment_def)
qed

theorem self_trades_reported_witness:
  "image_mset wash_terms (mset (wash_trade_incidents (run_all_detectors (\<lambda>ks. ks) default_detector_configuration ''b''
     (gw_audit (snd (process_order_submission self_trade_environment (demo_order ''b'' False 0 5) ''b'' demo_gateway))) 0 10))) =
   {#(''X'', ''b'', 9, 5)#}"
proof -
  have clock: "\<forall>n. (0 :: int) \<le> env_audit_clock self_trade_environment n \<and> env_audit_clock self_trade_environment n \<le> 10"
    by (simp add: self_trade_environment_def)
  have "gw_audit demo_gateway = []" by (simp add: demo_gateway_def)
  moreover have "wash_trade_incidents (run_all_detectors (\<lambda>ks. ks) default_detector_configuration ''b'' [] 0 10) = []"
    by (simp add: run_all_detectors_def entries_in_window_def scope_entries_to_account_def detect_wash_trades_def Let_def)
  ultimately show ?thesis
    using self_trades_reported [OF clock, of "\<lambda>ks. ks" default_detector_configuration "''b''" "demo_order ''b'' False 0 5" "''b''" demo_gateway]
    by (simp add: self_trade_fills fill_terms_of_def self_fill_def self_trade_terms_def) (simp add: demo_order_def)
qed

text \<open>A fill is scoped to the account of the order that arrived last: the other side never sees it.\<close>

theorem passive_fill_out_of_scope:
  "filter (\<lambda>e. audit_event e = EventOrderFilled) (scope_entries_to_account
      [fill_entry EventOrderFilled r actor n ev detail] account) =
    (if request_account r = account then [fill_entry EventOrderFilled r actor n ev detail] else [])"
  by (simp add: scope_entries_to_account_def) (simp add: fill_entry_def order_entry_def)

end
