(* ===== verification/SquareOff.thy ===== *)
theory SquareOff
  imports GoFloat
begin

text \<open>
  The countdown to the intraday square-off and its reminders, services/oms-gateway/internal/marketsession/squareOffCountdown.go with
  the two handlers of cmd/server/main.go. The clock is an argument; the text of the remaining time is the duration it prints.
\<close>

section \<open>The countdown\<close>

record square_off_cutoff_config =
  hour_utc :: int
  minute_utc :: int
  second_utc :: int

definition default_square_off_cutoff_config :: square_off_cutoff_config where
  "default_square_off_cutoff_config = \<lparr>hour_utc = 15, minute_utc = 20, second_utc = 0\<rparr>"

definition default_square_off_reminder_thresholds :: "duration list" where
  "default_square_off_reminder_thresholds = [30 * 60000000000, 15 * 60000000000, 5 * 60000000000]"

definition cutoff_for_date :: "square_off_cutoff_config \<Rightarrow> instant \<Rightarrow> instant" where
  "cutoff_for_date c now = utc_day_start now + (hour_utc c * 3600 + minute_utc c * 60 + second_utc c) * 10 ^ 9"

record square_off_countdown =
  cutoff_time :: instant
  remaining_seconds :: int64
  is_past_cutoff :: bool
  remaining_text :: duration

text \<open>\<open>Duration.Round\<close> of a non-negative duration: the nearest multiple, halves up, saturating.\<close>

definition duration_round :: "duration \<Rightarrow> duration \<Rightarrow> duration" where
  "duration_round m d = (let r = int64_mod d m in
     if r + r < m then d - r else if d <s d - r + m then d - r + m else max_int64)"

definition compute_square_off_countdown :: "instant \<Rightarrow> instant \<Rightarrow> square_off_countdown" where
  "compute_square_off_countdown cutoff now =
    (let remaining = (if time_sub cutoff now <s 0 then 0 else time_sub cutoff now)
     in \<lparr>cutoff_time = cutoff, remaining_seconds = int64_of_float (duration_seconds remaining),
         is_past_cutoff = (\<not> time_before now cutoff), remaining_text = duration_round 1000000000 remaining\<rparr>)"

section \<open>Reminders\<close>

text \<open>What has fired: the account, the cutoff in Unix seconds, and the threshold.\<close>

record reminder_tracker =
  thresholds_of :: "duration list"
  fired :: "(string \<times> int \<times> duration) set"

datatype reminder_error = NoReminderThresholds | NonPositiveThreshold duration

fun check_thresholds :: "duration list \<Rightarrow> reminder_error option" where
  "check_thresholds [] = None"
| "check_thresholds (t # ts) = (if t \<le>s 0 then Some (NonPositiveThreshold t) else check_thresholds ts)"

definition new_reminder_tracker :: "duration list \<Rightarrow> reminder_error + reminder_tracker" where
  "new_reminder_tracker ts =
    (if ts = [] then Inl NoReminderThresholds
     else case check_thresholds ts of Some e \<Rightarrow> Inl e | None \<Rightarrow> Inr \<lparr>thresholds_of = ts, fired = {}\<rparr>)"

definition cutoff_seconds :: "instant \<Rightarrow> int" where
  "cutoff_seconds t = t div 10 ^ 9"

fun due_loop :: "string \<Rightarrow> int \<Rightarrow> duration \<Rightarrow> duration list \<Rightarrow> (string \<times> int \<times> duration) set \<Rightarrow>
    duration list \<times> (string \<times> int \<times> duration) set" where
  "due_loop account key remaining [] done_already = ([], done_already)"
| "due_loop account key remaining (t # ts) done_already =
    (if remaining <s 0 then due_loop account key remaining ts done_already
     else if remaining \<le>s t \<and> (account, key, t) \<notin> done_already
     then case due_loop account key remaining ts (insert (account, key, t) done_already) of (due, f) \<Rightarrow> (t # due, f)
     else due_loop account key remaining ts done_already)"

definition due_reminders :: "string \<Rightarrow> instant \<Rightarrow> instant \<Rightarrow> reminder_tracker \<Rightarrow> duration list \<times> reminder_tracker" where
  "due_reminders account cutoff now tr =
    (case due_loop account (cutoff_seconds cutoff) (time_sub cutoff now) (thresholds_of tr) (fired tr) of
       (due, f) \<Rightarrow> (due, tr\<lparr>fired := f\<rparr>))"

definition has_fired :: "string \<Rightarrow> instant \<Rightarrow> duration \<Rightarrow> reminder_tracker \<Rightarrow> bool" where
  "has_fired account cutoff t tr \<longleftrightarrow> (account, cutoff_seconds cutoff, t) \<in> fired tr"

text \<open>The handlers: the reminder handler refuses a request that names no account.\<close>

definition countdown_handler :: "square_off_cutoff_config \<Rightarrow> instant \<Rightarrow> square_off_countdown" where
  "countdown_handler c now = compute_square_off_countdown (cutoff_for_date c now) now"

definition reminders_handler :: "square_off_cutoff_config \<Rightarrow> string \<Rightarrow> instant \<Rightarrow> reminder_tracker \<Rightarrow>
    (instant \<times> float64 list \<times> square_off_countdown) option \<times> reminder_tracker" where
  "reminders_handler c account now tr =
    (if account = [] then (None, tr)
     else let cutoff = cutoff_for_date c now in
       case due_reminders account cutoff now tr of (due, tr') \<Rightarrow>
         (Some (cutoff, map duration_seconds due, compute_square_off_countdown cutoff now), tr'))"

section \<open>Every reminder once\<close>

text \<open>A client polls: an account, a cutoff and the time. What fires over a sequence of polls, in order.\<close>

fun run_polls :: "(string \<times> instant \<times> instant) list \<Rightarrow> reminder_tracker \<Rightarrow> (string \<times> int \<times> duration) list" where
  "run_polls [] tr = []"
| "run_polls ((account, cutoff, now) # ps) tr = (case due_reminders account cutoff now tr of
     (due, tr') \<Rightarrow> map (\<lambda>t. (account, cutoff_seconds cutoff, t)) due @ run_polls ps tr')"

lemma due_loop_exact:
  "due_loop account key remaining ts d = (due, f) \<Longrightarrow>
    distinct due \<and> f = d \<union> (\<lambda>t. (account, key, t)) ` set due \<and>
    set due = {t \<in> set ts. \<not> remaining <s 0 \<and> remaining \<le>s t \<and> (account, key, t) \<notin> d}"
proof (induction ts arbitrary: d due f)
  case (Cons t ts)
  show ?case
  proof (cases "\<not> remaining <s 0 \<and> remaining \<le>s t \<and> (account, key, t) \<notin> d")
    case True
    obtain due' where "due_loop account key remaining ts (insert (account, key, t) d) = (due', f)" "due = t # due'"
      using Cons.prems True by (auto split: prod.splits)
    with Cons.IH [of "insert (account, key, t) d" due' f] True show ?thesis by auto
  next
    case False
    then have "due_loop account key remaining ts d = (due, f)" using Cons.prems by (auto split: if_splits)
    from Cons.IH [OF this] False show ?thesis by auto
  qed
qed simp

definition polled_reminders :: "duration list \<Rightarrow> (string \<times> instant \<times> instant) list \<Rightarrow> (string \<times> int \<times> duration) set" where
  "polled_reminders ts ps = {(account, cutoff_seconds cutoff, t) | account cutoff now t.
     (account, cutoff, now) \<in> set ps \<and> t \<in> set ts \<and> \<not> time_sub cutoff now <s 0 \<and> time_sub cutoff now \<le>s t}"

lemma polled_reminders_Cons:
  "polled_reminders ts ((account, cutoff, now) # ps) = (\<lambda>t. (account, cutoff_seconds cutoff, t)) `
      {t \<in> set ts. \<not> time_sub cutoff now <s 0 \<and> time_sub cutoff now \<le>s t} \<union> polled_reminders ts ps"
  by (auto simp: polled_reminders_def)

lemma run_polls_exact:
  "distinct (run_polls ps tr) \<and> set (run_polls ps tr) = polled_reminders (thresholds_of tr) ps - fired tr"
proof (induction ps arbitrary: tr)
  case (Cons p ps)
  obtain account cutoff now where p: "p = (account, cutoff, now)" by (metis prod_cases3)
  obtain due f where d: "due_loop account (cutoff_seconds cutoff) (time_sub cutoff now) (thresholds_of tr) (fired tr) = (due, f)" by fastforce
  note due = due_loop_exact [OF d]
  have IH: "distinct (run_polls ps (tr\<lparr>fired := f\<rparr>)) \<and> set (run_polls ps (tr\<lparr>fired := f\<rparr>)) = polled_reminders (thresholds_of tr) ps - f"
    using Cons.IH [of "tr\<lparr>fired := f\<rparr>"] by simp
  have "run_polls (p # ps) tr = map (\<lambda>t. (account, cutoff_seconds cutoff, t)) due @ run_polls ps (tr\<lparr>fired := f\<rparr>)"
    by (simp add: p due_reminders_def d)
  moreover have "distinct (map (\<lambda>t. (account, cutoff_seconds cutoff, t)) due)" using due by (simp add: distinct_map inj_on_def)
  ultimately show ?case using IH due unfolding p polled_reminders_Cons by auto
qed (simp add: polled_reminders_def)

text \<open>C36. However often and by whomever it is polled, a fresh tracker fires each reminder exactly once: for an account and a cutoff,
  a threshold fires if and only if some poll came between that long before the cutoff and the cutoff itself.\<close>

theorem reminders_fire_exactly_once:
  "case new_reminder_tracker ts of
     Inl e \<Rightarrow> ts = [] \<or> (\<exists>t\<in>set ts. e = NonPositiveThreshold t \<and> t \<le>s 0)
   | Inr tr \<Rightarrow> distinct (run_polls ps tr) \<and> set (run_polls ps tr) = polled_reminders ts ps"
proof -
  have "check_thresholds ts = Some e \<Longrightarrow> \<exists>t\<in>set ts. e = NonPositiveThreshold t \<and> t \<le>s 0" for e
    by (induction ts) (auto split: if_splits)
  then show ?thesis
    using run_polls_exact [of ps] by (auto simp: new_reminder_tracker_def split: option.splits)
qed

end
