(* ===== verification/Spec2Isabelle.thy ===== *)
theory Spec2Isabelle
  imports Snapshot WithdrawalWorkflow DepositRail PaymentMandate MultiCurrencyWallet AmlMonitoring
    RiskEngine ExposureLimits PositionBook OrderTypes Idempotency GatewayServices SessionStore
    ConnectivityProbe GatewayHandlers CreditBooks SecuritiesLending ExecutionAlgos CorporateActions
    CapitalGains AuthServer AccountOpening AccountHolders BondAuction FundOrders BackOffice Referrals
    Liquidation MultiLegOptions BasketOrders TradeSurveillance SquareOff
begin

text \<open>
  Verification library for the Go services of Mercurius, a retail and institutional trading
  platform. Paths below are relative to the repository root; a Go package \<open>internal/p\<close> is
  named by its directory. A property is labelled C and its number in the text before its theorem.

  1. The program and what is modelled.

  The ledger service (services/ledger) keeps the money. Its core is a double-entry book; on it
  sit the guard that keeps client money segregated, the withdrawal workflow, the deposit rail, the
  payment mandates and the currency wallets, which all post through the book or the guard, and the
  anti-money-laundering monitor, which only watches.

    JournalEntry, DoubleEntry   internal/doubleentry/doubleEntryLedgerCore.go: entries, the book
                                (balances by account, posted entries in order), posting. The Go
                                interface LedgerBook is the locale \<open>ledger_interface\<close>, interpreted
                                as \<open>book\<close>.
    Snapshot                    internal/doubleentry/snapshotRestore.go.
    FundSegregation             internal/fundsegregation/clientFundSegregation.go.
    WithdrawalWorkflow          internal/withdrawalworkflow/withdrawalWorkflow.go.
    DepositRail                 internal/depositrail/simulatedDepositRail.go.
    GoCalendar, PaymentMandate  time.AddDate and internal/paymentmandate/paymentMandate.go.
    MultiCurrencyWallet         internal/multicurrencywallet/multiCurrencyWallet.go.
    AmlMonitoring               internal/amlmonitoring/amlMonitor.go.

  The order gateway (services/oms-gateway) checks an order before it reaches the matching engine
  and books its fills. Its components are first modelled alone:

    RiskEngine                  internal/riskengine/preTradeRiskEngine.go: available margin per
                                account, checked and reserved in one step.
    ExposureLimits              internal/exposurelimits/exposureLimitsRegistry.go.
    KillSwitch                  internal/connectivitykillswitch/killSwitch.go.
    AlgoLimits                  internal/algolimits/strategyLimiter.go: a token bucket and a daily
                                notional cap per strategy.
    LargeOrderFriction          internal/largeorderfriction/largeOrderFriction.go.
    RiskDisclosureGate          internal/riskdisclosuregate/riskDisclosureGate.go.
    FractionalShares            internal/fractionalshares and internal/papertrading.
    MarkToMarket                internal/marktomarket/markToMarketEngine.go: cost bases.
    MarginPledge                internal/marginpledge/marginPledgeBook.go: pledged collateral and
                                the reservations of sell orders.
    OvertradingDetection        internal/overtradingdetection/overtradingDetector.go.
    PositionBook                internal/positions/positionBook.go.
    OrderTypes                  internal/orders/orderTypes.go: the submission, the acknowledgement
                                and the validation of the execution type.
    Idempotency                 internal/idempotency (idempotencyStore.go, reconciliation.go).
    GatewayServices             internal/sequencing, internal/marketsession, internal/amoqueue,
                                internal/audittrail.

  and then composed as cmd/server/main.go composes them:

    OrderGates                  the first half of processOrderSubmission: the state bundle
                                \<open>gateway_state\<close>, the environment of the network services, and the
                                gates in their order, each with a verdict that says when it objects.
    OrderPipeline               the rest of it: acceptance, paper fills, routing to the matching
                                engine, the fill loop with settlement, the reconciliation of the
                                order's reservations, and the release of what a rejected order held.
    GatewayHandlers             the handlers around it: submission with an idempotency key and the
                                after-market queue, opening and closing the market, cancellation,
                                cover orders, and the pledge handlers.
    ConnectivityProbe           the background probe that feeds the kill switch.

  Beside the pipeline the gateway keeps books of its own and schedules orders:

    CreditBooks                 internal/marginfunding and internal/loanagainstsecurities with the
                                handlers that lend against pledged collateral. The contract that both
                                books share is the locale \<open>principal_book\<close>, interpreted as \<open>funding\<close>
                                and \<open>loans\<close>.
    SecuritiesLending           internal/securitieslendingborrowing.
    ExecutionAlgos              internal/executionalgos/executionAlgoScheduler.go: TWAP, VWAP and
                                percentage-of-volume slices of a parent order.
    CorporateActions            internal/corporateactionsprocessing, internal/drip and their handlers.
    Liquidation                 internal/autoliquidation with its handlers: positions of an account whose
                                funding exceeds its collateral are sold through the pipeline.
    MultiLegOptions             internal/multilegoptions and its handler: six option strategies, executed
                                whole or compensated.
    BasketOrders                internal/basketorders and its handler.
    TradeSurveillance           internal/tradesurveillance and its handler: wash trades, spoofing and
                                layering in the trail the pipeline writes.
    SquareOff                   internal/marketsession/squareOffCountdown.go.

  The reporting service (services/reporting) reads the audit trail of the gateway:

    FillTrail                   internal/filltrail/fillTrail.go: fills from audit entries.
    CapitalGains                internal/capitalgains/capitalGains.go: first in, first out.

  The authentication service (services/auth):

    SessionStore                internal/sessionstore/sessionStore.go.
    AuthCodecs, Credentials     base64, base32 and counters; internal/totp, internal/passwordhashing and
                                internal/jwtauth: codes, stored passwords and access tokens.
    LoginGuards                 internal/ratelimiter, internal/accountstore and internal/mfastate.
    LoginAnomaly                internal/anomalouslogindetection.
    AuthServer                  the handlers of cmd/server/main.go, composed over these stores.

  The onboarding service (services/kyc-onboarding):

    AccountOpening              internal/kycstate, internal/bankverification, internal/riskprofiling.
    AccountHolders              internal/nomineedesignation and internal/jointholding.

  The fund service (services/mutual-funds):

    BondAuction                 internal/primarymarketbidding over the calendar of internal/fixedincome.
    FundOrders                  internal/fundcatalog, internal/amcrouting and internal/sipscheduler.

  The back office (services/backoffice):

    BackOffice                  internal/accountcontrol, internal/familyaccountaccess,
                                internal/nomineesuccession and internal/supportticketing.
    Referrals                   internal/referralrewards and its handlers, over the position book of the
                                gateway and the book of the ledger.

  Prelude, GoFloat and GoText hold what the components share: association tables, the locale of
  invariants, word lemmas, the float type and the formatting verbs.

  2. How the model corresponds to the code.

  A Go struct is a record, a Go map an association list with distinct keys (Prelude: \<open>lookup\<close>, \<open>put\<close>,
  \<open>remove\<close>, \<open>table_ok\<close>), a map that the source sorts before use is read in the order of its keys
  (\<open>indexed_values\<close>), an int64 or uint64 a 64-bit word with wrapping arithmetic, a time.Time an integer
  number of nanoseconds. A sentinel error is a constructor of the component's error type; an error
  wrapped with \<open>fmt.Errorf\<close> is the constructor with the values formatted into it. An operation takes
  the state and returns the new state with its result, in a sum or an option. A pointer that may be
  nil is an option.

  Operations that hold one mutex from beginning to end are one step. Operations that release it
  in between (the payout sweep, the confirmation of a deposit, the sweep of mandates, the rotation
  of a token, a submission that waits for another) have both forms: a function that runs them
  alone, and an inductive step relation over their critical sections, in which any number of calls
  are in flight and interleave. The locale \<open>invariant_system\<close> of Prelude carries an invariant from
  the steps to the reachable states; each relation interprets it. processOrderSubmission is one step:
  its theorems are about orders that are processed one after the other.

  The clock readings of an order, the answers of the KYC and back-office services, of the matching
  engine and of the ledger are the fields of \<open>gateway_environment\<close>, arbitrary functions: nothing is
  assumed of them except where a theorem names it.

  3. What the lemmas show.

  Pipeline: an order is accepted exactly when no gate objects to the state it arrives in, a rejected
  order moves no margin and no holding and gives back exactly what the gates reserved (what the
  large-order history and a strategy's token bucket keep of it is stated with it), margins move by exactly the reservation and the
  settled fills, positions and cost bases stay in agreement, a failed hand-off
  restores margins, pledges and books and keeps the exposure reserved, a paper order leaves the
  books alone, a retry with the same key is answered from the store, queued orders run at
  the open as if submitted then, collateral moves margin without creating any, and an automatic halt
  ends with the first probe that reaches the engine.
  Ledger: posting is exact and atomic, all reachable books balance and are explained by their
  journal, a snapshot restores the book; every path through the guard keeps the custody pool equal
  to the clients' total, and the report says so; holds, payouts, deposits and mandate debits move
  exactly their amount and, when operations do not overlap, exactly once; conversions round half
  up and post balanced entries; the monitor raises exactly the alerts its rules call for.
  Components of the gateway: reservations never exceed the balance at the start, exposure caps are
  exact within 63 bits, the daily notional and the burst of a strategy are capped, positions are
  the net of the fills, open sells stay covered by unpledged holdings, a key is executed once.
  Books beside the pipeline: lending conserves margin plus principal, securities lent are covered by
  the holding they were checked against, schedules sum to the parent order and are released once,
  corporate actions conserve cost. Reports: a fill the pipeline writes is read back, and gains pair
  every share sold with the oldest share still held.
  Orders of several parts: a strategy of the right shape, and no other, is executed whole or its
  accepted legs are compensated one by one; a basket submits each constituent once within its cash;
  a liquidation sizes each sale by what the sales before it have not executed, and what it leaves
  open is the shortfall less what was executed, nothing where the orders fill at the reference
  price and the account can cover it. The
  surveillance report contains the self trades the pipeline books, and what it flags rests on
  entries of the trail; a square-off reminder fires exactly once.
  Authentication: a login needs every factor that is enabled, guesses are capped, issued tokens
  verify. Onboarding: holding structures and nominations are well formed after every operation.
  Funds: an auction allots what is offered by yield, a sweep of the plans adds exactly the orders of
  the due ones, and due orders settle once when sweeps do not overlap. Back office: the trail of a
  succession is the list of the calls that succeeded and replays to its state, and a referral is
  rewarded once, to the referrer, when checks do not overlap.
  Sessions: one active token per family. Where the code leaves a gap (arithmetic that wraps, a
  status that is not read again after a mutex was released, a reservation that is not given back) a
  theorem exhibits the run or the values that reach it; such theorems carry no C label.

  4. Conventions and bounds.

  Text is ASCII: identifiers, names and symbols compare and change case as ASCII text, and a dash
  in a message is a hyphen. Calendar arithmetic is in a zone of fixed offset, which is a
  parameter. Random identifiers and tokens are arguments, and the step relations issue them
  fresh; a failing source of randomness is \<open>None\<close>. A float64 is the rational number it denotes, every operation
  rounding to nearest even, without infinities and NaN (GoFloat), and the text of a formatted float is a parameter (\<open>float_text\<close>). The
  sweeps and the loops over lines, mandates, gates and fills are structural recursions over their
  lists; the loop that matches a sale is a partial function, proved to return. No fuel is used
  anywhere. Map iteration order and unstable sorts are arguments; a sweep of fund orders reads one catalog
  throughout. So are HMAC, PBKDF2, the JSON
  decoder of a token's claims and the trigonometry of the login detectors, arbitrary functions; the
  answers of the ledger to a posting where the caller reaches it over the network; and the
  submission of an order in the engines that take one (Liquidation, MultiLegOptions, BasketOrders),
  to which the server definitions pass the order pipeline with an environment for each submission.

  5. What is not modelled.

  The Postgres modes of the ledger, the positions, the audit trail and the idempotency cache: SQL
  against an external database. The decoding and encoding of HTTP requests, the check that a
  request is authenticated as the account it names, the network clients, the proxy of the API
  gateway and the line protocol of direct market access: I/O around the operations modelled here.
  Cryptographic primitives, which are parameters. The analytics of the gateway (option chains,
  payoffs, stress tests, cost estimates, illustrative margins) and the advisory parts of the fund
  and reporting services: read-only figures on float64 that nothing acts on, and rendered text.
\<close>

end
